(* ===== verification/Prelude.thy ===== *)
theory Prelude
  imports Complex_Main "HOL-Library.AList"
begin

text \<open>
  Shared vocabulary of the development.

  \<^item> Numbers.  The front end computes with JavaScript doubles.  A finite double is a
    rational number, \<open>js_num\<close>; rounding of the last bit is not modelled.  Where a \<open>NaN\<close> can
    reach a decision of the code the component uses \<open>js_value_num\<close>, whose comparisons follow
    ECMAScript (every comparison with \<open>NaN\<close> is false).
  \<^item> Objects used as dictionaries.  A JavaScript object indexed by id is an association list
    in insertion order, read by \<open>lookup\<close> and written by \<open>store\<close> (which is what
    \<open>{...o, [k]: v}\<close> does: an existing key keeps its position, a new one goes to the end).
  \<^item> Strings of ids, keys and ASCII labels are HOL strings.
\<close>

named_theorems conserve \<open>facts of the form: an operation leaves this quantity unchanged\<close>
named_theorems inv_intro \<open>preservation of a component invariant by an operation\<close>

type_synonym js_num = rat

subsection \<open>Math\<close>

text \<open>\<open>Math.round\<close> rounds half up.\<close>

definition js_round :: "js_num \<Rightarrow> int" where
  "js_round x = \<lfloor>x + 1 / 2\<rfloor>"

lemma js_round_of_int [simp]: "js_round (of_int n) = n"
proof -
  have "\<lfloor>of_int n + 1 / (2::rat)\<rfloor> = n"
    by (rule floor_unique) auto
  then show ?thesis by (simp add: js_round_def)
qed

lemma js_round_0 [simp]: "js_round 0 = 0"
  using js_round_of_int [of 0] by simp

lemma js_round_numeral [simp]: "js_round (numeral n) = numeral n"
  using js_round_of_int [of "numeral n"] by simp

lemma js_round_mono: "x \<le> y \<Longrightarrow> js_round x \<le> js_round y"
  unfolding js_round_def by (rule floor_mono) simp

lemma js_round_close: "\<bar>of_int (js_round x) - x\<bar> \<le> 1 / 2"
  unfolding js_round_def abs_le_iff by linarith

lemma js_round_nonneg: "0 \<le> x \<Longrightarrow> 0 \<le> js_round x"
  using js_round_mono [of 0 x] by simp

subsection \<open>Objects as dictionaries\<close>

abbreviation lookup :: "('k \<times> 'v) list \<Rightarrow> 'k \<Rightarrow> 'v option" where
  "lookup m k \<equiv> map_of m k"

fun store :: "'k \<Rightarrow> 'v \<Rightarrow> ('k \<times> 'v) list \<Rightarrow> ('k \<times> 'v) list" where
  "store k v [] = [(k, v)]"
| "store k v ((k', v') # m) = (if k' = k then (k, v) # m else (k', v') # store k v m)"

lemma lookup_store [simp]: "lookup (store k v m) k' = (if k' = k then Some v else lookup m k')"
  by (induction k v m rule: store.induct) auto

lemma dom_store [simp]: "fst ` set (store k v m) = insert k (fst ` set m)"
  by (induction k v m rule: store.induct) auto

lemma distinct_store [simp]: "distinct (map fst m) \<Longrightarrow> distinct (map fst (store k v m))"
proof (induction k v m rule: store.induct)
  case (2 k v k' v' m)
  then show ?case
    using dom_store [of k v m] by (auto simp del: dom_store)
qed auto

lemma store_same: "lookup m k = Some v \<Longrightarrow> store k v m = m"
  by (induction m) (auto split: if_splits)

text \<open>A pass over all values, in key order, as a loop over \<open>Object.keys\<close> that assigns back.\<close>

definition map_vals :: "('k \<Rightarrow> 'v \<Rightarrow> 'w) \<Rightarrow> ('k \<times> 'v) list \<Rightarrow> ('k \<times> 'w) list" where
  "map_vals f m = map (\<lambda>(k, v). (k, f k v)) m"

lemma lookup_map_vals [simp]: "lookup (map_vals f m) k = map_option (f k) (lookup m k)"
  by (induction m) (auto simp: map_vals_def)

lemma keys_map_vals [simp]: "map fst (map_vals f m) = map fst m"
  by (auto simp: map_vals_def)

text \<open>Removing a key, and a total over the values of a dictionary.\<close>

definition remove_key :: "'k \<Rightarrow> ('k \<times> 'v) list \<Rightarrow> ('k \<times> 'v) list" where
  "remove_key k m = filter (\<lambda>(k', _). k' \<noteq> k) m"

lemma lookup_remove_key [simp]: "lookup (remove_key k m) k' = (if k' = k then None else lookup m k')"
  by (induction m) (auto simp: remove_key_def)

lemma distinct_remove_key [simp]: "distinct (map fst m) \<Longrightarrow> distinct (map fst (remove_key k m))"
  by (induction m) (auto simp: remove_key_def)

definition sum_vals :: "('v \<Rightarrow> 'n::ab_group_add) \<Rightarrow> ('k \<times> 'v) list \<Rightarrow> 'n" where
  "sum_vals f m = (\<Sum>(k, v)\<leftarrow>m. f v)"

lemma sum_vals_Nil [simp]: "sum_vals f [] = 0"
  by (simp add: sum_vals_def)

lemma sum_vals_Cons [simp]: "sum_vals f ((k, v) # m) = f v + sum_vals f m"
  by (simp add: sum_vals_def)

lemma sum_vals_store_new: "lookup m k = None \<Longrightarrow> sum_vals f (store k v m) = sum_vals f m + f v"
  by (induction k v m rule: store.induct) (auto split: if_splits)

lemma sum_vals_store_old:
  "lookup m k = Some w \<Longrightarrow> sum_vals f (store k v m) = sum_vals f m - f w + f v"
  by (induction k v m rule: store.induct) (auto split: if_splits)

lemma remove_key_absent: "lookup m k = None \<Longrightarrow> remove_key k m = m"
  by (induction m) (auto simp: remove_key_def split: if_splits)

lemma sum_vals_remove:
  "distinct (map fst m) \<Longrightarrow> lookup m k = Some w \<Longrightarrow> sum_vals f (remove_key k m) = sum_vals f m - f w"
proof (induction m)
  case (Cons p m)
  obtain k' v where p: "p = (k', v)" by (cases p)
  show ?case
  proof (cases "k' = k")
    case True
    with Cons.prems p have "lookup m k = None" by (auto simp: map_of_eq_None_iff)
    then have "remove_key k m = m" by (rule remove_key_absent)
    with True Cons.prems p show ?thesis by (simp add: remove_key_def)
  next
    case False
    with Cons p show ?thesis by (simp add: remove_key_def)
  qed
qed simp

lemma sum_vals_mono:
  fixes f g :: "'v \<Rightarrow> 'n::linordered_ab_group_add"
  shows "(\<And>k v. (k, v) \<in> set m \<Longrightarrow> f v \<le> g v) \<Longrightarrow> sum_vals f m \<le> sum_vals g m"
proof (induction m)
  case (Cons p m)
  obtain k v where "p = (k, v)" by (cases p)
  then show ?case using Cons by (auto intro: add_mono)
qed simp

lemma sum_vals_zero [simp]: "sum_vals (\<lambda>_. 0) m = 0"
  by (induction m) auto

lemma sum_vals_nonneg:
  fixes f :: "'v \<Rightarrow> 'n::linordered_ab_group_add"
  shows "(\<And>k v. (k, v) \<in> set m \<Longrightarrow> 0 \<le> f v) \<Longrightarrow> 0 \<le> sum_vals f m"
  using sum_vals_mono [of m "\<lambda>_. 0" f] by simp

lemma sum_vals_minus: "sum_vals f m - sum_vals g m = sum_vals (\<lambda>v. f v - g v) m"
proof (induction m)
  case (Cons p m)
  then show ?case by (cases p) (simp add: algebra_simps)
qed simp

subsection \<open>Lists updated by key\<close>

text \<open>\<open>list.map(x => key(x) === k ? f(x) : x)\<close>\<close>

definition update_where :: "('a \<Rightarrow> bool) \<Rightarrow> ('a \<Rightarrow> 'a) \<Rightarrow> 'a list \<Rightarrow> 'a list" where
  "update_where P f xs = map (\<lambda>x. if P x then f x else x) xs"

lemma length_update_where [simp]: "length (update_where P f xs) = length xs"
  by (simp add: update_where_def)

lemma update_where_none: "\<forall>x \<in> set xs. \<not> P x \<Longrightarrow> update_where P f xs = xs"
  by (simp add: update_where_def map_idI)

lemma map_update_where:
  "(\<And>x. P x \<Longrightarrow> g (f x) = g x) \<Longrightarrow> map g (update_where P f xs) = map g xs"
  by (auto simp: update_where_def)

lemma set_update_where: "set (update_where P f xs) = (\<lambda>x. if P x then f x else x) ` set xs"
  by (simp add: update_where_def)

lemma find_distinct_key:
  "distinct (map key xs) \<Longrightarrow> x \<in> set xs \<Longrightarrow> List.find (\<lambda>y. key y = key x) xs = Some x"
  by (induction xs) (auto simp: image_iff)

lemma find_key_Some: "List.find P xs = Some x \<Longrightarrow> x \<in> set xs \<and> P x"
  by (auto simp: find_Some_iff)

subsection \<open>Printing of numbers\<close>

text \<open>Decimal notation of a number, as \<open>String(n)\<close> prints an integer.\<close>

fun show_nat_acc :: "nat \<Rightarrow> string \<Rightarrow> string" where
  "show_nat_acc n acc =
     (let acc' = char_of (48 + n mod 10) # acc
      in if n < 10 then acc' else show_nat_acc (n div 10) acc')"

declare show_nat_acc.simps [simp del]

definition show_nat :: "nat \<Rightarrow> string" where
  "show_nat n = show_nat_acc n []"

definition show_int :: "int \<Rightarrow> string" where
  "show_int i = (if i < 0 then CHR ''-'' # show_nat (nat (- i)) else show_nat (nat i))"

text \<open>\<open>Number(s)\<close> on a string of decimal digits.\<close>

definition digit_value :: "char \<Rightarrow> nat option" where
  "digit_value c = (if 48 \<le> (of_char c :: nat) \<and> (of_char c :: nat) \<le> 57 then Some (of_char c - 48) else None)"

fun read_digits :: "nat \<Rightarrow> string \<Rightarrow> nat option" where
  "read_digits acc [] = Some acc"
| "read_digits acc (c # cs) =
     (case digit_value c of None \<Rightarrow> None | Some d \<Rightarrow> read_digits (acc * 10 + d) cs)"

lemma digit_value_char_of [simp]: "d < 10 \<Longrightarrow> digit_value (char_of (48 + d)) = Some d"
  by (simp add: digit_value_def of_char_of)

lemma read_digits_append:
  "read_digits acc (xs @ ys) = (case read_digits acc xs of None \<Rightarrow> None | Some a \<Rightarrow> read_digits a ys)"
  by (induction xs arbitrary: acc) (auto split: option.splits)

lemma show_nat_acc_append: "show_nat_acc n acc = show_nat n @ acc"
proof (induction n arbitrary: acc rule: less_induct)
  case (less n)
  show ?case
  proof (cases "n < 10")
    case True
    then show ?thesis by (simp add: show_nat_def show_nat_acc.simps [of n])
  next
    case False
    then have "n div 10 < n" by simp
    note IH = less.IH [OF this]
    have "show_nat_acc n acc' = show_nat (n div 10) @ char_of (48 + n mod 10) # acc'" for acc'
      using False IH by (simp add: show_nat_acc.simps [of n acc'] Let_def)
    from this [of acc] this [of "[]"] show ?thesis
      by (simp add: show_nat_def [of n])
  qed
qed

lemma show_nat_rec:
  "show_nat n = (if n < 10 then [char_of (48 + n)] else show_nat (n div 10) @ [char_of (48 + n mod 10)])"
proof -
  have "show_nat n = (if n < 10 then [char_of (48 + n)] else show_nat_acc (n div 10) [char_of (48 + n mod 10)])"
    by (simp add: show_nat_def show_nat_acc.simps [of n "[]"] Let_def)
  then show ?thesis by (simp add: show_nat_acc_append)
qed

lemma show_nat_not_Nil [simp]: "show_nat n \<noteq> []"
  by (subst show_nat_rec) simp

lemma read_digits_show_nat: "read_digits 0 (show_nat n) = Some n"
proof (induction n rule: less_induct)
  case (less n)
  show ?case
  proof (cases "n < 10")
    case True
    then show ?thesis by (simp add: show_nat_rec [of n])
  next
    case False
    then have "n div 10 < n" by simp
    from less.IH [OF this] False show ?thesis
      by (simp add: show_nat_rec [of n] read_digits_append)
  qed
qed

lemma show_nat_inject [simp]: "show_nat m = show_nat n \<longleftrightarrow> m = n"
  by (metis read_digits_show_nat option.inject)

lemma show_nat_digits: "c \<in> set (show_nat n) \<Longrightarrow> digit_value c \<noteq> None"
proof (induction n rule: less_induct)
  case (less n)
  show ?case
  proof (cases "n < 10")
    case True
    with less.prems show ?thesis by (simp add: show_nat_rec [of n])
  next
    case False
    then have "n div 10 < n" by simp
    with less.IH [OF this] less.prems False show ?thesis
      by (auto simp: show_nat_rec [of n])
  qed
qed

lemma show_int_inject [simp]: "show_int i = show_int j \<longleftrightarrow> i = j"
proof -
  have minus: "CHR ''-'' \<notin> set (show_nat n)" for n
    using show_nat_digits [of "CHR ''-''" n] by (auto simp: digit_value_def)
  then have *: "CHR ''-'' # xs \<noteq> show_nat n" for xs n
    by (metis list.set_intros(1))
  show ?thesis
    using * *[symmetric] by (auto simp: show_int_def)
qed

subsection \<open>Task ids\<close>

text \<open>
  A task id is a number (the mock back end) or a string (the server).  Indexing an object
  converts it to a property key; \<open>===\<close> between a number and a string is always false.
\<close>

datatype js_id = Num_id int | Str_id string

fun prop_key :: "js_id \<Rightarrow> string" where
  "prop_key (Num_id i) = show_int i"
| "prop_key (Str_id s) = s"

text \<open>A list without its element at a place; the requests that are awaited are such lists.\<close>

definition drop_nth :: "nat \<Rightarrow> 'a list \<Rightarrow> 'a list" where
  "drop_nth n xs = take n xs @ drop (Suc n) xs"

lemma set_drop_nth: "set (drop_nth n xs) \<subseteq> set xs"
  unfolding drop_nth_def by (auto dest: in_set_takeD in_set_dropD)

lemma length_drop_nth: "n < length xs \<Longrightarrow> length (drop_nth n xs) = length xs - 1"
  by (simp add: drop_nth_def)

end
