(* ===== verification/Budget_Ledger.thy ===== *)
theory Budget_Ledger
  imports Availability
begin

text \<open>
  The abstract contract of the budget.  A ledger lists the tasks of the day with what each
  reserves and, once finished, what it gives back.  The three counters of
  \<open>Availability\<close> implement it: every legal ledger step is matched by the event the
  application dispatches, and what the counters call remaining is the total minus the
  charges of the ledger.
\<close>

datatype entry = Reserved js_num | Finished js_num js_num

fun estimate_of :: "entry \<Rightarrow> js_num" where
  "estimate_of (Reserved est) = est"
| "estimate_of (Finished est r) = est"

fun given_back :: "entry \<Rightarrow> js_num" where
  "given_back (Reserved est) = 0"
| "given_back (Finished est r) = r"

definition charge :: "entry \<Rightarrow> js_num" where
  "charge e = estimate_of e - given_back e"

fun entry_ok :: "entry \<Rightarrow> bool" where
  "entry_ok (Reserved est) \<longleftrightarrow> 0 \<le> est"
| "entry_ok (Finished est r) \<longleftrightarrow> 0 \<le> r \<and> r \<le> est"

record ledger =
  l_total :: js_num
  l_entries :: "(string \<times> entry) list"

definition ledger_ok :: "ledger \<Rightarrow> bool" where
  "ledger_ok l \<longleftrightarrow> distinct (map fst (l_entries l)) \<and> (\<forall>(k, e) \<in> set (l_entries l). entry_ok e)"

text \<open>
  A task is created once, cancelled while it is still reserved, or finished with a refund
  between nothing and its whole estimate.
\<close>

datatype ledger_op = Reserve string js_num | Cancel string | Finish string js_num

fun ledger_step :: "ledger \<Rightarrow> ledger_op \<Rightarrow> ledger option" where
  "ledger_step l (Reserve k est) =
     (if lookup (l_entries l) k = None \<and> 0 \<le> est
      then Some (l\<lparr>l_entries := store k (Reserved est) (l_entries l)\<rparr>) else None)"
| "ledger_step l (Cancel k) =
     (case lookup (l_entries l) k of
        Some (Reserved est) \<Rightarrow> Some (l\<lparr>l_entries := remove_key k (l_entries l)\<rparr>)
      | _ \<Rightarrow> None)"
| "ledger_step l (Finish k r) =
     (case lookup (l_entries l) k of
        Some (Reserved est) \<Rightarrow>
          if 0 \<le> r \<and> r \<le> est then Some (l\<lparr>l_entries := store k (Finished est r) (l_entries l)\<rparr>) else None
      | _ \<Rightarrow> None)"

text \<open>The event the application dispatches for the step.\<close>

fun ledger_event :: "ledger \<Rightarrow> ledger_op \<Rightarrow> avail_action" where
  "ledger_event l (Reserve k est) = CREATE est"
| "ledger_event l (Cancel k) =
     (case lookup (l_entries l) k of Some e \<Rightarrow> DELETE (estimate_of e) | None \<Rightarrow> UNKNOWN)"
| "ledger_event l (Finish k r) = REFUND r"

fun ledger_run :: "ledger \<Rightarrow> ledger_op list \<Rightarrow> (ledger \<times> avail_action list) option" where
  "ledger_run l [] = Some (l, [])"
| "ledger_run l (x # xs) =
     (case ledger_step l x of None \<Rightarrow> None
      | Some l' \<Rightarrow> map_option (\<lambda>(l'', as). (l'', ledger_event l x # as)) (ledger_run l' xs))"

definition empty_ledger :: "js_num \<Rightarrow> ledger" where
  "empty_ledger t = \<lparr>l_total = t, l_entries = []\<rparr>"

definition ledger_remaining :: "ledger \<Rightarrow> js_num" where
  "ledger_remaining l = l_total l - sum_vals charge (l_entries l)"

text \<open>The simulation relation between the ledger and the counters.\<close>

definition implements :: "availability \<Rightarrow> ledger \<Rightarrow> bool" where
  "implements s l \<longleftrightarrow> totalAvailable s = l_total l
     \<and> allocated s = sum_vals estimate_of (l_entries l)
     \<and> refunded s = sum_vals given_back (l_entries l)"

lemma ledger_ok_empty [simp]: "ledger_ok (empty_ledger t)"
  by (simp add: ledger_ok_def empty_ledger_def)

lemma set_store_subset: "set (store k v m) \<subseteq> insert (k, v) (set m)"
  by (induction k v m rule: store.induct) auto

lemma lookup_ok: "ledger_ok l \<Longrightarrow> lookup (l_entries l) k = Some e \<Longrightarrow> entry_ok e"
  by (auto simp: ledger_ok_def dest: map_of_SomeD)

lemma ledger_ok_store:
  "ledger_ok l \<Longrightarrow> entry_ok e \<Longrightarrow> ledger_ok (l\<lparr>l_entries := store k e (l_entries l)\<rparr>)"
  using set_store_subset [of k e "l_entries l"] by (auto simp: ledger_ok_def)

lemma ledger_ok_step: "ledger_ok l \<Longrightarrow> ledger_step l x = Some l' \<Longrightarrow> ledger_ok l'"
proof (cases x)
  case (Cancel k)
  assume "ledger_ok l" "ledger_step l x = Some l'"
  with Cancel show ?thesis
    by (auto simp: ledger_ok_def remove_key_def split: option.splits entry.splits
        intro: distinct_remove_key [unfolded remove_key_def])
qed (auto intro!: ledger_ok_store split: if_splits option.splits entry.splits)

lemma sum_nonneg_entries: "ledger_ok l \<Longrightarrow> lookup (l_entries l) k = Some e
  \<Longrightarrow> estimate_of e \<le> sum_vals estimate_of (l_entries l)"
proof -
  assume ok: "ledger_ok l" and e: "lookup (l_entries l) k = Some e"
  have "entry_ok x \<Longrightarrow> 0 \<le> estimate_of x" for x by (cases x) auto
  with ok have "0 \<le> sum_vals estimate_of (remove_key k (l_entries l))"
    by (intro sum_vals_nonneg) (auto simp: ledger_ok_def remove_key_def)
  moreover have "distinct (map fst (l_entries l))" using ok by (simp add: ledger_ok_def)
  ultimately show ?thesis using e by (simp add: sum_vals_remove)
qed

text \<open>One step of the ledger is matched by one event.\<close>

lemma ledger_step_simulated:
  assumes ok: "ledger_ok l" and R: "implements s l" and step: "ledger_step l x = Some l'"
  shows "implements (avail_reducer s (ledger_event l x)) l'"
proof (cases x)
  case (Reserve k est)
  with step R show ?thesis
    by (auto simp: implements_def avail_defs sum_vals_store_new split: if_splits)
next
  case (Cancel k)
  with step obtain est where e: "lookup (l_entries l) k = Some (Reserved est)"
    and l': "l' = l\<lparr>l_entries := remove_key k (l_entries l)\<rparr>"
    by (auto split: option.splits entry.splits)
  from lookup_ok [OF ok e] sum_nonneg_entries [OF ok e] have "0 \<le> est"
    "est \<le> sum_vals estimate_of (l_entries l)" by simp_all
  with R e l' Cancel ok show ?thesis
    by (auto simp: implements_def avail_defs ledger_ok_def sum_vals_remove)
next
  case (Finish k r)
  with step obtain est where e: "lookup (l_entries l) k = Some (Reserved est)" and "0 \<le> r"
    and l': "l' = l\<lparr>l_entries := store k (Finished est r) (l_entries l)\<rparr>"
    by (auto split: option.splits entry.splits if_splits)
  with R Finish show ?thesis
    by (auto simp: implements_def avail_defs sum_vals_store_old)
qed

lemma ledger_run_simulated:
  "ledger_ok l \<Longrightarrow> implements s l \<Longrightarrow> ledger_run l xs = Some (l', as)
   \<Longrightarrow> implements (avail_run s as) l' \<and> ledger_ok l'"
proof (induction xs arbitrary: l s as)
  case (Cons x xs)
  from Cons.prems(3) obtain l1 as' where step: "ledger_step l x = Some l1"
    and run: "ledger_run l1 xs = Some (l', as')" and as: "as = ledger_event l x # as'"
    by (auto split: option.splits)
  from Cons.prems step have "ledger_ok l1" "implements (avail_reducer s (ledger_event l x)) l1"
    by (auto intro: ledger_ok_step ledger_step_simulated)
  from Cons.IH [OF this run] show ?case by (simp add: as avail_run_def)
qed (simp add: avail_run_def)

lemma implements_remaining: "implements s l \<Longrightarrow> computeRemaining s = ledger_remaining l"
  by (simp add: implements_def computeRemaining_def ledger_remaining_def charge_def [abs_def]
      sum_vals_minus [symmetric])

lemma charge_bounds: "entry_ok e \<Longrightarrow> 0 \<le> charge e \<and> charge e \<le> estimate_of e"
  by (cases e) (auto simp: charge_def)

lemma ledger_remaining_le: "ledger_ok l \<Longrightarrow> ledger_remaining l \<le> l_total l"
proof -
  assume ok: "ledger_ok l"
  have "0 \<le> sum_vals charge (l_entries l)"
    using ok charge_bounds by (intro sum_vals_nonneg) (auto simp: ledger_ok_def)
  then show ?thesis by (simp add: ledger_remaining_def)
qed

text \<open>
  C9. Refinement of the budget.  Whatever legal sequence of creations, cancellations and
  completions the application performs from an empty day, dispatching the corresponding
  events leaves counters whose remaining time is the day's total minus the sum of the
  charges of the ledger (a reserved task is charged its estimate, a finished one its
  estimate minus the refund), and never more than the total.
\<close>

theorem counters_refine_ledger:
  assumes "ledger_run (empty_ledger t) xs = Some (l, as)"
  shows "computeRemaining (avail_run (initialAvailability t) as) = l_total l - sum_vals charge (l_entries l)
    \<and> computeRemaining (avail_run (initialAvailability t) as) \<le> l_total l"
proof -
  have "implements (initialAvailability t) (empty_ledger t)"
    by (simp add: implements_def empty_ledger_def avail_defs)
  from ledger_run_simulated [OF _ this assms] have "implements (avail_run (initialAvailability t) as) l"
    and "ledger_ok l" by simp_all
  then show ?thesis
    using implements_remaining ledger_remaining_le by (simp add: ledger_remaining_def [symmetric])
qed

lemma counters_refine_ledger_witness:
  "computeRemaining (avail_run (initialAvailability 21600) [CREATE 3600, CREATE 1800, REFUND 600, DELETE 1800]) = 18600"
  using counters_refine_ledger [of 21600
      "[Reserve ''a'' 3600, Reserve ''b'' 1800, Finish ''a'' 600, Cancel ''b'']"]
  by (simp add: empty_ledger_def remove_key_def charge_def)

text \<open>
  The warning level is exact: critical exactly when nothing is left, a warning exactly
  when something but less than a fifth of a positive total is left, and freeing time never
  makes the level more severe.
\<close>

theorem insufficiency_level_exact:
  "(insufficiencyLevelOf (deriveAvailability s) = CRITICAL \<longleftrightarrow> totalAvailable s + refunded s \<le> allocated s)
   \<and> (insufficiencyLevelOf (deriveAvailability s) = WARNING \<longleftrightarrow>
        0 < computeRemaining s \<and> 0 < totalAvailable s \<and> 5 * computeRemaining s < totalAvailable s)
   \<and> insufficiencyLevelOf (deriveAvailability (onEarlyCompletion s r)) \<le> insufficiencyLevelOf (deriveAvailability s)
   \<and> insufficiencyLevelOf (deriveAvailability s) \<le> insufficiencyLevelOf (deriveAvailability (onCreateTask s e))"
proof (intro conjI)
  show "insufficiencyLevelOf (deriveAvailability s) = CRITICAL \<longleftrightarrow> totalAvailable s + refunded s \<le> allocated s"
    by (auto simp: deriveAvailability_def insufficiencyLevel_iff computeRemaining_def Let_def)
qed (auto simp: deriveAvailability_def Let_def avail_defs insufficiencyLevel_iff
    intro: insufficiencyLevel_antimono)

end
