(* ===== verification/Timer_Engine.thy ===== *)
theory Timer_Engine
  imports Prelude
begin

text \<open>
  The countdown engine \<open>frontend/src/lib/timerEngine.js\<close>: pure functions on one timer, each
  given the clock.  Clock readings are milliseconds, counters are seconds; both are exact
  rationals.  The theory shows that a timer never loses or invents time between its two
  counters, that the number of ticks does not matter (the engine's drift correction), that a
  paused interval is excluded, which status changes exist, and the bounds of the refund; it
  also records the two ways in which the clock is charged wrongly: a hidden gap that was
  already ticked, and a start of a timer that is running.
\<close>

subsection \<open>The engine (lib/timerEngine.js)\<close>

datatype timer_status = T_IDLE | T_RUNNING | T_PAUSED | T_OVERTIME | T_COMPLETED

record timer =
  taskId :: string
  estimatedDuration :: js_num
  remainingSeconds :: js_num
  elapsedSeconds :: js_num
  t_status :: timer_status
  startedAt :: "js_num option"
  pausedAt :: "js_num option"
  lastTickAt :: js_num

definition isTicking :: "timer \<Rightarrow> bool" where
  "isTicking t \<longleftrightarrow> t_status t = T_RUNNING \<or> t_status t = T_OVERTIME"

definition createTimer :: "string \<Rightarrow> js_num \<Rightarrow> timer" where
  "createTimer tid est =
     \<lparr>taskId = tid, estimatedDuration = est, remainingSeconds = est, elapsedSeconds = 0,
      t_status = T_IDLE, startedAt = None, pausedAt = None, lastTickAt = 0\<rparr>"

definition start :: "timer \<Rightarrow> js_num \<Rightarrow> timer" where
  "start t now =
     (if t_status t = T_COMPLETED then t
      else t\<lparr>t_status := T_RUNNING,
             startedAt := (case startedAt t of None \<Rightarrow> Some now | Some x \<Rightarrow> Some x),
             pausedAt := None, lastTickAt := now\<rparr>)"

definition tick :: "timer \<Rightarrow> js_num \<Rightarrow> timer" where
  "tick t now =
     (if \<not> isTicking t then t
      else
        (let actualElapsed = max 0 ((now - lastTickAt t) / 1000);
             rem = remainingSeconds t - actualElapsed;
             el = elapsedSeconds t + actualElapsed
         in t\<lparr>remainingSeconds := rem, elapsedSeconds := el, lastTickAt := now,
              t_status := (if rem \<le> 0 then T_OVERTIME else T_RUNNING)\<rparr>))"

definition pause :: "timer \<Rightarrow> js_num \<Rightarrow> timer" where
  "pause t now =
     (if \<not> isTicking t then t
      else (tick t now)\<lparr>t_status := T_PAUSED, pausedAt := Some now\<rparr>)"

definition resume :: "timer \<Rightarrow> js_num \<Rightarrow> timer" where
  "resume t now =
     (if t_status t \<noteq> T_PAUSED then t
      else t\<lparr>t_status := T_RUNNING, pausedAt := None, lastTickAt := now\<rparr>)"

definition applyHiddenGap :: "timer \<Rightarrow> js_num \<Rightarrow> js_num option \<Rightarrow> timer" where
  "applyHiddenGap t hiddenSeconds now =
     (if \<not> isTicking t then t
      else
        (let gap = max 0 hiddenSeconds;
             rem = remainingSeconds t - gap;
             el = elapsedSeconds t + gap
         in t\<lparr>remainingSeconds := rem, elapsedSeconds := el,
              lastTickAt := (case now of None \<Rightarrow> lastTickAt t | Some n \<Rightarrow> n),
              t_status := (if rem \<le> 0 then T_OVERTIME else t_status t)\<rparr>))"

definition correctDrift :: "timer \<Rightarrow> js_num \<Rightarrow> timer" where
  "correctDrift t actualElapsedSeconds =
     (let el = max 0 actualElapsedSeconds;
          rem = estimatedDuration t - el
      in t\<lparr>elapsedSeconds := el, remainingSeconds := rem,
           t_status := (if rem \<le> 0 \<and> isTicking t then T_OVERTIME else t_status t)\<rparr>)"

definition complete :: "timer \<Rightarrow> js_num \<Rightarrow> timer" where
  "complete t now =
     (let settled = (if isTicking t then tick t now else t)
      in settled\<lparr>t_status := T_COMPLETED, pausedAt := None\<rparr>)"

definition refundForCompletion :: "timer \<Rightarrow> int" where
  "refundForCompletion t = max 0 (js_round (estimatedDuration t - elapsedSeconds t))"

lemmas timer_defs = start_def tick_def pause_def resume_def applyHiddenGap_def correctDrift_def
  complete_def isTicking_def Let_def

subsection \<open>Operations as data\<close>

datatype timer_op =
    Start js_num | Tick js_num | Pause js_num | Resume js_num
  | Hidden js_num "js_num option" | Correct js_num | Complete js_num

fun timer_apply :: "timer \<Rightarrow> timer_op \<Rightarrow> timer" where
  "timer_apply t (Start now) = start t now"
| "timer_apply t (Tick now) = tick t now"
| "timer_apply t (Pause now) = pause t now"
| "timer_apply t (Resume now) = resume t now"
| "timer_apply t (Hidden h now) = applyHiddenGap t h now"
| "timer_apply t (Correct e) = correctDrift t e"
| "timer_apply t (Complete now) = complete t now"

definition timer_run :: "timer \<Rightarrow> timer_op list \<Rightarrow> timer" where
  "timer_run t ops = foldl timer_apply t ops"

subsection \<open>The two counters\<close>

definition timer_ok :: "timer \<Rightarrow> bool" where
  "timer_ok t \<longleftrightarrow> remainingSeconds t + elapsedSeconds t = estimatedDuration t \<and> 0 \<le> elapsedSeconds t"

lemma timer_ok_create [simp]: "timer_ok (createTimer tid est)"
  by (simp add: timer_ok_def createTimer_def)

lemma timer_ok_apply [inv_intro]: "timer_ok t \<Longrightarrow> timer_ok (timer_apply t op)"
  by (cases op) (auto simp: timer_ok_def timer_defs)

lemma timer_apply_frame [conserve]:
  "taskId (timer_apply t op) = taskId t"
  "estimatedDuration (timer_apply t op) = estimatedDuration t"
  by (cases op; auto simp: timer_defs)+

lemma timer_run_ok: "timer_ok t \<Longrightarrow> timer_ok (timer_run t ops)"
  unfolding timer_run_def by (induction ops arbitrary: t) (auto intro: inv_intro)

lemma timer_run_frame [conserve]:
  "taskId (timer_run t ops) = taskId t" "estimatedDuration (timer_run t ops) = estimatedDuration t"
  unfolding timer_run_def by (induction ops arbitrary: t) (auto simp: conserve)

text \<open>No operation but \<open>correctDrift\<close> ever reduces what has elapsed.\<close>

fun is_correct :: "timer_op \<Rightarrow> bool" where
  "is_correct (Correct e) = True"
| "is_correct _ = False"

lemma elapsed_mono_apply: "\<not> is_correct op \<Longrightarrow> elapsedSeconds t \<le> elapsedSeconds (timer_apply t op)"
  by (cases op) (auto simp: timer_defs)

lemma elapsed_mono_run:
  "\<forall>op \<in> set ops. \<not> is_correct op \<Longrightarrow> elapsedSeconds t \<le> elapsedSeconds (timer_run t ops)"
proof (induction ops arbitrary: t)
  case (Cons op ops)
  have "elapsedSeconds t \<le> elapsedSeconds (timer_apply t op)"
    using Cons.prems by (simp add: elapsed_mono_apply)
  also have "\<dots> \<le> elapsedSeconds (timer_run (timer_apply t op) ops)"
    using Cons by simp
  finally show ?case by (simp add: timer_run_def)
qed (simp add: timer_run_def)

subsection \<open>Status changes\<close>

text \<open>The changes the engine can make, as a relation; \<open>COMPLETED\<close> is final.\<close>

inductive status_step :: "timer_status \<Rightarrow> timer_status \<Rightarrow> bool" where
  same: "status_step s s"
| begin_run: "s \<noteq> T_COMPLETED \<Longrightarrow> status_step s T_RUNNING"
| overtime: "s = T_RUNNING \<or> s = T_OVERTIME \<Longrightarrow> status_step s T_OVERTIME"
| stop: "s = T_RUNNING \<or> s = T_OVERTIME \<Longrightarrow> status_step s T_PAUSED"
| finish: "status_step s T_COMPLETED"

inductive_cases status_step_completedE: "status_step T_COMPLETED s"
inductive_cases status_step_idleE: "status_step T_IDLE s"
inductive_simps status_step_to_paused: "status_step s T_PAUSED"

code_pred (modes: i \<Rightarrow> i \<Rightarrow> bool) status_step .

lemma timer_apply_status: "status_step (t_status t) (t_status (timer_apply t op))"
  by (cases op; cases "t_status t") (auto simp: timer_defs intro: status_step.intros)

lemma completed_final: "t_status t = T_COMPLETED \<Longrightarrow> t_status (timer_apply t op) = T_COMPLETED"
  using timer_apply_status [of t op] by (auto elim: status_step_completedE)

lemma completed_final_run: "t_status t = T_COMPLETED \<Longrightarrow> t_status (timer_run t ops) = T_COMPLETED"
  unfolding timer_run_def by (induction ops arbitrary: t) (auto simp: completed_final)

lemma not_ticking_noop:
  "\<not> isTicking t \<Longrightarrow> tick t now = t"
  "\<not> isTicking t \<Longrightarrow> pause t now = t"
  "\<not> isTicking t \<Longrightarrow> applyHiddenGap t h n = t"
  by (auto simp: timer_defs)

lemma not_ticking_after [simp]: "\<not> isTicking (pause t now)" "\<not> isTicking (complete t now)"
  by (auto simp: timer_defs)

lemma ticking_after_start: "isTicking (start t now) \<longleftrightarrow> t_status t \<noteq> T_COMPLETED"
  by (auto simp: timer_defs)

lemma ticking_tick [simp]: "isTicking (tick t now) = isTicking t"
  by (auto simp: timer_defs)

lemma ticking_hidden [simp]: "isTicking (applyHiddenGap t h now) = isTicking t"
  by (auto simp: timer_defs)

lemma ticking_correct [simp]: "isTicking (correctDrift t e) = isTicking t"
  by (auto simp: timer_defs)

subsection \<open>Ticks\<close>

text \<open>Two ticks are one: what the clock charged does not depend on when it was looked at.\<close>

lemma tick_tick:
  assumes "lastTickAt t \<le> a" "a \<le> b"
  shows "tick (tick t a) b = tick t b"
proof (cases "isTicking t")
  case True
  define x y where "x = (a - lastTickAt t) / 1000" and "y = (b - a) / 1000"
  have xy: "(b - lastTickAt t) / 1000 = x + y"
    by (simp add: x_def y_def diff_divide_distrib)
  have "0 \<le> x" "0 \<le> y" using assms by (simp_all add: x_def y_def)
  with True show ?thesis
    unfolding tick_def isTicking_def Let_def
    by (simp add: xy x_def [symmetric] y_def [symmetric] diff_diff_eq add.assoc)
qed (simp add: not_ticking_noop)

lemma lastTickAt_tick: "isTicking t \<Longrightarrow> lastTickAt (tick t a) = a"
  by (auto simp: timer_defs)

lemma ticks_once:
  "isTicking t \<Longrightarrow> sorted (lastTickAt t # ns @ [b]) \<Longrightarrow> tick (foldl tick t ns) b = tick t b"
proof (induction ns arbitrary: t)
  case (Cons a ns)
  then have "isTicking (tick t a)" "sorted (lastTickAt (tick t a) # ns @ [b])"
    by (auto simp: lastTickAt_tick)
  from Cons.IH [OF this] Cons.prems show ?case
    by (auto intro: tick_tick)
qed simp

lemma elapsed_tick:
  "isTicking t \<Longrightarrow> lastTickAt t \<le> now \<Longrightarrow>
   elapsedSeconds (tick t now) = elapsedSeconds t + (now - lastTickAt t) / 1000"
  by (simp add: timer_defs)

text \<open>Sessions of work: resume at \<open>b\<close>, pause at \<open>c\<close>.\<close>

definition work_sessions :: "timer \<Rightarrow> (js_num \<times> js_num) list \<Rightarrow> timer" where
  "work_sessions t ss = foldl (\<lambda>t (b, c). pause (resume t b) c) t ss"

lemma work_session:
  assumes "t_status t = T_PAUSED" "b \<le> c"
  shows "t_status (pause (resume t b) c) = T_PAUSED"
    and "elapsedSeconds (pause (resume t b) c) = elapsedSeconds t + (c - b) / 1000"
  using assms by (simp_all add: timer_defs)

lemma work_sessions_elapsed:
  "t_status t = T_PAUSED \<Longrightarrow> \<forall>(b, c) \<in> set ss. b \<le> c \<Longrightarrow>
   t_status (work_sessions t ss) = T_PAUSED
   \<and> elapsedSeconds (work_sessions t ss) = elapsedSeconds t + (\<Sum>(b, c)\<leftarrow>ss. (c - b) / 1000)"
proof (induction ss arbitrary: t)
  case (Cons p ss)
  obtain b c where p: "p = (b, c)" by (cases p)
  with Cons.prems have "b \<le> c" by simp
  note s = work_session [OF Cons.prems(1) this]
  from Cons.prems(2) have "\<forall>(b, c) \<in> set ss. b \<le> c" by simp
  from Cons.IH [OF s(1) this] s(2) p show ?case
    by (simp add: work_sessions_def)
qed (simp add: work_sessions_def)

lemma refund_within:
  assumes est: "estimatedDuration t = est" and el: "0 \<le> elapsedSeconds t"
  shows "0 \<le> refundForCompletion t
    \<and> \<bar>elapsedSeconds t + of_int (refundForCompletion t) - max est (elapsedSeconds t)\<bar> \<le> 1 / 2
    \<and> refundForCompletion t \<le> max 0 (js_round est)"
proof -
  define d where "d = est - elapsedSeconds t"
  have le: "js_round d \<le> js_round est"
    using el by (intro js_round_mono) (simp add: d_def)
  show ?thesis
  proof (cases "0 \<le> d")
    case True
    then have "refundForCompletion t = js_round d" "max est (elapsedSeconds t) = est"
      using js_round_nonneg [of d] by (auto simp: refundForCompletion_def est d_def)
    with js_round_close [of d] js_round_nonneg [OF True] le show ?thesis
      by (simp add: d_def abs_le_iff algebra_simps)
  next
    case False
    then have "js_round d \<le> 0" using js_round_mono [of d 0] by simp
    then have "refundForCompletion t = 0" by (simp add: refundForCompletion_def est d_def)
    moreover from False have "max est (elapsedSeconds t) = elapsedSeconds t" by (simp add: d_def)
    ultimately show ?thesis by simp
  qed
qed

subsection \<open>Properties\<close>

text \<open>
  C17. No time is lost between the two counters: after any sequence of operations on a created
  timer, at whatever clock readings, remaining plus elapsed is the estimate and elapsed is
  not negative.
\<close>

theorem timer_accounting:
  "remainingSeconds (timer_run (createTimer tid est) ops) + elapsedSeconds (timer_run (createTimer tid est) ops) = est
   \<and> 0 \<le> elapsedSeconds (timer_run (createTimer tid est) ops)"
  using timer_run_ok [OF timer_ok_create, of tid est ops] conserve(4) [of "createTimer tid est" ops]
  by (simp add: timer_ok_def createTimer_def)

text \<open>
  C16. Drift correction: on a ticking timer any schedule of ticks in time order followed by a
  tick at \<open>b\<close> leaves exactly the timer that the single tick at \<open>b\<close> leaves, status included,
  so throttling of the interval cannot change what is charged.
\<close>

theorem tick_schedule_irrelevant:
  assumes "isTicking t" and "sorted (lastTickAt t # ns @ [b])"
  shows "tick (foldl tick t ns) b = tick t b"
  using assms by (rule ticks_once)

lemma tick_schedule_irrelevant_witness:
  "tick (foldl tick (start (createTimer ''a'' 60) 0) [1000, 1500, 9000]) 70000
   = tick (start (createTimer ''a'' 60) 0) 70000"
  by (rule tick_schedule_irrelevant) (simp_all add: timer_defs createTimer_def)

text \<open>
  Only work is charged: from a paused timer, any number of resume/pause sessions adds
  exactly the sum of their lengths to the elapsed seconds; the time spent paused is not
  charged.
\<close>

theorem paused_time_excluded:
  assumes "t_status t = T_PAUSED" and "\<forall>(b, c) \<in> set ss. b \<le> c"
  shows "elapsedSeconds (work_sessions t ss) = elapsedSeconds t + (\<Sum>(b, c)\<leftarrow>ss. (c - b) / 1000)
    \<and> t_status (work_sessions t ss) = T_PAUSED"
  using work_sessions_elapsed [OF assms] by simp

lemma paused_time_excluded_witness:
  "elapsedSeconds (work_sessions (pause (start (createTimer ''a'' 60) 0) 2000) [(5000, 6000), (9000, 12000)]) = 6"
  using paused_time_excluded [of "pause (start (createTimer ''a'' 60) 0) 2000" "[(5000, 6000), (9000, 12000)]"]
  by (simp add: timer_defs createTimer_def)

text \<open>
  Status machine: every operation makes only the status changes of \<open>status_step\<close> (in
  particular nothing goes from idle to paused or overtime), completing always reaches
  \<open>COMPLETED\<close>, and a completed timer stays completed whatever is done to it later.
\<close>

theorem timer_status_machine:
  "status_step (t_status t) (t_status (timer_apply t op))
   \<and> t_status (timer_run (complete t now) ops) = T_COMPLETED
   \<and> \<not> status_step T_IDLE T_PAUSED \<and> \<not> status_step T_IDLE T_OVERTIME"
proof (intro conjI)
  show "t_status (timer_run (complete t now) ops) = T_COMPLETED"
    by (rule completed_final_run) (simp add: complete_def Let_def)
qed (auto simp: timer_apply_status elim: status_step_idleE)

text \<open>
  The refund of a timer is the unused time to within half a second: it is never negative,
  it is zero once the estimate is used up, and elapsed plus refund differs from the larger of
  estimate and elapsed by at most half a second.
\<close>

theorem refund_bounds:
  "let t = timer_run (createTimer tid est) ops in
     0 \<le> refundForCompletion t
     \<and> \<bar>elapsedSeconds t + of_int (refundForCompletion t) - max est (elapsedSeconds t)\<bar> \<le> 1 / 2
     \<and> refundForCompletion t \<le> max 0 (js_round est)"
proof -
  have "estimatedDuration (timer_run (createTimer tid est) ops) = est"
    by (simp add: conserve createTimer_def)
  moreover have "0 \<le> elapsedSeconds (timer_run (createTimer tid est) ops)"
    using timer_run_ok [OF timer_ok_create] by (simp add: timer_ok_def)
  ultimately show ?thesis
    unfolding Let_def by (rule refund_within)
qed

text \<open>
  The hidden-gap catch-up is right only when no tick ran while the page was hidden.  For
  a page hidden at \<open>a\<close> (last tick) and shown at \<open>b\<close>, the catch-up alone charges the
  interval as one tick would; but if a tick ran at \<open>b\<close> before it, as a throttled but live
  interval does, the interval is charged twice.
\<close>

theorem hidden_gap_charge:
  assumes "isTicking t" and "lastTickAt t = a" and "a \<le> b"
  shows "elapsedSeconds (applyHiddenGap t ((b - a) / 1000) (Some b)) = elapsedSeconds t + (b - a) / 1000
    \<and> elapsedSeconds (applyHiddenGap (tick t b) ((b - a) / 1000) (Some b)) = elapsedSeconds t + 2 * ((b - a) / 1000)"
  using assms by (simp add: timer_defs)

lemma hidden_gap_charge_witness:
  "elapsedSeconds (applyHiddenGap (tick (start (createTimer ''a'' 600) 0) 60000) 60 (Some 60000)) = 120"
  using hidden_gap_charge [of "start (createTimer ''a'' 600) 0" 0 60000]
  by (simp add: timer_defs createTimer_def)

end
