(* ===== verification/Timer_Store.thy ===== *)
theory Timer_Store
  imports Timer_Engine Availability
begin

text \<open>
  The timers of all tasks: \<open>frontend/src/context/TimerContext.jsx\<close>, its Zustand twin
  \<open>stores/timerStore.js\<close>, and the bridge of \<open>context/GlobalStateProviders.jsx\<close> that sends
  the refund of a completed task to the budget.

  Task ids are the keys of an object, hence strings.  Reading a timer that does not exist and
  passing it to the engine raises a \<open>TypeError\<close>, the \<open>Inl\<close> of a result.  The locale
  \<open>timer_contract\<close> is the part of the engine the store relies on: which operations leave a
  timer ticking.
\<close>

subsection \<open>What the store needs of the engine\<close>

locale timer_contract =
  fixes ticking :: "'t \<Rightarrow> bool"
    and pause_at tick_at complete_at :: "'t \<Rightarrow> js_num \<Rightarrow> 't"
    and gap_at :: "'t \<Rightarrow> js_num \<Rightarrow> js_num option \<Rightarrow> 't"
    and correct_to :: "'t \<Rightarrow> js_num \<Rightarrow> 't"
  assumes pause_stops [simp]: "\<not> ticking (pause_at t n)"
    and complete_stops [simp]: "\<not> ticking (complete_at t n)"
    and tick_keeps [simp]: "ticking (tick_at t n) = ticking t"
    and gap_keeps [simp]: "ticking (gap_at t h m) = ticking t"
    and correct_keeps [simp]: "ticking (correct_to t e) = ticking t"
begin

text \<open>Only the timer named by \<open>act\<close> may tick.\<close>

definition only_ticking :: "string option \<Rightarrow> (string \<times> 't) list \<Rightarrow> bool" where
  "only_ticking act m \<longleftrightarrow> (\<forall>k t. lookup m k = Some t \<and> ticking t \<longrightarrow> act = Some k)"

lemma only_ticking_Nil [simp]: "only_ticking act []"
  by (simp add: only_ticking_def)

lemma only_ticking_weaken: "only_ticking None m \<Longrightarrow> only_ticking act m"
  by (auto simp: only_ticking_def)

lemma only_ticking_pause: "only_ticking act m \<Longrightarrow> only_ticking act (store k (pause_at t n) m)"
  by (auto simp: only_ticking_def)

lemma only_ticking_complete:
  "only_ticking act m \<Longrightarrow>
   only_ticking (if act = Some k then None else act) (store k (complete_at t n) m)"
  by (auto simp: only_ticking_def)

lemma only_ticking_stop_active: "only_ticking (Some k) m \<Longrightarrow> only_ticking None (store k (pause_at t n) m)"
  by (auto simp: only_ticking_def)

lemma only_ticking_absent: "only_ticking (Some k) m \<Longrightarrow> lookup m k = None \<Longrightarrow> only_ticking None m"
  by (auto simp: only_ticking_def)

lemma only_ticking_switch:
  "only_ticking None m \<or> only_ticking (Some k) m \<Longrightarrow> only_ticking (Some k) (store k t m)"
  by (auto simp: only_ticking_def)

lemma only_ticking_gap:
  "only_ticking act m \<Longrightarrow> lookup m k = Some t \<Longrightarrow> only_ticking act (store k (gap_at t h n) m)"
  by (auto simp: only_ticking_def)

lemma only_ticking_correct:
  "only_ticking act m \<Longrightarrow> lookup m k = Some t \<Longrightarrow> only_ticking act (store k (correct_to t e) m)"
  by (auto simp: only_ticking_def)

lemma only_ticking_ticks:
  "only_ticking act m \<Longrightarrow> only_ticking act (map_vals (\<lambda>_ t. if ticking t then tick_at t n else t) m)"
  by (auto simp: only_ticking_def split: if_splits)

lemma only_ticking_unique:
  "only_ticking act m \<Longrightarrow> lookup m j = Some s \<Longrightarrow> ticking s \<Longrightarrow> lookup m k = Some t \<Longrightarrow> ticking t \<Longrightarrow> j = k"
  by (auto simp: only_ticking_def)

end

interpretation eng: timer_contract isTicking pause tick complete applyHiddenGap correctDrift
  by unfold_locales simp_all

subsection \<open>The reducer of the context\<close>

datatype js_error = TypeError

record timer_state =
  activeTaskId :: "string option"
  timers :: "(string \<times> timer) list"

definition timer_state_init :: timer_state where
  "timer_state_init = \<lparr>activeTaskId = None, timers = []\<rparr>"

datatype timer_action =
    START string js_num js_num
  | PAUSE string js_num
  | RESUME string js_num
  | TICK js_num
  | HIDDEN_GAP js_num js_num
  | CORRECT string js_num
  | COMPLETE string timer
  | UNKNOWN_ACTION

text \<open>
  The first lines of \<open>START\<close> and \<open>RESUME\<close>: the active timer, if it is another one and exists,
  is paused.  An empty id is falsy in JavaScript, so it never counts as active.
\<close>

definition pause_active :: "timer_state \<Rightarrow> string \<Rightarrow> js_num \<Rightarrow> (string \<times> timer) list" where
  "pause_active s tid now =
     (case activeTaskId s of
        None \<Rightarrow> timers s
      | Some a \<Rightarrow>
          if a \<noteq> '''' \<and> a \<noteq> tid
          then (case lookup (timers s) a of None \<Rightarrow> timers s | Some t \<Rightarrow> store a (pause t now) (timers s))
          else timers s)"

text \<open>The loop over \<open>Object.keys(timers)\<close> that ticks the running timers.\<close>

definition tick_timers :: "js_num \<Rightarrow> (string \<times> timer) list \<Rightarrow> (string \<times> timer) list" where
  "tick_timers now m = map_vals (\<lambda>_ t. if isTicking t then tick t now else t) m"

definition any_ticking :: "(string \<times> timer) list \<Rightarrow> bool" where
  "any_ticking m \<longleftrightarrow> (\<exists>p \<in> set m. isTicking (snd p))"

fun timer_reducer :: "timer_state \<Rightarrow> timer_action \<Rightarrow> js_error + timer_state" where
  "timer_reducer s (START tid est now) =
     (let m = pause_active s tid now;
          base = (case lookup m tid of None \<Rightarrow> createTimer tid est | Some t \<Rightarrow> t)
      in Inr \<lparr>activeTaskId = Some tid, timers = store tid (start base now) m\<rparr>)"
| "timer_reducer s (PAUSE tid now) =
     (case lookup (timers s) tid of None \<Rightarrow> Inl TypeError
      | Some t \<Rightarrow> Inr (s\<lparr>timers := store tid (pause t now) (timers s)\<rparr>))"
| "timer_reducer s (RESUME tid now) =
     (let m = pause_active s tid now in
      case lookup m tid of None \<Rightarrow> Inl TypeError
      | Some t \<Rightarrow> Inr \<lparr>activeTaskId = Some tid, timers = store tid (resume t now) m\<rparr>)"
| "timer_reducer s (TICK now) =
     Inr (if any_ticking (timers s) then s\<lparr>timers := tick_timers now (timers s)\<rparr> else s)"
| "timer_reducer s (HIDDEN_GAP h now) =
     Inr (case activeTaskId s of
            None \<Rightarrow> s
          | Some a \<Rightarrow>
              if a = '''' then s
              else (case lookup (timers s) a of None \<Rightarrow> s
                    | Some t \<Rightarrow> s\<lparr>timers := store a (applyHiddenGap t h (Some now)) (timers s)\<rparr>))"
| "timer_reducer s (CORRECT tid actual) =
     (case lookup (timers s) tid of None \<Rightarrow> Inl TypeError
      | Some t \<Rightarrow> Inr (s\<lparr>timers := store tid (correctDrift t actual) (timers s)\<rparr>))"
| "timer_reducer s (COMPLETE tid done) =
     Inr (s\<lparr>timers := store tid done (timers s),
            activeTaskId := (if activeTaskId s = Some tid then None else activeTaskId s)\<rparr>)"
| "timer_reducer s UNKNOWN_ACTION = Inr s"

fun_cases timer_reducer_pauseE: "timer_reducer s (PAUSE tid now) = Inr s'"
fun_cases timer_reducer_resumeE: "timer_reducer s (RESUME tid now) = Inr s'"
fun_cases timer_reducer_correctE: "timer_reducer s (CORRECT tid e) = Inr s'"

text \<open>
  \<open>completeTask\<close>: the finished timer is computed from \<open>ref\<close> (the state at the last render,
  \<open>stateRef.current\<close>), dispatched, reported to the server if an API function is given, and
  the refund is sent to the budget only after the server accepted.
\<close>

datatype complete_error = NoSuchTimer | ApiRejected

type_synonym complete_api = "(string \<Rightarrow> int \<Rightarrow> bool) option"

definition api_accepts :: "complete_api \<Rightarrow> string \<Rightarrow> int \<Rightarrow> bool" where
  "api_accepts api tid el = (case api of None \<Rightarrow> True | Some f \<Rightarrow> f tid el)"

definition completeTask ::
  "timer_state \<Rightarrow> timer_state \<Rightarrow> availability \<Rightarrow> string \<Rightarrow> js_num \<Rightarrow> complete_api
   \<Rightarrow> timer_state \<times> availability \<times> (complete_error + js_num \<times> int)" where
  "completeTask ref s av tid now api =
     (case lookup (timers ref) tid of
        None \<Rightarrow> (s, av, Inl NoSuchTimer)
      | Some t \<Rightarrow>
          (let done = complete t now;
               refundSeconds = refundForCompletion done;
               s' = s\<lparr>timers := store tid done (timers s),
                      activeTaskId := (if activeTaskId s = Some tid then None else activeTaskId s)\<rparr>
           in if api_accepts api tid (js_round (elapsedSeconds done))
              then (s', if refundSeconds > 0 then onEarlyCompletion av (of_int refundSeconds) else av,
                    Inr (elapsedSeconds done, refundSeconds))
              else (s', av, Inl ApiRejected)))"

text \<open>The state of the mounted providers at start: six hours to spend and no timers.\<close>

definition GlobalStateProviders_init :: "js_num option \<Rightarrow> availability \<times> timer_state" where
  "GlobalStateProviders_init initialTotalSeconds =
     (initialAvailability (case initialTotalSeconds of None \<Rightarrow> 6 * 3600 | Some x \<Rightarrow> x), timer_state_init)"

subsection \<open>Invariant: one clock at a time\<close>

definition store_inv :: "timer_state \<Rightarrow> bool" where
  "store_inv s \<longleftrightarrow> eng.only_ticking (activeTaskId s) (timers s) \<and> activeTaskId s \<noteq> Some ''''
     \<and> (\<forall>k t. lookup (timers s) k = Some t \<longrightarrow> timer_ok t)"

text \<open>The actions the provider dispatches: ids are not empty and \<open>COMPLETE\<close> carries a completed timer.\<close>

fun action_ok :: "timer_action \<Rightarrow> bool" where
  "action_ok (START tid est now) \<longleftrightarrow> tid \<noteq> ''''"
| "action_ok (RESUME tid now) \<longleftrightarrow> tid \<noteq> ''''"
| "action_ok (COMPLETE tid done) \<longleftrightarrow> timer_ok done \<and> \<not> isTicking done"
| "action_ok _ \<longleftrightarrow> True"

lemma store_inv_init [simp]: "store_inv timer_state_init"
  by (simp add: store_inv_def timer_state_init_def)

lemma timer_ok_ops [inv_intro]:
  "timer_ok t \<Longrightarrow> timer_ok (start t n)" "timer_ok t \<Longrightarrow> timer_ok (pause t n)"
  "timer_ok t \<Longrightarrow> timer_ok (resume t n)" "timer_ok t \<Longrightarrow> timer_ok (tick t n)"
  "timer_ok t \<Longrightarrow> timer_ok (applyHiddenGap t h m)" "timer_ok t \<Longrightarrow> timer_ok (correctDrift t e)"
  "timer_ok t \<Longrightarrow> timer_ok (complete t n)"
  using timer_ok_apply [of t "Start n"] timer_ok_apply [of t "Pause n"] timer_ok_apply [of t "Resume n"]
    timer_ok_apply [of t "Tick n"] timer_ok_apply [of t "Hidden h m"] timer_ok_apply [of t "Correct e"]
    timer_ok_apply [of t "Complete n"] by simp_all

lemma pause_active_ok:
  "store_inv s \<Longrightarrow> lookup (pause_active s tid now) k = Some t \<Longrightarrow> timer_ok t"
  by (auto simp: pause_active_def store_inv_def intro: inv_intro split: option.splits if_splits)

lemma pause_active_quiet:
  assumes "store_inv s"
  shows "eng.only_ticking None (pause_active s tid now) \<or> eng.only_ticking (Some tid) (pause_active s tid now)"
proof (cases "activeTaskId s")
  case None
  with assms show ?thesis by (simp add: store_inv_def pause_active_def)
next
  case (Some a)
  with assms show ?thesis
    by (cases "lookup (timers s) a")
       (auto simp: store_inv_def pause_active_def
         intro: eng.only_ticking_stop_active eng.only_ticking_absent)
qed

lemma lookup_any_ticking: "\<not> any_ticking m \<Longrightarrow> lookup m k = Some t \<Longrightarrow> \<not> isTicking t"
  by (fastforce simp: any_ticking_def dest: map_of_SomeD)

lemma store_inv_switch:
  assumes "store_inv s" "tid \<noteq> ''''" "timer_ok t"
  shows "store_inv \<lparr>activeTaskId = Some tid, timers = store tid t (pause_active s tid now)\<rparr>"
  using assms pause_active_quiet [OF assms(1)] pause_active_ok [OF assms(1)]
  by (auto simp: store_inv_def intro!: eng.only_ticking_switch)

lemma store_inv_reducer [inv_intro]:
  assumes inv: "store_inv s" and ok: "action_ok a" and red: "timer_reducer s a = Inr s'"
  shows "store_inv s'"
proof (cases a)
  case (START tid est now)
  then show ?thesis
    using red ok inv pause_active_ok [OF inv]
    by (auto simp: Let_def intro!: store_inv_switch inv_intro split: option.splits)
next
  case (RESUME tid now)
  then show ?thesis
    using red ok inv pause_active_ok [OF inv]
    by (auto simp: Let_def intro!: store_inv_switch inv_intro split: option.splits)
next
  case (PAUSE tid now)
  then show ?thesis
    using red inv by (auto simp: store_inv_def intro!: eng.only_ticking_pause timer_ok_ops split: option.splits if_splits)
next
  case (TICK now)
  then show ?thesis
    using red inv eng.only_ticking_ticks [of "activeTaskId s" "timers s" now]
    by (auto simp: store_inv_def tick_timers_def intro!: timer_ok_ops split: if_splits)
next
  case (HIDDEN_GAP h now)
  then show ?thesis
    using red inv
    by (auto simp: store_inv_def intro!: eng.only_ticking_gap timer_ok_ops split: option.splits if_splits)
next
  case (CORRECT tid e)
  then show ?thesis
    using red inv by (auto simp: store_inv_def intro!: eng.only_ticking_correct timer_ok_ops split: option.splits if_splits)
next
  case (COMPLETE tid dn)
  then show ?thesis
    using red inv ok by (fastforce simp: store_inv_def eng.only_ticking_def split: if_splits)
next
  case UNKNOWN_ACTION
  then show ?thesis using red inv by simp
qed

text \<open>
  Reachable states of the mounted provider: any sequence of dispatched actions that do not
  raise.
\<close>

inductive reachable :: "timer_state \<Rightarrow> bool" where
  initial: "reachable timer_state_init"
| dispatch: "reachable s \<Longrightarrow> action_ok a \<Longrightarrow> timer_reducer s a = Inr s' \<Longrightarrow> reachable s'"

lemma reachable_inv: "reachable s \<Longrightarrow> store_inv s"
  by (induction rule: reachable.induct) (auto intro: inv_intro)

subsection \<open>The visibility listener of the provider\<close>

text \<open>
  \<open>onVis\<close>: hiding the page stamps \<open>Date.now()\<close>; showing it again dispatches the gap, once.
  The gap is measured on \<open>Date.now()\<close> (\<open>wall\<close>) while the dispatch carries
  \<open>performance.now()\<close> (\<open>perf\<close>).
\<close>

definition onVis ::
  "js_num option \<times> timer_state \<Rightarrow> bool \<Rightarrow> js_num \<Rightarrow> js_num \<Rightarrow> js_num option \<times> timer_state" where
  "onVis hs hidden wall perf =
     (case hs of (hiddenAt, s) \<Rightarrow>
        if hidden then (Some wall, s)
        else (case hiddenAt of
                None \<Rightarrow> (None, s)
              | Some h \<Rightarrow>
                  (case timer_reducer s (HIDDEN_GAP ((wall - h) / 1000) perf) of
                     Inr s' \<Rightarrow> (None, s') | Inl e \<Rightarrow> (None, s))))"

lemma onVis_inv [inv_intro]: "store_inv s \<Longrightarrow> store_inv (snd (onVis (h, s) hidden wall perf))"
  using store_inv_reducer [of s "HIDDEN_GAP ((wall - the h) / 1000) perf"]
  by (auto simp: onVis_def split: option.splits sum.splits simp del: timer_reducer.simps)

lemma onVis_shown_twice: "onVis (onVis (h, s) False w m) False w' m' = onVis (h, s) False w m"
  by (auto simp: onVis_def split: option.splits sum.splits)

subsection \<open>The Zustand store\<close>

text \<open>
  The same operations over one shared state plus \<open>intervalId\<close>, the handle of the interval that
  ticks.  A store operation reads the clock itself, \<open>startTimer\<close> and \<open>resumeTimer\<close> twice
  (\<open>n1\<close> for the pause of the old timer, \<open>n2\<close> for the new one).  A throwing update leaves the
  state as it was and skips what follows.
\<close>

record zustand_state =
  z_timers :: timer_state
  z_interval :: bool

definition zustand_init :: zustand_state where
  "zustand_init = \<lparr>z_timers = timer_state_init, z_interval = False\<rparr>"

definition ensureInterval :: "zustand_state \<Rightarrow> zustand_state" where
  "ensureInterval z = z\<lparr>z_interval := True\<rparr>"

definition maybeStopInterval :: "zustand_state \<Rightarrow> zustand_state" where
  "maybeStopInterval z = (if \<not> any_ticking (timers (z_timers z)) then z\<lparr>z_interval := False\<rparr> else z)"

definition z_startTimer :: "zustand_state \<Rightarrow> string \<Rightarrow> js_num \<Rightarrow> js_num \<Rightarrow> js_num \<Rightarrow> js_error + zustand_state" where
  "z_startTimer z tid est n1 n2 =
     (let s = z_timers z;
          m = pause_active s tid n1;
          base = (case lookup m tid of None \<Rightarrow> createTimer tid est | Some t \<Rightarrow> t)
      in Inr (ensureInterval (z\<lparr>z_timers := \<lparr>activeTaskId = Some tid, timers = store tid (start base n2) m\<rparr>\<rparr>)))"

definition z_pauseTimer :: "zustand_state \<Rightarrow> string \<Rightarrow> js_num \<Rightarrow> js_error + zustand_state" where
  "z_pauseTimer z tid n =
     (let s = z_timers z in
      case lookup (timers s) tid of None \<Rightarrow> Inl TypeError
      | Some t \<Rightarrow> Inr (maybeStopInterval (z\<lparr>z_timers := s\<lparr>timers := store tid (pause t n) (timers s)\<rparr>\<rparr>)))"

definition z_resumeTimer :: "zustand_state \<Rightarrow> string \<Rightarrow> js_num \<Rightarrow> js_num \<Rightarrow> js_error + zustand_state" where
  "z_resumeTimer z tid n1 n2 =
     (let m = pause_active (z_timers z) tid n1 in
      case lookup m tid of None \<Rightarrow> Inl TypeError
      | Some t \<Rightarrow> Inr (ensureInterval (z\<lparr>z_timers := \<lparr>activeTaskId = Some tid, timers = store tid (resume t n2) m\<rparr>\<rparr>)))"

definition z_tickTimer :: "zustand_state \<Rightarrow> js_num \<Rightarrow> js_error + zustand_state" where
  "z_tickTimer z n =
     (let s = z_timers z in
      Inr (if any_ticking (timers s) then z\<lparr>z_timers := s\<lparr>timers := tick_timers n (timers s)\<rparr>\<rparr> else z))"

definition z_applyHiddenGap :: "zustand_state \<Rightarrow> js_num \<Rightarrow> js_num \<Rightarrow> js_error + zustand_state" where
  "z_applyHiddenGap z h n =
     (let s = z_timers z in
      Inr (case activeTaskId s of
             None \<Rightarrow> z
           | Some a \<Rightarrow>
               if a = '''' then z
               else (case lookup (timers s) a of None \<Rightarrow> z
                     | Some t \<Rightarrow> z\<lparr>z_timers := s\<lparr>timers := store a (applyHiddenGap t h (Some n)) (timers s)\<rparr>\<rparr>)))"

definition z_correctDrift :: "zustand_state \<Rightarrow> string \<Rightarrow> js_num \<Rightarrow> js_error + zustand_state" where
  "z_correctDrift z tid e =
     (let s = z_timers z in
      case lookup (timers s) tid of None \<Rightarrow> Inl TypeError
      | Some t \<Rightarrow> Inr (z\<lparr>z_timers := s\<lparr>timers := store tid (correctDrift t e) (timers s)\<rparr>\<rparr>))"

text \<open>
  \<open>completeTask\<close>: the state is set first; if the server call rejects, neither the refund nor
  \<open>_maybeStopInterval\<close> is reached.
\<close>

definition z_completeTask ::
  "zustand_state \<Rightarrow> availability \<Rightarrow> string \<Rightarrow> js_num \<Rightarrow> complete_api
   \<Rightarrow> zustand_state \<times> availability \<times> (complete_error + js_num \<times> int)" where
  "z_completeTask z av tid n api =
     (let s = z_timers z in
      case lookup (timers s) tid of
        None \<Rightarrow> (z, av, Inl NoSuchTimer)
      | Some t \<Rightarrow>
          (let done = complete t n;
               refundSeconds = refundForCompletion done;
               z' = z\<lparr>z_timers := \<lparr>activeTaskId = (if activeTaskId s = Some tid then None else activeTaskId s),
                                   timers = store tid done (timers s)\<rparr>\<rparr>
           in if api_accepts api tid (js_round (elapsedSeconds done))
              then (maybeStopInterval z',
                    if refundSeconds > 0 then onEarlyCompletion av (of_int refundSeconds) else av,
                    Inr (elapsedSeconds done, refundSeconds))
              else (z', av, Inl ApiRejected)))"

datatype timer_call =
    Z_Start string js_num js_num js_num
  | Z_Pause string js_num
  | Z_Resume string js_num js_num
  | Z_Tick js_num
  | Z_Gap js_num js_num
  | Z_Correct string js_num

fun z_call :: "zustand_state \<Rightarrow> timer_call \<Rightarrow> js_error + zustand_state" where
  "z_call z (Z_Start tid est n1 n2) = z_startTimer z tid est n1 n2"
| "z_call z (Z_Pause tid n) = z_pauseTimer z tid n"
| "z_call z (Z_Resume tid n1 n2) = z_resumeTimer z tid n1 n2"
| "z_call z (Z_Tick n) = z_tickTimer z n"
| "z_call z (Z_Gap h n) = z_applyHiddenGap z h n"
| "z_call z (Z_Correct tid e) = z_correctDrift z tid e"

text \<open>A run of calls; a call that throws leaves the state.\<close>

fun z_run :: "zustand_state \<Rightarrow> timer_call list \<Rightarrow> zustand_state" where
  "z_run z [] = z"
| "z_run z (c # cs) = z_run (case z_call z c of Inl _ \<Rightarrow> z | Inr z' \<Rightarrow> z') cs"

lemmas z_defs = z_startTimer_def z_pauseTimer_def z_resumeTimer_def z_tickTimer_def
  z_applyHiddenGap_def z_correctDrift_def ensureInterval_def Let_def

text \<open>The action of the context that a call of the store stands for.\<close>

fun context_action :: "timer_call \<Rightarrow> timer_action" where
  "context_action (Z_Start tid est n1 n2) = START tid est n2"
| "context_action (Z_Pause tid n) = PAUSE tid n"
| "context_action (Z_Resume tid n1 n2) = RESUME tid n2"
| "context_action (Z_Tick n) = TICK n"
| "context_action (Z_Gap h n) = HIDDEN_GAP h n"
| "context_action (Z_Correct tid e) = CORRECT tid e"

fun one_clock :: "timer_call \<Rightarrow> bool" where
  "one_clock (Z_Start tid est n1 n2) \<longleftrightarrow> n1 = n2"
| "one_clock (Z_Resume tid n1 n2) \<longleftrightarrow> n1 = n2"
| "one_clock _ \<longleftrightarrow> True"

fun context_run :: "timer_state \<Rightarrow> timer_action list \<Rightarrow> timer_state" where
  "context_run s [] = s"
| "context_run s (a # as) = context_run (case timer_reducer s a of Inl _ \<Rightarrow> s | Inr s' \<Rightarrow> s') as"

lemma z_timers_maybeStop [simp]: "z_timers (maybeStopInterval z) = z_timers z"
  by (simp add: maybeStopInterval_def)

lemma z_call_context:
  "one_clock c \<Longrightarrow> map_sum id z_timers (z_call z c) = timer_reducer (z_timers z) (context_action c)"
  by (cases c) (auto simp: z_defs split: option.splits)

lemma z_step_context:
  assumes "one_clock c"
  shows "z_timers (case z_call z c of Inl _ \<Rightarrow> z | Inr z' \<Rightarrow> z')
    = (case timer_reducer (z_timers z) (context_action c) of Inl _ \<Rightarrow> z_timers z | Inr s' \<Rightarrow> s')"
  by (cases "z_call z c") (simp_all add: z_call_context [OF assms, symmetric])

lemma z_run_context:
  "\<forall>c \<in> set cs. one_clock c \<Longrightarrow> z_timers (z_run z cs) = context_run (z_timers z) (map context_action cs)"
  by (induction cs arbitrary: z) (simp_all add: z_step_context)

subsection \<open>The interval runs while a timer ticks\<close>

definition interval_inv :: "zustand_state \<Rightarrow> bool" where
  "interval_inv z \<longleftrightarrow> (any_ticking (timers (z_timers z)) \<longrightarrow> z_interval z)"

lemma any_ticking_Nil [simp]: "\<not> any_ticking []"
  by (simp add: any_ticking_def)

lemma any_ticking_Cons [simp]: "any_ticking (p # m) \<longleftrightarrow> isTicking (snd p) \<or> any_ticking m"
  by (simp add: any_ticking_def)

lemma any_ticking_store_keep:
  "lookup m k = Some t \<Longrightarrow> isTicking t' = isTicking t \<Longrightarrow> any_ticking (store k t' m) = any_ticking m"
  by (induction m) (auto split: if_splits)

lemma any_ticking_store_quiet: "\<not> isTicking t' \<Longrightarrow> any_ticking (store k t' m) \<Longrightarrow> any_ticking m"
  by (induction m) (auto split: if_splits)

lemma any_ticking_ticks [simp]: "any_ticking (tick_timers n m) = any_ticking m"
  by (induction m) (auto simp: tick_timers_def map_vals_def split: if_splits)

lemma interval_inv_maybeStop [simp]: "interval_inv (maybeStopInterval z) \<longleftrightarrow> interval_inv z"
  by (auto simp: interval_inv_def maybeStopInterval_def)

lemma interval_inv_call [inv_intro]:
  "interval_inv z \<Longrightarrow> z_call z c = Inr z' \<Longrightarrow> interval_inv z'"
proof (cases c)
  case (Z_Pause tid n)
  assume inv: "interval_inv z" and "z_call z c = Inr z'"
  with Z_Pause show ?thesis
    by (auto simp: z_defs split: option.splits)
       (auto simp: interval_inv_def dest: any_ticking_store_quiet [OF not_ticking_after(1)])
qed (auto simp: z_defs interval_inv_def any_ticking_store_keep split: option.splits if_splits)

lemma interval_inv_run: "interval_inv z \<Longrightarrow> interval_inv (z_run z cs)"
  by (induction cs arbitrary: z) (auto intro: inv_intro split: sum.splits)

lemma interval_inv_complete: "interval_inv z \<Longrightarrow> interval_inv (fst (z_completeTask z av tid n api))"
  by (auto simp: z_completeTask_def Let_def interval_inv_def maybeStopInterval_def split: option.splits
      dest: any_ticking_store_quiet [OF not_ticking_after(2)])

lemma complete_again:
  "complete (complete t n) n' = complete t n"
  by (simp add: timer_defs)

subsection \<open>Properties\<close>

text \<open>
  C15. No two clocks run at once: in every state the provider can reach, two timers that tick are
  the same timer, it is the active one, and every timer's counters add up to its estimate.
\<close>

theorem at_most_one_timer_runs:
  assumes "reachable s"
    and "lookup (timers s) j = Some t" "isTicking t" "lookup (timers s) k = Some u" "isTicking u"
  shows "j = k \<and> activeTaskId s = Some j \<and> remainingSeconds t + elapsedSeconds t = estimatedDuration t"
proof -
  have inv: "store_inv s" by (rule reachable_inv) (rule assms(1))
  then have only: "eng.only_ticking (activeTaskId s) (timers s)" and ok: "timer_ok t"
    using assms(2) by (auto simp: store_inv_def)
  from only assms(2-5) have "j = k" by (rule eng.only_ticking_unique)
  moreover from only assms(2,3) have "activeTaskId s = Some j" by (auto simp: eng.only_ticking_def)
  ultimately show ?thesis using ok by (simp add: timer_ok_def)
qed

definition two_starts :: timer_state where
  "two_starts = context_run timer_state_init [START ''a'' 60 0, START ''b'' 60 5000]"

lemma two_starts_reachable: "reachable two_starts"
  unfolding two_starts_def
  by (auto simp: Let_def pause_active_def timer_state_init_def
      intro!: reachable.dispatch [OF reachable.dispatch [OF reachable.initial, of "START ''a'' 60 0"], of _ "START ''b'' 60 5000"])

lemma at_most_one_timer_runs_witness:
  "activeTaskId two_starts = Some ''b'' \<and> (\<exists>t. lookup (timers two_starts) ''a'' = Some t \<and> elapsedSeconds t = 5)"
proof -
  have "activeTaskId two_starts = Some ''b''"
    using at_most_one_timer_runs [OF two_starts_reachable, of "''b''" "start (createTimer ''b'' 60) 5000"
        "''b''" "start (createTimer ''b'' 60) 5000"]
    by (simp add: two_starts_def Let_def pause_active_def timer_state_init_def createTimer_def timer_defs)
  then show ?thesis
    by (simp add: two_starts_def Let_def pause_active_def timer_state_init_def createTimer_def timer_defs)
qed



text \<open>
  The Zustand store never lets a running timer freeze: after any calls from the empty store,
  and after completing a task on top of them, whether or not the server accepted it, the
  interval is running if any timer ticks.
\<close>

theorem running_timer_has_interval:
  "any_ticking (timers (z_timers (z_run zustand_init cs))) \<le> z_interval (z_run zustand_init cs)
   \<and> (let z = fst (z_completeTask (z_run zustand_init cs) av tid now api)
      in any_ticking (timers (z_timers z)) \<le> z_interval z)"
proof -
  have inv: "interval_inv (z_run zustand_init cs)"
    by (rule interval_inv_run) (simp add: interval_inv_def zustand_init_def timer_state_init_def)
  from interval_inv_complete [OF this, of av tid now api] inv show ?thesis
    by (simp add: interval_inv_def Let_def le_bool_def)
qed


text \<open>
  Completing twice pays twice: neither the engine nor the store looks at the status, so a
  second completion of the same task succeeds, changes no timer, and credits the same refund
  again (the double click of a user, or a retry after a rejected call).
\<close>

theorem double_completion_double_refund:
  assumes "lookup (timers s) tid = Some t"
  shows "let r = refundForCompletion (complete t n1);
             (s1, av1, res1) = completeTask s s av tid n1 None;
             (s2, av2, res2) = completeTask s1 s1 av1 tid n2 None
         in timers s2 = timers s1 \<and> res2 = res1 \<and> refunded av2 = refunded av + 2 * of_int r"
  using assms
  by (auto simp: completeTask_def Let_def api_accepts_def avail_defs refundForCompletion_def
      complete_again store_same split: prod.splits)

lemma double_completion_double_refund_witness:
  "let (s1, av1, _) = completeTask two_starts two_starts (initialAvailability 3600) ''b'' 15000 None;
       (_, av2, _) = completeTask s1 s1 av1 ''b'' 99000 None
   in refunded av2 = 100"
proof -
  have look: "lookup (timers two_starts) ''b'' = Some (start (createTimer ''b'' 60) 5000)"
    by (simp add: two_starts_def Let_def pause_active_def timer_state_init_def)
  have "refundForCompletion (complete (start (createTimer ''b'' 60) 5000) 15000) = 50"
    by (simp add: refundForCompletion_def timer_defs createTimer_def)
  with double_completion_double_refund [OF look, of 15000 "initialAvailability 3600" 99000]
  show ?thesis
    by (simp add: Let_def initialAvailability_def split: prod.splits)
qed

end
