(* ===== verification/Task_Runtime.thy ===== *)
theory Task_Runtime
  imports Prelude
begin

text \<open>
  The run state of a task, \<open>frontend/src/lib/taskRuntime.js\<close>, and the hook
  \<open>hooks/useTaskRuntime.js\<close> that keeps one entry per task.

  Clock readings are \<open>Date.now()\<close>, integer milliseconds; \<open>startedAt\<close> and \<open>completedAt\<close> hold the
  instant whose ISO string the code stores.  A start time of 0 is falsy, so the code reads it as
  no start time, and the model does.
\<close>

subsection \<open>Entries (lib/taskRuntime.js)\<close>

datatype run_status = R_IDLE | R_RUNNING | R_PAUSED | R_COMPLETED

fun ALLOWED :: "run_status \<Rightarrow> run_status list" where
  "ALLOWED R_IDLE = [R_RUNNING]"
| "ALLOWED R_RUNNING = [R_PAUSED, R_COMPLETED]"
| "ALLOWED R_PAUSED = [R_RUNNING, R_COMPLETED]"
| "ALLOWED R_COMPLETED = []"

definition canTransition :: "run_status \<Rightarrow> run_status \<Rightarrow> bool" where
  "canTransition f t \<longleftrightarrow> t \<in> set (ALLOWED f)"

record run_entry =
  r_status :: run_status
  r_elapsed :: int
  runStartMs :: "int option"
  r_startedAt :: "int option"
  r_completedAt :: "int option"

definition emptyEntry :: run_entry where
  "emptyEntry = \<lparr>r_status = R_IDLE, r_elapsed = 0, runStartMs = None, r_startedAt = None, r_completedAt = None\<rparr>"

text \<open>\<open>Math.max(0, Math.floor((nowMs - start) / 1000))\<close>\<close>

definition section_seconds :: "int \<Rightarrow> int \<Rightarrow> int" where
  "section_seconds s n = max 0 ((n - s) div 1000)"

definition truthy_start :: "int option \<Rightarrow> int option" where
  "truthy_start m = (case m of None \<Rightarrow> None | Some s \<Rightarrow> if s = 0 then None else Some s)"

definition displaySeconds :: "run_entry option \<Rightarrow> int \<Rightarrow> int" where
  "displaySeconds e now =
     (case e of None \<Rightarrow> 0
      | Some x \<Rightarrow>
          (if r_status x = R_RUNNING
           then (case truthy_start (runStartMs x) of
                   None \<Rightarrow> r_elapsed x | Some s \<Rightarrow> r_elapsed x + section_seconds s now)
           else r_elapsed x))"

definition foldRunning :: "run_entry \<Rightarrow> int \<Rightarrow> int" where
  "foldRunning x now =
     (if r_status x \<noteq> R_RUNNING then r_elapsed x
      else (case truthy_start (runStartMs x) of
              None \<Rightarrow> r_elapsed x | Some s \<Rightarrow> r_elapsed x + section_seconds s now))"

definition orEmpty :: "run_entry option \<Rightarrow> run_entry" where
  "orEmpty e = (case e of None \<Rightarrow> emptyEntry | Some x \<Rightarrow> x)"

definition startEntry :: "run_entry option \<Rightarrow> int \<Rightarrow> run_entry" where
  "startEntry e now =
     (let x = orEmpty e in
      if \<not> canTransition (r_status x) R_RUNNING then x
      else x\<lparr>r_status := R_RUNNING, runStartMs := Some now, r_startedAt := Some now\<rparr>)"

definition resumeEntry :: "run_entry option \<Rightarrow> int \<Rightarrow> run_entry" where
  "resumeEntry e now =
     (let x = orEmpty e in
      if \<not> canTransition (r_status x) R_RUNNING then x
      else x\<lparr>r_status := R_RUNNING, runStartMs := Some now\<rparr>)"

definition pauseEntry :: "run_entry option \<Rightarrow> int \<Rightarrow> run_entry" where
  "pauseEntry e now =
     (let x = orEmpty e in
      if \<not> canTransition (r_status x) R_PAUSED then x
      else x\<lparr>r_status := R_PAUSED, r_elapsed := foldRunning x now, runStartMs := None\<rparr>)"

definition finishEntry :: "run_entry option \<Rightarrow> int \<Rightarrow> run_entry" where
  "finishEntry e now =
     (let x = orEmpty e in
      if \<not> canTransition (r_status x) R_COMPLETED then x
      else x\<lparr>r_status := R_COMPLETED, r_elapsed := foldRunning x now, runStartMs := None,
             r_completedAt := Some now\<rparr>)"

lemmas entry_defs = startEntry_def resumeEntry_def pauseEntry_def finishEntry_def Let_def
  orEmpty_def canTransition_def

datatype entry_op = E_start | E_resume | E_pause | E_finish

fun entry_apply :: "entry_op \<Rightarrow> run_entry option \<Rightarrow> int \<Rightarrow> run_entry" where
  "entry_apply E_start = startEntry"
| "entry_apply E_resume = resumeEntry"
| "entry_apply E_pause = pauseEntry"
| "entry_apply E_finish = finishEntry"

definition entry_run :: "run_entry \<Rightarrow> (entry_op \<times> int) list \<Rightarrow> run_entry" where
  "entry_run e ops = foldl (\<lambda>e (op, n). entry_apply op (Some e) n) e ops"

subsection \<open>The documented machine\<close>

text \<open>The transition table of the file's header comment.\<close>

inductive run_step :: "run_status \<Rightarrow> run_status \<Rightarrow> bool" where
  begin_work: "run_step R_IDLE R_RUNNING"
| suspend: "run_step R_RUNNING R_PAUSED"
| finish_running: "run_step R_RUNNING R_COMPLETED"
| continue_work: "run_step R_PAUSED R_RUNNING"
| finish_paused: "run_step R_PAUSED R_COMPLETED"

code_pred run_step .

inductive_cases run_step_completedE [elim!]: "run_step R_COMPLETED s"
inductive_cases run_step_idleE [elim!]: "run_step R_IDLE s"

lemma canTransition_iff [simp]: "canTransition f t \<longleftrightarrow> run_step f t"
  by (cases f; cases t) (auto simp: canTransition_def intro: run_step.intros elim: run_step.cases)

text \<open>A running entry has a start time, no other has one, and the elapsed seconds are not negative.\<close>

definition entry_ok :: "run_entry \<Rightarrow> bool" where
  "entry_ok e \<longleftrightarrow> (runStartMs e \<noteq> None \<longleftrightarrow> r_status e = R_RUNNING)
     \<and> (r_completedAt e \<noteq> None \<longrightarrow> r_status e = R_COMPLETED) \<and> 0 \<le> r_elapsed e"

lemma entry_ok_empty [simp]: "entry_ok emptyEntry"
  by (simp add: entry_ok_def emptyEntry_def)

lemma section_nonneg [simp]: "0 \<le> section_seconds s n"
  by (simp add: section_seconds_def)

lemma foldRunning_mono: "r_elapsed x \<le> foldRunning x n"
  by (auto simp: foldRunning_def split: option.splits)

lemma entry_apply_status:
  "r_status (entry_apply op (Some e) n) = r_status e \<or> run_step (r_status e) (r_status (entry_apply op (Some e) n))"
  by (cases op) (auto simp: startEntry_def resumeEntry_def pauseEntry_def finishEntry_def orEmpty_def)

lemma entry_ok_apply [inv_intro]: "entry_ok e \<Longrightarrow> entry_ok (entry_apply op (Some e) n)"
proof (cases op)
  case E_pause
  assume "entry_ok e"
  with E_pause foldRunning_mono [of e n] show ?thesis
    by (cases "r_status e") (auto simp: entry_ok_def entry_defs)
next
  case E_finish
  assume "entry_ok e"
  with E_finish foldRunning_mono [of e n] show ?thesis
    by (cases "r_status e") (auto simp: entry_ok_def entry_defs)
next
  case E_start
  assume "entry_ok e"
  with E_start show ?thesis by (cases "r_status e") (auto simp: entry_ok_def entry_defs)
next
  case E_resume
  assume "entry_ok e"
  with E_resume show ?thesis by (cases "r_status e") (auto simp: entry_ok_def entry_defs)
qed

lemma entry_ok_run: "entry_ok e \<Longrightarrow> entry_ok (entry_run e ops)"
  unfolding entry_run_def by (induction ops arbitrary: e) (auto intro: inv_intro)

lemma entry_apply_elapsed: "r_elapsed e \<le> r_elapsed (entry_apply op (Some e) n)"
  by (cases op) (auto simp: startEntry_def resumeEntry_def pauseEntry_def finishEntry_def orEmpty_def foldRunning_mono)

text \<open>What the screen shows is what is stored when the section is closed.\<close>

lemma displayed_is_stored:
  "r_status e = R_RUNNING \<Longrightarrow>
   r_elapsed (pauseEntry (Some e) n) = displaySeconds (Some e) n
   \<and> r_elapsed (finishEntry (Some e) n) = displaySeconds (Some e) n"
  by (simp add: pauseEntry_def finishEntry_def orEmpty_def foldRunning_def displaySeconds_def
      run_step.intros split: option.splits)

lemma section_bounds: "s \<le> n \<Longrightarrow> 1000 * section_seconds s n \<le> n - s \<and> n - s < 1000 * section_seconds s n + 1000"
proof -
  assume "s \<le> n"
  then have "0 \<le> (n - s) div 1000" by simp
  moreover have "1000 * ((n - s) div 1000) + (n - s) mod 1000 = n - s" by simp
  moreover have "0 \<le> (n - s) mod 1000" "(n - s) mod 1000 < 1000" by simp_all
  ultimately show ?thesis unfolding section_seconds_def max_def by (auto simp del: minus_mod_eq_mult_div)
qed

text \<open>A session: resumed at \<open>b\<close>, paused at \<open>c\<close>.\<close>

definition run_sessions :: "run_entry \<Rightarrow> (int \<times> int) list \<Rightarrow> run_entry" where
  "run_sessions e ss = foldl (\<lambda>e (b, c). pauseEntry (Some (resumeEntry (Some e) b)) c) e ss"

lemma run_session:
  assumes "r_status e = R_PAUSED" "0 < b"
  shows "r_status (pauseEntry (Some (resumeEntry (Some e) b)) c) = R_PAUSED"
    "r_elapsed (pauseEntry (Some (resumeEntry (Some e) b)) c) = r_elapsed e + section_seconds b c"
  using assms by (simp_all add: pauseEntry_def resumeEntry_def orEmpty_def run_step.intros foldRunning_def
      truthy_start_def)

lemma run_sessions_elapsed:
  "r_status e = R_PAUSED \<Longrightarrow> \<forall>(b, c) \<in> set ss. 0 < b \<and> b \<le> c \<Longrightarrow>
   r_status (run_sessions e ss) = R_PAUSED
   \<and> 1000 * (r_elapsed (run_sessions e ss) - r_elapsed e) \<le> (\<Sum>(b, c)\<leftarrow>ss. c - b)
   \<and> (\<Sum>(b, c)\<leftarrow>ss. c - b) \<le> 1000 * (r_elapsed (run_sessions e ss) - r_elapsed e) + 999 * int (length ss)"
proof (induction ss arbitrary: e)
  case (Cons p ss)
  obtain b c where p: "p = (b, c)" by (cases p)
  with Cons.prems have b: "0 < b" "b \<le> c" by auto
  note s = run_session [OF Cons.prems(1) b(1), of c]
  have "\<forall>(b, c) \<in> set ss. 0 < b \<and> b \<le> c" using Cons.prems(2) by simp
  from Cons.IH [OF s(1) this] s(2) section_bounds [OF b(2)] show ?case
    by (simp add: run_sessions_def p)
qed (simp add: run_sessions_def)

subsection \<open>The hook (hooks/useTaskRuntime.js)\<close>

type_synonym runtime_map = "(string \<times> run_entry) list"

definition get :: "runtime_map \<Rightarrow> js_id \<Rightarrow> run_entry" where
  "get m tid = orEmpty (lookup m (prop_key tid))"

text \<open>
  \<open>pauseOthers\<close>: the keys of the object are strings, so \<open>id !== exceptId\<close> is true for every key
  when the id is a number.
\<close>

definition pauseOthers :: "runtime_map \<Rightarrow> js_id \<Rightarrow> int \<Rightarrow> runtime_map" where
  "pauseOthers m exceptId now =
     map_vals (\<lambda>k e. if Str_id k \<noteq> exceptId \<and> r_status e = R_RUNNING then pauseEntry (Some e) now else e) m"

definition rt_start :: "runtime_map \<Rightarrow> js_id \<Rightarrow> int \<Rightarrow> runtime_map" where
  "rt_start prev tid now =
     (let draft = pauseOthers prev tid now in store (prop_key tid) (startEntry (Some emptyEntry) now) draft)"

definition rt_resume :: "runtime_map \<Rightarrow> js_id \<Rightarrow> int \<Rightarrow> runtime_map" where
  "rt_resume prev tid now =
     (let draft = pauseOthers prev tid now;
          cur = lookup draft (prop_key tid);
          e = (case cur of
                 Some x \<Rightarrow> if r_status x = R_PAUSED then resumeEntry (Some x) now else startEntry (Some emptyEntry) now
               | None \<Rightarrow> startEntry (Some emptyEntry) now)
      in store (prop_key tid) e draft)"

definition rt_pause :: "runtime_map \<Rightarrow> js_id \<Rightarrow> int \<Rightarrow> runtime_map" where
  "rt_pause prev tid now =
     store (prop_key tid) (pauseEntry (Some (orEmpty (lookup prev (prop_key tid)))) now) prev"

text \<open>\<open>finish\<close> reads the entry of the last render (\<open>mapRef\<close>) and writes it into the current map.\<close>

definition rt_finish :: "runtime_map \<Rightarrow> runtime_map \<Rightarrow> js_id \<Rightarrow> int \<Rightarrow> runtime_map \<times> run_entry" where
  "rt_finish mapRef prev tid now =
     (let fin = finishEntry (Some (orEmpty (lookup mapRef (prop_key tid)))) now
      in (store (prop_key tid) fin prev, fin))"

definition rt_clearCompleted :: "runtime_map \<Rightarrow> runtime_map" where
  "rt_clearCompleted prev = filter (\<lambda>(_, e). r_status e \<noteq> R_COMPLETED) prev"

definition hasRunning :: "runtime_map \<Rightarrow> bool" where
  "hasRunning m \<longleftrightarrow> (\<exists>p \<in> set m. r_status (snd p) = R_RUNNING)"

datatype rt_call = RT_start js_id | RT_resume js_id | RT_pause js_id | RT_finish js_id | RT_clear

fun rt_apply :: "runtime_map \<Rightarrow> rt_call \<times> int \<Rightarrow> runtime_map" where
  "rt_apply m (RT_start i, n) = rt_start m i n"
| "rt_apply m (RT_resume i, n) = rt_resume m i n"
| "rt_apply m (RT_pause i, n) = rt_pause m i n"
| "rt_apply m (RT_finish i, n) = fst (rt_finish m m i n)"
| "rt_apply m (RT_clear, n) = rt_clearCompleted m"

definition rt_run :: "runtime_map \<Rightarrow> (rt_call \<times> int) list \<Rightarrow> runtime_map" where
  "rt_run m cs = foldl rt_apply m cs"

text \<open>At most one entry runs; entries are well formed; keys are not repeated.\<close>

definition rt_inv :: "runtime_map \<Rightarrow> bool" where
  "rt_inv m \<longleftrightarrow> distinct (map fst m)
     \<and> (\<forall>j k e f. lookup m j = Some e \<and> lookup m k = Some f \<and> r_status e = R_RUNNING \<and> r_status f = R_RUNNING \<longrightarrow> j = k)
     \<and> (\<forall>k e. lookup m k = Some e \<longrightarrow> entry_ok e)"

lemma rt_inv_store:
  assumes "rt_inv m" "entry_ok e"
    and "r_status e = R_RUNNING \<Longrightarrow> \<forall>j f. lookup m j = Some f \<and> r_status f = R_RUNNING \<longrightarrow> j = k"
  shows "rt_inv (store k e m)"
  using assms unfolding rt_inv_def by (auto split: if_splits; metis)

lemma paused_not_running: "r_status (pauseEntry (Some e) n) \<noteq> R_RUNNING"
  by (auto simp: pauseEntry_def orEmpty_def run_step.intros)

lemma entry_ok_ops:
  "entry_ok e \<Longrightarrow> entry_ok (startEntry (Some e) n)" "entry_ok e \<Longrightarrow> entry_ok (resumeEntry (Some e) n)"
  "entry_ok e \<Longrightarrow> entry_ok (pauseEntry (Some e) n)" "entry_ok e \<Longrightarrow> entry_ok (finishEntry (Some e) n)"
  using entry_ok_apply [of e E_start n] entry_ok_apply [of e E_resume n]
    entry_ok_apply [of e E_pause n] entry_ok_apply [of e E_finish n] by simp_all

lemma pauseOthers_running:
  assumes "lookup (pauseOthers m tid n) j = Some f" "r_status f = R_RUNNING"
  shows "tid = Str_id j"
proof (rule ccontr)
  assume "tid \<noteq> Str_id j"
  then have "lookup (pauseOthers m tid n) j
      = map_option (\<lambda>e. if r_status e = R_RUNNING then pauseEntry (Some e) n else e) (lookup m j)"
    by (simp add: pauseOthers_def eq_commute)
  with assms(1) obtain e where "f = (if r_status e = R_RUNNING then pauseEntry (Some e) n else e)"
    by (cases "lookup m j") (simp_all split del: if_split, metis)
  with assms(2) paused_not_running [of e n] show False by (simp split: if_splits)
qed

lemma rt_inv_pauseOthers [inv_intro]: "rt_inv m \<Longrightarrow> rt_inv (pauseOthers m tid n)"
  unfolding rt_inv_def
proof (elim conjE, intro conjI allI impI)
  assume "distinct (map fst m)"
  then show "distinct (map fst (pauseOthers m tid n))" by (simp add: pauseOthers_def)
next
  fix j k e f
  assume "lookup (pauseOthers m tid n) j = Some e \<and> lookup (pauseOthers m tid n) k = Some f
    \<and> r_status e = R_RUNNING \<and> r_status f = R_RUNNING"
  then show "j = k" using pauseOthers_running by (metis js_id.inject(2))
next
  fix k e
  assume "\<forall>k e. lookup m k = Some e \<longrightarrow> entry_ok e" "lookup (pauseOthers m tid n) k = Some e"
  then show "entry_ok e" by (auto simp: pauseOthers_def intro: entry_ok_ops split: if_splits)
qed

lemma rt_inv_launch:
  assumes "rt_inv m" "entry_ok e"
  shows "rt_inv (store (prop_key tid) e (pauseOthers m tid n))"
  using assms by (auto intro!: rt_inv_store inv_intro dest: pauseOthers_running)

lemma rt_inv_entry: "rt_inv m \<Longrightarrow> lookup m k = Some e \<Longrightarrow> entry_ok e"
  by (simp add: rt_inv_def)

lemma rt_inv_orEmpty: "rt_inv m \<Longrightarrow> entry_ok (orEmpty (lookup m k))"
  by (auto simp: orEmpty_def rt_inv_entry split: option.splits)

lemma finish_not_running: "r_status (finishEntry (Some e) n) = R_RUNNING \<Longrightarrow> False"
  by (auto simp: finishEntry_def orEmpty_def run_step.intros split: if_splits)

lemma lookup_filter_vals:
  "distinct (map fst m) \<Longrightarrow>
   lookup (filter (\<lambda>(_, e). P e) m) k = (case lookup m k of Some e \<Rightarrow> if P e then Some e else None | None \<Rightarrow> None)"
proof (induction m)
  case (Cons p m)
  obtain k' e' where p: "p = (k', e')" by (cases p)
  have "k' = k \<Longrightarrow> lookup m k = None" using Cons.prems p by (auto simp: map_of_eq_None_iff)
  with Cons p show ?case by auto
qed simp

lemma rt_inv_apply [inv_intro]: "rt_inv m \<Longrightarrow> rt_inv (rt_apply m c)"
proof (induction m c rule: rt_apply.induct)
  case (1 m i n)
  then show ?case by (auto simp: rt_start_def intro!: rt_inv_launch entry_ok_ops)
next
  case (2 m i n)
  then have "rt_inv (pauseOthers m i n)" by (rule inv_intro)
  with 2 show ?case
    by (auto simp: rt_resume_def Let_def intro!: rt_inv_launch entry_ok_ops dest: rt_inv_entry
        split: option.splits)
next
  case (3 m i n)
  then show ?case
    by (auto simp: rt_pause_def paused_not_running intro!: rt_inv_store entry_ok_ops rt_inv_orEmpty)
next
  case (4 m i n)
  then show ?case
    by (auto simp: rt_finish_def Let_def intro!: rt_inv_store entry_ok_ops rt_inv_orEmpty dest: finish_not_running)
next
  case (5 m n)
  then have d: "distinct (map fst m)" by (simp add: rt_inv_def)
  have "distinct (map fst (rt_clearCompleted m))"
    using d unfolding rt_clearCompleted_def by (rule distinct_map_filter)
  with 5 show ?case
    unfolding rt_inv_def
    by (auto simp: rt_clearCompleted_def lookup_filter_vals [OF d, of "\<lambda>e. r_status e \<noteq> R_COMPLETED"]
        split: option.splits if_splits)
qed

lemma rt_inv_run: "rt_inv m \<Longrightarrow> rt_inv (rt_run m cs)"
  unfolding rt_run_def by (induction cs arbitrary: m) (auto intro: inv_intro)

lemma rt_inv_Nil [simp]: "rt_inv []"
  by (simp add: rt_inv_def)

lemma launch_entry: "r_status (startEntry (Some emptyEntry) n) = R_RUNNING"
  by (simp add: startEntry_def orEmpty_def emptyEntry_def run_step.intros)

subsection \<open>Properties\<close>

text \<open>
  The run state obeys its documented transition table: from the empty entry, every operation
  leaves the status or makes a table transition; idle never completes directly, completed is
  final; a start time is stored exactly while running, and elapsed seconds never go down.
\<close>

theorem run_status_machine:
  "let e = entry_run emptyEntry ops; e' = entry_apply op (Some e) n in
     (r_status e' = r_status e \<or> run_step (r_status e) (r_status e'))
     \<and> \<not> run_step R_IDLE R_COMPLETED \<and> \<not> run_step R_COMPLETED s
     \<and> (runStartMs e' \<noteq> None) = (r_status e' = R_RUNNING)
     \<and> 0 \<le> r_elapsed e \<and> r_elapsed e \<le> r_elapsed e'"
proof -
  have ok: "entry_ok (entry_run emptyEntry ops)" by (rule entry_ok_run) simp
  from entry_ok_apply [OF this, of op n] ok show ?thesis
    unfolding Let_def using entry_apply_status entry_apply_elapsed
    by (auto simp: entry_ok_def)
qed

text \<open>
  The clock on the screen is what gets stored: pausing or finishing a running entry at an
  instant stores exactly the seconds displayed at that instant.
\<close>

theorem displayed_time_is_charged:
  assumes "r_status e = R_RUNNING"
  shows "r_elapsed (pauseEntry (Some e) n) = displaySeconds (Some e) n
    \<and> r_elapsed (finishEntry (Some e) n) = displaySeconds (Some e) n"
  using assms by (rule displayed_is_stored)

lemma displayed_time_is_charged_witness:
  "r_elapsed (pauseEntry (Some (startEntry None 1000)) 8500) = 7"
  using displayed_time_is_charged [of "startEntry None 1000" 8500]
  by (simp add: startEntry_def orEmpty_def emptyEntry_def run_step.intros displaySeconds_def
      truthy_start_def section_seconds_def)

text \<open>
  Rounding down loses less than a second per session: after \<open>k\<close> resume/pause sessions of an
  entry, the stored seconds never exceed the time worked and fall short of it by at most
  \<open>k\<close> times 999 ms (the error grows with the number of pauses).
\<close>

theorem session_rounding_loss:
  assumes "r_status e = R_PAUSED" and "\<forall>(b, c) \<in> set ss. 0 < b \<and> b \<le> c"
  shows "1000 * (r_elapsed (run_sessions e ss) - r_elapsed e) \<le> (\<Sum>(b, c)\<leftarrow>ss. c - b)
    \<and> (\<Sum>(b, c)\<leftarrow>ss. c - b) \<le> 1000 * (r_elapsed (run_sessions e ss) - r_elapsed e) + 999 * int (length ss)"
  using run_sessions_elapsed [OF assms] by blast

lemma session_rounding_loss_witness:
  "let e = pauseEntry (Some (startEntry None 1000)) 8500 in
   r_elapsed (run_sessions e [(10000, 11000), (20000, 20999)]) = r_elapsed e + 1"
proof -
  let ?e = "pauseEntry (Some (startEntry None 1000)) 8500"
  have "r_status ?e = R_PAUSED"
    by (simp add: startEntry_def pauseEntry_def orEmpty_def emptyEntry_def run_step.intros)
  from session_rounding_loss [OF this, of "[(10000, 11000), (20000, 20999)]"]
  show ?thesis unfolding Let_def by simp
qed

text \<open>
  One task at a time: after any calls of the hook on an empty map, with string or number ids,
  at most one entry runs, keys are not repeated, every entry is well formed, and starting a
  task leaves that task running.
\<close>

theorem one_task_runs:
  "let m = rt_run [] cs in
     rt_inv m
     \<and> card {k. \<exists>e. lookup m k = Some e \<and> r_status e = R_RUNNING} \<le> 1
     \<and> r_status (get (rt_start m i n) i) = R_RUNNING
     \<and> r_status (get (rt_resume m i n) i) = R_RUNNING"
proof -
  let ?m = "rt_run [] cs"
  have inv: "rt_inv ?m" by (rule rt_inv_run) simp
  let ?R = "{k. \<exists>e. lookup ?m k = Some e \<and> r_status e = R_RUNNING}"
  have "?R \<subseteq> fst ` set ?m" by (force dest: map_of_SomeD)
  then have "finite ?R" by (rule finite_subset) simp
  then have "card ?R \<le> Suc 0"
    using inv unfolding rt_inv_def by (subst card_le_Suc0_iff_eq) blast+
  with inv show ?thesis
    by (auto simp: Let_def get_def rt_start_def rt_resume_def orEmpty_def launch_entry resumeEntry_def
        run_step.intros split: option.splits)
qed

text \<open>
  Resuming a running task depends on the type of its id.  With a string id the running
  section is thrown away and the clock restarts at zero; with a number id, whose key is never
  \<open>===\<close> to it, the task is first paused like any other and then continues, keeping what it had.
\<close>

theorem resume_of_running_task:
  assumes "lookup m k = Some e" and "r_status e = R_RUNNING"
  shows "r_elapsed (get (rt_resume m (Str_id k) n) (Str_id k)) = 0
    \<and> (k = show_int i \<longrightarrow> r_elapsed (get (rt_resume m (Num_id i) n) (Num_id i)) = displaySeconds (Some e) n)"
proof
  show "r_elapsed (get (rt_resume m (Str_id k) n) (Str_id k)) = 0"
    using assms by (simp add: rt_resume_def get_def orEmpty_def pauseOthers_def Let_def startEntry_def
        emptyEntry_def run_step.intros)
  show "k = show_int i \<longrightarrow> r_elapsed (get (rt_resume m (Num_id i) n) (Num_id i)) = displaySeconds (Some e) n"
    using assms displayed_is_stored [OF assms(2), of n]
    by (auto simp: rt_resume_def get_def orEmpty_def pauseOthers_def Let_def resumeEntry_def pauseEntry_def
        run_step.intros)
qed

lemma resume_of_running_task_witness:
  "r_elapsed (get (rt_resume [(''5'', startEntry None 1000)] (Str_id ''5'') 61000) (Str_id ''5'')) = 0
   \<and> r_elapsed (get (rt_resume [(''5'', startEntry None 1000)] (Num_id 5) 61000) (Num_id 5)) = 60"
proof -
  have five: "show_int 5 = ''5''" by code_simp
  show ?thesis
    using resume_of_running_task [of "[(''5'', startEntry None 1000)]" "''5''" "startEntry None 1000" 61000 5]
    by (simp add: five startEntry_def orEmpty_def emptyEntry_def run_step.intros displaySeconds_def
        truthy_start_def section_seconds_def)
qed

end
