(* ===== verification/Display_Status.thy ===== *)
theory Display_Status
  imports Prelude
begin

text \<open>
  Which buttons a task card shows: \<open>frontend/src/lib/displayStatus.js\<close> with the component
  \<open>components/TaskActionButtons/TaskActionButtons.jsx\<close> on the client, and the server's
  transition machine \<open>alarm-system/src/state/taskTransitions.ts\<close> that decides whether the
  click is allowed.  The theory shows that the buttons offered are exactly the transitions the
  server accepts, and where the two derivations of the display status differ.
\<close>

subsection \<open>The client (lib/displayStatus.js)\<close>

datatype display_status = D_IDLE | D_ACTIVE | D_PAUSED | D_OVERDUE | D_COMPLETED

text \<open>
  The \<open>status\<close> string of a task from the server or the mock: a business status, or one of the
  display statuses; \<open>COMPLETED\<close> is both.  \<open>Other_status\<close> is any further string.
\<close>

datatype raw_status =
    S_PENDING | S_SNOOZED | S_ARCHIVED | S_COMPLETED | S_IDLE | S_ACTIVE | S_PAUSED | S_OVERDUE
  | Other_status string

text \<open>The run status handed to the card; it comes from the timer or the run-state hook.\<close>

datatype card_status = C_IDLE | C_RUNNING | C_PAUSED | C_OVERTIME | C_COMPLETED

definition isOverdue :: "string option \<Rightarrow> bool" where
  "isOverdue dday = (case dday of None \<Rightarrow> False | Some s \<Rightarrow> take 2 s = ''D+'')"

record card_view =
  v_status :: "raw_status option"
  v_dday :: "string option"

definition deriveDisplayStatus :: "card_view option \<Rightarrow> card_status option \<Rightarrow> display_status" where
  "deriveDisplayStatus view runStatus =
     (if (case view of None \<Rightarrow> None | Some v \<Rightarrow> v_status v) = Some S_COMPLETED then D_COMPLETED
      else if runStatus = Some C_RUNNING \<or> runStatus = Some C_OVERTIME then D_ACTIVE
      else if runStatus = Some C_PAUSED then D_PAUSED
      else if isOverdue (case view of None \<Rightarrow> None | Some v \<Rightarrow> v_dday v) then D_OVERDUE
      else D_IDLE)"

datatype action_button = B_start | B_pause | B_resume | B_finish

fun taskActionButtonSet :: "display_status \<Rightarrow> action_button list" where
  "taskActionButtonSet D_COMPLETED = []"
| "taskActionButtonSet D_ACTIVE = [B_pause, B_finish]"
| "taskActionButtonSet D_PAUSED = [B_resume, B_finish]"
| "taskActionButtonSet D_OVERDUE = [B_resume, B_finish]"
| "taskActionButtonSet D_IDLE = [B_start]"

text \<open>
  The rendered group: \<open>None\<close> is React's \<open>null\<close>; otherwise the modifier class for an overdue task
  and the buttons in the order of the markup (start, resume, pause, finish).
\<close>

definition TaskActionButtons :: "display_status \<Rightarrow> (bool \<times> action_button list) option" where
  "TaskActionButtons status =
     (let bs = taskActionButtonSet status in
      if bs = [] then None
      else Some (status = D_OVERDUE, filter (\<lambda>b. b \<in> set bs) [B_start, B_resume, B_pause, B_finish]))"

subsection \<open>The server (state/taskTransitions.ts)\<close>

datatype action = ACT_START | ACT_PAUSE | ACT_RESUME | ACT_FINISH

datatype server_timer = ST_IDLE | ST_RUNNING | ST_PAUSED | ST_OVERTIME | ST_COMPLETED

definition server_deriveDisplayStatus :: "raw_status \<Rightarrow> server_timer \<Rightarrow> bool \<Rightarrow> display_status" where
  "server_deriveDisplayStatus businessStatus timerStatus overdue =
     (if businessStatus = S_COMPLETED \<or> timerStatus = ST_COMPLETED then D_COMPLETED
      else if timerStatus = ST_RUNNING \<or> timerStatus = ST_OVERTIME then D_ACTIVE
      else if timerStatus = ST_PAUSED then D_PAUSED
      else if overdue then D_OVERDUE
      else D_IDLE)"

record outcome =
  timerStatus :: server_timer
  completesBusiness :: bool

fun TABLE :: "action \<Rightarrow> display_status \<Rightarrow> outcome option" where
  "TABLE ACT_START D_IDLE = Some \<lparr>timerStatus = ST_RUNNING, completesBusiness = False\<rparr>"
| "TABLE ACT_PAUSE D_ACTIVE = Some \<lparr>timerStatus = ST_PAUSED, completesBusiness = False\<rparr>"
| "TABLE ACT_RESUME D_PAUSED = Some \<lparr>timerStatus = ST_RUNNING, completesBusiness = False\<rparr>"
| "TABLE ACT_RESUME D_OVERDUE = Some \<lparr>timerStatus = ST_RUNNING, completesBusiness = False\<rparr>"
| "TABLE ACT_FINISH D_ACTIVE = Some \<lparr>timerStatus = ST_COMPLETED, completesBusiness = True\<rparr>"
| "TABLE ACT_FINISH D_PAUSED = Some \<lparr>timerStatus = ST_COMPLETED, completesBusiness = True\<rparr>"
| "TABLE ACT_FINISH D_OVERDUE = Some \<lparr>timerStatus = ST_COMPLETED, completesBusiness = True\<rparr>"
| "TABLE _ _ = None"

datatype transition_message =
    CompletedCannotRestart | NotStartedCannotPause | AlreadyStarted | NotResumable | TransitionNotAllowed

definition messageFor :: "display_status \<Rightarrow> action \<Rightarrow> transition_message" where
  "messageFor current action =
     (if current = D_COMPLETED then CompletedCannotRestart
      else if action = ACT_PAUSE \<and> current = D_IDLE then NotStartedCannotPause
      else if action = ACT_START \<and> current \<noteq> D_IDLE then AlreadyStarted
      else if action = ACT_RESUME then NotResumable
      else TransitionNotAllowed)"

definition transition :: "display_status \<Rightarrow> action \<Rightarrow> transition_message + outcome" where
  "transition current action =
     (case TABLE action current of None \<Rightarrow> Inl (messageFor current action) | Some oc \<Rightarrow> Inr oc)"

text \<open>
  One accepted transition on the stored pair of statuses, as the service applies it: \<open>FINISH\<close> also
  sets the business status.
\<close>

definition server_apply :: "raw_status \<times> server_timer \<Rightarrow> bool \<Rightarrow> action \<Rightarrow> transition_message + raw_status \<times> server_timer" where
  "server_apply st overdue action =
     (case transition (server_deriveDisplayStatus (fst st) (snd st) overdue) action of
        Inl m \<Rightarrow> Inl m
      | Inr oc \<Rightarrow> Inr (if completesBusiness oc then S_COMPLETED else fst st, timerStatus oc))"

fun_cases TABLE_SomeE: "TABLE a d = Some oc"

text \<open>What the table makes of the display status.\<close>

definition outcome_status :: "outcome \<Rightarrow> display_status" where
  "outcome_status oc =
     server_deriveDisplayStatus (if completesBusiness oc then S_COMPLETED else S_PENDING) (timerStatus oc) False"

fun button_action :: "action_button \<Rightarrow> action" where
  "button_action B_start = ACT_START"
| "button_action B_pause = ACT_PAUSE"
| "button_action B_resume = ACT_RESUME"
| "button_action B_finish = ACT_FINISH"

fun card_of_timer :: "server_timer \<Rightarrow> card_status" where
  "card_of_timer ST_IDLE = C_IDLE"
| "card_of_timer ST_RUNNING = C_RUNNING"
| "card_of_timer ST_PAUSED = C_PAUSED"
| "card_of_timer ST_OVERTIME = C_OVERTIME"
| "card_of_timer ST_COMPLETED = C_COMPLETED"

lemma TABLE_outcome: "TABLE a d = Some oc \<Longrightarrow> completesBusiness oc \<longleftrightarrow> a = ACT_FINISH"
  by (cases a; cases d) auto

lemma server_display_bool:
  "server_deriveDisplayStatus b t o' = D_COMPLETED \<longleftrightarrow> b = S_COMPLETED \<or> t = ST_COMPLETED"
  by (auto simp: server_deriveDisplayStatus_def)

lemma server_display_completed [simp]: "server_deriveDisplayStatus S_COMPLETED t od = D_COMPLETED"
  by (simp add: server_deriveDisplayStatus_def)

fun server_run :: "raw_status \<times> server_timer \<Rightarrow> (action \<times> bool) list \<Rightarrow> raw_status \<times> server_timer" where
  "server_run st [] = st"
| "server_run st ((a, od) # as) = server_run (case server_apply st od a of Inl _ \<Rightarrow> st | Inr st' \<Rightarrow> st') as"

text \<open>The two stored statuses agree on completion.\<close>

definition both_completed :: "raw_status \<times> server_timer \<Rightarrow> bool" where
  "both_completed st \<longleftrightarrow> (fst st = S_COMPLETED \<longleftrightarrow> snd st = ST_COMPLETED)"

lemma both_completed_apply: "both_completed st \<Longrightarrow> server_apply st od a = Inr st' \<Longrightarrow> both_completed st'"
  by (cases "server_deriveDisplayStatus (fst st) (snd st) od"; cases a)
     (auto simp: server_apply_def transition_def both_completed_def server_display_bool)

lemma both_completed_run: "both_completed st \<Longrightarrow> both_completed (server_run st as)"
proof (induction as arbitrary: st)
  case (Cons x as)
  obtain a od where x: "x = (a, od)" by (cases x)
  show ?case
  proof (cases "server_apply st od a")
    case (Inr st')
    with Cons.prems have "both_completed st'" by (rule both_completed_apply)
    with Cons.IH x Inr show ?thesis by simp
  qed (use Cons x in simp)
qed simp

lemma completed_absorbs: "fst st = S_COMPLETED \<Longrightarrow> server_run st as = st"
  by (induction st as rule: server_run.induct)
     (auto simp: server_apply_def transition_def server_deriveDisplayStatus_def)

subsection \<open>Properties\<close>

text \<open>
  The card offers exactly what the server accepts: for every display status a button is
  rendered iff the server's table allows its action, and the group is hidden only when the
  server would refuse every action.
\<close>

theorem buttons_are_allowed_actions:
  "(b \<in> set (taskActionButtonSet d)) = (TABLE (button_action b) d \<noteq> None)
   \<and> (TaskActionButtons d = None) = (\<forall>a. TABLE a d = None)
   \<and> map_option (set \<circ> snd) (TaskActionButtons d) \<in> {None, Some (set (taskActionButtonSet d))}"
proof (intro conjI)
  show "(b \<in> set (taskActionButtonSet d)) = (TABLE (button_action b) d \<noteq> None)"
    by (cases b; cases d) simp_all
  show "map_option (set \<circ> snd) (TaskActionButtons d) \<in> {None, Some (set (taskActionButtonSet d))}"
    by (cases d) (auto simp: TaskActionButtons_def)
  have "(\<forall>a. TABLE a d = None) \<longleftrightarrow> d = D_COMPLETED"
  proof
    assume *: "\<forall>a. TABLE a d = None"
    show "d = D_COMPLETED"
      using *[rule_format, of ACT_START] *[rule_format, of ACT_FINISH] by (cases d) simp_all
  next
    assume "d = D_COMPLETED"
    then show "\<forall>a. TABLE a d = None" by (auto intro: action.exhaust TABLE.simps)
  qed
  then show "(TaskActionButtons d = None) = (\<forall>a. TABLE a d = None)"
    by (cases d) (simp_all add: TaskActionButtons_def)
qed

text \<open>
  The client's and the server's display status agree for every combination of business
  status, timer status and deadline, with one exception: a completed timer whose task is not
  completed is COMPLETED for the server, but OVERDUE or IDLE, with buttons, on the card.
\<close>

theorem display_status_agreement:
  assumes "isOverdue dday = overdue"
  shows "(deriveDisplayStatus (Some \<lparr>v_status = Some b, v_dday = dday\<rparr>) (Some (card_of_timer t))
      = server_deriveDisplayStatus b t overdue)
    = (t \<noteq> ST_COMPLETED \<or> b = S_COMPLETED)"
  using assms by (cases t) (auto simp: deriveDisplayStatus_def server_deriveDisplayStatus_def)

lemma display_status_agreement_witness:
  "deriveDisplayStatus (Some \<lparr>v_status = Some S_PENDING, v_dday = Some ''D+3''\<rparr>) (Some C_COMPLETED)
   \<noteq> server_deriveDisplayStatus S_PENDING ST_COMPLETED True"
  using display_status_agreement [of "Some ''D+3''" True S_PENDING ST_COMPLETED]
  by (simp add: isOverdue_def)

text \<open>
  The server's machine: from a fresh task, whatever actions arrive and wherever the deadline
  lies, business status and timer status are completed together; a completed task refuses every
  action, with the message that it cannot be restarted.
\<close>

theorem server_machine_consistent:
  "(fst (server_run (S_PENDING, ST_IDLE) as) = S_COMPLETED)
     = (snd (server_run (S_PENDING, ST_IDLE) as) = ST_COMPLETED)
   \<and> server_apply (S_COMPLETED, t) od a = Inl CompletedCannotRestart
   \<and> server_run (S_COMPLETED, t) as = (S_COMPLETED, t)"
proof (intro conjI)
  have "both_completed (server_run (S_PENDING, ST_IDLE) as)"
    by (rule both_completed_run) (simp add: both_completed_def)
  then show "(fst (server_run (S_PENDING, ST_IDLE) as) = S_COMPLETED)
     = (snd (server_run (S_PENDING, ST_IDLE) as) = ST_COMPLETED)"
    by (simp add: both_completed_def)
  show "server_apply (S_COMPLETED, t) od a = Inl CompletedCannotRestart"
    by (cases a) (simp_all add: server_apply_def transition_def server_deriveDisplayStatus_def messageFor_def)
qed (simp add: completed_absorbs)

end
