(* ===== verification/Task_Store.thy ===== *)
theory Task_Store
  imports Display_Status
begin

text \<open>
  The pure core of the task list store, \<open>frontend/src/lib/taskStoreCore.js\<close>: normalisation of
  the three shapes of a task, the transition table the client mirrors from the server, the
  mutators of the list and the classification of a failed creation.  Texts (titles, dates) are
  opaque strings.  The locale \<open>status_store\<close> states what the optimistic update of the store
  needs of a list that is read and written by id.
\<close>

subsection \<open>Reading numbers from text\<close>

text \<open>
  \<open>Number(s)\<close> on text: surrounding blanks are dropped, nothing is 0, and a decimal literal with
  optional sign, fraction and exponent is its value.  \<open>None\<close> is \<open>NaN\<close>.  (\<open>Infinity\<close> and the
  \<open>0x\<close>/\<open>0o\<close>/\<open>0b\<close> literals are read as \<open>NaN\<close> here; a day label never holds one.)
\<close>

fun span_digits :: "string \<Rightarrow> nat list \<times> string" where
  "span_digits [] = ([], [])"
| "span_digits (c # cs) =
     (case digit_value c of
        None \<Rightarrow> ([], c # cs)
      | Some d \<Rightarrow> (case span_digits cs of (ds, rest) \<Rightarrow> (d # ds, rest)))"

definition digits_value :: "nat list \<Rightarrow> nat" where
  "digits_value ds = foldl (\<lambda>a d. a * 10 + d) 0 ds"

definition is_blank :: "char \<Rightarrow> bool" where
  "is_blank c \<longleftrightarrow> (of_char c :: nat) \<in> {9, 10, 11, 12, 13, 32}"

definition js_trim :: "string \<Rightarrow> string" where
  "js_trim s = rev (dropWhile is_blank (rev (dropWhile is_blank s)))"

definition read_sign :: "string \<Rightarrow> int \<times> string" where
  "read_sign s = (case s of [] \<Rightarrow> (1, [])
     | c # cs \<Rightarrow> if c = CHR ''-'' then (- 1, cs) else if c = CHR ''+'' then (1, cs) else (1, c # cs))"

definition read_exponent :: "string \<Rightarrow> int option" where
  "read_exponent s =
     (case s of [] \<Rightarrow> Some 0
      | c # cs \<Rightarrow>
          if c \<noteq> CHR ''e'' \<and> c \<noteq> CHR ''E'' then None
          else (case read_sign cs of (sg, ds) \<Rightarrow>
                 case span_digits ds of (es, rest) \<Rightarrow>
                   if es = [] \<or> rest \<noteq> [] then None else Some (sg * int (digits_value es))))"

definition read_decimal :: "string \<Rightarrow> js_num option" where
  "read_decimal s =
     (case span_digits s of (is, r1) \<Rightarrow>
      case (if r1 \<noteq> [] \<and> hd r1 = CHR ''.'' then span_digits (tl r1) else ([], r1)) of (fs, r2) \<Rightarrow>
        if is = [] \<and> fs = [] then None
        else (case read_exponent r2 of
                None \<Rightarrow> None
              | Some e \<Rightarrow>
                  Some (of_nat (digits_value (is @ fs)) * power_int 10 (e - int (length fs)))))"

definition js_Number :: "string \<Rightarrow> js_num option" where
  "js_Number s0 =
     (let s = js_trim s0 in
      if s = [] then Some 0
      else (case read_sign s of (sg, rest) \<Rightarrow> map_option (\<lambda>x. of_int sg * x) (read_decimal rest)))"

lemma span_digits_Nil: "span_digits s = ([], []) \<Longrightarrow> s = []"
  by (cases s) (auto split: option.splits prod.splits)

lemma read_digits_span: "read_digits a s = Some n \<Longrightarrow> \<exists>ds. span_digits s = (ds, []) \<and> n = foldl (\<lambda>a d. a * 10 + d) a ds"
proof (induction s arbitrary: a)
  case (Cons c s)
  then obtain d where d: "digit_value c = Some d" "read_digits (a * 10 + d) s = Some n"
    by (auto split: option.splits)
  from Cons.IH [OF d(2)] d(1) show ?case by auto
qed simp

lemma span_show_nat: "\<exists>ds. span_digits (show_nat n) = (ds, []) \<and> digits_value ds = n \<and> ds \<noteq> []"
proof -
  obtain ds where ds: "span_digits (show_nat n) = (ds, [])" "n = digits_value ds"
    using read_digits_span [OF read_digits_show_nat, of n] by (auto simp: digits_value_def)
  moreover have "ds \<noteq> []"
    using span_digits_Nil [of "show_nat n"] ds(1) by auto
  ultimately show ?thesis by blast
qed

lemma not_blank_digit: "c \<in> set (show_nat n) \<Longrightarrow> \<not> is_blank c \<and> c \<noteq> CHR ''-'' \<and> c \<noteq> CHR ''+''"
  using show_nat_digits [of c n] by (auto simp: digit_value_def is_blank_def split: if_splits)

lemma dropWhile_none: "\<forall>c \<in> set s. \<not> P c \<Longrightarrow> dropWhile P s = s"
  by (cases s) auto

lemma js_trim_id: "\<forall>c \<in> set s. \<not> is_blank c \<Longrightarrow> js_trim s = s"
  by (simp add: js_trim_def dropWhile_none)

lemma js_Number_show_nat [simp]: "js_Number (show_nat n) = Some (of_nat n)"
proof -
  have "js_trim (show_nat n) = show_nat n" by (rule js_trim_id) (simp add: not_blank_digit)
  moreover have "read_sign (show_nat n) = (1, show_nat n)"
    using not_blank_digit [of "hd (show_nat n)" n] by (cases "show_nat n") (auto simp: read_sign_def)
  moreover obtain ds where "span_digits (show_nat n) = (ds, [])" "digits_value ds = n" "ds \<noteq> []"
    using span_show_nat by blast
  ultimately show ?thesis
    by (simp add: js_Number_def read_decimal_def read_exponent_def)
qed

subsection \<open>Transitions of the store\<close>

fun ALLOWED_actions :: "action \<Rightarrow> display_status list" where
  "ALLOWED_actions ACT_START = [D_IDLE]"
| "ALLOWED_actions ACT_PAUSE = [D_ACTIVE]"
| "ALLOWED_actions ACT_RESUME = [D_PAUSED, D_OVERDUE]"
| "ALLOWED_actions ACT_FINISH = [D_ACTIVE, D_PAUSED, D_OVERDUE]"

fun ACTION_RESULT :: "action \<Rightarrow> display_status" where
  "ACTION_RESULT ACT_START = D_ACTIVE"
| "ACTION_RESULT ACT_PAUSE = D_PAUSED"
| "ACTION_RESULT ACT_RESUME = D_ACTIVE"
| "ACTION_RESULT ACT_FINISH = D_COMPLETED"

text \<open>\<open>current\<close> is \<open>null\<close> (here \<open>None\<close>) for a task the store does not hold.\<close>

definition canTransition_action :: "display_status option \<Rightarrow> action \<Rightarrow> bool" where
  "canTransition_action current act = (case current of None \<Rightarrow> False | Some d \<Rightarrow> d \<in> set (ALLOWED_actions act))"

definition optimisticStatusFor :: "display_status option \<Rightarrow> action \<Rightarrow> display_status option" where
  "optimisticStatusFor current act = (if canTransition_action current act then Some (ACTION_RESULT act) else None)"

subsection \<open>Tasks\<close>

text \<open>
  A task as it arrives: the union of the fields of the server's \<open>TaskResponse\<close>, of
  \<open>toViewModel\<close> and of the store's own task; a missing or \<open>null\<close> field is \<open>None\<close>.
\<close>

record raw_task =
  raw_id :: "js_id option"
  raw_taskId :: "js_id option"
  raw_title :: "string option"
  raw_category :: "string option"
  raw_tags :: "string option list option"
  raw_st :: "raw_status option"
  raw_is_priority :: "bool option"
  raw_isPriority :: "bool option"
  raw_estimated_duration :: "js_num option"
  raw_estimatedMinutes :: "js_num option"
  raw_elapsed_time :: "js_num option"
  raw_due_date :: "string option"
  raw_deadline :: "string option"
  raw_overdue_days :: "js_num option"
  raw_dday :: "string option"
  raw_created_at :: "string option"
  raw_createdAt :: "string option"

record store_task =
  st_id :: string
  st_title :: string
  st_category :: string
  st_status :: display_status
  st_is_priority :: bool
  st_estimated_duration :: js_num
  st_elapsed_time :: js_num
  st_due_date :: "string option"
  st_overdue_days :: js_num
  st_created_at :: "string option"

text \<open>\<open>a ?? b\<close>\<close>

definition coalesce :: "'a option \<Rightarrow> 'a option \<Rightarrow> 'a option" where
  "coalesce a b = (case a of None \<Rightarrow> b | Some x \<Rightarrow> Some x)"

definition or_default :: "'a option \<Rightarrow> 'a \<Rightarrow> 'a" where
  "or_default a d = (case a of None \<Rightarrow> d | Some x \<Rightarrow> x)"

definition overdueDaysFromDday :: "string option \<Rightarrow> js_num" where
  "overdueDaysFromDday dday =
     (case dday of None \<Rightarrow> 0
      | Some s \<Rightarrow> if take 2 s = ''D+'' then or_default (js_Number (drop 2 s)) 0 else 0)"

fun raw_display :: "raw_status \<Rightarrow> display_status option" where
  "raw_display S_IDLE = Some D_IDLE"
| "raw_display S_ACTIVE = Some D_ACTIVE"
| "raw_display S_PAUSED = Some D_PAUSED"
| "raw_display S_OVERDUE = Some D_OVERDUE"
| "raw_display S_COMPLETED = Some D_COMPLETED"
| "raw_display _ = None"

definition normalizeStatus :: "raw_task \<Rightarrow> display_status" where
  "normalizeStatus raw =
     (case (case raw_st raw of None \<Rightarrow> None | Some s \<Rightarrow> raw_display s) of
        Some d \<Rightarrow> d
      | None \<Rightarrow> if isOverdue (raw_dday raw) then D_OVERDUE else D_IDLE)"

definition first_tag_label :: "string option list option \<Rightarrow> string option" where
  "first_tag_label tags = (case tags of Some (t # ts) \<Rightarrow> t | _ \<Rightarrow> None)"

definition normalizeTask :: "raw_task \<Rightarrow> store_task" where
  "normalizeTask raw =
     \<lparr>st_id = (case coalesce (raw_id raw) (raw_taskId raw) of None \<Rightarrow> ''undefined'' | Some i \<Rightarrow> prop_key i),
      st_title = or_default (raw_title raw) [],
      st_category = or_default (coalesce (raw_category raw) (first_tag_label (raw_tags raw))) [],
      st_status = normalizeStatus raw,
      st_is_priority = or_default (coalesce (raw_is_priority raw) (raw_isPriority raw)) False,
      st_estimated_duration =
        or_default (raw_estimated_duration raw)
          (case raw_estimatedMinutes raw of None \<Rightarrow> 0 | Some m \<Rightarrow> m * 60),
      st_elapsed_time = or_default (raw_elapsed_time raw) 0,
      st_due_date = coalesce (raw_due_date raw) (raw_deadline raw),
      st_overdue_days = or_default (raw_overdue_days raw) (overdueDaysFromDday (raw_dday raw)),
      st_created_at = coalesce (raw_created_at raw) (raw_createdAt raw)\<rparr>"

text \<open>A list, or anything that is not an array (\<open>None\<close>).\<close>

definition normalizeList :: "raw_task list option \<Rightarrow> store_task list" where
  "normalizeList raws = (case raws of None \<Rightarrow> [] | Some xs \<Rightarrow> map normalizeTask xs)"

subsection \<open>Derived values and mutators\<close>

definition deriveIsEmpty :: "store_task list \<Rightarrow> bool \<Rightarrow> bool" where
  "deriveIsEmpty tasks isLoading \<longleftrightarrow> \<not> isLoading \<and> tasks = []"

definition is_open_priority :: "store_task \<Rightarrow> bool" where
  "is_open_priority t \<longleftrightarrow> st_is_priority t \<and> st_status t \<noteq> D_COMPLETED"

definition deriveHasPriorityTask :: "store_task list \<Rightarrow> bool" where
  "deriveHasPriorityTask tasks \<longleftrightarrow> (\<exists>t \<in> set tasks. is_open_priority t)"

definition derivePriorityTask :: "store_task list \<Rightarrow> store_task option" where
  "derivePriorityTask tasks = List.find is_open_priority tasks"

definition getStatus :: "store_task list \<Rightarrow> js_id \<Rightarrow> display_status option" where
  "getStatus tasks tid = map_option st_status (List.find (\<lambda>x. st_id x = prop_key tid) tasks)"

definition applyOptimisticStatus :: "store_task list \<Rightarrow> js_id \<Rightarrow> display_status \<Rightarrow> store_task list" where
  "applyOptimisticStatus tasks tid newStatus =
     update_where (\<lambda>t. st_id t = prop_key tid) (\<lambda>t. t\<lparr>st_status := newStatus\<rparr>) tasks"

definition applyRollbackStatus :: "store_task list \<Rightarrow> js_id \<Rightarrow> display_status \<Rightarrow> store_task list" where
  "applyRollbackStatus tasks tid previousStatus = applyOptimisticStatus tasks tid previousStatus"

definition upsertTask :: "store_task list \<Rightarrow> store_task \<Rightarrow> store_task list" where
  "upsertTask tasks task =
     (if \<exists>t \<in> set tasks. st_id t = st_id task
      then update_where (\<lambda>t. st_id t = st_id task) (\<lambda>_. task) tasks
      else task # tasks)"

definition removeTask :: "store_task list \<Rightarrow> js_id \<Rightarrow> store_task list" where
  "removeTask tasks tid = filter (\<lambda>t. st_id t \<noteq> prop_key tid) tasks"

subsection \<open>Failed creation\<close>

text \<open>
  An error as the client sees it: its own \<open>code\<close> and \<open>status\<close>, and those of an attached
  response.  An empty code is falsy.
\<close>

record api_error =
  err_code :: "string option"
  err_status :: "int option"
  resp_error :: "string option"
  resp_code :: "string option"
  resp_status :: "int option"

datatype create_result = CREATE_SUCCESS | PRIORITY_EXISTS | INSUFFICIENT_TIME

definition js_or :: "string option \<Rightarrow> string option \<Rightarrow> string option" where
  "js_or a b = (if a = None \<or> a = Some [] then b else a)"

definition classifyCreateError :: "api_error \<Rightarrow> create_result option" where
  "classifyCreateError err =
     (let code = js_or (js_or (err_code err) (resp_error err)) (resp_code err);
          stat = coalesce (err_status err) (resp_status err)
      in if code = Some ''PRIORITY_TASK_EXISTS'' \<or> code = Some ''PRIORITY_EXISTS'' \<or> stat = Some 409
         then Some PRIORITY_EXISTS
         else if code = Some ''INSUFFICIENT_AVAILABLE_TIME'' \<or> code = Some ''INSUFFICIENT_TIME''
              \<or> code = Some ''AVAILABLE_BELOW_ALLOCATED''
         then Some INSUFFICIENT_TIME
         else None)"

subsection \<open>A status read and written by id\<close>

text \<open>
  What an optimistic update needs: reading after writing, writes to one id replace each other, and
  writing back what was read changes nothing.  \<open>good\<close> is the state invariant under which the
  last law holds.
\<close>

locale status_store =
  fixes good :: "'s \<Rightarrow> bool"
    and read :: "'s \<Rightarrow> 'k \<Rightarrow> 'v option"
    and put :: "'s \<Rightarrow> 'k \<Rightarrow> 'v \<Rightarrow> 's"
  assumes read_put: "read (put s k v) k' = (if k' = k \<and> read s k \<noteq> None then Some v else read s k')"
    and put_put: "put (put s k v) k w = put s k w"
    and put_swap: "j \<noteq> k \<Longrightarrow> put (put s j v) k w = put (put s k w) j v"
    and put_read: "good s \<Longrightarrow> read s k = Some v \<Longrightarrow> put s k v = s"
    and good_put: "good s \<Longrightarrow> good (put s k v)"
begin

text \<open>An update that fails is undone by writing back what was read before it.\<close>

lemma undo: "good s \<Longrightarrow> read s k = Some v \<Longrightarrow> put (put s k w) k v = s"
  by (simp add: put_put put_read)

lemma undo_after_others:
  "good s \<Longrightarrow> read s k = Some v \<Longrightarrow> k \<notin> fst ` set ws \<Longrightarrow>
   put (foldl (\<lambda>s (j, x). put s j x) (put s k w) ws) k v = foldl (\<lambda>s (j, x). put s j x) s ws"
proof (induction ws arbitrary: s)
  case Nil
  then show ?case by (simp add: undo)
next
  case (Cons p ws)
  obtain j x where p: "p = (j, x)" by (cases p)
  with Cons.prems have "j \<noteq> k" by auto
  then have "put (put s k w) j x = put (put s j x) k w" by (simp add: put_swap)
  moreover have "good (put s j x)" "read (put s j x) k = Some v"
    using Cons.prems \<open>j \<noteq> k\<close> by (auto simp: good_put read_put)
  ultimately show ?case using Cons p by simp
qed

lemma read_others:
  "k \<notin> fst ` set ws \<Longrightarrow> read (foldl (\<lambda>s (j, x). put s j x) s ws) k = read s k"
proof (induction ws arbitrary: s)
  case (Cons p ws)
  then show ?case by (cases p) (auto simp: read_put)
qed simp

lemma good_all: "good s \<Longrightarrow> good (foldl (\<lambda>s (j, x). put s j x) s ws)"
  by (induction ws arbitrary: s) (auto simp: good_put split: prod.splits)

end

definition ids_distinct :: "store_task list \<Rightarrow> bool" where
  "ids_distinct tasks \<longleftrightarrow> distinct (map st_id tasks)"

text \<open>The store's list, addressed by the string of the id.\<close>

definition read_status :: "store_task list \<Rightarrow> string \<Rightarrow> display_status option" where
  "read_status tasks k = getStatus tasks (Str_id k)"

definition put_status :: "store_task list \<Rightarrow> string \<Rightarrow> display_status \<Rightarrow> store_task list" where
  "put_status tasks k d = applyOptimisticStatus tasks (Str_id k) d"

lemma getStatus_key: "getStatus tasks tid = read_status tasks (prop_key tid)"
  by (simp add: read_status_def getStatus_def)

lemma applyOptimistic_key: "applyOptimisticStatus tasks tid d = put_status tasks (prop_key tid) d"
  by (simp add: put_status_def applyOptimisticStatus_def)

lemma put_status_ids [simp]: "map st_id (put_status tasks k d) = map st_id tasks"
  by (auto simp: put_status_def applyOptimisticStatus_def update_where_def)

lemma read_status_Nil [simp]: "read_status [] k = None"
  by (simp add: read_status_def getStatus_def)

lemma read_status_Cons [simp]:
  "read_status (t # ts) k = (if st_id t = k then Some (st_status t) else read_status ts k)"
  by (simp add: read_status_def getStatus_def)

lemma put_status_Nil [simp]: "put_status [] k d = []"
  by (simp add: put_status_def applyOptimisticStatus_def update_where_def)

lemma put_status_Cons [simp]:
  "put_status (t # ts) k d = (if st_id t = k then t\<lparr>st_status := d\<rparr> else t) # put_status ts k d"
  by (simp add: put_status_def applyOptimisticStatus_def update_where_def)

lemma put_status_absent: "k \<notin> st_id ` set ts \<Longrightarrow> put_status ts k d = ts"
  by (induction ts) auto

lemma read_status_None: "read_status ts k = None \<longleftrightarrow> k \<notin> st_id ` set ts"
  by (induction ts) auto

interpretation tasks_by_id: status_store ids_distinct read_status put_status
proof
  show "read_status (put_status s k v) k' = (if k' = k \<and> read_status s k \<noteq> None then Some v else read_status s k')"
    for s k v k'
    by (induction s) auto
  show "put_status (put_status s k v) k w = put_status s k w" for s k v w
    by (induction s) auto
  show "put_status (put_status s j v) k w = put_status (put_status s k w) j v" if "j \<noteq> k" for s j k v w
    using that by (induction s) auto
  show "put_status s k v = s" if "ids_distinct s" "read_status s k = Some v" for s k v
    using that
  proof (induction s)
    case (Cons t ts)
    then show ?case
      by (cases "st_id t = k") (auto simp: ids_distinct_def put_status_absent)
  qed simp
  show "ids_distinct (put_status s k v)" if "ids_distinct s" for s k v
    using that by (simp add: ids_distinct_def)
qed

lemma ids_distinct_upsert: "ids_distinct ts \<Longrightarrow> ids_distinct (upsertTask ts t)"
proof (cases "\<exists>u \<in> set ts. st_id u = st_id t")
  case True
  assume "ids_distinct ts"
  moreover have "map st_id (update_where (\<lambda>u. st_id u = st_id t) (\<lambda>_. t) ts) = map st_id ts"
    by (rule map_update_where) simp
  ultimately show ?thesis using True by (simp add: upsertTask_def ids_distinct_def)
next
  case False
  assume "ids_distinct ts"
  with False show ?thesis by (auto simp: upsertTask_def ids_distinct_def)
qed

lemma read_status_upsert:
  "read_status (upsertTask ts t) k = (if k = st_id t then Some (st_status t) else read_status ts k)"
proof (cases "\<exists>u \<in> set ts. st_id u = st_id t")
  case True
  have "read_status (update_where (\<lambda>u. st_id u = st_id t) (\<lambda>_. t) us) k
      = (if k = st_id t \<and> (\<exists>u \<in> set us. st_id u = st_id t) then Some (st_status t) else read_status us k)" for us
    by (induction us) (auto simp: update_where_def)
  from this [of ts] True show ?thesis by (auto simp: upsertTask_def)
qed (auto simp: upsertTask_def)

lemma read_status_remove: "read_status (removeTask ts i) k = (if k = prop_key i then None else read_status ts k)"
  by (induction ts) (auto simp: removeTask_def)

fun raw_of_display :: "display_status \<Rightarrow> raw_status" where
  "raw_of_display D_IDLE = S_IDLE"
| "raw_of_display D_ACTIVE = S_ACTIVE"
| "raw_of_display D_PAUSED = S_PAUSED"
| "raw_of_display D_OVERDUE = S_OVERDUE"
| "raw_of_display D_COMPLETED = S_COMPLETED"

text \<open>A task of the store seen as an arriving task, as \<open>syncTasks\<close> may be handed one.\<close>

definition raw_of_store :: "store_task \<Rightarrow> raw_task" where
  "raw_of_store t =
     \<lparr>raw_id = Some (Str_id (st_id t)), raw_taskId = None, raw_title = Some (st_title t),
      raw_category = Some (st_category t), raw_tags = None, raw_st = Some (raw_of_display (st_status t)),
      raw_is_priority = Some (st_is_priority t), raw_isPriority = None,
      raw_estimated_duration = Some (st_estimated_duration t), raw_estimatedMinutes = None,
      raw_elapsed_time = Some (st_elapsed_time t), raw_due_date = st_due_date t, raw_deadline = None,
      raw_overdue_days = Some (st_overdue_days t), raw_dday = None, raw_created_at = st_created_at t,
      raw_createdAt = None\<rparr>"

lemma raw_display_of [simp]: "raw_display (raw_of_display d) = Some d"
  by (cases d) simp_all

lemma normalize_raw_of_store: "normalizeTask (raw_of_store t) = t"
  by (cases t) (simp add: normalizeTask_def raw_of_store_def normalizeStatus_def coalesce_def or_default_def
      split: option.splits)

lemma find_open_priority: "deriveHasPriorityTask ts \<longleftrightarrow> derivePriorityTask ts \<noteq> None"
  by (auto simp: deriveHasPriorityTask_def derivePriorityTask_def find_None_iff)

lemma optimistic_mirror:
  "optimisticStatusFor (Some d) a = (case transition d a of Inl _ \<Rightarrow> None | Inr oc \<Rightarrow> Some (outcome_status oc))"
  by (cases a; cases d)
     (simp_all add: optimisticStatusFor_def canTransition_action_def transition_def outcome_status_def
       server_deriveDisplayStatus_def)

subsection \<open>Properties\<close>

text \<open>
  C10. The store mirrors the server's machine one to one: for every display status and action the
  optimistic status is the display status of the outcome the server computes, and there is none
  exactly when the server refuses the transition; a task the store does not hold changes never.
\<close>

theorem store_mirrors_server_machine:
  "optimisticStatusFor (Some d) a = (case transition d a of Inl _ \<Rightarrow> None | Inr oc \<Rightarrow> Some (outcome_status oc))
   \<and> optimisticStatusFor None a = None"
  by (simp add: optimistic_mirror) (simp add: optimisticStatusFor_def canTransition_action_def)

text \<open>
  Normalisation is idempotent: a task that went through \<open>normalizeTask\<close>, arriving again as a
  task of the store, is left as it is, whatever shape it first had; and the overdue days of a
  label \<open>D+n\<close> are \<open>n\<close>.
\<close>

theorem normalizeTask_idempotent:
  "normalizeTask (raw_of_store (normalizeTask raw)) = normalizeTask raw
   \<and> normalizeList (Some (map raw_of_store (normalizeList raws))) = normalizeList raws
   \<and> overdueDaysFromDday (Some (''D+'' @ show_nat n)) = of_nat n"
  by (simp add: normalize_raw_of_store normalizeList_def overdueDaysFromDday_def or_default_def
      comp_def split: option.splits)

text \<open>
  The priority slot: there is a priority task iff the selector finds one, the one it finds is in
  the list, marked and not completed; and once the task is set to completed while it was the only
  one, the slot is free.
\<close>

theorem priority_slot:
  assumes "derivePriorityTask ts = Some t"
    and "\<forall>u \<in> set ts. is_open_priority u \<longrightarrow> st_id u = st_id t"
  shows "deriveHasPriorityTask ts \<and> t \<in> set ts \<and> is_open_priority t
    \<and> \<not> deriveHasPriorityTask (applyOptimisticStatus ts (Str_id (st_id t)) D_COMPLETED)"
proof -
  have "t \<in> set ts \<and> is_open_priority t"
    using find_key_Some [of is_open_priority ts t] assms(1) by (simp add: derivePriorityTask_def)
  moreover have "\<not> deriveHasPriorityTask (applyOptimisticStatus ts (Str_id (st_id t)) D_COMPLETED)"
    using assms(2)
    by (auto simp: deriveHasPriorityTask_def applyOptimisticStatus_def set_update_where is_open_priority_def)
  ultimately show ?thesis using assms(1) by (simp add: find_open_priority)
qed

definition sample_task :: "string \<Rightarrow> display_status \<Rightarrow> bool \<Rightarrow> store_task" where
  "sample_task i d p =
     \<lparr>st_id = i, st_title = ''t'', st_category = [], st_status = d, st_is_priority = p,
      st_estimated_duration = 600, st_elapsed_time = 0, st_due_date = None, st_overdue_days = 0,
      st_created_at = None\<rparr>"

lemma priority_slot_witness:
  "let ts = [sample_task ''1'' D_ACTIVE False, sample_task ''2'' D_IDLE True] in
   deriveHasPriorityTask ts \<and> \<not> deriveHasPriorityTask (applyOptimisticStatus ts (Str_id ''2'') D_COMPLETED)"
  using priority_slot [of "[sample_task ''1'' D_ACTIVE False, sample_task ''2'' D_IDLE True]" "sample_task ''2'' D_IDLE True"]
  by (simp add: derivePriorityTask_def is_open_priority_def sample_task_def)

end
