(* ===== verification/Task_Context.thy ===== *)
theory Task_Context
  imports Task_Store
begin

text \<open>
  The task list of the page and its optimistic updates: \<open>frontend/src/context/TaskContext.jsx\<close>,
  the Zustand twin \<open>stores/taskStore.js\<close>, and the synchronisation hook \<open>hooks/useTaskSync.js\<close>.

  \<open>updateTaskStatus\<close> waits for the server in its middle.  It is modelled as two steps, the click
  and the reply, over a state that holds the updates in flight, so that replies may come in any
  order with other clicks and list refreshes between them.
\<close>

subsection \<open>The reducer (context/TaskContext.jsx)\<close>

text \<open>The \<open>error\<close> field: the message of the caught error, or the default text of the call.\<close>

datatype ctx_error = Caught string | LoadFailed | CreateFailed | StatusChangeFailed

record task_ctx =
  ctx_tasks :: "store_task list"
  ctx_isLoading :: bool
  ctx_error :: "ctx_error option"

definition ctx_initial :: task_ctx where
  "ctx_initial = \<lparr>ctx_tasks = [], ctx_isLoading = True, ctx_error = None\<rparr>"

datatype ctx_action =
    CTX_LOADING
  | CTX_SET_TASKS "raw_task list option"
  | CTX_ERROR ctx_error
  | CTX_UPSERT store_task
  | CTX_OPTIMISTIC js_id display_status
  | CTX_ROLLBACK js_id display_status
  | CTX_CLEAR_ERROR
  | CTX_UNKNOWN

fun ctx_reducer :: "task_ctx \<Rightarrow> ctx_action \<Rightarrow> task_ctx" where
  "ctx_reducer s CTX_LOADING = s\<lparr>ctx_isLoading := True, ctx_error := None\<rparr>"
| "ctx_reducer s (CTX_SET_TASKS raw) = s\<lparr>ctx_tasks := normalizeList raw, ctx_isLoading := False\<rparr>"
| "ctx_reducer s (CTX_ERROR e) = s\<lparr>ctx_isLoading := False, ctx_error := Some e\<rparr>"
| "ctx_reducer s (CTX_UPSERT t) = s\<lparr>ctx_tasks := upsertTask (ctx_tasks s) t\<rparr>"
| "ctx_reducer s (CTX_OPTIMISTIC i d) = s\<lparr>ctx_tasks := applyOptimisticStatus (ctx_tasks s) i d\<rparr>"
| "ctx_reducer s (CTX_ROLLBACK i d) = s\<lparr>ctx_tasks := applyRollbackStatus (ctx_tasks s) i d\<rparr>"
| "ctx_reducer s CTX_CLEAR_ERROR = s\<lparr>ctx_error := None\<rparr>"
| "ctx_reducer s CTX_UNKNOWN = s"

text \<open>\<open>e?.message || d\<close>\<close>

definition caught :: "string option \<Rightarrow> ctx_error \<Rightarrow> ctx_error" where
  "caught m d = (case m of None \<Rightarrow> d | Some s \<Rightarrow> if s = [] then d else Caught s)"

text \<open>\<open>fetchTasks\<close>: the reply of the server is a list or an error.\<close>

definition fetch_begin :: "task_ctx \<Rightarrow> task_ctx" where
  "fetch_begin s = ctx_reducer s CTX_LOADING"

definition fetch_settle :: "task_ctx \<Rightarrow> string option + raw_task list option \<Rightarrow> task_ctx" where
  "fetch_settle s reply =
     (case reply of
        Inr raw \<Rightarrow> ctx_reducer s (CTX_SET_TASKS raw)
      | Inl m \<Rightarrow> ctx_reducer s (CTX_ERROR (caught m LoadFailed)))"

datatype sync_message = TASK_STATUS_CHANGED | TASK_CREATED | TASK_DELETED | OTHER_MESSAGE

record change_event =
  ev_type :: sync_message
  ev_taskId :: string

text \<open>
  \<open>createTask\<close> after the server's reply: the new state, the events for the subscribers, and the
  result, or the error that is thrown on.
\<close>

definition createTask_settle ::
  "task_ctx \<Rightarrow> (api_error \<times> string option) + raw_task
   \<Rightarrow> task_ctx \<times> change_event list \<times> (api_error + create_result)" where
  "createTask_settle s reply =
     (case reply of
        Inr created \<Rightarrow>
          (ctx_reducer s (CTX_UPSERT (normalizeTask created)),
           [\<lparr>ev_type = TASK_CREATED, ev_taskId = st_id (normalizeTask created)\<rparr>], Inr CREATE_SUCCESS)
      | Inl (e, m) \<Rightarrow>
          (case classifyCreateError e of
             Some r \<Rightarrow> (s, [], Inr r)
           | None \<Rightarrow> (ctx_reducer s (CTX_ERROR (caught m CreateFailed)), [], Inl e)))"

text \<open>
  \<open>updateTaskStatus\<close>, before the \<open>await\<close>: \<open>ref\<close> is the list of the last render.  \<open>None\<close> means the
  transition is not allowed and the call returns at once.
\<close>

record pending_update =
  pu_taskId :: js_id
  pu_prev :: display_status
  pu_optimistic :: display_status

definition update_begin ::
  "store_task list \<Rightarrow> task_ctx \<Rightarrow> js_id \<Rightarrow> action \<Rightarrow> task_ctx \<times> pending_update option" where
  "update_begin ref s tid act =
     (let prev = getStatus ref tid in
      case prev of
        None \<Rightarrow> (s, None)
      | Some p \<Rightarrow>
          (case optimisticStatusFor prev act of
             None \<Rightarrow> (s, None)
           | Some opt \<Rightarrow>
               (ctx_reducer s (CTX_OPTIMISTIC tid opt),
                Some \<lparr>pu_taskId = tid, pu_prev = p, pu_optimistic = opt\<rparr>)))"

text \<open>After the \<open>await\<close>: the server's status string if it answers, or a rejection.\<close>

datatype update_reply = Rejected | Accepted "raw_status option"

definition update_settle ::
  "task_ctx \<Rightarrow> pending_update \<Rightarrow> update_reply \<Rightarrow> task_ctx \<times> change_event list \<times> display_status" where
  "update_settle s p reply =
     (case reply of
        Accepted st \<Rightarrow>
          (let next = (case (case st of None \<Rightarrow> None | Some r \<Rightarrow> raw_display r) of
                         Some d \<Rightarrow> d | None \<Rightarrow> pu_optimistic p)
           in (ctx_reducer s (CTX_OPTIMISTIC (pu_taskId p) next),
               [\<lparr>ev_type = TASK_STATUS_CHANGED, ev_taskId = prop_key (pu_taskId p)\<rparr>], next))
      | Rejected \<Rightarrow>
          (ctx_reducer (ctx_reducer s (CTX_ROLLBACK (pu_taskId p) (pu_prev p))) (CTX_ERROR StatusChangeFailed),
           [], pu_prev p))"

record ctx_view =
  cv_tasks :: "store_task list"
  cv_isEmpty :: bool
  cv_hasPriorityTask :: bool
  cv_priorityTask :: "store_task option"

definition ctx_value :: "task_ctx \<Rightarrow> ctx_view" where
  "ctx_value s =
     \<lparr>cv_tasks = ctx_tasks s,
      cv_isEmpty = deriveIsEmpty (ctx_tasks s) (ctx_isLoading s),
      cv_hasPriorityTask = deriveHasPriorityTask (ctx_tasks s),
      cv_priorityTask = derivePriorityTask (ctx_tasks s)\<rparr>"

subsection \<open>Updates in flight\<close>

text \<open>
  The page as a transition system.  A click starts an update from the list on the screen; a reply
  settles the \<open>n\<close>-th update in flight; the list may be replaced at any time.
\<close>

record page_state =
  page_ctx :: task_ctx
  page_inflight :: "pending_update list"

datatype page_event =
    Click js_id action
  | Reply nat update_reply
  | Refresh "raw_task list option"
  | Fetch
  | FetchFailed "string option"
  | Created raw_task

fun page_step :: "page_state \<Rightarrow> page_event \<Rightarrow> page_state" where
  "page_step s (Click tid act) =
     (case update_begin (ctx_tasks (page_ctx s)) (page_ctx s) tid act of
        (c, None) \<Rightarrow> s\<lparr>page_ctx := c\<rparr>
      | (c, Some p) \<Rightarrow> \<lparr>page_ctx = c, page_inflight = page_inflight s @ [p]\<rparr>)"
| "page_step s (Reply n r) =
     (if n < length (page_inflight s)
      then \<lparr>page_ctx = fst (update_settle (page_ctx s) (page_inflight s ! n) r),
            page_inflight = drop_nth n (page_inflight s)\<rparr>
      else s)"
| "page_step s (Refresh raw) = s\<lparr>page_ctx := fetch_settle (page_ctx s) (Inr raw)\<rparr>"
| "page_step s Fetch = s\<lparr>page_ctx := fetch_begin (page_ctx s)\<rparr>"
| "page_step s (FetchFailed m) = s\<lparr>page_ctx := fetch_settle (page_ctx s) (Inl m)\<rparr>"
| "page_step s (Created raw) = s\<lparr>page_ctx := fst (createTask_settle (page_ctx s) (Inr raw))\<rparr>"

definition page_run :: "page_state \<Rightarrow> page_event list \<Rightarrow> page_state" where
  "page_run s es = foldl page_step s es"

definition page_initial :: page_state where
  "page_initial = \<lparr>page_ctx = ctx_initial, page_inflight = []\<rparr>"

text \<open>Every update in flight was a transition of the table.\<close>

definition pending_ok :: "pending_update \<Rightarrow> bool" where
  "pending_ok p \<longleftrightarrow> (\<exists>a. optimisticStatusFor (Some (pu_prev p)) a = Some (pu_optimistic p))"

lemma update_begin_ok: "update_begin ref s tid act = (c, Some p) \<Longrightarrow> pending_ok p"
  by (auto simp: update_begin_def pending_ok_def Let_def split: option.splits)

lemma ctx_tasks_reducer [simp]:
  "ctx_tasks (ctx_reducer s (CTX_OPTIMISTIC i d)) = put_status (ctx_tasks s) (prop_key i) d"
  "ctx_tasks (ctx_reducer s (CTX_ROLLBACK i d)) = put_status (ctx_tasks s) (prop_key i) d"
  "ctx_tasks (ctx_reducer s (CTX_ERROR e)) = ctx_tasks s"
  "ctx_tasks (ctx_reducer s CTX_LOADING) = ctx_tasks s"
  by (simp_all add: applyOptimistic_key applyRollbackStatus_def)

text \<open>The status an update leaves behind when it is settled.\<close>

definition settled_status :: "pending_update \<Rightarrow> update_reply \<Rightarrow> display_status" where
  "settled_status p r =
     (case r of Rejected \<Rightarrow> pu_prev p
      | Accepted st \<Rightarrow> (case (case st of None \<Rightarrow> None | Some x \<Rightarrow> raw_display x) of
                          Some d \<Rightarrow> d | None \<Rightarrow> pu_optimistic p))"

lemma ctx_tasks_settle:
  "ctx_tasks (fst (update_settle s p r)) = put_status (ctx_tasks s) (prop_key (pu_taskId p)) (settled_status p r)"
  by (cases r) (auto simp: update_settle_def settled_status_def Let_def simp del: ctx_reducer.simps)

lemma update_begin_tasks:
  assumes "update_begin ref s tid act = (c, Some p)"
  shows "ctx_tasks c = put_status (ctx_tasks s) (prop_key tid) (pu_optimistic p)"
    and "getStatus ref tid = Some (pu_prev p)" and "pu_taskId p = tid"
  using assms by (auto simp: update_begin_def Let_def simp del: ctx_reducer.simps split: option.splits)

text \<open>Ids stay distinct as long as the lists the server sends have distinct ids.\<close>

fun refresh_ok :: "page_event \<Rightarrow> bool" where
  "refresh_ok (Refresh raw) \<longleftrightarrow> ids_distinct (normalizeList raw)"
| "refresh_ok _ \<longleftrightarrow> True"

definition page_inv :: "page_state \<Rightarrow> bool" where
  "page_inv s \<longleftrightarrow> ids_distinct (ctx_tasks (page_ctx s)) \<and> (\<forall>p \<in> set (page_inflight s). pending_ok p)"

lemma update_begin_None: "update_begin ref s tid act = (c, None) \<Longrightarrow> c = s"
  by (auto simp: update_begin_def Let_def split: option.splits)

lemma page_inv_click: "page_inv s \<Longrightarrow> page_inv (page_step s (Click tid act))"
proof -
  assume inv: "page_inv s"
  obtain c po where b: "update_begin (ctx_tasks (page_ctx s)) (page_ctx s) tid act = (c, po)"
    by (cases "update_begin (ctx_tasks (page_ctx s)) (page_ctx s) tid act")
  show ?thesis
  proof (cases po)
    case None
    with b inv update_begin_None [of "ctx_tasks (page_ctx s)" "page_ctx s" tid act c] show ?thesis
      by (simp add: page_inv_def)
  next
    case (Some p)
    with b inv update_begin_tasks(1) [of _ "page_ctx s" tid act c p] update_begin_ok [of _ "page_ctx s" tid act c p]
    show ?thesis by (simp add: page_inv_def tasks_by_id.good_put)
  qed
qed

lemma page_inv_reply: "page_inv s \<Longrightarrow> page_inv (page_step s (Reply n r))"
  using set_drop_nth [of n "page_inflight s"]
  by (auto simp: page_inv_def ctx_tasks_settle tasks_by_id.good_put)

lemma page_inv_step [inv_intro]: "page_inv s \<Longrightarrow> refresh_ok e \<Longrightarrow> page_inv (page_step s e)"
proof (cases e)
  case (Click tid act)
  assume "page_inv s"
  then show ?thesis unfolding Click by (rule page_inv_click)
next
  case (Reply n r)
  assume "page_inv s"
  then show ?thesis unfolding Reply by (rule page_inv_reply)
qed (simp_all add: page_inv_def createTask_settle_def ids_distinct_upsert fetch_settle_def fetch_begin_def)

lemma page_inv_run: "page_inv s \<Longrightarrow> \<forall>e \<in> set es. refresh_ok e \<Longrightarrow> page_inv (page_run s es)"
  unfolding page_run_def by (induction es arbitrary: s) (auto intro: inv_intro)

lemma page_inv_initial [simp]: "page_inv page_initial"
  by (simp add: page_inv_def page_initial_def ctx_initial_def ids_distinct_def)

subsection \<open>The Zustand twin (stores/taskStore.js)\<close>

text \<open>
  The twin keeps the same fields.  It has no subscribers, reads \<open>get().tasks\<close> at the call, and
  its \<open>set({ error })\<close> leaves \<open>isLoading\<close> alone where the context's \<open>ERROR\<close> clears it.
\<close>

definition zs_getTask :: "task_ctx \<Rightarrow> js_id \<Rightarrow> store_task option" where
  "zs_getTask s tid = List.find (\<lambda>t. st_id t = prop_key tid) (ctx_tasks s)"

definition zs_fetch_begin :: "task_ctx \<Rightarrow> task_ctx" where
  "zs_fetch_begin s = s\<lparr>ctx_isLoading := True, ctx_error := None\<rparr>"

definition zs_fetch_settle :: "task_ctx \<Rightarrow> string option + raw_task list option \<Rightarrow> task_ctx" where
  "zs_fetch_settle s reply =
     (case reply of
        Inr raw \<Rightarrow> s\<lparr>ctx_tasks := normalizeList raw, ctx_isLoading := False\<rparr>
      | Inl m \<Rightarrow> s\<lparr>ctx_isLoading := False, ctx_error := Some (caught m LoadFailed)\<rparr>)"

definition zs_createTask_settle ::
  "task_ctx \<Rightarrow> (api_error \<times> string option) + raw_task \<Rightarrow> task_ctx \<times> (api_error + create_result)" where
  "zs_createTask_settle s reply =
     (case reply of
        Inr created \<Rightarrow> (s\<lparr>ctx_tasks := upsertTask (ctx_tasks s) (normalizeTask created)\<rparr>, Inr CREATE_SUCCESS)
      | Inl (e, m) \<Rightarrow>
          (case classifyCreateError e of
             Some r \<Rightarrow> (s, Inr r)
           | None \<Rightarrow> (s\<lparr>ctx_error := Some (caught m CreateFailed)\<rparr>, Inl e)))"

definition zs_update_begin :: "task_ctx \<Rightarrow> js_id \<Rightarrow> action \<Rightarrow> task_ctx \<times> pending_update option" where
  "zs_update_begin s tid act =
     (let prev = getStatus (ctx_tasks s) tid in
      case prev of
        None \<Rightarrow> (s, None)
      | Some p \<Rightarrow>
          (case optimisticStatusFor prev act of
             None \<Rightarrow> (s, None)
           | Some opt \<Rightarrow>
               (s\<lparr>ctx_tasks := applyOptimisticStatus (ctx_tasks s) tid opt\<rparr>,
                Some \<lparr>pu_taskId = tid, pu_prev = p, pu_optimistic = opt\<rparr>)))"

definition zs_update_settle :: "task_ctx \<Rightarrow> pending_update \<Rightarrow> update_reply \<Rightarrow> task_ctx \<times> display_status" where
  "zs_update_settle s p reply =
     (case reply of
        Accepted st \<Rightarrow>
          (let next = (case (case st of None \<Rightarrow> None | Some r \<Rightarrow> raw_display r) of
                         Some d \<Rightarrow> d | None \<Rightarrow> pu_optimistic p)
           in (s\<lparr>ctx_tasks := applyOptimisticStatus (ctx_tasks s) (pu_taskId p) next\<rparr>, next))
      | Rejected \<Rightarrow>
          (s\<lparr>ctx_tasks := applyRollbackStatus (ctx_tasks s) (pu_taskId p) (pu_prev p),
             ctx_error := Some StatusChangeFailed\<rparr>, pu_prev p))"

text \<open>The same events on the twin.\<close>

fun zs_step :: "page_state \<Rightarrow> page_event \<Rightarrow> page_state" where
  "zs_step s (Click tid act) =
     (case zs_update_begin (page_ctx s) tid act of
        (c, None) \<Rightarrow> s\<lparr>page_ctx := c\<rparr>
      | (c, Some p) \<Rightarrow> \<lparr>page_ctx = c, page_inflight = page_inflight s @ [p]\<rparr>)"
| "zs_step s (Reply n r) =
     (if n < length (page_inflight s)
      then \<lparr>page_ctx = fst (zs_update_settle (page_ctx s) (page_inflight s ! n) r),
            page_inflight = drop_nth n (page_inflight s)\<rparr>
      else s)"
| "zs_step s (Refresh raw) = s\<lparr>page_ctx := zs_fetch_settle (page_ctx s) (Inr raw)\<rparr>"
| "zs_step s Fetch = s\<lparr>page_ctx := zs_fetch_begin (page_ctx s)\<rparr>"
| "zs_step s (FetchFailed m) = s\<lparr>page_ctx := zs_fetch_settle (page_ctx s) (Inl m)\<rparr>"
| "zs_step s (Created raw) = s\<lparr>page_ctx := fst (zs_createTask_settle (page_ctx s) (Inr raw))\<rparr>"

text \<open>Equal but for the loading flag, which the twin may keep raised.\<close>

definition twin :: "page_state \<Rightarrow> page_state \<Rightarrow> bool" where
  "twin s z \<longleftrightarrow> ctx_tasks (page_ctx s) = ctx_tasks (page_ctx z) \<and> ctx_error (page_ctx s) = ctx_error (page_ctx z)
     \<and> page_inflight s = page_inflight z \<and> (ctx_isLoading (page_ctx s) \<longrightarrow> ctx_isLoading (page_ctx z))"

lemma twin_settle:
  assumes "ctx_tasks s = ctx_tasks z" "ctx_error s = ctx_error z" "ctx_isLoading s \<longrightarrow> ctx_isLoading z"
  shows "ctx_tasks (fst (update_settle s p r)) = ctx_tasks (fst (zs_update_settle z p r))"
    and "ctx_error (fst (update_settle s p r)) = ctx_error (fst (zs_update_settle z p r))"
    and "ctx_isLoading (fst (update_settle s p r)) \<longrightarrow> ctx_isLoading (fst (zs_update_settle z p r))"
  using assms by (cases r; simp add: update_settle_def zs_update_settle_def Let_def
      applyOptimistic_key applyRollbackStatus_def)+

lemma twin_begin:
  assumes "ctx_tasks s = ctx_tasks z" "ctx_error s = ctx_error z" "ctx_isLoading s \<longrightarrow> ctx_isLoading z"
  shows "snd (update_begin (ctx_tasks s) s tid act) = snd (zs_update_begin z tid act)"
    and "ctx_tasks (fst (update_begin (ctx_tasks s) s tid act)) = ctx_tasks (fst (zs_update_begin z tid act))"
    and "ctx_error (fst (update_begin (ctx_tasks s) s tid act)) = ctx_error (fst (zs_update_begin z tid act))"
    and "ctx_isLoading (fst (update_begin (ctx_tasks s) s tid act)) \<longrightarrow> ctx_isLoading (fst (zs_update_begin z tid act))"
  using assms by (simp_all add: update_begin_def zs_update_begin_def Let_def split: option.splits)

lemma twin_step: "twin s z \<Longrightarrow> twin (page_step s e) (zs_step z e)"
proof (cases e)
  case (Click tid act)
  assume "twin s z"
  with Click twin_begin [of "page_ctx s" "page_ctx z" tid act] show ?thesis
    by (cases "update_begin (ctx_tasks (page_ctx s)) (page_ctx s) tid act";
        cases "zs_update_begin (page_ctx z) tid act")
       (auto simp: twin_def split: option.splits)
next
  case (Reply n r)
  assume "twin s z"
  with Reply twin_settle [of "page_ctx s" "page_ctx z" "page_inflight s ! n" r] show ?thesis
    by (simp add: twin_def)
qed (simp_all add: twin_def fetch_settle_def zs_fetch_settle_def fetch_begin_def zs_fetch_begin_def
    createTask_settle_def zs_createTask_settle_def)

lemma twin_run: "twin s z \<Longrightarrow> twin (page_run s es) (foldl zs_step z es)"
  unfolding page_run_def by (induction es arbitrary: s z) (auto intro: twin_step)

subsection \<open>Synchronisation (hooks/useTaskSync.js)\<close>

datatype sync_event = SyncMount | SyncInterval | SyncVisibility | SyncMessage sync_message

text \<open>Whether an event makes the hook fetch the list again.\<close>

fun useTaskSync :: "bool \<Rightarrow> bool \<Rightarrow> sync_event \<Rightarrow> bool" where
  "useTaskSync enabled visible SyncMount \<longleftrightarrow> enabled"
| "useTaskSync enabled visible SyncInterval \<longleftrightarrow> enabled \<and> visible"
| "useTaskSync enabled visible SyncVisibility \<longleftrightarrow> enabled \<and> visible"
| "useTaskSync enabled visible (SyncMessage ty) \<longleftrightarrow>
     enabled \<and> (ty = TASK_STATUS_CHANGED \<or> ty = TASK_CREATED \<or> ty = TASK_DELETED)"

text \<open>
  The tabs of one user.  A tab's change events go over the broadcast channel to every other tab,
  and each that listens loads \<open>server\<close>, the list the server then returns.
\<close>

definition deliver_event ::
  "raw_task list option \<Rightarrow> nat \<Rightarrow> change_event \<Rightarrow> task_ctx list \<Rightarrow> task_ctx list" where
  "deliver_event server sender ev tabs =
     map (\<lambda>(j, c). if j \<noteq> sender \<and> useTaskSync True False (SyncMessage (ev_type ev))
                   then fetch_settle (fetch_begin c) (Inr server) else c)
       (enumerate 0 tabs)"

definition tab_settle ::
  "raw_task list option \<Rightarrow> nat \<Rightarrow> pending_update \<Rightarrow> update_reply \<Rightarrow> task_ctx list \<Rightarrow> task_ctx list" where
  "tab_settle server i p r tabs =
     (case update_settle (tabs ! i) p r of
        (c, evs, _) \<Rightarrow> foldl (\<lambda>ts ev. deliver_event server i ev ts) (tabs[i := c]) evs)"

lemma length_deliver [simp]: "length (deliver_event server i ev tabs) = length tabs"
  by (simp add: deliver_event_def)

lemma nth_deliver:
  "j < length tabs \<Longrightarrow> deliver_event server i ev tabs ! j =
     (if j \<noteq> i \<and> useTaskSync True False (SyncMessage (ev_type ev))
      then fetch_settle (fetch_begin (tabs ! j)) (Inr server) else tabs ! j)"
  by (simp add: deliver_event_def nth_enumerate_eq)

subsection \<open>Properties\<close>


definition one_task_ctx :: task_ctx where
  "one_task_ctx = \<lparr>ctx_tasks = [sample_task ''1'' D_IDLE False, sample_task ''2'' D_ACTIVE False],
                   ctx_isLoading = False, ctx_error = None\<rparr>"


text \<open>
  Replies may arrive in any order: settling two updates of different tasks, each accepted or
  rejected, gives the same list whichever reply comes first.
\<close>

theorem replies_commute:
  assumes "prop_key (pu_taskId p) \<noteq> prop_key (pu_taskId q)"
  shows "ctx_tasks (fst (update_settle (fst (update_settle s p r)) q r'))
    = ctx_tasks (fst (update_settle (fst (update_settle s q r')) p r))"
  using tasks_by_id.put_swap [OF assms] by (simp add: ctx_tasks_settle)

lemma replies_commute_witness:
  "let p = \<lparr>pu_taskId = Str_id ''1'', pu_prev = D_IDLE, pu_optimistic = D_ACTIVE\<rparr>;
       q = \<lparr>pu_taskId = Str_id ''2'', pu_prev = D_ACTIVE, pu_optimistic = D_PAUSED\<rparr>
   in ctx_tasks (fst (update_settle (fst (update_settle one_task_ctx p Rejected)) q (Accepted None)))
      = ctx_tasks (fst (update_settle (fst (update_settle one_task_ctx q (Accepted None))) p Rejected))"
  unfolding Let_def by (rule replies_commute) simp

text \<open>
  Updates of one task do not commute: the reply that comes last wins, with the status it had
  recorded.  A task started and then finished, whose finish the server accepted, is shown idle
  again, with its start button, when the older start is rejected late.
\<close>

theorem late_rollback_resurrects:
  assumes "getStatus (ctx_tasks c) tid = Some D_IDLE"
  shows "let s = page_run \<lparr>page_ctx = c, page_inflight = []\<rparr>
                   [Click tid ACT_START, Click tid ACT_FINISH, Reply 1 (Accepted (Some S_COMPLETED)), Reply 0 Rejected]
         in getStatus (ctx_tasks (page_ctx s)) tid = Some D_IDLE \<and> page_inflight s = []"
proof -
  let ?k = "prop_key tid"
  have r: "read_status (ctx_tasks c) ?k = Some D_IDLE" using assms by (simp add: getStatus_key)
  have r': "read_status (put_status (ctx_tasks c) ?k d) ?k = Some d" for d
    using r by (simp add: tasks_by_id.read_put)
  let ?p = "\<lparr>pu_taskId = tid, pu_prev = D_IDLE, pu_optimistic = D_ACTIVE\<rparr>"
  let ?q = "\<lparr>pu_taskId = tid, pu_prev = D_ACTIVE, pu_optimistic = D_COMPLETED\<rparr>"
  let ?c1 = "ctx_reducer c (CTX_OPTIMISTIC tid D_ACTIVE)"
  let ?c2 = "ctx_reducer ?c1 (CTX_OPTIMISTIC tid D_COMPLETED)"
  have 1: "update_begin (ctx_tasks c) c tid ACT_START = (?c1, Some ?p)"
    by (simp add: update_begin_def getStatus_key r optimisticStatusFor_def canTransition_action_def
        del: ctx_reducer.simps)
  have 2: "update_begin (put_status (ctx_tasks c) ?k D_ACTIVE) ?c1 tid ACT_FINISH = (?c2, Some ?q)"
    by (simp add: update_begin_def getStatus_key r' optimisticStatusFor_def canTransition_action_def
        del: ctx_reducer.simps)
  have "page_run \<lparr>page_ctx = c, page_inflight = []\<rparr>
      [Click tid ACT_START, Click tid ACT_FINISH, Reply 1 (Accepted (Some S_COMPLETED)), Reply 0 Rejected]
    = \<lparr>page_ctx = fst (update_settle (fst (update_settle ?c2 ?q (Accepted (Some S_COMPLETED)))) ?p Rejected),
       page_inflight = []\<rparr>"
    unfolding page_run_def by (simp add: 1 2 drop_nth_def del: ctx_reducer.simps)
  then show ?thesis
    by (simp add: Let_def ctx_tasks_settle getStatus_key tasks_by_id.put_put settled_status_def r'
        del: ctx_reducer.simps)
qed

lemma late_rollback_resurrects_witness:
  "getStatus (ctx_tasks (page_ctx (page_run \<lparr>page_ctx = one_task_ctx, page_inflight = []\<rparr>
     [Click (Str_id ''1'') ACT_START, Click (Str_id ''1'') ACT_FINISH,
      Reply 1 (Accepted (Some S_COMPLETED)), Reply 0 Rejected]))) (Str_id ''1'') = Some D_IDLE"
  using late_rollback_resurrects [of one_task_ctx "Str_id ''1''"]
  by (simp add: Let_def getStatus_key one_task_ctx_def sample_task_def del: page_step.simps)

text \<open>
  Invariant of the page: whatever clicks, replies and refreshes happen, in any order, no id
  appears twice in the list (given that the server's lists have distinct ids), and every update in
  flight is a transition that the server's machine allows from the status it was clicked on.
\<close>

theorem page_invariant:
  assumes "\<forall>e \<in> set es. refresh_ok e"
  shows "let s = page_run page_initial es in
     ids_distinct (ctx_tasks (page_ctx s))
     \<and> (\<forall>p \<in> set (page_inflight s). \<exists>a oc. transition (pu_prev p) a = Inr oc \<and> outcome_status oc = pu_optimistic p)"
proof -
  have inv: "page_inv (page_run page_initial es)" using assms by (simp add: page_inv_run)
  have "\<exists>a oc. transition d a = Inr oc \<and> outcome_status oc = d'" if "optimisticStatusFor (Some d) a = Some d'" for d d' a
    using that by (auto simp: optimistic_mirror split: sum.splits)
  with inv show ?thesis
    by (auto simp: page_inv_def pending_ok_def Let_def)
qed

definition raw_sample :: "string \<Rightarrow> raw_task" where
  "raw_sample i = raw_of_store (sample_task i D_IDLE False)"

lemma page_invariant_witness:
  "ids_distinct (ctx_tasks (page_ctx (page_run page_initial
     [Fetch, Refresh (Some [raw_sample ''1'', raw_sample ''2'']), Click (Str_id ''2'') ACT_START])))"
  using page_invariant [of "[Fetch, Refresh (Some [raw_sample ''1'', raw_sample ''2'']), Click (Str_id ''2'') ACT_START]"]
  by (simp add: Let_def normalizeList_def raw_sample_def normalize_raw_of_store ids_distinct_def sample_task_def
      del: page_step.simps)


text \<open>
  No flash of the empty state while loading: before a fetch has settled or an update failed,
  \<open>isEmpty\<close> is false; but a first fetch that fails shows the empty state, error and all.
\<close>

theorem empty_state_only_after_settling:
  assumes "\<forall>e \<in> set es. case e of Refresh _ \<Rightarrow> False | FetchFailed _ \<Rightarrow> False | Reply _ Rejected \<Rightarrow> False | _ \<Rightarrow> True"
  shows "\<not> cv_isEmpty (ctx_value (page_ctx (page_run page_initial es)))
    \<and> cv_isEmpty (ctx_value (page_ctx (page_run page_initial [Fetch, FetchFailed m])))"
proof
  have step: "ctx_isLoading (page_ctx s) \<Longrightarrow>
      (case e of Refresh _ \<Rightarrow> False | FetchFailed _ \<Rightarrow> False | Reply _ Rejected \<Rightarrow> False | _ \<Rightarrow> True) \<Longrightarrow>
      ctx_isLoading (page_ctx (page_step s e))" for s e
    by (cases e)
       (auto simp: update_begin_def update_settle_def createTask_settle_def fetch_begin_def Let_def
         split: option.splits update_reply.splits)
  have "ctx_isLoading (page_ctx s) \<Longrightarrow> ctx_isLoading (page_ctx (page_run s es))" for s
    using assms unfolding page_run_def by (induction es arbitrary: s) (auto simp: step)
  from this [of page_initial]
  show "\<not> cv_isEmpty (ctx_value (page_ctx (page_run page_initial es)))"
    by (simp add: ctx_value_def deriveIsEmpty_def page_initial_def ctx_initial_def)
  show "cv_isEmpty (ctx_value (page_ctx (page_run page_initial [Fetch, FetchFailed m])))"
    by (simp add: page_run_def page_initial_def ctx_initial_def ctx_value_def deriveIsEmpty_def
        fetch_begin_def fetch_settle_def)
qed

lemma empty_state_only_after_settling_witness:
  "\<not> cv_isEmpty (ctx_value (page_ctx (page_run page_initial [Fetch, Click (Num_id 1) ACT_START])))"
  using empty_state_only_after_settling [of "[Fetch, Click (Num_id 1) ACT_START]" None] by simp

text \<open>
  Other tabs follow: when the server accepts an update in one tab, every other tab of the user
  ends with exactly the server's list, and a rejected update disturbs no other tab.
\<close>

theorem tabs_follow:
  assumes "j < length tabs" "j \<noteq> i" "i < length tabs"
  shows "ctx_tasks (tab_settle server i p (Accepted st) tabs ! j) = normalizeList server
    \<and> \<not> ctx_isLoading (tab_settle server i p (Accepted st) tabs ! j)
    \<and> tab_settle server i p Rejected tabs ! j = tabs ! j"
  using assms
  by (simp add: tab_settle_def update_settle_def nth_deliver fetch_settle_def fetch_begin_def Let_def)

lemma tabs_follow_witness:
  "ctx_tasks (tab_settle (Some [raw_sample ''7'']) 0
      \<lparr>pu_taskId = Str_id ''1'', pu_prev = D_IDLE, pu_optimistic = D_ACTIVE\<rparr> (Accepted None)
      [one_task_ctx, one_task_ctx] ! 1) = [sample_task ''7'' D_IDLE False]"
  using tabs_follow [of 1 "[one_task_ctx, one_task_ctx]" 0 "Some [raw_sample ''7'']"
      "\<lparr>pu_taskId = Str_id ''1'', pu_prev = D_IDLE, pu_optimistic = D_ACTIVE\<rparr>" None]
  by (simp add: normalizeList_def raw_sample_def normalize_raw_of_store)

end
