(* ===== verification/Js_Values.thy ===== *)
theory Js_Values
  imports Prelude
begin

text \<open>
  Values of JavaScript that the API layer can really meet besides finite numbers and ASCII: the
  number \<open>NaN\<close>, invalid dates, and Korean text.
\<close>

subsection \<open>Text\<close>

text \<open>
  Text with Korean letters is the list of its UTF-16 code units, as the string methods of the
  language see it.  \<open>ascii\<close> embeds an ASCII literal.
\<close>

type_synonym ustring = "nat list"

definition ascii :: "string \<Rightarrow> ustring" where
  "ascii s = map of_char s"

subsection \<open>Numbers with NaN\<close>

datatype js_value_num = JNaN | JNum js_num

fun jn_add :: "js_value_num \<Rightarrow> js_value_num \<Rightarrow> js_value_num" where
  "jn_add (JNum a) (JNum b) = JNum (a + b)"
| "jn_add _ _ = JNaN"

fun jn_sub :: "js_value_num \<Rightarrow> js_value_num \<Rightarrow> js_value_num" where
  "jn_sub (JNum a) (JNum b) = JNum (a - b)"
| "jn_sub _ _ = JNaN"

fun jn_mult :: "js_value_num \<Rightarrow> js_value_num \<Rightarrow> js_value_num" where
  "jn_mult (JNum a) (JNum b) = JNum (a * b)"
| "jn_mult _ _ = JNaN"

text \<open>Every comparison with \<open>NaN\<close> is false; \<open>Math.max\<close> and \<open>Math.round\<close> pass it on.\<close>

fun jn_less :: "js_value_num \<Rightarrow> js_value_num \<Rightarrow> bool" where
  "jn_less (JNum a) (JNum b) \<longleftrightarrow> a < b"
| "jn_less _ _ \<longleftrightarrow> False"

fun jn_max :: "js_value_num \<Rightarrow> js_value_num \<Rightarrow> js_value_num" where
  "jn_max (JNum a) (JNum b) = JNum (max a b)"
| "jn_max _ _ = JNaN"

fun jn_round :: "js_value_num \<Rightarrow> js_value_num" where
  "jn_round (JNum a) = JNum (of_int (js_round a))"
| "jn_round JNaN = JNaN"

text \<open>\<open>Number(v)\<close> of a missing value is \<open>NaN\<close>.\<close>

definition jn_of :: "js_num option \<Rightarrow> js_value_num" where
  "jn_of v = (case v of None \<Rightarrow> JNaN | Some x \<Rightarrow> JNum x)"

definition jn_sum :: "js_value_num list \<Rightarrow> js_value_num" where
  "jn_sum xs = foldl jn_add (JNum 0) xs"

lemma jn_add_NaN [simp]: "jn_add x JNaN = JNaN"
  by (cases x) simp_all

lemma jn_sub_NaN [simp]: "jn_sub x JNaN = JNaN"
  by (cases x) simp_all

lemma jn_less_NaN [simp]: "\<not> jn_less x JNaN" "\<not> jn_less JNaN x"
  by (cases x; simp)+

lemma jn_foldl_NaN: "foldl jn_add JNaN xs = JNaN"
  by (induction xs) simp_all

lemma jn_sum_NaN: "JNaN \<in> set xs \<Longrightarrow> jn_sum xs = JNaN"
proof -
  have "JNaN \<in> set xs \<Longrightarrow> foldl jn_add a xs = JNaN" for a
    by (induction xs arbitrary: a) (auto simp: jn_foldl_NaN)
  then show "JNaN \<in> set xs \<Longrightarrow> jn_sum xs = JNaN" by (simp add: jn_sum_def)
qed

lemma jn_sum_nums: "jn_sum (map JNum xs) = JNum (sum_list xs)"
proof -
  have "foldl jn_add (JNum a) (map JNum xs) = JNum (a + sum_list xs)" for a
    by (induction xs arbitrary: a) simp_all
  from this [of 0] show ?thesis by (simp add: jn_sum_def)
qed

subsection \<open>Dates\<close>

text \<open>An instant in milliseconds, or the invalid date that an unreadable text gives.\<close>

datatype js_date = Invalid_Date | At int

text \<open>
  The host's calendar: \<open>midnight_of t\<close> is \<open>setHours(0, 0, 0, 0)\<close> of the instant \<open>t\<close>, and \<open>day_of t\<close>
  the number of its calendar day.  What the language promises is that a calendar day is 24 hours
  long up to the clock change of a summer-time zone.
\<close>

definition day_ms :: int where
  "day_ms = 86400000"

definition calendar_ok :: "(int \<Rightarrow> int) \<Rightarrow> (int \<Rightarrow> int) \<Rightarrow> bool" where
  "calendar_ok midnight_of day_of \<longleftrightarrow>
     (\<forall>s t. \<bar>midnight_of s - midnight_of t - (day_of s - day_of t) * day_ms\<bar> < day_ms div 2)"

text \<open>A zone with a fixed offset, such as Korea's nine hours.\<close>

definition zone_day :: "int \<Rightarrow> int \<Rightarrow> int" where
  "zone_day offset t = (t + offset) div day_ms"

definition zone_midnight :: "int \<Rightarrow> int \<Rightarrow> int" where
  "zone_midnight offset t = zone_day offset t * day_ms - offset"

lemma zone_calendar_ok: "calendar_ok (zone_midnight off) (zone_day off)"
  by (simp add: calendar_ok_def zone_midnight_def day_ms_def algebra_simps)

text \<open>\<open>Math.round(ms / 86400000)\<close> of the difference of two midnights is the calendar distance.\<close>

lemma round_days:
  assumes "\<bar>d - n * day_ms\<bar> < day_ms div 2"
  shows "js_round (of_int d / of_int day_ms) = n"
proof -
  have "(2 * n - 1) * 86400000 < 2 * d" "2 * d < (2 * n + 1) * 86400000"
    using assms by (auto simp: day_ms_def abs_less_iff algebra_simps)
  then have "of_int ((2 * n - 1) * 86400000) < (of_int (2 * d) :: rat)"
    "of_int (2 * d) < (of_int ((2 * n + 1) * 86400000) :: rat)"
    by (simp_all only: of_int_less_iff)
  then have "of_int n \<le> of_int d / of_int day_ms + 1 / (2::rat)" "of_int d / of_int day_ms + 1 / (2::rat) < of_int n + 1"
    by (simp_all add: day_ms_def field_simps)
  then show ?thesis unfolding js_round_def by (rule floor_unique)
qed

end
