(* ===== verification/Api_Tasks.thy ===== *)
theory Api_Tasks
  imports Task_Store Js_Values
begin

text \<open>
  The task API of the front end: the day label and the view model of \<open>frontend/src/api/tasks.js\<close>,
  where each call of \<open>api/tasks.js\<close>, \<open>api/availableTime.js\<close>, \<open>api/notifications.js\<close> and
  \<open>api/users.js\<close> goes (the mock or an HTTP request), and the bell's list of
  \<open>hooks/useNotifications.js\<close>.  The HTTP library is not modelled; a call is the request handed to
  it.
\<close>

subsection \<open>A task on the wire\<close>

datatype energy = LOW | MEDIUM | HIGH

text \<open>
  A \<open>TaskResponse\<close>.  Fields the producers may leave out or set to \<open>null\<close> are options; estimates may be \<open>NaN\<close>
  (see the mock back end).
\<close>

record task_response =
  tr_taskId :: js_id
  tr_title :: ustring
  tr_description :: "ustring option"
  tr_estimatedMinutes :: "js_value_num option"
  tr_estimatedDuration :: "js_value_num option"
  tr_deadline :: "js_date option"
  tr_requiredEnergy :: energy
  tr_importance :: int
  tr_status :: raw_status
  tr_delayCount :: int
  tr_createdAt :: js_date
  tr_category :: "ustring option"
  tr_isPriority :: "bool option"
  tr_scheduledTime :: "ustring option"
  tr_delayedFrom :: "ustring option"

subsection \<open>The day label\<close>

text \<open>\<open>midnight\<close> is the host's \<open>setHours(0, 0, 0, 0)\<close>, \<open>now\<close> the present instant.\<close>

definition ddayLabel :: "(int \<Rightarrow> int) \<Rightarrow> int \<Rightarrow> js_date option \<Rightarrow> string option" where
  "ddayLabel midnight now deadline =
     (case deadline of
        None \<Rightarrow> None
      | Some Invalid_Date \<Rightarrow> Some ''D+NaN''
      | Some (At t) \<Rightarrow>
          (let ms = midnight t - midnight now;
               days = js_round (of_int ms / of_int day_ms)
           in Some (if days = 0 then ''D-DAY''
                    else if days > 0 then ''D-'' @ show_int days
                    else ''D+'' @ show_int \<bar>days\<bar>)))"

text \<open>
  \<open>dday.match(/D([+-])(\d+)/)\<close>: the first place where a \<open>D\<close>, a sign and a digit follow each
  other, with all the digits there; \<open>True\<close> for a minus sign.
\<close>

fun ddayMatch :: "string \<Rightarrow> (bool \<times> nat) option" where
  "ddayMatch (c # s # ds) =
     (if c = CHR ''D'' \<and> (s = CHR ''+'' \<or> s = CHR ''-'') \<and> fst (span_digits ds) \<noteq> []
      then Some (s = CHR ''-'', digits_value (fst (span_digits ds)))
      else ddayMatch (s # ds))"
| "ddayMatch _ = None"

definition ddayNum :: "string option \<Rightarrow> int" where
  "ddayNum dday =
     (case dday of
        None \<Rightarrow> 9999
      | Some s \<Rightarrow>
          if s = [] then 9999
          else if s = ''D-DAY'' then 0
          else (case ddayMatch s of
                  Some (neg, n) \<Rightarrow> (if neg then 1 else - 1) * int n
                | None \<Rightarrow> 9999))"

subsection \<open>The view model\<close>

record tag =
  tag_label :: ustring
  tag_category :: string

definition CATEGORY_TAGS :: "(ustring \<times> tag) list" where
  "CATEGORY_TAGS =
     [([0xC5C5, 0xBB34], \<lparr>tag_label = [0xC5C5, 0xBB34], tag_category = ''work''\<rparr>),
      ([0xAC1C, 0xC778], \<lparr>tag_label = [0xAC1C, 0xC778], tag_category = ''personal''\<rparr>),
      ([0xB514, 0xC790, 0xC778], \<lparr>tag_label = [0xB514, 0xC790, 0xC778], tag_category = ''design''\<rparr>),
      ([0xBB38, 0xC11C], \<lparr>tag_label = [0xBB38, 0xC11C], tag_category = ''document''\<rparr>),
      ([0xD68C, 0xC758], \<lparr>tag_label = [0xD68C, 0xC758], tag_category = ''meeting''\<rparr>),
      ([0xAC1C, 0xBC1C], \<lparr>tag_label = [0xAC1C, 0xBC1C], tag_category = ''dev''\<rparr>),
      ([0xC778, 0xC0AC], \<lparr>tag_label = [0xC778, 0xC0AC], tag_category = ''hr''\<rparr>)]"

text \<open>\<open>IMPORTANCE_LABEL\<close> with its fallback.\<close>

definition importance_label :: "int \<Rightarrow> ustring" where
  "importance_label n =
     (if n = 5 then [0xB9E4, 0xC6B0, 0x20, 0xB192, 0xC74C]
      else if n = 4 then [0xB192, 0xC74C]
      else if n = 3 then [0xBCF4, 0xD1B5]
      else if n = 2 then [0xB0AE, 0xC74C]
      else if n = 1 then [0xB9E4, 0xC6B0, 0x20, 0xB0AE, 0xC74C]
      else [0xBCF4, 0xD1B5])"

datatype card_variant = V_zombie | V_priority | V_default

record view_model =
  vm_id :: js_id
  vm_title :: ustring
  vm_description :: ustring
  vm_estimatedMinutes :: "js_value_num option"
  vm_requiredEnergy :: energy
  vm_importance :: int
  vm_importanceLabel :: ustring
  vm_status :: raw_status
  vm_delayCount :: int
  vm_tags :: "tag list"
  vm_dday :: "string option"
  vm_scheduledTime :: "ustring option"
  vm_delayedFrom :: "ustring option"
  vm_variant :: card_variant
  vm_isPriority :: bool
  vm_isZombie :: bool

definition category_tags :: "ustring option \<Rightarrow> tag list" where
  "category_tags c =
     (case c of None \<Rightarrow> []
      | Some k \<Rightarrow> (case lookup CATEGORY_TAGS k of None \<Rightarrow> [] | Some t \<Rightarrow> [t]))"

definition toViewModel :: "(int \<Rightarrow> int) \<Rightarrow> int \<Rightarrow> task_response \<Rightarrow> view_model" where
  "toViewModel midnight now t =
     (let isZombie = tr_delayCount t \<ge> 5;
          isPriority = tr_isPriority t = Some True \<or> tr_importance t \<ge> 5
      in \<lparr>vm_id = tr_taskId t, vm_title = tr_title t,
          vm_description = (case tr_description t of None \<Rightarrow> [] | Some d \<Rightarrow> d),
          vm_estimatedMinutes = tr_estimatedMinutes t, vm_requiredEnergy = tr_requiredEnergy t,
          vm_importance = tr_importance t, vm_importanceLabel = importance_label (tr_importance t),
          vm_status = tr_status t, vm_delayCount = tr_delayCount t,
          vm_tags = category_tags (tr_category t), vm_dday = ddayLabel midnight now (tr_deadline t),
          vm_scheduledTime = tr_scheduledTime t, vm_delayedFrom = tr_delayedFrom t,
          vm_variant = (if isZombie then V_zombie else if isPriority then V_priority else V_default),
          vm_isPriority = isPriority, vm_isZombie = isZombie\<rparr>)"

subsection \<open>The bell (hooks/useNotifications.js)\<close>

datatype note_kind = Danger | Warning

text \<open>A note; its text is a fixed sentence around the delay count or the label.\<close>

datatype note_text = Delayed_times int | Deadline_near "string option"

record bell_note =
  note_id :: string
  note_kind :: note_kind
  note_title :: ustring
  note_text :: note_text

definition note_of :: "view_model \<Rightarrow> bell_note list" where
  "note_of v =
     (if vm_isZombie v
      then [\<lparr>note_id = ''z-'' @ prop_key (vm_id v), note_kind = Danger, note_title = vm_title v,
             note_text = Delayed_times (vm_delayCount v)\<rparr>]
      else if ddayNum (vm_dday v) \<le> 1
      then [\<lparr>note_id = ''d-'' @ prop_key (vm_id v), note_kind = Warning, note_title = vm_title v,
             note_text = Deadline_near (vm_dday v)\<rparr>]
      else [])"

text \<open>The library's sort is stable; the comparison puts \<open>danger\<close> before everything else.\<close>

definition note_rank :: "bell_note \<Rightarrow> nat" where
  "note_rank n = (if note_kind n = Danger then 0 else 1)"

text \<open>\<open>None\<close> is a failed request.\<close>

definition useNotifications :: "(int \<Rightarrow> int) \<Rightarrow> int \<Rightarrow> task_response list option \<Rightarrow> bell_note list" where
  "useNotifications midnight now reply =
     (case reply of
        None \<Rightarrow> []
      | Some ts \<Rightarrow> sort_key note_rank (concat (map (\<lambda>t. note_of (toViewModel midnight now t)) ts)))"

subsection \<open>Where a call goes\<close>

datatype http_method = GET | POST | PUT | PATCH | DELETE_method

text \<open>A parameter or field of a body; \<open>P_undefined\<close> is left out by the HTTP library.\<close>

datatype param =
    P_str string | P_text ustring | P_num js_num | P_id js_id | P_bool bool | P_energy energy | P_undefined | P_null
  | P_object "(string \<times> param) list"

record http_request =
  rq_method :: http_method
  rq_url :: string
  rq_params :: "(string \<times> param) list"
  rq_body :: "(string \<times> param) list"

definition request :: "http_method \<Rightarrow> string \<Rightarrow> (string \<times> param) list \<Rightarrow> (string \<times> param) list \<Rightarrow> http_request" where
  "request me url ps body = \<lparr>rq_method = me, rq_url = url, rq_params = ps, rq_body = body\<rparr>"

text \<open>The exported functions, with their arguments.\<close>

datatype api_call =
    Get_tasks int "param" "param"
  | Get_all_pending int
  | Create_task "(string \<times> param) list"
  | Update_task_status js_id string "param" "param"
  | Get_zombie_tasks int
  | Get_archived_tasks int
  | Delete_task js_id
  | Recreate_task "(string \<times> param) list"
  | Get_completed_tasks int
  | Create_task_with_budget int "(string \<times> param) list"
  | Complete_task_with_refund js_id js_num string
  | Get_available_time int
  | Set_available_time int js_num param
  | Get_notifications int bool "string option" "param"
  | Mark_notification_read string
  | Dismiss_notification string
  | Resolve_delete_confirm js_id string
  | Get_weights int
  | Reset_weights int

definition completeTask_call :: "js_id \<Rightarrow> param \<Rightarrow> param \<Rightarrow> api_call" where
  "completeTask_call tid e mins = Update_task_status tid ''COMPLETE'' e mins"

definition snoozeTask_call :: "js_id \<Rightarrow> param \<Rightarrow> param \<Rightarrow> api_call" where
  "snoozeTask_call tid e mins = Update_task_status tid ''SNOOZE'' e mins"

definition archiveTask_call :: "js_id \<Rightarrow> param \<Rightarrow> param \<Rightarrow> api_call" where
  "archiveTask_call tid e mins = Update_task_status tid ''ARCHIVE'' e mins"

definition restoreTask_call :: "js_id \<Rightarrow> param \<Rightarrow> param \<Rightarrow> api_call" where
  "restoreTask_call tid e mins = Update_task_status tid ''RESTORE'' e mins"

definition task_url :: "js_id \<Rightarrow> string" where
  "task_url tid = ''/api/tasks/'' @ prop_key tid"

definition user_url :: "int \<Rightarrow> string" where
  "user_url uid = ''/api/users/'' @ show_int uid"

fun tasks_request :: "api_call \<Rightarrow> http_request" where
  "tasks_request (Get_tasks uid en mins) =
     request GET ''/api/tasks'' [(''userId'', P_num (of_int uid)), (''energy'', en), (''minutes'', mins)] []"
| "tasks_request (Get_all_pending uid) =
     request GET ''/api/tasks''
       [(''userId'', P_num (of_int uid)), (''energy'', P_energy HIGH), (''minutes'', P_num 100000)] []"
| "tasks_request (Create_task data) = request POST ''/api/tasks'' [] data"
| "tasks_request (Update_task_status tid act en mins) =
     request PATCH (task_url tid @ ''/status'') []
       [(''action'', P_str act), (''energyLevel'', en), (''availableMinutes'', mins)]"
| "tasks_request (Get_zombie_tasks uid) = request GET ''/api/tasks/zombie'' [(''userId'', P_num (of_int uid))] []"
| "tasks_request (Get_archived_tasks uid) =
     request GET ''/api/tasks'' [(''userId'', P_num (of_int uid)), (''status'', P_str ''ARCHIVED'')] []"
| "tasks_request (Delete_task tid) = request DELETE_method (task_url tid) [] []"
| "tasks_request (Recreate_task task) = request POST ''/api/tasks'' [] task"
| "tasks_request (Get_completed_tasks uid) = request GET ''/api/tasks/completed'' [(''userId'', P_num (of_int uid))] []"
| "tasks_request (Create_task_with_budget uid payload) =
     request POST ''/api/tasks'' [] (foldl (\<lambda>obj (k, v). store k v obj) [(''userId'', P_num (of_int uid))] payload)"
| "tasks_request (Complete_task_with_refund tid elapsed completedAt) =
     request PATCH (task_url tid @ ''/complete'') []
       [(''elapsed_time'', P_num (of_int (max 0 (js_round elapsed)))), (''completed_at'', P_str completedAt)]"
| "tasks_request (Get_available_time uid) = request GET (user_url uid @ ''/available-time'') [] []"
| "tasks_request (Set_available_time uid seconds date) =
     request PUT (user_url uid @ ''/available-time'') [] [(''available_seconds'', P_num seconds), (''date'', date)]"
| "tasks_request (Get_notifications uid unread cursor limit) =
     request GET ''/api/notifications''
       [(''userId'', P_num (of_int uid)), (''unread'', if unread then P_str ''true'' else P_undefined),
        (''cursor'', case cursor of None \<Rightarrow> P_undefined | Some c \<Rightarrow> if c = [] then P_undefined else P_str c),
        (''limit'', limit)] []"
| "tasks_request (Mark_notification_read nid) = request POST (''/api/notifications/'' @ nid @ ''/read'') [] []"
| "tasks_request (Dismiss_notification nid) = request POST (''/api/notifications/'' @ nid @ ''/dismiss'') [] []"
| "tasks_request (Resolve_delete_confirm tid act) =
     (if act = ''COMPLETE''
      then request PATCH (task_url tid @ ''/status'') [] [(''action'', P_str ''COMPLETE'')]
      else request DELETE_method (task_url tid) [] [])"
| "tasks_request (Get_weights uid) = request GET (user_url uid @ ''/weights'') [] []"
| "tasks_request (Reset_weights uid) = request POST (user_url uid @ ''/weights/reset'') [] []"

text \<open>\<open>USE_MOCK\<close> chooses between the in-memory back end and the network.\<close>

datatype api_route = To_mock api_call | To_server http_request

definition route_call :: "bool \<Rightarrow> api_call \<Rightarrow> api_route" where
  "route_call use_mock c = (if use_mock then To_mock c else To_server (tasks_request c))"

text \<open>
  \<open>getCompletedTasks\<close> maps the live reply; a failed request is an empty list.  \<open>time_label\<close> and
  \<open>iso_date\<close> are the host's \<open>toLocaleTimeString\<close> and the first ten characters of an ISO string.
\<close>

record completed_view =
  cp_taskId :: js_id
  cp_title :: ustring
  cp_category :: "ustring option"
  cp_completedAt :: ustring
  cp_date :: string

definition getCompletedTasks ::
  "(int \<Rightarrow> ustring) \<Rightarrow> (int \<Rightarrow> string) \<Rightarrow> int \<Rightarrow> (js_id \<times> ustring \<times> ustring option \<times> int option) list option
   \<Rightarrow> completed_view list" where
  "getCompletedTasks time_label iso_date now reply =
     (case reply of
        None \<Rightarrow> []
      | Some ts \<Rightarrow>
          map (\<lambda>(i, ti, c, done_at). \<lparr>cp_taskId = i, cp_title = ti, cp_category = c,
                 cp_completedAt = (case done_at of None \<Rightarrow> [] | Some a \<Rightarrow> time_label a),
                 cp_date = iso_date (case done_at of None \<Rightarrow> now | Some a \<Rightarrow> a)\<rparr>) ts)"

subsection \<open>Labels and numbers\<close>

lemma span_digits_append_nil:
  "span_digits (show_nat n) = (ds, []) \<Longrightarrow> fst (span_digits (show_nat n)) = ds" by simp

lemma ddayMatch_label:
  "s = CHR ''+'' \<or> s = CHR ''-'' \<Longrightarrow> ddayMatch (CHR ''D'' # s # show_nat n) = Some (s = CHR ''-'', n)"
proof -
  obtain ds where "span_digits (show_nat n) = (ds, [])" "digits_value ds = n" "ds \<noteq> []"
    using span_show_nat by blast
  then show "s = CHR ''+'' \<or> s = CHR ''-'' \<Longrightarrow> ?thesis" by simp
qed

lemma show_int_pos: "0 \<le> n \<Longrightarrow> show_int n = show_nat (nat n)"
  by (simp add: show_int_def)

definition day_label :: "int \<Rightarrow> string" where
  "day_label days = (if days = 0 then ''D-DAY'' else if days > 0 then ''D-'' @ show_int days else ''D+'' @ show_int \<bar>days\<bar>)"

lemma ddayNum_day_label: "ddayNum (Some (day_label d)) = d"
proof -
  consider "d = 0" | "0 < d" | "d < 0" by linarith
  then show ?thesis
  proof cases
    case 2
    have "CHR ''D'' # CHR ''-'' # show_nat (nat d) \<noteq> ''D-DAY''"
      using show_nat_digits [of "CHR ''D''" "nat d"] by (auto simp: digit_value_def)
    with 2 ddayMatch_label [of "CHR ''-''" "nat d"] show ?thesis
      by (simp add: ddayNum_def day_label_def show_int_pos del: ddayMatch.simps)
  next
    case 3
    with ddayMatch_label [of "CHR ''+''" "nat (- d)"] show ?thesis
      by (simp add: ddayNum_def day_label_def show_int_pos del: ddayMatch.simps)
  qed (simp add: ddayNum_def day_label_def)
qed

lemma isOverdue_day_label: "isOverdue (Some (day_label d)) \<longleftrightarrow> d < 0"
  by (auto simp: isOverdue_def day_label_def)

lemma overdueDays_day_label: "overdueDaysFromDday (Some (day_label d)) = of_int (max 0 (- d))"
  by (auto simp: overdueDaysFromDday_def day_label_def show_int_pos or_default_def max_def)

lemma ddayLabel_calendar:
  assumes "calendar_ok midnight day_of"
  shows "ddayLabel midnight now (Some (At t)) = Some (day_label (day_of t - day_of now))"
proof -
  have "js_round (of_int (midnight t - midnight now) / of_int day_ms) = day_of t - day_of now"
    using assms by (intro round_days) (simp add: calendar_ok_def)
  then show ?thesis by (simp add: ddayLabel_def day_label_def Let_def)
qed

lemma note_kinds: "n \<in> set (note_of v) \<Longrightarrow> (note_kind n = Danger \<longleftrightarrow> vm_isZombie v)"
  by (auto simp: note_of_def split: if_splits)

lemma insort_key_pass:
  "\<forall>a \<in> set xs. f a < f x \<Longrightarrow> insort_key f x (xs @ ys) = xs @ insort_key f x ys"
  by (induction xs) (auto simp: not_le)

lemma stable_two_classes:
  "\<forall>x \<in> set xs. f x = (0::nat) \<or> f x = 1 \<Longrightarrow>
   sort_key f xs = filter (\<lambda>x. f x = 0) xs @ filter (\<lambda>x. f x = 1) xs"
proof (induction xs)
  case (Cons x xs)
  then have IH: "sort_key f xs = filter (\<lambda>x. f x = 0) xs @ filter (\<lambda>x. f x = 1) xs" by simp
  show ?case
  proof (cases "f x = 0")
    case True
    then have "insort_key f x (sort_key f xs) = x # sort_key f xs"
      by (intro insort_is_Cons) simp
    with True IH show ?thesis by simp
  next
    case False
    with Cons.prems have x: "f x = 1" by simp
    have "insort_key f x (filter (\<lambda>x. f x = 1) xs) = x # filter (\<lambda>x. f x = 1) xs"
      by (rule insort_is_Cons) (simp add: x)
    with x IH show ?thesis by (simp add: insort_key_pass)
  qed
qed simp

subsection \<open>Properties\<close>

text \<open>
  The day label is the calendar distance: on any host whose midnights are whole days apart up
  to a clock change, the label of a valid deadline reads back as the number of calendar days until
  it, marks overdue exactly when that day has passed, and the store's overdue days are the number
  of days passed.
\<close>

theorem day_label_is_calendar_distance:
  assumes "calendar_ok midnight day_of"
  shows "let l = ddayLabel midnight now (Some (At t)) in
     ddayNum l = day_of t - day_of now
     \<and> isOverdue l = (day_of t < day_of now)
     \<and> overdueDaysFromDday l = of_int (max 0 (day_of now - day_of t))"
  unfolding ddayLabel_calendar [OF assms] Let_def
  by (simp add: ddayNum_day_label isOverdue_day_label overdueDays_day_label)

lemma day_label_is_calendar_distance_witness:
  "ddayNum (ddayLabel (zone_midnight 32400000) 1716509000000 (Some (At 1716681800000))) = 2"
  using day_label_is_calendar_distance [OF zone_calendar_ok, of 32400000 1716509000000 1716681800000]
  by (simp add: Let_def zone_day_def day_ms_def)

text \<open>
  An unreadable deadline counts as overdue: its label is \<open>D+NaN\<close>, which the card marks overdue
  with zero overdue days, while the number the lists sort by is the one of a task with no deadline.
\<close>

theorem unreadable_deadline_is_overdue:
  "let l = ddayLabel midnight now (Some Invalid_Date) in
     isOverdue l \<and> overdueDaysFromDday l = 0 \<and> ddayNum l = ddayNum (ddayLabel midnight now None)"
proof -
  have "ddayMatch ''D+NaN'' = None" by code_simp
  moreover have "js_Number ''NaN'' = None" by code_simp
  ultimately show ?thesis
    by (simp add: ddayLabel_def isOverdue_def overdueDaysFromDday_def ddayNum_def or_default_def)
qed

text \<open>
  The bell lists every repeatedly delayed task, in list order, and then every other task whose
  deadline is at most one calendar day away or past, in list order, and nothing else.
\<close>

theorem bell_lists_delayed_then_urgent:
  "let vs = map (toViewModel midnight now) ts in
     map note_id (useNotifications midnight now (Some ts))
     = map (\<lambda>v. ''z-'' @ prop_key (vm_id v)) (filter vm_isZombie vs)
       @ map (\<lambda>v. ''d-'' @ prop_key (vm_id v)) (filter (\<lambda>v. \<not> vm_isZombie v \<and> ddayNum (vm_dday v) \<le> 1) vs)"
proof -
  define vs where "vs = map (toViewModel midnight now) ts"
  have "filter (\<lambda>n. note_rank n = 0) (concat (map note_of us)) = concat (map note_of (filter vm_isZombie us))"
    "filter (\<lambda>n. note_rank n = 1) (concat (map note_of us))
      = concat (map note_of (filter (\<lambda>v. \<not> vm_isZombie v \<and> ddayNum (vm_dday v) \<le> 1) us))" for us
    by (induction us) (auto simp: note_of_def note_rank_def)
  moreover have two: "\<forall>n \<in> set ns. note_rank n = 0 \<or> note_rank n = 1" for ns
    by (simp add: note_rank_def)
  moreover have cat: "concat (map (\<lambda>t. note_of (toViewModel midnight now t)) ts) = concat (map note_of vs)"
    by (simp add: vs_def comp_def)
  ultimately have "useNotifications midnight now (Some ts)
      = concat (map note_of (filter vm_isZombie vs))
        @ concat (map note_of (filter (\<lambda>v. \<not> vm_isZombie v \<and> ddayNum (vm_dday v) \<le> 1) vs))"
    by (simp add: useNotifications_def stable_two_classes two cat)
  moreover have "map note_id (concat (map note_of (filter vm_isZombie us)))
      = map (\<lambda>v. ''z-'' @ prop_key (vm_id v)) (filter vm_isZombie us)" for us
    by (induction us) (auto simp: note_of_def)
  moreover have "map note_id (concat (map note_of (filter (\<lambda>v. \<not> vm_isZombie v \<and> ddayNum (vm_dday v) \<le> 1) us)))
      = map (\<lambda>v. ''d-'' @ prop_key (vm_id v)) (filter (\<lambda>v. \<not> vm_isZombie v \<and> ddayNum (vm_dday v) \<le> 1) us)" for us
    by (induction us) (auto simp: note_of_def)
  ultimately show ?thesis by (simp add: Let_def vs_def)
qed

end
