(* ===== verification/Api_Errors.thy ===== *)
theory Api_Errors
  imports Api_Tasks
begin

text \<open>
  The way of an error from the server to the screen: \<open>alarm-system/src/errors/errorCodes.ts\<close> raises
  it, the router answers with its JSON form, the response interceptor of
  \<open>frontend/src/api/client.js\<close> normalises the HTTP library's error, \<open>normalizeError\<close> of
  \<open>api/availableTime.js\<close> reads the body again, and the task store classifies it.
\<close>

subsection \<open>The errors of the server (errors/errorCodes.ts)\<close>

record app_error =
  ae_status :: int
  ae_code :: string
  ae_message :: ustring
  ae_extra :: "(string \<times> param) list"

datatype server_error =
    DurationRequired | DurationOutOfRange | InsufficientAvailableTime js_num js_num
  | AvailableBelowAllocated js_num | InvalidElapsed | InvalidAvailable | TaskNotFound | Forbidden
  | PriorityTaskExists int ustring | InvalidTransition ustring | Validation ustring

definition MIN_DURATION_SEC :: int where
  "MIN_DURATION_SEC = 60"

definition MAX_DURATION_SEC :: int where
  "MAX_DURATION_SEC = 86340"

definition AppError :: "int \<Rightarrow> string \<Rightarrow> ustring \<Rightarrow> (string \<times> param) list \<Rightarrow> app_error" where
  "AppError st code msg extra = \<lparr>ae_status = st, ae_code = code, ae_message = msg, ae_extra = extra\<rparr>"

fun Errors :: "server_error \<Rightarrow> app_error" where
  "Errors DurationRequired =
     AppError 400 ''DURATION_REQUIRED''
       [0xC18C, 0xC694, 0xC2DC, 0xAC04, 0xC744, 0x20, 0xC124, 0xC815, 0xD574, 0xC8FC, 0xC138,
        0xC694, 0x20, 0x28, 0xCD5C, 0xC18C, 0x20, 0x31, 0xBD84, 0x29]
       []"
| "Errors DurationOutOfRange =
     AppError 400 ''DURATION_OUT_OF_RANGE''
       [0xC18C, 0xC694, 0xC2DC, 0xAC04, 0xC740, 0x20, 0xCD5C, 0xC18C, 0x20, 0x31, 0xBD84, 0x28,
        0x36, 0x30, 0xCD08, 0x29, 0xC5D0, 0xC11C, 0x20, 0xCD5C, 0xB300, 0x20, 0x32, 0x33,
        0xC2DC, 0xAC04, 0x20, 0x35, 0x39, 0xBD84, 0x28, 0x38, 0x36, 0x33, 0x34, 0x30, 0xCD08,
        0x29, 0x20, 0xC0AC, 0xC774, 0xC5EC, 0xC57C, 0x20, 0xD569, 0xB2C8, 0xB2E4, 0x2E]
       []"
| "Errors (InsufficientAvailableTime rem req) =
     AppError 409 ''INSUFFICIENT_AVAILABLE_TIME''
       [0xB2F9, 0xC2E0, 0xC5D0, 0xAC8C, 0x20, 0xB0A8, 0xC740, 0x20, 0xAC00, 0xC6A9, 0xC2DC,
        0xAC04, 0xC774, 0x20, 0xBD80, 0xC871, 0xD569, 0xB2C8, 0xB2E4]
       [(''remaining_seconds'', P_num rem), (''requested_seconds'', P_num req)]"
| "Errors (AvailableBelowAllocated a) =
     AppError 400 ''AVAILABLE_BELOW_ALLOCATED''
       [0xC774, 0xBBF8, 0x20, 0xD560, 0xB2F9, 0xB41C, 0x20, 0xC791, 0xC5C5, 0x20, 0xC2DC,
        0xAC04, 0xBCF4, 0xB2E4, 0x20, 0xC791, 0xAC8C, 0x20, 0xC124, 0xC815, 0xD560, 0x20,
        0xC218, 0x20, 0xC5C6, 0xC2B5, 0xB2C8, 0xB2E4, 0x2E]
       [(''allocated_seconds'', P_num a)]"
| "Errors InvalidElapsed =
     AppError 400 ''INVALID_ELAPSED''
       [0x65, 0x6C, 0x61, 0x70, 0x73, 0x65, 0x64, 0x5F, 0x74, 0x69, 0x6D, 0x65, 0x20, 0xC740,
        0x20, 0x30, 0x20, 0xC774, 0xC0C1, 0xC758, 0x20, 0xC815, 0xC218, 0x28, 0xCD08, 0x29,
        0xC5EC, 0xC57C, 0x20, 0xD569, 0xB2C8, 0xB2E4, 0x2E]
       []"
| "Errors InvalidAvailable =
     AppError 400 ''INVALID_AVAILABLE''
       [0x61, 0x76, 0x61, 0x69, 0x6C, 0x61, 0x62, 0x6C, 0x65, 0x5F, 0x73, 0x65, 0x63, 0x6F,
        0x6E, 0x64, 0x73, 0x20, 0xB294, 0x20, 0x30, 0x20, 0xC774, 0xC0C1, 0xC758, 0x20, 0xC815,
        0xC218, 0x28, 0xCD08, 0x29, 0xC5EC, 0xC57C, 0x20, 0xD569, 0xB2C8, 0xB2E4, 0x2E]
       []"
| "Errors TaskNotFound =
     AppError 404 ''TASK_NOT_FOUND''
       [0xC791, 0xC5C5, 0xC744, 0x20, 0xCC3E, 0xC744, 0x20, 0xC218, 0x20, 0xC5C6, 0xC2B5,
        0xB2C8, 0xB2E4, 0x2E]
       []"
| "Errors Forbidden =
     AppError 403 ''FORBIDDEN''
       [0xAD8C, 0xD55C, 0xC774, 0x20, 0xC5C6, 0xC2B5, 0xB2C8, 0xB2E4, 0x2E]
       []"
| "Errors (PriorityTaskExists i ti) =
     AppError 409 ''PRIORITY_TASK_EXISTS''
       [0xCD5C, 0xC6B0, 0xC120, 0x20, 0xACFC, 0xC81C, 0xAC00, 0x20, 0xC774, 0xBBF8, 0x20,
        0xC874, 0xC7AC, 0xD569, 0xB2C8, 0xB2E4, 0x21, 0x21]
       [(''existing_task'', P_object [(''id'', P_num (of_int i)), (''title'', P_text ti)])]"
| "Errors (InvalidTransition m) = AppError 400 ''INVALID_TRANSITION'' m []"
| "Errors (Validation m) = AppError 400 ''VALIDATION'' m []"

subsection \<open>The answer of the router and the interceptor (api/client.js)\<close>

text \<open>The JSON body of an answer, as far as the client reads it.\<close>

record error_body =
  eb_status :: "int option"
  eb_error :: "string option"
  eb_message :: "ustring option"
  eb_rest :: "(string \<times> param) list"

definition toJSON :: "app_error \<Rightarrow> error_body" where
  "toJSON e = \<lparr>eb_status = Some (ae_status e), eb_error = Some (ae_code e), eb_message = Some (ae_message e),
               eb_rest = ae_extra e\<rparr>"

text \<open>The HTTP library's error: no response at all, or a status and perhaps a body.\<close>

type_synonym axios_error = "(int \<times> error_body option) option"

definition respond :: "app_error \<Rightarrow> axios_error" where
  "respond e = Some (ae_status e, Some (toJSON e))"

record client_error =
  ce_status :: int
  ce_message :: ustring
  ce_raw :: axios_error

definition message_by_status :: "int option \<Rightarrow> ustring option" where
  "message_by_status st =
     (if st = Some 400 then Some
        [0xC785, 0xB825, 0xAC12, 0xC744, 0x20, 0xB2E4, 0xC2DC, 0x20, 0xD655, 0xC778, 0xD574,
         0x20, 0xC8FC, 0xC138, 0xC694, 0x2E]
      else if st = Some 404 then Some
        [0xB300, 0xC0C1, 0xC744, 0x20, 0xCC3E, 0xC744, 0x20, 0xC218, 0x20, 0xC5C6, 0xC2B5,
         0xB2C8, 0xB2E4, 0x2E]
      else if st = Some 500 then Some
        [0xC11C, 0xBC84, 0xC5D0, 0x20, 0xBB38, 0xC81C, 0xAC00, 0x20, 0xBC1C, 0xC0DD, 0xD588,
         0xC2B5, 0xB2C8, 0xB2E4, 0x2E, 0x20, 0xC7A0, 0xC2DC, 0x20, 0xD6C4, 0x20, 0xB2E4, 0xC2DC,
         0x20, 0xC2DC, 0xB3C4, 0xD574, 0x20, 0xC8FC, 0xC138, 0xC694, 0x2E]
      else None)"

definition network_error_message :: ustring where
  "network_error_message =
     [0xB124, 0xD2B8, 0xC6CC, 0xD06C, 0x20, 0xC624, 0xB958, 0xAC00, 0x20, 0xBC1C, 0xC0DD,
      0xD588, 0xC2B5, 0xB2C8, 0xB2E4, 0x2E]"

definition request_failed_message :: ustring where
  "request_failed_message = [0xC694, 0xCCAD, 0x20, 0xC2E4, 0xD328]"

text \<open>\<open>a || b\<close> on messages: the empty text is falsy.\<close>

definition text_or :: "ustring option \<Rightarrow> ustring option \<Rightarrow> ustring option" where
  "text_or a b = (if a = None \<or> a = Some [] then b else a)"

definition interceptor :: "axios_error \<Rightarrow> client_error" where
  "interceptor err =
     (let st = map_option fst err;
          body = (case err of Some (_, Some b) \<Rightarrow> eb_message b | _ \<Rightarrow> None)
      in \<lparr>ce_status = or_default st 0,
          ce_message = or_default (text_or (text_or body (message_by_status st)) (Some network_error_message))
                         network_error_message,
          ce_raw = err\<rparr>)"

subsection \<open>normalizeError (api/availableTime.js)\<close>

text \<open>
  What the calls of \<open>api/availableTime.js\<close> throw: either the interceptor's error or the object the
  mock threw, which already has a code.
\<close>

datatype thrown = From_client client_error | From_mock api_error ustring "(string \<times> param) list"

record normal_error =
  ne_status :: "int option"
  ne_code :: string
  ne_message :: ustring
  ne_rest :: "(string \<times> param) list"

definition error_data :: "thrown \<Rightarrow> error_body option" where
  "error_data e = (case e of From_client c \<Rightarrow> (case ce_raw c of Some (_, b) \<Rightarrow> b | None \<Rightarrow> None) | _ \<Rightarrow> None)"

definition thrown_status :: "thrown \<Rightarrow> int option" where
  "thrown_status e = (case e of From_client c \<Rightarrow> Some (ce_status c) | From_mock a _ _ \<Rightarrow> err_status a)"

definition thrown_message :: "thrown \<Rightarrow> ustring" where
  "thrown_message e = (case e of From_client c \<Rightarrow> ce_message c | From_mock _ m _ \<Rightarrow> m)"

text \<open>The spread of the body comes last, so its own \<open>status\<close> and \<open>message\<close> win.\<close>

definition normalizeError :: "thrown \<Rightarrow> normal_error" where
  "normalizeError e =
     (case error_data e of
        Some d \<Rightarrow>
          (case eb_error d of
             Some code \<Rightarrow>
               if code \<noteq> []
               then \<lparr>ne_status = coalesce (eb_status d) (thrown_status e), ne_code = code,
                     ne_message = or_default (eb_message d) (thrown_message e),
                     ne_rest = eb_rest d\<rparr>
               else \<lparr>ne_status = Some (or_default (thrown_status e) 0), ne_code = ''UNKNOWN'',
                     ne_message = thrown_message e, ne_rest = []\<rparr>
           | None \<Rightarrow> \<lparr>ne_status = Some (or_default (thrown_status e) 0), ne_code = ''UNKNOWN'',
                      ne_message = thrown_message e, ne_rest = []\<rparr>)
      | None \<Rightarrow>
          (case e of
             From_mock a m rest \<Rightarrow>
               (case err_code a of
                  Some code \<Rightarrow>
                    if code \<noteq> [] then \<lparr>ne_status = err_status a, ne_code = code, ne_message = m, ne_rest = rest\<rparr>
                    else \<lparr>ne_status = Some (or_default (err_status a) 0), ne_code = ''UNKNOWN'', ne_message = m, ne_rest = []\<rparr>
                | None \<Rightarrow> \<lparr>ne_status = Some (or_default (err_status a) 0), ne_code = ''UNKNOWN'', ne_message = m, ne_rest = []\<rparr>)
           | From_client c \<Rightarrow>
               \<lparr>ne_status = Some (ce_status c), ne_code = ''UNKNOWN'', ne_message = ce_message c, ne_rest = []\<rparr>))"

subsection \<open>What the task store sees\<close>

text \<open>
  \<open>createTask\<close> of \<open>api/tasks.js\<close> passes the interceptor's error on: it has a status, but neither a
  code nor a \<open>response\<close> of its own.
\<close>

definition store_view :: "client_error \<Rightarrow> api_error" where
  "store_view c = \<lparr>err_code = None, err_status = Some (ce_status c), resp_error = None, resp_code = None,
                   resp_status = None\<rparr>"

text \<open>The same for an error that went through \<open>normalizeError\<close>.\<close>

definition normal_view :: "normal_error \<Rightarrow> api_error" where
  "normal_view n = \<lparr>err_code = Some (ne_code n), err_status = ne_status n, resp_error = None, resp_code = None,
                    resp_status = None\<rparr>"

lemma Errors_code_nonempty [simp]: "ae_code (Errors e) \<noteq> []"
  by (cases e) (simp_all add: AppError_def)

lemma classify_409: "err_status a = Some 409 \<Longrightarrow> classifyCreateError a = Some PRIORITY_EXISTS"
  by (simp add: classifyCreateError_def Let_def coalesce_def)

lemma classify_no_code:
  "err_code a = None \<Longrightarrow> resp_error a = None \<Longrightarrow> resp_code a = None \<Longrightarrow>
   classifyCreateError a = (if coalesce (err_status a) (resp_status a) = Some 409 then Some PRIORITY_EXISTS else None)"
  by (simp add: classifyCreateError_def Let_def js_or_def)

subsection \<open>Properties\<close>


text \<open>
  The task store cannot tell a full budget from a taken priority slot: every error with status
  409 is classified \<open>PRIORITY_EXISTS\<close>, with or without its code, so the server's refusal for lack
  of time is reported as a priority conflict; and no error of the server is ever classified
  \<open>INSUFFICIENT_TIME\<close> on the path of \<open>createTask\<close>.
\<close>

theorem budget_refusal_misreported:
  "classifyCreateError (store_view (interceptor (respond (Errors (InsufficientAvailableTime rem req))))) = Some PRIORITY_EXISTS
   \<and> classifyCreateError (normal_view (normalizeError (From_client (interceptor (respond (Errors (InsufficientAvailableTime rem req)))))))
     = Some PRIORITY_EXISTS
   \<and> classifyCreateError (store_view (interceptor (respond (Errors e)))) \<noteq> Some INSUFFICIENT_TIME"
proof (intro conjI)
  show "classifyCreateError (store_view (interceptor (respond (Errors (InsufficientAvailableTime rem req))))) = Some PRIORITY_EXISTS"
    by (rule classify_409) (simp add: store_view_def interceptor_def respond_def AppError_def or_default_def Let_def)
  show "classifyCreateError (normal_view (normalizeError (From_client (interceptor (respond (Errors (InsufficientAvailableTime rem req)))))))
     = Some PRIORITY_EXISTS"
    by (rule classify_409)
       (simp add: normal_view_def normalizeError_def error_data_def interceptor_def respond_def toJSON_def
         AppError_def coalesce_def Let_def)
  show "classifyCreateError (store_view (interceptor (respond (Errors e)))) \<noteq> Some INSUFFICIENT_TIME"
    by (subst classify_no_code) (simp_all add: store_view_def)
qed

end
