(* ===== verification/Mock_Backend.thy ===== *)
theory Mock_Backend
  imports Api_Errors Availability
begin

text \<open>
  The in-memory back end of the front end, \<open>frontend/src/api/mock.js\<close>: its module variables as a
  record, every operation of \<open>mockApi\<close>, and what its budget promises and does not promise.  The
  artificial latency is not modelled.  \<open>clone\<close> is a trip through JSON, which turns \<open>NaN\<close> into
  \<open>null\<close>.  A notification's \<open>service_date\<close>, which nothing reads, is left out.
\<close>

subsection \<open>State\<close>

datatype notification_type = N_OVERDUE_1DAY | N_OVERDUE_2DAY | N_DELETE_CONFIRM | N_INFO

datatype action_taken = NONE | COMPLETED_ACTION | DELETED_ACTION

record mock_notification =
  n_id :: string
  n_task_id :: js_id
  n_type :: notification_type
  n_overdue_days :: int
  n_message :: ustring
  n_is_read :: bool
  n_is_dismissed :: bool
  n_action_taken :: action_taken
  n_created_at :: int
  n_read_at :: "int option"

record weights =
  w1 :: js_num
  w2 :: js_num
  w3 :: js_num

record mock_state =
  m_epoch :: int
  m_tasks :: "task_response list"
  m_notifications :: "mock_notification list"
  m_nextId :: int
  m_available :: js_value_num
  m_refunds :: "js_value_num list"
  m_weights :: weights

text \<open>The seed tasks, relative to the instant \<open>epoch\<close> at which the module is loaded.\<close>

definition inDays :: "int \<Rightarrow> int \<Rightarrow> int" where
  "inDays epoch d = epoch + d * 86400000"

definition seed_1 :: "int \<Rightarrow> task_response" where
  "seed_1 epoch =
     \<lparr>tr_taskId = Num_id 1,
      tr_title = [0x32, 0x30, 0x32, 0x34, 0xB144, 0x20, 0x32, 0xBD84, 0xAE30, 0x20, 0xACBD,
                 0xC601, 0x20, 0xC9C0, 0xD45C, 0x20, 0xBD84, 0xC11D, 0x20, 0xBC0F, 0x20, 0xB9AC,
                 0xD3EC, 0xD2B8, 0x20, 0xC791, 0xC131],
      tr_description = Some
        [0xD575, 0xC2EC, 0x20, 0x4B, 0x50, 0x49, 0xB97C, 0x20, 0xC815, 0xB9AC, 0xD558, 0xACE0,
        0x20, 0xACBD, 0xC601, 0xC9C4, 0x20, 0xBCF4, 0xACE0, 0xC6A9, 0x20, 0xC694, 0xC57D, 0x20,
        0xB9AC, 0xD3EC, 0xD2B8, 0xB97C, 0x20, 0xC791, 0xC131, 0xD569, 0xB2C8, 0xB2E4, 0x2E],
      tr_estimatedMinutes = Some (JNum 90), tr_estimatedDuration = None,
      tr_deadline = Some (At (inDays epoch 2)), tr_requiredEnergy = HIGH, tr_importance = 5,
      tr_status = S_PENDING, tr_delayCount = 0, tr_createdAt = At (inDays epoch (-3)),
      tr_category = Some [0xC5C5, 0xBB34], tr_isPriority = Some True,
      tr_scheduledTime = None, tr_delayedFrom = None\<rparr>"

definition seed_2 :: "int \<Rightarrow> task_response" where
  "seed_2 epoch =
     \<lparr>tr_taskId = Num_id 2,
      tr_title = [0xB9C8, 0xCF00, 0xD305, 0x20, 0xCEA0, 0xD398, 0xC778, 0x20, 0xC2DC, 0xC548,
                 0x20, 0xB9AC, 0xBDF0],
      tr_description = Some
        [0xC2E0, 0xADDC, 0x20, 0xCEA0, 0xD398, 0xC778, 0x20, 0xC2DC, 0xC548, 0xC744, 0x20,
        0xAC80, 0xD1A0, 0xD558, 0xACE0, 0x20, 0xD53C, 0xB4DC, 0xBC31, 0xC744, 0x20, 0xC815,
        0xB9AC, 0xD569, 0xB2C8, 0xB2E4, 0x2E],
      tr_estimatedMinutes = Some (JNum 60), tr_estimatedDuration = None,
      tr_deadline = Some (At (inDays epoch 1)), tr_requiredEnergy = MEDIUM, tr_importance = 3,
      tr_status = S_PENDING, tr_delayCount = 0, tr_createdAt = At (inDays epoch (-1)),
      tr_category = Some [0xB514, 0xC790, 0xC778], tr_isPriority = None,
      tr_scheduledTime = Some [0xC624, 0xD6C4, 0x20, 0x33, 0xC2DC], tr_delayedFrom = None\<rparr>"

definition seed_3 :: "int \<Rightarrow> task_response" where
  "seed_3 epoch =
     \<lparr>tr_taskId = Num_id 3,
      tr_title = [0xAC1C, 0xC778, 0x20, 0xC0AC, 0xC774, 0xB4DC, 0x20, 0xD504, 0xB85C, 0xC81D,
                 0xD2B8, 0x20, 0xCF54, 0xB4DC, 0x20, 0xD074, 0xB9B0, 0xC5C5],
      tr_description = Some
        [0xB9AC, 0xD329, 0xD130, 0xB9C1, 0xACFC, 0x20, 0xBBF8, 0xC0AC, 0xC6A9, 0x20, 0xCF54,
        0xB4DC, 0x20, 0xC815, 0xB9AC, 0xB97C, 0x20, 0xC9C4, 0xD589, 0xD569, 0xB2C8, 0xB2E4,
        0x2E],
      tr_estimatedMinutes = Some (JNum 120), tr_estimatedDuration = None,
      tr_deadline = Some (At (inDays epoch 4)), tr_requiredEnergy = HIGH, tr_importance = 2,
      tr_status = S_PENDING, tr_delayCount = 5, tr_createdAt = At (inDays epoch (-9)),
      tr_category = Some [0xAC1C, 0xC778], tr_isPriority = None,
      tr_scheduledTime = None, tr_delayedFrom = Some [0xC6D4, 0xC694, 0xC77C]\<rparr>"

definition seed_4 :: "int \<Rightarrow> task_response" where
  "seed_4 epoch =
     \<lparr>tr_taskId = Num_id 4,
      tr_title = [0xC815, 0xAE30, 0x20, 0xAD6C, 0xB3C5, 0x20, 0xC11C, 0xBE44, 0xC2A4, 0x20,
                 0xACB0, 0xC81C, 0x20, 0xC218, 0xB2E8, 0x20, 0xAC31, 0xC2E0],
      tr_description = Some
        [0xB9CC, 0xB8CC, 0x20, 0xC608, 0xC815, 0x20, 0xCE74, 0xB4DC, 0x20, 0xC815, 0xBCF4,
        0xB97C, 0x20, 0xAC31, 0xC2E0, 0xD569, 0xB2C8, 0xB2E4, 0x2E],
      tr_estimatedMinutes = Some (JNum 15), tr_estimatedDuration = None,
      tr_deadline = Some (At (inDays epoch 6)), tr_requiredEnergy = LOW, tr_importance = 2,
      tr_status = S_PENDING, tr_delayCount = 0, tr_createdAt = At (inDays epoch (-2)),
      tr_category = Some [0xAC1C, 0xC778], tr_isPriority = None,
      tr_scheduledTime = None, tr_delayedFrom = None\<rparr>"

definition seed_5 :: "int \<Rightarrow> task_response" where
  "seed_5 epoch =
     \<lparr>tr_taskId = Num_id 5,
      tr_title = [0xC2E0, 0xADDC, 0x20, 0xCC44, 0xC6A9, 0x20, 0xCD5C, 0xC885, 0x20, 0xBA74,
                 0xC811, 0x20, 0xC9C4, 0xD589],
      tr_description = Some
        [0xBC31, 0xC5D4, 0xB4DC, 0x20, 0xC2DC, 0xB2C8, 0xC5B4, 0x20, 0xD3EC, 0xC9C0, 0xC158,
        0x20, 0xCD5C, 0xC885, 0x20, 0xD6C4, 0xBCF4, 0x20, 0xBA74, 0xC811, 0x20, 0xBC0F, 0x20,
        0xD3C9, 0xAC00, 0xD45C, 0x20, 0xC791, 0xC131, 0x2E],
      tr_estimatedMinutes = Some (JNum 60), tr_estimatedDuration = None,
      tr_deadline = Some (At (inDays epoch 1)), tr_requiredEnergy = HIGH, tr_importance = 4,
      tr_status = S_PENDING, tr_delayCount = 0, tr_createdAt = At (inDays epoch (-1)),
      tr_category = Some [0xC778, 0xC0AC], tr_isPriority = None,
      tr_scheduledTime = Some [0xC624, 0xC804, 0x20, 0x31, 0x31, 0xC2DC], tr_delayedFrom = None\<rparr>"

definition seed_6 :: "int \<Rightarrow> task_response" where
  "seed_6 epoch =
     \<lparr>tr_taskId = Num_id 6,
      tr_title = [0xBCF4, 0xC548, 0x20, 0xD328, 0xCE58, 0x20, 0xAE34, 0xAE09, 0x20, 0xBC30,
                 0xD3EC, 0x20, 0xAC80, 0xD1A0],
      tr_description = Some
        [0xCDE8, 0xC57D, 0xC810, 0x20, 0xD56B, 0xD53D, 0xC2A4, 0x20, 0x50, 0x52, 0x20, 0xB9AC,
        0xBDF0, 0x20, 0xD6C4, 0x20, 0xC6B4, 0xC601, 0x20, 0xBC30, 0xD3EC, 0x20, 0xC2B9, 0xC778,
        0x2E],
      tr_estimatedMinutes = Some (JNum 45), tr_estimatedDuration = None,
      tr_deadline = Some (At (inDays epoch 0)), tr_requiredEnergy = MEDIUM, tr_importance = 5,
      tr_status = S_PENDING, tr_delayCount = 0, tr_createdAt = At (inDays epoch (-1)),
      tr_category = Some [0xAC1C, 0xBC1C], tr_isPriority = None,
      tr_scheduledTime = None, tr_delayedFrom = None\<rparr>"

definition seed_tasks :: "int \<Rightarrow> task_response list" where
  "seed_tasks epoch = [seed_1 epoch, seed_2 epoch, seed_3 epoch, seed_4 epoch, seed_5 epoch, seed_6 epoch]"

lemmas seed_defs = seed_1_def seed_2_def seed_3_def seed_4_def seed_5_def seed_6_def seed_tasks_def

definition COMPLETED :: "completed_view list" where
  "COMPLETED =
     [\<lparr>cp_taskId = Num_id 101,
       cp_title = [0x51, 0x32, 0x20, 0xBD84, 0xAE30, 0xBCC4, 0x20, 0xC131, 0xACFC, 0x20, 0xBCF4,
                  0xACE0, 0xC11C, 0x20, 0xCD08, 0xC548, 0x20, 0xC791, 0xC131],
       cp_category = Some [0xBB38, 0xC11C], cp_completedAt = [0xC624, 0xD6C4, 0x20, 0x34, 0x3A, 0x33, 0x30],
       cp_date = ''2024-05-24''\<rparr>,
      \<lparr>cp_taskId = Num_id 102,
       cp_title = [0xB514, 0xC790, 0xC778, 0x20, 0xC2DC, 0xC2A4, 0xD15C, 0x20, 0xCEEC, 0xB7EC,
                  0x20, 0xD1A0, 0xD070, 0x20, 0xAC80, 0xD1A0, 0x20, 0xBC0F, 0x20, 0xC5C5,
                  0xB370, 0xC774, 0xD2B8],
       cp_category = Some [0xB514, 0xC790, 0xC778], cp_completedAt = [0xC624, 0xD6C4, 0x20, 0x32, 0x3A, 0x31, 0x35],
       cp_date = ''2024-05-24''\<rparr>,
      \<lparr>cp_taskId = Num_id 103,
       cp_title = [0xD300, 0x20, 0xC8FC, 0xAC04, 0x20, 0xC2A4, 0xD0E0, 0xB4DC, 0xC5C5, 0x20,
                  0xD68C, 0xC758, 0x20, 0xCC38, 0xC11D],
       cp_category = Some [0xD68C, 0xC758], cp_completedAt = [0xC624, 0xC804, 0x20, 0x31, 0x30, 0x3A, 0x30, 0x30],
       cp_date = ''2024-05-23''\<rparr>,
      \<lparr>cp_taskId = Num_id 104,
       cp_title = [0xC11C, 0xBC84, 0x20, 0xC0AC, 0xC774, 0xB4DC, 0x20, 0xB80C, 0xB354, 0xB9C1,
                  0x20, 0xCD5C, 0xC801, 0xD654, 0x20, 0xB9AC, 0xC11C, 0xCE58],
       cp_category = Some [0xAC1C, 0xBC1C], cp_completedAt = [0xC624, 0xC804, 0x20, 0x30, 0x39, 0x3A, 0x34, 0x35],
       cp_date = ''2024-05-23''\<rparr>,
      \<lparr>cp_taskId = Num_id 105,
       cp_title = [0xC2E0, 0xADDC, 0x20, 0xC628, 0xBCF4, 0xB529, 0x20, 0xD504, 0xB85C, 0xC138,
                  0xC2A4, 0x20, 0xAC00, 0xC774, 0xB4DC, 0x20, 0xC815, 0xB9AC],
       cp_category = Some [0xC778, 0xC0AC], cp_completedAt = [0xC624, 0xC804, 0x20, 0x30, 0x39, 0x3A, 0x31, 0x32],
       cp_date = ''2024-05-23''\<rparr>]"

definition seed_notifications :: "int \<Rightarrow> mock_notification list" where
  "seed_notifications epoch =
     [\<lparr>n_id = ''n-1'', n_task_id = Num_id 2, n_type = N_OVERDUE_1DAY, n_overdue_days = 1,
       n_message = [0xB9C8, 0xCF00, 0xD305, 0x20, 0xCEA0, 0xD398, 0xC778, 0x20, 0xC2DC, 0xC548,
                   0x20, 0xB9AC, 0xBDF0, 0xAC00, 0x20, 0xD558, 0xB8E8, 0x20, 0xBBF8, 0xB904,
                   0xC84C, 0xC2B5, 0xB2C8, 0xB2E4, 0x2E],
       n_is_read = False, n_is_dismissed = False, n_action_taken = NONE,
       n_created_at = inDays epoch 0, n_read_at = None\<rparr>,
      \<lparr>n_id = ''n-2'', n_task_id = Num_id 3, n_type = N_OVERDUE_2DAY, n_overdue_days = 2,
       n_message = [0xAC1C, 0xC778, 0x20, 0xC0AC, 0xC774, 0xB4DC, 0x20, 0xD504, 0xB85C, 0xC81D,
                   0xD2B8, 0x20, 0xCF54, 0xB4DC, 0x20, 0xD074, 0xB9B0, 0xC5C5, 0xC774, 0x20,
                   0xC774, 0xD2C0, 0x20, 0xC9C0, 0xB0AC, 0xC2B5, 0xB2C8, 0xB2E4, 0x2E],
       n_is_read = False, n_is_dismissed = False, n_action_taken = NONE,
       n_created_at = inDays epoch 0, n_read_at = None\<rparr>,
      \<lparr>n_id = ''n-3'', n_task_id = Num_id 4, n_type = N_DELETE_CONFIRM, n_overdue_days = 4,
       n_message = [0xC815, 0xAE30, 0x20, 0xAD6C, 0xB3C5, 0x20, 0xC11C, 0xBE44, 0xC2A4, 0x20,
                   0xACB0, 0xC81C, 0x20, 0xC218, 0xB2E8, 0x20, 0xAC31, 0xC2E0, 0xC744, 0x20,
                   0xD22C, 0xB450, 0xB9AC, 0xC2A4, 0xD2B8, 0xC5D0, 0xC11C, 0x20, 0xC5C6, 0xC568,
                   0xAE4C, 0xC694, 0x3F],
       n_is_read = False, n_is_dismissed = False, n_action_taken = NONE,
       n_created_at = inDays epoch 0, n_read_at = None\<rparr>]"
definition mock_initial :: "int \<Rightarrow> mock_state" where
  "mock_initial epoch =
     \<lparr>m_epoch = epoch, m_tasks = seed_tasks epoch, m_notifications = seed_notifications epoch,
      m_nextId = 1000, m_available = JNum (6 * 3600), m_refunds = [],
      m_weights = \<lparr>w1 = 72 / 100, w2 = 17 / 100, w3 = 11 / 100\<rparr>\<rparr>"

subsection \<open>Helpers\<close>

fun ENERGY_RANK :: "energy \<Rightarrow> nat" where
  "ENERGY_RANK LOW = 1"
| "ENERGY_RANK MEDIUM = 2"
| "ENERGY_RANK HIGH = 3"

fun clone_num :: "js_value_num option \<Rightarrow> js_value_num option" where
  "clone_num (Some JNaN) = None"
| "clone_num x = x"

definition clone :: "task_response \<Rightarrow> task_response" where
  "clone t = t\<lparr>tr_estimatedMinutes := clone_num (tr_estimatedMinutes t),
               tr_estimatedDuration := clone_num (tr_estimatedDuration t)\<rparr>"

text \<open>\<open>t.estimatedMinutes || 0\<close>: missing and \<open>NaN\<close> are falsy.\<close>

definition minutes_or_0 :: "js_value_num option \<Rightarrow> js_value_num" where
  "minutes_or_0 m = (case m of Some (JNum x) \<Rightarrow> JNum x | _ \<Rightarrow> JNum 0)"

definition estSecondsOf :: "task_response \<Rightarrow> js_value_num" where
  "estSecondsOf t =
     (case tr_estimatedDuration t of
        Some d \<Rightarrow> d
      | None \<Rightarrow> jn_mult (minutes_or_0 (tr_estimatedMinutes t)) (JNum 60))"

definition pending_tasks :: "mock_state \<Rightarrow> task_response list" where
  "pending_tasks m = filter (\<lambda>t. tr_status t = S_PENDING) (m_tasks m)"

definition allocatedSeconds :: "mock_state \<Rightarrow> js_value_num" where
  "allocatedSeconds m = jn_sum (map estSecondsOf (pending_tasks m))"

text \<open>
  \<open>new Date(deadline)\<close> as a number for the comparator; \<open>null\<close> is the epoch.  (With an unreadable
  date the comparator yields \<open>NaN\<close> and the order is up to the engine; such a task is put at 0.)
\<close>

definition deadline_key :: "task_response \<Rightarrow> int" where
  "deadline_key t = (case tr_deadline t of Some (At d) \<Rightarrow> d | _ \<Rightarrow> 0)"

definition jn_le :: "js_value_num \<Rightarrow> js_value_num \<Rightarrow> bool" where
  "jn_le a b \<longleftrightarrow> (case (a, b) of (JNum x, JNum y) \<Rightarrow> x \<le> y | _ \<Rightarrow> False)"

text \<open>A missing value in a numeric comparison: \<open>null\<close> counts as 0.\<close>

definition as_number :: "js_value_num option \<Rightarrow> js_value_num" where
  "as_number x = (case x of None \<Rightarrow> JNum 0 | Some v \<Rightarrow> v)"

subsection \<open>Tasks\<close>

definition mock_getTasks :: "mock_state \<Rightarrow> energy option \<Rightarrow> js_value_num \<Rightarrow> task_response list" where
  "mock_getTasks m en mins =
     (let cap = (case en of None \<Rightarrow> 3 | Some e \<Rightarrow> ENERGY_RANK e) in
      map clone (sort_key deadline_key
        (filter (\<lambda>t. tr_status t = S_PENDING \<and> ENERGY_RANK (tr_requiredEnergy t) \<le> cap
                     \<and> jn_le (as_number (tr_estimatedMinutes t)) mins) (m_tasks m))))"

definition mock_getAllPending :: "mock_state \<Rightarrow> task_response list" where
  "mock_getAllPending m = map clone (pending_tasks m)"

record new_task =
  nt_title :: ustring
  nt_description :: "ustring option"
  nt_estimatedMinutes :: "js_num option"
  nt_estimated_duration :: "js_num option"
  nt_deadline :: "js_date option"
  nt_requiredEnergy :: "energy option"
  nt_importance :: "int option"
  nt_isPriority :: "bool option"
  nt_category :: "ustring option"

definition default_category :: ustring where
  "default_category = [0xC5C5, 0xBB34]"

definition mock_createTask :: "mock_state \<Rightarrow> int \<Rightarrow> new_task \<Rightarrow> mock_state \<times> task_response" where
  "mock_createTask m now d =
     (let created =
        \<lparr>tr_taskId = Num_id (m_nextId m + 1), tr_title = nt_title d,
         tr_description = Some (or_default (nt_description d) []),
         tr_estimatedMinutes = Some (JNum (or_default (nt_estimatedMinutes d) 30)), tr_estimatedDuration = None,
         tr_deadline = Some (or_default (nt_deadline d) (At (inDays (m_epoch m) 3))),
         tr_requiredEnergy = or_default (nt_requiredEnergy d) MEDIUM,
         tr_importance = or_default (nt_importance d) 3, tr_status = S_PENDING, tr_delayCount = 0,
         tr_createdAt = At now, tr_category = Some (or_default (nt_category d) default_category),
         tr_isPriority = None, tr_scheduledTime = None, tr_delayedFrom = None\<rparr>
      in (m\<lparr>m_nextId := m_nextId m + 1, m_tasks := m_tasks m @ [created]\<rparr>, clone created))"

datatype mock_action =
    MA_COMPLETE | MA_FINISH | MA_ARCHIVE | MA_RESTORE | MA_SNOOZE | MA_START | MA_PAUSE | MA_RESUME | MA_other string

fun mock_effect :: "mock_action \<Rightarrow> task_response \<Rightarrow> task_response" where
  "mock_effect MA_COMPLETE t = t\<lparr>tr_status := S_COMPLETED\<rparr>"
| "mock_effect MA_FINISH t = t\<lparr>tr_status := S_COMPLETED\<rparr>"
| "mock_effect MA_ARCHIVE t = t\<lparr>tr_status := S_ARCHIVED\<rparr>"
| "mock_effect MA_RESTORE t = t\<lparr>tr_status := S_PENDING\<rparr>"
| "mock_effect MA_SNOOZE t = t\<lparr>tr_delayCount := tr_delayCount t + 1\<rparr>"
| "mock_effect _ t = t"

fun mock_display :: "mock_action \<Rightarrow> raw_status option" where
  "mock_display MA_START = Some S_ACTIVE"
| "mock_display MA_PAUSE = Some S_PAUSED"
| "mock_display MA_RESUME = Some S_ACTIVE"
| "mock_display MA_FINISH = Some S_COMPLETED"
| "mock_display _ = None"

text \<open>Here ids are compared as strings.\<close>

definition mock_updateTaskStatus :: "mock_state \<Rightarrow> js_id \<Rightarrow> mock_action \<Rightarrow> mock_state \<times> raw_status option" where
  "mock_updateTaskStatus m tid act =
     (m\<lparr>m_tasks := update_where (\<lambda>t. prop_key (tr_taskId t) = prop_key tid) (mock_effect act) (m_tasks m)\<rparr>,
      mock_display act)"

definition mock_getZombieTasks :: "mock_state \<Rightarrow> task_response list \<times> bool" where
  "mock_getZombieTasks m =
     (map clone (filter (\<lambda>t. tr_status t = S_PENDING \<and> tr_delayCount t \<ge> 5) (m_tasks m)), False)"

definition mock_getCompletedTasks :: "mock_state \<Rightarrow> completed_view list" where
  "mock_getCompletedTasks m = COMPLETED"

definition mock_getArchivedTasks :: "mock_state \<Rightarrow> task_response list" where
  "mock_getArchivedTasks m = map clone (filter (\<lambda>t. tr_status t = S_ARCHIVED) (m_tasks m))"

text \<open>In the following operations ids are compared with \<open>===\<close>, so \<open>'1'\<close> is not \<open>1\<close>.\<close>

definition mock_deleteTask :: "mock_state \<Rightarrow> js_id \<Rightarrow> mock_state" where
  "mock_deleteTask m tid = m\<lparr>m_tasks := filter (\<lambda>t. tr_taskId t \<noteq> tid) (m_tasks m)\<rparr>"

definition mock_recreateTask :: "mock_state \<Rightarrow> task_response \<Rightarrow> mock_state \<times> task_response" where
  "mock_recreateTask m task =
     (if \<exists>t \<in> set (m_tasks m). tr_taskId t = tr_taskId task then m
      else m\<lparr>m_tasks := m_tasks m @ [task]\<rparr>, clone task)"

subsection \<open>Notifications\<close>

text \<open>
  A page is full when it has \<open>limit\<close> entries; the cursor is the time of its last one.  (With a limit
  of 0 the code would read past the end and throw; no caller passes 0.)
\<close>

record notification_page =
  pg_notifications :: "mock_notification list"
  pg_unreadCount :: nat
  pg_nextCursor :: "int option"

definition newest_first :: "mock_notification list \<Rightarrow> mock_notification list" where
  "newest_first ns = sort_key (\<lambda>n. - n_created_at n) ns"

definition mock_getNotifications :: "mock_state \<Rightarrow> bool \<Rightarrow> int option \<Rightarrow> nat \<Rightarrow> notification_page" where
  "mock_getNotifications m unreadOnly cursor limit =
     (let all_ns = newest_first (filter (\<lambda>n. \<not> n_is_dismissed n \<and> (\<not> unreadOnly \<or> \<not> n_is_read n)) (m_notifications m));
          start_ns = (case cursor of None \<Rightarrow> all_ns | Some c \<Rightarrow> filter (\<lambda>n. n_created_at n < c) all_ns);
          page = take limit start_ns;
          unreadCount = length (filter (\<lambda>n. \<not> n_is_dismissed n \<and> \<not> n_is_read n) (m_notifications m));
          nextCursor = (if length page = limit \<and> length page < length start_ns \<and> page \<noteq> []
                        then Some (n_created_at (last page)) else None)
      in \<lparr>pg_notifications = page, pg_unreadCount = unreadCount, pg_nextCursor = nextCursor\<rparr>)"

definition mock_markNotificationRead :: "mock_state \<Rightarrow> int \<Rightarrow> string \<Rightarrow> mock_state" where
  "mock_markNotificationRead m now nid =
     m\<lparr>m_notifications := update_where (\<lambda>n. n_id n = nid)
         (\<lambda>n. n\<lparr>n_is_read := True, n_read_at := Some now\<rparr>) (m_notifications m)\<rparr>"

definition mock_dismissNotification :: "mock_state \<Rightarrow> string \<Rightarrow> mock_state" where
  "mock_dismissNotification m nid =
     m\<lparr>m_notifications := update_where (\<lambda>n. n_id n = nid) (\<lambda>n. n\<lparr>n_is_dismissed := True\<rparr>) (m_notifications m)\<rparr>"

definition mock_resolveDeleteConfirm :: "mock_state \<Rightarrow> js_id \<Rightarrow> bool \<Rightarrow> mock_state" where
  "mock_resolveDeleteConfirm m tid completes =
     m\<lparr>m_notifications := update_where (\<lambda>n. n_task_id n = tid \<and> \<not> n_is_dismissed n)
         (\<lambda>n. n\<lparr>n_is_dismissed := True, n_action_taken := (if completes then COMPLETED_ACTION else DELETED_ACTION)\<rparr>)
         (m_notifications m),
       m_tasks := update_where (\<lambda>t. tr_taskId t = tid)
         (\<lambda>t. t\<lparr>tr_status := (if completes then S_COMPLETED else S_ARCHIVED)\<rparr>) (m_tasks m)\<rparr>"

subsection \<open>The budget\<close>

record available_time =
  at_total :: js_value_num
  at_allocated :: js_value_num
  at_consumed :: js_value_num
  at_refunded :: js_value_num
  at_remaining :: js_value_num
  at_can_create_task :: bool
  at_breakdown :: "(js_id \<times> ustring \<times> js_value_num \<times> raw_status) list"

definition mock_getAvailableTime :: "mock_state \<Rightarrow> available_time" where
  "mock_getAvailableTime m =
     (let al = allocatedSeconds m;
          consumed = JNum 0;
          tot = m_available m;
          rem = jn_sub (jn_sub tot al) consumed
      in \<lparr>at_total = tot, at_allocated = al, at_consumed = consumed, at_refunded = jn_sum (m_refunds m),
          at_remaining = rem, at_can_create_task = jn_less (JNum 0) rem,
          at_breakdown = map (\<lambda>t. (tr_taskId t, tr_title t, estSecondsOf t, tr_status t)) (pending_tasks m)\<rparr>)"

definition is_open_priority_task :: "task_response \<Rightarrow> bool" where
  "is_open_priority_task t \<longleftrightarrow>
     (tr_isPriority t = Some True \<or> tr_importance t \<ge> 5) \<and> tr_status t \<noteq> S_COMPLETED \<and> tr_status t \<noteq> S_ARCHIVED"

definition insufficient_error :: "js_value_num \<Rightarrow> js_value_num \<Rightarrow> thrown" where
  "insufficient_error rem dur =
     From_mock \<lparr>err_code = Some ''INSUFFICIENT_AVAILABLE_TIME'', err_status = Some 409, resp_error = None,
                resp_code = None, resp_status = None\<rparr>
       (ae_message (Errors (InsufficientAvailableTime 0 0)))
       [(''remaining_seconds'', case rem of JNum x \<Rightarrow> P_num x | JNaN \<Rightarrow> P_null),
        (''requested_seconds'', case dur of JNum x \<Rightarrow> P_num x | JNaN \<Rightarrow> P_null)]"

definition priority_error :: thrown where
  "priority_error =
     From_mock \<lparr>err_code = Some ''PRIORITY_EXISTS'', err_status = Some 409, resp_error = None,
                resp_code = None, resp_status = None\<rparr>
       (ae_message (Errors (PriorityTaskExists 0 []))) []"

definition mock_createTaskWithBudget :: "mock_state \<Rightarrow> int \<Rightarrow> new_task \<Rightarrow> thrown + mock_state \<times> task_response" where
  "mock_createTaskWithBudget m now d =
     (let dur = jn_of (nt_estimated_duration d);
          rem = jn_sub (m_available m) (allocatedSeconds m)
      in if jn_less rem dur then Inl (insufficient_error rem dur)
         else if nt_isPriority d = Some True \<and> (\<exists>t \<in> set (m_tasks m). is_open_priority_task t)
         then Inl priority_error
         else
           (let created =
              \<lparr>tr_taskId = Num_id (m_nextId m + 1), tr_title = nt_title d,
               tr_description = Some (or_default (nt_description d) []),
               tr_estimatedMinutes = Some (jn_round (case dur of JNum x \<Rightarrow> JNum (x / 60) | JNaN \<Rightarrow> JNaN)),
               tr_estimatedDuration = Some dur,
               tr_deadline = Some (or_default (nt_deadline d) (At (inDays (m_epoch m) 3))),
               tr_requiredEnergy = or_default (nt_requiredEnergy d) MEDIUM,
               tr_importance = or_default (nt_importance d) 3, tr_status = S_PENDING, tr_delayCount = 0,
               tr_createdAt = At now, tr_category = Some (or_default (nt_category d) default_category),
               tr_isPriority = Some (nt_isPriority d = Some True), tr_scheduledTime = None, tr_delayedFrom = None\<rparr>
            in Inr (m\<lparr>m_nextId := m_nextId m + 1, m_tasks := created # m_tasks m\<rparr>, clone created)))"

definition mock_completeTaskWithRefund :: "mock_state \<Rightarrow> js_id \<Rightarrow> js_num \<Rightarrow> mock_state \<times> js_value_num" where
  "mock_completeTaskWithRefund m tid elapsed =
     (let estSec = (case List.find (\<lambda>t. tr_taskId t = tid) (m_tasks m) of
                      Some t \<Rightarrow> estSecondsOf t | None \<Rightarrow> JNum 0);
          refund = jn_max (JNum 0) (jn_sub estSec (JNum elapsed))
      in (m\<lparr>m_refunds := (if jn_less (JNum 0) refund then m_refunds m @ [refund] else m_refunds m),
            m_tasks := update_where (\<lambda>t. tr_taskId t = tid) (\<lambda>t. t\<lparr>tr_status := S_COMPLETED\<rparr>) (m_tasks m)\<rparr>,
          refund))"

definition mock_setAvailableTime :: "mock_state \<Rightarrow> js_num \<Rightarrow> thrown + mock_state \<times> js_value_num" where
  "mock_setAvailableTime m seconds =
     (let al = allocatedSeconds m in
      if jn_less (JNum seconds) al
      then Inl (From_mock \<lparr>err_code = Some ''AVAILABLE_BELOW_ALLOCATED'', err_status = Some 400, resp_error = None,
                            resp_code = None, resp_status = None\<rparr>
                 (ae_message (Errors (AvailableBelowAllocated 0)))
                 [(''allocated_seconds'', case al of JNum x \<Rightarrow> P_num x | JNaN \<Rightarrow> P_null)])
      else Inr (m\<lparr>m_available := JNum seconds\<rparr>, al))"

definition mock_getWeights :: "mock_state \<Rightarrow> weights" where
  "mock_getWeights m = m_weights m"

definition mock_resetWeights :: "mock_state \<Rightarrow> mock_state \<times> weights" where
  "mock_resetWeights m =
     (let w = \<lparr>w1 = 5 / 10, w2 = 3 / 10, w3 = 2 / 10\<rparr> in (m\<lparr>m_weights := w\<rparr>, w))"

subsection \<open>Operations as data\<close>

datatype mock_op =
    MO_create int new_task
  | MO_create_budget int new_task
  | MO_status js_id mock_action
  | MO_delete js_id
  | MO_recreate task_response
  | MO_read int string
  | MO_dismiss string
  | MO_resolve js_id bool
  | MO_complete js_id js_num
  | MO_set_available js_num
  | MO_reset_weights

fun mock_apply :: "mock_state \<Rightarrow> mock_op \<Rightarrow> mock_state" where
  "mock_apply m (MO_create now d) = fst (mock_createTask m now d)"
| "mock_apply m (MO_create_budget now d) =
     (case mock_createTaskWithBudget m now d of Inl e \<Rightarrow> m | Inr (m', t) \<Rightarrow> m')"
| "mock_apply m (MO_status tid act) = fst (mock_updateTaskStatus m tid act)"
| "mock_apply m (MO_delete tid) = mock_deleteTask m tid"
| "mock_apply m (MO_recreate t) = fst (mock_recreateTask m t)"
| "mock_apply m (MO_read now nid) = mock_markNotificationRead m now nid"
| "mock_apply m (MO_dismiss nid) = mock_dismissNotification m nid"
| "mock_apply m (MO_resolve tid c) = mock_resolveDeleteConfirm m tid c"
| "mock_apply m (MO_complete tid e) = fst (mock_completeTaskWithRefund m tid e)"
| "mock_apply m (MO_set_available x) = (case mock_setAvailableTime m x of Inl e \<Rightarrow> m | Inr (m', a) \<Rightarrow> m')"
| "mock_apply m MO_reset_weights = fst (mock_resetWeights m)"

text \<open>
  The operations that respect the budget: creation is the budgeted one and states a duration, and
  nothing completed, archived or deleted is made pending again.
\<close>

fun budgeted :: "mock_op \<Rightarrow> bool" where
  "budgeted (MO_create now d) \<longleftrightarrow> False"
| "budgeted (MO_recreate t) \<longleftrightarrow> False"
| "budgeted (MO_status tid act) \<longleftrightarrow> act \<noteq> MA_RESTORE"
| "budgeted (MO_create_budget now d) \<longleftrightarrow> (case nt_estimated_duration d of None \<Rightarrow> False | Some x \<Rightarrow> 0 \<le> x)"
| "budgeted _ \<longleftrightarrow> True"

subsection \<open>What is allocated\<close>

definition is_pending :: "task_response \<Rightarrow> bool" where
  "is_pending t \<longleftrightarrow> tr_status t = S_PENDING"

definition est_num :: "task_response \<Rightarrow> js_num" where
  "est_num t = (case estSecondsOf t of JNum x \<Rightarrow> x | JNaN \<Rightarrow> 0)"

definition numeric_task :: "task_response \<Rightarrow> bool" where
  "numeric_task t \<longleftrightarrow> (is_pending t \<longrightarrow> estSecondsOf t = JNum (est_num t) \<and> 0 \<le> est_num t)"

definition alloc_num :: "task_response list \<Rightarrow> js_num" where
  "alloc_num ts = sum_list (map est_num (filter is_pending ts))"

lemma alloc_num_simps [simp]:
  "alloc_num [] = 0" "alloc_num (t # ts) = (if is_pending t then est_num t else 0) + alloc_num ts"
  by (simp_all add: alloc_num_def)

lemma allocated_num: "\<forall>t \<in> set (m_tasks m). numeric_task t \<Longrightarrow> allocatedSeconds m = JNum (alloc_num (m_tasks m))"
proof -
  assume *: "\<forall>t \<in> set (m_tasks m). numeric_task t"
  have "map estSecondsOf (filter is_pending (m_tasks m)) = map JNum (map est_num (filter is_pending (m_tasks m)))"
    using * by (auto simp: numeric_task_def)
  then show ?thesis
    unfolding allocatedSeconds_def pending_tasks_def is_pending_def [symmetric] alloc_num_def
    by (simp only: jn_sum_nums)
qed

definition budget_ok :: "mock_state \<Rightarrow> bool" where
  "budget_ok m \<longleftrightarrow> (\<forall>t \<in> set (m_tasks m). numeric_task t)
     \<and> (\<exists>v. m_available m = JNum v \<and> alloc_num (m_tasks m) \<le> v)"

text \<open>A change of some tasks that makes nothing pending and keeps estimates frees time or none.\<close>

definition only_releases :: "(task_response \<Rightarrow> task_response) \<Rightarrow> bool" where
  "only_releases f \<longleftrightarrow> (\<forall>t. is_pending (f t) \<longrightarrow> is_pending t \<and> estSecondsOf (f t) = estSecondsOf t)"

lemma only_releases_est: "only_releases f \<Longrightarrow> is_pending (f t) \<Longrightarrow> est_num (f t) = est_num t"
  by (simp add: only_releases_def est_num_def)

lemma numeric_release: "only_releases f \<Longrightarrow> numeric_task t \<Longrightarrow> numeric_task (f t)"
  by (auto simp: numeric_task_def only_releases_def est_num_def)

lemma alloc_release:
  "only_releases f \<Longrightarrow> \<forall>t \<in> set ts. numeric_task t \<Longrightarrow> alloc_num (update_where P f ts) \<le> alloc_num ts"
proof (induction ts)
  case (Cons t ts)
  then have IH: "alloc_num (update_where P f ts) \<le> alloc_num ts" and t: "numeric_task t" by simp_all
  have "(if is_pending (f t) then est_num (f t) else 0) \<le> (if is_pending t then est_num t else 0)"
    using Cons.prems(1) t only_releases_est [OF Cons.prems(1), of t]
    by (auto simp: only_releases_def numeric_task_def)
  with IH show ?case by (auto simp: update_where_def split: if_splits)
qed (simp add: update_where_def)

lemma budget_ok_release:
  assumes "budget_ok m" "only_releases f"
    and "m_tasks m' = update_where P f (m_tasks m)" "m_available m' = m_available m"
  shows "budget_ok m'"
  using assms alloc_release [OF assms(2), of "m_tasks m" P] numeric_release [OF assms(2)]
  by (auto simp: budget_ok_def set_update_where)

lemma budget_ok_frame:
  "budget_ok m \<Longrightarrow> m_tasks m' = m_tasks m \<Longrightarrow> m_available m' = m_available m \<Longrightarrow> budget_ok m'"
  by (simp add: budget_ok_def)

lemma releases_effect: "act \<noteq> MA_RESTORE \<Longrightarrow> only_releases (mock_effect act)"
  by (cases act) (auto simp: only_releases_def is_pending_def estSecondsOf_def split: option.splits)

lemma releases_status: "s \<noteq> S_PENDING \<Longrightarrow> only_releases (\<lambda>t. t\<lparr>tr_status := s\<rparr>)"
  by (auto simp: only_releases_def is_pending_def estSecondsOf_def split: option.splits)

lemma alloc_filter: "\<forall>t \<in> set ts. numeric_task t \<Longrightarrow> alloc_num (filter P ts) \<le> alloc_num ts"
  by (induction ts) (auto simp: numeric_task_def)

lemma budget_ok_create:
  assumes ok: "budget_ok m" and d: "nt_estimated_duration d = Some x" "0 \<le> x"
    and c: "mock_createTaskWithBudget m now d = Inr (m', t)"
  shows "budget_ok m'"
proof -
  from ok obtain v where v: "m_available m = JNum v" "alloc_num (m_tasks m) \<le> v"
    and num: "\<forall>t \<in> set (m_tasks m). numeric_task t" by (auto simp: budget_ok_def)
  note al = allocated_num [OF num]
  from c d v(1) al have fits: "x \<le> v - alloc_num (m_tasks m)"
    by (auto simp: mock_createTaskWithBudget_def Let_def jn_of_def split: if_splits)
  from c obtain new where m': "m_tasks m' = new # m_tasks m" "m_available m' = m_available m"
    and new: "estSecondsOf new = JNum x" "is_pending new"
    using d by (auto simp: mock_createTaskWithBudget_def Let_def jn_of_def estSecondsOf_def is_pending_def split: if_splits)
  then show ?thesis
    using v num fits d(2) by (simp add: budget_ok_def numeric_task_def est_num_def)
qed

lemma budget_ok_status: "budget_ok m \<Longrightarrow> act \<noteq> MA_RESTORE \<Longrightarrow> budget_ok (fst (mock_updateTaskStatus m tid act))"
  by (rule budget_ok_release [OF _ releases_effect]) (simp_all add: mock_updateTaskStatus_def)

lemma budget_ok_delete: "budget_ok m \<Longrightarrow> budget_ok (mock_deleteTask m tid)"
  using alloc_filter [of "m_tasks m" "\<lambda>t. tr_taskId t \<noteq> tid"]
  by (fastforce simp: budget_ok_def mock_deleteTask_def)

lemma budget_ok_resolve: "budget_ok m \<Longrightarrow> budget_ok (mock_resolveDeleteConfirm m tid c)"
  by (rule budget_ok_release [OF _ releases_status [of "if c then S_COMPLETED else S_ARCHIVED"]])
     (simp_all add: mock_resolveDeleteConfirm_def)

lemma budget_ok_complete: "budget_ok m \<Longrightarrow> budget_ok (fst (mock_completeTaskWithRefund m tid e))"
  by (rule budget_ok_release [OF _ releases_status [of S_COMPLETED]])
     (simp_all add: mock_completeTaskWithRefund_def Let_def)

lemma budget_ok_set:
  assumes ok: "budget_ok m" and c: "mock_setAvailableTime m x = Inr (m', a)"
  shows "budget_ok m'"
proof -
  have "allocatedSeconds m = JNum (alloc_num (m_tasks m))"
    using ok by (intro allocated_num) (simp add: budget_ok_def)
  with ok c show ?thesis
    by (auto simp: mock_setAvailableTime_def Let_def budget_ok_def not_less split: if_splits)
qed

lemma budget_ok_apply: "budget_ok m \<Longrightarrow> budgeted op \<Longrightarrow> budget_ok (mock_apply m op)"
proof (induction m op rule: mock_apply.induct)
  case (2 m now d)
  then show ?case by (auto intro: budget_ok_create split: sum.splits option.splits)
next
  case (10 m x)
  then show ?case by (auto intro: budget_ok_set split: sum.splits)
qed (auto simp: budget_ok_status budget_ok_delete budget_ok_resolve budget_ok_complete
      mock_markNotificationRead_def mock_dismissNotification_def mock_resetWeights_def Let_def
      intro: budget_ok_frame)

lemma budget_ok_run: "budget_ok m \<Longrightarrow> \<forall>op \<in> set ops. budgeted op \<Longrightarrow> budget_ok (foldl mock_apply m ops)"
  by (induction ops arbitrary: m) (auto simp: budget_ok_apply)

lemma budget_ok_remaining:
  "budget_ok m \<Longrightarrow> \<exists>r. at_remaining (mock_getAvailableTime m) = JNum r \<and> 0 \<le> r"
  using allocated_num [of m] by (auto simp: budget_ok_def mock_getAvailableTime_def Let_def)

lemma initial_budget:
  "allocatedSeconds (mock_initial epoch) = JNum 23400"
  by (simp add: allocatedSeconds_def pending_tasks_def mock_initial_def seed_defs estSecondsOf_def
      minutes_or_0_def jn_sum_def)

text \<open>Completing a pending task releases its whole estimate.\<close>

lemma alloc_complete:
  assumes "distinct (map tr_taskId ts)" "t \<in> set ts" "is_pending t"
  shows "alloc_num (update_where (\<lambda>u. tr_taskId u = tr_taskId t) (\<lambda>u. u\<lparr>tr_status := S_COMPLETED\<rparr>) ts)
    = alloc_num ts - est_num t"
  using assms
proof (induction ts)
  case (Cons u ts)
  show ?case
  proof (cases "u = t")
    case True
    with Cons.prems have "tr_taskId t \<notin> tr_taskId ` set ts" by simp
    then have "\<forall>x \<in> set ts. tr_taskId x \<noteq> tr_taskId t" by (metis imageI)
    then have "update_where (\<lambda>u. tr_taskId u = tr_taskId t) (\<lambda>u. u\<lparr>tr_status := S_COMPLETED\<rparr>) ts = ts"
      by (rule update_where_none)
    with True Cons.prems show ?thesis by (simp add: update_where_def is_pending_def)
  next
    case False
    with Cons.prems have "t \<in> set ts" "tr_taskId u \<noteq> tr_taskId t" by auto
    with Cons show ?thesis by (simp add: update_where_def)
  qed
qed simp

subsection \<open>Properties\<close>

text \<open>
  The mock never overspends the day: from a state whose pending tasks fit into the available
  time, any sequence of budgeted operations, refused ones included, leaves a state in which they
  still fit, so the remaining time it reports is a number and not negative.
\<close>

theorem mock_budget_never_overspent:
  assumes "budget_ok m" and "\<forall>op \<in> set ops. budgeted op"
  shows "\<exists>r. at_remaining (mock_getAvailableTime (foldl mock_apply m ops)) = JNum r \<and> 0 \<le> r"
  using budget_ok_remaining [OF budget_ok_run [OF assms]] .

definition empty_mock :: mock_state where
  "empty_mock = (mock_initial 0)\<lparr>m_tasks := []\<rparr>"

definition sample_new :: "js_num option \<Rightarrow> new_task" where
  "sample_new dur = \<lparr>nt_title = [97], nt_description = None, nt_estimatedMinutes = None, nt_estimated_duration = dur,
     nt_deadline = None, nt_requiredEnergy = None, nt_importance = None, nt_isPriority = None, nt_category = None\<rparr>"

lemma mock_budget_never_overspent_witness:
  "\<exists>r. at_remaining (mock_getAvailableTime (foldl mock_apply empty_mock
      [MO_create_budget 0 (sample_new (Some 20000)), MO_create_budget 1 (sample_new (Some 3600)),
       MO_set_available 100, MO_complete (Num_id 1001) 50])) = JNum r \<and> 0 \<le> r"
proof (rule mock_budget_never_overspent)
  show "budget_ok empty_mock" by (simp add: budget_ok_def empty_mock_def mock_initial_def)
qed (simp add: sample_new_def)

text \<open>
  The mock starts overspent and refuses accordingly: its seed tasks take six and a half hours
  of six, so at the start nothing can be created within the budget, whatever its duration.
\<close>

theorem mock_starts_overspent:
  "at_remaining (mock_getAvailableTime (mock_initial epoch)) = JNum (- 1800)
   \<and> \<not> at_can_create_task (mock_getAvailableTime (mock_initial epoch))
   \<and> (case nt_estimated_duration d of
        Some x \<Rightarrow> (0 \<le> x) \<le> (mock_createTaskWithBudget (mock_initial epoch) now d
                     = Inl (insufficient_error (JNum (- 1800)) (JNum x)))
      | None \<Rightarrow> True)"
proof -
  have "m_available (mock_initial epoch) = JNum 21600" by (simp add: mock_initial_def)
  then show ?thesis
    by (auto simp: mock_getAvailableTime_def Let_def initial_budget mock_createTaskWithBudget_def jn_of_def
        split: option.splits)
qed

text \<open>
  A task without a duration switches the budget off: it is accepted whatever is left, and from
  then on every creation without priority and every setting of the available time is accepted.
\<close>

theorem missing_duration_disables_budget:
  assumes "nt_estimated_duration d = None" and "nt_isPriority d \<noteq> Some True"
  shows "\<exists>m' t. mock_createTaskWithBudget m now d = Inr (m', t)
     \<and> at_remaining (mock_getAvailableTime m') = JNaN
     \<and> (\<forall>now' d'. nt_isPriority d' \<noteq> Some True \<longrightarrow> (\<exists>x. mock_createTaskWithBudget m' now' d' = Inr x))
     \<and> (\<forall>secs. \<exists>x. mock_setAvailableTime m' secs = Inr x)"
proof -
  obtain m' t where c: "mock_createTaskWithBudget m now d = Inr (m', t)"
    and m': "JNaN \<in> estSecondsOf ` set (pending_tasks m')"
    using assms
    by (force simp: mock_createTaskWithBudget_def jn_of_def Let_def pending_tasks_def estSecondsOf_def)
  from m' have al: "allocatedSeconds m' = JNaN"
    unfolding allocatedSeconds_def by (intro jn_sum_NaN) auto
  then have "at_remaining (mock_getAvailableTime m') = JNaN"
    by (simp add: mock_getAvailableTime_def Let_def)
  moreover have "\<exists>x. mock_createTaskWithBudget m' now' d' = Inr x" if "nt_isPriority d' \<noteq> Some True" for now' d'
    using that by (simp add: mock_createTaskWithBudget_def Let_def al)
  moreover have "\<exists>x. mock_setAvailableTime m' secs = Inr x" for secs
    by (simp add: mock_setAvailableTime_def Let_def al)
  ultimately show ?thesis using c by blast
qed

lemma missing_duration_disables_budget_witness:
  "\<exists>m' t. mock_createTaskWithBudget (mock_initial 0) 5 (sample_new None) = Inr (m', t)
     \<and> at_remaining (mock_getAvailableTime m') = JNaN"
  using missing_duration_disables_budget [of "sample_new None" "mock_initial 0" 5]
  by (auto simp: sample_new_def)

text \<open>
  The mock and the counters of the page drift apart by the time worked: completing a pending
  task in the mock gives its whole estimate back, while the page, told the refund the mock returns,
  gains the estimate minus the time worked.
\<close>

theorem mock_forgets_time_worked:
  assumes "\<forall>t \<in> set (m_tasks m). numeric_task t" and "distinct (map tr_taskId (m_tasks m))"
    and "m_available m = JNum v" and "t \<in> set (m_tasks m)" and "is_pending t" and "0 \<le> el" and "el \<le> est_num t"
    and "mock_completeTaskWithRefund m (tr_taskId t) el = (m', refund)"
  shows "\<exists>r r'. at_remaining (mock_getAvailableTime m) = JNum r \<and> at_remaining (mock_getAvailableTime m') = JNum r'
    \<and> refund = JNum (est_num t - el)
    \<and> r' - r = (computeRemaining (onEarlyCompletion av (est_num t - el)) - computeRemaining av) + el"
proof -
  have f: "List.find (\<lambda>u. tr_taskId u = tr_taskId t) (m_tasks m) = Some t"
    using assms(2,4) by (rule find_distinct_key)
  have e: "estSecondsOf t = JNum (est_num t)" using assms(1,4,5) by (auto simp: numeric_task_def)
  from assms(8) f e assms(7)
  have refund: "refund = JNum (est_num t - el)"
    and m': "m_tasks m' = update_where (\<lambda>u. tr_taskId u = tr_taskId t) (\<lambda>u. u\<lparr>tr_status := S_COMPLETED\<rparr>) (m_tasks m)"
      "m_available m' = m_available m"
    by (auto simp: mock_completeTaskWithRefund_def Let_def)
  have "\<forall>u \<in> set (m_tasks m'). numeric_task u"
    using assms(1) numeric_release [OF releases_status [of S_COMPLETED]]
    by (auto simp: m' set_update_where)
  then have "allocatedSeconds m' = JNum (alloc_num (m_tasks m) - est_num t)"
    using alloc_complete [OF assms(2,4,5)] by (simp add: allocated_num m')
  then show ?thesis
    using assms(3,7) allocated_num [OF assms(1)] m' refund
    by (simp add: mock_getAvailableTime_def Let_def avail_defs)
qed

end
