(* ===== verification/Json.thy ===== *)
theory Json
  imports Js_Values
begin

text \<open>
  \<open>JSON.stringify\<close> and \<open>JSON.parse\<close> of the language, as \<open>frontend/src/lib/ipcProtocol.js\<close> and
  \<open>frontend/src/lib/storage.js\<close> use them.  Text is a list of UTF-16 code units.  A number is
  carried as its literal, so fractions are not rounded; an object is the list of its members in
  order.  The parser works on fuel, the length of the text; \<open>parse_stringify\<close> shows that this is
  enough for everything the printer writes.
\<close>

datatype json =
    J_null
  | J_bool bool
  | J_num ustring
  | J_str ustring
  | J_arr "json list"
  | J_obj "(ustring \<times> json) list"

subsection \<open>Numbers\<close>

definition is_digit :: "nat \<Rightarrow> bool" where
  "is_digit c \<longleftrightarrow> 48 \<le> c \<and> c \<le> 57"

definition number_char :: "nat \<Rightarrow> bool" where
  "number_char c \<longleftrightarrow> is_digit c \<or> c = 43 \<or> c = 45 \<or> c = 46 \<or> c = 69 \<or> c = 101"

fun exponent_ok :: "ustring \<Rightarrow> bool" where
  "exponent_ok [] \<longleftrightarrow> True"
| "exponent_ok (c # cs) \<longleftrightarrow>
     (c = 101 \<or> c = 69)
     \<and> (let ds = (case cs of [] \<Rightarrow> [] | s # r \<Rightarrow> if s = 43 \<or> s = 45 then r else cs)
        in ds \<noteq> [] \<and> list_all is_digit ds)"

fun fraction_ok :: "ustring \<Rightarrow> bool" where
  "fraction_ok [] \<longleftrightarrow> True"
| "fraction_ok (c # cs) \<longleftrightarrow>
     (if c = 46
      then takeWhile is_digit cs \<noteq> [] \<and> exponent_ok (dropWhile is_digit cs)
      else exponent_ok (c # cs))"

text \<open>\<open>-? (0 | [1-9][0-9]*) (. digits)? ([eE][+-]? digits)?\<close>\<close>

definition unsigned_ok :: "ustring \<Rightarrow> bool" where
  "unsigned_ok s \<longleftrightarrow>
     (let ds = takeWhile is_digit s
      in ds \<noteq> [] \<and> (hd ds = 48 \<longrightarrow> length ds = 1) \<and> fraction_ok (dropWhile is_digit s))"

definition number_ok :: "ustring \<Rightarrow> bool" where
  "number_ok s \<longleftrightarrow> list_all number_char s \<and> (case s of [] \<Rightarrow> False | c # cs \<Rightarrow> unsigned_ok (if c = 45 then cs else s))"

subsection \<open>Strings\<close>

definition hex_digit :: "nat \<Rightarrow> nat" where
  "hex_digit d = (if d < 10 then 48 + d else 87 + d)"

definition hex_value :: "nat \<Rightarrow> nat option" where
  "hex_value c =
     (if 48 \<le> c \<and> c \<le> 57 then Some (c - 48)
      else if 97 \<le> c \<and> c \<le> 102 then Some (c - 87)
      else if 65 \<le> c \<and> c \<le> 70 then Some (c - 55)
      else None)"

definition hex4 :: "nat \<Rightarrow> ustring" where
  "hex4 n = [hex_digit (n div 4096 mod 16), hex_digit (n div 256 mod 16), hex_digit (n div 16 mod 16), hex_digit (n mod 16)]"

definition read_hex4 :: "nat \<Rightarrow> nat \<Rightarrow> nat \<Rightarrow> nat \<Rightarrow> nat option" where
  "read_hex4 a b c d =
     (case (hex_value a, hex_value b, hex_value c, hex_value d) of
        (Some w, Some x, Some y, Some z) \<Rightarrow> Some (w * 4096 + x * 256 + y * 16 + z)
      | _ \<Rightarrow> None)"

definition is_high :: "nat \<Rightarrow> bool" where
  "is_high c \<longleftrightarrow> 0xD800 \<le> c \<and> c \<le> 0xDBFF"

definition is_low :: "nat \<Rightarrow> bool" where
  "is_low c \<longleftrightarrow> 0xDC00 \<le> c \<and> c \<le> 0xDFFF"

text \<open>\<open>QuoteJSONString\<close>, one code unit; a surrogate that is alone is escaped.\<close>

definition quote_unit :: "nat \<Rightarrow> ustring" where
  "quote_unit c =
     (if c = 8 then [92, 98] else if c = 9 then [92, 116] else if c = 10 then [92, 110]
      else if c = 12 then [92, 102] else if c = 13 then [92, 114]
      else if c = 34 then [92, 34] else if c = 92 then [92, 92]
      else if c < 32 \<or> is_high c \<or> is_low c then [92, 117] @ hex4 c
      else [c])"

fun quote_units :: "ustring \<Rightarrow> ustring" where
  "quote_units [] = []"
| "quote_units [c] = quote_unit c"
| "quote_units (c # d # cs) =
     (if is_high c \<and> is_low d then c # d # quote_units cs else quote_unit c @ quote_units (d # cs))"

definition quote_string :: "ustring \<Rightarrow> ustring" where
  "quote_string s = 34 # quote_units s @ [34]"

definition unescape :: "nat \<Rightarrow> nat option" where
  "unescape c =
     (if c = 34 \<or> c = 92 \<or> c = 47 then Some c
      else if c = 98 then Some 8 else if c = 102 then Some 12 else if c = 110 then Some 10
      else if c = 114 then Some 13 else if c = 116 then Some 9 else None)"

text \<open>After the opening quote: the string and what follows the closing quote.\<close>

fun parse_str :: "ustring \<Rightarrow> (ustring \<times> ustring) option" where
  "parse_str [] = None"
| "parse_str (c # cs) =
     (if c = 34 then Some ([], cs)
      else if c < 32 then None
      else if c \<noteq> 92 then map_option (\<lambda>(s, r). (c # s, r)) (parse_str cs)
      else
        (case cs of
           [] \<Rightarrow> None
         | e # es \<Rightarrow>
             if e = 117
             then (case es of
                     h1 # h2 # h3 # h4 # r \<Rightarrow>
                       (case read_hex4 h1 h2 h3 h4 of
                          None \<Rightarrow> None | Some n \<Rightarrow> map_option (\<lambda>(s, r'). (n # s, r')) (parse_str r))
                   | _ \<Rightarrow> None)
             else (case unescape e of None \<Rightarrow> None | Some n \<Rightarrow> map_option (\<lambda>(s, r). (n # s, r)) (parse_str es))))"

subsection \<open>Printing\<close>

fun join_with :: "ustring \<Rightarrow> ustring list \<Rightarrow> ustring" where
  "join_with sep [] = []"
| "join_with sep [x] = x"
| "join_with sep (x # y # ys) = x @ sep @ join_with sep (y # ys)"

fun stringify :: "json \<Rightarrow> ustring" where
  "stringify J_null = ascii ''null''"
| "stringify (J_bool b) = ascii (if b then ''true'' else ''false'')"
| "stringify (J_num n) = n"
| "stringify (J_str s) = quote_string s"
| "stringify (J_arr vs) = 91 # join_with [44] (map stringify vs) @ [93]"
| "stringify (J_obj ms) = 123 # join_with [44] (map (\<lambda>(k, v). quote_string k @ 58 # stringify v) ms) @ [125]"

subsection \<open>Parsing\<close>

definition is_space :: "nat \<Rightarrow> bool" where
  "is_space c \<longleftrightarrow> c = 32 \<or> c = 9 \<or> c = 10 \<or> c = 13"

definition skip :: "ustring \<Rightarrow> ustring" where
  "skip s = dropWhile is_space s"

definition parse_number :: "ustring \<Rightarrow> (json \<times> ustring) option" where
  "parse_number s =
     (let lit = takeWhile number_char s
      in if number_ok lit then Some (J_num lit, dropWhile number_char s) else None)"

definition parse_word :: "ustring \<Rightarrow> (json \<times> ustring) option" where
  "parse_word s =
     (if take 4 s = ascii ''null'' then Some (J_null, drop 4 s)
      else if take 4 s = ascii ''true'' then Some (J_bool True, drop 4 s)
      else if take 5 s = ascii ''false'' then Some (J_bool False, drop 5 s)
      else parse_number s)"

text \<open>A repeated key keeps its place and takes the last value.\<close>

definition build_object :: "(ustring \<times> json) list \<Rightarrow> json" where
  "build_object ms = J_obj (foldl (\<lambda>acc (k, v). store k v acc) [] ms)"

fun parse_value :: "nat \<Rightarrow> ustring \<Rightarrow> (json \<times> ustring) option"
  and parse_elems :: "nat \<Rightarrow> ustring \<Rightarrow> (json list \<times> ustring) option"
  and parse_members :: "nat \<Rightarrow> ustring \<Rightarrow> ((ustring \<times> json) list \<times> ustring) option" where
  "parse_value 0 s = None"
| "parse_value (Suc n) s =
     (case skip s of
        [] \<Rightarrow> None
      | c # cs \<Rightarrow>
          if c = 34 then map_option (\<lambda>(t, r). (J_str t, r)) (parse_str cs)
          else if c = 91
          then (case skip cs of
                  [] \<Rightarrow> None
                | d # r \<Rightarrow> if d = 93 then Some (J_arr [], r)
                           else map_option (\<lambda>(vs, r'). (J_arr vs, r')) (parse_elems n cs))
          else if c = 123
          then (case skip cs of
                  [] \<Rightarrow> None
                | d # r \<Rightarrow> if d = 125 then Some (J_obj [], r)
                           else map_option (\<lambda>(ms, r'). (build_object ms, r')) (parse_members n cs))
          else parse_word (c # cs))"
| "parse_elems 0 s = None"
| "parse_elems (Suc n) s =
     (case parse_value n s of
        None \<Rightarrow> None
      | Some (v, r) \<Rightarrow>
          (case skip r of
             [] \<Rightarrow> None
           | c # cs \<Rightarrow>
               if c = 44 then map_option (\<lambda>(vs, r'). (v # vs, r')) (parse_elems n cs)
               else if c = 93 then Some ([v], cs) else None))"
| "parse_members 0 s = None"
| "parse_members (Suc n) s =
     (case skip s of
        [] \<Rightarrow> None
      | q # qs \<Rightarrow>
          if q \<noteq> 34 then None
          else (case parse_str qs of
                  None \<Rightarrow> None
                | Some (k, r) \<Rightarrow>
                    (case skip r of
                       [] \<Rightarrow> None
                     | co # vs \<Rightarrow>
                         if co \<noteq> 58 then None
                         else (case parse_value n vs of
                                 None \<Rightarrow> None
                               | Some (v, r2) \<Rightarrow>
                                   (case skip r2 of
                                      [] \<Rightarrow> None
                                    | c # cs \<Rightarrow>
                                        if c = 44 then map_option (\<lambda>(ms, r'). ((k, v) # ms, r')) (parse_members n cs)
                                        else if c = 125 then Some ([(k, v)], cs) else None)))))"

text \<open>\<open>JSON.parse\<close>: one value and nothing but blanks after it; \<open>None\<close> is a \<open>SyntaxError\<close>.\<close>

definition parse_json :: "ustring \<Rightarrow> json option" where
  "parse_json s =
     (case parse_value (Suc (length s)) s of
        Some (v, r) \<Rightarrow> if skip r = [] then Some v else None
      | None \<Rightarrow> None)"

subsection \<open>Round trip\<close>

lemma hex_value_digit [simp]: "d < 16 \<Longrightarrow> hex_value (hex_digit d) = Some d"
  by (auto simp: hex_value_def hex_digit_def)

lemma read_hex4_hex4: "n < 65536 \<Longrightarrow> hex4 n = [a, b, c, d] \<Longrightarrow> read_hex4 a b c d = Some n"
proof -
  assume n: "n < 65536" and h: "hex4 n = [a, b, c, d]"
  have a: "n div 4096 < 16" using n by (simp add: div_less_iff_less_mult)
  have step: "16 * (m div 16) + m mod 16 = m" for m :: nat by simp
  have "n div 16 div 16 = n div 256" "n div 256 div 16 = n div 4096"
    by (simp_all add: div_mult2_eq [symmetric])
  with step [of n] step [of "n div 16"] step [of "n div 256"] a
  have eq: "(n div 4096) * 4096 + (n div 256 mod 16) * 256 + (n div 16 mod 16) * 16 + n mod 16 = n"
    by linarith
  from h have "a = hex_digit (n div 4096)" "b = hex_digit (n div 256 mod 16)" "c = hex_digit (n div 16 mod 16)"
    "d = hex_digit (n mod 16)"
    using a by (simp_all add: hex4_def)
  with eq a show ?thesis by (simp add: read_hex4_def)
qed

definition units_ok :: "ustring \<Rightarrow> bool" where
  "units_ok s \<longleftrightarrow> (\<forall>c \<in> set s. c < 65536)"

lemma parse_quote_unit:
  assumes "c < 65536"
  shows "parse_str (quote_unit c @ rest) = map_option (\<lambda>(s, r). (c # s, r)) (parse_str rest)"
proof (cases "c \<in> {8, 9, 10, 12, 13, 34, 92}")
  case True
  then show ?thesis by (auto simp: quote_unit_def unescape_def)
next
  case False
  obtain h1 h2 h3 h4 where h: "hex4 c = [h1, h2, h3, h4]" by (simp add: hex4_def)
  from False show ?thesis
    using read_hex4_hex4 [OF assms h] by (auto simp: quote_unit_def h split: option.splits)
qed

lemma parse_quote_units: "units_ok s \<Longrightarrow> parse_str (quote_units s @ 34 # rest) = Some (s, rest)"
  by (induction s rule: quote_units.induct)
     (auto simp: units_ok_def parse_quote_unit is_high_def is_low_def)

fun json_ok :: "json \<Rightarrow> bool" where
  "json_ok (J_num n) \<longleftrightarrow> number_ok n"
| "json_ok (J_str s) \<longleftrightarrow> units_ok s"
| "json_ok (J_arr vs) \<longleftrightarrow> (\<forall>v \<in> set vs. json_ok v)"
| "json_ok (J_obj ms) \<longleftrightarrow> distinct (map fst ms) \<and> (\<forall>(k, v) \<in> set ms. units_ok k \<and> json_ok v)"
| "json_ok _ \<longleftrightarrow> True"

text \<open>The fuel a value needs.\<close>

fun need :: "json \<Rightarrow> nat" where
  "need (J_arr vs) = Suc (fold (\<lambda>v n. Suc (max (need v) n)) (rev vs) 0)"
| "need (J_obj ms) = Suc (fold (\<lambda>(k, v) n. Suc (max (need v) n)) (rev ms) 0)"
| "need _ = 1"

definition need_elems :: "json list \<Rightarrow> nat" where
  "need_elems vs = foldr (\<lambda>v n. Suc (max (need v) n)) vs 0"

definition need_members :: "(ustring \<times> json) list \<Rightarrow> nat" where
  "need_members ms = foldr (\<lambda>(k, v) n. Suc (max (need v) n)) ms 0"

lemma need_arr [simp]: "need (J_arr vs) = Suc (need_elems vs)"
  by (simp add: need_elems_def foldr_conv_fold)

lemma need_obj [simp]: "need (J_obj ms) = Suc (need_members ms)"
  by (simp add: need_members_def foldr_conv_fold)

declare need.simps(1,2) [simp del]

lemma need_elems_simps [simp]:
  "need_elems [] = 0" "need_elems (v # vs) = Suc (max (need v) (need_elems vs))"
  by (simp_all add: need_elems_def)

lemma need_members_simps [simp]:
  "need_members [] = 0" "need_members ((k, v) # ms) = Suc (max (need v) (need_members ms))"
  by (simp_all add: need_members_def)

definition follows :: "ustring \<Rightarrow> bool" where
  "follows rest \<longleftrightarrow> (case rest of [] \<Rightarrow> True | c # _ \<Rightarrow> \<not> number_char c)"

lemma follows_simps [simp]: "follows []" "follows (44 # r)" "follows (93 # r)" "follows (125 # r)"
  by (simp_all add: follows_def number_char_def is_digit_def)

lemma skip_nonspace [simp]: "\<not> is_space c \<Longrightarrow> skip (c # cs) = c # cs"
  by (simp add: skip_def)

lemma number_start: "number_ok n \<Longrightarrow> \<exists>c cs. n = c # cs \<and> number_char c"
  by (cases n) (auto simp: number_ok_def)

lemma number_char_plain: "number_char c \<Longrightarrow> \<not> is_space c \<and> c \<noteq> 34 \<and> c \<noteq> 91 \<and> c \<noteq> 123 \<and> c \<noteq> 93 \<and> c \<noteq> 125
  \<and> c \<noteq> 110 \<and> c \<noteq> 116 \<and> c \<noteq> 102"
  by (auto simp: number_char_def is_digit_def is_space_def)

lemma parse_number_lit: "number_ok n \<Longrightarrow> follows rest \<Longrightarrow> parse_number (n @ rest) = Some (J_num n, rest)"
proof -
  assume n: "number_ok n" and r: "follows rest"
  then have "\<forall>c \<in> set n. number_char c" by (simp add: number_ok_def list_all_iff)
  moreover have "takeWhile number_char rest = []" "dropWhile number_char rest = rest"
    using r by (auto simp: follows_def split: list.splits)
  ultimately have "takeWhile number_char (n @ rest) = n" "dropWhile number_char (n @ rest) = rest"
    by (simp_all add: takeWhile_append2 dropWhile_append2)
  with n show ?thesis by (simp add: parse_number_def)
qed

text \<open>The first unit of a printed value: not blank, and not a closing bracket.\<close>

lemma stringify_start:
  "json_ok v \<Longrightarrow> \<exists>c cs. stringify v = c # cs \<and> \<not> is_space c \<and> c \<noteq> 93 \<and> c \<noteq> 125"
proof (cases v)
  case (J_num n)
  assume "json_ok v"
  with J_num number_start [of n] number_char_plain show ?thesis by auto
qed (auto simp: ascii_def quote_string_def is_space_def)

lemma parse_scalar:
  assumes "json_ok v" "follows rest" "\<And>vs. v \<noteq> J_arr vs" "\<And>ms. v \<noteq> J_obj ms"
  shows "parse_value (Suc n) (stringify v @ rest) = Some (v, rest)"
proof (cases v)
  case (J_num x)
  with assms obtain c cs where x: "x = c # cs" "number_char c" using number_start [of x] by auto
  with number_char_plain [of c] have "parse_word (x @ rest) = parse_number (x @ rest)"
    by (auto simp: parse_word_def ascii_def)
  with J_num assms x number_char_plain [of c] parse_number_lit [of x rest] show ?thesis by simp
next
  case (J_str s)
  with assms parse_quote_units [of s rest] show ?thesis
    by (simp add: quote_string_def is_space_def)
qed (use assms in \<open>auto simp: ascii_def is_space_def parse_word_def\<close>)

lemma parse_scalar_need:
  assumes "json_ok v" "follows rest" "\<And>vs. v \<noteq> J_arr vs" "\<And>ms. v \<noteq> J_obj ms" "need v \<le> n"
  shows "parse_value n (stringify v @ rest) = Some (v, rest)"
proof (cases n)
  case 0
  with assms(3-5) show ?thesis by (cases v) (simp_all add: need.simps)
next
  case (Suc m)
  show ?thesis unfolding Suc by (rule parse_scalar [OF assms(1-4)])
qed

lemma parse_elems_ok:
  assumes "\<And>v n rest. v \<in> set vs \<Longrightarrow> need v \<le> n \<Longrightarrow> follows rest \<Longrightarrow> parse_value n (stringify v @ rest) = Some (v, rest)"
    and "vs \<noteq> []" "need_elems vs \<le> n"
  shows "parse_elems n (join_with [44] (map stringify vs) @ 93 # rest) = Some (vs, rest)"
  using assms
proof (induction vs arbitrary: n)
  case (Cons v vs)
  then obtain n' where n: "n = Suc n'" and le: "need v \<le> n'" "need_elems vs \<le> n'"
    by (cases n) auto
  show ?case
  proof (cases vs)
    case Nil
    with Cons.prems(1) [of v n' "93 # rest"] le n show ?thesis by (simp add: is_space_def)
  next
    case (Cons w ws)
    let ?t = "join_with [44] (map stringify vs) @ 93 # rest"
    have "parse_value n' (stringify v @ 44 # ?t) = Some (v, 44 # ?t)"
      using Cons.prems(1) le(1) by simp
    moreover have "parse_elems n' ?t = Some (vs, rest)"
      using Cons.IH Cons.prems(1) le(2) \<open>vs = w # ws\<close> by simp
    ultimately show ?thesis using n \<open>vs = w # ws\<close> by (simp add: is_space_def)
  qed
qed simp

lemma parse_members_ok:
  assumes "\<And>k v n rest. (k, v) \<in> set ms \<Longrightarrow> need v \<le> n \<Longrightarrow> follows rest \<Longrightarrow> parse_value n (stringify v @ rest) = Some (v, rest)"
    and "\<forall>(k, v) \<in> set ms. units_ok k" "ms \<noteq> []" "need_members ms \<le> n"
  shows "parse_members n (join_with [44] (map (\<lambda>(k, v). quote_string k @ 58 # stringify v) ms) @ 125 # rest) = Some (ms, rest)"
  using assms
proof (induction ms arbitrary: n)
  case (Cons m ms)
  obtain k v where m: "m = (k, v)" by (cases m)
  with Cons.prems obtain n' where n: "n = Suc n'" and le: "need v \<le> n'" "need_members ms \<le> n'"
    by (cases n) auto
  have k: "units_ok k" using Cons.prems(2) m by simp
  have val: "parse_value n' (stringify v @ r) = Some (v, r)" if "follows r" for r
    using Cons.prems(1) [of k v n' r] le(1) m that by simp
  have head: "parse_str (quote_units k @ 34 # r) = Some (k, r)" for r
    by (rule parse_quote_units) (rule k)
  show ?case
  proof (cases ms)
    case Nil
    with m n val head show ?thesis by (simp add: quote_string_def is_space_def)
  next
    case (Cons m' ms')
    let ?t = "join_with [44] (map (\<lambda>(k, v). quote_string k @ 58 # stringify v) ms) @ 125 # rest"
    have "parse_members n' ?t = Some (ms, rest)"
      using Cons.IH Cons.prems(1,2) le(2) \<open>ms = m' # ms'\<close> by (metis list.distinct(1) list.set_intros(2))
    with m n val [of "44 # ?t"] head \<open>ms = m' # ms'\<close> show ?thesis
      by (simp add: quote_string_def is_space_def)
  qed
qed simp

lemma store_fresh: "k \<notin> fst ` set m \<Longrightarrow> store k v m = m @ [(k, v)]"
  by (induction k v m rule: store.induct) auto

lemma build_object_distinct: "distinct (map fst ms) \<Longrightarrow> build_object ms = J_obj ms"
proof -
  have "distinct (map fst (acc @ ms)) \<Longrightarrow> foldl (\<lambda>acc (k, v). store k v acc) acc ms = acc @ ms" for acc
  proof (induction ms arbitrary: acc)
    case (Cons m ms)
    obtain k v where m: "m = (k, v)" by (cases m)
    with Cons.prems have "k \<notin> fst ` set acc" by auto
    with Cons m show ?case by (simp add: store_fresh)
  qed simp
  from this [of "[]"] show "distinct (map fst ms) \<Longrightarrow> ?thesis" by (simp add: build_object_def)
qed

lemma join_start:
  "xs \<noteq> [] \<Longrightarrow> hd xs = c # cs \<Longrightarrow> \<exists>ds. join_with sep xs = c # ds"
  by (cases "(sep, xs)" rule: join_with.cases) auto

lemma parse_stringify_value:
  "json_ok v \<Longrightarrow> need v \<le> n \<Longrightarrow> follows rest \<Longrightarrow> parse_value n (stringify v @ rest) = Some (v, rest)"
proof (induction v arbitrary: n rest)
  case (J_arr vs)
  then obtain n' where n: "n = Suc n'" and le: "need_elems vs \<le> n'" by (cases n) auto
  show ?case
  proof (cases "vs = []")
    case False
    then have ok: "json_ok (hd vs)" using J_arr.prems by simp
    from stringify_start [OF ok] obtain c cs where c: "stringify (hd vs) = c # cs" "\<not> is_space c" "c \<noteq> 93" by blast
    with join_start [of "map stringify vs" c cs "[44]"] False obtain ds where
      d: "join_with [44] (map stringify vs) = c # ds" by (auto simp: hd_map)
    have "parse_elems n' (join_with [44] (map stringify vs) @ 93 # rest) = Some (vs, rest)"
      using J_arr False le by (intro parse_elems_ok) auto
    with c d show ?thesis by (simp add: n is_space_def)
  qed (simp add: n is_space_def)
next
  case (J_obj ms)
  then obtain n' where n: "n = Suc n'" and le: "need_members ms \<le> n'" by (cases n) auto
  show ?case
  proof (cases "ms = []")
    case False
    then obtain k v ms' where ms: "ms = (k, v) # ms'" by (cases ms) auto
    with join_start [of "map (\<lambda>(k, v). quote_string k @ 58 # stringify v) ms" 34 _ "[44]"] obtain ds where
      d: "join_with [44] (map (\<lambda>(k, v). quote_string k @ 58 # stringify v) ms) = 34 # ds"
      by (auto simp: quote_string_def)
    have "parse_members n' (join_with [44] (map (\<lambda>(k, v). quote_string k @ 58 # stringify v) ms) @ 125 # rest) = Some (ms, rest)"
    proof (rule parse_members_ok)
      show "parse_value n (stringify v @ rest) = Some (v, rest)"
        if "(k, v) \<in> set ms" "need v \<le> n" "follows rest" for k v n rest
        using J_obj.IH [of "(k, v)" v n rest] that J_obj.prems(1) by auto
    qed (use J_obj.prems False le in auto)
    with d show ?thesis using J_obj.prems(1) by (simp add: n is_space_def build_object_distinct)
  qed (simp add: n is_space_def)
next
  case J_null
  then show ?case by (intro parse_scalar_need) simp_all
next
  case (J_bool b)
  then show ?case by (intro parse_scalar_need) simp_all
next
  case (J_num x)
  then show ?case by (intro parse_scalar_need) simp_all
next
  case (J_str x)
  then show ?case by (intro parse_scalar_need) simp_all
qed

lemma join_length: "xs \<noteq> [] \<Longrightarrow> length (join_with [44] (x # xs)) = length x + 1 + length (join_with [44] xs)"
  by (cases xs) simp_all

lemma need_elems_length:
  "(\<And>v. v \<in> set vs \<Longrightarrow> need v \<le> length (stringify v)) \<Longrightarrow>
   need_elems vs \<le> Suc (length (join_with [44] (map stringify vs)))"
proof (induction vs)
  case (Cons v vs)
  then have IH: "need_elems vs \<le> Suc (length (join_with [44] (map stringify vs)))" "need v \<le> length (stringify v)"
    by simp_all
  then show ?case by (cases "vs = []") (simp_all add: join_length)
qed simp

lemma need_members_length:
  "(\<And>k v. (k, v) \<in> set ms \<Longrightarrow> need v \<le> length (stringify v)) \<Longrightarrow>
   need_members ms \<le> Suc (length (join_with [44] (map (\<lambda>(k, v). quote_string k @ 58 # stringify v) ms)))"
proof (induction ms)
  case (Cons m ms)
  obtain k v where m: "m = (k, v)" by (cases m)
  with Cons have IH: "need_members ms \<le> Suc (length (join_with [44] (map (\<lambda>(k, v). quote_string k @ 58 # stringify v) ms)))"
    "need v \<le> length (stringify v)" by auto
  with m show ?case by (cases "ms = []") (simp_all add: join_length)
qed simp

lemma need_length: "json_ok v \<Longrightarrow> need v \<le> length (stringify v)"
proof (induction v)
  case (J_arr vs)
  then have "need_elems vs \<le> Suc (length (join_with [44] (map stringify vs)))"
    by (intro need_elems_length) auto
  then show ?case by simp
next
  case (J_obj ms)
  have "need_members ms \<le> Suc (length (join_with [44] (map (\<lambda>(k, v). quote_string k @ 58 # stringify v) ms)))"
  proof (rule need_members_length)
    show "need v \<le> length (stringify v)" if "(k, v) \<in> set ms" for k v
      using J_obj.IH [of "(k, v)" v] J_obj.prems that by auto
  qed
  then show ?case by simp
next
  case (J_num n)
  then show ?case using number_start [of n] by auto
qed (simp_all add: ascii_def quote_string_def need.simps)

lemma parse_stringify: "json_ok v \<Longrightarrow> parse_json (stringify v) = Some v"
  using parse_stringify_value [of v "Suc (length (stringify v))" "[]"] need_length [of v]
  by (simp add: parse_json_def skip_def del: parse_value.simps)

text \<open>The text of an integer is a number literal.\<close>

definition num_text :: "int \<Rightarrow> ustring" where
  "num_text i = ascii (show_int i)"

definition J_int :: "int \<Rightarrow> json" where
  "J_int i = J_num (num_text i)"

end
