(* ===== verification/Utf8.thy ===== *)
theory Utf8
  imports Json "HOL-Library.Word"
begin

text \<open>
  \<open>TextEncoder\<close> and \<open>TextDecoder\<close> of the platform, as the wire protocol uses them: UTF-16 code
  units to UTF-8 bytes and back, with the decoder's replacement of malformed input by
  \<open>U+FFFD\<close> (the WHATWG algorithm) and its removal of a byte-order mark.  Text in which every
  surrogate is paired comes back unchanged, and everything \<open>JSON.stringify\<close> prints is such text.
\<close>

type_synonym byte = "8 word"

subsection \<open>Encoding\<close>

definition enc_unit :: "nat \<Rightarrow> nat list" where
  "enc_unit c =
     (if c < 0x80 then [c]
      else if c < 0x800 then [0xC0 + c div 64, 0x80 + c mod 64]
      else if is_high c \<or> is_low c then [0xEF, 0xBF, 0xBD]
      else [0xE0 + c div 4096, 0x80 + c div 64 mod 64, 0x80 + c mod 64])"

definition enc_pair :: "nat \<Rightarrow> nat \<Rightarrow> nat list" where
  "enc_pair c d =
     (let p = 0x10000 + (c - 0xD800) * 1024 + (d - 0xDC00)
      in [0xF0 + p div 262144, 0x80 + p div 4096 mod 64, 0x80 + p div 64 mod 64, 0x80 + p mod 64])"

fun utf8_encode :: "ustring \<Rightarrow> nat list" where
  "utf8_encode [] = []"
| "utf8_encode [c] = enc_unit c"
| "utf8_encode (c # d # cs) =
     (if is_high c \<and> is_low d then enc_pair c d @ utf8_encode cs else enc_unit c @ utf8_encode (d # cs))"

subsection \<open>Decoding\<close>

definition units_of :: "nat \<Rightarrow> ustring" where
  "units_of p = (if p < 0x10000 then [p] else [0xD800 + (p - 0x10000) div 1024, 0xDC00 + (p - 0x10000) mod 1024])"

text \<open>
  \<open>utf8_more n p lo hi\<close>: \<open>n\<close> more bytes are needed, \<open>p\<close> is the code point so far, and the next byte
  must lie between \<open>lo\<close> and \<open>hi\<close>; otherwise one replacement is emitted and the byte is read anew.
\<close>

function utf8_decode :: "nat list \<Rightarrow> ustring"
  and utf8_more :: "nat \<Rightarrow> nat \<Rightarrow> nat \<Rightarrow> nat \<Rightarrow> nat list \<Rightarrow> ustring" where
  "utf8_decode [] = []"
| "utf8_decode (b # bs) =
     (if b < 0x80 then b # utf8_decode bs
      else if 0xC2 \<le> b \<and> b \<le> 0xDF then utf8_more 1 (b - 0xC0) 0x80 0xBF bs
      else if 0xE0 \<le> b \<and> b \<le> 0xEF
      then utf8_more 2 (b - 0xE0) (if b = 0xE0 then 0xA0 else 0x80) (if b = 0xED then 0x9F else 0xBF) bs
      else if 0xF0 \<le> b \<and> b \<le> 0xF4
      then utf8_more 3 (b - 0xF0) (if b = 0xF0 then 0x90 else 0x80) (if b = 0xF4 then 0x8F else 0xBF) bs
      else 0xFFFD # utf8_decode bs)"
| "utf8_more n p lo hi [] = [0xFFFD]"
| "utf8_more n p lo hi (b # bs) =
     (if lo \<le> b \<and> b \<le> hi
      then (let p' = p * 64 + (b - 0x80)
            in if n \<le> 1 then units_of p' @ utf8_decode bs else utf8_more (n - 1) p' 0x80 0xBF bs)
      else 0xFFFD # utf8_decode (b # bs))"
  by pat_completeness auto

termination
  by (relation "measure (\<lambda>x. case x of Inl bs \<Rightarrow> 2 * length bs | Inr (n, p, lo, hi, bs) \<Rightarrow> 2 * length bs + 1)") auto

definition text_encode :: "ustring \<Rightarrow> byte list" where
  "text_encode s = map word_of_nat (utf8_encode s)"

definition text_decode :: "byte list \<Rightarrow> ustring" where
  "text_decode bs =
     (let ns = map unat bs in utf8_decode (if take 3 ns = [0xEF, 0xBB, 0xBF] then drop 3 ns else ns))"

subsection \<open>Round trip\<close>

fun paired :: "ustring \<Rightarrow> bool" where
  "paired [] \<longleftrightarrow> True"
| "paired [c] \<longleftrightarrow> c < 65536 \<and> \<not> is_high c \<and> \<not> is_low c"
| "paired (c # d # cs) \<longleftrightarrow>
     (if is_high c \<and> is_low d then paired cs else c < 65536 \<and> \<not> is_high c \<and> \<not> is_low c \<and> paired (d # cs))"

lemma split64: "64 * (m div 64) + m mod 64 = (m::nat)"
  by simp

lemma div64: "(m::nat) div 4096 = m div 64 div 64" "m div 262144 = m div 4096 div 64"
  by (simp_all add: div_mult2_eq [symmetric])

lemma dec_two:
  assumes "0x80 \<le> c" "c < 0x800"
  shows "utf8_decode ([0xC0 + c div 64, 0x80 + c mod 64] @ bs) = c # utf8_decode bs"
proof -
  define x y where "x = c div 64" and "y = c mod 64"
  have c: "c = x * 64 + y" using split64 [of c] unfolding x_def y_def by linarith
  have "2 \<le> x" using div_le_mono [OF assms(1), of 64] by (simp add: x_def)
  moreover have "x < 32" using assms(2) by (simp add: x_def div_less_iff_less_mult)
  moreover have "y < 64" by (simp add: y_def)
  ultimately show ?thesis
    using assms c by (simp add: x_def [symmetric] y_def [symmetric] units_of_def)
qed

lemma dec_three:
  assumes "0x800 \<le> c" "c < 0x10000" "\<not> is_high c" "\<not> is_low c"
  shows "utf8_decode ([0xE0 + c div 4096, 0x80 + c div 64 mod 64, 0x80 + c mod 64] @ bs) = c # utf8_decode bs"
proof -
  define x y z where "x = c div 4096" and "y = c div 64 mod 64" and "z = c mod 64"
  have c: "c = x * 4096 + y * 64 + z"
    using split64 [of c] split64 [of "c div 64"] unfolding x_def y_def z_def div64 by linarith
  have x: "x < 16" using assms(2) by (simp add: x_def div_less_iff_less_mult)
  have y: "y < 64" and z: "z < 64" by (simp_all add: y_def z_def)
  have lo: "x = 0 \<Longrightarrow> 32 \<le> y" using assms(1) c z by simp
  have hi: "x = 13 \<Longrightarrow> y < 32"
    using assms(3,4) c y z by (simp add: is_high_def is_low_def)
  have lo': "x = 0 \<Longrightarrow> 160 \<le> 128 + y" and hi': "x = 13 \<Longrightarrow> y \<le> 31" using lo hi by simp_all
  have "(x * 64 + y) * 64 + z < 65536" using x y z by simp
  then have "utf8_decode ([0xE0 + x, 0x80 + y, 0x80 + z] @ bs) = ((x * 64 + y) * 64 + z) # utf8_decode bs"
    using x y z lo' hi' by (simp add: units_of_def)
  moreover have "(x * 64 + y) * 64 + z = c" using c by simp
  ultimately show ?thesis unfolding x_def y_def z_def by simp
qed

lemma surrogates:
  assumes "is_high c" "is_low d"
  obtains k l where "c = 0xD800 + k" "k < 1024" "d = 0xDC00 + l" "l < 1024"
  using assms by (intro that [of "c - 0xD800" "d - 0xDC00"]) (auto simp: is_high_def is_low_def)

lemma dec_four:
  assumes "is_high c" "is_low d"
  shows "utf8_decode (enc_pair c d @ bs) = c # d # utf8_decode bs"
proof -
  obtain k l where kl: "c = 0xD800 + k" "k < 1024" "d = 0xDC00 + l" "l < 1024"
    using assms by (rule surrogates)
  define q where "q = k * 1024 + l"
  define p where "p = 0x10000 + q"
  have q: "q < 0x100000" using kl by (simp add: q_def)
  define w x y z where "w = p div 262144" and "x = p div 4096 mod 64" and "y = p div 64 mod 64" and "z = p mod 64"
  have p: "p = ((w * 64 + x) * 64 + y) * 64 + z"
    using split64 [of p] split64 [of "p div 64"] split64 [of "p div 4096"]
    unfolding w_def x_def y_def z_def div64 distrib_right by linarith
  have xyz: "x < 64" "y < 64" "z < 64" by (simp_all add: x_def y_def z_def)
  have w: "w < 5" using q by (simp add: w_def p_def div_less_iff_less_mult)
  have lo: "w = 0 \<Longrightarrow> 16 \<le> x" using p xyz by (simp add: p_def)
  have hi: "w = 4 \<Longrightarrow> x \<le> 15" using p xyz q by (simp add: p_def)
  have q1: "q div 1024 = k" "q mod 1024 = l" using kl by (simp_all add: q_def)
  have u: "units_of p = [c, d]" using kl q1 by (simp add: units_of_def p_def)
  have enc: "enc_pair c d = [0xF0 + w, 0x80 + x, 0x80 + y, 0x80 + z]"
    by (simp add: enc_pair_def Let_def w_def x_def y_def z_def p_def q_def kl add.assoc)
  show ?thesis
    unfolding enc using xyz w lo hi u p by (simp add: Let_def)
qed

lemma decode_encode: "paired s \<Longrightarrow> utf8_decode (utf8_encode s) = s"
proof -
  have unit: "utf8_decode (enc_unit c @ bs) = c # utf8_decode bs"
    if "c < 65536" "\<not> is_high c" "\<not> is_low c" for c bs
    using that dec_two [of c bs] dec_three [of c bs] by (simp add: enc_unit_def)
  show "paired s \<Longrightarrow> utf8_decode (utf8_encode s) = s"
  proof (induction s rule: utf8_encode.induct)
    case (2 c)
    then show ?case using unit [of c "[]"] by simp
  next
    case (3 c d cs)
    then show ?case by (cases "is_high c \<and> is_low d") (auto simp: unit dec_four)
  qed simp
qed

lemma enc_bytes: "paired s \<Longrightarrow> b \<in> set (utf8_encode s) \<Longrightarrow> b < 256"
proof (induction s rule: utf8_encode.induct)
  have unit: "b < 256" if "c < 65536" "b \<in> set (enc_unit c)" for b c
    using that by (auto simp: enc_unit_def div_less_iff_less_mult less_imp_le split: if_splits
        intro: less_le_trans [of _ "16 + 224"])
  {
    case (2 c)
    then show ?case using unit [of c b] by simp
  next
    case (3 c d cs)
    show ?case
    proof (cases "is_high c \<and> is_low d")
      case True
      then obtain k l where "c = 0xD800 + k" "k < 1024" "d = 0xDC00 + l" "l < 1024" using surrogates by blast
      then have "b \<in> set (enc_pair c d) \<Longrightarrow> b < 256"
        by (auto simp: enc_pair_def Let_def div_less_iff_less_mult
            intro: less_le_trans [of _ "5 + 240"])
      with 3 True show ?thesis by auto
    next
      case False
      with 3 unit [of c b] show ?thesis by auto
    qed
  }
qed simp

lemma text_roundtrip:
  assumes "paired s" "\<And>c cs. s = c # cs \<Longrightarrow> c < 128"
  shows "text_decode (text_encode s) = s"
proof -
  have "map unat (text_encode s) = utf8_encode s"
    using enc_bytes [OF assms(1)]
    by (simp add: text_encode_def unat_of_nat map_idI)
  moreover have "take 3 (utf8_encode s) \<noteq> [0xEF, 0xBB, 0xBF]"
  proof (cases s rule: utf8_encode.cases)
    case (3 c d cs)
    with assms(2) show ?thesis by (auto simp: enc_unit_def is_high_def)
  qed (use assms(2) in \<open>auto simp: enc_unit_def\<close>)
  ultimately show ?thesis using decode_encode [OF assms(1)] by (simp add: text_decode_def Let_def)
qed

end
