(* ===== verification/Ipc_Protocol.thy ===== *)
theory Ipc_Protocol
  imports Utf8
begin

text \<open>
  The wire protocol between a tab and the audio daemon, \<open>frontend/src/lib/ipcProtocol.js\<close>: a frame
  is the magic number, a little-endian 16-bit type, a little-endian 32-bit length and the payload
  as JSON in UTF-8.  The theory shows the round trip for every payload, that no proper prefix of
  a frame is accepted, and what each error means.
\<close>

subsection \<open>Message types\<close>

definition MSG :: "(string \<times> nat) list" where
  "MSG =
     [(''HEARTBEAT'', 0x0001), (''HEARTBEAT_ACK'', 0x0002), (''TRIGGER_EVENT'', 0x0003),
      (''TRIGGER_ACK'', 0x0004), (''FOCUS_WINDOW'', 0x0005), (''SHOW_WINDOW'', 0x0006),
      (''CONFIG_UPDATED'', 0x0007), (''DAEMON_STATUS'', 0x0008), (''SHUTDOWN'', 0x0009),
      (''RELOAD_MODEL'', 0x000a)]"

definition NAMES :: "(nat \<times> string) list" where
  "NAMES = map (\<lambda>(k, v). (v, k)) MSG"

definition HEARTBEAT :: nat where "HEARTBEAT = 1"
definition HEARTBEAT_ACK :: nat where "HEARTBEAT_ACK = 2"
definition TRIGGER_EVENT :: nat where "TRIGGER_EVENT = 3"
definition TRIGGER_ACK :: nat where "TRIGGER_ACK = 4"
definition FOCUS_WINDOW :: nat where "FOCUS_WINDOW = 5"
definition SHOW_WINDOW :: nat where "SHOW_WINDOW = 6"
definition CONFIG_UPDATED :: nat where "CONFIG_UPDATED = 7"

lemmas msg_defs = HEARTBEAT_def HEARTBEAT_ACK_def TRIGGER_EVENT_def TRIGGER_ACK_def FOCUS_WINDOW_def
  SHOW_WINDOW_def CONFIG_UPDATED_def

subsection \<open>Frames\<close>

definition MAGIC :: "byte list" where
  "MAGIC = [0xA1, 0xD1, 0x0C, 0x01]"

definition HEADER :: nat where
  "HEADER = 10"

text \<open>\<open>setUint16\<close> and \<open>setUint32\<close>, little endian: the value modulo the width.\<close>

definition set_uint16 :: "nat \<Rightarrow> byte list" where
  "set_uint16 n = [word_of_nat n, word_of_nat (n div 256)]"

definition set_uint32 :: "nat \<Rightarrow> byte list" where
  "set_uint32 n = [word_of_nat n, word_of_nat (n div 256), word_of_nat (n div 65536), word_of_nat (n div 16777216)]"

definition get_uint16 :: "byte list \<Rightarrow> nat \<Rightarrow> nat" where
  "get_uint16 bs i = unat (bs ! i) + 256 * unat (bs ! (i + 1))"

definition get_uint32 :: "byte list \<Rightarrow> nat \<Rightarrow> nat" where
  "get_uint32 bs i = unat (bs ! i) + 256 * unat (bs ! (i + 1)) + 65536 * unat (bs ! (i + 2)) + 16777216 * unat (bs ! (i + 3))"

definition encodeFrame :: "nat \<Rightarrow> json \<Rightarrow> byte list" where
  "encodeFrame ty payload =
     (let body = text_encode (stringify payload)
      in MAGIC @ set_uint16 ty @ set_uint32 (length body) @ body)"

text \<open>\<open>encodeFrame(type)\<close>: the payload defaults to the empty object.\<close>

definition encodeFrame0 :: "nat \<Rightarrow> byte list" where
  "encodeFrame0 ty = encodeFrame ty (J_obj [])"

datatype frame_error = FrameShorterThanHeader | BadMagic | TruncatedPayload | PayloadSyntaxError

definition decodeFrame :: "byte list \<Rightarrow> frame_error + nat \<times> json" where
  "decodeFrame bytes =
     (if length bytes < HEADER then Inl FrameShorterThanHeader
      else if \<not> (bytes ! 0 = 0xA1 \<and> bytes ! 1 = 0xD1 \<and> bytes ! 2 = 0x0C \<and> bytes ! 3 = 0x01) then Inl BadMagic
      else
        (let ty = get_uint16 bytes 4;
             len = get_uint32 bytes 6;
             body = take len (drop HEADER bytes)
         in if length body < len then Inl TruncatedPayload
            else if len = 0 then Inr (ty, J_obj [])
            else (case parse_json (text_decode body) of
                    None \<Rightarrow> Inl PayloadSyntaxError
                  | Some payload \<Rightarrow> Inr (ty, payload))))"

subsection \<open>What the printer writes is well-formed text\<close>

lemma paired_append: "paired xs \<Longrightarrow> paired ys \<Longrightarrow> paired (xs @ ys)"
proof (induction xs rule: paired.induct)
  case (2 c)
  then show ?case by (cases ys) (auto simp: is_high_def is_low_def)
qed (auto split: if_splits)

lemma paired_small: "\<forall>c \<in> set s. c < 128 \<Longrightarrow> paired s"
  by (induction s rule: paired.induct) (auto simp: is_high_def is_low_def)

lemma hex4_small: "c \<in> set (hex4 n) \<Longrightarrow> c < 128"
  by (auto simp: hex4_def hex_digit_def intro: le_less_trans [of _ "87 + 15"])

lemma paired_quote_unit: "c < 65536 \<Longrightarrow> paired (quote_unit c)"
proof -
  assume "c < 65536"
  moreover have "paired (92 # 117 # hex4 c)"
    using hex4_small by (intro paired_small) auto
  ultimately show ?thesis by (auto simp: quote_unit_def is_high_def is_low_def)
qed

lemma paired_quote_units: "units_ok s \<Longrightarrow> paired (quote_units s)"
  by (induction s rule: quote_units.induct) (auto simp: units_ok_def paired_quote_unit paired_append)

lemma paired_cons_small: "c < 128 \<Longrightarrow> paired xs \<Longrightarrow> paired (c # xs)"
  using paired_append [of "[c]" xs] by (auto simp: is_high_def is_low_def)

lemma paired_quote_string: "units_ok s \<Longrightarrow> paired (quote_string s)"
  by (auto simp: quote_string_def intro!: paired_cons_small paired_append paired_quote_units
      simp: is_high_def is_low_def)

lemma paired_join: "\<forall>x \<in> set xs. paired x \<Longrightarrow> paired (join_with [44] xs)"
proof (induction xs)
  case (Cons x xs)
  then show ?case
    by (cases xs) (auto intro!: paired_append paired_cons_small simp: is_high_def is_low_def)
qed simp

lemma paired_stringify: "json_ok v \<Longrightarrow> paired (stringify v)"
proof (induction v)
  case (J_num n)
  then show ?case by (auto intro!: paired_small simp: number_ok_def list_all_iff number_char_def is_digit_def)
next
  case (J_arr vs)
  have "paired (join_with [44] (map stringify vs))"
    using J_arr by (intro paired_join) auto
  then show ?case by (auto intro!: paired_cons_small paired_append simp: is_high_def is_low_def)
next
  case (J_obj ms)
  have "paired (quote_string k @ 58 # stringify v)" if "(k, v) \<in> set ms" for k v
    using J_obj.IH [of "(k, v)" v] J_obj.prems that
    by (auto intro!: paired_append paired_cons_small paired_quote_string)
  then have "paired (join_with [44] (map (\<lambda>(k, v). quote_string k @ 58 # stringify v) ms))"
    by (intro paired_join) auto
  then show ?case by (auto intro!: paired_cons_small paired_append simp: is_high_def is_low_def)
qed (auto simp: paired_quote_string ascii_def is_high_def is_low_def)

lemma stringify_ascii_start: "json_ok v \<Longrightarrow> stringify v = c # cs \<Longrightarrow> c < 128"
proof (cases v)
  case (J_num n)
  assume "json_ok v" "stringify v = c # cs"
  with J_num show ?thesis by (auto simp: number_ok_def number_char_def is_digit_def)
qed (auto simp: ascii_def quote_string_def split: if_splits)

lemma payload_roundtrip: "json_ok v \<Longrightarrow> parse_json (text_decode (text_encode (stringify v))) = Some v"
  using text_roundtrip [OF paired_stringify] stringify_ascii_start parse_stringify by metis

lemma number_ok_digits:
  assumes "list_all is_digit ds" "ds \<noteq> []" "hd ds = 48 \<Longrightarrow> length ds = 1"
  shows "number_ok ds"
proof -
  obtain c cs where c: "ds = c # cs" using assms(2) by (cases ds) auto
  with assms(1) have "is_digit c" by simp
  then have "c \<noteq> 45" by (simp add: is_digit_def)
  moreover have "takeWhile is_digit ds = ds" "dropWhile is_digit ds = []"
    using assms(1) by (simp_all add: takeWhile_eq_all_conv dropWhile_eq_Nil_conv list_all_iff)
  moreover have fo: "fraction_ok (dropWhile is_digit cs)"
  proof -
    have dw: "dropWhile is_digit cs = []" using assms(1) c by (simp add: dropWhile_eq_Nil_conv list_all_iff)
    show ?thesis unfolding dw by simp
  qed
  ultimately show ?thesis
    using assms c by (auto simp: number_ok_def unsigned_ok_def list_all_iff number_char_def)
qed

lemma show_nat_hd: "0 < n \<Longrightarrow> of_char (hd (show_nat n)) \<noteq> (48 :: nat)"
proof (induction n rule: less_induct)
  case (less n)
  show ?case
  proof (cases "n < 10")
    case True
    with less.prems show ?thesis by (simp add: show_nat_rec [of n] of_char_of)
  next
    case False
    then have "n div 10 < n" "0 < n div 10" by (simp_all add: div_greater_zero_iff)
    with less.IH False show ?thesis by (simp add: show_nat_rec [of n])
  qed
qed

lemma number_ok_nat: "number_ok (ascii (show_nat n))"
proof (rule number_ok_digits)
  show "list_all is_digit (ascii (show_nat n))"
    using show_nat_digits [of _ n]
    by (fastforce simp: ascii_def list_all_iff is_digit_def digit_value_def split: if_splits)
  show "ascii (show_nat n) \<noteq> []" by (simp add: ascii_def)
  show "hd (ascii (show_nat n)) = 48 \<Longrightarrow> length (ascii (show_nat n)) = 1"
    using show_nat_hd [of n] by (cases "n = 0") (auto simp: ascii_def hd_map show_nat_rec [of 0])
qed

lemma json_ok_nat [simp]: "0 \<le> i \<Longrightarrow> json_ok (J_int i)"
  using number_ok_nat [of "nat i"] by (simp add: J_int_def num_text_def show_int_def)

lemma json_ok_J_num: "json_ok (J_num n) \<Longrightarrow> number_ok n" by simp

subsection \<open>Header fields\<close>

lemma set_uint_lengths [simp]: "length (set_uint16 n) = 2" "length (set_uint32 n) = 4" "length MAGIC = 4"
  by (simp_all add: set_uint16_def set_uint32_def MAGIC_def)

lemma frame_layout:
  "MAGIC @ set_uint16 ty @ set_uint32 n @ body =
   [0xA1, 0xD1, 0x0C, 0x01, word_of_nat ty, word_of_nat (ty div 256), word_of_nat n, word_of_nat (n div 256),
    word_of_nat (n div 65536), word_of_nat (n div 16777216)] @ body"
  by (simp add: MAGIC_def set_uint16_def set_uint32_def)

lemma uint16_value: "ty < 65536 \<Longrightarrow> ty mod 256 + 256 * (ty div 256 mod 256) = (ty::nat)"
proof -
  assume "ty < 65536"
  then have "ty div 256 < 256" by (simp add: div_less_iff_less_mult)
  then show ?thesis by simp
qed

lemma uint32_value:
  assumes "n < 4294967296"
  shows "n mod 256 + 256 * (n div 256 mod 256) + 65536 * (n div 65536 mod 256) + 16777216 * (n div 16777216 mod 256) = (n::nat)"
proof -
  have step: "256 * (m div 256) + m mod 256 = m" for m :: nat by simp
  have d: "n div 65536 = n div 256 div 256" "n div 16777216 = n div 256 div 256 div 256"
    by (simp_all add: div_mult2_eq [symmetric])
  have "n div 16777216 < 256" using assms by (simp add: div_less_iff_less_mult)
  then have "n div 16777216 mod 256 = n div 16777216" by simp
  with step [of n] step [of "n div 256"] step [of "n div 256 div 256"] show ?thesis
    unfolding d by linarith
qed

lemma get_fields:
  assumes "ty < 65536" "n < 4294967296" "bs = MAGIC @ set_uint16 ty @ set_uint32 n @ body"
  shows "get_uint16 bs 4 = ty" "get_uint32 bs 6 = n" "HEADER \<le> length bs"
    "bs ! 0 = 0xA1 \<and> bs ! 1 = 0xD1 \<and> bs ! 2 = 0x0C \<and> bs ! 3 = 0x01" "drop HEADER bs = body"
  unfolding assms(3) frame_layout
  using uint16_value [OF assms(1)] uint32_value [OF assms(2)]
  by (simp_all add: get_uint16_def get_uint32_def HEADER_def unat_of_nat nth_Cons')

lemma stringify_nonempty: "json_ok v \<Longrightarrow> text_encode (stringify v) \<noteq> []"
proof -
  assume "json_ok v"
  then obtain c cs where s: "stringify v = c # cs" using stringify_start by blast
  have "enc_unit c \<noteq> []" "enc_pair c d \<noteq> []" for d by (simp_all add: enc_unit_def enc_pair_def Let_def)
  with s show ?thesis by (cases cs) (auto simp: text_encode_def)
qed

lemma decode_parts:
  assumes ty: "ty < 65536" and v: "json_ok v" and len: "length (text_encode (stringify v)) < 4294967296"
  shows "decodeFrame (encodeFrame ty v @ rest) = Inr (ty, v)"
proof -
  let ?b = "text_encode (stringify v)"
  have enc: "encodeFrame ty v @ rest = MAGIC @ set_uint16 ty @ set_uint32 (length ?b) @ (?b @ rest)"
    by (simp add: encodeFrame_def Let_def)
  note g = get_fields [OF ty len enc]
  have "take (length ?b) (drop HEADER (encodeFrame ty v @ rest)) = ?b" unfolding g(5) by simp
  with g v stringify_nonempty [OF v] payload_roundtrip [OF v] show ?thesis
    by (simp add: decodeFrame_def Let_def)
qed

lemma decode_prefix:
  assumes ty: "ty < 65536" and len: "length (text_encode (stringify v)) < 4294967296"
    and n: "n < length (encodeFrame ty v)"
  shows "decodeFrame (take n (encodeFrame ty v)) = Inl (if n < HEADER then FrameShorterThanHeader else TruncatedPayload)"
proof (cases "n < HEADER")
  case True
  then have "length (take n (encodeFrame ty v)) < HEADER" by simp
  then have "decodeFrame (take n (encodeFrame ty v)) = Inl FrameShorterThanHeader"
    unfolding decodeFrame_def by (rule if_P)
  with True show ?thesis by simp
next
  case False
  let ?b = "text_encode (stringify v)"
  define k where "k = n - HEADER"
  have enc: "encodeFrame ty v = (MAGIC @ set_uint16 ty @ set_uint32 (length ?b)) @ ?b"
    by (simp add: encodeFrame_def Let_def)
  have hl: "length (MAGIC @ set_uint16 ty @ set_uint32 (length ?b)) = HEADER" by (simp add: HEADER_def)
  have t: "take n (encodeFrame ty v) = MAGIC @ set_uint16 ty @ set_uint32 (length ?b) @ take k ?b"
    unfolding enc take_append hl k_def using False by (simp add: HEADER_def)
  have k: "k < length ?b" using n False hl unfolding enc length_append k_def by (simp add: HEADER_def)
  note g = get_fields [OF ty len t]
  from g(3) have "\<not> length (take n (encodeFrame ty v)) < HEADER" by linarith
  with g False k show ?thesis by (simp add: decodeFrame_def Let_def)
qed

subsection \<open>Properties\<close>

text \<open>
  C38. A frame carries its message: for every type that fits 16 bits and every payload that is a
  proper JSON value of less than four gigabytes, decoding the encoded frame gives type and payload
  back, whatever bytes follow the frame.
\<close>

theorem frame_roundtrip:
  assumes "ty < 65536" and "json_ok v" and "length (text_encode (stringify v)) < 4294967296"
  shows "decodeFrame (encodeFrame ty v @ rest) = Inr (ty, v)"
  using assms by (rule decode_parts)

definition sample_payload :: json where
  "sample_payload = J_obj [(ascii ''id'', J_str [0xC5C5, 0xD83D, 0xDE00, 0xD800, 34]), (ascii ''ts'', J_num (ascii ''17.5''))]"

lemma frame_roundtrip_witness:
  "decodeFrame (encodeFrame TRIGGER_EVENT sample_payload @ [0, 1]) = Inr (TRIGGER_EVENT, sample_payload)"
proof (rule frame_roundtrip)
  show "json_ok sample_payload"
    by (simp add: sample_payload_def units_ok_def ascii_def number_ok_def unsigned_ok_def number_char_def is_digit_def)
  have "length (utf8_encode (stringify sample_payload)) < 4294967296"
    by (simp add: sample_payload_def quote_string_def quote_unit_def hex4_def hex_digit_def ascii_def
        enc_unit_def enc_pair_def Let_def is_high_def is_low_def)
  then show "length (text_encode (stringify sample_payload)) < 4294967296" by (simp add: text_encode_def)
qed (simp add: msg_defs)

text \<open>
  No part of a frame is taken for a message: every proper prefix of an encoded frame is
  rejected, as shorter than the header if it is, as truncated otherwise.
\<close>

theorem frame_prefix_rejected:
  assumes "ty < 65536" and "length (text_encode (stringify v)) < 4294967296" and "n < length (encodeFrame ty v)"
  shows "decodeFrame (take n (encodeFrame ty v)) = Inl (if n < HEADER then FrameShorterThanHeader else TruncatedPayload)"
  using assms by (rule decode_prefix)

lemma frame_prefix_rejected_witness:
  "decodeFrame (take 11 (encodeFrame HEARTBEAT (J_obj []))) = Inl TruncatedPayload"
proof -
  have "utf8_encode (stringify (J_obj [])) = [123, 125]" by code_simp
  then have "length (text_encode (stringify (J_obj []))) = 2" by (simp add: text_encode_def)
  with frame_prefix_rejected [of HEARTBEAT "J_obj []" 11] show ?thesis
    by (simp add: encodeFrame_def Let_def HEADER_def msg_defs)
qed

end
