(* ===== verification/Daemon_Ipc.thy ===== *)
theory Daemon_Ipc
  imports Ipc_Protocol "HOL-Library.Sublist"
begin

text \<open>
  The browser end of the daemon channel, \<open>frontend/src/api/daemonIpc.js\<close>: one client object, the
  web sockets it creates, its outbound queue, its reconnection timer and the messages it hands on.
  The browser is modelled by which events a socket can still raise: a connecting socket may open,
  an open one may receive, one that is not closed may close, and the pending timer may fire.  The
  handlers are closures over the client, not over the socket they were set on, as in the code.
\<close>

subsection \<open>State\<close>

datatype ready_state = CONNECTING | OPEN | CLOSING | CLOSED

record ipc_client =
  c_ws :: "nat option"
  c_connected :: bool
  c_queue :: "byte list list"
  c_attempt :: nat
  c_stopped :: bool
  c_timer :: "nat option"
  w_sockets :: "ready_state list"
  w_sent :: "(nat \<times> byte list) list"
  w_delivered :: "(nat \<times> json) list"
  w_requested :: "byte list list"

text \<open>
  The last four fields are the world: the sockets created so far with their states, the frames given
  to them, the messages given to \<open>onMessage\<close>, and (for the statements) every frame ever passed to
  \<open>_sendFrame\<close> by a caller.
\<close>

definition maxQueue :: nat where
  "maxQueue = 50"

definition BACKOFF_MS :: "nat list" where
  "BACKOFF_MS = [100, 200, 400, 800, 1600]"

definition new_client :: ipc_client where
  "new_client = \<lparr>c_ws = None, c_connected = False, c_queue = [], c_attempt = 0, c_stopped = False, c_timer = None,
                 w_sockets = [], w_sent = [], w_delivered = [], w_requested = []\<rparr>"

definition socket_state :: "ipc_client \<Rightarrow> nat \<Rightarrow> ready_state" where
  "socket_state c i = (if i < length (w_sockets c) then w_sockets c ! i else CLOSED)"

definition set_socket :: "nat \<Rightarrow> ready_state \<Rightarrow> ipc_client \<Rightarrow> ipc_client" where
  "set_socket i s c = c\<lparr>w_sockets := (w_sockets c)[i := s]\<rparr>"

text \<open>\<open>ws.close()\<close>: a closed socket stays closed, any other is closing; its close event comes later.\<close>

definition close_socket :: "nat \<Rightarrow> ipc_client \<Rightarrow> ipc_client" where
  "close_socket i c = (if socket_state c i = CLOSED then c else set_socket i CLOSING c)"

subsection \<open>Methods\<close>

definition scheduleReconnect :: "ipc_client \<Rightarrow> ipc_client" where
  "scheduleReconnect c =
     (if c_stopped c then c
      else
        (let delay = (if c_attempt c < length BACKOFF_MS then BACKOFF_MS ! c_attempt c else 5000)
         in c\<lparr>c_attempt := c_attempt c + 1, c_timer := Some delay\<rparr>))"

text \<open>\<open>ok\<close> says whether the constructor of the socket returns or throws.\<close>

definition open_socket :: "bool \<Rightarrow> ipc_client \<Rightarrow> ipc_client" where
  "open_socket ok c =
     (if \<not> ok then scheduleReconnect c
      else c\<lparr>c_ws := Some (length (w_sockets c)), w_sockets := w_sockets c @ [CONNECTING]\<rparr>)"

definition connect :: "bool \<Rightarrow> ipc_client \<Rightarrow> ipc_client" where
  "connect ok c =
     (if c_ws c \<noteq> None \<or> (\<not> c_stopped c \<and> c_connected c) then c
      else open_socket ok (c\<lparr>c_stopped := False\<rparr>))"

definition stop_client :: "ipc_client \<Rightarrow> ipc_client" where
  "stop_client c =
     (let c' = c\<lparr>c_stopped := True, c_timer := None\<rparr>;
          c'' = (case c_ws c' of None \<Rightarrow> c' | Some i \<Rightarrow> close_socket i c')
      in c''\<lparr>c_ws := None, c_connected := False\<rparr>)"

text \<open>\<open>this.connected && this.ws && this.ws.readyState === 1\<close>\<close>

definition can_send :: "ipc_client \<Rightarrow> nat option" where
  "can_send c =
     (if c_connected c
      then (case c_ws c of None \<Rightarrow> None | Some i \<Rightarrow> if socket_state c i = OPEN then Some i else None)
      else None)"

definition push_queue :: "byte list \<Rightarrow> byte list list \<Rightarrow> byte list list" where
  "push_queue f q = (let q' = q @ [f] in if length q' > maxQueue then tl q' else q')"

definition sendFrame :: "byte list \<Rightarrow> ipc_client \<Rightarrow> ipc_client \<times> bool" where
  "sendFrame f c =
     (case can_send c of
        Some i \<Rightarrow> (c\<lparr>w_sent := w_sent c @ [(i, f)]\<rparr>, True)
      | None \<Rightarrow> (c\<lparr>c_queue := push_queue f (c_queue c)\<rparr>, False))"

definition flush :: "ipc_client \<Rightarrow> ipc_client" where
  "flush c = foldl (\<lambda>c f. fst (sendFrame f c)) (c\<lparr>c_queue := []\<rparr>) (c_queue c)"

definition send_msg :: "nat \<Rightarrow> json \<Rightarrow> ipc_client \<Rightarrow> ipc_client" where
  "send_msg ty payload c =
     (let f = encodeFrame ty payload in fst (sendFrame f (c\<lparr>w_requested := w_requested c @ [f]\<rparr>)))"

definition sendConfigUpdated :: "json \<Rightarrow> ipc_client \<Rightarrow> ipc_client" where
  "sendConfigUpdated payload c = send_msg CONFIG_UPDATED payload c"

text \<open>
  \<open>{ id: payload.id }\<close>: of an object without the member, or of a value that is no object, it is
  \<open>undefined\<close> and the printer leaves it out; of \<open>null\<close> it throws (\<open>None\<close>).
\<close>

definition id_payload :: "json \<Rightarrow> json option" where
  "id_payload p =
     (case p of
        J_null \<Rightarrow> None
      | J_obj ms \<Rightarrow> Some (J_obj (case lookup ms (ascii ''id'') of None \<Rightarrow> [] | Some v \<Rightarrow> [(ascii ''id'', v)]))
      | _ \<Rightarrow> Some (J_obj []))"

definition receive :: "int \<Rightarrow> byte list \<Rightarrow> ipc_client \<Rightarrow> ipc_client" where
  "receive now data c =
     (case decodeFrame data of
        Inl _ \<Rightarrow> c
      | Inr (ty, payload) \<Rightarrow>
          if ty = HEARTBEAT then send_msg HEARTBEAT_ACK (J_obj [(ascii ''ts'', J_int now)]) c
          else if ty = TRIGGER_EVENT
          then (case id_payload payload of
                  None \<Rightarrow> c
                | Some ack \<Rightarrow>
                    (let c' = send_msg TRIGGER_ACK ack c in c'\<lparr>w_delivered := w_delivered c' @ [(ty, payload)]\<rparr>))
          else c\<lparr>w_delivered := w_delivered c @ [(ty, payload)]\<rparr>)"

subsection \<open>Handlers and events\<close>

definition onopen :: "nat \<Rightarrow> ipc_client \<Rightarrow> ipc_client" where
  "onopen i c = flush (c\<lparr>c_connected := True, c_attempt := 0\<rparr>)"

definition onclose :: "nat \<Rightarrow> ipc_client \<Rightarrow> ipc_client" where
  "onclose i c = scheduleReconnect (c\<lparr>c_connected := False, c_ws := None\<rparr>)"

definition onerror :: "nat \<Rightarrow> ipc_client \<Rightarrow> ipc_client" where
  "onerror i c = close_socket i c"

datatype ipc_event =
    Ev_connect bool
  | Ev_stop
  | Ev_send nat json
  | Ev_open nat
  | Ev_message nat int "byte list"
  | Ev_close nat
  | Ev_error nat
  | Ev_timer bool

text \<open>An event the browser cannot raise in this state changes nothing.\<close>

fun ipc_step :: "ipc_client \<Rightarrow> ipc_event \<Rightarrow> ipc_client" where
  "ipc_step c (Ev_connect ok) = connect ok c"
| "ipc_step c Ev_stop = stop_client c"
| "ipc_step c (Ev_send ty payload) = send_msg ty payload c"
| "ipc_step c (Ev_open i) =
     (if socket_state c i = CONNECTING then onopen i (set_socket i OPEN c) else c)"
| "ipc_step c (Ev_message i now data) = (if socket_state c i = OPEN then receive now data c else c)"
| "ipc_step c (Ev_close i) =
     (if socket_state c i \<noteq> CLOSED then onclose i (set_socket i CLOSED c) else c)"
| "ipc_step c (Ev_error i) = (if socket_state c i \<noteq> CLOSED then onerror i c else c)"
| "ipc_step c (Ev_timer ok) =
     (case c_timer c of None \<Rightarrow> c | Some d \<Rightarrow> open_socket ok (c\<lparr>c_timer := None\<rparr>))"

definition ipc_run :: "ipc_client \<Rightarrow> ipc_event list \<Rightarrow> ipc_client" where
  "ipc_run c es = foldl ipc_step c es"

subsection \<open>Invariant\<close>

text \<open>
  While frames can be sent directly the queue is empty; the queue is bounded; what was sent and
  what waits are, in order, frames that were requested, and all of them while there are few.
\<close>

definition ipc_inv :: "ipc_client \<Rightarrow> bool" where
  "ipc_inv c \<longleftrightarrow>
     (\<forall>i. c_ws c = Some i \<and> socket_state c i = OPEN \<longrightarrow> c_connected c \<and> c_queue c = [])
     \<and> (\<forall>i. c_ws c = Some i \<longrightarrow> i < length (w_sockets c))
     \<and> length (c_queue c) \<le> maxQueue
     \<and> subseq (map snd (w_sent c) @ c_queue c) (w_requested c)
     \<and> (length (w_requested c) \<le> maxQueue \<longrightarrow> map snd (w_sent c) @ c_queue c = w_requested c)"

lemma socket_state_set [simp]:
  "i < length (w_sockets c) \<Longrightarrow> socket_state (set_socket i s c) j = (if j = i then s else socket_state c j)"
  by (auto simp: socket_state_def set_socket_def nth_list_update)

lemma socket_lt: "socket_state c i \<noteq> CLOSED \<Longrightarrow> i < length (w_sockets c)"
  by (auto simp: socket_state_def split: if_splits)

lemma set_socket_frame [simp]:
  "c_ws (set_socket i s c) = c_ws c" "c_connected (set_socket i s c) = c_connected c"
  "c_queue (set_socket i s c) = c_queue c" "w_sent (set_socket i s c) = w_sent c"
  "w_requested (set_socket i s c) = w_requested c" "length (w_sockets (set_socket i s c)) = length (w_sockets c)"
  "c_stopped (set_socket i s c) = c_stopped c" "c_timer (set_socket i s c) = c_timer c"
  "c_attempt (set_socket i s c) = c_attempt c"
  by (simp_all add: set_socket_def)

lemma socket_state_update [simp]:
  "socket_state (c\<lparr>c_ws := x\<rparr>) i = socket_state c i" "socket_state (c\<lparr>c_connected := b\<rparr>) i = socket_state c i"
  "socket_state (c\<lparr>c_queue := q\<rparr>) i = socket_state c i" "socket_state (c\<lparr>c_attempt := n\<rparr>) i = socket_state c i"
  "socket_state (c\<lparr>c_stopped := b\<rparr>) i = socket_state c i" "socket_state (c\<lparr>c_timer := t\<rparr>) i = socket_state c i"
  "socket_state (c\<lparr>w_sent := l\<rparr>) i = socket_state c i" "socket_state (c\<lparr>w_delivered := d\<rparr>) i = socket_state c i"
  "socket_state (c\<lparr>w_requested := r\<rparr>) i = socket_state c i"
  by (simp_all add: socket_state_def)

lemma schedule_frame [simp]:
  "c_ws (scheduleReconnect c) = c_ws c" "c_connected (scheduleReconnect c) = c_connected c"
  "c_queue (scheduleReconnect c) = c_queue c" "w_sent (scheduleReconnect c) = w_sent c"
  "w_requested (scheduleReconnect c) = w_requested c" "w_sockets (scheduleReconnect c) = w_sockets c"
  "c_stopped (scheduleReconnect c) = c_stopped c" "socket_state (scheduleReconnect c) i = socket_state c i"
  by (simp_all add: scheduleReconnect_def Let_def)

text \<open>The invariant speaks about a few fields only.\<close>

lemma ipc_inv_frame:
  "ipc_inv c \<Longrightarrow> c_queue c' = c_queue c \<Longrightarrow> w_sent c' = w_sent c \<Longrightarrow> w_requested c' = w_requested c \<Longrightarrow>
   (\<forall>i. c_ws c' = Some i \<longrightarrow> i < length (w_sockets c')) \<Longrightarrow>
   (\<forall>i. c_ws c' = Some i \<and> socket_state c' i = OPEN \<longrightarrow>
      c_ws c = Some i \<and> socket_state c i = OPEN \<and> c_connected c' = c_connected c) \<Longrightarrow>
   ipc_inv c'"
  by (auto simp: ipc_inv_def)

lemma inv_open_socket: "ipc_inv c \<Longrightarrow> ipc_inv (open_socket ok c)"
  by (auto simp: open_socket_def socket_state_def intro: ipc_inv_frame simp: ipc_inv_def)

lemma inv_connect:
  assumes inv: "ipc_inv c"
  shows "ipc_inv (connect ok c)"
proof -
  have "ipc_inv (c\<lparr>c_stopped := False\<rparr>)" using inv by (simp add: ipc_inv_def)
  from inv_open_socket [OF this] inv show ?thesis by (simp add: connect_def)
qed

lemma close_socket_frame [simp]:
  "c_ws (close_socket i c) = c_ws c" "c_connected (close_socket i c) = c_connected c"
  "c_queue (close_socket i c) = c_queue c" "w_sent (close_socket i c) = w_sent c"
  "w_requested (close_socket i c) = w_requested c" "length (w_sockets (close_socket i c)) = length (w_sockets c)"
  "c_stopped (close_socket i c) = c_stopped c" "c_timer (close_socket i c) = c_timer c"
  by (simp_all add: close_socket_def)

lemma close_not_open: "socket_state (close_socket i c) j = OPEN \<Longrightarrow> socket_state c j = OPEN"
  using socket_lt [of c i] by (auto simp: close_socket_def split: if_splits)

lemma inv_close: "ipc_inv c \<Longrightarrow> ipc_inv (close_socket i c)"
  by (rule ipc_inv_frame) (auto simp: ipc_inv_def dest: close_not_open)

lemma inv_stop: "ipc_inv c \<Longrightarrow> ipc_inv (stop_client c)"
  by (rule ipc_inv_frame [of c]) (auto simp: stop_client_def Let_def split: option.splits)

lemma inv_onclose: "ipc_inv c \<Longrightarrow> ipc_inv (onclose i (set_socket i CLOSED c))"
  by (rule ipc_inv_frame [of c]) (auto simp: onclose_def)

lemma subseq_push:
  "subseq (xs @ q) ys \<Longrightarrow> subseq (xs @ push_queue f q) (ys @ [f])"
proof -
  assume "subseq (xs @ q) ys"
  then have "subseq ((xs @ q) @ [f]) (ys @ [f])" by (rule list_emb_append_mono) simp
  moreover have "subseq (xs @ push_queue f q) (xs @ q @ [f])"
    by (auto simp: push_queue_def Let_def intro!: list_emb_append_mono subseq_order.refl)
  ultimately show ?thesis by (auto intro: subseq_order.trans)
qed

lemma inv_send: "ipc_inv c \<Longrightarrow> ipc_inv (send_msg ty p c)"
proof -
  assume inv: "ipc_inv c"
  let ?f = "encodeFrame ty p"
  let ?c = "c\<lparr>w_requested := w_requested c @ [?f]\<rparr>"
  show ?thesis
  proof (cases "can_send ?c")
    case (Some i)
    then have i: "c_ws c = Some i" "socket_state c i = OPEN" by (auto simp: can_send_def split: if_splits option.splits)
    with inv have q: "c_queue c = []" by (simp add: ipc_inv_def)
    have "subseq (map snd (w_sent c) @ [?f]) (w_requested c @ [?f])"
      using inv q by (intro list_emb_append_mono) (simp_all add: ipc_inv_def)
    with inv i q Some show ?thesis
      by (simp add: send_msg_def Let_def sendFrame_def ipc_inv_def)
  next
    case None
    have len: "length (push_queue ?f (c_queue c)) \<le> maxQueue"
      using inv by (auto simp: push_queue_def Let_def ipc_inv_def)
    have eq: "length (w_requested c) < maxQueue \<Longrightarrow> push_queue ?f (c_queue c) = c_queue c @ [?f]"
    proof -
      have "length (map snd (w_sent c) @ c_queue c) \<le> length (w_requested c)"
        using inv unfolding ipc_inv_def by (blast dest: list_emb_length)
      then show "length (w_requested c) < maxQueue \<Longrightarrow> ?thesis" by (simp add: push_queue_def Let_def)
    qed
    show ?thesis
      using inv None len eq subseq_push [of "map snd (w_sent c)" "c_queue c" "w_requested c" ?f]
      by (auto simp: send_msg_def Let_def sendFrame_def ipc_inv_def can_send_def split: if_splits option.splits)
  qed
qed

lemma inv_receive: "ipc_inv c \<Longrightarrow> ipc_inv (receive now data c)"
proof -
  have d: "ipc_inv (c\<lparr>w_delivered := x\<rparr>)" if "ipc_inv c" for c x using that by (simp add: ipc_inv_def)
  assume "ipc_inv c"
  then show ?thesis
    by (auto simp: receive_def Let_def intro!: inv_send d split: sum.splits option.splits)
qed

text \<open>Flushing: over an open socket everything goes out in order, otherwise everything waits again.\<close>

lemma flush_open:
  "can_send c = Some i \<Longrightarrow>
   foldl (\<lambda>c f. fst (sendFrame f c)) c fs = c\<lparr>w_sent := w_sent c @ map (Pair i) fs\<rparr>"
proof (induction fs arbitrary: c)
  case (Cons f fs)
  have "can_send (c\<lparr>w_sent := l\<rparr>) = Some i" for l using Cons.prems
    by (auto simp: can_send_def split: option.splits if_splits)
  with Cons show ?case by (simp add: sendFrame_def)
qed simp

lemma flush_wait:
  "can_send c = None \<Longrightarrow> length (c_queue c) + length fs \<le> maxQueue \<Longrightarrow>
   foldl (\<lambda>c f. fst (sendFrame f c)) c fs = c\<lparr>c_queue := c_queue c @ fs\<rparr>"
proof (induction fs arbitrary: c)
  case (Cons f fs)
  have "can_send (c\<lparr>c_queue := q\<rparr>) = None" for q using Cons.prems(1)
    by (auto simp: can_send_def split: option.splits if_splits)
  with Cons show ?case by (simp add: sendFrame_def push_queue_def Let_def)
qed simp

lemma inv_onopen:
  assumes inv: "ipc_inv c" and i: "socket_state c i = CONNECTING"
  shows "ipc_inv (onopen i (set_socket i OPEN c))"
proof -
  let ?c = "(set_socket i OPEN c)\<lparr>c_connected := True, c_attempt := 0, c_queue := []\<rparr>"
  have lt: "i < length (w_sockets c)" using i by (auto intro: socket_lt)
  have q: "length (c_queue c) \<le> maxQueue" using inv by (simp add: ipc_inv_def)
  have fl: "onopen i (set_socket i OPEN c) = foldl (\<lambda>c f. fst (sendFrame f c)) ?c (c_queue c)"
    by (simp add: onopen_def flush_def)
  show ?thesis
  proof (cases "can_send ?c")
    case (Some j)
    then show ?thesis
      using inv unfolding fl flush_open [OF Some] by (auto simp: ipc_inv_def comp_def)
  next
    case None
    have "foldl (\<lambda>c f. fst (sendFrame f c)) ?c (c_queue c) = ?c\<lparr>c_queue := c_queue c\<rparr>"
      using flush_wait [OF None, of "c_queue c"] q by simp
    moreover have "c_ws c = Some j \<Longrightarrow> socket_state ?c j \<noteq> OPEN" for j
      using None by (auto simp: can_send_def)
    ultimately show ?thesis
      using inv unfolding fl by (auto simp: ipc_inv_def)
  qed
qed

lemma ipc_inv_step [inv_intro]: "ipc_inv c \<Longrightarrow> ipc_inv (ipc_step c e)"
proof (cases e)
  case (Ev_timer ok)
  assume "ipc_inv c"
  then have "ipc_inv (c\<lparr>c_timer := None\<rparr>)" by (simp add: ipc_inv_def)
  then show ?thesis using Ev_timer \<open>ipc_inv c\<close> by (auto intro: inv_open_socket split: option.splits)
qed (auto simp: onerror_def intro: inv_connect inv_stop inv_send inv_onopen inv_receive inv_onclose inv_close)

lemma ipc_inv_run: "ipc_inv c \<Longrightarrow> ipc_inv (ipc_run c es)"
  unfolding ipc_run_def by (induction es arbitrary: c) (auto intro: inv_intro)

lemma ipc_inv_new [simp]: "ipc_inv new_client"
  by (simp add: ipc_inv_def new_client_def maxQueue_def)

subsection \<open>After a stop\<close>

definition halted :: "ipc_client \<Rightarrow> bool" where
  "halted c \<longleftrightarrow> c_stopped c \<and> c_timer c = None \<and> c_ws c = None"

lemma halted_no_send: "halted c \<Longrightarrow> can_send c = None"
  by (simp add: halted_def can_send_def)

lemma halted_send [simp]:
  "halted c \<Longrightarrow> halted (fst (sendFrame f c))" "halted c \<Longrightarrow> w_sent (fst (sendFrame f c)) = w_sent c"
  "halted c \<Longrightarrow> length (w_sockets (fst (sendFrame f c))) = length (w_sockets c)"
  by (simp_all add: sendFrame_def halted_no_send) (simp add: halted_def)

lemma halted_send_msg [simp]:
  "halted c \<Longrightarrow> halted (send_msg ty p c)" "halted c \<Longrightarrow> w_sent (send_msg ty p c) = w_sent c"
  "halted c \<Longrightarrow> length (w_sockets (send_msg ty p c)) = length (w_sockets c)"
proof -
  assume h: "halted c"
  then have "halted (c\<lparr>w_requested := r\<rparr>)" for r by (simp add: halted_def)
  then show "halted (send_msg ty p c)" "w_sent (send_msg ty p c) = w_sent c"
    "length (w_sockets (send_msg ty p c)) = length (w_sockets c)"
    by (simp_all add: send_msg_def Let_def)
qed

lemma halted_fold:
  "halted c \<Longrightarrow> halted (foldl (\<lambda>c f. fst (sendFrame f c)) c fs)
     \<and> w_sent (foldl (\<lambda>c f. fst (sendFrame f c)) c fs) = w_sent c
     \<and> length (w_sockets (foldl (\<lambda>c f. fst (sendFrame f c)) c fs)) = length (w_sockets c)"
  by (induction fs arbitrary: c) simp_all

lemma halted_receive:
  "halted c \<Longrightarrow> halted (receive now data c) \<and> w_sent (receive now data c) = w_sent c
     \<and> length (w_sockets (receive now data c)) = length (w_sockets c)"
proof -
  assume h: "halted c"
  have d: "halted (c\<lparr>w_delivered := x\<rparr>) = halted c" for c x by (simp add: halted_def)
  from h show ?thesis by (auto simp: receive_def Let_def d split: sum.splits option.splits)
qed

lemma halted_step:
  assumes h: "halted c" and e: "\<forall>ok. e \<noteq> Ev_connect ok"
  shows "halted (ipc_step c e) \<and> w_sent (ipc_step c e) = w_sent c
    \<and> length (w_sockets (ipc_step c e)) = length (w_sockets c)"
proof (cases e)
  case (Ev_open i)
  have "halted ((set_socket i OPEN c)\<lparr>c_connected := True, c_attempt := 0, c_queue := []\<rparr>)"
    using h by (simp add: halted_def)
  from halted_fold [OF this, of "c_queue c"] h Ev_open show ?thesis
    by (simp add: onopen_def flush_def)
next
  case (Ev_message i now data)
  then show ?thesis using h by (simp add: halted_receive)
next
  case (Ev_send ty p)
  then show ?thesis using h by simp
qed (use assms in \<open>auto simp: halted_def stop_client_def Let_def onclose_def onerror_def scheduleReconnect_def\<close>)

lemma halted_run:
  "halted c \<Longrightarrow> \<forall>e \<in> set es. \<forall>ok. e \<noteq> Ev_connect ok \<Longrightarrow>
   halted (ipc_run c es) \<and> w_sent (ipc_run c es) = w_sent c
   \<and> length (w_sockets (ipc_run c es)) = length (w_sockets c)"
proof (induction es arbitrary: c)
  case (Cons e es)
  then have "halted (ipc_step c e) \<and> w_sent (ipc_step c e) = w_sent c
    \<and> length (w_sockets (ipc_step c e)) = length (w_sockets c)"
    by (intro halted_step) simp_all
  with Cons show ?case by (simp add: ipc_run_def del: ipc_step.simps)
qed (simp add: ipc_run_def)

lemma stop_halts: "halted (stop_client c)"
  by (auto simp: halted_def stop_client_def Let_def split: option.splits)

lemma stop_quiet: "w_sent (stop_client c) = w_sent c \<and> length (w_sockets (stop_client c)) = length (w_sockets c)"
  by (auto simp: stop_client_def Let_def split: option.splits)

subsection \<open>Failing connections\<close>

definition failing_rounds :: "nat \<Rightarrow> ipc_event list" where
  "failing_rounds k = concat (map (\<lambda>i. [Ev_close i, Ev_timer True]) [0..<k])"

lemma failing_rounds_state:
  "ipc_run (ipc_step new_client (Ev_connect True)) (failing_rounds k)
   = new_client\<lparr>c_ws := Some k, c_attempt := k, w_sockets := replicate k CLOSED @ [CONNECTING]\<rparr>"
proof (induction k)
  case 0
  show ?case by (simp add: failing_rounds_def ipc_run_def connect_def open_socket_def new_client_def)
next
  case (Suc k)
  have "failing_rounds (Suc k) = failing_rounds k @ [Ev_close k, Ev_timer True]"
    by (simp add: failing_rounds_def)
  moreover have "replicate k CLOSED @ [CLOSED, CONNECTING] = CLOSED # replicate k CLOSED @ [CONNECTING]"
    by (simp add: replicate_append_same [symmetric])
  ultimately show ?case
    using Suc by (simp add: ipc_run_def socket_state_def onclose_def set_socket_def scheduleReconnect_def
        open_socket_def new_client_def Let_def nth_append list_update_append)
qed

subsection \<open>Properties\<close>

text \<open>
  Outbound frames keep their order: whatever happens to the connection, the frames sent so far
  followed by those waiting are frames the callers asked for, in that order and none twice; at
  most 50 wait; and as long as no more than 50 were asked for, none is lost.
\<close>

theorem frames_in_order:
  assumes "c = ipc_run new_client es"
  shows "subseq (map snd (w_sent c) @ c_queue c) (w_requested c)
    \<and> length (c_queue c) \<le> maxQueue
    \<and> (length (w_requested c) \<le> maxQueue \<longrightarrow> map snd (w_sent c) @ c_queue c = w_requested c)"
  using ipc_inv_run [OF ipc_inv_new, of es] assms by (simp add: ipc_inv_def)

lemma frames_in_order_witness:
  "map snd (w_sent (ipc_run new_client [Ev_send 7 J_null, Ev_connect True, Ev_send 7 (J_bool True), Ev_open 0]))
   @ c_queue (ipc_run new_client [Ev_send 7 J_null, Ev_connect True, Ev_send 7 (J_bool True), Ev_open 0])
   = [encodeFrame 7 J_null, encodeFrame 7 (J_bool True)]"
proof -
  let ?es = "[Ev_send 7 J_null, Ev_connect True, Ev_send 7 (J_bool True), Ev_open 0]"
  have "w_requested (ipc_run new_client ?es) = [encodeFrame 7 J_null, encodeFrame 7 (J_bool True)]"
    by (simp add: ipc_run_def new_client_def send_msg_def Let_def sendFrame_def can_send_def push_queue_def
        maxQueue_def connect_def open_socket_def socket_state_def set_socket_def onopen_def flush_def)
  with frames_in_order [OF refl, of ?es] show ?thesis by (simp add: maxQueue_def)
qed

text \<open>
  Reconnection backs off as documented: if every attempt fails, the wait before attempt
  \<open>k + 2\<close> is 100, 200, 400, 800, 1600 ms and 5 s from then on, and a successful opening
  starts over.
\<close>

theorem backoff_schedule:
  "c_timer (ipc_run new_client (Ev_connect True # failing_rounds k @ [Ev_close k]))
     = Some (if k < 5 then 100 * 2 ^ k else 5000)
   \<and> c_attempt (ipc_run new_client (Ev_connect True # failing_rounds k @ [Ev_open k])) = 0"
proof -
  have "BACKOFF_MS ! k = 100 * 2 ^ k" if "k < 5"
    using that by (auto simp: BACKOFF_MS_def less_Suc_eq numeral_eq_Suc)
  moreover have run: "ipc_run new_client (Ev_connect True # failing_rounds k @ [e])
      = ipc_step (new_client\<lparr>c_ws := Some k, c_attempt := k, w_sockets := replicate k CLOSED @ [CONNECTING]\<rparr>) e" for e
    using failing_rounds_state [of k] by (simp add: ipc_run_def del: ipc_step.simps)
  ultimately show ?thesis
    unfolding run
    by (simp add: socket_state_def nth_append onclose_def scheduleReconnect_def set_socket_def Let_def
        BACKOFF_MS_def new_client_def onopen_def flush_def)
qed

text \<open>
  A stop is final until the next \<open>connect\<close>: whatever events the old sockets still raise, no
  socket is created, nothing is sent and no reconnection is pending.
\<close>

theorem stop_is_final:
  assumes "\<forall>e \<in> set es. \<forall>ok. e \<noteq> Ev_connect ok"
  shows "let c' = ipc_run (ipc_step c Ev_stop) es in
     w_sent c' = w_sent c \<and> length (w_sockets c') = length (w_sockets c) \<and> c_timer c' = None \<and> c_ws c' = None"
  using halted_run [OF stop_halts assms, of c] stop_quiet [of c] by (simp add: Let_def halted_def)

lemma stop_is_final_witness:
  "c_timer (ipc_run (ipc_step (ipc_step new_client (Ev_connect True)) Ev_stop) [Ev_close 0, Ev_timer True, Ev_send 7 J_null]) = None"
  using stop_is_final [of "[Ev_close 0, Ev_timer True, Ev_send 7 J_null]" "ipc_step new_client (Ev_connect True)"]
  by (simp add: Let_def del: ipc_step.simps)

text \<open>
  The close event of an old socket disconnects the new one: after \<open>stop\<close> and \<open>connect\<close>, while
  the new socket is open, the late close of the old one clears the client's socket and schedules a
  reconnection although the new socket stays open, and the next frame is queued instead of sent.
\<close>

theorem stale_close_disconnects:
  assumes "c_ws c = Some j" "socket_state c j = OPEN" "c_connected c" "\<not> c_stopped c"
    and "i \<noteq> j" "socket_state c i \<noteq> CLOSED" "ipc_inv c"
  shows "let c' = ipc_step c (Ev_close i) in
     c_ws c' = None \<and> c_timer c' \<noteq> None \<and> socket_state c' j = OPEN
     \<and> w_sent (ipc_step c' (Ev_send ty p)) = w_sent c \<and> c_queue (ipc_step c' (Ev_send ty p)) = [encodeFrame ty p]"
proof -
  have "i < length (w_sockets c)" using assms(6) by (rule socket_lt)
  moreover have "c_queue c = []" using assms(1,2,7) by (simp add: ipc_inv_def)
  ultimately show ?thesis
    using assms by (simp add: Let_def onclose_def scheduleReconnect_def send_msg_def sendFrame_def can_send_def
        push_queue_def maxQueue_def)
qed

definition restarted :: ipc_client where
  "restarted = ipc_run new_client [Ev_connect True, Ev_open 0, Ev_stop, Ev_connect True, Ev_open 1]"

lemma stale_close_disconnects_witness:
  "c_ws (ipc_step restarted (Ev_close 0)) = None \<and> socket_state (ipc_step restarted (Ev_close 0)) 1 = OPEN"
proof -
  have s: "c_ws restarted = Some 1" "socket_state restarted 1 = OPEN" "c_connected restarted" "\<not> c_stopped restarted"
    "socket_state restarted 0 \<noteq> CLOSED"
    by (simp_all add: restarted_def ipc_run_def new_client_def connect_def open_socket_def socket_state_def
        set_socket_def onopen_def flush_def stop_client_def close_socket_def Let_def)
  have "ipc_inv restarted" unfolding restarted_def by (rule ipc_inv_run) simp
  with stale_close_disconnects [OF s(1-4) _ s(5)] show ?thesis by (simp add: Let_def del: ipc_step.simps)
qed

text \<open>
  A trigger is acknowledged once, before it is handed on: a trigger event with an id that
  arrives while frames can be sent makes the client send exactly one frame on its socket, an
  acknowledgement that decodes to the same id, and deliver the event.
\<close>

theorem trigger_acknowledged:
  assumes "can_send c = Some i" and "socket_state c k = OPEN" and "decodeFrame data = Inr (TRIGGER_EVENT, J_obj ms)"
    and "lookup ms (ascii ''id'') = Some v" and "json_ok v"
    and "length (text_encode (stringify (J_obj [(ascii ''id'', v)]))) < 4294967296"
  shows "\<exists>f. w_sent (ipc_step c (Ev_message k now data)) = w_sent c @ [(i, f)]
    \<and> decodeFrame f = Inr (TRIGGER_ACK, J_obj [(ascii ''id'', v)])
    \<and> w_delivered (ipc_step c (Ev_message k now data)) = w_delivered c @ [(TRIGGER_EVENT, J_obj ms)]"
proof -
  let ?ack = "J_obj [(ascii ''id'', v)]"
  have "json_ok ?ack" using assms(5) by (simp add: units_ok_def ascii_def)
  then have "decodeFrame (encodeFrame TRIGGER_ACK ?ack @ []) = Inr (TRIGGER_ACK, ?ack)"
    using assms(6) by (intro decode_parts) (simp_all add: msg_defs)
  moreover have "can_send (c\<lparr>w_requested := r\<rparr>) = Some i" for r
    using assms(1) by (auto simp: can_send_def split: option.splits if_splits)
  ultimately show ?thesis
    using assms(2-4)
    by (simp add: receive_def id_payload_def send_msg_def sendFrame_def Let_def msg_defs)
qed

definition trigger_frame :: "byte list" where
  "trigger_frame = encodeFrame TRIGGER_EVENT (J_obj [(ascii ''id'', J_bool True)])"

lemma trigger_acknowledged_witness:
  "\<exists>f. w_sent (ipc_step restarted (Ev_message 1 0 trigger_frame)) = w_sent restarted @ [(1, f)]
     \<and> decodeFrame f = Inr (TRIGGER_ACK, J_obj [(ascii ''id'', J_bool True)])"
proof -
  have len: "length (text_encode (stringify (J_obj [(ascii ''id'', J_bool True)]))) < 4294967296"
    by (simp add: text_encode_def ascii_def quote_string_def quote_unit_def is_high_def is_low_def enc_unit_def)
  have "json_ok (J_obj [(ascii ''id'', J_bool True)])" by (simp add: units_ok_def ascii_def)
  then have d: "decodeFrame trigger_frame = Inr (TRIGGER_EVENT, J_obj [(ascii ''id'', J_bool True)])"
    using decode_parts [of TRIGGER_EVENT _ "[]"] len by (simp add: trigger_frame_def msg_defs)
  have c: "can_send restarted = Some 1" "socket_state restarted 1 = OPEN"
    by (simp_all add: restarted_def ipc_run_def new_client_def connect_def open_socket_def socket_state_def
        set_socket_def onopen_def flush_def stop_client_def close_socket_def Let_def can_send_def)
  have "lookup [(ascii ''id'', J_bool True)] (ascii ''id'') = Some (J_bool True)" "json_ok (J_bool True)" by simp_all
  from trigger_acknowledged [OF c d this len, of 0] show ?thesis by blast
qed

end
