(* ===== verification/Primary_Tab.thy ===== *)
theory Primary_Tab
  imports Ipc_Protocol "HOL-Library.List_Lexorder"
begin

text \<open>
  Which of several tabs reacts to a trigger: the election of \<open>frontend/src/lib/primaryTab.js\<close> and
  the hook \<open>hooks/useDaemonIpc.js\<close> that asks it.  Every tab keeps a map of the ids it has heard of
  with the time of the last message; the least live id is primary.  Without a broadcast channel
  the tab hears nobody.  Ids are compared by code units, as the default sort does.
\<close>

subsection \<open>Election (lib/primaryTab.js)\<close>

record election =
  el_id :: ustring
  el_peers :: "(ustring \<times> int) list"
  el_primary :: ustring
  el_notified :: "bool list"

definition electPrimary :: "ustring \<Rightarrow> int \<Rightarrow> election" where
  "electPrimary i now = \<lparr>el_id = i, el_peers = [(i, now)], el_primary = i, el_notified = []\<rparr>"

definition expire_peers :: "ustring \<Rightarrow> int \<Rightarrow> (ustring \<times> int) list \<Rightarrow> (ustring \<times> int) list" where
  "expire_peers i now peers = filter (\<lambda>(pid, ts). \<not> (pid \<noteq> i \<and> now - ts > 1500)) peers"

definition recompute :: "int \<Rightarrow> election \<Rightarrow> election" where
  "recompute now e =
     (let peers = expire_peers (el_id e) now (el_peers e);
          next_id = hd (sort (map fst peers))
      in if next_id \<noteq> el_primary e
         then e\<lparr>el_peers := peers, el_primary := next_id, el_notified := el_notified e @ [next_id = el_id e]\<rparr>
         else e\<lparr>el_peers := peers\<rparr>)"

text \<open>A message from another tab; one without an id (or with an empty one) is ignored.\<close>

definition onmessage :: "ustring option \<Rightarrow> int \<Rightarrow> election \<Rightarrow> election" where
  "onmessage pid now e =
     (case pid of
        None \<Rightarrow> e
      | Some p \<Rightarrow> if p = [] then e else recompute now (e\<lparr>el_peers := store p now (el_peers e)\<rparr>))"

definition beat :: "int \<Rightarrow> election \<Rightarrow> election" where
  "beat now e = recompute now (e\<lparr>el_peers := store (el_id e) now (el_peers e)\<rparr>)"

text \<open>The timer that reports the first result to the caller.\<close>

definition initial_notification :: "election \<Rightarrow> election" where
  "initial_notification e = e\<lparr>el_notified := el_notified e @ [el_primary e = el_id e]\<rparr>"

definition isPrimary :: "election \<Rightarrow> bool" where
  "isPrimary e \<longleftrightarrow> el_primary e = el_id e"

datatype tab_event = Heard "ustring option" int | Beat int

fun tab_step :: "election \<Rightarrow> tab_event \<Rightarrow> election" where
  "tab_step e (Heard p now) = onmessage p now e"
| "tab_step e (Beat now) = beat now e"

definition tab_run :: "election \<Rightarrow> tab_event list \<Rightarrow> election" where
  "tab_run e es = foldl tab_step e es"

subsection \<open>The hook (hooks/useDaemonIpc.js)\<close>

datatype surfaced = On_trigger json | On_focus json | Nothing

definition daemon_onMessage :: "election \<Rightarrow> nat \<Rightarrow> json \<Rightarrow> surfaced" where
  "daemon_onMessage e ty payload =
     (if \<not> isPrimary e then Nothing
      else if ty = TRIGGER_EVENT then On_trigger payload
      else if ty = FOCUS_WINDOW \<or> ty = SHOW_WINDOW then On_focus payload
      else Nothing)"

subsection \<open>The least live id\<close>

lemma hd_sort_Min: "xs \<noteq> [] \<Longrightarrow> hd (sort xs) = Min (set xs)"
  for xs :: "ustring list"
proof -
  assume "xs \<noteq> []"
  then obtain y ys where s: "sort xs = y # ys" by (cases "sort xs") (auto dest: arg_cong [of _ _ length])
  then have "sorted (y # ys)" by (metis sorted_sort)
  moreover have "set xs = set (y # ys)" using s by (metis set_sort)
  ultimately have "Min (set xs) = y" by (intro Min_eqI) auto
  with s show ?thesis by simp
qed

definition live_ids :: "election \<Rightarrow> ustring set" where
  "live_ids e = fst ` set (el_peers e)"

text \<open>A tab knows itself, and the id it holds for primary is the least it knows.\<close>

definition election_ok :: "election \<Rightarrow> bool" where
  "election_ok e \<longleftrightarrow> distinct (map fst (el_peers e)) \<and> el_id e \<in> live_ids e \<and> el_primary e = Min (live_ids e)"

lemma expire_keeps_self: "i \<in> fst ` set peers \<Longrightarrow> i \<in> fst ` set (expire_peers i now peers)"
  by (force simp: expire_peers_def)

lemma expire_distinct: "distinct (map fst peers) \<Longrightarrow> distinct (map fst (expire_peers i now peers))"
  by (simp add: expire_peers_def distinct_map_filter)

lemma recompute_ok: "distinct (map fst (el_peers e)) \<Longrightarrow> el_id e \<in> live_ids e \<Longrightarrow> election_ok (recompute now e)"
proof -
  assume self: "el_id e \<in> live_ids e" and d: "distinct (map fst (el_peers e))"
  let ?p = "expire_peers (el_id e) now (el_peers e)"
  have i: "el_id e \<in> fst ` set ?p" using self by (simp add: live_ids_def expire_keeps_self)
  then have "map fst ?p \<noteq> []" by auto
  from hd_sort_Min [OF this] i expire_distinct [OF d] show ?thesis
    by (auto simp: recompute_def Let_def election_ok_def live_ids_def)
qed

lemma recompute_id [simp]: "el_id (recompute now e) = el_id e"
  by (simp add: recompute_def Let_def)

lemma tab_step_id [simp]: "el_id (tab_step e ev) = el_id e"
  by (cases ev) (auto simp: onmessage_def beat_def split: option.splits)

lemma election_distinct: "election_ok e \<Longrightarrow> distinct (map fst (el_peers e))"
  by (simp add: election_ok_def)

lemma tab_step_ok: "election_ok e \<Longrightarrow> election_ok (tab_step e ev)"
proof (cases ev)
  case (Heard p now)
  assume "election_ok e"
  then have "el_id e \<in> insert x (fst ` set (el_peers e))" for x by (simp add: election_ok_def live_ids_def)
  with \<open>election_ok e\<close> Heard show ?thesis
    by (auto simp: onmessage_def live_ids_def election_distinct intro!: recompute_ok split: option.splits)
next
  case (Beat now)
  assume "election_ok e"
  with Beat show ?thesis by (auto simp: beat_def live_ids_def election_distinct intro!: recompute_ok)
qed

lemma tab_run_ok: "election_ok e \<Longrightarrow> election_ok (tab_run e es) \<and> el_id (tab_run e es) = el_id e"
  unfolding tab_run_def by (induction es arbitrary: e) (auto simp: tab_step_ok simp del: tab_step.simps)

lemma electPrimary_ok [simp]: "election_ok (electPrimary i now)" "el_id (electPrimary i now) = i"
  by (simp_all add: election_ok_def live_ids_def electPrimary_def)

lemma isPrimary_iff: "election_ok e \<Longrightarrow> isPrimary e \<longleftrightarrow> (\<forall>p \<in> live_ids e. el_id e \<le> p)"
proof -
  assume ok: "election_ok e"
  have fin: "finite (live_ids e)" by (simp add: live_ids_def)
  have self: "el_id e \<in> live_ids e" using ok by (simp add: election_ok_def)
  then have "Min (live_ids e) = el_id e \<longleftrightarrow> (\<forall>p \<in> live_ids e. el_id e \<le> p)"
    using Min_eq_iff [OF fin] by blast
  with ok show ?thesis by (simp add: isPrimary_def election_ok_def)
qed

lemma set_store_distinct: "distinct (map fst m) \<Longrightarrow> set (store k v m) = insert (k, v) {x \<in> set m. fst x \<noteq> k}"
  by (induction k v m rule: store.induct) force+

lemma beat_live:
  assumes "election_ok e"
  shows "live_ids (beat now e) = insert (el_id e) {p. \<exists>ts. (p, ts) \<in> set (el_peers e) \<and> p \<noteq> el_id e \<and> now - ts \<le> 1500}"
proof -
  have "el_peers (beat now e) = expire_peers (el_id e) now (store (el_id e) now (el_peers e))"
    by (simp add: beat_def recompute_def Let_def)
  then have "set (el_peers (beat now e))
      = {x \<in> insert (el_id e, now) {x \<in> set (el_peers e). fst x \<noteq> el_id e}. fst x = el_id e \<or> now - snd x \<le> 1500}"
    using set_store_distinct [OF election_distinct [OF assms], of "el_id e" now]
    by (auto simp: expire_peers_def)
  moreover have "x \<in> fst ` S \<longleftrightarrow> (\<exists>ts. (x, ts) \<in> S)" for x :: ustring and S :: "(ustring \<times> int) set"
    by force
  ultimately show ?thesis unfolding live_ids_def by auto
qed

lemma tab_run_reached: "e = tab_run (electPrimary i now) es \<Longrightarrow> election_ok e"
  using tab_run_ok [OF electPrimary_ok(1), of i now es] by simp

subsection \<open>Properties\<close>

text \<open>
  C39. Exactly one of the tabs that know each other reacts: if every tab, after whatever it heard and
  sent, has exactly the ids of all the tabs among its live peers, then exactly one tab is primary,
  and only that one surfaces a trigger.
\<close>

theorem one_primary_tab:
  assumes "tabs \<noteq> []" and "distinct (map el_id tabs)"
    and "\<forall>e \<in> set tabs. \<exists>i now es. e = tab_run (electPrimary i now) es"
    and "\<forall>e \<in> set tabs. live_ids e = el_id ` set tabs"
  shows "(\<exists>!e. e \<in> set tabs \<and> isPrimary e)
    \<and> (\<exists>!e. e \<in> set tabs \<and> daemon_onMessage e TRIGGER_EVENT p \<noteq> Nothing)"
proof -
  have ok: "election_ok e" if "e \<in> set tabs" for e
  proof -
    from assms(3) that obtain i now es where "e = tab_run (electPrimary i now) es" by blast
    then show ?thesis by (rule tab_run_reached)
  qed
  have fin: "finite (el_id ` set tabs)" "el_id ` set tabs \<noteq> {}" using assms(1) by auto
  define i where "i = Min (el_id ` set tabs)"
  have prim: "isPrimary e \<longleftrightarrow> el_id e = i" if "e \<in> set tabs" for e
    using ok [OF that] assms(4) that by (auto simp: isPrimary_def election_ok_def i_def)
  from Min_in [OF fin] obtain e where e: "e \<in> set tabs" "el_id e = i" by (auto simp: i_def)
  moreover have "e' = e" if "e' \<in> set tabs" "el_id e' = i" for e'
    using assms(2) e that by (auto simp: distinct_map inj_on_def)
  ultimately have ex: "\<exists>!e. e \<in> set tabs \<and> el_id e = i" by blast
  have "daemon_onMessage e TRIGGER_EVENT p \<noteq> Nothing \<longleftrightarrow> isPrimary e" for e
    by (simp add: daemon_onMessage_def)
  with ex prim show ?thesis by (metis (no_types, lifting))
qed

definition two_tabs :: "election list" where
  "two_tabs = [tab_run (electPrimary [98] 0) [Heard (Some [97]) 10], tab_run (electPrimary [97] 5) [Heard (Some [98]) 20]]"

lemma one_primary_tab_witness:
  "\<exists>!e. e \<in> set two_tabs \<and> daemon_onMessage e TRIGGER_EVENT J_null \<noteq> Nothing"
proof -
  have tabs: "two_tabs = [\<lparr>el_id = [98], el_peers = [([98], 0), ([97], 10)], el_primary = [97], el_notified = [False]\<rparr>,
      \<lparr>el_id = [97], el_peers = [([97], 5), ([98], 20)], el_primary = [97], el_notified = []\<rparr>]"
    by (simp add: two_tabs_def tab_run_def electPrimary_def onmessage_def recompute_def expire_peers_def Let_def)
  have "\<forall>e \<in> set two_tabs. \<exists>i now es. e = tab_run (electPrimary i now) es"
    by (auto simp: two_tabs_def)
  with one_primary_tab [of two_tabs J_null] show ?thesis
    by (simp add: tabs live_ids_def insert_commute)
qed

text \<open>
  Takeover after silence, and not before: at its own heartbeat a tab is primary exactly when it
  has not heard of any smaller id within the last 1.5 s.  In particular a smaller id that is gone
  (a tab closed, or the election a page re-created) keeps every other tab silent until then.
\<close>

theorem takeover_after_silence:
  assumes "e = tab_run (electPrimary i t0) es"
  shows "isPrimary (beat now e) = (\<forall>p ts. (p, ts) \<in> set (el_peers e) \<and> p < el_id e \<longrightarrow> 1500 < now - ts)"
proof -
  have ok: "election_ok e" using assms by (rule tab_run_reached)
  have "election_ok (tab_step e (Beat now))" using ok by (rule tab_step_ok)
  from isPrimary_iff [OF this] have "isPrimary (beat now e) \<longleftrightarrow> (\<forall>p \<in> live_ids (beat now e). el_id e \<le> p)"
    by (simp add: beat_def)
  also have "\<dots> \<longleftrightarrow> (\<forall>p ts. (p, ts) \<in> set (el_peers e) \<and> p < el_id e \<longrightarrow> 1500 < now - ts)"
    unfolding beat_live [OF ok] by (fastforce simp: not_le not_less)
  finally show ?thesis .
qed

lemma takeover_after_silence_witness:
  "\<not> isPrimary (beat 1510 (tab_run (electPrimary [98] 0) [Heard (Some [97]) 10]))
   \<and> isPrimary (beat 1511 (tab_run (electPrimary [98] 0) [Heard (Some [97]) 10]))"
proof -
  have e: "tab_run (electPrimary [98] 0) [Heard (Some [97]) 10]
      = \<lparr>el_id = [98], el_peers = [([98], 0), ([97], 10)], el_primary = [97], el_notified = [False]\<rparr>"
    by (simp add: tab_run_def electPrimary_def onmessage_def recompute_def expire_peers_def Let_def)
  have "\<not> (\<forall>p ts. (p, ts) \<in> set [([98::nat], 0::int), ([97], 10)] \<and> p < [98] \<longrightarrow> 1500 < 1510 - ts)"
    by (auto intro!: exI [of _ "[97]"])
  moreover have "\<forall>p ts. (p, ts) \<in> set [([98::nat], 0::int), ([97], 10)] \<and> p < [98] \<longrightarrow> 1500 < 1511 - ts"
    by auto
  ultimately show ?thesis
    using takeover_after_silence [OF refl, of 1510 "[98]" 0 "[Heard (Some [97]) 10]"]
      takeover_after_silence [OF refl, of 1511 "[98]" 0 "[Heard (Some [97]) 10]"]
    by (simp only: e election.simps) blast
qed

end
