(* ===== verification/Local_Storage.thy ===== *)
theory Local_Storage
  imports Json
begin

text \<open>
  The persistence of the front end, \<open>frontend/src/lib/storage.js\<close>: values are kept as JSON text
  under string keys, every access may fail (no storage, quota), and no failure reaches the caller.
  The locale \<open>kv_store\<close> is the interface of the browser's storage the functions rely on.
\<close>

subsection \<open>The browser's storage\<close>

text \<open>Every operation of the browser may throw; the two flags say whether it does.\<close>

record local_storage =
  ls_items :: "(string \<times> ustring) list"
  ls_readable :: bool
  ls_writable :: bool

definition getItem :: "local_storage \<Rightarrow> string \<Rightarrow> unit + ustring option" where
  "getItem s k = (if ls_readable s then Inr (lookup (ls_items s) k) else Inl ())"

definition setItem :: "local_storage \<Rightarrow> string \<Rightarrow> ustring \<Rightarrow> unit + local_storage" where
  "setItem s k v = (if ls_writable s then Inr (s\<lparr>ls_items := store k v (ls_items s)\<rparr>) else Inl ())"

locale kv_store =
  fixes get :: "'s \<Rightarrow> 'k \<Rightarrow> 'e + 'v option"
    and set_item :: "'s \<Rightarrow> 'k \<Rightarrow> 'v \<Rightarrow> 'e + 's"
    and works :: "'s \<Rightarrow> bool"
  assumes get_works: "works s \<Longrightarrow> \<exists>r. get s k = Inr r"
    and set_works: "works s \<Longrightarrow> \<exists>s'. set_item s k v = Inr s' \<and> works s'"
    and get_set: "works s \<Longrightarrow> set_item s k v = Inr s' \<Longrightarrow> get s' k' = (if k' = k then Inr (Some v) else get s k')"
begin

definition put_all :: "'s \<Rightarrow> ('k \<times> 'v) list \<Rightarrow> 's" where
  "put_all s kvs = foldl (\<lambda>s (k, v). case set_item s k v of Inr s' \<Rightarrow> s' | Inl _ \<Rightarrow> s) s kvs"

lemma put_all_works: "works s \<Longrightarrow> works (put_all s kvs)"
  unfolding put_all_def
proof (induction kvs arbitrary: s)
  case (Cons p kvs)
  obtain k v where p: "p = (k, v)" by (cases p)
  from set_works [OF Cons.prems, of k v] obtain s' where "set_item s k v = Inr s'" "works s'" by blast
  with Cons.IH p show ?case by simp
qed simp

lemma put_all_other: "works s \<Longrightarrow> k \<notin> fst ` set kvs \<Longrightarrow> get (put_all s kvs) k = get s k"
  unfolding put_all_def
proof (induction kvs arbitrary: s)
  case (Cons p kvs)
  obtain j v where p: "p = (j, v)" by (cases p)
  from set_works [OF Cons.prems(1), of j v] obtain s' where s': "set_item s j v = Inr s'" "works s'" by blast
  have "get s' k = get s k" using get_set [OF Cons.prems(1) s'(1), of k] Cons.prems(2) p by simp
  with Cons s' p show ?case by simp
qed simp

end

interpretation browser: kv_store getItem setItem "\<lambda>s. ls_readable s \<and> ls_writable s"
  by unfold_locales (auto simp: getItem_def setItem_def)

subsection \<open>Reading and writing JSON (lib/storage.js)\<close>

definition STORAGE_KEYS :: "(string \<times> string) list" where
  "STORAGE_KEYS = [(''settings'', ''sigma_settings''), (''completed'', ''sigma_completed''), (''runtime'', ''sigma_task_runtime'')]"

definition readJSON :: "local_storage \<Rightarrow> string \<Rightarrow> json \<Rightarrow> json" where
  "readJSON s k fallback =
     (case getItem s k of
        Inl _ \<Rightarrow> fallback
      | Inr None \<Rightarrow> fallback
      | Inr (Some raw) \<Rightarrow> (case parse_json raw of None \<Rightarrow> fallback | Some v \<Rightarrow> v))"

definition writeJSON :: "local_storage \<Rightarrow> string \<Rightarrow> json \<Rightarrow> local_storage" where
  "writeJSON s k v = (case setItem s k (stringify v) of Inl _ \<Rightarrow> s | Inr s' \<Rightarrow> s')"

subsection \<open>Settings\<close>

definition DEFAULT_SETTINGS :: "(ustring \<times> json) list" where
  "DEFAULT_SETTINGS =
     [(ascii ''username'', J_str [0xC801, 0xC751, 0xD615, 0x20, 0xD560, 0x20, 0xC77C]),
      (ascii ''notifyStart'', J_bool True), (ascii ''notifyDeadline'', J_bool True),
      (ascii ''theme'', J_str (ascii ''dark''))]"

text \<open>
  The own enumerable properties a spread copies: the members of an object, the indices of an array
  or of a string, and nothing of the other values.
\<close>

definition spread :: "json \<Rightarrow> (ustring \<times> json) list" where
  "spread v =
     (case v of
        J_obj ms \<Rightarrow> ms
      | J_arr vs \<Rightarrow> map (\<lambda>(i, x). (ascii (show_nat i), x)) (enumerate 0 vs)
      | J_str s \<Rightarrow> map (\<lambda>(i, c). (ascii (show_nat i), J_str [c])) (enumerate 0 s)
      | _ \<Rightarrow> [])"

definition assign_all :: "(ustring \<times> json) list \<Rightarrow> (ustring \<times> json) list \<Rightarrow> (ustring \<times> json) list" where
  "assign_all base ms = foldl (\<lambda>acc (k, v). store k v acc) base ms"

definition loadSettings :: "local_storage \<Rightarrow> (ustring \<times> json) list" where
  "loadSettings s = assign_all DEFAULT_SETTINGS (spread (readJSON s ''sigma_settings'' (J_obj [])))"

definition saveSettings :: "local_storage \<Rightarrow> (ustring \<times> json) list \<Rightarrow> local_storage" where
  "saveSettings s settings = writeJSON s ''sigma_settings'' (J_obj settings)"

subsection \<open>The history of completed tasks\<close>

definition loadCompleted :: "local_storage \<Rightarrow> json list" where
  "loadCompleted s = (case readJSON s ''sigma_completed'' (J_arr []) of J_arr vs \<Rightarrow> vs | _ \<Rightarrow> [])"

text \<open>
  \<open>i.taskId\<close>; \<open>None\<close> when reading a member of \<open>null\<close> throws, \<open>Some None\<close> for \<open>undefined\<close>.
\<close>

definition member_taskId :: "json \<Rightarrow> json option option" where
  "member_taskId i =
     (case i of
        J_null \<Rightarrow> None
      | J_obj ms \<Rightarrow> Some (lookup ms (ascii ''taskId''))
      | _ \<Rightarrow> Some None)"

text \<open>
  \<open>!==\<close> of two members; two objects or arrays from different places are never identical.
\<close>

definition strictly_different :: "json option \<Rightarrow> json option \<Rightarrow> bool" where
  "strictly_different a b \<longleftrightarrow>
     (case (a, b) of
        (None, None) \<Rightarrow> False
      | (Some (J_arr _), _) \<Rightarrow> True
      | (Some (J_obj _), _) \<Rightarrow> True
      | (Some x, Some y) \<Rightarrow> x \<noteq> y
      | _ \<Rightarrow> True)"

text \<open>\<open>None\<close>: the filter threw, and nothing is written.\<close>

definition appendCompleted :: "local_storage \<Rightarrow> json \<Rightarrow> (local_storage \<times> json list) option" where
  "appendCompleted s entry =
     (let old = loadCompleted s in
      if old \<noteq> [] \<and> (member_taskId entry = None \<or> (\<exists>i \<in> set old. member_taskId i = None)) then None
      else
        (let keep = filter (\<lambda>i. strictly_different (the (member_taskId i)) (the (member_taskId entry))) old;
             next_list = entry # keep
         in Some (writeJSON s ''sigma_completed'' (J_arr next_list), next_list)))"

definition clearCompleted :: "local_storage \<Rightarrow> local_storage" where
  "clearCompleted s = writeJSON s ''sigma_completed'' (J_arr [])"

subsection \<open>Round trips\<close>

definition storage_works :: "local_storage \<Rightarrow> bool" where
  "storage_works s \<longleftrightarrow> ls_readable s \<and> ls_writable s"

lemma read_write:
  "storage_works s \<Longrightarrow> json_ok v \<Longrightarrow>
   readJSON (writeJSON s k v) k' fb = (if k' = k then v else readJSON s k' fb)"
proof -
  assume s: "storage_works s" and v: "json_ok v"
  then obtain s' where s': "setItem s k (stringify v) = Inr s'" by (auto simp: setItem_def storage_works_def)
  have "getItem s' k' = (if k' = k then Inr (Some (stringify v)) else getItem s k')"
    using browser.get_set [OF _ s'] s by (simp add: storage_works_def)
  then show ?thesis using parse_stringify [OF v] by (simp add: readJSON_def writeJSON_def s')
qed

lemma write_works: "storage_works s \<Longrightarrow> storage_works (writeJSON s k v)"
  by (simp add: writeJSON_def setItem_def storage_works_def)

lemma unwritable_unchanged: "\<not> ls_writable s \<Longrightarrow> writeJSON s k v = s"
  by (simp add: writeJSON_def setItem_def)

lemma assign_all_lookup:
  "distinct (map fst ms) \<Longrightarrow>
   lookup (assign_all base ms) k = (case lookup ms k of Some v \<Rightarrow> Some v | None \<Rightarrow> lookup base k)"
  unfolding assign_all_def
proof (induction ms arbitrary: base)
  case (Cons m ms)
  obtain k' v where m: "m = (k', v)" by (cases m)
  with Cons.prems have "lookup ms k' = None" by (auto simp: map_of_eq_None_iff)
  with Cons m show ?case by (auto split: option.splits)
qed simp

lemma appended_ok:
  assumes "appendCompleted s entry = Some (s', l)"
  shows "l = entry # filter (\<lambda>i. strictly_different (the (member_taskId i)) (the (member_taskId entry))) (loadCompleted s)"
    and "s' = writeJSON s ''sigma_completed'' (J_arr l)"
  using assms by (auto simp: appendCompleted_def Let_def split: if_splits)

lemma not_different_same: "strictly_different (Some (J_num n)) x \<longleftrightarrow> x \<noteq> Some (J_num n)"
  "strictly_different (Some (J_str t)) x \<longleftrightarrow> x \<noteq> Some (J_str t)"
  by (auto simp: strictly_different_def split: option.splits)


subsection \<open>The history keeps the latest completion of each task\<close>

text \<open>The id of a history entry, where it is one the pages write: a number or a string.\<close>

definition entry_id :: "json \<Rightarrow> json option" where
  "entry_id e =
     (case member_taskId e of
        Some (Some (J_num n)) \<Rightarrow> Some (J_num n)
      | Some (Some (J_str t)) \<Rightarrow> Some (J_str t)
      | _ \<Rightarrow> None)"

definition record_completion :: "local_storage \<Rightarrow> json \<Rightarrow> local_storage" where
  "record_completion s e = (case appendCompleted s e of None \<Rightarrow> s | Some (s', _) \<Rightarrow> s')"

definition good_entry :: "json \<Rightarrow> bool" where
  "good_entry e \<longleftrightarrow> json_ok e \<and> entry_id e \<noteq> None"

lemma good_entry_member: "good_entry e \<Longrightarrow> \<exists>x. member_taskId e = Some (Some x) \<and> entry_id e = Some x
    \<and> ((\<exists>n. x = J_num n) \<or> (\<exists>t. x = J_str t))"
  by (auto simp: good_entry_def entry_id_def split: option.splits json.splits)

lemma good_different:
  "good_entry i \<Longrightarrow> good_entry e \<Longrightarrow>
   strictly_different (the (member_taskId i)) (the (member_taskId e)) \<longleftrightarrow> entry_id i \<noteq> entry_id e"
  by (drule good_entry_member, drule good_entry_member) (auto simp: not_different_same)

lemma record_step:
  assumes "storage_works s" and "\<forall>i \<in> set (loadCompleted s). good_entry i" and "good_entry e"
  shows "storage_works (record_completion s e)"
    and "loadCompleted (record_completion s e) = e # filter (\<lambda>i. entry_id i \<noteq> entry_id e) (loadCompleted s)"
proof -
  let ?l = "e # filter (\<lambda>i. entry_id i \<noteq> entry_id e) (loadCompleted s)"
  have "filter (\<lambda>i. strictly_different (the (member_taskId i)) (the (member_taskId e))) (loadCompleted s)
      = filter (\<lambda>i. entry_id i \<noteq> entry_id e) (loadCompleted s)"
    using assms(2,3) by (auto intro!: filter_cong simp: good_different)
  moreover have "member_taskId i \<noteq> None" if "good_entry i" for i
    using good_entry_member [OF that] by auto
  then have "\<not> (loadCompleted s \<noteq> [] \<and> (member_taskId e = None \<or> (\<exists>i \<in> set (loadCompleted s). member_taskId i = None)))"
    using assms(2,3) by blast
  ultimately have r: "record_completion s e = writeJSON s ''sigma_completed'' (J_arr ?l)"
    by (auto simp add: record_completion_def appendCompleted_def Let_def simp del: not_None_eq)
  show "storage_works (record_completion s e)" by (simp add: r write_works assms(1))
  have "json_ok (J_arr ?l)" using assms(2,3) by (auto simp: good_entry_def)
  then show "loadCompleted (record_completion s e) = ?l"
    by (simp add: r loadCompleted_def read_write [OF assms(1)])
qed

lemma find_filter_key:
  "List.find (\<lambda>i. key i = k) (e # filter (\<lambda>i. key i \<noteq> key e) l) =
   (if key e = k then Some e else List.find (\<lambda>i. key i = k) l)"
  by (induction l) auto

lemma find_append_Some: "List.find P (xs @ ys) = (case List.find P xs of Some x \<Rightarrow> Some x | None \<Rightarrow> List.find P ys)"
  by (induction xs) auto

definition history_of :: "json list \<Rightarrow> json list" where
  "history_of es = fold (\<lambda>e l. e # filter (\<lambda>i. entry_id i \<noteq> entry_id e) l) es []"

lemma history_of_snoc: "history_of (es @ [e]) = e # filter (\<lambda>i. entry_id i \<noteq> entry_id e) (history_of es)"
  by (simp add: history_of_def)

lemma history_of_set: "set (history_of es) \<subseteq> set es"
  by (induction es rule: rev_induct) (auto simp: history_of_snoc, simp add: history_of_def)

lemma distinct_map_filter_key: "distinct (map key l) \<Longrightarrow> distinct (map key (filter P l))"
  by (induction l) auto

lemma history_of_distinct: "distinct (map entry_id (history_of es))"
proof (induction es rule: rev_induct)
  case (snoc e es)
  then show ?case by (auto simp: history_of_snoc distinct_map_filter_key)
qed (simp add: history_of_def)

lemma history_of_find: "List.find (\<lambda>i. entry_id i = k) (history_of es) = List.find (\<lambda>i. entry_id i = k) (rev es)"
proof (induction es rule: rev_induct)
  case (snoc e es)
  then show ?case by (simp add: history_of_snoc find_filter_key del: List.find.simps(2)) simp
qed (simp add: history_of_def)

lemma loadCompleted_clear: "storage_works s \<Longrightarrow> loadCompleted (clearCompleted s) = []"
  by (simp add: loadCompleted_def clearCompleted_def read_write)

lemma record_all:
  assumes "storage_works s" and "\<forall>e \<in> set es. good_entry e"
  shows "storage_works (foldl record_completion (clearCompleted s) es)
    \<and> loadCompleted (foldl record_completion (clearCompleted s) es) = history_of es"
  using assms(2)
proof (induction es rule: rev_induct)
  case Nil
  have "storage_works (clearCompleted s)" by (simp add: clearCompleted_def write_works assms(1))
  then show ?case by (simp add: loadCompleted_clear assms(1) history_of_def)
next
  case (snoc e es)
  then have IH: "storage_works (foldl record_completion (clearCompleted s) es)"
    "loadCompleted (foldl record_completion (clearCompleted s) es) = history_of es" by auto
  have "\<forall>i \<in> set (history_of es). good_entry i" using history_of_set [of es] snoc.prems by auto
  then show ?case using record_step [OF IH(1), of e] IH(2) snoc.prems by (simp add: history_of_snoc)
qed

definition sample_entry :: "string \<Rightarrow> string \<Rightarrow> json" where
  "sample_entry i title = J_obj [(ascii ''taskId'', J_str (ascii i)), (ascii ''title'', J_str (ascii title))]"

lemma sample_entry_good: "good_entry (sample_entry ''a'' ''x'')" "good_entry (sample_entry ''b'' ''y'')"
  "good_entry (sample_entry ''a'' ''z'')"
  by (simp_all add: good_entry_def entry_id_def sample_entry_def member_taskId_def ascii_def units_ok_def)

text \<open>
  Starting from a cleared history in a working storage, after any sequence of completions
  recorded by \<open>appendCompleted\<close> the history loaded back has at most one entry per task id, for
  every id the last entry recorded with it, and the entry recorded last in front.
\<close>

theorem history_keeps_latest:
  assumes "storage_works s" and "\<forall>e \<in> set es. good_entry e"
  defines "l \<equiv> loadCompleted (foldl record_completion (clearCompleted s) es)"
  shows "distinct (map entry_id l)
    \<and> (\<forall>k. List.find (\<lambda>i. entry_id i = k) l = List.find (\<lambda>i. entry_id i = k) (rev es))
    \<and> (es = [] \<or> hd l = last es)"
proof -
  have l: "l = history_of es" using record_all [OF assms(1,2)] by (simp add: l_def)
  moreover have "es = [] \<or> hd (history_of es) = last es"
    by (cases es rule: rev_cases) (auto simp: history_of_snoc)
  ultimately show ?thesis by (simp add: history_of_distinct history_of_find)
qed

lemma history_keeps_latest_witness:
  "\<exists>l. l = loadCompleted (foldl record_completion
          (clearCompleted \<lparr>ls_items = [], ls_readable = True, ls_writable = True\<rparr>)
          [sample_entry ''a'' ''x'', sample_entry ''b'' ''y'', sample_entry ''a'' ''z''])
     \<and> distinct (map entry_id l)
     \<and> List.find (\<lambda>i. entry_id i = entry_id (sample_entry ''a'' ''x'')) l = Some (sample_entry ''a'' ''z'')"
  using history_keeps_latest [of "\<lparr>ls_items = [], ls_readable = True, ls_writable = True\<rparr>"
      "[sample_entry ''a'' ''x'', sample_entry ''b'' ''y'', sample_entry ''a'' ''z'']"]
  by (simp add: sample_entry_good storage_works_def)
    (simp add: entry_id_def sample_entry_def member_taskId_def)

subsection \<open>Settings\<close>

text \<open>
  Settings saved in a working storage are loaded back member by member, with the defaults for
  the members that were not saved; they are not touched by the history, and a storage that cannot
  be written leaves everything loaded as it was.
\<close>

theorem settings_roundtrip:
  assumes "json_ok (J_obj ms)"
  shows "(storage_works s \<longrightarrow>
            lookup (loadSettings (clearCompleted (saveSettings s ms))) k
              = (case lookup ms k of Some v \<Rightarrow> Some v | None \<Rightarrow> lookup DEFAULT_SETTINGS k))
       \<and> (\<not> ls_writable s \<longrightarrow> loadSettings (saveSettings s ms) = loadSettings s)"
proof -
  have d: "distinct (map fst ms)" using assms by simp
  have "readJSON (clearCompleted (saveSettings s ms)) ''sigma_settings'' fb = J_obj ms" if "storage_works s" for fb
    using that by (simp add: clearCompleted_def saveSettings_def read_write [OF write_works]
        read_write [OF _ assms] del: json_ok.simps(4))
  then show ?thesis using assign_all_lookup [OF d]
    by (simp add: loadSettings_def spread_def) (simp add: saveSettings_def unwritable_unchanged)
qed

lemma settings_roundtrip_witness:
  "lookup (loadSettings (clearCompleted (saveSettings \<lparr>ls_items = [], ls_readable = True, ls_writable = True\<rparr>
       [(ascii ''theme'', J_str (ascii ''light''))]))) (ascii ''theme'') = Some (J_str (ascii ''light''))"
  using settings_roundtrip [of "[(ascii ''theme'', J_str (ascii ''light''))]"
      "\<lparr>ls_items = [], ls_readable = True, ls_writable = True\<rparr>" "ascii ''theme''"]
  by (simp add: storage_works_def ascii_def units_ok_def)

end
