(* ===== verification/Js_Date.thy ===== *)
theory Js_Date
  imports Js_Values
begin

text \<open>
  The calendar arithmetic of the language's \<open>Date\<close>, as far as the front end uses it: the day number
  of a civil date with overflowing months and days, the civil date of a day number, and the local
  setters over a time zone that the host supplies.
\<close>

subsection \<open>The proleptic Gregorian calendar\<close>

text \<open>Days before the first of March of a year, and days of that year before a month counted from March.\<close>

definition march_days :: "int \<Rightarrow> int" where
  "march_days y = 365 * y + y div 4 - y div 100 + y div 400"

definition month_days :: "int \<Rightarrow> int" where
  "month_days mp = (153 * mp + 2) div 5"

text \<open>\<open>MakeDay\<close>: the month counts from 0 and may leave the year, the date may leave the month.\<close>

definition makeDay :: "int \<Rightarrow> int \<Rightarrow> int \<Rightarrow> int" where
  "makeDay y m d =
     (let ym = y + m div 12;
          mn = m mod 12;
          y' = (if mn \<le> 1 then ym - 1 else ym)
      in march_days y' + month_days ((mn + 10) mod 12) + (d - 1) - 719468)"

text \<open>The year that starts in March and the day in it, by cycles of 400, 100, 4 and 1 years.\<close>

definition march_year :: "int \<Rightarrow> int \<times> int" where
  "march_year n =
     (let z = n + 719468;
          era = z div 146097;
          doe = z mod 146097;
          c = min 3 (doe div 36524);
          r = doe - c * 36524;
          q = r div 1461;
          r2 = r - q * 1461;
          yr = min 3 (r2 div 365)
      in (400 * era + 100 * c + 4 * q + yr, r2 - 365 * yr))"

definition civil :: "int \<Rightarrow> int \<times> int \<times> int" where
  "civil n =
     (let (y', doy) = march_year n;
          mp = (5 * doy + 2) div 153;
          mon = (mp + 2) mod 12
      in (if mon \<le> 1 then y' + 1 else y', mon, doy - month_days mp + 1))"

definition year_of :: "int \<Rightarrow> int" where "year_of n = fst (civil n)"
definition month_of :: "int \<Rightarrow> int" where "month_of n = fst (snd (civil n))"
definition date_of :: "int \<Rightarrow> int" where "date_of n = snd (snd (civil n))"

lemma div_eqI: "(n::int) = k * q + r \<Longrightarrow> 0 \<le> r \<Longrightarrow> r < k \<Longrightarrow> n div k = q"
  by (rule int_div_pos_eq) auto

lemma div_step:
  assumes "0 < (k::int)"
  shows "(y + 1) div k = y div k + (if k dvd y + 1 then 1 else 0)"
proof (cases "y mod k + 1 = k")
  case True
  moreover have "k * (y div k + 1) = k * (y div k) + k" by (simp add: distrib_left)
  ultimately have "y + 1 = k * (y div k + 1)" using mult_div_mod_eq [of k y] by linarith
  then have "(y + 1) div k = y div k + 1" "k dvd y + 1" using assms by simp_all
  then show ?thesis by simp
next
  case False
  have r: "0 \<le> y mod k + 1" "y mod k + 1 < k" "y + 1 = k * (y div k) + (y mod k + 1)"
    using False pos_mod_bound [OF assms, of y] pos_mod_sign [OF assms, of y] mult_div_mod_eq [of k y] by linarith+
  have "(y + 1) mod k = y mod k + 1" by (rule int_mod_pos_eq [OF r(3,1,2)])
  then have "\<not> k dvd y + 1" using pos_mod_sign [OF assms, of y] by (auto simp: dvd_eq_mod_eq_0)
  with div_eqI [OF r(3,1,2)] show ?thesis by simp
qed

lemma march_days_step: "march_days (y + 1) - march_days y = 365 \<or> march_days (y + 1) - march_days y = 366"
proof -
  have "(100::int) dvd y + 1 \<Longrightarrow> 4 dvd y + 1" by (rule dvd_trans [of 4 100]) simp_all
  moreover have "(400::int) dvd y + 1 \<Longrightarrow> 100 dvd y + 1" by (rule dvd_trans [of 100 400]) simp_all
  ultimately show ?thesis by (auto simp: march_days_def div_step)
qed

lemma march_year_bounds:
  assumes "march_year n = (y, doy)"
  shows "0 \<le> doy" "doy \<le> 365" "march_days y + doy - 719468 = n"
proof -
  define doe where "doe = (n + 719468) mod 146097"
  define era where "era = (n + 719468) div 146097"
  define c where "c = min 3 (doe div 36524)"
  define r where "r = doe - c * 36524"
  define q where "q = r div 1461"
  define r2 where "r2 = r - q * 1461"
  define yr where "yr = min 3 (r2 div 365)"
  have doe: "0 \<le> doe" "doe < 146097" unfolding doe_def by (rule pos_mod_sign, simp, rule pos_mod_bound, simp)
  have n: "n + 719468 = 146097 * era + doe" unfolding doe_def era_def by (rule mult_div_mod_eq [symmetric])
  have c: "0 \<le> c" "c \<le> 3" "0 \<le> r" "r \<le> 36524"
    using doe mult_div_mod_eq [of 36524 doe] pos_mod_bound [of 36524 doe] pos_mod_sign [of 36524 doe]
    unfolding c_def r_def by linarith+
  have q: "0 \<le> q" "q \<le> 24" "0 \<le> r2" "r2 \<le> 1460"
    using c mult_div_mod_eq [of 1461 r] pos_mod_bound [of 1461 r] pos_mod_sign [of 1461 r]
    unfolding q_def r2_def by linarith+
  have yr: "0 \<le> yr" "yr \<le> 3" "0 \<le> r2 - 365 * yr" "r2 - 365 * yr \<le> 365"
    using q mult_div_mod_eq [of 365 r2] pos_mod_bound [of 365 r2] pos_mod_sign [of 365 r2]
    unfolding yr_def by linarith+
  have "(y, doy) = (400 * era + 100 * c + 4 * q + yr, r2 - 365 * yr)"
    using assms unfolding march_year_def Let_def doe_def era_def c_def r_def q_def r2_def yr_def by (rule sym)
  then have y: "y = 400 * era + 100 * c + 4 * q + yr" "doy = r2 - 365 * yr" by (simp_all only: prod.inject)
  show "0 \<le> doy" "doy \<le> 365" using yr y by auto
  have eqs: "y = 4 * (100 * era + 25 * c + q) + yr" "y = 100 * (4 * era + c) + (4 * q + yr)"
    "y = 400 * era + (100 * c + 4 * q + yr)" using y by simp_all
  have "y div 4 = 100 * era + 25 * c + q" by (rule div_eqI [OF eqs(1)]) (use yr in simp_all)
  moreover have "y div 100 = 4 * era + c" by (rule div_eqI [OF eqs(2)]) (use q yr in simp_all)
  moreover have "y div 400 = era" by (rule div_eqI [OF eqs(3)]) (use c q yr in simp_all)
  ultimately have "march_days y = 146097 * era + 36524 * c + 1461 * q + 365 * yr"
    using y by (simp add: march_days_def)
  then show "march_days y + doy - 719468 = n" using y n by (simp add: r_def r2_def)
qed

lemma month_days_inverse:
  assumes "0 \<le> doy" "doy \<le> 365"
  defines "mp \<equiv> (5 * doy + 2) div (153::int)"
  shows "0 \<le> mp" "mp \<le> 11" "month_days mp \<le> doy" "doy \<le> month_days mp + 30"
    "153 * mp \<le> 5 * doy + 2" "5 * doy + 2 < 153 * mp + 153"
proof -
  have mp: "153 * mp \<le> 5 * doy + 2" "5 * doy + 2 < 153 * mp + 153"
    using mult_div_mod_eq [of 153 "5 * doy + 2"] pos_mod_bound [of 153 "5 * doy + 2"] pos_mod_sign [of 153 "5 * doy + 2"]
    unfolding mp_def by linarith+
  then show "153 * mp \<le> 5 * doy + 2" "5 * doy + 2 < 153 * mp + 153" .
  show "0 \<le> mp" "mp \<le> 11" using mp assms(1,2) by linarith+
  have "5 * month_days mp \<le> 153 * mp + 2" "153 * mp + 2 < 5 * month_days mp + 5"
    using mult_div_mod_eq [of 5 "153 * mp + 2"] pos_mod_bound [of 5 "153 * mp + 2"] pos_mod_sign [of 5 "153 * mp + 2"]
    unfolding month_days_def by linarith+
  with mp show "month_days mp \<le> doy" "doy \<le> month_days mp + 30" by linarith+
qed

text \<open>The civil date of a day number leads back to it.\<close>

lemma makeDay_civil: "makeDay (year_of n) (month_of n) (date_of n) = n"
  and civil_bounds: "0 \<le> month_of n" "month_of n \<le> 11" "1 \<le> date_of n" "date_of n \<le> 31"
proof -
  obtain y doy where yd: "march_year n = (y, doy)" by (cases "march_year n")
  note b = march_year_bounds [OF yd]
  define mp where "mp = (5 * doy + 2) div 153"
  note m = month_days_inverse [OF b(1,2), folded mp_def]
  have mm: "(mp + 2) mod 12 = (if mp \<le> 9 then mp + 2 else mp - 10)"
    using m(1,2) by (auto intro: int_mod_pos_eq [of _ _ 0] int_mod_pos_eq [of _ _ 1])
  have parts: "month_of n = (mp + 2) mod 12" "date_of n = doy - month_days mp + 1"
    "year_of n = (if (mp + 2) mod 12 \<le> 1 then y + 1 else y)"
    by (simp_all add: month_of_def date_of_def year_of_def civil_def yd Let_def mp_def)
  show "0 \<le> month_of n" "month_of n \<le> 11" using parts by auto
  show "1 \<le> date_of n" "date_of n \<le> 31" using parts m by auto
  have "((mp + 2) mod 12 + 10) mod 12 = mp" using m(1,2) by (simp add: mod_add_left_eq)
  moreover have "month_of n div 12 = 0" "month_of n mod 12 = month_of n" using parts by auto
  ultimately show "makeDay (year_of n) (month_of n) (date_of n) = n"
    using b(3) by (simp add: makeDay_def Let_def parts)
qed

lemma makeDay_jan: "makeDay y 0 1 = march_days (y - 1) + 306 - 719468"
  by (simp add: makeDay_def month_days_def)

text \<open>A day lies in the year it belongs to.\<close>

lemma year_bounds: "makeDay (year_of n) 0 1 \<le> n" "n < makeDay (year_of n + 1) 0 1"
proof -
  obtain y doy where yd: "march_year n = (y, doy)" by (cases "march_year n")
  note b = march_year_bounds [OF yd]
  define mp where "mp = (5 * doy + 2) div 153"
  note m = month_days_inverse [OF b(1,2), folded mp_def]
  have mm: "(mp + 2) mod 12 = (if mp \<le> 9 then mp + 2 else mp - 10)"
    using m(1,2) by (auto intro: int_mod_pos_eq [of _ _ 0] int_mod_pos_eq [of _ _ 1])
  have yr: "year_of n = (if (mp + 2) mod 12 \<le> 1 then y + 1 else y)"
    by (simp add: year_of_def civil_def yd Let_def mp_def)
  have s: "march_days y - march_days (y - 1) = 365 \<or> march_days y - march_days (y - 1) = 366"
    "march_days (y + 1) - march_days y = 365 \<or> march_days (y + 1) - march_days y = 366"
    using march_days_step [of "y - 1"] march_days_step [of y] by simp_all
  show "makeDay (year_of n) 0 1 \<le> n"
  proof (cases "(mp + 2) mod 12 \<le> 1")
    case True
    then have "10 \<le> mp" using m(1,2) by (simp add: mm split: if_splits)
    then have "306 \<le> doy" using m(5) by linarith
    with True b yr show ?thesis by (simp add: makeDay_jan)
  next
    case False
    then show ?thesis using b yr s by (auto simp: makeDay_jan)
  qed
  show "n < makeDay (year_of n + 1) 0 1"
  proof (cases "(mp + 2) mod 12 \<le> 1")
    case True
    then show ?thesis using b yr s by (auto simp: makeDay_jan add.commute [of 1 y])
  next
    case False
    then have "mp \<le> 9" using m(1,2) by (simp add: mm split: if_splits)
    then have "doy \<le> 305" using m(6) by linarith
    with False b yr show ?thesis by (simp add: makeDay_jan)
  qed
qed

lemma year_length: "makeDay (y + 1) 0 1 - makeDay y 0 1 \<in> {365, 366}"
  using march_days_step [of "y - 1"] by (auto simp: makeDay_jan)

text \<open>The same date of the next year is 365 or 366 days later.\<close>

lemma next_year: "makeDay (y + 1) m d - makeDay y m d \<in> {365, 366}"
  using march_days_step [of "y + m div 12 - 1"] march_days_step [of "y + m div 12"]
  by (auto simp: makeDay_def Let_def algebra_simps)

text \<open>A date of a month of the year does not come before the first of January.\<close>

lemma within_year:
  assumes "0 \<le> m" "m \<le> 11" "1 \<le> d" "d \<le> 31"
  shows "makeDay y 0 1 \<le> makeDay y m d" "makeDay y m d \<le> makeDay y 0 1 + 366"
proof -
  have s: "march_days y - march_days (y - 1) = 365 \<or> march_days y - march_days (y - 1) = 366"
    using march_days_step [of "y - 1"] by simp
  have m12: "m div 12 = 0" "m mod 12 = m" using assms by auto
  have "m = 0 \<or> m = 1 \<or> m = 2 \<or> m = 3 \<or> m = 4 \<or> m = 5 \<or> m = 6 \<or> m = 7 \<or> m = 8 \<or> m = 9 \<or> m = 10 \<or> m = 11"
    using assms(1,2) by presburger
  then show "makeDay y 0 1 \<le> makeDay y m d" "makeDay y m d \<le> makeDay y 0 1 + 366"
    using s assms(3,4) by (auto simp: makeDay_jan) (auto simp: makeDay_def month_days_def)
qed

subsection \<open>Local time\<close>

text \<open>
  The host's zone: local milliseconds of an instant, and the instant of local milliseconds.  The
  setters of a date compute on the local value and go back.
\<close>

record zone =
  toLocal :: "int \<Rightarrow> int"
  toUtc :: "int \<Rightarrow> int"

definition fixed_zone :: "int \<Rightarrow> zone" where
  "fixed_zone off = \<lparr>toLocal = (\<lambda>t. t + off), toUtc = (\<lambda>l. l - off)\<rparr>"

definition local_day :: "zone \<Rightarrow> int \<Rightarrow> int" where "local_day z t = toLocal z t div day_ms"
definition local_ms :: "zone \<Rightarrow> int \<Rightarrow> int" where "local_ms z t = toLocal z t mod day_ms"

definition hour_ms :: int where "hour_ms = 3600000"

definition getFullYear :: "zone \<Rightarrow> int \<Rightarrow> int" where "getFullYear z t = year_of (local_day z t)"
definition getMonth :: "zone \<Rightarrow> int \<Rightarrow> int" where "getMonth z t = month_of (local_day z t)"
definition getDate :: "zone \<Rightarrow> int \<Rightarrow> int" where "getDate z t = date_of (local_day z t)"
definition getDay :: "zone \<Rightarrow> int \<Rightarrow> int" where "getDay z t = (local_day z t + 4) mod 7"
definition getHours :: "zone \<Rightarrow> int \<Rightarrow> int" where "getHours z t = local_ms z t div hour_ms"

text \<open>\<open>setHours(h, mi, 0, 0)\<close>, and \<open>setHours(h)\<close>, which keeps the minutes and below.\<close>

definition setHours4 :: "zone \<Rightarrow> int \<Rightarrow> int \<Rightarrow> int \<Rightarrow> int" where
  "setHours4 z t h mi = toUtc z (local_day z t * day_ms + h * hour_ms + mi * 60000)"

definition setHours1 :: "zone \<Rightarrow> int \<Rightarrow> int \<Rightarrow> int" where
  "setHours1 z t h = toUtc z (local_day z t * day_ms + h * hour_ms + local_ms z t mod hour_ms)"

definition setMonth :: "zone \<Rightarrow> int \<Rightarrow> int \<Rightarrow> int \<Rightarrow> int" where
  "setMonth z t m d = toUtc z (makeDay (getFullYear z t) m d * day_ms + local_ms z t)"

definition setDate :: "zone \<Rightarrow> int \<Rightarrow> int \<Rightarrow> int" where
  "setDate z t d = toUtc z (makeDay (getFullYear z t) (getMonth z t) d * day_ms + local_ms z t)"

definition setFullYear :: "zone \<Rightarrow> int \<Rightarrow> int \<Rightarrow> int" where
  "setFullYear z t y = toUtc z (makeDay y (getMonth z t) (getDate z t) * day_ms + local_ms z t)"

text \<open>
  What the code relies on: reading back the instant of a local time away from a clock change gives
  that local time, and the offsets in force at two times differ by at most two hours.
\<close>

definition zone_ok :: "zone \<Rightarrow> bool" where
  "zone_ok z \<longleftrightarrow> (\<forall>t l. \<bar>(toLocal z t - t) - (l - toUtc z l)\<bar> \<le> 2 * hour_ms)"

lemma fixed_zone_ok: "zone_ok (fixed_zone off)"
  by (simp add: zone_ok_def fixed_zone_def hour_ms_def)

lemma makeDay_shift: "makeDay y m (d + k) = makeDay y m d + k"
  by (simp add: makeDay_def Let_def)

lemma setDate_shift: "setDate z t (getDate z t + k) = toUtc z ((local_day z t + k) * day_ms + local_ms z t)"
  by (simp add: setDate_def getFullYear_def getMonth_def getDate_def makeDay_shift makeDay_civil)

text \<open>
  A zone without gaps: the local time that was asked for is read back, and no offset is longer than
  a day.  Korea's zone is one.
\<close>

definition zone_steady :: "zone \<Rightarrow> bool" where
  "zone_steady z \<longleftrightarrow> zone_ok z \<and> (\<forall>l. toLocal z (toUtc z l) = l) \<and> (\<forall>l. \<bar>l - toUtc z l\<bar> \<le> day_ms)"

lemma fixed_zone_steady: "\<bar>off\<bar> \<le> day_ms \<Longrightarrow> zone_steady (fixed_zone off)"
  by (simp add: zone_steady_def fixed_zone_ok) (simp add: fixed_zone_def)

lemma instant_near: "zone_ok z \<Longrightarrow> \<bar>(toUtc z l - now) - (l - toLocal z now)\<bar> \<le> 2 * hour_ms"
proof -
  assume "zone_ok z"
  then have "\<bar>(toLocal z now - now) - (l - toUtc z l)\<bar> \<le> 2 * hour_ms" unfolding zone_ok_def by blast
  then show ?thesis by linarith
qed

lemma local_split: "toLocal z t = local_day z t * day_ms + local_ms z t" "0 \<le> local_ms z t" "local_ms z t < day_ms"
  by (simp_all add: local_day_def local_ms_def day_ms_def)

lemma local_of_utc:
  assumes "zone_steady z" "0 \<le> ms" "ms < day_ms"
  shows "local_day z (toUtc z (d * day_ms + ms)) = d" "local_ms z (toUtc z (d * day_ms + ms)) = ms"
proof -
  have l: "toLocal z (toUtc z (d * day_ms + ms)) = day_ms * d + ms" using assms(1) by (simp add: zone_steady_def mult.commute)
  show "local_day z (toUtc z (d * day_ms + ms)) = d"
    unfolding local_day_def l by (rule div_eqI [OF refl assms(2,3)])
  show "local_ms z (toUtc z (d * day_ms + ms)) = ms"
    unfolding local_ms_def l by (rule int_mod_pos_eq [OF refl assms(2,3)])
qed

lemma jan_mono: "y \<le> y' \<Longrightarrow> makeDay y 0 1 \<le> makeDay y' 0 1"
proof (induction y' rule: int_ge_induct)
  case (step i)
  then show ?case using year_length [of i] by auto
qed simp

lemma year_of_ge: "makeDay y 0 1 \<le> n \<Longrightarrow> y \<le> year_of n"
  using year_bounds(2) [of n] jan_mono [of "year_of n + 1" y] by linarith

end
