(* ===== verification/Js_Regex.thy ===== *)
theory Js_Regex
  imports Js_Values
begin

text \<open>
  The part of the language's regular expressions and string methods that the front end uses: a
  backtracking matcher that lists its matches in order of preference, \<open>match\<close>, \<open>replace\<close>, \<open>trim\<close>
  and \<open>includes\<close> on texts of code units.
\<close>

subsection \<open>White space and \<open>trim\<close>\<close>

definition white :: "nat \<Rightarrow> bool" where
  "white c \<longleftrightarrow> c \<in> set [9, 10, 11, 12, 13, 32, 0xA0, 0x1680, 0x2028, 0x2029, 0x202F, 0x205F, 0x3000, 0xFEFF]
     \<or> (0x2000 \<le> c \<and> c \<le> 0x200A)"

definition trim :: "ustring \<Rightarrow> ustring" where
  "trim s = rev (dropWhile white (rev (dropWhile white s)))"

definition trimmed :: "ustring \<Rightarrow> bool" where
  "trimmed s \<longleftrightarrow> s = [] \<or> (\<not> white (hd s) \<and> \<not> white (last s))"

definition blank :: "ustring \<Rightarrow> bool" where
  "blank s \<longleftrightarrow> (\<forall>c \<in> set s. white c)"

lemma dropWhile_Nil_iff: "dropWhile P s = [] \<longleftrightarrow> (\<forall>c \<in> set s. P c)"
  by (induction s) auto

lemma in_dropWhile: "x \<in> set (dropWhile P s) \<Longrightarrow> x \<in> set s"
  by (induction s) (auto split: if_splits)

lemma trim_Nil: "trim s = [] \<longleftrightarrow> blank s"
proof -
  have "\<not> (\<forall>c \<in> set (dropWhile white s). white c)" if "dropWhile white s \<noteq> []"
    using that hd_dropWhile [OF that] hd_in_set by metis
  moreover have "trim s = [] \<longleftrightarrow> (\<forall>c \<in> set (dropWhile white s). white c)"
    by (simp add: trim_def dropWhile_Nil_iff del: dropWhile_eq_Nil_conv)
  ultimately have "trim s = [] \<longleftrightarrow> dropWhile white s = []"
    by (metis empty_iff list.set(1))
  then show ?thesis by (simp add: blank_def dropWhile_Nil_iff)
qed

lemma dropWhile_rev_suffix: "\<exists>e. s = rev (dropWhile P (rev s)) @ e \<and> (\<forall>c \<in> set e. P c)"
proof -
  have "rev s = takeWhile P (rev s) @ dropWhile P (rev s)" by simp
  then have "s = rev (dropWhile P (rev s)) @ rev (takeWhile P (rev s))" by (metis rev_append rev_rev_ident)
  then show ?thesis by (metis set_rev set_takeWhileD)
qed

text \<open>Trimming cuts white space at the ends and nothing else.\<close>

lemma trim_split: "\<exists>b e. s = b @ trim s @ e \<and> blank b \<and> blank e"
proof -
  obtain e where e: "dropWhile white s = trim s @ e" "blank e"
    using dropWhile_rev_suffix [of "dropWhile white s" white] unfolding trim_def blank_def by blast
  moreover have "s = takeWhile white s @ dropWhile white s" by simp
  ultimately have "s = takeWhile white s @ trim s @ e" by metis
  moreover have "blank (takeWhile white s)" unfolding blank_def by (metis set_takeWhileD)
  ultimately show ?thesis using e(2) by blast
qed

lemma trim_trimmed: "trimmed (trim s)"
proof (cases "trim s = []")
  case False
  let ?r = "rev (dropWhile white s)"
  from False have ne: "dropWhile white ?r \<noteq> []" by (simp add: trim_def)
  have d: "dropWhile white s \<noteq> []"
  proof
    assume "dropWhile white s = []"
    then have r: "?r = []" by (simp only: rev.simps)
    from ne show False unfolding r by simp
  qed
  have l: "\<not> white (last (trim s))" using hd_dropWhile [OF ne] ne by (simp add: trim_def last_rev)
  obtain e where e: "dropWhile white s = trim s @ e"
    using dropWhile_rev_suffix [of "dropWhile white s" white] unfolding trim_def by blast
  then have "hd (trim s) = hd (dropWhile white s)" using False by simp
  then show ?thesis using hd_dropWhile [OF d] l by (simp add: trimmed_def)
qed (simp add: trimmed_def)

lemma dropWhile_id: "s = [] \<or> \<not> P (hd s) \<Longrightarrow> dropWhile P s = s"
  by (cases s) auto

lemma trim_id: "trimmed s \<Longrightarrow> trim s = s"
proof -
  assume t: "trimmed s"
  then have "dropWhile white s = s" by (intro dropWhile_id) (auto simp: trimmed_def)
  moreover have "dropWhile white (rev s) = rev s"
    using t by (intro dropWhile_id) (auto simp: trimmed_def hd_rev)
  ultimately show ?thesis by (simp add: trim_def)
qed

lemma trim_trim [simp]: "trim (trim s) = trim s"
  by (rule trim_id [OF trim_trimmed])

subsection \<open>Substrings\<close>

fun starts_with :: "ustring \<Rightarrow> ustring \<Rightarrow> bool" where
  "starts_with [] s = True"
| "starts_with (k # ks) [] = False"
| "starts_with (k # ks) (c # cs) = (k = c \<and> starts_with ks cs)"

text \<open>The first place of a substring: what stands before and after it.\<close>

fun find_sub :: "ustring \<Rightarrow> ustring \<Rightarrow> (ustring \<times> ustring) option" where
  "find_sub k s =
     (if starts_with k s then Some ([], drop (length k) s)
      else (case s of [] \<Rightarrow> None | c # cs \<Rightarrow> map_option (\<lambda>(a, b). (c # a, b)) (find_sub k cs)))"

declare find_sub.simps [simp del]

definition str_includes :: "ustring \<Rightarrow> ustring \<Rightarrow> bool" where
  "str_includes s k \<longleftrightarrow> find_sub k s \<noteq> None"

text \<open>\<open>s.replace(k, by)\<close> with a string \<open>k\<close>: the first occurrence only.\<close>

definition replace_first :: "ustring \<Rightarrow> ustring \<Rightarrow> ustring \<Rightarrow> ustring" where
  "replace_first k by_text s = (case find_sub k s of None \<Rightarrow> s | Some (a, b) \<Rightarrow> a @ by_text @ b)"

lemma starts_with_iff: "starts_with k s \<longleftrightarrow> (\<exists>r. s = k @ r)"
  by (induction k s rule: starts_with.induct) auto

lemma find_sub_Some: "find_sub k s = Some (a, b) \<Longrightarrow> s = a @ k @ b"
proof (induction s arbitrary: a)
  case Nil
  then show ?case by (auto simp: find_sub.simps [of k "[]"] starts_with_iff split: if_splits)
next
  case (Cons c s)
  then show ?case
    by (auto simp: find_sub.simps [of k "c # s"] starts_with_iff split: if_splits)
qed

lemma find_sub_None: "find_sub k s = None \<Longrightarrow> s \<noteq> a @ k @ b"
proof (induction s arbitrary: a)
  case Nil
  then show ?case by (auto simp: find_sub.simps [of k "[]"] starts_with_iff split: if_splits)
next
  case (Cons c s)
  then have "\<not> starts_with k (c # s)" "find_sub k s = None"
    by (auto simp: find_sub.simps [of k "c # s"] split: if_splits)
  with Cons.IH show ?case by (cases a) (auto simp: starts_with_iff)
qed

lemma includes_iff: "str_includes s k \<longleftrightarrow> (\<exists>a b. s = a @ k @ b)"
  unfolding str_includes_def using find_sub_Some find_sub_None by (metis not_Some_eq old.prod.exhaust)

subsection \<open>Regular expressions\<close>

datatype re =
    Eps
  | One "nat \<Rightarrow> bool"
  | Seq re re
  | Alt re re
  | Star re
  | Group nat re
  | At_End

text \<open>
  A match: the text taken, the rest, and the groups.  The list of matches is in the order in which
  a backtracking engine tries them: the left alternative first, a star as long as possible.  An
  iteration of a star must take something.
\<close>

type_synonym match = "ustring \<times> ustring \<times> (nat \<times> ustring) list"

definition and_then :: "match list \<Rightarrow> (ustring \<Rightarrow> match list) \<Rightarrow> match list" where
  "and_then ms k = concat (map (\<lambda>(t, r, g). map (\<lambda>(t', r', g'). (t @ t', r', g @ g')) (k r)) ms)"

fun iterate :: "(ustring \<Rightarrow> match list) \<Rightarrow> nat \<Rightarrow> ustring \<Rightarrow> match list" where
  "iterate f 0 s = [([], s, [])]"
| "iterate f (Suc n) s = and_then (filter (\<lambda>(t, _, _). t \<noteq> []) (f s)) (iterate f n) @ [([], s, [])]"

fun matches :: "re \<Rightarrow> ustring \<Rightarrow> match list" where
  "matches Eps s = [([], s, [])]"
| "matches (One p) s = (case s of [] \<Rightarrow> [] | c # cs \<Rightarrow> if p c then [([c], cs, [])] else [])"
| "matches (Seq a b) s = and_then (matches a s) (matches b)"
| "matches (Alt a b) s = matches a s @ matches b s"
| "matches (Star a) s = iterate (matches a) (length s) s"
| "matches (Group n a) s = map (\<lambda>(t, r, g). (t, r, (n, t) # g)) (matches a s)"
| "matches At_End s = (if s = [] then [([], [], [])] else [])"

lemma and_then_split:
  assumes "(t, r, g) \<in> set (and_then ms k)" and "\<forall>(t, r, g) \<in> set ms. s = t @ r"
    and "\<And>r. \<forall>(t', r', g') \<in> set (k r). r = t' @ r'"
  shows "s = t @ r"
proof -
  from assms(1) obtain t1 r1 g1 t2 g2 where m: "(t1, r1, g1) \<in> set ms" "(t2, r, g2) \<in> set (k r1)" "t = t1 @ t2"
    by (auto simp: and_then_def)
  have "s = t1 @ r1" "r1 = t2 @ r" using assms(2) assms(3) [of r1] m by auto
  with m show ?thesis by simp
qed

lemma iterate_split:
  assumes "\<And>s. \<forall>(t, r, g) \<in> set (f s). s = t @ r"
  shows "\<forall>(t, r, g) \<in> set (iterate f n s). s = t @ r"
proof (induction n arbitrary: s)
  case (Suc n)
  have "s = t @ r" if "(t, r, g) \<in> set (and_then (filter (\<lambda>(t, _, _). t \<noteq> []) (f s)) (iterate f n))" for t r g
    using that by (rule and_then_split) (use assms [of s] Suc.IH in auto)
  then show ?case by auto
qed simp

lemma matches_split': "\<forall>(t, r, g) \<in> set (matches e s). s = t @ r"
proof (induction e arbitrary: s)
  case (Seq a b)
  have "s = t @ r" if "(t, r, g) \<in> set (and_then (matches a s) (matches b))" for t r g
    using that by (rule and_then_split) (use Seq.IH in auto)
  then show ?case by auto
next
  case (Star a)
  then show ?case using iterate_split [of "matches a"] by auto
next
  case (Alt a b)
  then show ?case by fastforce
next
  case (Group n a)
  then show ?case by fastforce
qed (auto split: list.splits if_splits)

lemma matches_split: "(t, r, g) \<in> set (matches e s) \<Longrightarrow> s = t @ r"
  using matches_split' [of e s] by auto

text \<open>\<open>s.match(e)\<close>: the text before, the text matched, the text after, and the groups.\<close>

type_synonym found = "ustring \<times> ustring \<times> ustring \<times> (nat \<times> ustring) list"

definition match_at :: "re \<Rightarrow> ustring \<Rightarrow> match option" where
  "match_at e s = (case matches e s of [] \<Rightarrow> None | m # _ \<Rightarrow> Some m)"

fun re_match :: "re \<Rightarrow> ustring \<Rightarrow> found option" where
  "re_match e s =
     (case match_at e s of
        Some (t, r, g) \<Rightarrow> Some ([], t, r, g)
      | None \<Rightarrow> (case s of [] \<Rightarrow> None | c # cs \<Rightarrow> map_option (\<lambda>(p, m). (c # p, m)) (re_match e cs)))"

declare re_match.simps [simp del]

lemma match_at_split: "match_at e s = Some (t, r, g) \<Longrightarrow> s = t @ r"
  using matches_split [of t r g e s] by (auto simp: match_at_def split: list.splits)

lemma re_match_split: "re_match e s = Some (p, t, r, g) \<Longrightarrow> s = p @ t @ r"
proof (induction s arbitrary: p)
  case Nil
  then show ?case
    by (auto simp: re_match.simps [of e "[]"] dest: match_at_split split: option.splits)
next
  case (Cons c s)
  then show ?case
    by (auto simp: re_match.simps [of e "c # s"] dest: match_at_split split: option.splits)
qed

text \<open>What was skipped does not match at any place before.\<close>

lemma re_match_first: "re_match e s = Some (p, t, r, g) \<Longrightarrow> match_at e (t @ r) = Some (t, r, g)"
proof (induction s arbitrary: p)
  case Nil
  then have m: "match_at e [] = Some (t, r, g)"
    by (auto simp: re_match.simps [of e "[]"] split: option.splits)
  with match_at_split [OF m] show ?case by simp
next
  case (Cons c s)
  show ?case
  proof (cases "match_at e (c # s)")
    case None
    with Cons show ?thesis by (auto simp: re_match.simps [of e "c # s"])
  next
    case (Some m)
    with Cons.prems have m: "match_at e (c # s) = Some (t, r, g)"
      by (cases m) (simp add: re_match.simps [of e "c # s"])
    with match_at_split [OF m] show ?thesis by simp
  qed
qed

definition re_test :: "re \<Rightarrow> ustring \<Rightarrow> bool" where
  "re_test e s \<longleftrightarrow> re_match e s \<noteq> None"

text \<open>\<open>s.replace(e, by)\<close> with the flag \<open>g\<close>; after an empty match one character is copied.\<close>

function replace_all :: "re \<Rightarrow> ustring \<Rightarrow> ustring \<Rightarrow> ustring" where
  "replace_all e by_text s =
     (case re_match e s of
        None \<Rightarrow> s
      | Some (p, t, r, g) \<Rightarrow>
          if t = []
          then (case r of [] \<Rightarrow> p @ by_text | c # cs \<Rightarrow> p @ by_text @ c # replace_all e by_text cs)
          else p @ by_text @ replace_all e by_text r)"
  by pat_completeness auto
termination
proof (relation "measure (\<lambda>(e, b, s). length s)", goal_cases)
  case (2 e b s m p m2 t m3 r g c cs)
  then have "s = p @ t @ r" by (auto dest!: re_match_split)
  with 2 show ?case by simp
next
  case (3 e b s m p m2 t m3 r g)
  then have "s = p @ t @ r" by (auto dest!: re_match_split)
  with 3 show ?case by simp
qed simp

declare replace_all.simps [simp del]

text \<open>\<open>s.replace(/^e/g, by)\<close>.\<close>

definition replace_start :: "re \<Rightarrow> ustring \<Rightarrow> ustring \<Rightarrow> ustring" where
  "replace_start e by_text s = (case match_at e s of None \<Rightarrow> s | Some (_, r, _) \<Rightarrow> by_text @ r)"

definition group :: "(nat \<times> ustring) list \<Rightarrow> nat \<Rightarrow> ustring option" where
  "group gs n = lookup gs n"

subsection \<open>Building blocks\<close>

definition re_digit :: re where "re_digit = One (\<lambda>c. 48 \<le> c \<and> c \<le> 57)"
definition re_space :: re where "re_space = One white"
definition re_some :: "re \<Rightarrow> re" where "re_some e = Seq e (Star e)"
definition re_opt :: "re \<Rightarrow> re" where "re_opt e = Alt e Eps"

definition re_text :: "ustring \<Rightarrow> re" where
  "re_text s = foldr (\<lambda>c. Seq (One ((=) c))) s Eps"

definition re_seq :: "re list \<Rightarrow> re" where
  "re_seq es = foldr Seq es Eps"

fun re_alts :: "re list \<Rightarrow> re" where
  "re_alts [] = One (\<lambda>_. False)"
| "re_alts [e] = e"
| "re_alts (e # es) = Alt e (re_alts es)"

text \<open>\<open>parseInt(s, 10)\<close> on digits.\<close>

definition parse_digits :: "ustring \<Rightarrow> int" where
  "parse_digits s = foldl (\<lambda>n c. n * 10 + (int c - 48)) 0 s"

end
