(* ===== verification/Voice_Nlp.thy ===== *)
theory Voice_Nlp
  imports Js_Date Js_Regex Api_Tasks
begin

text \<open>
  The parser of spoken tasks, \<open>frontend/src/lib/voiceNlp.js\<close>: keyword tables, the extraction of a
  deadline and a duration by regular expressions, the cleaning of the title, and the sentence that
  is read back.  Texts are lists of code units; the Korean words stand as their code units.
\<close>

subsection \<open>Keyword tables\<close>

definition CATEGORY_KEYWORDS :: "(ustring \<times> ustring list) list" where
  "CATEGORY_KEYWORDS =
     [([0xD68C, 0xC758], [[0xD68C, 0xC758], [0xBBF8, 0xD305], [0xC2A4, 0xD0E0, 0xB4DC, 0xC5C5], [0xB370, 0xC77C,
        0xB9AC], [0xC8FC, 0xAC04, 0xD68C, 0xC758], [0xC6D4, 0xAC04, 0xD68C, 0xC758], [0xD0A5, 0xC624, 0xD504], [0xBE0C, 0xB9AC, 0xD551]]),
      ([0xAC1C, 0xBC1C], [[0xAC1C, 0xBC1C], [0xCF54, 0xB529], [0xCF54, 0xB4DC], [0xD504, 0xB85C, 0xADF8, 0xB798,
         0xBC0D], [0xB514, 0xBC84, 0xAE45], [0xBC84, 0xADF8], [0xB9AC, 0xD329, 0xD1A0, 0xB9C1], [0xBC30,
            0xD3EC], [0x50, 0x52], [0xD480, 0xB9AC, 0xD018], [0xCEE4, 0xBC0B],
         [0xD14C, 0xC2A4, 0xD2B8, 0x20, 0xCF54, 0xB4DC], [0xB9AC, 0xBDF0]]),
      ([0xB514, 0xC790, 0xC778], [[0xB514, 0xC790, 0xC778], [0xC2DC, 0xC548], [0xBAA9, 0xC5C5], [0xD504, 0xB85C,
         0xD1A0, 0xD0C0, 0xC785], [0xD53C, 0xADF8, 0xB9C8], [0x55, 0x49], [0x55, 0x58], [0xC640, 0xC774, 0xC5B4,
            0xD504, 0xB808, 0xC784], [0xB808, 0xC774, 0xC544, 0xC6C3]]),
      ([0xBB38, 0xC11C], [[0xBB38, 0xC11C], [0xBCF4, 0xACE0, 0xC11C], [0xAE30, 0xD68D, 0xC11C], [0xC81C, 0xC548,
         0xC11C], [0xBA85, 0xC138, 0xC11C], [0xC815, 0xB9AC], [0xC791, 0xC131], [0xCD08, 0xC548], [0xB9AC, 0xD3EC,
            0xD2B8], [0xBC1C, 0xD45C, 0x20, 0xC790, 0xB8CC],
         [0xC2AC, 0xB77C, 0xC774, 0xB4DC], [0x50, 0x50, 0x54]]),
      ([0xAC1C, 0xC778], [[0xAC1C, 0xC778], [0xC7A5, 0xBCF4, 0xAE30], [0xC6B4, 0xB3D9], [0xBCD1, 0xC6D0], [0xC57D,
         0xC18D], [0xCCAD, 0xC18C], [0xC138, 0xD0C1], [0xC694, 0xB9AC], [0xC0B0, 0xCC45], [0xC1FC, 0xD551]]),
      ([0xC778, 0xC0AC], [[0xC778, 0xC0AC], [0xBA74, 0xC811], [0xCC44, 0xC6A9], [0xC628, 0xBCF4, 0xB529], [0xD3C9,
         0xAC00], [0xD53C, 0xB4DC, 0xBC31], [0x31, 0x6F, 0x6E, 0x31], [0xC6D0, 0xC628, 0xC6D0]]),
      ([0xC5C5, 0xBB34], [[0xC5C5, 0xBB34], [0xC77C], [0xD0DC, 0xC2A4, 0xD06C], [0xC791, 0xC5C5]])]"

definition IMPORTANCE_HIGH :: "ustring list" where
  "IMPORTANCE_HIGH = [[0xAE09, 0xD574], [0xAE09, 0xD55C], [0xAE09, 0xD558, 0xAC8C], [0xAE34, 0xAE09], [0xC911,
     0xC694], [0xC911, 0xC694, 0xD55C], [0xC911, 0xC694, 0xD558, 0xAC8C], [0xAF2D], [0xBC18, 0xB4DC, 0xC2DC], [0xD544, 0xC218], [0xC2DC, 0xAE09],
     [0xC2DC, 0xAE09, 0xD55C], [0xCD5C, 0xC6B0, 0xC120], [0xC6B0, 0xC120]]"

definition IMPORTANCE_LOW :: "ustring list" where
  "IMPORTANCE_LOW = [[0xCC9C, 0xCC9C, 0xD788], [0xB098, 0xC911, 0xC5D0], [0xC5EC, 0xC720], [0xAC00, 0xBCBC,
     0xC6B4], [0xAC00, 0xBCCD, 0xAC8C], [0xAC04, 0xB2E8, 0xD55C], [0xAC04, 0xB2E8, 0xD788], [0xC2EC, 0xC2EC,
        0xD560, 0x20, 0xB54C], [0xC2DC, 0xAC04, 0x20, 0xB098, 0xBA74],
     [0xC5B8, 0xC81C, 0xB4E0]]"

definition ENERGY_HIGH :: "ustring list" where
  "ENERGY_HIGH = [[0xC9D1, 0xC911], [0xBE61, 0xC13C], [0xBE61, 0xC138, 0xAC8C], [0xD798, 0xB4E0], [0xC5B4, 0xB824,
     0xC6B4], [0xACE0, 0xB09C, 0xC774, 0xB3C4], [0xBCF5, 0xC7A1, 0xD55C], [0xAE4C, 0xB2E4, 0xB85C, 0xC6B4]]"

definition ENERGY_LOW :: "ustring list" where
  "ENERGY_LOW = [[0xAC00, 0xBCBC, 0xC6B4], [0xAC00, 0xBCCD, 0xAC8C], [0xC26C, 0xC6B4], [0xAC04, 0xB2E8,
     0xD55C], [0xAC04, 0xB2E8, 0xD788], [0xC2EC, 0xD50C, 0xD55C], [0xB8E8, 0xD2F4], [0xB2E8, 0xC21C, 0xD55C]]"

subsection \<open>Deadlines\<close>

text \<open>
  A deadline is an instant; \<open>toISOString\<close> throws on an instant out of the range of dates, and every
  setter of a date out of range leaves it invalid.
\<close>

definition time_limit :: int where "time_limit = 8640000000000000"

definition time_clip :: "int \<Rightarrow> int option" where
  "time_clip t = (if \<bar>t\<bar> \<le> time_limit then Some t else None)"

datatype range_error = RangeError

definition toISOString :: "int option \<Rightarrow> range_error + int" where
  "toISOString d = (case d of None \<Rightarrow> Inl RangeError | Some t \<Rightarrow> Inr t)"

definition daysFromNow :: "zone \<Rightarrow> int \<Rightarrow> int \<Rightarrow> range_error + int" where
  "daysFromNow z now n =
     toISOString (Option.bind (time_clip (setDate z now (getDate z now + n))) (\<lambda>d. time_clip (setHours4 z d 9 0)))"

definition todayEnd :: "zone \<Rightarrow> int \<Rightarrow> range_error + int" where
  "todayEnd z now = toISOString (time_clip (setHours4 z now 23 59))"

definition DAY_NAMES :: "(ustring \<times> int) list" where
  "DAY_NAMES = [([0xC6D4], 1), ([0xD654], 2), ([0xC218], 3), ([0xBAA9], 4), ([0xAE08], 5), ([0xD1A0], 6), ([0xC77C], 0)]"

definition getWeekday :: "zone \<Rightarrow> int \<Rightarrow> ustring \<Rightarrow> bool \<Rightarrow> (range_error + int) option" where
  "getWeekday z now dayName nextWeek =
     (case lookup DAY_NAMES dayName of
        None \<Rightarrow> None
      | Some target \<Rightarrow>
          (let diff = target - getDay z now;
               diff = (if diff \<le> 0 then diff + 7 else diff);
               diff = (if nextWeek then diff + 7 else diff)
           in Some (toISOString (Option.bind (time_clip (setDate z now (getDate z now + diff)))
                (\<lambda>d. time_clip (setHours4 z d 9 0))))))"

definition re_day_name :: re where
  "re_day_name = Group 1 (re_alts (map re_text [[0xC6D4], [0xD654], [0xC218], [0xBAA9], [0xAE08], [0xD1A0], [0xC77C]]))"

definition absMatch_re :: re where
  "absMatch_re = re_seq [Group 1 (Seq re_digit (re_opt re_digit)), re_text [0xC6D4], Star re_space,
     Group 2 (Seq re_digit (re_opt re_digit)), re_text [0xC77C]]"

definition relDayMatch_re :: re where
  "relDayMatch_re = re_seq [Group 1 (re_some re_digit), Star re_space, re_text [0xC77C], Star re_space,
     Group 2 (re_alts (map re_text [[0xD6C4], [0xB4A4], [0xB0B4], [0xC548]]))]"

definition relHourMatch_re :: re where
  "relHourMatch_re = re_seq [Group 1 (re_some re_digit), Star re_space, re_text [0xC2DC, 0xAC04], Star re_space,
     Group 2 (re_alts (map re_text [[0xD6C4], [0xB4A4]]))]"

definition weekMatch_re :: "ustring \<Rightarrow> re" where
  "weekMatch_re which = re_seq [re_text which, Star re_space, re_opt (re_text [0xC8FC]), Star re_space,
     re_day_name, Star re_space, re_text [0xC694], re_opt (re_text [0xC77C])]"

definition dowMatch_re :: re where
  "dowMatch_re = re_seq [re_day_name, Star re_space, re_text [0xC694, 0xC77C]]"

definition moreMatch_re :: re where
  "moreMatch_re = Alt (re_seq [re_text [0xB0B4, 0xC77C], Star re_space, re_text [0xBAA8, 0xB808]]) (re_text [0xBAA8, 0xB808])"

type_synonym deadline_result = "range_error + (ustring \<times> int) option"

definition matched_iso :: "ustring \<Rightarrow> range_error + int \<Rightarrow> deadline_result" where
  "matched_iso m inst = (case inst of Inl e \<Rightarrow> Inl e | Inr t \<Rightarrow> Inr (Some (m, t)))"

definition absDate :: "zone \<Rightarrow> int \<Rightarrow> int \<Rightarrow> int \<Rightarrow> range_error + int" where
  "absDate z now month day =
     toISOString (Option.bind (time_clip (setMonth z now month day)) (\<lambda>d.
       Option.bind (time_clip (setHours4 z d 9 0)) (\<lambda>d.
         if d < now then time_clip (setFullYear z d (getFullYear z d + 1)) else Some d)))"

definition number_of_group :: "(nat \<times> ustring) list \<Rightarrow> nat \<Rightarrow> int" where
  "number_of_group g n = parse_digits (or_default (group g n) [])"

text \<open>The last cases of \<open>extractDeadline\<close>, on a relative word.\<close>

definition relativeWord :: "zone \<Rightarrow> int \<Rightarrow> ustring \<Rightarrow> deadline_result" where
  "relativeWord z now s =
     (if str_includes s [0xC624, 0xB298] then matched_iso [0xC624, 0xB298] (todayEnd z now)
      else case re_match moreMatch_re s of
        Some (_, m, _, _) \<Rightarrow> matched_iso m (daysFromNow z now 2)
      | None \<Rightarrow>
          if str_includes s [0xB0B4, 0xC77C] then matched_iso [0xB0B4, 0xC77C] (daysFromNow z now 1)
          else if str_includes s [0xAE00, 0xD53C] then matched_iso [0xAE00, 0xD53C] (daysFromNow z now 3)
          else Inr None)"

definition weekdayMatch ::
  "zone \<Rightarrow> int \<Rightarrow> bool \<Rightarrow> re \<Rightarrow> ustring \<Rightarrow> deadline_result \<Rightarrow> deadline_result" where
  "weekdayMatch z now nextWeek e s otherwise =
     (case re_match e s of
        None \<Rightarrow> otherwise
      | Some (_, m, _, g) \<Rightarrow>
          (case getWeekday z now (or_default (group g 1) []) nextWeek of
             None \<Rightarrow> otherwise
           | Some inst \<Rightarrow> matched_iso m inst))"

definition extractDeadline :: "zone \<Rightarrow> int \<Rightarrow> ustring \<Rightarrow> deadline_result" where
  "extractDeadline z now s =
     (case re_match absMatch_re s of
        Some (_, m, _, g) \<Rightarrow> matched_iso m (absDate z now (number_of_group g 1 - 1) (number_of_group g 2))
      | None \<Rightarrow>
     (case re_match relDayMatch_re s of
        Some (_, m, _, g) \<Rightarrow> matched_iso m (daysFromNow z now (number_of_group g 1))
      | None \<Rightarrow>
     (case re_match relHourMatch_re s of
        Some (_, m, _, g) \<Rightarrow>
          matched_iso m (toISOString (time_clip (setHours1 z now (getHours z now + number_of_group g 1))))
      | None \<Rightarrow>
          weekdayMatch z now True (weekMatch_re [0xB2E4, 0xC74C]) s
            (weekdayMatch z now False (weekMatch_re [0xC774, 0xBC88]) s
              (weekdayMatch z now False dowMatch_re s
                (relativeWord z now s))))))"

subsection \<open>Durations\<close>

definition fullMatch_re :: re where
  "fullMatch_re = re_seq [Group 1 (re_some re_digit), Star re_space, re_text [0xC2DC, 0xAC04], Star re_space,
     re_opt (Alt (re_seq [Group 2 (re_some re_digit), Star re_space, re_text [0xBD84]]) (re_text [0xBC18]))]"

definition minMatch_re :: re where
  "minMatch_re = re_seq [Group 1 (re_some re_digit), Star re_space, re_text [0xBD84]]"

definition extractDuration :: "ustring \<Rightarrow> (ustring \<times> int) option" where
  "extractDuration s =
     (case re_match fullMatch_re s of
        Some (_, m, _, g) \<Rightarrow>
          (let after = trim (case find_sub m s of Some (_, b) \<Rightarrow> b | None \<Rightarrow> drop (length m - 1) s) in
           if starts_with [0xD6C4] after \<or> starts_with [0xB4A4] after then None
           else Some (m, number_of_group g 1 * 60
                  + (case group g 2 of
                       Some ds \<Rightarrow> parse_digits ds
                     | None \<Rightarrow> if str_includes m [0xBC18] then 30 else 0)))
      | None \<Rightarrow>
          (case re_match minMatch_re s of
             Some (_, m, _, g) \<Rightarrow>
               (let mins = number_of_group g 1 in if 5 \<le> mins \<and> mins \<le> 480 then Some (m, mins) else None)
           | None \<Rightarrow> None))"

subsection \<open>Keywords\<close>

definition findKeyword :: "ustring \<Rightarrow> ustring list \<Rightarrow> ustring option" where
  "findKeyword s kws = List.find (str_includes s) kws"

fun first_category :: "ustring \<Rightarrow> ustring list \<Rightarrow> (ustring \<times> ustring) option" where
  "first_category s [] = None"
| "first_category s (cat # cats) =
     (case findKeyword s (or_default (lookup CATEGORY_KEYWORDS cat) []) of
        Some kw \<Rightarrow> Some (cat, kw)
      | None \<Rightarrow> first_category s cats)"

definition detectCategory :: "ustring \<Rightarrow> (ustring \<times> ustring) option" where
  "detectCategory s = first_category s [[0xD68C, 0xC758], [0xAC1C, 0xBC1C], [0xB514, 0xC790, 0xC778], [0xBB38,
     0xC11C], [0xAC1C, 0xC778], [0xC778, 0xC0AC], [0xC5C5, 0xBB34]]"

definition detectImportance :: "ustring \<Rightarrow> (int \<times> ustring) option" where
  "detectImportance s =
     (case findKeyword s IMPORTANCE_HIGH of
        Some kw \<Rightarrow> Some (5, kw)
      | None \<Rightarrow> map_option (Pair 1) (findKeyword s IMPORTANCE_LOW))"

definition detectEnergy :: "ustring \<Rightarrow> (energy \<times> ustring) option" where
  "detectEnergy s =
     (case findKeyword s ENERGY_HIGH of
        Some kw \<Rightarrow> Some (HIGH, kw)
      | None \<Rightarrow> map_option (Pair LOW) (findKeyword s ENERGY_LOW))"

subsection \<open>The title\<close>

definition suffix_re :: re where
  "suffix_re = re_seq [Star re_space,
     Group 1 (re_alts [re_text [0xAE4C, 0xC9C0], re_text [0xC804, 0xC5D0], re_text [0xB9C8,
        0xAC10], re_text [0xC548, 0xC5D0], re_text [0xC774, 0xB0B4],
       re_seq [re_text [0xD574, 0xC57C], Star re_space, re_text [0xD574]], re_seq [re_text [0xD574, 0xC57C], Star re_space, re_text [0xB3FC]],
       re_text [0xD574, 0xC918], re_text [0xD558, 0xAE30], re_seq [re_text [0xD560], Star re_space, re_text [0xAC83]], re_text [0xC880],
       re_seq [re_text [0xD574, 0xC57C], Star re_space, re_text [0xD558, 0xB294]], re_text [0xC9DC, 0xB9AC]]),
     Star re_space]"

definition head_re :: re where
  "head_re = re_seq [Group 1 (re_alts (map re_text [[0xADF8], [0xADF8, 0xB0E5], [0xC880], [0xC77C,
     0xB2E8], [0xADF8, 0xB9AC, 0xACE0], [0xADF8, 0xB798, 0xC11C]])), re_some re_space]"

definition tail_re :: re where
  "tail_re = re_seq [Group 1 (re_alts (map re_text [[0xC744], [0xB97C], [0xC774], [0xAC00], [0xC740], [0xB294]])), Star re_space, At_End]"

definition squeeze :: "ustring \<Rightarrow> ustring" where
  "squeeze s = replace_all (re_some re_space) [0x20] s"

definition cleanTitle :: "ustring \<Rightarrow> ustring list \<Rightarrow> ustring" where
  "cleanTitle s removals =
     (let title = foldl (\<lambda>t r. if r = [] then t else replace_first r [0x20] t) s removals;
          title = trim (squeeze (replace_all suffix_re [0x20] title));
          title = trim (replace_all tail_re [] (replace_start head_re [] title))
      in if title \<noteq> [] then title else trim s)"

subsection \<open>The parser\<close>

record voice_parsed =
  vp_deadline :: "ustring option"
  vp_importance :: "ustring option"
  vp_category :: "ustring option"
  vp_energy :: "ustring option"
  vp_duration :: "ustring option"

record voice_task =
  vt_title :: ustring
  vt_deadline :: "int option"
  vt_importance :: int
  vt_category :: ustring
  vt_requiredEnergy :: energy
  vt_estimatedMinutes :: int
  vt_parsed :: voice_parsed

definition nothing_parsed :: voice_parsed where
  "nothing_parsed = \<lparr>vp_deadline = None, vp_importance = None, vp_category = None, vp_energy = None, vp_duration = None\<rparr>"

definition removals_of ::
  "(ustring \<times> int) option \<Rightarrow> (ustring \<times> int) option \<Rightarrow> (int \<times> ustring) option \<Rightarrow> (energy \<times> ustring) option
   \<Rightarrow> (ustring \<times> ustring) option \<Rightarrow> ustring list" where
  "removals_of dl dur imp eng cat =
     (case dl of Some (m, _) \<Rightarrow> [m] | None \<Rightarrow> []) @ (case dur of Some (m, _) \<Rightarrow> [m] | None \<Rightarrow> [])
     @ (case imp of Some (_, m) \<Rightarrow> [m] | None \<Rightarrow> []) @ (case eng of Some (_, m) \<Rightarrow> [m] | None \<Rightarrow> [])
     @ (case cat of Some (_, m) \<Rightarrow> if m = [0xAC1C, 0xC778] \<or> m = [0xC5C5, 0xBB34] then [m] else [] | None \<Rightarrow> [])"

definition parseVoiceInput :: "zone \<Rightarrow> int \<Rightarrow> ustring \<Rightarrow> range_error + voice_task" where
  "parseVoiceInput z now s =
     (if trim s = []
      then Inr \<lparr>vt_title = [], vt_deadline = None, vt_importance = 3, vt_category = [0xC5C5, 0xBB34],
                vt_requiredEnergy = MEDIUM, vt_estimatedMinutes = 30, vt_parsed = nothing_parsed\<rparr>
      else
        (let n = trim s;
             dur = extractDuration n;
             imp = detectImportance n;
             eng = detectEnergy n;
             cat = detectCategory n
         in case extractDeadline z now n of
              Inl e \<Rightarrow> Inl e
            | Inr dl \<Rightarrow>
                Inr \<lparr>vt_title = cleanTitle n (removals_of dl dur imp eng cat),
                     vt_deadline = map_option snd dl,
                     vt_importance = or_default (map_option fst imp) 3,
                     vt_category = or_default (map_option fst cat) [0xC5C5, 0xBB34],
                     vt_requiredEnergy = or_default (map_option fst eng) MEDIUM,
                     vt_estimatedMinutes = or_default (map_option snd dur) 30,
                     vt_parsed = \<lparr>vp_deadline = map_option fst dl, vp_importance = map_option snd imp,
                       vp_category = map_option snd cat, vp_energy = map_option snd eng,
                       vp_duration = map_option fst dur\<rparr>\<rparr>))"

definition speech_part :: "ustring \<Rightarrow> ustring option \<Rightarrow> ustring list" where
  "speech_part label m = (case m of Some t \<Rightarrow> if t \<noteq> [] then [label @ t] else [] | None \<Rightarrow> [])"

fun join_parts :: "ustring list \<Rightarrow> ustring" where
  "join_parts [] = []"
| "join_parts [p] = p"
| "join_parts (p # ps) = p @ [0x2C, 0x20] @ join_parts ps"

definition parsedToSpeech :: "voice_task \<Rightarrow> ustring" where
  "parsedToSpeech r =
     [0xAE30, 0xB85D, 0xD588, 0xC5B4, 0xC694, 0x3A, 0x20] @ join_parts (([0x22] @ vt_title r @ [0x22])
        # speech_part [0xB9C8, 0xAC10, 0x20] (vp_deadline (vt_parsed r))
        @ speech_part [0xC911, 0xC694, 0xB3C4, 0x20] (vp_importance (vt_parsed r))
        @ speech_part [0xCE74, 0xD14C, 0xACE0, 0xB9AC, 0x20] (vp_category (vt_parsed r)))"

subsection \<open>Absolute dates are the next occurrence\<close>

lemma hour_day: "hour_ms = 3600000" "day_ms = 86400000"
  by (simp_all add: hour_ms_def day_ms_def)

lemma setHours_nine:
  assumes "zone_steady z" "0 \<le> ms" "ms < day_ms"
  shows "setHours4 z (toUtc z (d * day_ms + ms)) 9 0 = toUtc z (d * day_ms + 9 * hour_ms)"
  using local_of_utc [OF assms, of d] by (simp add: setHours4_def)

lemma time_clip_near:
  assumes "\<bar>now\<bar> \<le> 8000000000000000" "\<bar>t - now\<bar> \<le> 600000000000000"
  shows "time_clip t = Some t"
  using assms by (simp add: time_clip_def time_limit_def)

text \<open>The days on which the date may fall: this year's, and the same date of the next year.\<close>

lemma absDate_days:
  fixes z :: zone and now m d :: int
  assumes "0 \<le> m" "m \<le> 11" "1 \<le> d" "d \<le> 31"
  defines "D \<equiv> makeDay (getFullYear z now) m d"
  defines "D' \<equiv> makeDay (year_of D + 1) (month_of D) (date_of D)"
  shows "\<bar>D - local_day z now\<bar> \<le> 366" "D' - D = 365 \<or> D' - D = 366" "local_day z now < D'"
proof -
  let ?Y = "getFullYear z now"
  have now: "makeDay ?Y 0 1 \<le> local_day z now" "local_day z now < makeDay (?Y + 1) 0 1"
    using year_bounds [of "local_day z now"] by (simp_all add: getFullYear_def)
  have D: "makeDay ?Y 0 1 \<le> D" "D \<le> makeDay ?Y 0 1 + 366"
    using within_year [OF assms(1-4), of ?Y] by (simp_all add: D_def)
  show "\<bar>D - local_day z now\<bar> \<le> 366" using now D year_length [of ?Y] by auto
  show "D' - D = 365 \<or> D' - D = 366"
    using next_year [of "year_of D" "month_of D" "date_of D"] by (simp add: D'_def makeDay_civil)
  have "?Y \<le> year_of D" using D(1) by (rule year_of_ge)
  then have "makeDay (?Y + 1) 0 1 \<le> makeDay (year_of D + 1) 0 1" by (intro jan_mono) simp
  also have "\<dots> \<le> D'" unfolding D'_def by (rule within_year(1) [OF civil_bounds])
  finally show "local_day z now < D'" using now by simp
qed

lemma absDate_next:
  assumes z: "zone_steady z" and now: "\<bar>now\<bar> \<le> 8000000000000000"
    and md: "0 \<le> m" "m \<le> 11" "1 \<le> d" "d \<le> 31"
  shows "\<exists>t. absDate z now m d = Inr t \<and> now \<le> t \<and> t \<le> now + 367 * day_ms \<and> local_ms z t = 9 * hour_ms"
proof -
  define D where "D = makeDay (getFullYear z now) m d"
  define D' where "D' = makeDay (year_of D + 1) (month_of D) (date_of D)"
  note days = absDate_days [OF md, of z now, folded D_def, folded D'_def]
  have ok: "zone_ok z" using z by (simp add: zone_steady_def)
  note loc = local_split [of z now]
  have nine: "0 \<le> 9 * hour_ms" "9 * hour_ms < day_ms" by (simp_all add: hour_day)
  note nine_loc = local_of_utc [OF z nine]
  let ?t = "toUtc z (D * day_ms + 9 * hour_ms)" and ?t' = "toUtc z (D' * day_ms + 9 * hour_ms)"
  have near: "\<bar>toUtc z (e * day_ms + ms) - now - ((e - local_day z now) * day_ms + (ms - local_ms z now))\<bar> \<le> 2 * hour_ms" for e ms
    using instant_near [OF ok, of "e * day_ms + ms" now] loc(1) by (simp add: algebra_simps)
  have month: "time_clip (setMonth z now m d) = Some (toUtc z (D * day_ms + local_ms z now))"
    using near [of D "local_ms z now"] days(1)
    by (simp add: setMonth_def flip: D_def) (rule time_clip_near [OF now], simp add: hour_day)
  have t: "time_clip ?t = Some ?t" "time_clip ?t' = Some ?t'"
    using near [of D "9 * hour_ms"] near [of D' "9 * hour_ms"] days loc
    by (intro time_clip_near [OF now]; simp add: hour_day; linarith)+
  have hours: "setHours4 z (toUtc z (D * day_ms + local_ms z now)) 9 0 = ?t"
    using setHours_nine [OF z loc(2,3)] .
  have year: "setFullYear z ?t (getFullYear z ?t + 1) = ?t'"
    using nine_loc by (simp add: setFullYear_def getFullYear_def getMonth_def getDate_def D'_def)
  have r: "absDate z now m d = Inr (if ?t < now then ?t' else ?t)"
    using t month hours year by (simp add: absDate_def toISOString_def)
  have "now \<le> ?t'"
    using near [of D' "9 * hour_ms"] days(3) loc(2,3) by (simp add: hour_day)
  moreover have "?t \<le> now + 367 * day_ms"
    using near [of D "9 * hour_ms"] days(1) loc(2,3) by (simp add: hour_day)
  moreover have "?t' \<le> now + 367 * day_ms" if "?t < now"
    using near [of D' "9 * hour_ms"] near [of D "9 * hour_ms"] days(2) that by (simp add: hour_day) linarith
  ultimately show ?thesis using r nine_loc by auto
qed

text \<open>
  A month and a day of the month spoken in a text are its deadline, whatever else the text says,
  and the deadline is at nine o'clock local time, not before now and at most 367 days ahead: the
  next occurrence of the date, the coming year's when this year's has passed.
\<close>

theorem absolute_date_is_upcoming:
  assumes "re_match absMatch_re s = Some (p, m, r, g)"
    and "1 \<le> number_of_group g 1" "number_of_group g 1 \<le> 12" "1 \<le> number_of_group g 2" "number_of_group g 2 \<le> 31"
    and "zone_steady z" and "\<bar>now\<bar> \<le> 8000000000000000"
  shows "\<exists>t. extractDeadline z now s = Inr (Some (m, t)) \<and> now \<le> t \<and> t \<le> now + 367 * day_ms
    \<and> local_ms z t = 9 * hour_ms"
  using absDate_next [OF assms(6,7), of "number_of_group g 1 - 1" "number_of_group g 2"] assms(1-5)
  by (auto simp: extractDeadline_def matched_iso_def)

definition sample_now :: int where "sample_now = 1750000000000"

definition sample_spoken :: ustring where "sample_spoken = [0x36, 0xC6D4, 0x20, 0x31, 0x35, 0xC77C, 0xAE4C, 0xC9C0, 0x20, 0xBCF4, 0xACE0, 0xC11C]"

lemmas re_defs = re_match.simps match_at_def re_seq_def re_digit_def re_space_def re_some_def re_opt_def
  re_text_def white_def and_then_def

lemma sample_spoken_match:
  "re_match absMatch_re sample_spoken = Some ([], [0x36, 0xC6D4, 0x20, 0x31, 0x35, 0xC77C], [0xAE4C, 0xC9C0, 0x20,
     0xBCF4, 0xACE0, 0xC11C], [(1, [0x36]), (2, [0x31, 0x35])])"
  by (simp add: sample_spoken_def absMatch_re_def re_defs)

lemma absolute_date_is_upcoming_witness:
  "\<exists>t. extractDeadline (fixed_zone (9 * hour_ms)) sample_now sample_spoken = Inr (Some ([0x36, 0xC6D4, 0x20, 0x31, 0x35, 0xC77C], t))
    \<and> sample_now \<le> t \<and> t \<le> sample_now + 367 * day_ms \<and> local_ms (fixed_zone (9 * hour_ms)) t = 9 * hour_ms"
  by (rule absolute_date_is_upcoming [OF sample_spoken_match])
    (simp_all add: number_of_group_def group_def or_default_def parse_digits_def fixed_zone_steady hour_day sample_now_def)

subsection \<open>Days of the week\<close>

text \<open>
  A day of the week is at nine o'clock of a day that is that weekday: one to seven days ahead, so
  never today, and with \<open>next week\<close> exactly seven days more.  (So on a Wednesday the Monday of the
  next week is taken twelve days ahead, not five.)
\<close>

theorem weekday_deadline:
  assumes "lookup DAY_NAMES nm = Some w" and z: "zone_steady z" and now: "\<bar>now\<bar> \<le> 8000000000000000"
  shows "\<exists>k. 1 \<le> k \<and> k \<le> 7 \<and> (local_day z now + k + 4) mod 7 = w
    \<and> getWeekday z now nm False = Some (Inr (toUtc z ((local_day z now + k) * day_ms + 9 * hour_ms)))
    \<and> getWeekday z now nm True = Some (Inr (toUtc z ((local_day z now + k + 7) * day_ms + 9 * hour_ms)))"
proof -
  let ?D = "local_day z now"
  have w: "0 \<le> w" "w \<le> 6" using assms(1) by (auto simp: DAY_NAMES_def split: if_splits)
  define k where "k = (if w - getDay z now \<le> 0 then w - getDay z now + 7 else w - getDay z now)"
  have d: "0 \<le> getDay z now" "getDay z now < 7" by (simp_all add: getDay_def)
  have k: "1 \<le> k" "k \<le> 7" using w d by (auto simp: k_def)
  have "(?D + k + 4) mod 7 = (getDay z now + k) mod 7" unfolding getDay_def by (metis add.commute add.left_commute mod_add_left_eq)
  also have "\<dots> = w" using w d by (auto simp: k_def)
  finally have wd: "(?D + k + 4) mod 7 = w" .
  have ok: "zone_ok z" using z by (simp add: zone_steady_def)
  note loc = local_split [of z now]
  have inst: "Option.bind (time_clip (setDate z now (getDate z now + j))) (\<lambda>d. time_clip (setHours4 z d 9 0))
      = Some (toUtc z ((?D + j) * day_ms + 9 * hour_ms))" if "1 \<le> j" "j \<le> 14" for j
  proof -
    have near: "\<bar>toUtc z ((?D + j) * day_ms + ms) - now - (j * day_ms + (ms - local_ms z now))\<bar> \<le> 2 * hour_ms" for ms
      using instant_near [OF ok, of "(?D + j) * day_ms + ms" now] loc(1) by (simp add: algebra_simps)
    have "time_clip (toUtc z ((?D + j) * day_ms + ms)) = Some (toUtc z ((?D + j) * day_ms + ms))"
      if "0 \<le> ms" "ms < day_ms" for ms
      using near [of ms] \<open>1 \<le> j\<close> \<open>j \<le> 14\<close> that loc(2,3)
      by (intro time_clip_near [OF now]) (simp add: hour_day)
    then show ?thesis using setHours_nine [OF z loc(2,3)] loc(2,3)
      by (simp add: setDate_shift) (simp add: hour_day)
  qed
  have week: "getWeekday z now nm nw = Some (toISOString
      (Option.bind (time_clip (setDate z now (getDate z now + (k + (if nw then 7 else 0))))) (\<lambda>d. time_clip (setHours4 z d 9 0))))" for nw
    by (simp add: getWeekday_def assms(1) k_def)
  have "getWeekday z now nm False = Some (Inr (toUtc z ((?D + k) * day_ms + 9 * hour_ms)))"
    using inst [of k] k by (simp add: week toISOString_def)
  moreover have "getWeekday z now nm True = Some (Inr (toUtc z ((?D + k + 7) * day_ms + 9 * hour_ms)))"
    using inst [of "k + 7"] k by (simp add: week toISOString_def add.assoc)
  ultimately show ?thesis using k wd by blast
qed

lemma weekday_deadline_witness:
  "\<exists>k. 1 \<le> k \<and> k \<le> 7 \<and> (local_day (fixed_zone 0) 0 + k + 4) mod 7 = 1
    \<and> getWeekday (fixed_zone 0) 0 [0xC6D4] True
        = Some (Inr (toUtc (fixed_zone 0) ((local_day (fixed_zone 0) 0 + k + 7) * day_ms + 9 * hour_ms)))"
  using weekday_deadline [of "[0xC6D4]" 1 "fixed_zone 0" 0] by (auto simp: DAY_NAMES_def fixed_zone_steady day_ms_def)

subsection \<open>Titles\<close>

lemma iterate_run:
  assumes "f [] = []" and "\<And>c cs. f (c # cs) = (if p c then [([c], cs, [])] else [])"
  shows "length s \<le> n \<Longrightarrow> \<exists>ms. iterate f n s = (takeWhile p s, dropWhile p s, []) # ms"
proof (induction n arbitrary: s)
  case (Suc n)
  show ?case
  proof (cases s)
    case (Cons c cs)
    with Suc.prems Suc.IH [of cs] obtain ms where "iterate f n cs = (takeWhile p cs, dropWhile p cs, []) # ms" by auto
    with Cons show ?thesis by (auto simp: and_then_def assms)
  qed (simp add: and_then_def assms)
qed simp

lemma match_white_run:
  "match_at (re_some re_space) s =
     (if s = [] \<or> \<not> white (hd s) then None else Some (takeWhile white s, dropWhile white s, []))"
proof (cases s)
  case (Cons c cs)
  have "\<exists>ms. iterate (matches (One white)) (length cs) cs = (takeWhile white cs, dropWhile white cs, []) # ms"
    by (rule iterate_run) simp_all
  then obtain ms where "iterate (matches (One white)) (length cs) cs = (takeWhile white cs, dropWhile white cs, []) # ms"
    by blast
  with Cons show ?thesis by (simp add: match_at_def re_some_def re_space_def and_then_def)
qed (simp add: match_at_def re_some_def re_space_def and_then_def)

lemma find_white_run:
  "re_match (re_some re_space) s = None \<Longrightarrow> \<forall>c \<in> set s. \<not> white c"
  "re_match (re_some re_space) s = Some (p, t, r, g) \<Longrightarrow>
     (\<forall>c \<in> set p. \<not> white c) \<and> t \<noteq> [] \<and> (r = [] \<or> \<not> white (hd r))"
proof (induction s arbitrary: p)
  case Nil
  { case 1 then show ?case by simp }
  { case 2 then show ?case by (simp add: re_match.simps [of _ "[]"] match_white_run) }
next
  case (Cons c s)
  { case 1
    with Cons.IH show ?case
      by (auto simp: re_match.simps [of _ "c # s"] match_white_run split: if_splits) }
  { case 2
    show ?case
    proof (cases "white c")
      case True
      with 2 show ?thesis
        using hd_dropWhile [of white s] by (auto simp: re_match.simps [of _ "c # s"] match_white_run)
    next
      case False
      with 2 Cons.IH show ?thesis by (auto simp: re_match.simps [of _ "c # s"] match_white_run)
    qed }
qed

text \<open>No two white characters in a row.\<close>

fun spaced :: "ustring \<Rightarrow> bool" where
  "spaced (x # y # r) \<longleftrightarrow> \<not> (white x \<and> white y) \<and> spaced (y # r)"
| "spaced _ \<longleftrightarrow> True"

lemma spaced_append: "spaced (a @ b) \<longleftrightarrow> spaced a \<and> spaced b \<and> (a = [] \<or> b = [] \<or> \<not> (white (last a) \<and> white (hd b)))"
  by (induction a rule: spaced.induct) (cases b; auto)+

lemma spaced_no_white: "\<forall>c \<in> set s. \<not> white c \<Longrightarrow> spaced s"
  by (induction s rule: spaced.induct) auto

lemma squeeze_spaced: "spaced (squeeze s) \<and> (s = [] \<or> white (hd s) \<or> (squeeze s \<noteq> [] \<longrightarrow> \<not> white (hd (squeeze s))))"
proof (induction "length s" arbitrary: s rule: less_induct)
  case less
  show ?case
  proof (cases "re_match (re_some re_space) s")
    case None
    then have "squeeze s = s" by (simp add: squeeze_def replace_all.simps [of _ _ s])
    then show ?thesis using find_white_run(1) [OF None] by (auto simp: spaced_no_white)
  next
    case (Some f)
    obtain p t r g where f: "f = (p, t, r, g)" by (cases f)
    with Some have m: "re_match (re_some re_space) s = Some (p, t, r, g)" by simp
    note run = find_white_run(2) [OF m] and split = re_match_split [OF m]
    have sq: "squeeze s = p @ [32] @ squeeze r"
      using m run by (simp add: squeeze_def replace_all.simps [of _ _ s])
    have IH: "spaced (squeeze r)" "r = [] \<or> white (hd r) \<or> (squeeze r \<noteq> [] \<longrightarrow> \<not> white (hd (squeeze r)))"
      using less [of r] split run by auto
    have "squeeze [] = []"
      by (simp add: squeeze_def replace_all.simps [of _ _ "[]"] re_match.simps [of _ "[]"] match_white_run)
    then have "squeeze r = [] \<or> \<not> white (hd (squeeze r))" using IH(2) run by (cases "r = []") auto
    then have "spaced ([32] @ squeeze r)" using IH(1) by (cases "squeeze r") (auto simp: white_def)
    moreover have "p = [] \<or> \<not> white (last p)" using run by auto
    ultimately have "spaced (squeeze s)" unfolding sq spaced_append [of p] using run by (auto intro: spaced_no_white)
    moreover have "s = [] \<or> white (hd s) \<or> \<not> white (hd (squeeze s))"
    proof (cases p)
      case Nil
      have "match_at (re_some re_space) s = Some (t, r, g)"
        using re_match_first [OF m] split Nil by simp
      then have "white (hd s)" by (simp add: match_white_run split: if_splits)
      then show ?thesis by simp
    next
      case (Cons c p')
      then show ?thesis using run by (simp add: sq)
    qed
    ultimately show ?thesis by auto
  qed
qed

lemma seq_at_end: "(t, r, g) \<in> set (matches (Seq a (Seq b (Seq At_End Eps))) s) \<Longrightarrow> r = []"
  by (auto simp: and_then_def split: if_splits)

lemma tail_match_end: "re_match tail_re s = Some (p, t, r, g) \<Longrightarrow> r = []"
proof -
  assume "re_match tail_re s = Some (p, t, r, g)"
  then have "(t, r, g) \<in> set (matches tail_re (t @ r))"
    using re_match_first [of tail_re s p t r g] by (auto simp: match_at_def split: list.splits)
  then show "r = []" by (simp add: tail_re_def re_seq_def seq_at_end del: matches.simps)
qed

text \<open>A factor of a spaced text, such as a trimmed text or a text cut at its ends, is spaced.\<close>

lemma spaced_factor: "spaced (a @ b @ c) \<Longrightarrow> spaced b"
  by (simp add: spaced_append)

lemma spaced_trim: "spaced s \<Longrightarrow> spaced (trim s)"
  using trim_split [of s] spaced_factor by metis

lemma spaced_replace_start: "spaced s \<Longrightarrow> spaced (replace_start e [] s)"
  by (auto simp: replace_start_def spaced_append dest: match_at_split split: option.splits)

lemma spaced_cut_tail: "spaced s \<Longrightarrow> spaced (replace_all tail_re [] s)"
proof (cases "re_match tail_re s")
  case None
  then show "spaced s \<Longrightarrow> ?thesis" by (simp add: replace_all.simps [of _ _ s])
next
  case (Some f)
  obtain p t r g where f: "f = (p, t, r, g)" by (cases f)
  with Some have m: "re_match tail_re s = Some (p, t, r, g)" by simp
  have none: "re_match tail_re [] = None" by (simp add: tail_re_def re_defs)
  have "replace_all tail_re [] s = p"
    using m tail_match_end [OF m] none by (simp add: replace_all.simps [of _ _ s] replace_all.simps [of _ _ "[]"])
  then show "spaced s \<Longrightarrow> ?thesis" using re_match_split [OF m] by (simp add: spaced_append)
qed

lemma cleanTitle_clean:
  "trim s \<noteq> [] \<Longrightarrow> cleanTitle s rs \<noteq> [] \<and> trimmed (cleanTitle s rs) \<and> (spaced (cleanTitle s rs) \<or> cleanTitle s rs = trim s)"
  using trim_trimmed by (simp add: cleanTitle_def Let_def spaced_trim spaced_cut_tail spaced_replace_start squeeze_spaced)

text \<open>
  Whatever a spoken text contains, the title of its task is not blank and has no white space at
  its ends, and unless the cleaning left nothing, so that the whole text stands for it, its words
  are separated by single characters of white space.
\<close>

theorem voice_title_clean:
  assumes "parseVoiceInput z now s = Inr v" and "\<not> blank s"
  shows "vt_title v \<noteq> [] \<and> trimmed (vt_title v) \<and> (spaced (vt_title v) \<or> vt_title v = trim s)"
proof -
  have ne: "trim s \<noteq> []" using assms(2) by (simp add: trim_Nil)
  then obtain rs where "vt_title v = cleanTitle (trim s) rs"
    using assms(1) by (auto simp: parseVoiceInput_def Let_def split: sum.splits)
  then show ?thesis using cleanTitle_clean [of "trim s" rs] ne by (simp add: trim_trim)
qed

lemma sample_chore_parsed:
  "\<exists>v. parseVoiceInput (fixed_zone 0) 0 [0xCCAD, 0xC18C] = Inr v"
  by (simp add: parseVoiceInput_def extractDeadline_def weekdayMatch_def relativeWord_def trim_def Let_def
      absMatch_re_def relDayMatch_re_def relHourMatch_re_def weekMatch_re_def dowMatch_re_def moreMatch_re_def
      re_day_name_def str_includes_def find_sub.simps re_defs)

lemma voice_title_clean_witness:
  "\<exists>v. parseVoiceInput (fixed_zone 0) 0 [0xCCAD, 0xC18C] = Inr v
     \<and> vt_title v \<noteq> [] \<and> trimmed (vt_title v) \<and> (spaced (vt_title v) \<or> vt_title v = trim [0xCCAD, 0xC18C])"
proof -
  obtain v where "parseVoiceInput (fixed_zone 0) 0 [0xCCAD, 0xC18C] = Inr v" using sample_chore_parsed by blast
  with voice_title_clean [OF this] show ?thesis by (auto simp: blank_def white_def)
qed

subsection \<open>What is reported was said\<close>

definition said :: "ustring \<Rightarrow> ustring \<Rightarrow> bool" where
  "said s m \<longleftrightarrow> (\<exists>a b. s = a @ m @ b)"

lemma said_match: "re_match e s = Some (p, m, r, g) \<Longrightarrow> said s m"
  using re_match_split [of e s p m r g] unfolding said_def by blast

lemma said_includes: "str_includes s m \<Longrightarrow> said s m"
  by (simp add: includes_iff said_def)

lemma matched_iso_eq: "matched_iso m i = Inr (Some (m', t)) \<Longrightarrow> m' = m"
  by (auto simp: matched_iso_def split: sum.splits)

lemma said_relative: "relativeWord z now s = Inr (Some (m, t)) \<Longrightarrow> said s m"
  by (auto simp: relativeWord_def dest!: matched_iso_eq dest: said_includes said_match split: if_splits option.splits)

lemma said_weekday:
  "weekdayMatch z now nw e s other = Inr (Some (m, t)) \<Longrightarrow> (other = Inr (Some (m, t)) \<Longrightarrow> said s m) \<Longrightarrow> said s m"
  by (auto simp: weekdayMatch_def dest!: matched_iso_eq dest: said_match split: option.splits)

lemma said_deadline: "extractDeadline z now s = Inr (Some (m, t)) \<Longrightarrow> said s m"
  by (auto simp: extractDeadline_def dest!: matched_iso_eq dest: said_match said_relative
      elim!: said_weekday split: option.splits)

lemma said_duration: "extractDuration s = Some (m, k) \<Longrightarrow> said s m"
  by (auto simp: extractDuration_def Let_def dest: said_match split: option.splits if_splits)

lemma said_keyword: "findKeyword s kws = Some m \<Longrightarrow> said s m \<and> m \<in> set kws"
  by (auto simp: findKeyword_def includes_iff said_def dest: find_key_Some)

lemma said_importance: "detectImportance s = Some (i, m) \<Longrightarrow> said s m \<and> (i = 5 \<or> i = 1)"
  by (auto simp: detectImportance_def dest: said_keyword split: option.splits)

lemma said_energy: "detectEnergy s = Some (e, m) \<Longrightarrow> said s m"
  by (auto simp: detectEnergy_def dest: said_keyword split: option.splits)

lemma said_first_category:
  "first_category s cats = Some (c, m) \<Longrightarrow> said s m \<and> c \<in> set cats \<and> m \<in> set (or_default (lookup CATEGORY_KEYWORDS c) [])"
  by (induction cats) (auto dest: said_keyword split: option.splits)

lemma category_names: "map fst CATEGORY_KEYWORDS = [[0xD68C, 0xC758], [0xAC1C, 0xBC1C], [0xB514, 0xC790,
   0xC778], [0xBB38, 0xC11C], [0xAC1C, 0xC778], [0xC778, 0xC0AC], [0xC5C5, 0xBB34]]"
  by (simp add: CATEGORY_KEYWORDS_def)

lemma said_category:
  "detectCategory s = Some (c, m) \<Longrightarrow>
   said s m \<and> c \<in> set (map fst CATEGORY_KEYWORDS) \<and> m \<in> set (or_default (lookup CATEGORY_KEYWORDS c) [])"
  unfolding detectCategory_def category_names by (drule said_first_category) simp

text \<open>
  C7. Every phrase a parsed text reports (deadline, importance, category, energy, duration) occurs in
  the text; the importance is 1, 3 or 5; and the category is one of the seven of the table, the one
  whose keyword is reported or, when none is, the general one.
\<close>

theorem voice_reports_what_was_said:
  assumes "parseVoiceInput z now s = Inr v"
  shows "(\<forall>m. Some m \<in> {vp_deadline (vt_parsed v), vp_importance (vt_parsed v), vp_category (vt_parsed v),
              vp_energy (vt_parsed v), vp_duration (vt_parsed v)} \<longrightarrow> said (trim s) m)
    \<and> vt_importance v \<in> {1, 3, 5}
    \<and> vt_category v \<in> set (map fst CATEGORY_KEYWORDS)
    \<and> (case vp_category (vt_parsed v) of
          Some m \<Rightarrow> m \<in> set (or_default (lookup CATEGORY_KEYWORDS (vt_category v)) [])
        | None \<Rightarrow> vt_category v = [0xC5C5, 0xBB34])"
proof (cases "trim s = []")
  case True
  with assms show ?thesis by (auto simp: parseVoiceInput_def nothing_parsed_def category_names)
next
  case False
  let ?n = "trim s"
  from assms False obtain dl where dl: "extractDeadline z now ?n = Inr dl"
    by (auto simp: parseVoiceInput_def Let_def split: sum.splits)
  define imp where "imp = detectImportance ?n"
  define cat where "cat = detectCategory ?n"
  have v: "vt_parsed v = \<lparr>vp_deadline = map_option fst dl, vp_importance = map_option snd imp,
      vp_category = map_option snd cat, vp_energy = map_option snd (detectEnergy ?n),
      vp_duration = map_option fst (extractDuration ?n)\<rparr>"
    "vt_importance v = or_default (map_option fst imp) 3" "vt_category v = or_default (map_option fst cat) [0xC5C5, 0xBB34]"
    using assms False dl by (auto simp: parseVoiceInput_def Let_def imp_def cat_def)
  have "vt_importance v \<in> {1, 3, 5}"
    using said_importance [of ?n] by (cases imp) (auto simp: v or_default_def imp_def [symmetric])
  moreover have "vt_category v \<in> set (map fst CATEGORY_KEYWORDS) \<and> (case vp_category (vt_parsed v) of
          Some m \<Rightarrow> m \<in> set (or_default (lookup CATEGORY_KEYWORDS (vt_category v)) [])
        | None \<Rightarrow> vt_category v = [0xC5C5, 0xBB34])"
    using said_category [of ?n]
    by (cases cat) (auto simp: v or_default_def cat_def [symmetric] category_names)
  moreover have "said ?n m" if "Some m \<in> {vp_deadline (vt_parsed v), vp_importance (vt_parsed v), vp_category (vt_parsed v),
              vp_energy (vt_parsed v), vp_duration (vt_parsed v)}" for m
  proof -
    from that consider "Some m = map_option fst dl" | "Some m = map_option snd imp" | "Some m = map_option snd cat"
      | "Some m = map_option snd (detectEnergy ?n)" | "Some m = map_option fst (extractDuration ?n)"
      by (auto simp: v)
    then show ?thesis
    proof cases
      case 1
      with dl show ?thesis by (cases dl) (auto dest: said_deadline)
    next
      case 2
      then show ?thesis by (cases imp) (auto simp: imp_def dest: said_importance)
    next
      case 3
      then show ?thesis by (cases cat) (auto simp: cat_def dest: said_category)
    next
      case 4
      then show ?thesis by (cases "detectEnergy ?n") (auto dest: said_energy)
    next
      case 5
      then show ?thesis by (cases "extractDuration ?n") (auto dest: said_duration)
    qed
  qed
  ultimately show ?thesis by blast
qed

lemma voice_reports_what_was_said_witness:
  "\<exists>v. parseVoiceInput (fixed_zone 0) 0 [0xCCAD, 0xC18C] = Inr v \<and> vt_category v \<in> set (map fst CATEGORY_KEYWORDS)"
proof -
  obtain v where "parseVoiceInput (fixed_zone 0) 0 [0xCCAD, 0xC18C] = Inr v" using sample_chore_parsed by blast
  with voice_reports_what_was_said [OF this] show ?thesis by blast
qed

end
