(* ===== verification/Overdue.thy ===== *)
theory Overdue
  imports Js_Date
begin

text \<open>
  Calendar days of the notification server, \<open>alarm-system/src/notifications/overdue.ts\<close>: the date
  key of an instant in a time zone, the day number of a key, the days a deadline is overdue, and the
  service date of a batch.
\<close>

subsection \<open>Date keys\<close>

definition padStart2 :: "int \<Rightarrow> string" where
  "padStart2 n = (if 0 \<le> n \<and> n < 10 then CHR ''0'' # show_int n else show_int n)"

text \<open>The \<open>YYYY-MM-DD\<close> form that the \<open>en-CA\<close> locale prints for an instant in a zone.\<close>

definition dateKeyInTZ :: "zone \<Rightarrow> int \<Rightarrow> string" where
  "dateKeyInTZ z t =
     show_int (getFullYear z t) @ ''-'' @ padStart2 (getMonth z t + 1) @ ''-'' @ padStart2 (getDate z t)"

fun split_dash :: "string \<Rightarrow> string list" where
  "split_dash [] = [[]]"
| "split_dash (c # cs) =
     (if c = CHR ''-'' then [] # split_dash cs
      else (case split_dash cs of [] \<Rightarrow> [[c]] | p # ps \<Rightarrow> (c # p) # ps))"

text \<open>\<open>Date.UTC\<close>: a year from 0 to 99 means one of the twentieth century.\<close>

definition date_UTC :: "int \<Rightarrow> int \<Rightarrow> int \<Rightarrow> int" where
  "date_UTC y m d = makeDay (if 0 \<le> y \<and> y \<le> 99 then 1900 + y else y) m d * day_ms"

definition epochDayFromKey :: "string \<Rightarrow> int option" where
  "epochDayFromKey key =
     (case map (read_digits 0) (split_dash key) of
        Some y # Some m # Some d # _ \<Rightarrow>
          Some (js_round (of_int (date_UTC (int y) (int m - 1) (int d)) / of_int day_ms))
      | _ \<Rightarrow> None)"

text \<open>\<open>new Date(year, month, date)\<close> of the local fields: local midnight.\<close>

definition localMidnightMs :: "zone \<Rightarrow> int \<Rightarrow> int" where
  "localMidnightMs z t = toUtc z (makeDay (getFullYear z t) (getMonth z t) (getDate z t) * day_ms)"

subsection \<open>Days overdue and the service date\<close>

text \<open>
  \<open>computeOverdueDays\<close>; with a time zone by the keys in it, without one by the server's own midnights.
  \<open>None\<close> stands for \<open>NaN\<close>, which a key that is not made of numbers would give.
\<close>

definition computeOverdueDays :: "zone \<Rightarrow> int \<Rightarrow> int \<Rightarrow> zone option \<Rightarrow> int option" where
  "computeOverdueDays local deadline now timeZone =
     (case timeZone of
        Some z \<Rightarrow>
          (case (epochDayFromKey (dateKeyInTZ z now), epochDayFromKey (dateKeyInTZ z deadline)) of
             (Some a, Some b) \<Rightarrow> Some (a - b)
           | _ \<Rightarrow> None)
      | None \<Rightarrow>
          Some \<lfloor>of_int (localMidnightMs local now - localMidnightMs local deadline) / (of_int day_ms :: js_num)\<rfloor>)"

definition toServiceDate :: "zone \<Rightarrow> int \<Rightarrow> zone option \<Rightarrow> string" where
  "toServiceDate local now timeZone =
     (case timeZone of
        Some z \<Rightarrow> dateKeyInTZ z now
      | None \<Rightarrow>
          show_int (getFullYear local now) @ ''-'' @ padStart2 (getMonth local now + 1) @ ''-''
            @ padStart2 (getDate local now))"

subsection \<open>Reading a key back\<close>

lemma dash_no_digit: "digit_value (CHR ''-'') = None"
  by (simp add: digit_value_def)

lemma split_dash_append: "CHR ''-'' \<notin> set s \<Longrightarrow> split_dash (s @ CHR ''-'' # r) = s # split_dash r"
  by (induction s) auto

lemma split_dash_plain: "CHR ''-'' \<notin> set s \<Longrightarrow> split_dash s = [s]"
  by (induction s) auto

lemma show_nat_no_dash: "CHR ''-'' \<notin> set (show_nat n)"
  using show_nat_digits [of "CHR ''-''" n] by (auto simp: dash_no_digit)

lemma pad_no_dash: "0 \<le> n \<Longrightarrow> CHR ''-'' \<notin> set (padStart2 n)"
  using show_nat_no_dash by (auto simp: padStart2_def show_int_def)

lemma read_pad: "0 \<le> n \<Longrightarrow> read_digits 0 (padStart2 n) = Some (nat n)"
  by (auto simp: padStart2_def show_int_def read_digits_show_nat digit_value_def)

lemma epochDay_key:
  assumes "100 \<le> getFullYear z t"
  shows "epochDayFromKey (dateKeyInTZ z t) = Some (local_day z t)"
proof -
  let ?y = "getFullYear z t" and ?m = "getMonth z t" and ?d = "getDate z t"
  have b: "0 \<le> ?m" "?m \<le> 11" "1 \<le> ?d" "?d \<le> 31" using civil_bounds by (simp_all add: getMonth_def getDate_def)
  have key: "dateKeyInTZ z t = show_nat (nat ?y) @ CHR ''-'' # padStart2 (?m + 1) @ CHR ''-'' # padStart2 ?d"
    using assms by (simp add: dateKeyInTZ_def show_int_def)
  have "split_dash (dateKeyInTZ z t) = [show_nat (nat ?y), padStart2 (?m + 1), padStart2 ?d]"
    using b by (simp add: key split_dash_append split_dash_plain show_nat_no_dash pad_no_dash)
  then have "epochDayFromKey (dateKeyInTZ z t) = Some (makeDay ?y ?m ?d)"
    using b assms by (simp add: epochDayFromKey_def read_digits_show_nat read_pad date_UTC_def day_ms_def)
  then show ?thesis by (simp add: getFullYear_def getMonth_def getDate_def makeDay_civil)
qed

text \<open>
  In a time zone, the days a deadline is overdue are the distance of the two calendar days there,
  whatever the time of day and the clock changes between them; and the service date is a key of that
  calendar day, the same for two instants exactly when they fall on the same day.
\<close>

theorem overdue_is_calendar_distance:
  assumes "100 \<le> getFullYear z now" and "100 \<le> getFullYear z deadline"
  shows "computeOverdueDays l deadline now (Some z) = Some (local_day z now - local_day z deadline)
    \<and> (toServiceDate l now (Some z) = toServiceDate l deadline (Some z) \<longleftrightarrow> local_day z now = local_day z deadline)"
proof -
  have "dateKeyInTZ z now = dateKeyInTZ z deadline \<longleftrightarrow> local_day z now = local_day z deadline"
  proof
    assume "dateKeyInTZ z now = dateKeyInTZ z deadline"
    then show "local_day z now = local_day z deadline"
      using epochDay_key [OF assms(1)] epochDay_key [OF assms(2)] by simp
  next
    assume "local_day z now = local_day z deadline"
    then show "dateKeyInTZ z now = dateKeyInTZ z deadline"
      by (simp add: dateKeyInTZ_def getFullYear_def getMonth_def getDate_def)
  qed
  then show ?thesis
    using epochDay_key [OF assms(1)] epochDay_key [OF assms(2)]
    by (simp add: computeOverdueDays_def toServiceDate_def)
qed

lemma epoch_year: "getFullYear (fixed_zone 0) 0 = 1970" "getFullYear (fixed_zone 0) (- 1) = 1969"
  by (simp_all add: getFullYear_def local_day_def fixed_zone_def day_ms_def year_of_def civil_def march_year_def Let_def)

lemma overdue_is_calendar_distance_witness:
  "computeOverdueDays (fixed_zone 0) (- 1) 0 (Some (fixed_zone 0)) = Some 1"
proof -
  have "local_day (fixed_zone 0) 0 - local_day (fixed_zone 0) (- 1) = 1"
    by (simp add: local_day_def fixed_zone_def day_ms_def)
  with overdue_is_calendar_distance [of "fixed_zone 0" 0 "- 1" "fixed_zone 0"] epoch_year show ?thesis
    by simp
qed

end
