(* ===== verification/Server_Db.thy ===== *)
theory Server_Db
  imports Overdue Api_Errors
begin

text \<open>
  The tables of the task server as the statements of \<open>alarm-system/src/services\<close> and
  \<open>alarm-system/src/routes\<close> use them, the transactions that the services run, and the answers of
  the routers.  A statement is written out as a function on the tables; a transaction is atomic,
  because the statements of each one are serialised by the row locks and advisory locks it takes.
\<close>

subsection \<open>Tables\<close>

record task_row =
  tk_id :: int
  tk_user :: int
  tk_title :: ustring
  tk_status :: raw_status
  tk_timer :: server_timer
  tk_timer_started :: "int option"
  tk_estimated :: "int option"
  tk_elapsed :: "int option"
  tk_scheduled :: string
  tk_deadline :: "int option"
  tk_completed_at :: "int option"
  tk_priority :: bool
  tk_deferred :: bool
  tk_deferred_count :: int
  tk_created_at :: int

record refund_row =
  rf_user :: int
  rf_task :: int
  rf_seconds :: int
  rf_created_at :: int

text \<open>The rows of \<open>user_available_time\<close> are keyed by user and service date.\<close>

record server_db =
  db_tasks :: "task_row list"
  db_next_task :: int
  db_available :: "((int \<times> string) \<times> int) list"
  db_refunds :: "refund_row list"

definition find_task :: "server_db \<Rightarrow> int \<Rightarrow> task_row option" where
  "find_task db i = List.find (\<lambda>t. tk_id t = i) (db_tasks db)"

definition update_tasks :: "(task_row \<Rightarrow> bool) \<Rightarrow> (task_row \<Rightarrow> task_row) \<Rightarrow> server_db \<Rightarrow> server_db" where
  "update_tasks P f db = db\<lparr>db_tasks := update_where P f (db_tasks db)\<rparr>"

text \<open>The condition of the partial unique index on priority tasks (migration 5).\<close>

definition open_status :: "raw_status \<Rightarrow> bool" where
  "open_status s \<longleftrightarrow> s \<noteq> S_COMPLETED \<and> s \<noteq> S_ARCHIVED"

definition active_priority :: "int \<Rightarrow> string \<Rightarrow> task_row \<Rightarrow> bool" where
  "active_priority u d t \<longleftrightarrow> tk_user t = u \<and> tk_priority t \<and> open_status (tk_status t) \<and> tk_scheduled t = d"

subsection \<open>Errors and transactions\<close>

datatype tx_error = App server_error | Unique_violation | Range_error | Db_error

definition withTx :: "(server_db \<Rightarrow> tx_error + 'a \<times> server_db) \<Rightarrow> server_db \<Rightarrow> (tx_error + 'a) \<times> server_db" where
  "withTx fn db = (case fn db of Inl e \<Rightarrow> (Inl e, db) | Inr (r, db') \<Rightarrow> (Inr r, db'))"

text \<open>The \<open>send\<close> of the routers: an application error with its own status, any other one as 500.\<close>

definition internal_error :: error_body where
  "internal_error = \<lparr>eb_status = Some 500, eb_error = Some ''INTERNAL_SERVER_ERROR'',
     eb_message = Some [0xC11C, 0xBC84, 0x20, 0xC624, 0xB958, 0xAC00, 0x20, 0xBC1C, 0xC0DD, 0xD588, 0xC2B5, 0xB2C8,
        0xB2E4, 0x2E], eb_rest = []\<rparr>"

definition send :: "tx_error \<Rightarrow> int \<times> error_body" where
  "send e = (case e of App a \<Rightarrow> (ae_status (Errors a), toJSON (Errors a)) | _ \<Rightarrow> (500, internal_error))"

lemma withTx_error: "withTx fn db = (Inl e, db') \<Longrightarrow> db' = db"
  by (auto simp: withTx_def split: sum.splits prod.splits)

lemma withTx_ok: "withTx fn db = (Inr r, db') \<longleftrightarrow> fn db = Inr (r, db')"
  by (auto simp: withTx_def split: sum.splits prod.splits)

subsection \<open>Sums over tables\<close>

lemma update_where_Cons: "update_where P h (x # xs) = (if P x then h x else x) # update_where P h xs"
  by (simp add: update_where_def)

lemma sum_update_one:
  fixes f :: "'a \<Rightarrow> int"
  assumes "distinct (map key ts)" and "t \<in> set ts" and "key (h t) = key t"
  shows "(\<Sum>x \<leftarrow> update_where (\<lambda>x. key x = key t) h ts. f x) = (\<Sum>x \<leftarrow> ts. f x) - f t + f (h t)"
  using assms(1,2)
proof (induction ts)
  case (Cons x ts)
  show ?case
  proof (cases "x = t")
    case True
    then have "\<forall>y \<in> set ts. key y \<noteq> key t" using Cons.prems by (auto simp: image_iff)
    then have "update_where (\<lambda>x. key x = key t) h ts = ts" by (intro update_where_none) auto
    then show ?thesis using True by (simp add: update_where_Cons)
  next
    case False
    then have "t \<in> set ts" "key x \<noteq> key t" using Cons.prems by (auto simp: image_iff)
    with Cons show ?thesis by (simp add: update_where_Cons)
  qed
qed simp

lemma sum_list_filter: "sum_list (map f (filter P xs)) = (\<Sum>x \<leftarrow> xs. if P x then f x else (0::int))"
  by (induction xs) auto

end
