(* ===== verification/Time_Service.thy ===== *)
theory Time_Service
  imports Server_Db Js_Regex Availability
begin

text \<open>
  The available-time service of the server, \<open>alarm-system/src/services/availableTimeService.ts\<close>: the
  sums of a user's day, the reservation of a task under the budget, its completion with a refund, the
  setting of the day's time, and their routes in \<open>routes/taskTimeRoutes.ts\<close>.
\<close>

subsection \<open>The sums of a day\<close>

definition reserved :: "raw_status \<Rightarrow> bool" where
  "reserved s \<longleftrightarrow> s = S_PENDING \<or> s = S_SNOOZED"

definition of_day :: "int \<Rightarrow> string \<Rightarrow> task_row \<Rightarrow> bool" where
  "of_day u d t \<longleftrightarrow> tk_user t = u \<and> tk_scheduled t = d"

definition sumAllocated :: "server_db \<Rightarrow> int \<Rightarrow> string \<Rightarrow> int" where
  "sumAllocated db u d =
     (\<Sum>t \<leftarrow> filter (\<lambda>t. of_day u d t \<and> reserved (tk_status t)) (db_tasks db). or_default (tk_estimated t) 0)"

text \<open>\<open>LEAST\<close> passes over a missing estimate.\<close>

definition least_elapsed :: "task_row \<Rightarrow> int" where
  "least_elapsed t =
     (case tk_estimated t of
        None \<Rightarrow> or_default (tk_elapsed t) 0
      | Some e \<Rightarrow> min (or_default (tk_elapsed t) 0) e)"

definition sumConsumed :: "server_db \<Rightarrow> int \<Rightarrow> string \<Rightarrow> int" where
  "sumConsumed db u d =
     (\<Sum>t \<leftarrow> filter (\<lambda>t. of_day u d t \<and> tk_status t = S_COMPLETED) (db_tasks db). least_elapsed t)"

definition sumRefunded :: "zone \<Rightarrow> server_db \<Rightarrow> int \<Rightarrow> string \<Rightarrow> int" where
  "sumRefunded z db u d =
     (\<Sum>r \<leftarrow> filter (\<lambda>r. rf_user r = u \<and> dateKeyInTZ z (rf_created_at r) = d) (db_refunds db). rf_seconds r)"

definition lockAndGetTotal :: "int \<Rightarrow> string \<Rightarrow> server_db \<Rightarrow> int \<times> server_db" where
  "lockAndGetTotal u d db =
     (let db' = (if lookup (db_available db) (u, d) = None
                 then db\<lparr>db_available := db_available db @ [((u, d), 0)]\<rparr> else db)
      in (or_default (lookup (db_available db') (u, d)) 0, db'))"

record breakdown_row =
  br_task_id :: int
  br_title :: ustring
  br_estimated :: "int option"
  br_status :: raw_status

record availability_snapshot =
  sn_total :: int
  sn_allocated :: int
  sn_consumed :: int
  sn_refunded :: int
  sn_remaining :: int
  sn_can_create :: bool
  sn_breakdown :: "breakdown_row list"

definition total_of :: "server_db \<Rightarrow> int \<Rightarrow> string \<Rightarrow> int" where
  "total_of db u d = or_default (lookup (db_available db) (u, d)) 0"

definition getAvailability :: "zone \<Rightarrow> server_db \<Rightarrow> int \<Rightarrow> string \<Rightarrow> availability_snapshot" where
  "getAvailability z db u d =
     (let total = total_of db u d;
          alloc = sumAllocated db u d;
          cons = sumConsumed db u d;
          refd = sumRefunded z db u d;
          rem = total - alloc - cons
      in \<lparr>sn_total = total, sn_allocated = alloc, sn_consumed = cons, sn_refunded = refd,
          sn_remaining = rem, sn_can_create = rem > 0,
          sn_breakdown = map (\<lambda>t. \<lparr>br_task_id = tk_id t, br_title = tk_title t, br_estimated = tk_estimated t,
                                   br_status = tk_status t\<rparr>)
            (sort_key tk_id (filter (\<lambda>t. of_day u d t \<and> reserved (tk_status t)) (db_tasks db)))\<rparr>)"

subsection \<open>Reserving and creating a task\<close>

text \<open>\<open>Number.isInteger\<close>.\<close>

definition as_integer :: "js_value_num \<Rightarrow> int option" where
  "as_integer x = (case x of JNum r \<Rightarrow> if of_int \<lfloor>r\<rfloor> = r then Some \<lfloor>r\<rfloor> else None | JNaN \<Rightarrow> None)"

record create_input =
  ci_title :: ustring
  ci_duration :: "js_value_num option"
  ci_priority :: bool

definition check_duration :: "js_value_num option \<Rightarrow> server_error + int" where
  "check_duration d =
     (case d of
        None \<Rightarrow> Inl DurationRequired
      | Some x \<Rightarrow>
          if x = JNum 0 then Inl DurationRequired
          else (case as_integer x of
                  None \<Rightarrow> Inl DurationOutOfRange
                | Some n \<Rightarrow> if n < MIN_DURATION_SEC \<or> n > MAX_DURATION_SEC then Inl DurationOutOfRange else Inr n))"

text \<open>The \<open>INSERT\<close>: defaults of the columns, a new id, and the unique index.\<close>

definition insert_task :: "int \<Rightarrow> ustring \<Rightarrow> int \<Rightarrow> string \<Rightarrow> bool \<Rightarrow> int \<Rightarrow> server_db \<Rightarrow> tx_error + task_row \<times> server_db" where
  "insert_task u title dur d prio now db =
     (if prio \<and> (\<exists>t \<in> set (db_tasks db). active_priority u d t) then Inl Unique_violation
      else
        (let t = \<lparr>tk_id = db_next_task db, tk_user = u, tk_title = title, tk_status = S_PENDING, tk_timer = ST_IDLE,
                  tk_timer_started = None, tk_estimated = Some dur, tk_elapsed = Some 0, tk_scheduled = d,
                  tk_deadline = None, tk_completed_at = None, tk_priority = prio, tk_deferred = False,
                  tk_deferred_count = 0, tk_created_at = now\<rparr>
         in Inr (t, db\<lparr>db_tasks := db_tasks db @ [t], db_next_task := db_next_task db + 1\<rparr>)))"

definition reserve_tx :: "int \<Rightarrow> create_input \<Rightarrow> int \<Rightarrow> string \<Rightarrow> int \<Rightarrow> server_db \<Rightarrow> tx_error + task_row \<times> server_db" where
  "reserve_tx u input dur d now db0 =
     (let (total, db) = lockAndGetTotal u d db0;
          rem = total - sumAllocated db u d - sumConsumed db u d
      in if dur > rem then Inl (App (InsufficientAvailableTime (of_int rem) (of_int dur)))
         else
           (case if ci_priority input then List.find (active_priority u d) (db_tasks db) else None of
              Some ex \<Rightarrow> Inl (App (PriorityTaskExists (tk_id ex) (tk_title ex)))
            | None \<Rightarrow> insert_task u (ci_title input) dur d (ci_priority input) now db))"

definition reserveAndCreateTask ::
  "zone \<Rightarrow> int \<Rightarrow> create_input \<Rightarrow> int \<Rightarrow> server_db \<Rightarrow> (tx_error + task_row) \<times> server_db" where
  "reserveAndCreateTask z u input now db =
     (case check_duration (ci_duration input) of
        Inl e \<Rightarrow> (Inl (App e), db)
      | Inr dur \<Rightarrow> withTx (reserve_tx u input dur (dateKeyInTZ z now) now) db)"

subsection \<open>Completing a task\<close>

record complete_reply =
  cr_task_id :: int
  cr_elapsed :: int
  cr_refunded :: int

definition complete_tx ::
  "int \<Rightarrow> int \<Rightarrow> int \<Rightarrow> js_date \<Rightarrow> int \<Rightarrow> server_db \<Rightarrow> tx_error + complete_reply \<times> server_db" where
  "complete_tx u tid el completedAt now db =
     (case find_task db tid of
        None \<Rightarrow> Inl (App TaskNotFound)
      | Some t \<Rightarrow>
          if tk_user t \<noteq> u then Inl (App Forbidden)
          else
            (let refund = or_default (tk_estimated t) 0 - el;
                 db1 = (if refund > 0
                        then db\<lparr>db_refunds := db_refunds db @
                               [\<lparr>rf_user = u, rf_task = tid, rf_seconds = refund, rf_created_at = now\<rparr>]\<rparr>
                        else db)
             in case completedAt of
                  Invalid_Date \<Rightarrow> Inl Range_error
                | At c \<Rightarrow>
                    Inr (\<lparr>cr_task_id = tid, cr_elapsed = el, cr_refunded = max 0 refund\<rparr>,
                         update_tasks (\<lambda>x. tk_id x = tid)
                           (\<lambda>x. x\<lparr>tk_status := S_COMPLETED, tk_elapsed := Some el, tk_completed_at := Some c\<rparr>) db1)))"

definition server_completeTask ::
  "int \<Rightarrow> int \<Rightarrow> js_value_num \<Rightarrow> js_date \<Rightarrow> int \<Rightarrow> server_db \<Rightarrow> (tx_error + complete_reply) \<times> server_db" where
  "server_completeTask u tid elapsed completedAt now db =
     (case as_integer elapsed of
        None \<Rightarrow> (Inl (App InvalidElapsed), db)
      | Some el \<Rightarrow>
          if el < 0 then (Inl (App InvalidElapsed), db)
          else withTx (complete_tx u tid el completedAt now) db)"

subsection \<open>Setting the day's time\<close>

record set_reply =
  st_available :: int
  st_allocated :: int

definition set_tx :: "int \<Rightarrow> string \<Rightarrow> int \<Rightarrow> server_db \<Rightarrow> tx_error + set_reply \<times> server_db" where
  "set_tx u d secs db0 =
     (let (_, db) = lockAndGetTotal u d db0;
          alloc = sumAllocated db u d
      in if secs < alloc then Inl (App (AvailableBelowAllocated (of_int alloc)))
         else Inr (\<lparr>st_available = secs, st_allocated = alloc\<rparr>, db\<lparr>db_available := store (u, d) secs (db_available db)\<rparr>))"

definition server_setAvailableTime ::
  "int \<Rightarrow> js_value_num \<Rightarrow> string \<Rightarrow> server_db \<Rightarrow> (tx_error + set_reply) \<times> server_db" where
  "server_setAvailableTime u available d db =
     (case as_integer available of
        None \<Rightarrow> (Inl (App InvalidAvailable), db)
      | Some secs \<Rightarrow>
          if secs < 0 then (Inl (App InvalidAvailable), db)
          else withTx (set_tx u d secs) db)"

subsection \<open>Routes (routes/taskTimeRoutes.ts)\<close>

text \<open>\<open>Number(x)\<close> of a member of the request's body: missing is \<open>NaN\<close>, null is 0.\<close>

datatype body_num = Missing | Null | Is_num js_value_num

fun to_Number :: "body_num \<Rightarrow> js_value_num" where
  "to_Number Missing = JNaN"
| "to_Number Null = JNum 0"
| "to_Number (Is_num x) = x"

text \<open>The middleware leaves the user of the token; \<open>:id\<close> of a path must be that user.\<close>

definition requireSelf :: "int \<Rightarrow> int option \<Rightarrow> (int \<times> error_body) + int" where
  "requireSelf user pathId =
     (if pathId = Some user then Inr user else Inl (403, toJSON (Errors Forbidden)))"

definition answer :: "int \<Rightarrow> (tx_error + 'a) \<times> server_db \<Rightarrow> ((int \<times> error_body) + int \<times> 'a) \<times> server_db" where
  "answer ok r = (case r of (Inl e, db) \<Rightarrow> (Inl (send e), db) | (Inr a, db) \<Rightarrow> (Inr (ok, a), db))"

definition post_tasks ::
  "zone \<Rightarrow> int \<Rightarrow> ustring option \<Rightarrow> body_num \<Rightarrow> bool \<Rightarrow> int \<Rightarrow> server_db
   \<Rightarrow> ((int \<times> error_body) + int \<times> task_row) \<times> server_db" where
  "post_tasks z u title estimated_duration is_priority now db =
     (case title of
        None \<Rightarrow> (Inl (send (App (Validation [0x74, 0x69, 0x74, 0x6C, 0x65, 0x20, 0xC740, 0x20, 0xD544,
           0xC218, 0xC785, 0xB2C8, 0xB2E4, 0x2E]))), db)
      | Some ti \<Rightarrow>
          if trim ti = [] then (Inl (send (App (Validation [0x74, 0x69, 0x74, 0x6C, 0x65, 0x20, 0xC740, 0x20,
             0xD544, 0xC218, 0xC785, 0xB2C8, 0xB2E4, 0x2E]))), db)
          else answer 201 (reserveAndCreateTask z u
                 \<lparr>ci_title = trim ti, ci_duration = Some (to_Number estimated_duration), ci_priority = is_priority\<rparr> now db))"

definition patch_complete ::
  "int \<Rightarrow> int option \<Rightarrow> body_num \<Rightarrow> js_date option \<Rightarrow> int \<Rightarrow> server_db
   \<Rightarrow> ((int \<times> error_body) + int \<times> complete_reply) \<times> server_db" where
  "patch_complete u taskId elapsed_time completed_at now db =
     (case taskId of
        None \<Rightarrow> (Inl (send (App (Validation [0x74, 0x61, 0x73, 0x6B, 0x49, 0x64, 0x20, 0xAC00, 0x20,
           0xC62C, 0xBC14, 0xB974, 0xC9C0, 0x20, 0xC54A, 0xC2B5, 0xB2C8, 0xB2E4, 0x2E]))), db)
      | Some tid \<Rightarrow>
          answer 200 (server_completeTask u tid (to_Number elapsed_time) (or_default completed_at (At now)) now db))"

definition get_available_time ::
  "zone \<Rightarrow> int \<Rightarrow> int option \<Rightarrow> string option \<Rightarrow> int \<Rightarrow> server_db \<Rightarrow> (int \<times> error_body) + int \<times> availability_snapshot" where
  "get_available_time z user pathId date now db =
     (case requireSelf user pathId of
        Inl e \<Rightarrow> Inl e
      | Inr u \<Rightarrow> Inr (200, getAvailability z db u (or_default date (dateKeyInTZ z now))))"

definition put_available_time ::
  "zone \<Rightarrow> int \<Rightarrow> int option \<Rightarrow> body_num \<Rightarrow> string option \<Rightarrow> int \<Rightarrow> server_db
   \<Rightarrow> ((int \<times> error_body) + int \<times> set_reply) \<times> server_db" where
  "put_available_time z user pathId available_seconds date now db =
     (case requireSelf user pathId of
        Inl e \<Rightarrow> (Inl e, db)
      | Inr u \<Rightarrow> answer 200 (server_setAvailableTime u (to_Number available_seconds) (or_default date (dateKeyInTZ z now)) db))"

subsection \<open>The budget of a day\<close>

definition server_remaining :: "server_db \<Rightarrow> int \<Rightarrow> string \<Rightarrow> int" where
  "server_remaining db u d = total_of db u d - sumAllocated db u d - sumConsumed db u d"

text \<open>What one task takes from the budget of a day.\<close>

definition taken :: "int \<Rightarrow> string \<Rightarrow> task_row \<Rightarrow> int" where
  "taken u d t =
     (if \<not> of_day u d t then 0
      else if reserved (tk_status t) then or_default (tk_estimated t) 0
      else if tk_status t = S_COMPLETED then least_elapsed t else 0)"

lemma sums_taken: "sumAllocated db u d + sumConsumed db u d = (\<Sum>t \<leftarrow> db_tasks db. taken u d t)"
proof -
  have "sumAllocated db u d + sumConsumed db u d
      = (\<Sum>t \<leftarrow> db_tasks db. (if of_day u d t \<and> reserved (tk_status t) then or_default (tk_estimated t) 0 else 0)
          + (if of_day u d t \<and> tk_status t = S_COMPLETED then least_elapsed t else 0))"
    by (simp add: sumAllocated_def sumConsumed_def sum_list_filter sum_list_addf)
  also have "\<dots> = (\<Sum>t \<leftarrow> db_tasks db. taken u d t)"
    by (intro arg_cong [of _ _ sum_list] map_cong) (auto simp: taken_def reserved_def)
  finally show ?thesis .
qed

lemma remaining_taken: "server_remaining db u d = total_of db u d - (\<Sum>t \<leftarrow> db_tasks db. taken u d t)"
  using sums_taken [of db u d] by (simp add: server_remaining_def)

lemma lock_total: "lockAndGetTotal u d db = (tot, db') \<Longrightarrow>
    tot = total_of db u d \<and> db_tasks db' = db_tasks db \<and> db_next_task db' = db_next_task db
    \<and> db_refunds db' = db_refunds db \<and> (\<forall>v e. total_of db' v e = total_of db v e)"
  by (auto simp: lockAndGetTotal_def total_of_def Let_def or_default_def map_add_def split: if_splits option.splits)

lemma sums_cong: "db_tasks db' = db_tasks db \<Longrightarrow> sumAllocated db' u d = sumAllocated db u d \<and> sumConsumed db' u d = sumConsumed db u d"
  by (simp add: sumAllocated_def sumConsumed_def)

definition new_row :: "int \<Rightarrow> ustring \<Rightarrow> int \<Rightarrow> string \<Rightarrow> bool \<Rightarrow> int \<Rightarrow> int \<Rightarrow> task_row" where
  "new_row u title dur d prio now i =
     \<lparr>tk_id = i, tk_user = u, tk_title = title, tk_status = S_PENDING, tk_timer = ST_IDLE,
      tk_timer_started = None, tk_estimated = Some dur, tk_elapsed = Some 0, tk_scheduled = d,
      tk_deadline = None, tk_completed_at = None, tk_priority = prio, tk_deferred = False,
      tk_deferred_count = 0, tk_created_at = now\<rparr>"

lemma find_active: "List.find P xs = None \<longleftrightarrow> \<not> (\<exists>x \<in> set xs. P x)"
  by (auto simp: find_None_iff)

text \<open>A reservation that succeeds, taken apart.\<close>

lemma reserve_ok:
  assumes "reserveAndCreateTask z u input now db = (Inr t, db')"
  obtains dur where "check_duration (ci_duration input) = Inr dur"
    and "t = new_row u (ci_title input) dur (dateKeyInTZ z now) (ci_priority input) now (db_next_task db)"
    and "db_tasks db' = db_tasks db @ [t]" and "db_next_task db' = db_next_task db + 1" and "db_refunds db' = db_refunds db"
    and "\<And>v e. total_of db' v e = total_of db v e"
    and "dur \<le> server_remaining db u (dateKeyInTZ z now)"
    and "ci_priority input \<Longrightarrow> \<not> (\<exists>x \<in> set (db_tasks db). active_priority u (dateKeyInTZ z now) x)"
proof -
  let ?d = "dateKeyInTZ z now"
  from assms obtain dur where dur: "check_duration (ci_duration input) = Inr dur"
    and tx: "reserve_tx u input dur ?d now db = Inr (t, db')"
    by (auto simp: reserveAndCreateTask_def withTx_ok split: sum.splits)
  obtain tot db1 where l: "lockAndGetTotal u ?d db = (tot, db1)" by (cases "lockAndGetTotal u ?d db")
  note lk = lock_total [OF l]
  from tx l lk have r: "dur \<le> server_remaining db u ?d"
    and p: "ci_priority input \<Longrightarrow> \<not> (\<exists>x \<in> set (db_tasks db). active_priority u ?d x)"
    and i: "insert_task u (ci_title input) dur ?d (ci_priority input) now db1 = Inr (t, db')"
    using sums_cong [of db1 db u ?d]
    by (auto simp: reserve_tx_def Let_def server_remaining_def find_active split: if_splits option.splits)
  have eqs: "t = new_row u (ci_title input) dur ?d (ci_priority input) now (db_next_task db)"
    "db' = db1\<lparr>db_tasks := db_tasks db1 @ [t], db_next_task := db_next_task db1 + 1\<rparr>"
    using i lk by (auto simp: insert_task_def new_row_def Let_def split: if_splits)
  show ?thesis
    by (rule that [OF dur eqs(1)]) (use eqs(2) lk r p in \<open>auto simp: total_of_def\<close>)
qed

lemma check_duration_bounds: "check_duration x = Inr n \<Longrightarrow> 60 \<le> n \<and> n \<le> 86340"
  by (auto simp: check_duration_def MIN_DURATION_SEC_def MAX_DURATION_SEC_def split: option.splits if_splits)

lemma taken_new_row: "taken v e (new_row u title dur d prio now i) = (if v = u \<and> e = d then dur else 0)"
  by (auto simp: taken_def of_day_def new_row_def reserved_def or_default_def)

lemma remaining_after_reserve:
  assumes "reserveAndCreateTask z u input now db = (Inr t, db')"
  shows "\<exists>dur. t = new_row u (ci_title input) dur (dateKeyInTZ z now) (ci_priority input) now (db_next_task db) \<and> 60 \<le> dur
    \<and> (\<forall>v e. server_remaining db' v e = server_remaining db v e - (if v = u \<and> e = dateKeyInTZ z now then dur else 0))
    \<and> 0 \<le> server_remaining db' u (dateKeyInTZ z now)"
  using assms by (rule reserve_ok) (auto simp: remaining_taken taken_new_row dest: check_duration_bounds)

text \<open>A completion that succeeds, taken apart.\<close>

definition completed_row :: "int \<Rightarrow> int \<Rightarrow> task_row \<Rightarrow> task_row" where
  "completed_row el c t = t\<lparr>tk_status := S_COMPLETED, tk_elapsed := Some el, tk_completed_at := Some c\<rparr>"

lemma complete_ok:
  assumes "server_completeTask u tid (JNum (of_int el)) completedAt now db = (Inr r, db')"
  obtains t c where "find_task db tid = Some t" and "tk_user t = u" and "0 \<le> el" and "completedAt = At c"
    and "db_tasks db' = update_where (\<lambda>x. tk_id x = tid) (completed_row el c) (db_tasks db)"
    and "db_next_task db' = db_next_task db" and "db_available db' = db_available db"
    and "db_refunds db' = db_refunds db @ (if el < or_default (tk_estimated t) 0
          then [\<lparr>rf_user = u, rf_task = tid, rf_seconds = or_default (tk_estimated t) 0 - el, rf_created_at = now\<rparr>] else [])"
    and "r = \<lparr>cr_task_id = tid, cr_elapsed = el, cr_refunded = max 0 (or_default (tk_estimated t) 0 - el)\<rparr>"
proof -
  have "as_integer (JNum (of_int el)) = Some el" by (simp add: as_integer_def)
  with assms have el: "0 \<le> el" and tx: "complete_tx u tid el completedAt now db = Inr (r, db')"
    by (auto simp: server_completeTask_def withTx_ok split: if_splits)
  then obtain t c where "find_task db tid = Some t" "tk_user t = u" "completedAt = At c"
    by (auto simp: complete_tx_def Let_def split: option.splits if_splits js_date.splits)
  with el tx show ?thesis
    by (intro that [of t c]) (auto simp: complete_tx_def Let_def update_tasks_def completed_row_def [abs_def] split: if_splits)
qed

lemma taken_completed_row:
  "taken v e (completed_row el c t) = (if of_day v e t then least_elapsed (completed_row el c t) else 0)"
  by (simp add: taken_def completed_row_def of_day_def reserved_def)

definition ids_ok :: "server_db \<Rightarrow> bool" where
  "ids_ok db \<longleftrightarrow> distinct (map tk_id (db_tasks db)) \<and> (\<forall>t \<in> set (db_tasks db). tk_id t < db_next_task db)"

lemma remaining_after_complete:
  assumes "server_completeTask u tid (JNum (of_int el)) completedAt now db = (Inr r, db')" and "ids_ok db"
  shows "\<exists>t c. find_task db tid = Some t \<and> tk_user t = u \<and> 0 \<le> el
    \<and> r = \<lparr>cr_task_id = tid, cr_elapsed = el, cr_refunded = max 0 (or_default (tk_estimated t) 0 - el)\<rparr>
    \<and> (\<forall>v e. server_remaining db' v e = server_remaining db v e + taken v e t - taken v e (completed_row el c t))"
  using assms(1)
proof (rule complete_ok)
  fix t c
  assume h: "find_task db tid = Some t" "db_available db' = db_available db" "tk_user t = u" "0 \<le> el"
    "db_tasks db' = update_where (\<lambda>x. tk_id x = tid) (completed_row el c) (db_tasks db)"
    "r = \<lparr>cr_task_id = tid, cr_elapsed = el, cr_refunded = max 0 (or_default (tk_estimated t) 0 - el)\<rparr>"
  have t: "t \<in> set (db_tasks db)" "tk_id t = tid" using h(1) by (auto simp: find_task_def dest: find_key_Some)
  have "server_remaining db' v e = server_remaining db v e + taken v e t - taken v e (completed_row el c t)" for v e
    using sum_update_one [of tk_id "db_tasks db" t "completed_row el c" "taken v e"] t assms(2) h(2,5)
    by (simp add: remaining_taken total_of_def ids_ok_def completed_row_def)
  then show ?thesis using h by blast
qed

subsection \<open>The page and the server agree\<close>


definition empty_db :: server_db where
  "empty_db = \<lparr>db_tasks = [], db_next_task = 1, db_available = [((1, ''1970-01-01''), 7200)], db_refunds = []\<rparr>"

definition sample_input :: create_input where
  "sample_input = \<lparr>ci_title = ascii ''a'', ci_duration = Some (JNum 3600), ci_priority = True\<rparr>"

lemma epoch_key: "dateKeyInTZ (fixed_zone 0) 0 = ''1970-01-01''"
  by code_simp

lemma sample_duration: "check_duration (Some (JNum 3600)) = Inr 3600"
  by (simp add: check_duration_def as_integer_def MIN_DURATION_SEC_def MAX_DURATION_SEC_def)

lemma sample_reservation:
  "\<exists>db'. reserveAndCreateTask (fixed_zone 0) 1 sample_input 0 empty_db
     = (Inr (new_row 1 (ascii ''a'') 3600 ''1970-01-01'' True 0 1), db')"
  by (simp add: reserveAndCreateTask_def sample_input_def sample_duration epoch_key withTx_def reserve_tx_def
      lockAndGetTotal_def empty_db_def sumAllocated_def sumConsumed_def or_default_def insert_task_def new_row_def Let_def)


subsection \<open>Runs of the service\<close>

text \<open>A request, with the time at which it is served; a failed one leaves the tables as they were.\<close>

datatype time_request =
    Reserve int create_input int
  | Complete int int int js_date int
  | Set_time int js_value_num string

fun serve :: "zone \<Rightarrow> server_db \<Rightarrow> time_request \<Rightarrow> server_db" where
  "serve z db (Reserve u input now) = snd (reserveAndCreateTask z u input now db)"
| "serve z db (Complete u tid el done_at now) = snd (server_completeTask u tid (JNum (of_int el)) done_at now db)"
| "serve z db (Set_time u avail d) = snd (server_setAvailableTime u avail d db)"

definition serve_all :: "zone \<Rightarrow> server_db \<Rightarrow> time_request list \<Rightarrow> server_db" where
  "serve_all z = foldl (serve z)"

lemma reserve_error: "reserveAndCreateTask z u input now db = (Inl e, db') \<Longrightarrow> db' = db"
  by (auto simp: reserveAndCreateTask_def dest: withTx_error split: sum.splits)

lemma complete_error: "server_completeTask u tid el c now db = (Inl e, db') \<Longrightarrow> db' = db"
  by (auto simp: server_completeTask_def dest: withTx_error split: option.splits if_splits)

lemma set_error: "server_setAvailableTime u a d db = (Inl e, db') \<Longrightarrow> db' = db"
  by (auto simp: server_setAvailableTime_def dest: withTx_error split: option.splits if_splits)

text \<open>A setting that succeeds, taken apart.\<close>

lemma set_ok:
  assumes "server_setAvailableTime u a d db = (Inr r, db')"
  shows "db_tasks db' = db_tasks db \<and> db_next_task db' = db_next_task db \<and> sumAllocated db u d \<le> total_of db' u d
    \<and> (\<forall>v e. (v, e) \<noteq> (u, d) \<longrightarrow> total_of db' v e = total_of db v e)"
proof -
  from assms obtain secs where tx: "set_tx u d secs db = Inr (r, db')"
    by (auto simp: server_setAvailableTime_def withTx_ok split: option.splits if_splits)
  obtain tot db1 where l: "lockAndGetTotal u d db = (tot, db1)" by (cases "lockAndGetTotal u d db")
  note lk = lock_total [OF l]
  have "sumAllocated db u d \<le> secs" "db' = db1\<lparr>db_available := store (u, d) secs (db_available db1)\<rparr>"
    using tx l lk sums_cong [of db1 db u d] by (auto simp: set_tx_def Let_def split: if_splits)
  with lk show ?thesis by (auto simp: total_of_def or_default_def)
qed

text \<open>What a user has reserved on a day, in one sum over the table.\<close>

definition reserves :: "int \<Rightarrow> string \<Rightarrow> task_row \<Rightarrow> int" where
  "reserves u d t = (if of_day u d t \<and> reserved (tk_status t) then or_default (tk_estimated t) 0 else 0)"

lemma sumAllocated_reserves: "sumAllocated db u d = (\<Sum>t \<leftarrow> db_tasks db. reserves u d t)"
  by (simp add: sumAllocated_def sum_list_filter reserves_def)

definition time_inv :: "server_db \<Rightarrow> bool" where
  "time_inv db \<longleftrightarrow> ids_ok db
     \<and> (\<forall>t \<in> set (db_tasks db). (\<forall>e. tk_estimated t = Some e \<longrightarrow> 0 \<le> e) \<and> (\<forall>e. tk_elapsed t = Some e \<longrightarrow> 0 \<le> e))
     \<and> (\<forall>u d. sumAllocated db u d \<le> total_of db u d)
     \<and> (\<forall>u d. length (filter (active_priority u d) (db_tasks db)) \<le> 1)"

lemma consumed_nonneg: "time_inv db \<Longrightarrow> 0 \<le> sumConsumed db u d"
  unfolding sumConsumed_def
  by (intro sum_list_nonneg) (auto simp: time_inv_def least_elapsed_def or_default_def split: option.splits)

lemma reserve_inv:
  assumes "time_inv db" and "reserveAndCreateTask z u input now db = (Inr t, db')"
  shows "time_inv db'"
  using assms(2)
proof (rule reserve_ok)
  fix dur
  assume d: "check_duration (ci_duration input) = Inr dur"
    and t: "t = new_row u (ci_title input) dur (dateKeyInTZ z now) (ci_priority input) now (db_next_task db)"
    and db': "db_tasks db' = db_tasks db @ [t]" "db_next_task db' = db_next_task db + 1" "\<And>v e. total_of db' v e = total_of db v e"
    and room: "dur \<le> server_remaining db u (dateKeyInTZ z now)"
    and prio: "ci_priority input \<Longrightarrow> \<not> (\<exists>x \<in> set (db_tasks db). active_priority u (dateKeyInTZ z now) x)"
  have "ids_ok db'" using assms(1) by (auto simp: time_inv_def ids_ok_def db' t new_row_def)
  moreover have "sumAllocated db' v e \<le> total_of db' v e" for v e
  proof -
    have "sumAllocated db' v e = sumAllocated db v e + (if v = u \<and> e = dateKeyInTZ z now then dur else 0)"
      by (simp add: sumAllocated_reserves db' t) (auto simp: reserves_def new_row_def of_day_def reserved_def or_default_def)
    then show ?thesis
      using assms(1) room consumed_nonneg [OF assms(1), of u "dateKeyInTZ z now"]
      by (auto simp: db' time_inv_def server_remaining_def)
  qed
  moreover have "length (filter (active_priority v e) (db_tasks db')) \<le> 1" for v e
  proof (cases "active_priority v e t")
    case True
    then have "ci_priority input" "v = u" "e = dateKeyInTZ z now" by (auto simp: active_priority_def t new_row_def)
    with prio True show ?thesis by (simp add: db' filter_empty_conv)
  next
    case False
    then show ?thesis using assms(1) by (simp add: db' time_inv_def)
  qed
  ultimately show ?thesis
    using assms(1) check_duration_bounds [OF d] by (auto simp: time_inv_def db' t new_row_def)
qed

lemma length_filter_update:
  "(\<And>x. P (h x) \<Longrightarrow> P x) \<Longrightarrow> length (filter P (update_where Q h xs)) \<le> length (filter P xs)"
  by (induction xs) (auto simp: update_where_def intro: le_SucI)

lemma sum_list_update_le:
  fixes f :: "'a \<Rightarrow> int"
  shows "(\<And>x. x \<in> set xs \<Longrightarrow> f (h x) \<le> f x) \<Longrightarrow> (\<Sum>x \<leftarrow> update_where Q h xs. f x) \<le> (\<Sum>x \<leftarrow> xs. f x)"
  by (induction xs) (auto simp: update_where_def intro: add_mono)

lemma complete_inv:
  assumes "time_inv db" and "server_completeTask u tid (JNum (of_int el)) done_at now db = (Inr r, db')"
  shows "time_inv db'"
  using assms(2)
proof (rule complete_ok)
  fix t c
  assume el: "0 \<le> el" and db': "db_tasks db' = update_where (\<lambda>x. tk_id x = tid) (completed_row el c) (db_tasks db)"
    "db_next_task db' = db_next_task db" "db_available db' = db_available db"
  have m: "map tk_id (db_tasks db') = map tk_id (db_tasks db)"
    unfolding db' by (rule map_update_where) (simp add: completed_row_def)
  have s: "set (db_tasks db') \<subseteq> set (db_tasks db) \<union> completed_row el c ` set (db_tasks db)"
    by (auto simp: db' set_update_where)
  have a: "sumAllocated db' v e \<le> sumAllocated db v e" for v e
    unfolding sumAllocated_reserves db'
    by (rule sum_list_update_le)
      (use assms(1) in \<open>auto simp: time_inv_def reserves_def completed_row_def reserved_def of_day_def or_default_def split: option.splits\<close>)
  have p: "length (filter (active_priority v e) (db_tasks db')) \<le> length (filter (active_priority v e) (db_tasks db))" for v e
    unfolding db' by (rule length_filter_update) (auto simp: active_priority_def completed_row_def open_status_def)
  have "set (map tk_id (db_tasks db')) = set (map tk_id (db_tasks db))" by (simp only: m)
  moreover have "\<forall>i \<in> set (map tk_id (db_tasks db)). i < db_next_task db'"
    using assms(1) by (simp add: time_inv_def ids_ok_def db'(2))
  ultimately have "\<forall>i \<in> set (map tk_id (db_tasks db')). i < db_next_task db'" by (simp only:)
  then have "\<forall>t \<in> set (db_tasks db'). tk_id t < db_next_task db'" by simp
  moreover have "distinct (map tk_id (db_tasks db'))" using assms(1) by (simp only: m time_inv_def ids_ok_def)
  ultimately have "ids_ok db'" by (simp add: ids_ok_def)
  moreover have "\<forall>t \<in> set (db_tasks db'). (\<forall>e. tk_estimated t = Some e \<longrightarrow> 0 \<le> e) \<and> (\<forall>e. tk_elapsed t = Some e \<longrightarrow> 0 \<le> e)"
    using s assms(1) el by (auto simp: time_inv_def completed_row_def)
  moreover have "sumAllocated db' v e \<le> total_of db' v e" for v e
    using a [of v e] assms(1) by (simp add: total_of_def db'(3) time_inv_def) (meson order_trans)
  moreover have "length (filter (active_priority v e) (db_tasks db')) \<le> 1" for v e
    using p [of v e] assms(1) unfolding time_inv_def by (meson order_trans)
  ultimately show ?thesis unfolding time_inv_def by blast
qed

lemma set_inv: "time_inv db \<Longrightarrow> server_setAvailableTime u a d db = (Inr r, db') \<Longrightarrow> time_inv db'"
proof -
  assume i: "time_inv db" and s: "server_setAvailableTime u a d db = (Inr r, db')"
  note ok = set_ok [OF s]
  have "sumAllocated db' v e \<le> total_of db' v e" for v e
    using ok i sums_cong [of db' db v e] by (cases "(v, e) = (u, d)") (auto simp: time_inv_def)
  with i ok show "time_inv db'" by (auto simp: time_inv_def ids_ok_def)
qed

lemma step_inv:
  assumes "time_inv db" and "\<And>r db'. x = (Inr r, db') \<Longrightarrow> time_inv db'" and "\<And>e db'. x = (Inl e, db') \<Longrightarrow> db' = db"
  shows "time_inv (snd x)"
proof (cases x)
  case (Pair a db')
  with assms show ?thesis by (cases a) auto
qed

lemma serve_inv: "time_inv db \<Longrightarrow> time_inv (serve z db r)"
  by (cases r) (auto intro!: step_inv intro: reserve_inv complete_inv set_inv dest: reserve_error complete_error set_error)

lemma serve_all_inv: "time_inv db \<Longrightarrow> time_inv (serve_all z db rs)"
  unfolding serve_all_def by (induction rs arbitrary: db) (simp_all add: serve_inv)

lemma no_unique_violation: "reserve_tx u input dur d now db \<noteq> Inl Unique_violation"
proof -
  obtain tot db1 where l: "lockAndGetTotal u d db = (tot, db1)" by (cases "lockAndGetTotal u d db")
  have "insert_task u ti dur d (ci_priority input) now db1 \<noteq> Inl Unique_violation"
    if "(if ci_priority input then List.find (active_priority u d) (db_tasks db1) else None) = None" for ti
    using that by (auto simp: insert_task_def Let_def find_active split: if_splits)
  then show ?thesis unfolding reserve_tx_def l
    by (cases "if ci_priority input then List.find (active_priority u d) (db_tasks db1) else None") (simp_all add: Let_def)
qed

text \<open>
  C3. However reservations, completions and settings follow each other, and whatever they ask for,
  what a user has reserved on a day never exceeds the time set for it, at most one open task of the
  day is the priority task, task ids stay distinct, and a reservation never runs into the unique
  index of the table: its own check has refused it before.
\<close>

theorem server_never_overbooks:
  assumes "time_inv db"
  shows "sumAllocated (serve_all z db rs) u d \<le> total_of (serve_all z db rs) u d
    \<and> length (filter (active_priority u d) (db_tasks (serve_all z db rs))) \<le> 1
    \<and> distinct (map tk_id (db_tasks (serve_all z db rs)))
    \<and> fst (reserveAndCreateTask z u input now (serve_all z db rs)) \<noteq> Inl Unique_violation"
proof -
  let ?db = "serve_all z db rs"
  have "time_inv ?db" using assms by (rule serve_all_inv)
  moreover have "fst (reserveAndCreateTask z u input now ?db) \<noteq> Inl Unique_violation"
    using no_unique_violation by (auto simp: reserveAndCreateTask_def withTx_def split: sum.splits prod.splits)
  ultimately show ?thesis by (simp add: time_inv_def ids_ok_def)
qed

lemma server_never_overbooks_witness:
  "sumAllocated (serve_all (fixed_zone 0) empty_db [Reserve 1 sample_input 0, Reserve 1 sample_input 0]) 1 ''1970-01-01''
     \<le> total_of (serve_all (fixed_zone 0) empty_db [Reserve 1 sample_input 0, Reserve 1 sample_input 0]) 1 ''1970-01-01''"
proof -
  have "time_inv empty_db"
    by (auto simp: time_inv_def ids_ok_def empty_db_def sumAllocated_def total_of_def or_default_def)
  from server_never_overbooks [OF this] show ?thesis by blast
qed

text \<open>
  Completing a task again, with any elapsed time, is accepted: it enters a further refund
  although the task was completed before, and the day's remaining time then counts only the last
  elapsed time.  So after completing a reserved task twice with no time elapsed, the refunds of the
  day add up to twice its estimate, and the remaining time has grown by the estimate once.
\<close>

theorem repeated_completion_refunds_again:
  assumes "ids_ok db" and "find_task db tid = Some t" and "tk_user t = u" and "reserved (tk_status t)"
    and "tk_estimated t = Some e" and "0 < e" and "dateKeyInTZ z now = d" and "tk_scheduled t = d"
  shows "\<exists>r1 r2 db1 db2. server_completeTask u tid (JNum 0) (At now) now db = (Inr r1, db1)
     \<and> server_completeTask u tid (JNum 0) (At now) now db1 = (Inr r2, db2)
     \<and> sumRefunded z db2 u d = sumRefunded z db u d + 2 * e
     \<and> server_remaining db2 u d = server_remaining db u d + e"
proof -
  define row where "row = completed_row 0 now t"
  define db1 where "db1 = update_tasks (\<lambda>x. tk_id x = tid) (completed_row 0 now)
     (db\<lparr>db_refunds := db_refunds db @ [\<lparr>rf_user = u, rf_task = tid, rf_seconds = e, rf_created_at = now\<rparr>]\<rparr>)"
  define db2 where "db2 = update_tasks (\<lambda>x. tk_id x = tid) (completed_row 0 now)
     (db1\<lparr>db_refunds := db_refunds db1 @ [\<lparr>rf_user = u, rf_task = tid, rf_seconds = e, rf_created_at = now\<rparr>]\<rparr>)"
  define r where "r = \<lparr>cr_task_id = tid, cr_elapsed = 0, cr_refunded = e\<rparr>"
  have int: "as_integer (JNum 0) = Some 0" by (simp add: as_integer_def)
  have step: "server_completeTask u tid (JNum 0) (At now) now x = (Inr r, update_tasks (\<lambda>x. tk_id x = tid) (completed_row 0 now)
     (x\<lparr>db_refunds := db_refunds x @ [\<lparr>rf_user = u, rf_task = tid, rf_seconds = e, rf_created_at = now\<rparr>]\<rparr>))"
    if "find_task x tid = Some y" "tk_user y = u" "tk_estimated y = Some e" for x y
    using that assms(6) by (simp add: server_completeTask_def int withTx_def complete_tx_def Let_def or_default_def r_def
        completed_row_def [abs_def])
  have t: "t \<in> set (db_tasks db)" "tk_id t = tid" using assms(2) by (auto simp: find_task_def dest: find_key_Some)
  have s1: "server_completeTask u tid (JNum 0) (At now) now db = (Inr r, db1)"
    using step [OF assms(2,3,5)] by (simp add: db1_def)
  have tasks1: "db_tasks db1 = update_where (\<lambda>x. tk_id x = tid) (completed_row 0 now) (db_tasks db)"
    by (simp add: db1_def update_tasks_def)
  have ids1: "ids_ok db1" using assms(1) map_update_where [of "\<lambda>x. tk_id x = tid" tk_id "completed_row 0 now" "db_tasks db"]
    by (auto simp: ids_ok_def tasks1 completed_row_def set_update_where) (simp add: db1_def update_tasks_def)+
  have "row \<in> set (db_tasks db1)" using t by (auto simp: tasks1 set_update_where row_def)
  then have find1: "find_task db1 tid = Some row"
    using ids1 find_distinct_key [of tk_id "db_tasks db1" row] t by (simp add: find_task_def ids_ok_def row_def completed_row_def)
  have s2: "server_completeTask u tid (JNum 0) (At now) now db1 = (Inr r, db2)"
    using step [OF find1] assms(3,5) by (simp add: db2_def row_def completed_row_def)
  have "sumRefunded z db2 u d = sumRefunded z db u d + 2 * e"
    using assms(7) by (simp add: sumRefunded_def db2_def db1_def update_tasks_def)
  moreover have "server_remaining db2 u d = server_remaining db u d + e"
  proof -
    have z: "JNum 0 = JNum (of_int 0)" by simp
    obtain c where c: "server_remaining db1 u d = server_remaining db u d + taken u d t - taken u d (completed_row 0 c t)"
      using remaining_after_complete [OF s1 [unfolded z] assms(1)] assms(2) by auto
    have "server_remaining db1 u d = server_remaining db u d + e"
      using assms(3-6,8) by (simp add: c) (simp add: taken_def of_day_def completed_row_def reserved_def or_default_def least_elapsed_def)
    moreover obtain c' where c': "server_remaining db2 u d = server_remaining db1 u d + taken u d row - taken u d (completed_row 0 c' row)"
      using remaining_after_complete [OF s2 [unfolded z] ids1] find1 by auto
    moreover have "taken u d row = taken u d (completed_row 0 c' row)"
      using assms(3,5,8) by (simp add: row_def taken_def of_day_def completed_row_def reserved_def least_elapsed_def)
    ultimately show ?thesis by simp
  qed
  ultimately show ?thesis using s1 s2 by blast
qed

definition one_task_db :: server_db where
  "one_task_db = empty_db\<lparr>db_tasks := [new_row 1 (ascii ''a'') 3600 ''1970-01-01'' False 0 1], db_next_task := 2\<rparr>"

lemma repeated_completion_refunds_again_witness:
  "\<exists>db2. sumRefunded (fixed_zone 0) db2 1 ''1970-01-01'' = 7200
     \<and> server_remaining db2 1 ''1970-01-01'' = server_remaining one_task_db 1 ''1970-01-01'' + 3600"
proof -
  have "ids_ok one_task_db" by (simp add: ids_ok_def one_task_db_def new_row_def)
  from repeated_completion_refunds_again [OF this, of 1 _ 1 3600 "fixed_zone 0" 0 "''1970-01-01''"]
  show ?thesis
    by (auto simp: epoch_key find_task_def one_task_db_def new_row_def reserved_def)
      (auto simp: sumRefunded_def empty_db_def)
qed

end
