(* ===== verification/Priority_Service.thy ===== *)
theory Priority_Service
  imports Time_Service
begin

text \<open>
  The priority task of a day with its cache (\<open>alarm-system/src/services/priorityTaskService.ts\<close>), the
  status changes of a task (\<open>services/taskStatusService.ts\<close>) and the routes of both
  (\<open>routes/priorityRoutes.ts\<close>).
\<close>

subsection \<open>The priority service\<close>

text \<open>The cached answer of a user, with the time at which it expires; the key names no date.\<close>

type_synonym priority_cache = "(int \<times> bool \<times> int) list"

definition cache_get :: "priority_cache \<Rightarrow> int \<Rightarrow> int \<Rightarrow> bool option" where
  "cache_get c u now =
     (case lookup c u of Some (b, expires) \<Rightarrow> if now < expires then Some b else None | None \<Rightarrow> None)"

definition cache_set :: "priority_cache \<Rightarrow> int \<Rightarrow> bool \<Rightarrow> int \<Rightarrow> priority_cache" where
  "cache_set c u b now = store u (b, now + 300 * 1000) c"

definition getActivePriority :: "server_db \<Rightarrow> int \<Rightarrow> string \<Rightarrow> task_row option" where
  "getActivePriority db u d = List.find (active_priority u d) (db_tasks db)"

definition hasPriorityTask ::
  "priority_cache option \<Rightarrow> server_db \<Rightarrow> int \<Rightarrow> string \<Rightarrow> int \<Rightarrow> bool \<times> priority_cache option" where
  "hasPriorityTask redis db u d now =
     (case redis of
        None \<Rightarrow> (getActivePriority db u d \<noteq> None, None)
      | Some c \<Rightarrow>
          (case cache_get c u now of
             Some b \<Rightarrow> (b, Some c)
           | None \<Rightarrow>
               (let ex = getActivePriority db u d \<noteq> None in (ex, Some (cache_set c u ex now)))))"

definition invalidate :: "priority_cache option \<Rightarrow> int \<Rightarrow> priority_cache option" where
  "invalidate redis u = map_option (remove_key u) redis"

definition assertNoActivePriority :: "server_db \<Rightarrow> int \<Rightarrow> string \<Rightarrow> tx_error + unit" where
  "assertNoActivePriority db u d =
     (case getActivePriority db u d of
        Some ex \<Rightarrow> Inl (App (PriorityTaskExists (tk_id ex) (tk_title ex)))
      | None \<Rightarrow> Inr ())"

definition releasePriority ::
  "int \<Rightarrow> int \<Rightarrow> server_db \<Rightarrow> priority_cache option \<Rightarrow> (tx_error + unit) \<times> server_db \<times> priority_cache option" where
  "releasePriority u tid db redis =
     (let P = (\<lambda>t. tk_id t = tid \<and> tk_user t = u \<and> tk_priority t) in
      if \<not> (\<exists>t \<in> set (db_tasks db). P t) then (Inl (App TaskNotFound), db, redis)
      else (Inr (), update_tasks P (\<lambda>t. t\<lparr>tk_priority := False\<rparr>) db, invalidate redis u))"

subsection \<open>The status service\<close>

fun transition_text :: "transition_message \<Rightarrow> ustring" where
  "transition_text CompletedCannotRestart = [0xC644, 0xB8CC, 0xB41C, 0x20, 0x54, 0x61, 0x73, 0x6B, 0xB294, 0x20,
     0xB2E4, 0xC2DC, 0x20, 0xC2DC, 0xC791, 0xD560, 0x20, 0xC218, 0x20, 0xC5C6, 0xC2B5, 0xB2C8, 0xB2E4, 0x2E]"
| "transition_text NotStartedCannotPause = [0xC2DC, 0xC791, 0xD558, 0xC9C0, 0x20, 0xC54A, 0xC740, 0x20, 0x54, 0x61,
   0x73, 0x6B, 0xB294, 0x20, 0xC77C, 0xC2DC, 0xC815, 0xC9C0, 0xD560, 0x20, 0xC218, 0x20, 0xC5C6, 0xC2B5, 0xB2C8, 0xB2E4, 0x2E]"
| "transition_text AlreadyStarted = [0xC774, 0xBBF8, 0x20, 0xC2DC, 0xC791, 0xB41C, 0x20, 0x54, 0x61, 0x73, 0x6B,
   0xB294, 0x20, 0xB2E4, 0xC2DC, 0x20, 0xC2DC, 0xC791, 0xD560, 0x20, 0xC218, 0x20, 0xC5C6, 0xC2B5, 0xB2C8, 0xB2E4, 0x2E]"
| "transition_text NotResumable = [0xC774, 0xC5B4, 0xC11C, 0x20, 0xC2DC, 0xC791, 0xD560, 0x20, 0xC218, 0x20,
   0xC788, 0xB294, 0x20, 0xC0C1, 0xD0DC, 0xAC00, 0x20, 0xC544, 0xB2D9, 0xB2C8, 0xB2E4, 0x2E]"
| "transition_text TransitionNotAllowed = [0xD5C8, 0xC6A9, 0xB418, 0xC9C0, 0x20, 0xC54A, 0xB294, 0x20, 0xC0C1,
   0xD0DC, 0x20, 0xC804, 0xC774, 0xC785, 0xB2C8, 0xB2E4, 0x2E]"

record status_reply =
  sr_task_id :: int
  sr_action :: action
  sr_timer :: server_timer
  sr_status :: raw_status
  sr_was_priority :: bool
  sr_slot_released :: bool

definition row_overdue :: "int \<Rightarrow> task_row \<Rightarrow> bool" where
  "row_overdue now t \<longleftrightarrow> (case tk_deadline t of None \<Rightarrow> False | Some d \<Rightarrow> d < now \<and> tk_status t \<noteq> S_COMPLETED)"

text \<open>The column \<open>elapsed_time\<close> is an integer; the statement fails on another number.\<close>

definition finish_elapsed :: "js_value_num option \<Rightarrow> int option \<Rightarrow> int option option" where
  "finish_elapsed given old =
     (case given of
        None \<Rightarrow> Some old
      | Some x \<Rightarrow> (case as_integer x of None \<Rightarrow> None | Some n \<Rightarrow> Some (Some n)))"

definition action_update :: "action \<Rightarrow> server_timer \<Rightarrow> int option \<Rightarrow> int \<Rightarrow> task_row \<Rightarrow> task_row" where
  "action_update a timer el now t =
     (if a = ACT_FINISH
      then t\<lparr>tk_status := S_COMPLETED, tk_timer := ST_COMPLETED, tk_completed_at := Some now, tk_elapsed := el\<rparr>
      else t\<lparr>tk_timer := timer, tk_timer_started := (if timer = ST_RUNNING then Some now else tk_timer_started t)\<rparr>)"

definition apply_tx ::
  "int \<Rightarrow> int \<Rightarrow> action \<Rightarrow> js_value_num option \<Rightarrow> int \<Rightarrow> server_db \<Rightarrow> tx_error + status_reply \<times> server_db" where
  "apply_tx u tid a elapsed now db =
     (case find_task db tid of
        None \<Rightarrow> Inl (App TaskNotFound)
      | Some t \<Rightarrow>
          if tk_user t \<noteq> u then Inl (App Forbidden)
          else
            (case transition (server_deriveDisplayStatus (tk_status t) (tk_timer t) (row_overdue now t)) a of
               Inl m \<Rightarrow> Inl (App (InvalidTransition (transition_text m)))
             | Inr oc \<Rightarrow>
                 (case (if a = ACT_FINISH then finish_elapsed elapsed (tk_elapsed t) else Some None) of
                    None \<Rightarrow> Inl Db_error
                  | Some el \<Rightarrow>
                      Inr (\<lparr>sr_task_id = tid, sr_action = a,
                            sr_timer = (if a = ACT_FINISH then ST_COMPLETED else timerStatus oc),
                            sr_status = (if a = ACT_FINISH then S_COMPLETED else tk_status t),
                            sr_was_priority = tk_priority t,
                            sr_slot_released = (a = ACT_FINISH \<and> tk_priority t)\<rparr>,
                           update_tasks (\<lambda>x. tk_id x = tid) (action_update a (timerStatus oc) el now) db))))"

text \<open>The cache is dropped after a success only; a failure is thrown out of the transaction.\<close>

definition applyAction ::
  "int \<Rightarrow> int \<Rightarrow> action \<Rightarrow> js_value_num option \<Rightarrow> int \<Rightarrow> server_db \<Rightarrow> priority_cache option
   \<Rightarrow> (tx_error + status_reply) \<times> server_db \<times> priority_cache option" where
  "applyAction u tid a elapsed now db redis =
     (case withTx (apply_tx u tid a elapsed now) db of
        (Inl e, db') \<Rightarrow> (Inl e, db', redis)
      | (Inr r, db') \<Rightarrow> (Inr r, db', invalidate redis u))"

subsection \<open>Routes (routes/priorityRoutes.ts)\<close>

definition assertSelf :: "int \<Rightarrow> int option option \<Rightarrow> (int \<times> error_body) + int" where
  "assertSelf user query_userId =
     (case query_userId of
        None \<Rightarrow> Inr user
      | Some q \<Rightarrow> if q = Some user then Inr user else Inl (403, toJSON (Errors Forbidden)))"

definition patch_status ::
  "int \<Rightarrow> int option \<Rightarrow> action option \<Rightarrow> js_value_num option \<Rightarrow> int \<Rightarrow> server_db \<Rightarrow> priority_cache option
   \<Rightarrow> ((int \<times> error_body) + int \<times> status_reply) \<times> server_db \<times> priority_cache option" where
  "patch_status u taskId act elapsed now db redis =
     (case taskId of
        None \<Rightarrow> (Inl (send (App (Validation [0x74, 0x61, 0x73, 0x6B, 0x49, 0x64, 0x20, 0xAC00, 0x20,
           0xC62C, 0xBC14, 0xB974, 0xC9C0, 0x20, 0xC54A, 0xC2B5, 0xB2C8, 0xB2E4, 0x2E]))), db, redis)
      | Some tid \<Rightarrow>
          (case act of
             None \<Rightarrow> (Inl (send (App (Validation [0x61, 0x63, 0x74, 0x69, 0x6F, 0x6E, 0x20, 0xC740,
                0x20, 0x53, 0x54, 0x41, 0x52, 0x54, 0x7C, 0x50, 0x41, 0x55, 0x53, 0x45, 0x7C, 0x52, 0x45, 0x53,
                   0x55, 0x4D, 0x45, 0x7C, 0x46, 0x49, 0x4E, 0x49, 0x53, 0x48, 0x20, 0xC5EC, 0xC57C, 0x20, 0xD569,
                      0xB2C8, 0xB2E4, 0x2E]))), db, redis)
           | Some a \<Rightarrow>
               (case applyAction u tid a elapsed now db redis of
                  (Inl e, s) \<Rightarrow> (Inl (send e), s)
                | (Inr r, s) \<Rightarrow> (Inr (200, r), s))))"

record priority_reply =
  pr_has :: bool
  pr_task :: "(int \<times> ustring \<times> raw_status \<times> server_timer) option"

definition get_priority ::
  "zone \<Rightarrow> int \<Rightarrow> int option option \<Rightarrow> int \<Rightarrow> server_db \<Rightarrow> priority_cache option
   \<Rightarrow> ((int \<times> error_body) + int \<times> priority_reply) \<times> priority_cache option" where
  "get_priority z user q now db redis =
     (case assertSelf user q of
        Inl e \<Rightarrow> (Inl e, redis)
      | Inr u \<Rightarrow>
          (let d = dateKeyInTZ z now;
               (has, redis') = hasPriorityTask redis db u d now;
               task = (if has then getActivePriority db u d else None)
           in (Inr (200, \<lparr>pr_has = has,
                  pr_task = map_option (\<lambda>t. (tk_id t, tk_title t, tk_status t, tk_timer t)) task\<rparr>), redis')))"

record list_reply =
  lr_tasks :: "task_row list"
  lr_is_empty :: bool
  lr_priority_id :: "int option"

definition get_tasks ::
  "zone \<Rightarrow> int \<Rightarrow> int option option \<Rightarrow> string option \<Rightarrow> int \<Rightarrow> server_db \<Rightarrow> (int \<times> error_body) + int \<times> list_reply" where
  "get_tasks z user q date now db =
     (case assertSelf user q of
        Inl e \<Rightarrow> Inl e
      | Inr u \<Rightarrow>
          (let d = or_default date (dateKeyInTZ z now);
               rows = sort_key tk_id (filter (\<lambda>t. of_day u d t \<and> tk_status t \<noteq> S_ARCHIVED) (db_tasks db))
           in Inr (200, \<lparr>lr_tasks = rows, lr_is_empty = (rows = []),
                lr_priority_id = map_option tk_id (List.find (\<lambda>t. tk_priority t \<and> tk_status t \<noteq> S_COMPLETED) rows)\<rparr>)))"

text \<open>\<open>is_priority\<close> of the body: only the value \<open>false\<close> is accepted.\<close>

definition patch_priority ::
  "int \<Rightarrow> int option \<Rightarrow> bool option \<Rightarrow> server_db \<Rightarrow> priority_cache option
   \<Rightarrow> ((int \<times> error_body) + int \<times> ustring) \<times> server_db \<times> priority_cache option" where
  "patch_priority u taskId is_priority db redis =
     (case taskId of
        None \<Rightarrow> (Inl (send (App (Validation [0x74, 0x61, 0x73, 0x6B, 0x49, 0x64, 0x20, 0xAC00, 0x20,
           0xC62C, 0xBC14, 0xB974, 0xC9C0, 0x20, 0xC54A, 0xC2B5, 0xB2C8, 0xB2E4, 0x2E]))), db, redis)
      | Some tid \<Rightarrow>
          if is_priority \<noteq> Some False
          then (Inl (send (App (Validation [0x69, 0x73, 0x5F, 0x70, 0x72, 0x69, 0x6F, 0x72, 0x69, 0x74, 0x79, 0x20,
             0xB294, 0x20, 0x66, 0x61, 0x6C, 0x73, 0x65, 0x28, 0xD574, 0xC81C, 0x29, 0xB9CC, 0x20, 0xC9C0, 0xC6D0,
                0xD569, 0xB2C8, 0xB2E4, 0x2E]))), db, redis)
          else
            (case releasePriority u tid db redis of
               (Inl e, s) \<Rightarrow> (Inl (send e), s)
             | (Inr _, s) \<Rightarrow> (Inr (200, [0xCD5C, 0xC6B0, 0xC120, 0x20, 0xACFC, 0xC81C, 0xB97C, 0x20,
                0xD574, 0xC81C, 0xD588, 0xC2B5, 0xB2C8, 0xB2E4, 0x2E]), s)))"

subsection \<open>Status changes\<close>

lemma apply_ok:
  assumes "applyAction u tid a elapsed now db redis = (Inr r, db', redis')"
  obtains t oc el where "find_task db tid = Some t" and "tk_user t = u"
    and "transition (server_deriveDisplayStatus (tk_status t) (tk_timer t) (row_overdue now t)) a = Inr oc"
    and "a = ACT_FINISH \<Longrightarrow> finish_elapsed elapsed (tk_elapsed t) = Some el"
    and "db_tasks db' = update_where (\<lambda>x. tk_id x = tid) (action_update a (timerStatus oc) el now) (db_tasks db)"
    and "db_available db' = db_available db" and "db_next_task db' = db_next_task db" and "db_refunds db' = db_refunds db"
    and "redis' = invalidate redis u"
proof -
  from assms have tx: "apply_tx u tid a elapsed now db = Inr (r, db')" and red: "redis' = invalidate redis u"
    by (auto simp: applyAction_def withTx_ok split: prod.splits sum.splits)
  then obtain t oc where t: "find_task db tid = Some t" "tk_user t = u"
    "transition (server_deriveDisplayStatus (tk_status t) (tk_timer t) (row_overdue now t)) a = Inr oc"
    by (auto simp: apply_tx_def split: option.splits if_splits sum.splits)
  with tx red show ?thesis
    by (cases "if a = ACT_FINISH then finish_elapsed elapsed (tk_elapsed t) else Some None")
      (auto simp: apply_tx_def update_tasks_def split: if_splits intro!: that)
qed

lemma apply_ok_ex:
  assumes "applyAction u tid a elapsed now db redis = (Inr r, db', redis')"
  shows "\<exists>t oc el. find_task db tid = Some t \<and> tk_user t = u
    \<and> transition (server_deriveDisplayStatus (tk_status t) (tk_timer t) (row_overdue now t)) a = Inr oc
    \<and> (a = ACT_FINISH \<longrightarrow> finish_elapsed elapsed (tk_elapsed t) = Some el)
    \<and> db_tasks db' = update_where (\<lambda>x. tk_id x = tid) (action_update a (timerStatus oc) el now) (db_tasks db)
    \<and> db_available db' = db_available db \<and> redis' = invalidate redis u"
  using assms by (rule apply_ok) blast

lemma apply_error: "applyAction u tid a elapsed now db redis = (Inl e, db', redis') \<Longrightarrow> db' = db \<and> redis' = redis"
  by (auto simp: applyAction_def dest: withTx_error split: prod.splits sum.splits)

lemma row_unique:
  "ids_ok db \<Longrightarrow> find_task db i = Some t \<Longrightarrow> x \<in> set (db_tasks db) \<Longrightarrow> tk_id x = i \<Longrightarrow> x = t"
  unfolding find_task_def ids_ok_def by (metis find_distinct_key find_key_Some option.inject)

lemma find_updated:
  assumes "find_task db i = Some t" and "\<And>x. tk_id (h x) = tk_id x"
    and "db_tasks db' = update_where (\<lambda>x. tk_id x = i) h (db_tasks db)"
  shows "find_task db' i = Some (h t)"
proof -
  have "List.find (\<lambda>x. tk_id x = i) (update_where (\<lambda>x. tk_id x = i) h ts) = map_option h (List.find (\<lambda>x. tk_id x = i) ts)" for ts
    by (induction ts) (auto simp: update_where_def assms(2))
  with assms(1,3) show ?thesis by (simp add: find_task_def)
qed

text \<open>The effect of a status change on the budget of every day.\<close>

lemma remaining_after_action:
  assumes "ids_ok db" and "find_task db tid = Some t"
    and "db_tasks db' = update_where (\<lambda>x. tk_id x = tid) h (db_tasks db)" and "db_available db' = db_available db"
    and "\<And>x. tk_id (h x) = tk_id x"
  shows "server_remaining db' v e = server_remaining db v e + taken v e t - taken v e (h t)"
proof -
  have t: "t \<in> set (db_tasks db)" "tk_id t = tid" using assms(2) by (auto simp: find_task_def dest: find_key_Some)
  show ?thesis
    using sum_update_one [of tk_id "db_tasks db" t h "taken v e"] t assms
    by (simp add: remaining_taken total_of_def ids_ok_def)
qed

lemma action_update_id: "tk_id (action_update a tm el now x) = tk_id x"
  by (simp add: action_update_def)

lemma least_elapsed_cong:
  "tk_estimated x = tk_estimated t \<Longrightarrow> tk_elapsed x = tk_elapsed t \<Longrightarrow> least_elapsed x = least_elapsed t"
  by (cases "tk_estimated t") (simp_all add: least_elapsed_def)

lemma taken_action:
  assumes "a = ACT_FINISH \<Longrightarrow> el = tk_elapsed t"
  shows "taken v d (action_update a tm el now t) =
    (if a = ACT_FINISH then (if of_day v d t then least_elapsed t else 0) else taken v d t)"
proof -
  define x where "x = action_update a tm el now t"
  have f: "tk_user x = tk_user t" "tk_scheduled x = tk_scheduled t" "tk_estimated x = tk_estimated t"
    "tk_elapsed x = tk_elapsed t" "tk_status x = (if a = ACT_FINISH then S_COMPLETED else tk_status t)"
    using assms by (simp_all add: action_update_def x_def)
  have l: "least_elapsed x = least_elapsed t" by (rule least_elapsed_cong [OF f(3,4)])
  have "taken v d x = (if a = ACT_FINISH then (if of_day v d t then least_elapsed t else 0) else taken v d t)"
    by (simp add: taken_def of_day_def f reserved_def l)
  then show ?thesis by (simp add: x_def)
qed

lemma action_update_statuses:
  "transition (server_deriveDisplayStatus (tk_status t) (tk_timer t) od) a = Inr oc \<Longrightarrow>
   server_apply (tk_status t, tk_timer t) od a
     = Inr (tk_status (action_update a (timerStatus oc) el now t), tk_timer (action_update a (timerStatus oc) el now t))"
  by (cases a; cases "server_deriveDisplayStatus (tk_status t) (tk_timer t) od")
    (auto simp: server_apply_def transition_def action_update_def)



text \<open>
  A status request may carry any integer as elapsed time, and a negative one makes the finished
  task give back more than it had reserved: with \<open>-k\<close> seconds the day gains its estimate and \<open>k\<close>
  seconds more.  (The completion request refuses negative times.)
\<close>

theorem negative_elapsed_creates_time:
  assumes "ids_ok db" and "find_task db tid = Some t" and "tk_user t = u" and "of_day u d t" and "tk_status t = S_PENDING"
    and "tk_timer t = ST_RUNNING" and "tk_estimated t = Some e" and "0 \<le> e" and "0 < k"
  shows "\<exists>r db' redis'. applyAction u tid ACT_FINISH (Some (JNum (of_int (- k)))) now db redis = (Inr r, db', redis')
     \<and> server_remaining db' u d = server_remaining db u d + e + k
     \<and> fst (server_completeTask u tid (JNum (of_int (- k))) done_at now db) = Inl (App InvalidElapsed)"
proof -
  have int: "as_integer (JNum (of_int (- k))) = Some (- k)" unfolding as_integer_def js_value_num.case floor_of_int by simp
  let ?h = "action_update ACT_FINISH ST_COMPLETED (Some (- k)) now"
  define db' where "db' = update_tasks (\<lambda>x. tk_id x = tid) ?h db"
  have tr: "transition (server_deriveDisplayStatus (tk_status t) (tk_timer t) (row_overdue now t)) ACT_FINISH
      = Inr \<lparr>timerStatus = ST_COMPLETED, completesBusiness = True\<rparr>"
    using assms(5,6) by (simp add: server_deriveDisplayStatus_def transition_def)
  have "\<exists>r. applyAction u tid ACT_FINISH (Some (JNum (of_int (- k)))) now db redis = (Inr r, db', invalidate redis u)"
    using assms(2,3) int tr by (simp add: applyAction_def withTx_def apply_tx_def finish_elapsed_def db'_def)
  moreover have "server_remaining db' u d = server_remaining db u d + taken u d t - taken u d (?h t)"
    by (rule remaining_after_action [OF assms(1,2)]) (simp_all add: db'_def update_tasks_def action_update_id)
  then have "server_remaining db' u d = server_remaining db u d + e + k"
    using assms(4,5,7-9) by (simp add: taken_def of_day_def reserved_def or_default_def action_update_def least_elapsed_def)
  moreover have "fst (server_completeTask u tid (JNum (of_int (- k))) done_at now db) = Inl (App InvalidElapsed)"
    using assms(9) int by (simp add: server_completeTask_def)
  ultimately show ?thesis by blast
qed

definition running_db :: server_db where
  "running_db = empty_db\<lparr>db_tasks := [(new_row 1 (ascii ''a'') 3600 ''1970-01-01'' True 0 1)\<lparr>tk_timer := ST_RUNNING\<rparr>], db_next_task := 2\<rparr>"

lemma running_db_ok: "ids_ok running_db"
  "find_task running_db 1 = Some ((new_row 1 (ascii ''a'') 3600 ''1970-01-01'' True 0 1)\<lparr>tk_timer := ST_RUNNING\<rparr>)"
  by (simp_all add: ids_ok_def running_db_def new_row_def find_task_def)

lemma negative_elapsed_creates_time_witness:
  "\<exists>db'. server_remaining db' 1 ''1970-01-01'' = server_remaining running_db 1 ''1970-01-01'' + 3600 + 60"
  using negative_elapsed_creates_time [OF running_db_ok, of 1 "''1970-01-01''" 3600 60 0 None "At 0"]
  by (auto simp: new_row_def of_day_def)

subsection \<open>The cache and the table\<close>

text \<open>The routes that change tasks, with what they do to the cache.\<close>

definition post_tasks_cached ::
  "zone \<Rightarrow> int \<Rightarrow> create_input \<Rightarrow> int \<Rightarrow> server_db \<times> priority_cache option \<Rightarrow> server_db \<times> priority_cache option" where
  "post_tasks_cached z u input now s =
     (case reserveAndCreateTask z u input now (fst s) of
        (Inl _, db') \<Rightarrow> (db', snd s)
      | (Inr _, db') \<Rightarrow> (db', if ci_priority input then invalidate (snd s) u else snd s))"

definition patch_complete_cached ::
  "int \<Rightarrow> int \<Rightarrow> int \<Rightarrow> js_date \<Rightarrow> int \<Rightarrow> server_db \<times> priority_cache option \<Rightarrow> server_db \<times> priority_cache option" where
  "patch_complete_cached u tid el done_at now s =
     (case server_completeTask u tid (JNum (of_int el)) done_at now (fst s) of
        (Inl _, db') \<Rightarrow> (db', snd s)
      | (Inr _, db') \<Rightarrow> (db', invalidate (snd s) u))"

datatype priority_request =
    Ask int int
  | Post int create_input int
  | Finish_early int int int js_date int
  | Change int int action "js_value_num option" int
  | Release int int

fun serve_priority ::
  "zone \<Rightarrow> string \<Rightarrow> server_db \<times> priority_cache option \<Rightarrow> priority_request \<Rightarrow> server_db \<times> priority_cache option" where
  "serve_priority z d (db, c) (Ask u now) = (db, snd (hasPriorityTask c db u d now))"
| "serve_priority z d s (Post u input now) = post_tasks_cached z u input now s"
| "serve_priority z d s (Finish_early u tid el done_at now) = patch_complete_cached u tid el done_at now s"
| "serve_priority z d (db, c) (Change u tid a el now) = snd (applyAction u tid a el now db c)"
| "serve_priority z d (db, c) (Release u tid) = snd (releasePriority u tid db c)"

definition cache_true :: "string \<Rightarrow> server_db \<times> priority_cache option \<Rightarrow> bool" where
  "cache_true d s \<longleftrightarrow>
     (\<forall>c u b e. snd s = Some c \<and> lookup c u = Some (b, e) \<longrightarrow> b = (getActivePriority (fst s) u d \<noteq> None))"

lemma active_exists: "getActivePriority db u d \<noteq> None \<longleftrightarrow> (\<exists>t \<in> set (db_tasks db). active_priority u d t)"
  by (simp add: getActivePriority_def find_active)

lemma cache_true_step:
  assumes "cache_true d (db, c)"
    and "\<And>v. v \<noteq> u \<Longrightarrow> (\<exists>t \<in> set (db_tasks db'). active_priority v d t) \<longleftrightarrow> (\<exists>t \<in> set (db_tasks db). active_priority v d t)"
  shows "cache_true d (db', invalidate c u)"
  unfolding cache_true_def active_exists
proof (intro allI impI)
  fix c' v b e
  assume h: "snd (db', invalidate c u) = Some c' \<and> lookup c' v = Some (b, e)"
  then obtain c0 where c0: "c = Some c0" "c' = remove_key u c0" by (auto simp: invalidate_def)
  with h have v: "v \<noteq> u" "lookup c0 v = Some (b, e)" by (auto split: if_splits)
  with assms(1) c0 have "b = (\<exists>t \<in> set (db_tasks db). active_priority v d t)"
    unfolding cache_true_def active_exists by auto
  with assms(2) [OF v(1)] show "b = (\<exists>t \<in> set (db_tasks (fst (db', invalidate c u))). active_priority v d t)" by simp
qed

lemma others_unaffected:
  assumes "db_tasks db' = update_where P h (db_tasks db)" and "\<And>x. P x \<Longrightarrow> x \<in> set (db_tasks db) \<Longrightarrow> tk_user x = u \<and> tk_user (h x) = u"
    and "v \<noteq> u"
  shows "(\<exists>t \<in> set (db_tasks db'). active_priority v d t) \<longleftrightarrow> (\<exists>t \<in> set (db_tasks db). active_priority v d t)"
  using assms by (auto simp: set_update_where active_priority_def)

lemma cache_true_ask: "cache_true d (db, c) \<Longrightarrow>
    fst (hasPriorityTask c db u d now) = (getActivePriority db u d \<noteq> None)
    \<and> cache_true d (db, snd (hasPriorityTask c db u d now))"
  by (auto simp: hasPriorityTask_def cache_true_def cache_get_def cache_set_def Let_def split: option.splits if_splits)

lemma cache_true_post: "cache_true d s \<Longrightarrow> cache_true d (post_tasks_cached z u input now s)"
proof (cases "reserveAndCreateTask z u input now (fst s)")
  case (Pair r db')
  assume c: "cache_true d s"
  show ?thesis
  proof (cases r)
    case (Inl e)
    with Pair c show ?thesis by (cases s) (auto simp: post_tasks_cached_def dest: reserve_error)
  next
    case (Inr t)
    with Pair have "reserveAndCreateTask z u input now (fst s) = (Inr t, db')" by simp
    then obtain dur where t: "t = new_row u (ci_title input) dur (dateKeyInTZ z now) (ci_priority input) now (db_next_task (fst s))"
      "db_tasks db' = db_tasks (fst s) @ [t]" by (rule reserve_ok) blast
    have other: "(\<exists>x \<in> set (db_tasks db'). active_priority v d x) \<longleftrightarrow> (\<exists>x \<in> set (db_tasks (fst s)). active_priority v d x)"
      if "v \<noteq> u \<or> \<not> ci_priority input" for v
      using that t by (auto simp: active_priority_def new_row_def)
    show ?thesis
    proof (cases "ci_priority input")
      case True
      have "cache_true d (db', invalidate (snd s) u)"
        by (rule cache_true_step [of d "fst s"]) (use c other in auto)
      with True Pair Inr show ?thesis by (simp add: post_tasks_cached_def)
    next
      case False
      then have "cache_true d (db', snd s)" using c other by (auto simp: cache_true_def active_exists simp del: not_None_eq)
      with False Pair Inr show ?thesis by (simp add: post_tasks_cached_def)
    qed
  qed
qed

lemma own_rows: "ids_ok db \<Longrightarrow> find_task db tid = Some t \<Longrightarrow> x \<in> set (db_tasks db) \<Longrightarrow> tk_id x = tid \<Longrightarrow> tk_user x = tk_user t"
  using row_unique by blast

lemma cache_true_complete:
  assumes "ids_ok (fst s)" and "cache_true d s"
  shows "cache_true d (patch_complete_cached u tid el done_at now s)"
proof (cases "server_completeTask u tid (JNum (of_int el)) done_at now (fst s)")
  case (Pair r db')
  show ?thesis
  proof (cases r)
    case (Inl e)
    with Pair assms(2) show ?thesis by (cases s) (auto simp: patch_complete_cached_def dest: complete_error)
  next
    case (Inr x)
    with Pair have "server_completeTask u tid (JNum (of_int el)) done_at now (fst s) = (Inr x, db')" by simp
    then obtain t c where t: "find_task (fst s) tid = Some t" "tk_user t = u"
      "db_tasks db' = update_where (\<lambda>x. tk_id x = tid) (completed_row el c) (db_tasks (fst s))" by (rule complete_ok) blast
    have "cache_true d (db', invalidate (snd s) u)"
    proof (rule cache_true_step [of d "fst s"])
      show "cache_true d (fst s, snd s)" using assms(2) by simp
      show "(\<exists>x \<in> set (db_tasks db'). active_priority v d x) \<longleftrightarrow> (\<exists>x \<in> set (db_tasks (fst s)). active_priority v d x)"
        if "v \<noteq> u" for v
        using t(3) by (rule others_unaffected) (use own_rows [OF assms(1) t(1)] t(2) that in \<open>auto simp: completed_row_def\<close>)
    qed
    with Pair Inr show ?thesis by (simp add: patch_complete_cached_def)
  qed
qed

lemma cache_true_change:
  assumes "ids_ok db" and "cache_true d (db, c)"
  shows "cache_true d (snd (applyAction u tid a el now db c))"
proof (cases "applyAction u tid a el now db c")
  case (fields r db' c')
  show ?thesis
  proof (cases r)
    case (Inl e)
    with fields assms(2) show ?thesis by (auto dest: apply_error)
  next
    case (Inr x)
    with fields have ok: "applyAction u tid a el now db c = (Inr x, db', c')" by simp
    from apply_ok_ex [OF ok] obtain t and oc :: outcome and e where t: "find_task db tid = Some t" "tk_user t = u" "c' = invalidate c u"
      "db_tasks db' = update_where (\<lambda>x. tk_id x = tid) (action_update a (timerStatus oc) e now) (db_tasks db)" by blast
    have "cache_true d (db', invalidate c u)"
    proof (rule cache_true_step [OF assms(2)])
      show "(\<exists>x \<in> set (db_tasks db'). active_priority v d x) \<longleftrightarrow> (\<exists>x \<in> set (db_tasks db). active_priority v d x)"
        if "v \<noteq> u" for v
        using t(4) by (rule others_unaffected) (use own_rows [OF assms(1) t(1)] t(2) that in \<open>auto simp: action_update_def\<close>)
    qed
    with fields t(3) show ?thesis by simp
  qed
qed

lemma cache_true_release: "cache_true d (db, c) \<Longrightarrow> cache_true d (snd (releasePriority u tid db c))"
proof (cases "\<exists>t \<in> set (db_tasks db). tk_id t = tid \<and> tk_user t = u \<and> tk_priority t")
  case True
  assume c: "cache_true d (db, c)"
  let ?P = "\<lambda>t. tk_id t = tid \<and> tk_user t = u \<and> tk_priority t"
  have "cache_true d (update_tasks ?P (\<lambda>t. t\<lparr>tk_priority := False\<rparr>) db, invalidate c u)"
  proof (rule cache_true_step [OF c])
    show "(\<exists>x \<in> set (db_tasks (update_tasks ?P (\<lambda>t. t\<lparr>tk_priority := False\<rparr>) db)). active_priority v d x)
        \<longleftrightarrow> (\<exists>x \<in> set (db_tasks db). active_priority v d x)" if "v \<noteq> u" for v
      by (rule others_unaffected [of _ ?P]) (use that in \<open>auto simp: update_tasks_def\<close>)
  qed
  moreover have "snd (releasePriority u tid db c) = (update_tasks ?P (\<lambda>t. t\<lparr>tk_priority := False\<rparr>) db, invalidate c u)"
    using True by (auto simp: releasePriority_def Let_def)
  ultimately show ?thesis by simp
next
  case False
  then have "snd (releasePriority u tid db c) = (db, c)" by (auto simp: releasePriority_def Let_def)
  then show "cache_true d (db, c) \<Longrightarrow> ?thesis" by simp
qed

text \<open>Ids stay distinct under every request, so the invariant is the two together.\<close>

lemma ids_update:
  assumes "ids_ok db" and "db_tasks db' = update_where P h (db_tasks db)" and "db_next_task db' = db_next_task db"
    and "\<And>x. tk_id (h x) = tk_id x"
  shows "ids_ok db'"
proof -
  have "map tk_id (db_tasks db') = map tk_id (db_tasks db)" unfolding assms(2) by (rule map_update_where) (rule assms(4))
  moreover have "\<forall>t \<in> set (db_tasks db'). tk_id t < db_next_task db'"
    using assms(1,4) by (auto simp: assms(2,3) set_update_where ids_ok_def)
  ultimately show ?thesis using assms(1) by (simp add: ids_ok_def)
qed

definition priority_inv :: "string \<Rightarrow> server_db \<times> priority_cache option \<Rightarrow> bool" where
  "priority_inv d s \<longleftrightarrow> ids_ok (fst s) \<and> cache_true d s"

lemma ids_serve: "ids_ok (fst s) \<Longrightarrow> ids_ok (fst (serve_priority z d s r))"
proof (cases s)
  case s: (Pair db c)
  assume ids: "ids_ok (fst s)"
  then have idb: "ids_ok db" by (simp add: s)
  show ?thesis
  proof (cases r)
    case (Ask u now)
    with ids s show ?thesis by simp
  next
    case (Post u input now)
    show ?thesis
    proof (cases "reserveAndCreateTask z u input now db")
      case (Pair r' db')
      show ?thesis
      proof (cases r')
        case (Inr t)
        with Pair have "reserveAndCreateTask z u input now db = (Inr t, db')" by simp
        then obtain dur where "t = new_row u (ci_title input) dur (dateKeyInTZ z now) (ci_priority input) now (db_next_task db)"
          "db_tasks db' = db_tasks db @ [t]" "db_next_task db' = db_next_task db + 1" by (rule reserve_ok) blast
        then have "ids_ok db'" using ids s by (auto simp: ids_ok_def new_row_def)
        with Pair Inr Post s show ?thesis by (simp add: post_tasks_cached_def)
      qed (use Pair Post s ids in \<open>auto simp: post_tasks_cached_def dest: reserve_error\<close>)
    qed
  next
    case (Finish_early u tid el done_at now)
    show ?thesis
    proof (cases "server_completeTask u tid (JNum (of_int el)) done_at now db")
      case (Pair r' db')
      show ?thesis
      proof (cases r')
        case (Inr x)
        with Pair have "server_completeTask u tid (JNum (of_int el)) done_at now db = (Inr x, db')" by simp
        then obtain c' where u: "db_tasks db' = update_where (\<lambda>x. tk_id x = tid) (completed_row el c') (db_tasks db)"
          "db_next_task db' = db_next_task db" by (rule complete_ok) blast
        have "ids_ok db'" by (rule ids_update [OF idb u]) (simp add: completed_row_def)
        with Pair Inr Finish_early s show ?thesis by (simp add: patch_complete_cached_def)
      qed (use Pair Finish_early s ids in \<open>auto simp: patch_complete_cached_def dest: complete_error\<close>)
    qed
  next
    case (Change u tid a el now)
    show ?thesis
    proof (cases "applyAction u tid a el now db c")
      case (fields r' db' c')
      show ?thesis
      proof (cases r')
        case (Inr x)
        with fields have "applyAction u tid a el now db c = (Inr x, db', c')" by simp
        then obtain oc :: outcome and e where u:
          "db_tasks db' = update_where (\<lambda>x. tk_id x = tid) (action_update a (timerStatus oc) e now) (db_tasks db)"
          "db_next_task db' = db_next_task db" by (rule apply_ok) blast
        have "ids_ok db'" by (rule ids_update [OF idb u]) (rule action_update_id)
        with fields Inr Change s show ?thesis by simp
      qed (use fields Change s ids in \<open>auto dest: apply_error\<close>)
    qed
  next
    case (Release u tid)
    have "ids_ok (update_tasks P (\<lambda>t. t\<lparr>tk_priority := False\<rparr>) db)" for P
      by (rule ids_update [OF idb, where h = "\<lambda>t. t\<lparr>tk_priority := False\<rparr>"]) (simp_all add: update_tasks_def)
    with Release s ids show ?thesis by (simp add: releasePriority_def Let_def)
  qed
qed

lemma priority_inv_serve: "priority_inv d s \<Longrightarrow> priority_inv d (serve_priority z d s r)"
proof -
  assume i: "priority_inv d s"
  have "cache_true d (serve_priority z d s r)"
  proof (cases s)
    case (Pair db c)
    with i have ids: "ids_ok db" and ct: "cache_true d (db, c)" by (simp_all add: priority_inv_def)
    have idf: "ids_ok (fst (db, c))" using ids by simp
    show ?thesis unfolding Pair
    proof (cases r)
      case (Ask u now)
      show "cache_true d (serve_priority z d (db, c) r)"
        unfolding Ask serve_priority.simps by (rule conjunct2 [OF cache_true_ask [OF ct]])
    next
      case (Post u input now)
      show "cache_true d (serve_priority z d (db, c) r)"
        unfolding Post serve_priority.simps by (rule cache_true_post [OF ct])
    next
      case (Finish_early u tid el done_at now)
      show "cache_true d (serve_priority z d (db, c) r)"
        unfolding Finish_early serve_priority.simps by (rule cache_true_complete [OF idf ct])
    next
      case (Change u tid a el now)
      show "cache_true d (serve_priority z d (db, c) r)"
        unfolding Change serve_priority.simps by (rule cache_true_change [OF ids ct])
    next
      case (Release u tid)
      show "cache_true d (serve_priority z d (db, c) r)"
        unfolding Release serve_priority.simps by (rule cache_true_release [OF ct])
    qed
  qed
  with i show ?thesis by (simp add: priority_inv_def ids_serve)
qed



text \<open>
  The key of the cache names no date: an answer computed for one day is given for every other
  day, too, until it expires five minutes later, so shortly after midnight the previous day's
  priority task is still reported for the new day, on which there is none.
\<close>

theorem cached_priority_outlives_its_day:
  assumes "cache_get c u now = None" and "getActivePriority db u d \<noteq> None" and "getActivePriority db u d' = None"
    and "now \<le> now'" and "now' < now + 300000"
  shows "fst (hasPriorityTask (snd (hasPriorityTask (Some c) db u d now)) db u d' now')
    \<and> \<not> fst (hasPriorityTask (Some []) db u d' now')"
  using assms by (simp add: hasPriorityTask_def cache_set_def cache_get_def Let_def)

lemma cached_priority_outlives_its_day_witness:
  "fst (hasPriorityTask (snd (hasPriorityTask (Some []) running_db 1 ''1970-01-01'' 0)) running_db 1 ''1970-01-02'' 1)"
proof -
  have "getActivePriority running_db 1 ''1970-01-01'' \<noteq> None" "getActivePriority running_db 1 ''1970-01-02'' = None"
    by (simp_all add: getActivePriority_def running_db_def active_priority_def new_row_def open_status_def)
  with cached_priority_outlives_its_day [of "[]" 1 0 running_db "''1970-01-01''" "''1970-01-02''" 1] show ?thesis
    by (simp add: cache_get_def)
qed

end
