(* ===== verification/Keyset.thy ===== *)
theory Keyset
  imports Prelude
begin

text \<open>
  Reading a table page by page with a cursor.  Both the nightly scan of the server (ascending task
  ids, \<open>queue/overdueNotificationScheduler.ts\<close>) and the notification list (descending creation times,
  \<open>notifications/queries.ts\<close>) fetch the first rows after a cursor and continue from the last row
  fetched; the locale holds what both rely on.
\<close>

locale keyset =
  fixes after :: "'k \<Rightarrow> 'a \<Rightarrow> bool"
    and key :: "'a \<Rightarrow> 'k"
  assumes after_irrefl: "\<not> after (key x) x"
    and after_trans: "after c x \<Longrightarrow> after (key x) y \<Longrightarrow> after c y"
begin

definition ordered :: "'a list \<Rightarrow> bool" where
  "ordered S \<longleftrightarrow> sorted_wrt (\<lambda>x y. after (key x) y) S"

lemma ordered_filter: "ordered S \<Longrightarrow> ordered (filter P S)"
  unfolding ordered_def by (rule sorted_wrt_filter)

lemma below_last:
  assumes "ordered (A @ B)" and "A \<noteq> []"
  shows "x \<in> set A \<Longrightarrow> \<not> after (key (last A)) x" and "y \<in> set B \<Longrightarrow> after (key (last A)) y"
proof -
  obtain A' l where A: "A = A' @ [l]" using assms(2) by (cases A rule: rev_cases) auto
  have o: "\<forall>x \<in> set A'. after (key x) l" "\<forall>y \<in> set B. after (key l) y"
    using assms(1) by (simp_all add: ordered_def A sorted_wrt_append)
  show "x \<in> set A \<Longrightarrow> \<not> after (key (last A)) x"
    using o(1) after_trans after_irrefl unfolding A by (metis Un_iff empty_iff last_snoc list.set(1) set_ConsD set_append)
  show "y \<in> set B \<Longrightarrow> after (key (last A)) y" using o(2) by (simp add: A)
qed

lemma rest_of_page:
  assumes "ordered F" and "take n F \<noteq> []"
  shows "filter (after (key (last (take n F)))) F = drop n F"
proof -
  let ?P = "after (key (last (take n F)))"
  have F: "ordered (take n F @ drop n F)" using assms(1) by simp
  have "filter ?P F = filter ?P (take n F) @ filter ?P (drop n F)"
    by (metis append_take_drop_id filter_append)
  also have "filter ?P (take n F) = []"
    using below_last(1) [OF F assms(2)] by (simp add: filter_empty_conv)
  also have "filter ?P (drop n F) = drop n F"
    using below_last(2) [OF F assms(2)] by (simp add: filter_id_conv)
  finally show ?thesis by simp
qed

text \<open>The page after the last row of a page is what the page left over.\<close>

lemma next_page:
  assumes "ordered S" and "F = filter (after c) S" and "take n F \<noteq> []"
  shows "filter (after (key (last (take n F)))) S = drop n F"
proof -
  let ?l = "last (take n F)"
  have "?l \<in> set F" using last_in_set [OF assms(3)] by (rule in_set_takeD)
  then have cl: "after c ?l" by (simp add: assms(2))
  have F: "ordered F" unfolding assms(2) by (rule ordered_filter [OF assms(1)])
  have "filter (after (key ?l)) S = filter (\<lambda>x. after c x \<and> after (key ?l) x) S"
    using after_trans [OF cl] by (intro filter_cong refl) blast
  also have "\<dots> = filter (after (key ?l)) F" by (simp only: assms(2) filter_filter)
  finally have "filter (after (key ?l)) S = filter (after (key ?l)) F" .
  then show ?thesis using rest_of_page [OF F assms(3)] by simp
qed

lemma fewer_left:
  assumes "l \<in> set (filter (after c) xs)"
  shows "length (filter (after (key l)) xs) < length (filter (after c) xs)"
proof -
  have "set (filter (after (key l)) xs) \<subseteq> set (filter (after c) xs)" using assms after_trans by auto
  have "length (filter (after (key l)) xs) = length (filter (after (key l)) (filter (after c) xs))"
    using assms after_trans by (auto intro!: arg_cong [of _ _ length] filter_cong)
  also have "\<dots> < length (filter (after c) xs)"
    using assms after_irrefl by (intro length_filter_less [of l]) auto
  finally show ?thesis .
qed

text \<open>
  Pages fetched one after the other, with fuel for the number of fetches: \<open>None\<close> means that it did
  not suffice.
\<close>

fun pages :: "nat \<Rightarrow> 'a list \<Rightarrow> nat \<Rightarrow> 'k option \<Rightarrow> 'a list option" where
  "pages 0 S n c = None"
| "pages (Suc k) S n c =
     (let rows = take n (case c of None \<Rightarrow> S | Some c \<Rightarrow> filter (after c) S) in
      if length rows < n then Some rows else map_option ((@) rows) (pages k S n (Some (key (last rows)))))"

lemma pages_from: "ordered S \<Longrightarrow> 0 < n \<Longrightarrow> length (filter (after c) S) < k \<Longrightarrow> pages k S n (Some c) = Some (filter (after c) S)"
proof (induction k arbitrary: c)
  case (Suc k)
  let ?F = "filter (after c) S"
  show ?case
  proof (cases "length ?F < n")
    case False
    then have ne: "take n ?F \<noteq> []" using Suc.prems(2) by (cases ?F) auto
    have nx: "filter (after (key (last (take n ?F)))) S = drop n ?F"
      by (rule next_page [OF Suc.prems(1) refl ne])
    have "length (drop n ?F) < k" using Suc.prems(2,3) False by simp
    then have "pages k S n (Some (key (last (take n ?F)))) = Some (drop n ?F)"
      using Suc.IH [OF Suc.prems(1,2)] nx by simp
    with False show ?thesis by (simp add: Let_def min_def)
  qed (simp add: Let_def)
qed simp

lemma pages_all:
  assumes "ordered S" "0 < n" "length S < k"
  shows "pages k S n None = Some S"
proof (cases k)
  case (Suc k')
  show ?thesis
  proof (cases "length S < n")
    case False
    then have ne: "take n S \<noteq> []" using assms(2) by (cases S) auto
    let ?l = "last (take n S)"
    have "filter (after (key ?l)) S = drop n S" by (rule rest_of_page [OF assms(1) ne])
    moreover have "length (drop n S) < k'" using assms Suc False by simp
    ultimately have "pages k' S n (Some (key ?l)) = Some (drop n S)" using pages_from [OF assms(1,2)] by simp
    with False Suc show ?thesis by (simp add: Let_def min_def)
  qed (simp add: Suc Let_def)
qed (use assms in simp)

end

end
