(* ===== verification/Notification_Text.thy ===== *)
theory Notification_Text
  imports Js_Regex
begin

text \<open>
  What the server puts into a notification: the sanitising of titles (\<open>alarm-system/src/lib/sanitize.ts\<close>),
  the Korean particles and the messages (\<open>notifications/messages.ts\<close>), and the masking of personal data
  in logs (\<open>lib/mask.ts\<close>).
\<close>

subsection \<open>Sanitising (lib/sanitize.ts)\<close>

definition MAX_TITLE_LEN :: nat where "MAX_TITLE_LEN = 255"

definition HTML_TAGS :: re where
  "HTML_TAGS = re_seq [One ((=) 60), Star (One (\<lambda>c. c \<noteq> 62)), One ((=) 62)]"

definition CONTROL_CHARS :: "nat \<Rightarrow> bool" where "CONTROL_CHARS c \<longleftrightarrow> c \<le> 0x1F \<or> c = 0x7F"
definition ANGLE_BRACKETS :: "nat \<Rightarrow> bool" where "ANGLE_BRACKETS c \<longleftrightarrow> c = 60 \<or> c = 62"

text \<open>Replacing a class of single characters by nothing keeps the others.\<close>

definition sanitizeTitle :: "ustring option \<Rightarrow> nat \<Rightarrow> ustring" where
  "sanitizeTitle raw maxLen =
     (case raw of
        None \<Rightarrow> []
      | Some s \<Rightarrow>
          take maxLen (trim (filter (\<lambda>c. \<not> ANGLE_BRACKETS c)
            (filter (\<lambda>c. \<not> CONTROL_CHARS c) (replace_all HTML_TAGS [] s)))))"

subsection \<open>Particles (notifications/messages.ts)\<close>

definition hasBatchim :: "ustring \<Rightarrow> bool" where
  "hasBatchim word =
     (if word = [] then False
      else (let code = last word in
        if 0xAC00 \<le> code \<and> code \<le> 0xD7A3 then (code - 0xAC00) mod 28 \<noteq> 0
        else if 48 \<le> code \<and> code \<le> 57 then code \<in> set [48, 49, 51, 54, 55, 56]
        else False))"

definition subjectParticle :: "ustring \<Rightarrow> ustring" where
  "subjectParticle word = (if hasBatchim word then [0xC774] else [0xAC00])"

definition objectParticle :: "ustring \<Rightarrow> ustring" where
  "objectParticle word = (if hasBatchim word then [0xC744] else [0xB97C])"

subsection \<open>Messages\<close>

datatype notif_type = OVERDUE_1DAY | OVERDUE_2DAY | DELETE_CONFIRM | INFO

definition generateNotificationMessage :: "ustring \<Rightarrow> int \<Rightarrow> ustring" where
  "generateNotificationMessage taskTitle overdueDays =
     (let title = sanitizeTitle (Some taskTitle) MAX_TITLE_LEN in
      if overdueDays = 1 then title @ subjectParticle title @ [0x20, 0xD558, 0xB8E8, 0x20, 0xBBF8, 0xB904, 0xC84C, 0xC2B5, 0xB2C8, 0xB2E4, 0x2E]
      else if overdueDays = 2 then title @ subjectParticle title @ [0x20, 0xC774, 0xD2C0, 0x20, 0xC9C0, 0xB0AC, 0xC2B5, 0xB2C8, 0xB2E4, 0x2E]
      else if 3 \<le> overdueDays then title @ objectParticle title @ [0x20, 0xD22C, 0xB450, 0xB9AC, 0xC2A4,
         0xD2B8, 0xC5D0, 0xC11C, 0x20, 0xC5C6, 0xC568, 0xAE4C, 0xC694, 0x3F]
      else [])"

definition notificationTypeFor :: "int \<Rightarrow> notif_type" where
  "notificationTypeFor overdueDays =
     (if 3 \<le> overdueDays then DELETE_CONFIRM
      else if overdueDays = 2 then OVERDUE_2DAY
      else if overdueDays = 1 then OVERDUE_1DAY
      else INFO)"

record built_notification =
  bn_message :: ustring
  bn_type :: notif_type

definition buildOverdueNotification :: "ustring \<Rightarrow> int \<Rightarrow> built_notification option" where
  "buildOverdueNotification taskTitle overdueDays =
     (if overdueDays < 1 then None
      else Some \<lparr>bn_message = generateNotificationMessage taskTitle overdueDays, bn_type = notificationTypeFor overdueDays\<rparr>)"

subsection \<open>Masking (lib/mask.ts)\<close>

definition maskUserId :: "ustring \<Rightarrow> ustring" where
  "maskUserId s =
     (if length s \<le> 1 then [0x2A]
      else if length s = 2 then [s ! 0] @ [0x2A]
      else [s ! 0] @ replicate (length s - 2) 42 @ [s ! (length s - 1)])"

definition maskTitle :: "ustring option \<Rightarrow> ustring" where
  "maskTitle title =
     (case title of
        None \<Rightarrow> [0x2205]
      | Some t \<Rightarrow> if t = [] then [0x2205] else [t ! 0] @ [0x2026, 0x28] @ ascii (show_nat (length t)) @ [0xC790, 0x29])"

definition maskedTaskRef :: "ustring \<Rightarrow> ustring option \<Rightarrow> ustring" where
  "maskedTaskRef userId title = ascii ''user='' @ maskUserId userId @ ascii '' task='' @ [34] @ maskTitle title @ [34]"

subsection \<open>Safety of what is shown\<close>

definition markup :: "nat \<Rightarrow> bool" where
  "markup c \<longleftrightarrow> ANGLE_BRACKETS c \<or> CONTROL_CHARS c"

lemma set_trim: "set (trim s) \<subseteq> set s"
  using trim_split [of s] by (metis Un_subset_iff order_refl set_append)

lemma sanitize_safe: "c \<in> set (sanitizeTitle raw n) \<Longrightarrow> \<not> markup c"
  using set_trim by (auto simp: sanitizeTitle_def markup_def split: option.splits dest!: in_set_takeD subsetD [OF set_trim])

lemma sanitize_length: "length (sanitizeTitle raw n) \<le> n"
  by (auto simp: sanitizeTitle_def split: option.splits)

text \<open>
  Whatever the title, a message contains no angle bracket and no control character, and it is at
  most 273 characters long: the title stands in it only in its sanitised form, cut to 255.
\<close>

theorem message_has_no_markup:
  shows "(\<forall>c \<in> set (generateNotificationMessage taskTitle days). \<not> markup c)
    \<and> length (generateNotificationMessage taskTitle days) \<le> 273
    \<and> (case buildOverdueNotification taskTitle days of
          None \<Rightarrow> days < 1
        | Some b \<Rightarrow> 1 \<le> days \<and> bn_message b = generateNotificationMessage taskTitle days \<and> bn_message b \<noteq> []
                    \<and> bn_type b \<noteq> INFO)"
proof -
  let ?t = "sanitizeTitle (Some taskTitle) MAX_TITLE_LEN"
  have l: "length ?t \<le> 255" using sanitize_length [of "Some taskTitle" MAX_TITLE_LEN] by (simp add: MAX_TITLE_LEN_def)
  have "\<forall>c \<in> set (generateNotificationMessage taskTitle days). \<not> markup c"
    using sanitize_safe [of _ "Some taskTitle" MAX_TITLE_LEN]
    by (auto simp: generateNotificationMessage_def Let_def subjectParticle_def objectParticle_def)
      (auto simp: markup_def ANGLE_BRACKETS_def CONTROL_CHARS_def)
  moreover have "length (generateNotificationMessage taskTitle days) \<le> 273"
    using l by (simp add: generateNotificationMessage_def Let_def subjectParticle_def objectParticle_def)
  moreover have "1 \<le> days \<Longrightarrow> generateNotificationMessage taskTitle days \<noteq> [] \<and> notificationTypeFor days \<noteq> INFO"
    by (auto simp: generateNotificationMessage_def notificationTypeFor_def Let_def)
  ultimately show ?thesis by (auto simp: buildOverdueNotification_def)
qed

text \<open>
  A Hangul syllable is composed of an initial, a vowel and an optional final consonant.
\<close>

definition syllable :: "nat \<Rightarrow> nat \<Rightarrow> nat \<Rightarrow> nat" where
  "syllable initial vowel final = 0xAC00 + (initial * 21 + vowel) * 28 + final"

text \<open>
  For every Hangul syllable at the end of a word, the particle follows its final consonant: the
  forms for a consonant exactly when there is one.
\<close>

theorem particle_follows_final:
  assumes "initial < 19" and "vowel < 21" and "final < 28"
  shows "(hasBatchim (w @ [syllable initial vowel final]) \<longleftrightarrow> final \<noteq> 0)
    \<and> subjectParticle (w @ [syllable initial vowel final]) = (if final = 0 then [0xAC00] else [0xC774])"
proof -
  define c where "c = (initial * 21 + vowel) * 28 + final"
  have "c \<le> 11171" using assms by (simp add: c_def)
  moreover have "c mod 28 = final" unfolding c_def using assms by (simp only: mod_mult_self3 mod_less)
  moreover have "syllable initial vowel final = 0xAC00 + c" by (simp only: syllable_def c_def add.assoc)
  ultimately have "hasBatchim (w @ [syllable initial vowel final]) \<longleftrightarrow> final \<noteq> 0"
    by (simp add: hasBatchim_def Let_def)
  then show ?thesis by (simp add: subjectParticle_def)
qed

lemma particle_follows_final_witness: "hasBatchim [syllable 0 0 1] \<and> \<not> hasBatchim [syllable 0 0 0]"
  using particle_follows_final [of 0 0 1 "[]"] particle_follows_final [of 0 0 0 "[]"] by simp

text \<open>Of a user id of three digits or more, only the first and the last are logged.\<close>

lemma mask_hides:
  assumes "3 \<le> length s" and "0 < i" and "i < length s - 1"
  shows "maskUserId s ! i = 42 \<and> length (maskUserId s) = length s"
proof -
  obtain j where j: "i = Suc j" "j < length s - 2" using assms by (cases i) auto
  then show ?thesis using assms(1) by (simp add: maskUserId_def nth_append)
qed

end
