(* ===== verification/Notification_Server.thy ===== *)
theory Notification_Server
  imports Keyset Server_Db Notification_Text Time_Service
begin

text \<open>
  The notification server: the unread counts pushed and cached by \<open>realtime/notificationDispatcher.ts\<close>,
  the list query of \<open>notifications/queries.ts\<close>, the routes of \<open>routes/notificationRoutes.ts\<close>, and the
  nightly scan of \<open>queue/overdueNotificationScheduler.ts\<close>.  Queries may fail: an operation takes, for
  each of its queries, whether the database answers it.
\<close>

subsection \<open>The table of notifications\<close>

datatype notif_action = ACT_NONE | ACT_COMPLETED | ACT_DELETED | ACT_SNOOZED

text \<open>The columns of migration 1; \<open>created_at\<close> counts microseconds, as PostgreSQL keeps it.\<close>

record notif_row =
  nf_id :: int
  nf_task :: int
  nf_user :: int
  nf_type :: notif_type
  nf_days :: int
  nf_message :: ustring
  nf_read :: bool
  nf_dismissed :: bool
  nf_action :: notif_action
  nf_date :: string
  nf_created :: int
  nf_read_at :: "int option"
  nf_dismissed_at :: "int option"

record payload =
  np_id :: int
  np_task :: int
  np_user :: int
  np_type :: notif_type
  np_days :: int
  np_message :: ustring
  np_created :: int

datatype push = Push_new payload | Push_unread_count int

text \<open>The tables, the badge cache, and what was pushed to the rooms of the users.\<close>

record notif_world =
  nw_db :: server_db
  nw_rows :: "notif_row list"
  nw_next :: int
  nw_badge :: "int \<Rightarrow> int option"
  nw_sent :: "(int \<times> push) list"

subsection \<open>The dispatcher\<close>

definition unread :: "int \<Rightarrow> notif_row \<Rightarrow> bool" where
  "unread u n \<longleftrightarrow> nf_user n = u \<and> \<not> nf_read n \<and> \<not> nf_dismissed n"

definition countUnread :: "notif_world \<Rightarrow> int \<Rightarrow> int" where
  "countUnread w u = int (length (filter (unread u) (nw_rows w)))"

definition emitUnreadCount :: "bool \<Rightarrow> int \<Rightarrow> notif_world \<Rightarrow> notif_world" where
  "emitUnreadCount up u w =
     (if up
      then w\<lparr>nw_badge := (nw_badge w)(u \<mapsto> countUnread w u),
             nw_sent := nw_sent w @ [(u, Push_unread_count (countUnread w u))]\<rparr>
      else w)"

definition dispatch :: "bool \<Rightarrow> int \<Rightarrow> payload \<Rightarrow> notif_world \<Rightarrow> notif_world" where
  "dispatch up u n w = emitUnreadCount up u (w\<lparr>nw_sent := nw_sent w @ [(u, Push_new n)]\<rparr>)"

subsection \<open>The list query\<close>

text \<open>
  A cursor is the ISO form of an instant in milliseconds, or other text, which PostgreSQL does not
  accept as a time; the empty text counts as no cursor.
\<close>

datatype cursor_text = No_cursor | Empty_cursor | Iso_cursor int | Bad_cursor

definition DEFAULT_LIMIT :: js_num where "DEFAULT_LIMIT = 50"
definition MAX_LIMIT :: js_num where "MAX_LIMIT = 100"

record built_query =
  bq_where :: "notif_row \<Rightarrow> bool"
  bq_valid :: bool
  bq_limit :: js_num

definition clamp_limit :: "js_value_num option \<Rightarrow> js_num" where
  "clamp_limit limit =
     (let l = (case limit of Some (JNum x) \<Rightarrow> if x = 0 then DEFAULT_LIMIT else x | _ \<Rightarrow> DEFAULT_LIMIT) in
      min (max l 1) MAX_LIMIT)"

definition buildNotificationsListQuery :: "int \<Rightarrow> bool \<Rightarrow> cursor_text \<Rightarrow> js_value_num option \<Rightarrow> built_query" where
  "buildNotificationsListQuery userId unreadOnly cursor limit =
     \<lparr>bq_where = (\<lambda>n. nf_user n = userId \<and> \<not> nf_dismissed n \<and> (unreadOnly \<longrightarrow> \<not> nf_read n)
         \<and> (case cursor of Iso_cursor c \<Rightarrow> nf_created n < c * 1000 | _ \<Rightarrow> True)),
      bq_valid = (cursor \<noteq> Bad_cursor),
      bq_limit = clamp_limit limit\<rparr>"

text \<open>What the database answers: an error for a cursor or a limit that it cannot read.\<close>

definition run_query :: "built_query \<Rightarrow> notif_row list \<Rightarrow> notif_row list option" where
  "run_query q rows =
     (if bq_valid q \<and> bq_limit q = of_int \<lfloor>bq_limit q\<rfloor>
      then Some (take (nat \<lfloor>bq_limit q\<rfloor>) (sort_key (\<lambda>n. - nf_created n) (filter (bq_where q) rows)))
      else None)"

text \<open>\<open>nextCursorOf\<close>: the driver reads \<open>created_at\<close> as a date, in whole milliseconds.\<close>

definition nextCursorOf :: "notif_row list \<Rightarrow> js_num \<Rightarrow> int option" where
  "nextCursorOf rows limit =
     (if of_nat (length rows) < limit then None else Some (nf_created (last rows) div 1000))"

subsection \<open>The routes\<close>

definition error_reply :: "int \<Rightarrow> string \<Rightarrow> ustring \<Rightarrow> int \<times> error_body" where
  "error_reply s e m = (s, \<lparr>eb_status = Some s, eb_error = Some e, eb_message = Some m, eb_rest = []\<rparr>)"

record list_params =
  lp_user :: "js_value_num option"
  lp_unread :: "string option"
  lp_cursor :: cursor_text
  lp_limit :: "js_value_num option"

record list_page =
  lr_rows :: "notif_row list"
  lr_unread :: int
  lr_next :: "int option"

definition get_notifications ::
  "(nat \<Rightarrow> bool) \<Rightarrow> int \<Rightarrow> list_params \<Rightarrow> notif_world \<Rightarrow> (int \<times> error_body) + list_page" where
  "get_notifications up u p w =
     (if (case lp_user p of None \<Rightarrow> False | Some x \<Rightarrow> x \<noteq> JNum (of_int u))
      then Inl (error_reply 403 ''FORBIDDEN'' [0xB2E4, 0xB978, 0x20, 0xC0AC, 0xC6A9, 0xC790, 0xC758, 0x20, 0xC54C,
         0xB9BC, 0xC740, 0x20, 0xC870, 0xD68C, 0xD560, 0x20, 0xC218, 0x20, 0xC5C6, 0xC2B5, 0xB2C8, 0xB2E4, 0x2E])
      else
        (let q = buildNotificationsListQuery u (lp_unread p = Some ''true'') (lp_cursor p) (lp_limit p) in
         case (if up 0 then run_query q (nw_rows w) else None) of
           None \<Rightarrow> Inl (error_reply 500 ''INTERNAL_SERVER_ERROR'' [0xC54C, 0xB9BC, 0x20, 0xC870, 0xD68C,
              0xC5D0, 0x20, 0xC2E4, 0xD328, 0xD588, 0xC2B5, 0xB2C8, 0xB2E4, 0x2E])
         | Some rows \<Rightarrow>
             if up 1
             then Inr \<lparr>lr_rows = rows, lr_unread = countUnread w u, lr_next = nextCursorOf rows (bq_limit q)\<rparr>
             else Inl (error_reply 500 ''INTERNAL_SERVER_ERROR'' [0xC54C, 0xB9BC, 0x20, 0xC870, 0xD68C, 0xC5D0,
                0x20, 0xC2E4, 0xD328, 0xD588, 0xC2B5, 0xB2C8, 0xB2E4, 0x2E])))"

definition get_badge :: "bool \<Rightarrow> int \<Rightarrow> notif_world \<Rightarrow> ((int \<times> error_body) + int) \<times> notif_world" where
  "get_badge up u w =
     (case nw_badge w u of
        Some c \<Rightarrow> (Inr c, w)
      | None \<Rightarrow>
          if up then (Inr (countUnread w u), w\<lparr>nw_badge := (nw_badge w)(u \<mapsto> countUnread w u)\<rparr>)
          else (Inl (error_reply 500 ''INTERNAL_SERVER_ERROR'' [0xBC30, 0xC9C0, 0x20, 0xC870, 0xD68C, 0xC5D0, 0x20,
             0xC2E4, 0xD328, 0xD588, 0xC2B5, 0xB2C8, 0xB2E4, 0x2E]), w))"

text \<open>The path of a request names a notification, or is text that is no UUID.\<close>

definition post_read ::
  "(nat \<Rightarrow> bool) \<Rightarrow> int \<Rightarrow> int option \<Rightarrow> int \<Rightarrow> notif_world \<Rightarrow> ((int \<times> error_body) + ustring) \<times> notif_world" where
  "post_read up u pathId now w =
     (case (if up 0 then pathId else None) of
        None \<Rightarrow> (Inl (error_reply 500 ''INTERNAL_SERVER_ERROR'' [0xC77D, 0xC74C, 0x20, 0xCC98, 0xB9AC,
           0xC5D0, 0x20, 0xC2E4, 0xD328, 0xD588, 0xC2B5, 0xB2C8, 0xB2E4, 0x2E]), w)
      | Some i \<Rightarrow>
          let hit = (\<lambda>n. nf_id n = i \<and> nf_user n = u) in
          if \<not> list_ex hit (nw_rows w)
          then (Inl (error_reply 404 ''NOT_FOUND'' [0xC54C, 0xB9BC, 0xC744, 0x20, 0xCC3E, 0xC744, 0x20, 0xC218,
             0x20, 0xC5C6, 0xC2B5, 0xB2C8, 0xB2E4, 0x2E]), w)
          else (Inr [0xC54C, 0xB9BC, 0xC744, 0x20, 0xC77D, 0xC74C, 0x20, 0xCC98, 0xB9AC, 0xD588, 0xC2B5, 0xB2C8, 0xB2E4, 0x2E],
                emitUnreadCount (up 1) u
                  (w\<lparr>nw_rows := update_where hit
                      (\<lambda>n. n\<lparr>nf_read := True, nf_read_at := Some (or_default (nf_read_at n) now)\<rparr>) (nw_rows w)\<rparr>)))"

definition post_dismiss ::
  "(nat \<Rightarrow> bool) \<Rightarrow> int \<Rightarrow> int option \<Rightarrow> int \<Rightarrow> notif_world \<Rightarrow> ((int \<times> error_body) + ustring) \<times> notif_world" where
  "post_dismiss up u pathId now w =
     (case (if up 0 then pathId else None) of
        None \<Rightarrow> (Inl (error_reply 500 ''INTERNAL_SERVER_ERROR'' [0xC54C, 0xB9BC, 0x20, 0xB2EB, 0xAE30,
           0xC5D0, 0x20, 0xC2E4, 0xD328, 0xD588, 0xC2B5, 0xB2C8, 0xB2E4, 0x2E]), w)
      | Some i \<Rightarrow>
          let hit = (\<lambda>n. nf_id n = i \<and> nf_user n = u \<and> \<not> nf_dismissed n) in
          if \<not> list_ex hit (nw_rows w)
          then (Inl (error_reply 404 ''NOT_FOUND'' [0xC54C, 0xB9BC, 0xC744, 0x20, 0xCC3E, 0xC744, 0x20, 0xC218,
             0x20, 0xC5C6, 0xC2B5, 0xB2C8, 0xB2E4, 0x2E]), w)
          else (Inr [0xC54C, 0xB9BC, 0xC744, 0x20, 0xB2EB, 0xC558, 0xC2B5, 0xB2C8, 0xB2E4, 0x2E],
                emitUnreadCount (up 1) u
                  (w\<lparr>nw_rows := update_where hit
                      (\<lambda>n. n\<lparr>nf_dismissed := True, nf_dismissed_at := Some now\<rparr>) (nw_rows w)\<rparr>)))"

text \<open>
  \<open>DELETE /tasks/:taskId\<close>: two statements, not in one transaction.  The column \<open>id\<close> of its first
  statement is taken to be the \<open>task_id\<close> of all the others.
\<close>

definition archive_task :: "int \<Rightarrow> int \<Rightarrow> notif_world \<Rightarrow> notif_world" where
  "archive_task u i w =
     w\<lparr>nw_db := update_tasks (\<lambda>t. tk_id t = i \<and> tk_user t = u \<and> tk_status t \<noteq> S_ARCHIVED)
          (\<lambda>t. t\<lparr>tk_status := S_ARCHIVED\<rparr>) (nw_db w)\<rparr>"

definition dismiss_deleted :: "int \<Rightarrow> int \<Rightarrow> int \<Rightarrow> notif_world \<Rightarrow> notif_world" where
  "dismiss_deleted u i now w =
     w\<lparr>nw_rows := update_where (\<lambda>n. nf_task n = i \<and> nf_user n = u \<and> \<not> nf_dismissed n)
          (\<lambda>n. n\<lparr>nf_dismissed := True, nf_dismissed_at := Some now, nf_action := ACT_DELETED\<rparr>) (nw_rows w)\<rparr>"

definition delete_task ::
  "(nat \<Rightarrow> bool) \<Rightarrow> int \<Rightarrow> js_value_num \<Rightarrow> int \<Rightarrow> notif_world \<Rightarrow> ((int \<times> error_body) + ustring \<times> int) \<times> notif_world" where
  "delete_task up u pathId now w =
     (case pathId of
        JNaN \<Rightarrow> (Inl (error_reply 400 ''BAD_REQUEST'' [0x74, 0x61, 0x73, 0x6B, 0x49, 0x64, 0x20, 0xAC00,
           0x20, 0xC62C, 0xBC14, 0xB974, 0xC9C0, 0x20, 0xC54A, 0xC2B5, 0xB2C8, 0xB2E4, 0x2E]), w)
      | JNum x \<Rightarrow>
          let i = \<lfloor>x\<rfloor> in
          if \<not> up 0 \<or> x \<noteq> of_int i
          then (Inl (error_reply 500 ''INTERNAL_SERVER_ERROR'' [0xC791, 0xC5C5, 0x20, 0xC0AD, 0xC81C, 0xC5D0, 0x20,
             0xC2E4, 0xD328, 0xD588, 0xC2B5, 0xB2C8, 0xB2E4, 0x2E]), w)
          else if \<not> list_ex (\<lambda>t. tk_id t = i \<and> tk_user t = u \<and> tk_status t \<noteq> S_ARCHIVED) (db_tasks (nw_db w))
          then (Inl (error_reply 404 ''NOT_FOUND'' [0xC791, 0xC5C5, 0xC744, 0x20, 0xCC3E, 0xC744, 0x20, 0xC218,
             0x20, 0xC5C6, 0xC2B5, 0xB2C8, 0xB2E4, 0x2E]), w)
          else if \<not> up 1
          then (Inl (error_reply 500 ''INTERNAL_SERVER_ERROR'' [0xC791, 0xC5C5, 0x20, 0xC0AD, 0xC81C, 0xC5D0, 0x20,
             0xC2E4, 0xD328, 0xD588, 0xC2B5, 0xB2C8, 0xB2E4, 0x2E]), archive_task u i w)
          else (Inr ([0xC791, 0xC5C5, 0xC744, 0x20, 0xC0AD, 0xC81C, 0x28, 0xBCF4, 0xAD00, 0x29, 0xD588, 0xC2B5, 0xB2C8, 0xB2E4, 0x2E], i),
                emitUnreadCount (up 2) u (dismiss_deleted u i now (archive_task u i w))))"

end
