(* ===== verification/Overdue_Scan.thy ===== *)
theory Overdue_Scan
  imports Notification_Server
begin

text \<open>
  The nightly scan for overdue tasks, \<open>queue/overdueNotificationScheduler.ts\<close>: it reads the open tasks
  with a past deadline page by page, and inserts or refreshes the notification of each for the day.
\<close>

subsection \<open>The scan\<close>

definition BATCH_SIZE :: nat where "BATCH_SIZE = 500"

text \<open>
  What the scan depends on besides the tables: the zone of the server and of the calendar days, the
  instant it runs at, for which tasks the upsert succeeds, for which users the unread count can be
  read, and the database's clock at the upsert of each task, in microseconds.
\<close>

record scan_env =
  se_local :: zone
  se_zone :: zone
  se_now :: int
  se_upsert :: "int \<Rightarrow> bool"
  se_count :: "int \<Rightarrow> bool"
  se_stamp :: "int \<Rightarrow> int"

record scan_result =
  sr_scanned :: nat
  sr_created :: nat
  sr_skipped :: nat
  sr_failed :: nat

definition no_results :: scan_result where
  "no_results = \<lparr>sr_scanned = 0, sr_created = 0, sr_skipped = 0, sr_failed = 0\<rparr>"

definition service_date :: "scan_env \<Rightarrow> string" where
  "service_date e = toServiceDate (se_local e) (se_now e) (Some (se_zone e))"

definition eligible :: "int \<Rightarrow> task_row \<Rightarrow> bool" where
  "eligible now t \<longleftrightarrow> open_status (tk_status t) \<and> (case tk_deadline t of None \<Rightarrow> False | Some d \<Rightarrow> d < now)"

definition fetch_batch :: "int \<Rightarrow> int \<Rightarrow> server_db \<Rightarrow> task_row list" where
  "fetch_batch now cursor db =
     take BATCH_SIZE (sort_key tk_id (filter (\<lambda>t. eligible now t \<and> cursor < tk_id t) (db_tasks db)))"

text \<open>The upsert; its flag tells whether a row was inserted.\<close>

definition same_day :: "int \<Rightarrow> string \<Rightarrow> notif_row \<Rightarrow> bool" where
  "same_day i d n \<longleftrightarrow> nf_task n = i \<and> nf_date n = d"

definition upsert_notification ::
  "task_row \<Rightarrow> built_notification \<Rightarrow> int \<Rightarrow> string \<Rightarrow> int \<Rightarrow> notif_world \<Rightarrow> (payload \<times> bool) \<times> notif_world" where
  "upsert_notification t b days date stamp w =
     (case List.find (same_day (tk_id t) date) (nw_rows w) of
        Some n \<Rightarrow>
          ((\<lparr>np_id = nf_id n, np_task = nf_task n, np_user = nf_user n, np_type = bn_type b, np_days = days,
             np_message = bn_message b, np_created = nf_created n div 1000\<rparr>, False),
           w\<lparr>nw_rows := update_where (same_day (tk_id t) date)
               (\<lambda>n. n\<lparr>nf_type := bn_type b, nf_days := days, nf_message := bn_message b\<rparr>) (nw_rows w)\<rparr>)
      | None \<Rightarrow>
          ((\<lparr>np_id = nw_next w, np_task = tk_id t, np_user = tk_user t, np_type = bn_type b, np_days = days,
             np_message = bn_message b, np_created = stamp div 1000\<rparr>, True),
           w\<lparr>nw_rows := nw_rows w @ [\<lparr>nf_id = nw_next w, nf_task = tk_id t, nf_user = tk_user t,
                nf_type = bn_type b, nf_days = days, nf_message = bn_message b, nf_read = False,
                nf_dismissed = False, nf_action = ACT_NONE, nf_date = date, nf_created = stamp,
                nf_read_at = None, nf_dismissed_at = None\<rparr>],
             nw_next := nw_next w + 1\<rparr>))"

text \<open>
  One task.  A day distance that is no number would be refused by the database, and counts as a
  failure like a refused upsert.
\<close>

definition overdue_days :: "scan_env \<Rightarrow> task_row \<Rightarrow> int option" where
  "overdue_days e t =
     (case tk_deadline t of
        None \<Rightarrow> None
      | Some d \<Rightarrow> computeOverdueDays (se_local e) d (se_now e) (Some (se_zone e)))"

definition scan_task :: "scan_env \<Rightarrow> notif_world \<times> scan_result \<Rightarrow> task_row \<Rightarrow> notif_world \<times> scan_result" where
  "scan_task e s t =
     (let w = fst s; r = snd s\<lparr>sr_scanned := sr_scanned (snd s) + 1\<rparr> in
      case overdue_days e t of
        None \<Rightarrow> (w, r\<lparr>sr_failed := sr_failed r + 1\<rparr>)
      | Some days \<Rightarrow>
          (case buildOverdueNotification (tk_title t) days of
             None \<Rightarrow> (w, r\<lparr>sr_skipped := sr_skipped r + 1\<rparr>)
           | Some b \<Rightarrow>
               if \<not> se_upsert e (tk_id t) then (w, r\<lparr>sr_failed := sr_failed r + 1\<rparr>)
               else (let u = upsert_notification t b days (service_date e) (se_stamp e (tk_id t)) w in
                 if snd (fst u)
                 then (dispatch (se_count e (tk_user t)) (tk_user t) (fst (fst u)) (snd u), r\<lparr>sr_created := sr_created r + 1\<rparr>)
                 else (snd u, r\<lparr>sr_skipped := sr_skipped r + 1\<rparr>))))"

text \<open>The loop over the pages, with fuel; it starts with cursor 0.\<close>

fun scan_loop :: "nat \<Rightarrow> scan_env \<Rightarrow> int \<Rightarrow> notif_world \<times> scan_result \<Rightarrow> (notif_world \<times> scan_result) option" where
  "scan_loop 0 e cursor s = None"
| "scan_loop (Suc k) e cursor s =
     (let rows = fetch_batch (se_now e) cursor (nw_db (fst s)) in
      if rows = [] then Some s
      else (let s' = foldl (scan_task e) s rows in
        if length rows < BATCH_SIZE then Some s' else scan_loop k e (tk_id (last rows)) s'))"

definition runDailyScan :: "scan_env \<Rightarrow> notif_world \<Rightarrow> (notif_world \<times> scan_result) option" where
  "runDailyScan e w = scan_loop (length (db_tasks (nw_db w)) + 1) e 0 (w, no_results)"

subsection \<open>The pages are one pass\<close>

text \<open>The tasks of a scan, in the order it visits them.\<close>

definition scanned_tasks :: "scan_env \<Rightarrow> server_db \<Rightarrow> task_row list" where
  "scanned_tasks e db = sort_key tk_id (filter (\<lambda>t. eligible (se_now e) t \<and> 0 < tk_id t) (db_tasks db))"

interpretation by_id: keyset "\<lambda>c t. c < tk_id t" tk_id
  by unfold_locales auto

lemma scan_task_db [simp]: "nw_db (fst (scan_task e s t)) = nw_db (fst s)"
  by (simp add: scan_task_def Let_def dispatch_def emitUnreadCount_def upsert_notification_def split: option.splits)

lemma scan_tasks_db [simp]: "nw_db (fst (foldl (scan_task e) s ts)) = nw_db (fst s)"
  by (induction ts arbitrary: s) simp_all

lemma distinct_map_sort: "distinct (map f xs) \<Longrightarrow> distinct (map f (sort_key f xs))"
  by (simp add: distinct_map)

lemma ordered_by_id:
  assumes "distinct (map tk_id ts)"
  shows "by_id.ordered (sort_key tk_id ts)"
proof -
  have "sorted (map tk_id (sort_key tk_id ts))" by simp
  moreover have "distinct (map tk_id (sort_key tk_id ts))" using assms by (rule distinct_map_sort)
  ultimately have "sorted_wrt (<) (map tk_id (sort_key tk_id ts))" by (simp add: strict_sorted_iff)
  then show ?thesis by (simp add: by_id.ordered_def sorted_wrt_map)
qed

lemma fetch_is_page:
  assumes "0 \<le> c"
  shows "fetch_batch (se_now e) c db = take BATCH_SIZE (filter (\<lambda>t. c < tk_id t) (scanned_tasks e db))"
proof -
  have "filter (\<lambda>t. c < tk_id t) (scanned_tasks e db)
      = sort_key tk_id (filter (\<lambda>t. c < tk_id t) (filter (\<lambda>t. eligible (se_now e) t \<and> 0 < tk_id t) (db_tasks db)))"
    by (simp only: scanned_tasks_def filter_sort)
  also have "filter (\<lambda>t. c < tk_id t) (filter (\<lambda>t. eligible (se_now e) t \<and> 0 < tk_id t) (db_tasks db))
      = filter (\<lambda>t. eligible (se_now e) t \<and> c < tk_id t) (db_tasks db)"
    using assms by (auto intro: filter_cong)
  finally show ?thesis by (simp add: fetch_batch_def)
qed

lemma scan_loop_pages:
  assumes "0 \<le> c"
  shows "scan_loop k e c s
    = map_option (foldl (scan_task e) s) (by_id.pages k (scanned_tasks e (nw_db (fst s))) BATCH_SIZE (Some c))"
  using assms
proof (induction k arbitrary: c s)
  case (Suc k)
  let ?rows = "fetch_batch (se_now e) c (nw_db (fst s))"
  have rows: "?rows = take BATCH_SIZE (filter (\<lambda>t. c < tk_id t) (scanned_tasks e (nw_db (fst s))))"
    by (rule fetch_is_page [OF Suc.prems])
  show ?case
  proof (cases "?rows = []")
    case True
    then show ?thesis by (simp add: Let_def flip: rows) (simp add: BATCH_SIZE_def)
  next
    case False
    then have "last ?rows \<in> set ?rows" by simp
    then have "0 \<le> tk_id (last ?rows)"
      using Suc.prems unfolding rows by (auto dest!: in_set_takeD)
    from Suc.IH [OF this, of "foldl (scan_task e) s ?rows"] False show ?thesis
      by (simp add: Let_def option.map_comp comp_def flip: rows)
  qed
qed simp

lemma filter_scanned: "filter (\<lambda>t. 0 < tk_id t) (scanned_tasks e db) = scanned_tasks e db"
  by (rule filter_True) (simp add: scanned_tasks_def)

lemma runDailyScan_eq:
  assumes "distinct (map tk_id (db_tasks (nw_db w)))"
  shows "runDailyScan e w = Some (foldl (scan_task e) (w, no_results) (scanned_tasks e (nw_db w)))"
proof -
  let ?S = "scanned_tasks e (nw_db w)"
  have "by_id.ordered ?S"
    unfolding scanned_tasks_def using assms by (intro ordered_by_id distinct_map_filter)
  moreover have "length ?S < length (db_tasks (nw_db w)) + 1"
    by (simp add: scanned_tasks_def less_Suc_eq_le)
  ultimately have "by_id.pages (length (db_tasks (nw_db w)) + 1) ?S BATCH_SIZE (Some 0) = Some ?S"
    using by_id.pages_from [of ?S BATCH_SIZE 0 "length (db_tasks (nw_db w)) + 1"]
    by (simp add: filter_scanned BATCH_SIZE_def)
  then show ?thesis by (simp add: runDailyScan_def scan_loop_pages del: by_id.pages.simps scan_loop.simps)
qed

subsection \<open>What one task changes\<close>

text \<open>The distance and the notification that a task is due for, if any.\<close>

definition due :: "scan_env \<Rightarrow> task_row \<Rightarrow> (int \<times> built_notification) option" where
  "due e t =
     (case overdue_days e t of
        None \<Rightarrow> None
      | Some d \<Rightarrow> map_option (Pair d) (buildOverdueNotification (tk_title t) d))"

definition notified :: "notif_world \<Rightarrow> string \<Rightarrow> task_row \<Rightarrow> bool" where
  "notified w d t \<longleftrightarrow> (\<exists>n \<in> set (nw_rows w). same_day (tk_id t) d n)"

definition day_unique :: "notif_world \<Rightarrow> bool" where
  "day_unique w \<longleftrightarrow> distinct (map (\<lambda>n. (nf_task n, nf_date n)) (nw_rows w))"

lemma due_iff: "due e t = Some (d, b) \<longleftrightarrow>
    overdue_days e t = Some d \<and> 1 \<le> d \<and> b = \<lparr>bn_message = generateNotificationMessage (tk_title t) d, bn_type = notificationTypeFor d\<rparr>"
  by (auto simp: due_def buildOverdueNotification_def split: option.splits)

lemma find_same_day: "List.find (same_day i d) rows = None \<longleftrightarrow> (\<forall>n \<in> set rows. \<not> same_day i d n)"
  by (auto simp: find_None_iff)

lemma dispatch_rows [simp]: "nw_rows (dispatch up u p w) = nw_rows w" "nw_next (dispatch up u p w) = nw_next w"
  by (simp_all add: dispatch_def emitUnreadCount_def)

text \<open>What is not due, or is refused, leaves the tables alone.\<close>

lemma scan_task_idle:
  assumes "due e t = None \<or> \<not> se_upsert e (tk_id t)"
  shows "fst (scan_task e s t) = fst s"
  using assms by (auto simp: scan_task_def due_def Let_def split: option.splits)

lemma scan_task_counts:
  "sr_scanned (snd (scan_task e s t)) = sr_scanned (snd s) + 1"
  "sr_created (snd (scan_task e s t)) + sr_skipped (snd (scan_task e s t)) + sr_failed (snd (scan_task e s t))
     = sr_created (snd s) + sr_skipped (snd s) + sr_failed (snd s) + 1"
  by (simp_all add: scan_task_def Let_def split: option.splits)

lemma scan_counts:
  "sr_scanned (snd (foldl (scan_task e) s ts)) = sr_scanned (snd s) + length ts
   \<and> sr_created (snd (foldl (scan_task e) s ts)) + sr_skipped (snd (foldl (scan_task e) s ts))
       + sr_failed (snd (foldl (scan_task e) s ts))
     = sr_created (snd s) + sr_skipped (snd s) + sr_failed (snd s) + length ts"
  by (induction ts arbitrary: s) (simp_all add: scan_task_counts)

text \<open>A task that is due gets, or already has, its one row of the day.\<close>

lemma scan_task_rows:
  assumes "due e t = Some (d, b)" and "se_upsert e (tk_id t)" and "w = fst s"
  shows "nw_rows (fst (scan_task e s t)) =
    (if notified w (service_date e) t
     then update_where (same_day (tk_id t) (service_date e))
            (\<lambda>n. n\<lparr>nf_type := bn_type b, nf_days := d, nf_message := bn_message b\<rparr>) (nw_rows w)
     else nw_rows w @ [\<lparr>nf_id = nw_next w, nf_task = tk_id t, nf_user = tk_user t,
                nf_type = bn_type b, nf_days = d, nf_message = bn_message b, nf_read = False,
                nf_dismissed = False, nf_action = ACT_NONE, nf_date = service_date e,
                nf_created = se_stamp e (tk_id t), nf_read_at = None, nf_dismissed_at = None\<rparr>])"
proof (cases "List.find (same_day (tk_id t) (service_date e)) (nw_rows w)")
  case None
  then have "\<not> notified w (service_date e) t" by (simp add: find_same_day notified_def)
  then show ?thesis using assms None
    by (auto simp: scan_task_def due_def Let_def upsert_notification_def split: option.splits)
next
  case (Some n)
  then have "notified w (service_date e) t" using find_same_day by (metis notified_def option.distinct(1))
  then show ?thesis using assms Some
    by (auto simp: scan_task_def due_def Let_def upsert_notification_def split: option.splits)
qed

lemma scan_task_keys:
  "set (map (\<lambda>n. (nf_task n, nf_date n)) (nw_rows (fst (scan_task e s t))))
     \<supseteq> set (map (\<lambda>n. (nf_task n, nf_date n)) (nw_rows (fst s)))"
proof (cases "due e t")
  case None
  then show ?thesis by (simp add: scan_task_idle)
next
  case (Some db)
  obtain d b where "db = (d, b)" by (cases db)
  with Some have du: "due e t = Some (d, b)" by simp
  show ?thesis
  proof (cases "se_upsert e (tk_id t)")
    case True
    have m: "map (\<lambda>n. (nf_task n, nf_date n)) (update_where P (\<lambda>n. n\<lparr>nf_type := bn_type b, nf_days := d, nf_message := bn_message b\<rparr>) rows)
        = map (\<lambda>n. (nf_task n, nf_date n)) rows" for P and rows :: "notif_row list"
      by (rule map_update_where) simp
    show ?thesis unfolding scan_task_rows [OF du True refl] by (auto simp: m simp del: set_map)
  qed (simp add: scan_task_idle)
qed

lemma notified_iff: "notified w d t \<longleftrightarrow> (tk_id t, d) \<in> set (map (\<lambda>n. (nf_task n, nf_date n)) (nw_rows w))"
  by (force simp: notified_def same_day_def)

lemma scan_keeps_notified: "notified (fst s) d t \<Longrightarrow> notified (fst (foldl (scan_task e) s ts)) d t"
proof (induction ts arbitrary: s)
  case (Cons x ts)
  have "notified (fst (scan_task e s x)) d t" using Cons.prems scan_task_keys unfolding notified_iff by blast
  then show ?case using Cons.IH by simp
qed simp

lemma scan_task_notifies:
  assumes "due e t \<noteq> None" and "se_upsert e (tk_id t)"
  shows "notified (fst (scan_task e s t)) (service_date e) t"
proof -
  obtain d b where du: "due e t = Some (d, b)" using assms(1) by auto
  show ?thesis
  proof (cases "notified (fst s) (service_date e) t")
    case True
    then show ?thesis using scan_task_keys unfolding notified_iff by blast
  next
    case False
    then show ?thesis unfolding notified_iff scan_task_rows [OF du assms(2) refl] by simp
  qed
qed

lemma scan_notifies:
  assumes "t \<in> set ts" and "due e t \<noteq> None" and "se_upsert e (tk_id t)"
  shows "notified (fst (foldl (scan_task e) s ts)) (service_date e) t"
  using assms(1)
proof (induction ts arbitrary: s)
  case (Cons x ts)
  show ?case
  proof (cases "t = x")
    case True
    then show ?thesis using scan_keeps_notified [OF scan_task_notifies [OF assms(2,3)]] by simp
  qed (use Cons in auto)
qed simp

subsection \<open>One pass\<close>

text \<open>
  C4. The scan ends: with as many pages as there are tasks at most it has visited every open task with a
  past deadline exactly once, in the order of the ids, as one pass over all of them would; each visited
  task is counted as created, skipped or failed, and the tasks themselves stay as they are.
\<close>

theorem scan_is_one_pass:
  assumes "distinct (map tk_id (db_tasks (nw_db w)))"
  shows "\<exists>w' r. runDailyScan e w = Some (w', r)
    \<and> (w', r) = foldl (scan_task e) (w, no_results) (scanned_tasks e (nw_db w))
    \<and> sr_scanned r = length (filter (\<lambda>t. eligible (se_now e) t \<and> 0 < tk_id t) (db_tasks (nw_db w)))
    \<and> sr_scanned r = sr_created r + sr_skipped r + sr_failed r
    \<and> nw_db w' = nw_db w"
proof -
  let ?f = "foldl (scan_task e) (w, no_results) (scanned_tasks e (nw_db w))"
  obtain w' r where f: "?f = (w', r)" by (cases ?f)
  have "length (scanned_tasks e (nw_db w)) = length (filter (\<lambda>t. eligible (se_now e) t \<and> 0 < tk_id t) (db_tasks (nw_db w)))"
    by (simp add: scanned_tasks_def)
  moreover have "nw_db w' = nw_db w" using scan_tasks_db [of e "(w, no_results)"] f by (metis fst_conv)
  ultimately show ?thesis
    using runDailyScan_eq [OF assms, of e] scan_counts [of e "(w, no_results)" "scanned_tasks e (nw_db w)"] f
    by (simp add: no_results_def)
qed

text \<open>Two tasks that the scan of an empty database's server meets, one of them closed.\<close>

definition late_task :: "int \<Rightarrow> raw_status \<Rightarrow> task_row" where
  "late_task i st = \<lparr>tk_id = i, tk_user = 1, tk_title = [0x41], tk_status = st, tk_timer = ST_IDLE,
     tk_timer_started = None, tk_estimated = None, tk_elapsed = None, tk_scheduled = ''1970-01-01'',
     tk_deadline = Some (- 1), tk_completed_at = None, tk_priority = False, tk_deferred = False,
     tk_deferred_count = 0, tk_created_at = 0\<rparr>"

definition late_world :: notif_world where
  "late_world = \<lparr>nw_db = \<lparr>db_tasks = [late_task 2 S_PENDING, late_task 1 S_COMPLETED], db_next_task = 3,
      db_available = [], db_refunds = []\<rparr>, nw_rows = [], nw_next = 1, nw_badge = Map.empty, nw_sent = []\<rparr>"

definition scan_at :: "int \<Rightarrow> scan_env" where
  "scan_at now = \<lparr>se_local = fixed_zone 0, se_zone = fixed_zone 0, se_now = now, se_upsert = (\<lambda>_. True),
     se_count = (\<lambda>_. True), se_stamp = (\<lambda>i. now * 1000 + i)\<rparr>"

lemma scan_is_one_pass_witness:
  "\<exists>w' r. runDailyScan (scan_at 5) late_world = Some (w', r) \<and> sr_scanned r = 1"
  using scan_is_one_pass [of late_world "scan_at 5"]
  by (auto simp: late_world_def late_task_def scan_at_def eligible_def open_status_def)

subsection \<open>Scanning again\<close>

text \<open>What a user has done with the notifications, which a scan must not touch.\<close>

definition kept :: "notif_row \<Rightarrow> int \<times> int \<times> int \<times> bool \<times> bool \<times> notif_action \<times> int" where
  "kept n = (nf_id n, nf_task n, nf_user n, nf_read n, nf_dismissed n, nf_action n, nf_created n)"

lemma rescan_task:
  assumes "due e t \<noteq> None \<longrightarrow> notified (fst s) (service_date e) t"
  shows "map kept (nw_rows (fst (scan_task e s t))) = map kept (nw_rows (fst s))
    \<and> nw_sent (fst (scan_task e s t)) = nw_sent (fst s)
    \<and> sr_created (snd (scan_task e s t)) = sr_created (snd s)"
proof (cases "due e t \<noteq> None \<and> se_upsert e (tk_id t)")
  case False
  then have "fst (scan_task e s t) = fst s" by (auto intro: scan_task_idle)
  moreover have "sr_created (snd (scan_task e s t)) = sr_created (snd s)"
    using False by (auto simp: scan_task_def due_def Let_def split: option.splits)
  ultimately show ?thesis by simp
next
  case True
  then obtain d b where du: "due e t = Some (d, b)" by auto
  have n: "notified (fst s) (service_date e) t" using assms True by simp
  then obtain n where f: "List.find (same_day (tk_id t) (service_date e)) (nw_rows (fst s)) = Some n"
    using find_same_day by (metis notified_def not_None_eq)
  have "map kept (nw_rows (fst (scan_task e s t))) = map kept (nw_rows (fst s))"
    using True n unfolding scan_task_rows [OF du conjunct2 [OF True] refl]
    by (simp add: map_update_where kept_def)
  then show ?thesis using du f True
    by (auto simp: scan_task_def due_def Let_def upsert_notification_def split: option.splits)
qed

lemma rescan_tasks:
  assumes "\<forall>t \<in> set ts. due e t \<noteq> None \<longrightarrow> notified (fst s) (service_date e) t"
  shows "map kept (nw_rows (fst (foldl (scan_task e) s ts))) = map kept (nw_rows (fst s))
    \<and> nw_sent (fst (foldl (scan_task e) s ts)) = nw_sent (fst s)
    \<and> sr_created (snd (foldl (scan_task e) s ts)) = sr_created (snd s)"
  using assms
proof (induction ts arbitrary: s)
  case (Cons t ts)
  have "\<forall>x \<in> set ts. due e x \<noteq> None \<longrightarrow> notified (fst (scan_task e s t)) (service_date e) x"
    using Cons.prems scan_keeps_notified [of s _ _ e "[t]"] by simp
  from Cons.IH [OF this] show ?case using rescan_task [of e t s] Cons.prems by simp
qed simp

text \<open>On a clock that is never set back, a task due later on the same day was due before.\<close>

lemma due_earlier:
  assumes z: "se_zone e' = se_zone e" "\<forall>a b. a \<le> b \<longrightarrow> toLocal (se_zone e) a \<le> toLocal (se_zone e) b"
    and day: "service_date e' = service_date e" "se_now e \<le> se_now e'"
    and y: "100 \<le> getFullYear (se_zone e) (se_now e)" "100 \<le> getFullYear (se_zone e) (se_now e')"
    and t: "eligible (se_now e') t" "due e' t \<noteq> None"
  shows "eligible (se_now e) t \<and> due e t \<noteq> None"
proof -
  let ?z = "se_zone e"
  obtain d where d: "tk_deadline t = Some d" "d < se_now e'" using t(1) by (auto simp: eligible_def split: option.splits)
  have key: "dateKeyInTZ ?z (se_now e') = dateKeyInTZ ?z (se_now e)"
    using day(1) z(1) by (simp add: service_date_def toServiceDate_def)
  then have days: "overdue_days e' t = overdue_days e t"
    using z(1) by (simp add: overdue_days_def d computeOverdueDays_def)
  have "d < se_now e"
  proof (rule ccontr)
    assume "\<not> d < se_now e"
    then have le: "se_now e \<le> d" "d \<le> se_now e'" using d(2) by simp_all
    have "local_day ?z (se_now e) = local_day ?z (se_now e')"
      using epochDay_key [OF y(1)] epochDay_key [OF y(2)] key by simp
    moreover have "local_day ?z (se_now e) \<le> local_day ?z d" "local_day ?z d \<le> local_day ?z (se_now e')"
      using z(2) le by (simp_all add: local_day_def zdiv_mono1 day_ms_def)
    ultimately have "local_day ?z d = local_day ?z (se_now e)" by simp
    then have "dateKeyInTZ ?z d = dateKeyInTZ ?z (se_now e)"
      by (simp add: dateKeyInTZ_def getFullYear_def getMonth_def getDate_def)
    then have "overdue_days e t = Some 0"
      using epochDay_key [OF y(1)] by (simp add: overdue_days_def d computeOverdueDays_def)
    then show False using t(2) days by (simp add: due_def buildOverdueNotification_def)
  qed
  then show ?thesis using t d days by (simp add: eligible_def due_def)
qed

text \<open>
  A second scan on the same day creates nothing and pushes nothing, and it leaves what the users did
  in the meantime alone: after a scan whose upserts all succeeded, whatever rows were read or dismissed
  since, no row's reader flags, id or time change.
\<close>

theorem second_scan_is_silent:
  assumes ids: "distinct (map tk_id (db_tasks (nw_db w)))"
    and ok: "\<forall>i. se_upsert e i" and first: "runDailyScan e w = Some (w1, r1)"
    and since: "nw_db w2 = nw_db w1"
      "set (map (\<lambda>n. (nf_task n, nf_date n)) (nw_rows w1)) \<subseteq> set (map (\<lambda>n. (nf_task n, nf_date n)) (nw_rows w2))"
    and z: "se_zone e' = se_zone e" "\<forall>a b. a \<le> b \<longrightarrow> toLocal (se_zone e) a \<le> toLocal (se_zone e) b"
    and day: "service_date e' = service_date e" "se_now e \<le> se_now e'"
    and y: "100 \<le> getFullYear (se_zone e) (se_now e)" "100 \<le> getFullYear (se_zone e) (se_now e')"
  shows "\<exists>w3 r3. runDailyScan e' w2 = Some (w3, r3) \<and> sr_created r3 = 0
    \<and> nw_sent w3 = nw_sent w2 \<and> map kept (nw_rows w3) = map kept (nw_rows w2)"
proof -
  let ?ts = "scanned_tasks e (nw_db w)" and ?ts' = "scanned_tasks e' (nw_db w2)"
  have w1: "foldl (scan_task e) (w, no_results) ?ts = (w1, r1)" using runDailyScan_eq [OF ids, of e] first by simp
  then have db: "nw_db w1 = nw_db w" using scan_tasks_db [of e "(w, no_results)" ?ts] by simp
  have "\<forall>t \<in> set ?ts'. due e' t \<noteq> None \<longrightarrow> notified w2 (service_date e') t"
  proof (intro ballI impI)
    fix t assume t: "t \<in> set ?ts'" "due e' t \<noteq> None"
    then have "eligible (se_now e) t \<and> due e t \<noteq> None"
      using due_earlier [OF z day y, of t] by (simp add: scanned_tasks_def)
    moreover have "t \<in> set (db_tasks (nw_db w))" "0 < tk_id t" using t(1) since(1) db by (simp_all add: scanned_tasks_def)
    ultimately have "notified w1 (service_date e) t"
      using scan_notifies [of t ?ts e "(w, no_results)"] ok w1 by (simp add: scanned_tasks_def)
    then show "notified w2 (service_date e') t" using since(2) day(1) unfolding notified_iff by auto
  qed
  with rescan_tasks [of ?ts' e' "(w2, no_results)"] runDailyScan_eq [of w2 e'] ids since(1) db
  show ?thesis by (cases "foldl (scan_task e') (w2, no_results) ?ts'") (simp add: no_results_def)
qed

lemma epoch_morning: "getFullYear (fixed_zone 0) 5 = 1970" "getFullYear (fixed_zone 0) 7 = 1970"
  "dateKeyInTZ (fixed_zone 0) 7 = dateKeyInTZ (fixed_zone 0) 5"
proof -
  have "local_day (fixed_zone 0) 5 = local_day (fixed_zone 0) 0" "local_day (fixed_zone 0) 7 = local_day (fixed_zone 0) 0"
    by (simp_all add: local_day_def fixed_zone_def day_ms_def)
  then show "getFullYear (fixed_zone 0) 5 = 1970" "getFullYear (fixed_zone 0) 7 = 1970"
    "dateKeyInTZ (fixed_zone 0) 7 = dateKeyInTZ (fixed_zone 0) 5"
    using epoch_year(1) by (simp_all add: getFullYear_def getMonth_def getDate_def dateKeyInTZ_def)
qed

lemma fixed_mono: "a \<le> b \<Longrightarrow> toLocal (fixed_zone k) a \<le> toLocal (fixed_zone k) b"
  by (simp add: fixed_zone_def)

lemma second_scan_is_silent_witness:
  "\<exists>w1 r1 w3 r3. runDailyScan (scan_at 5) late_world = Some (w1, r1)
    \<and> runDailyScan (scan_at 7) w1 = Some (w3, r3) \<and> sr_created r3 = 0 \<and> nw_sent w3 = nw_sent w1"
proof -
  have ids: "distinct (map tk_id (db_tasks (nw_db late_world)))" by (simp add: late_world_def late_task_def)
  obtain w1 r1 where f: "runDailyScan (scan_at 5) late_world = Some (w1, r1)"
    using runDailyScan_eq [OF ids, of "scan_at 5"]
    by (cases "foldl (scan_task (scan_at 5)) (late_world, no_results) (scanned_tasks (scan_at 5) (nw_db late_world))") simp
  have "\<exists>w3 r3. runDailyScan (scan_at 7) w1 = Some (w3, r3) \<and> sr_created r3 = 0
      \<and> nw_sent w3 = nw_sent w1 \<and> map kept (nw_rows w3) = map kept (nw_rows w1)"
    by (rule second_scan_is_silent [OF ids _ f])
      (simp_all add: scan_at_def fixed_mono service_date_def toServiceDate_def epoch_morning)
  with f show ?thesis by blast
qed

subsection \<open>The notification of a task\<close>

text \<open>No task writes to the row of another; one row per task and day is kept.\<close>

lemma scan_task_other:
  assumes "tk_id t \<noteq> i"
  shows "filter (same_day i d) (nw_rows (fst (scan_task e s t))) = filter (same_day i d) (nw_rows (fst s))"
proof (cases "due e t \<noteq> None \<and> se_upsert e (tk_id t)")
  case True
  then obtain x b where du: "due e t = Some (x, b)" by auto
  have "filter (same_day i d) (update_where (same_day (tk_id t) (service_date e))
          (\<lambda>n. n\<lparr>nf_type := bn_type b, nf_days := x, nf_message := bn_message b\<rparr>) rows) = filter (same_day i d) rows" for rows
    using assms by (induction rows) (auto simp: update_where_def same_day_def)
  then show ?thesis using assms unfolding scan_task_rows [OF du conjunct2 [OF True] refl] by (simp add: same_day_def)
next
  case False
  then have "fst (scan_task e s t) = fst s" by (auto intro: scan_task_idle)
  then show ?thesis by simp
qed

lemma scan_others:
  "\<forall>t \<in> set ts. tk_id t \<noteq> i \<Longrightarrow>
     filter (same_day i d) (nw_rows (fst (foldl (scan_task e) s ts))) = filter (same_day i d) (nw_rows (fst s))"
  by (induction ts arbitrary: s) (simp_all add: scan_task_other)

lemma scan_task_own:
  assumes "due e t = Some (x, b)" and "se_upsert e (tk_id t)"
    and "length (filter (same_day (tk_id t) (service_date e)) (nw_rows (fst s))) \<le> 1"
  shows "\<exists>n. filter (same_day (tk_id t) (service_date e)) (nw_rows (fst (scan_task e s t))) = [n]
     \<and> nf_type n = bn_type b \<and> nf_days n = x \<and> nf_message n = bn_message b"
proof (cases "notified (fst s) (service_date e) t")
  case False
  then have "filter (same_day (tk_id t) (service_date e)) (nw_rows (fst s)) = []"
    by (auto simp: notified_def filter_empty_conv)
  with False show ?thesis unfolding scan_task_rows [OF assms(1,2) refl] by (simp add: same_day_def)
next
  case True
  let ?P = "same_day (tk_id t) (service_date e)"
  let ?h = "\<lambda>n. n\<lparr>nf_type := bn_type b, nf_days := x, nf_message := bn_message b\<rparr>"
  have u: "filter ?P (update_where ?P ?h rows) = map ?h (filter ?P rows)" for rows
    by (induction rows) (auto simp: update_where_def same_day_def)
  have "filter ?P (nw_rows (fst s)) \<noteq> []" using True by (auto simp: notified_def filter_empty_conv)
  then obtain n where "filter ?P (nw_rows (fst s)) = [n]"
    using assms(3) by (cases "filter ?P (nw_rows (fst s))") (auto simp: Suc_le_eq)
  with True u show ?thesis unfolding scan_task_rows [OF assms(1,2) refl] by simp
qed

text \<open>
  C32. Every open task whose deadline lies one calendar day or more back has, after the scan, exactly one
  notification of the day, with the type and the text of that many days, wherever it stands among the
  pages and whatever happened to the other tasks.
\<close>

theorem overdue_task_is_notified:
  assumes "distinct (map tk_id (db_tasks (nw_db w)))" and "t \<in> set (db_tasks (nw_db w))" and "0 < tk_id t"
    and "eligible (se_now e) t" and "overdue_days e t = Some x" and "1 \<le> x" and "se_upsert e (tk_id t)"
    and "length (filter (same_day (tk_id t) (service_date e)) (nw_rows w)) \<le> 1"
  shows "\<exists>w' r n. runDailyScan e w = Some (w', r)
    \<and> filter (same_day (tk_id t) (service_date e)) (nw_rows w') = [n]
    \<and> nf_type n = notificationTypeFor x \<and> nf_days n = x \<and> nf_message n = generateNotificationMessage (tk_title t) x"
proof -
  let ?S = "scanned_tasks e (nw_db w)" and ?P = "same_day (tk_id t) (service_date e)"
  have t: "t \<in> set ?S" using assms(2-4) by (simp add: scanned_tasks_def)
  then obtain A B where S: "?S = A @ t # B" by (meson split_list)
  have "distinct (map tk_id ?S)"
    unfolding scanned_tasks_def using assms(1) by (intro distinct_map_sort distinct_map_filter)
  then have o: "\<forall>y \<in> set A. tk_id y \<noteq> tk_id t" "\<forall>y \<in> set B. tk_id y \<noteq> tk_id t"
    by (auto simp: S image_iff)
  obtain b where du: "due e t = Some (x, b)" and b: "bn_type b = notificationTypeFor x"
      "bn_message b = generateNotificationMessage (tk_title t) x"
    using assms(5,6) due_iff [of e t x] by fastforce
  let ?a = "foldl (scan_task e) (w, no_results) A"
  have "filter ?P (nw_rows (fst ?a)) = filter ?P (nw_rows w)" using scan_others [OF o(1)] by simp
  then obtain n where "filter ?P (nw_rows (fst (scan_task e ?a t))) = [n]"
    and n: "nf_type n = bn_type b" "nf_days n = x" "nf_message n = bn_message b"
    using scan_task_own [OF du assms(7), of ?a] assms(8) by auto
  then have "filter ?P (nw_rows (fst (foldl (scan_task e) (w, no_results) ?S))) = [n]"
    using scan_others [OF o(2)] by (simp add: S)
  with n b runDailyScan_eq [OF assms(1), of e] show ?thesis
    by (cases "foldl (scan_task e) (w, no_results) ?S") auto
qed

lemma overdue_task_is_notified_witness:
  "\<exists>w' r n. runDailyScan (scan_at 5) late_world = Some (w', r)
     \<and> filter (same_day 2 (service_date (scan_at 5))) (nw_rows w') = [n] \<and> nf_type n = OVERDUE_1DAY"
proof -
  have "local_day (fixed_zone 0) 5 - local_day (fixed_zone 0) (- 1) = 1"
    by (simp add: local_day_def fixed_zone_def day_ms_def)
  then have "overdue_days (scan_at 5) (late_task 2 S_PENDING) = Some 1"
  proof -
    have "epochDayFromKey (dateKeyInTZ (fixed_zone 0) 5) = Some (local_day (fixed_zone 0) 5)"
      by (rule epochDay_key) (simp add: epoch_morning(1))
    moreover have "epochDayFromKey (dateKeyInTZ (fixed_zone 0) (- 1)) = Some (local_day (fixed_zone 0) (- 1))"
      by (rule epochDay_key) (simp add: epoch_year(2))
    ultimately show ?thesis using \<open>local_day (fixed_zone 0) 5 - local_day (fixed_zone 0) (- 1) = 1\<close>
      by (simp only: overdue_days_def late_task_def scan_at_def computeOverdueDays_def option.case prod.case
        task_row.simps scan_env.simps)
  qed
  moreover have "distinct (map tk_id (db_tasks (nw_db late_world)))" "late_task 2 S_PENDING \<in> set (db_tasks (nw_db late_world))"
    "nw_rows late_world = []" "tk_id (late_task 2 S_PENDING) = 2"
    by (simp_all add: late_world_def late_task_def)
  moreover have "eligible (se_now (scan_at 5)) (late_task 2 S_PENDING)" "se_upsert (scan_at 5) 2"
    by (simp_all add: late_task_def scan_at_def eligible_def open_status_def)
  moreover have "notificationTypeFor 1 = OVERDUE_1DAY" by (simp add: notificationTypeFor_def)
  ultimately show ?thesis
    using overdue_task_is_notified [of late_world "late_task 2 S_PENDING" "scan_at 5" 1] by fastforce
qed

end
