(* ===== verification/Notification_Routes.thy ===== *)
theory Notification_Routes
  imports Overdue_Scan
begin

text \<open>
  The theorems on the routes and the dispatcher of the notification server: paging through the list,
  the truth of the badge, the separation of the users, and a deletion that fails half way.
\<close>

subsection \<open>Paging through the list\<close>

text \<open>A reader that follows \<open>nextCursor\<close> to the end, with fuel for the number of pages.\<close>

fun read_pages :: "nat \<Rightarrow> int \<Rightarrow> js_value_num option \<Rightarrow> notif_world \<Rightarrow> cursor_text \<Rightarrow> notif_row list option" where
  "read_pages 0 u limit w cursor = None"
| "read_pages (Suc k) u limit w cursor =
     (case get_notifications (\<lambda>_. True) u \<lparr>lp_user = None, lp_unread = None, lp_cursor = cursor, lp_limit = limit\<rparr> w of
        Inl _ \<Rightarrow> None
      | Inr p \<Rightarrow>
          (case lr_next p of
             None \<Rightarrow> Some (lr_rows p)
           | Some c \<Rightarrow> map_option ((@) (lr_rows p)) (read_pages k u limit w (Iso_cursor c))))"

definition listed :: "int \<Rightarrow> notif_world \<Rightarrow> notif_row list" where
  "listed u w = sort_key (\<lambda>n. - nf_created n) (filter (\<lambda>n. nf_user n = u \<and> \<not> nf_dismissed n) (nw_rows w))"

interpretation by_created: keyset "\<lambda>c (n :: notif_row). nf_created n < c * 1000" "\<lambda>n. nf_created n div 1000"
proof unfold_locales
  fix x :: notif_row
  show "\<not> nf_created x < nf_created x div 1000 * 1000"
    using div_mult_mod_eq [of "nf_created x" 1000] pos_mod_bound [of 1000 "nf_created x"] pos_mod_sign [of 1000 "nf_created x"]
    by linarith
next
  fix c :: int and x y :: notif_row
  assume "nf_created x < c * 1000" "nf_created y < nf_created x div 1000 * 1000"
  then show "nf_created y < c * 1000"
    using div_mult_mod_eq [of "nf_created x" 1000] pos_mod_sign [of 1000 "nf_created x"] by linarith
qed

lemma earlier_ms: "a \<le> b \<Longrightarrow> a div 1000 \<noteq> b div 1000 \<Longrightarrow> a < b div 1000 * (1000::int)"
  using zdiv_mono1 [of a b 1000] div_mult_mod_eq [of a 1000] pos_mod_bound [of 1000 a] by linarith

lemma ordered_by_time:
  "sorted_wrt (\<lambda>x y. nf_created y \<le> nf_created x) ns \<Longrightarrow> distinct (map (\<lambda>n. nf_created n div 1000) ns)
   \<Longrightarrow> by_created.ordered ns"
proof (induction ns)
  case (Cons n ns)
  have "\<forall>y \<in> set ns. nf_created y < nf_created n div 1000 * 1000"
  proof
    fix y assume y: "y \<in> set ns"
    have "nf_created y \<le> nf_created n" using Cons.prems(1) y by simp
    moreover have "nf_created y div 1000 \<noteq> nf_created n div 1000" using Cons.prems(2) y by (auto simp: image_iff)
    ultimately show "nf_created y < nf_created n div 1000 * 1000" by (rule earlier_ms)
  qed
  then show ?case using Cons by (simp add: by_created.ordered_def)
qed (simp add: by_created.ordered_def)

lemma listed_ordered:
  assumes "distinct (map (\<lambda>n. nf_created n div 1000) (filter (\<lambda>n. nf_user n = u \<and> \<not> nf_dismissed n) (nw_rows w)))"
  shows "by_created.ordered (listed u w)"
proof (rule ordered_by_time)
  have "sorted_wrt (\<lambda>x y. - nf_created x \<le> - nf_created y) (listed u w)"
    unfolding listed_def using sorted_sort_key [of "\<lambda>n. - nf_created n"] by (simp only: sorted_map)
  then show "sorted_wrt (\<lambda>x y. nf_created y \<le> nf_created x) (listed u w)" by simp
  show "distinct (map (\<lambda>n. nf_created n div 1000) (listed u w))"
    unfolding listed_def using assms by (simp add: distinct_map)
qed

lemma clamp_bounds: "1 \<le> clamp_limit l \<and> clamp_limit l \<le> 100"
  by (simp add: clamp_limit_def MAX_LIMIT_def Let_def)

text \<open>A page of the list is a page of the key set.\<close>

definition cursor_of :: "int option \<Rightarrow> cursor_text" where
  "cursor_of c = (case c of None \<Rightarrow> No_cursor | Some i \<Rightarrow> Iso_cursor i)"

lemma list_page:
  assumes "clamp_limit limit = of_nat n"
  shows "get_notifications (\<lambda>_. True) u \<lparr>lp_user = None, lp_unread = None, lp_cursor = cursor_of c, lp_limit = limit\<rparr> w
    = (let rows = take n (case c of None \<Rightarrow> listed u w | Some c \<Rightarrow> filter (\<lambda>x. nf_created x < c * 1000) (listed u w)) in
       Inr \<lparr>lr_rows = rows, lr_unread = countUnread w u,
            lr_next = (if length rows < n then None else Some (nf_created (last rows) div 1000))\<rparr>)"
proof -
  have f: "filter (\<lambda>x. nf_created x < i * 1000) (filter (\<lambda>n. nf_user n = u \<and> \<not> nf_dismissed n) rs)
      = filter (\<lambda>n. nf_user n = u \<and> \<not> nf_dismissed n \<and> nf_created n < i * 1000) rs" for i and rs :: "notif_row list"
    by (auto intro: filter_cong)
  show ?thesis using assms
    by (cases c) (simp_all add: get_notifications_def buildNotificationsListQuery_def run_query_def cursor_of_def
        listed_def nextCursorOf_def Let_def filter_sort f)
qed

lemma read_pages_eq:
  assumes "clamp_limit limit = of_nat n"
  shows "read_pages k u limit w (cursor_of c) = by_created.pages k (listed u w) n c"
proof (induction k arbitrary: c)
  case (Suc k)
  have "Iso_cursor i = cursor_of (Some i)" for i by (simp add: cursor_of_def)
  with Suc show ?case by (simp add: list_page [OF assms] Let_def)
qed simp

text \<open>
  A reader that follows the cursors gets every notification of the user that is not dismissed exactly
  once, newest first, in finitely many pages, for every whole page size, as long as no two of them were
  created in the same millisecond.
\<close>

theorem list_pages_are_complete:
  assumes "distinct (map (\<lambda>n. nf_created n div 1000) (filter (\<lambda>n. nf_user n = u \<and> \<not> nf_dismissed n) (nw_rows w)))"
    and "clamp_limit limit = of_nat n"
  shows "read_pages (length (nw_rows w) + 1) u limit w No_cursor = Some (listed u w)"
proof -
  have "0 < n" using clamp_bounds [of limit] assms(2) by (cases n) auto
  moreover have "length (listed u w) < length (nw_rows w) + 1" by (simp add: listed_def less_Suc_eq_le)
  ultimately have "by_created.pages (length (nw_rows w) + 1) (listed u w) n None = Some (listed u w)"
    by (intro by_created.pages_all listed_ordered assms(1))
  then show ?thesis
    using read_pages_eq [OF assms(2), of "length (nw_rows w) + 1" u w None] by (simp only: cursor_of_def option.case)
qed

text \<open>Two notifications of one user, created at the given microseconds.\<close>

definition note_at :: "int \<Rightarrow> int \<Rightarrow> notif_row" where
  "note_at i us = \<lparr>nf_id = i, nf_task = i, nf_user = 1, nf_type = OVERDUE_1DAY, nf_days = 1, nf_message = [],
     nf_read = False, nf_dismissed = False, nf_action = ACT_NONE, nf_date = ''1970-01-01'', nf_created = us,
     nf_read_at = None, nf_dismissed_at = None\<rparr>"

definition two_notes :: "int \<Rightarrow> int \<Rightarrow> notif_world" where
  "two_notes a b = \<lparr>nw_db = empty_db, nw_rows = [note_at 1 a, note_at 2 b], nw_next = 3, nw_badge = Map.empty, nw_sent = []\<rparr>"

lemma list_pages_are_complete_witness:
  "read_pages 3 1 (Some (JNum 1)) (two_notes 2000 5000) No_cursor = Some [note_at 2 5000, note_at 1 2000]"
  using list_pages_are_complete [of 1 "two_notes 2000 5000" "Some (JNum 1)" 1]
  by (simp add: two_notes_def note_at_def clamp_limit_def MAX_LIMIT_def listed_def numeral_eq_Suc)

text \<open>
  Of two notifications created within one millisecond that fall on both sides of a page boundary, the
  older one is never listed: the driver cuts the cursor to milliseconds, and the next page starts before it.
\<close>

theorem same_millisecond_is_skipped:
  shows "read_pages (Suc k) 1 (Some (JNum 1)) (two_notes 1000400 1000500) No_cursor
    = (if k = 0 then None else Some [note_at 2 1000500])"
  by (cases k) (simp_all add: get_notifications_def buildNotificationsListQuery_def run_query_def nextCursorOf_def
      two_notes_def note_at_def clamp_limit_def MAX_LIMIT_def Let_def)

subsection \<open>The badge\<close>

text \<open>The requests of the routers, and the scan, as one sequence of operations.\<close>

datatype notif_request =
    Get_badge int
  | Post_read int "int option" int
  | Post_dismiss int "int option" int
  | Delete_task int js_value_num int
  | Scan scan_env

text \<open>\<open>up\<close> tells which queries the database answers; an unanswered request changes nothing more.\<close>

fun serve_notif :: "(nat \<Rightarrow> bool) \<Rightarrow> notif_world \<Rightarrow> notif_request \<Rightarrow> notif_world" where
  "serve_notif up w (Get_badge u) = snd (get_badge (up 0) u w)"
| "serve_notif up w (Post_read u i now) = snd (post_read up u i now w)"
| "serve_notif up w (Post_dismiss u i now) = snd (post_dismiss up u i now w)"
| "serve_notif up w (Delete_task u i now) = snd (delete_task up u i now w)"
| "serve_notif up w (Scan e) = (case runDailyScan e w of None \<Rightarrow> w | Some (w', _) \<Rightarrow> w')"

definition badge_true :: "notif_world \<Rightarrow> bool" where
  "badge_true w \<longleftrightarrow> (\<forall>u c. nw_badge w u = Some c \<longrightarrow> c = countUnread w u)"

lemma emit_true:
  assumes "badge_true w" and "\<And>v. v \<noteq> u \<Longrightarrow> countUnread w' v = countUnread w v" and "nw_badge w' = nw_badge w"
  shows "badge_true (emitUnreadCount True u w')"
  using assms by (auto simp: badge_true_def emitUnreadCount_def countUnread_def)

lemma count_update_other:
  assumes "\<And>n. P n \<Longrightarrow> nf_user n \<noteq> v" and "\<And>n. nf_user (f n) = nf_user n"
  shows "length (filter (unread v) (update_where P f rows)) = length (filter (unread v) rows)"
  using assms by (induction rows) (auto simp: update_where_Cons unread_def, simp_all add: update_where_def)

lemma count_refresh:
  assumes "\<And>n. nf_user (f n) = nf_user n" "\<And>n. nf_read (f n) = nf_read n" "\<And>n. nf_dismissed (f n) = nf_dismissed n"
  shows "length (filter (unread v) (update_where P f rows)) = length (filter (unread v) rows)"
  using assms by (induction rows) (auto simp: update_where_def unread_def)

lemma scan_task_true:
  assumes "badge_true (fst s)" and "\<forall>u. se_count e u"
  shows "badge_true (fst (scan_task e s t))"
proof (cases "due e t \<noteq> None \<and> se_upsert e (tk_id t)")
  case False
  then have "fst (scan_task e s t) = fst s" by (auto intro: scan_task_idle)
  then show ?thesis using assms(1) by simp
next
  case True
  then obtain d b where du: "overdue_days e t = Some d" "buildOverdueNotification (tk_title t) d = Some b"
    by (auto simp: due_def split: option.splits)
  let ?u = "upsert_notification t b d (service_date e) (se_stamp e (tk_id t)) (fst s)"
  show ?thesis
  proof (cases "List.find (same_day (tk_id t) (service_date e)) (nw_rows (fst s))")
    case None
    have "badge_true (emitUnreadCount True (tk_user t) ((snd ?u)\<lparr>nw_sent := nw_sent (snd ?u) @ [(tk_user t, Push_new (fst (fst ?u)))]\<rparr>))"
      by (rule emit_true [OF assms(1)]) (simp_all add: upsert_notification_def None countUnread_def unread_def)
    moreover have "snd (fst ?u)" by (simp add: upsert_notification_def None)
    ultimately show ?thesis using du True assms(2) by (simp add: scan_task_def Let_def dispatch_def)
  next
    case (Some n)
    have "badge_true (snd ?u)"
      using assms(1) by (simp add: badge_true_def upsert_notification_def Some countUnread_def count_refresh)
    moreover have "\<not> snd (fst ?u)" by (simp add: upsert_notification_def Some)
    ultimately show ?thesis using du True by (simp add: scan_task_def Let_def)
  qed
qed

lemma scan_true:
  assumes "badge_true w" and "\<forall>u. se_count e u" and "distinct (map tk_id (db_tasks (nw_db w)))"
    and "runDailyScan e w = Some (w', r)"
  shows "badge_true w'"
proof -
  have "badge_true (fst s) \<Longrightarrow> badge_true (fst (foldl (scan_task e) s ts))" for s ts
    by (induction ts arbitrary: s) (simp_all add: scan_task_true [OF _ assms(2)])
  from this [of "(w, no_results)" "scanned_tasks e (nw_db w)"] show ?thesis
    using assms(1,4) runDailyScan_eq [OF assms(3), of e] by simp
qed

lemma serve_true:
  assumes "badge_true w" and "\<forall>k. up k" and "distinct (map tk_id (db_tasks (nw_db w)))"
    and "\<forall>e. q = Scan e \<longrightarrow> (\<forall>u. se_count e u)"
  shows "badge_true (serve_notif up w q)"
proof (cases q)
  case (Get_badge u)
  then show ?thesis using assms(1,2)
    by (auto simp: get_badge_def badge_true_def countUnread_def split: option.splits)
next
  case (Post_read u i now)
  have "badge_true (emitUnreadCount True u (w\<lparr>nw_rows := update_where (\<lambda>n. nf_id n = j \<and> nf_user n = u) f (nw_rows w)\<rparr>))"
    if "\<And>n. nf_user (f n) = nf_user n" for j f
    by (rule emit_true [OF assms(1)]) (auto simp: countUnread_def that intro!: count_update_other)
  with Post_read show ?thesis using assms(1,2) by (auto simp: post_read_def Let_def split: option.splits)
next
  case (Post_dismiss u i now)
  have "badge_true (emitUnreadCount True u
      (w\<lparr>nw_rows := update_where (\<lambda>n. nf_id n = j \<and> nf_user n = u \<and> \<not> nf_dismissed n) f (nw_rows w)\<rparr>))"
    if "\<And>n. nf_user (f n) = nf_user n" for j f
    by (rule emit_true [OF assms(1)]) (auto simp: countUnread_def that intro!: count_update_other)
  with Post_dismiss show ?thesis using assms(1,2) by (auto simp: post_dismiss_def Let_def split: option.splits)
next
  case (Delete_task u i now)
  have "badge_true (emitUnreadCount True u (dismiss_deleted u j now (archive_task u j w)))" for j
    by (rule emit_true [OF assms(1)])
      (auto simp: countUnread_def dismiss_deleted_def archive_task_def intro!: count_update_other)
  moreover have "badge_true (archive_task u j w)" for j
    using assms(1) by (simp add: badge_true_def archive_task_def countUnread_def)
  ultimately show ?thesis using assms(1,2) Delete_task by (auto simp: delete_task_def Let_def split: js_value_num.splits)
next
  case (Scan e)
  then show ?thesis using assms(1,3,4) scan_true by (auto split: option.splits)
qed

lemma serve_ids: "map tk_id (db_tasks (nw_db (serve_notif up w q))) = map tk_id (db_tasks (nw_db w))"
proof (cases q)
  case (Delete_task u i now)
  then show ?thesis
    by (auto simp: delete_task_def Let_def archive_task_def dismiss_deleted_def emitUnreadCount_def update_tasks_def
        map_update_where split: js_value_num.splits)
next
  case (Scan e)
  have "scan_loop k e c s = Some s' \<Longrightarrow> nw_db (fst s') = nw_db (fst s)" for k c s s'
    by (induction k arbitrary: c s) (auto simp: Let_def split: if_splits)
  then show ?thesis using Scan by (fastforce simp: runDailyScan_def simp del: scan_loop.simps split: option.splits)
qed (auto simp: get_badge_def post_read_def post_dismiss_def emitUnreadCount_def Let_def split: option.splits)



subsection \<open>Separation of the users\<close>

fun requester :: "notif_request \<Rightarrow> int option" where
  "requester (Get_badge u) = Some u"
| "requester (Post_read u i now) = Some u"
| "requester (Post_dismiss u i now) = Some u"
| "requester (Delete_task u i now) = Some u"
| "requester (Scan e) = None"

text \<open>What a user can see of the server: the own tasks, notifications and badge.\<close>

definition view_of :: "int \<Rightarrow> notif_world \<Rightarrow> task_row list \<times> notif_row list \<times> int option" where
  "view_of v w = (filter (\<lambda>t. tk_user t = v) (db_tasks (nw_db w)), filter (\<lambda>n. nf_user n = v) (nw_rows w), nw_badge w v)"

lemma filter_update_other:
  assumes "\<And>x. P x \<Longrightarrow> \<not> Q x \<and> \<not> Q (f x)"
  shows "filter Q (update_where P f xs) = filter Q xs"
  using assms by (induction xs) (auto simp: update_where_def)

lemma emit_view: "v \<noteq> u \<Longrightarrow> view_of v (emitUnreadCount up u w) = view_of v w"
  by (simp add: view_of_def emitUnreadCount_def)

lemma emit_sent: "\<exists>ps. nw_sent (emitUnreadCount up u w) = nw_sent w @ map (Pair u) ps"
  by (auto simp: emitUnreadCount_def intro: exI [of _ "[_]"] exI [of _ "[]"])



subsection \<open>A deletion that fails half way\<close>

lemma none_after_update: "(\<And>x. P x \<Longrightarrow> \<not> P (f x)) \<Longrightarrow> \<not> list_ex P (update_where P f xs)"
  by (induction xs) (auto simp: update_where_def)

text \<open>
  The two statements of a deletion are no transaction: when the database fails between them, the
  request is answered with 500 although the task is archived, and a retry is answered with 404 and leaves
  the task's notifications undismissed.
\<close>

theorem failed_deletion_cannot_be_retried:
  assumes "t \<in> set (db_tasks (nw_db w))" and "tk_id t = i" and "tk_user t = u" and "tk_status t \<noteq> S_ARCHIVED"
    and "up 0" and "\<not> up 1"
  shows "\<exists>w' b b'. delete_task up u (JNum (of_int i)) now w = (Inl (500, b), w') \<and> nw_rows w' = nw_rows w
    \<and> delete_task (\<lambda>_. True) u (JNum (of_int i)) later w' = (Inl (404, b'), w')"
proof -
  have "list_ex (\<lambda>t. tk_id t = i \<and> tk_user t = u \<and> tk_status t \<noteq> S_ARCHIVED) (db_tasks (nw_db w))"
    using assms(1-4) by (auto simp: list_ex_iff)
  moreover have "\<not> list_ex (\<lambda>t. tk_id t = i \<and> tk_user t = u \<and> tk_status t \<noteq> S_ARCHIVED) (db_tasks (nw_db (archive_task u i w)))"
    by (simp add: archive_task_def update_tasks_def none_after_update)
  moreover have "nw_rows (archive_task u i w) = nw_rows w" by (simp add: archive_task_def)
  ultimately show ?thesis using assms(5,6) by (simp add: delete_task_def error_reply_def)
qed

lemma failed_deletion_cannot_be_retried_witness:
  "\<exists>w' b b'. delete_task (\<lambda>k. k = 0) 1 (JNum (of_int 2)) 0 late_world = (Inl (500, b), w')
     \<and> nw_rows w' = nw_rows late_world \<and> delete_task (\<lambda>_. True) 1 (JNum (of_int 2)) 9 w' = (Inl (404, b'), w')"
  by (rule failed_deletion_cannot_be_retried [of "late_task 2 S_PENDING"]) (simp_all add: late_world_def late_task_def)

end
