(* ===== verification/Badge_Cache.thy ===== *)
theory Badge_Cache
  imports Notification_Routes
begin

text \<open>
  The badge cache of the notification server under concurrent requests, \<open>cache/notificationBadgeCache.ts\<close>:
  every command to the store is one step, and the steps of requests, of the dispatcher's write-through,
  of expiry and of the tables interleave freely.  The keys of different users are independent, so the
  state is that of one user.
\<close>

subsection \<open>The state of one user's keys\<close>

text \<open>
  Where a request stands: the first \<open>GET\<close>, the \<open>SET NX\<close> of the lock, the count by the lock's holder, the
  \<open>SET\<close> of the value, the \<open>GET\<close> and \<open>DEL\<close> of the lock, and the retries of the others; \<open>Recounting\<close> and
  \<open>Writing\<close> are the two steps of the dispatcher's write-through.
\<close>

datatype phase =
    Asking
  | Missed
  | Holding
  | Counted int
  | Leaving "int option"
  | Deleting "int option"
  | Waiting nat
  | Recounting
  | Writing int
  | Served int
  | Failed

record badge_state =
  bs_value :: "int option"
  bs_lock :: "nat option"
  bs_count :: int
  bs_phase :: "nat \<Rightarrow> phase"

definition RETRIES :: nat where "RETRIES = 5"

definition badge_ttl :: "js_num \<Rightarrow> int" where
  "badge_ttl random = 300 + \<lfloor>random * 60\<rfloor>"

definition goto :: "nat \<Rightarrow> phase \<Rightarrow> badge_state \<Rightarrow> badge_state" where
  "goto r p s = s\<lparr>bs_phase := (bs_phase s)(r := p)\<rparr>"

definition outcome_of :: "int option \<Rightarrow> phase" where
  "outcome_of c = (case c of None \<Rightarrow> Failed | Some n \<Rightarrow> Served n)"

text \<open>The next step of \<open>getOrCompute\<close>; \<open>ok\<close> tells whether the database answers a count.\<close>

definition getOrCompute :: "bool \<Rightarrow> nat \<Rightarrow> badge_state \<Rightarrow> badge_state" where
  "getOrCompute ok r s =
     (case bs_phase s r of
        Asking \<Rightarrow> (case bs_value s of Some c \<Rightarrow> goto r (Served c) s | None \<Rightarrow> goto r Missed s)
      | Missed \<Rightarrow> (if bs_lock s = None then goto r Holding (s\<lparr>bs_lock := Some r\<rparr>) else goto r (Waiting 0) s)
      | Holding \<Rightarrow> (if ok then goto r (Counted (bs_count s)) s else goto r (Leaving None) s)
      | Counted c \<Rightarrow> goto r (Leaving (Some c)) (s\<lparr>bs_value := Some c\<rparr>)
      | Leaving c \<Rightarrow> (if bs_lock s = Some r then goto r (Deleting c) s else goto r (outcome_of c) s)
      | Deleting c \<Rightarrow> goto r (outcome_of c) (s\<lparr>bs_lock := None\<rparr>)
      | Waiting i \<Rightarrow>
          (if i < RETRIES
           then (case bs_value s of Some c \<Rightarrow> goto r (Served c) s | None \<Rightarrow> goto r (Waiting (i + 1)) s)
           else if ok then goto r (Served (bs_count s)) s else goto r Failed s)
      | _ \<Rightarrow> s)"

text \<open>The write-through of \<open>emitUnreadCount\<close>: count, then set.\<close>

definition writeThrough :: "bool \<Rightarrow> nat \<Rightarrow> badge_state \<Rightarrow> badge_state" where
  "writeThrough ok r s =
     (case bs_phase s r of
        Recounting \<Rightarrow> (if ok then goto r (Writing (bs_count s)) s else goto r Failed s)
      | Writing c \<Rightarrow> goto r (Served c) (s\<lparr>bs_value := Some c\<rparr>)
      | _ \<Rightarrow> s)"

datatype badge_event = Advance bool nat | Expire_value | Expire_lock | Change int

fun badge_step :: "badge_state \<Rightarrow> badge_event \<Rightarrow> badge_state" where
  "badge_step s (Advance ok r) = writeThrough ok r (getOrCompute ok r s)"
| "badge_step s Expire_value = s\<lparr>bs_value := None\<rparr>"
| "badge_step s Expire_lock = s\<lparr>bs_lock := None\<rparr>"
| "badge_step s (Change n) = s\<lparr>bs_count := n\<rparr>"

abbreviation badge_run :: "badge_state \<Rightarrow> badge_event list \<Rightarrow> badge_state" where
  "badge_run \<equiv> foldl badge_step"

definition fresh_badge :: "int \<Rightarrow> (nat \<Rightarrow> phase) \<Rightarrow> badge_state" where
  "fresh_badge n p = \<lparr>bs_value = None, bs_lock = None, bs_count = n, bs_phase = p\<rparr>"

lemma ttl_spread: "0 \<le> x \<Longrightarrow> x < 1 \<Longrightarrow> 300 \<le> badge_ttl x \<and> badge_ttl x < 360"
  by (simp add: badge_ttl_def floor_less_iff)

lemma goto_fields [simp]:
  "bs_phase (goto r p s) = (bs_phase s)(r := p)" "bs_value (goto r p s) = bs_value s"
  "bs_lock (goto r p s) = bs_lock s" "bs_count (goto r p s) = bs_count s"
  by (simp_all add: goto_def)

lemmas advance_defs = getOrCompute_def writeThrough_def outcome_of_def

text \<open>The steps of a request that meets no other, one rule each.\<close>

lemma lone_steps:
  "bs_phase s r = Asking \<Longrightarrow> bs_value s = Some c \<Longrightarrow> badge_step s (Advance ok r) = goto r (Served c) s"
  "bs_phase s r = Asking \<Longrightarrow> bs_value s = None \<Longrightarrow> badge_step s (Advance ok r) = goto r Missed s"
  "bs_phase s r = Missed \<Longrightarrow> bs_lock s = None \<Longrightarrow> badge_step s (Advance ok r) = goto r Holding (s\<lparr>bs_lock := Some r\<rparr>)"
  "bs_phase s r = Holding \<Longrightarrow> badge_step s (Advance True r) = goto r (Counted (bs_count s)) s"
  "bs_phase s r = Counted n \<Longrightarrow> badge_step s (Advance ok r) = goto r (Leaving (Some n)) (s\<lparr>bs_value := Some n\<rparr>)"
  "bs_phase s r = Leaving (Some n) \<Longrightarrow> bs_lock s = Some r \<Longrightarrow> badge_step s (Advance ok r) = goto r (Deleting (Some n)) s"
  "bs_phase s r = Deleting (Some n) \<Longrightarrow> badge_step s (Advance ok r) = goto r (Served n) (s\<lparr>bs_lock := None\<rparr>)"
  "bs_phase s r = Served n \<Longrightarrow> badge_step s (Advance ok r) = s"
  by (simp_all add: advance_defs)

subsection \<open>One request alone\<close>

text \<open>Without interference the steps add up to the sequential \<open>get_badge\<close>.\<close>

lemma six_times: "replicate 6 x = [x, x, x, x, x, x]"
  by (simp add: numeral_eq_Suc)

lemma getOrCompute_alone:
  assumes "bs_lock s = None" and "bs_phase s r = Asking" and "bs_count s = countUnread w u" and "bs_value s = nw_badge w u"
  shows "let s' = badge_run s (replicate 6 (Advance True r)) in
    bs_phase s' r = Served (case nw_badge w u of Some c \<Rightarrow> c | None \<Rightarrow> countUnread w u)
    \<and> fst (get_badge True u w) = Inr (case nw_badge w u of Some c \<Rightarrow> c | None \<Rightarrow> countUnread w u)
    \<and> bs_value s' = nw_badge (snd (get_badge True u w)) u \<and> bs_lock s' = None"
proof (cases "nw_badge w u")
  case (Some c)
  have "badge_run s (replicate 6 (Advance True r)) = badge_run (goto r (Served c) s) (replicate 5 (Advance True r))"
    using assms Some by (simp add: lone_steps(1) numeral_eq_Suc del: badge_step.simps)
  also have "\<dots> = goto r (Served c) s" by (simp add: lone_steps(8) numeral_eq_Suc del: badge_step.simps)
  finally show ?thesis using assms Some by (simp add: get_badge_def)
next
  case None
  let ?n = "bs_count s" and ?go = "\<lambda>s. badge_step s (Advance True r)"
  have "?go s = goto r Missed s" using assms None by (simp add: lone_steps(2) del: badge_step.simps)
  moreover have "?go (goto r Missed s) = goto r Holding (s\<lparr>bs_lock := Some r\<rparr>)"
    using assms by (simp add: lone_steps(3) goto_def del: badge_step.simps)
  moreover have "?go (goto r Holding (s\<lparr>bs_lock := Some r\<rparr>)) = goto r (Counted ?n) (s\<lparr>bs_lock := Some r\<rparr>)"
    by (simp add: lone_steps(4) goto_def del: badge_step.simps)
  moreover have "?go (goto r (Counted ?n) (s\<lparr>bs_lock := Some r\<rparr>))
      = goto r (Leaving (Some ?n)) (s\<lparr>bs_lock := Some r, bs_value := Some ?n\<rparr>)"
    by (simp add: lone_steps(5) goto_def del: badge_step.simps)
  moreover have "?go (goto r (Leaving (Some ?n)) (s\<lparr>bs_lock := Some r, bs_value := Some ?n\<rparr>))
      = goto r (Deleting (Some ?n)) (s\<lparr>bs_lock := Some r, bs_value := Some ?n\<rparr>)"
    by (simp add: lone_steps(6) goto_def del: badge_step.simps)
  moreover have "?go (goto r (Deleting (Some ?n)) (s\<lparr>bs_lock := Some r, bs_value := Some ?n\<rparr>))
      = goto r (Served ?n) (s\<lparr>bs_lock := None, bs_value := Some ?n\<rparr>)"
    by (simp add: lone_steps(7) goto_def del: badge_step.simps)
  ultimately have "badge_run s (replicate 6 (Advance True r)) = goto r (Served ?n) (s\<lparr>bs_lock := None, bs_value := Some ?n\<rparr>)"
    by (simp only: six_times foldl.simps)
  then show ?thesis using assms None by (simp add: get_badge_def)
qed

subsection \<open>Single flight\<close>

fun computing :: "phase \<Rightarrow> bool" where
  "computing Holding = True"
| "computing (Counted c) = True"
| "computing (Leaving c) = True"
| "computing (Deleting c) = True"
| "computing p = False"

definition lock_held :: "badge_state \<Rightarrow> bool" where
  "lock_held s \<longleftrightarrow> (\<forall>r. computing (bs_phase s r) \<longrightarrow> bs_lock s = Some r)"

lemma outcome_idle [simp]: "\<not> computing (outcome_of c)"
  by (simp add: outcome_of_def split: option.split)

lemma getOrCompute_lock:
  assumes "lock_held s"
  shows "lock_held (getOrCompute ok r s)"
proof -
  have l: "computing (bs_phase s q) \<Longrightarrow> bs_lock s = Some q" for q using assms by (simp add: lock_held_def)
  show ?thesis
  proof (cases "bs_phase s r")
    case Missed
    then show ?thesis using l by (cases "bs_lock s") (auto simp: lock_held_def getOrCompute_def)
  next
    case (Deleting c)
    have "\<not> computing (bs_phase s q)" if "q \<noteq> r" for q using l [of q] l [of r] that Deleting by auto
    with Deleting show ?thesis by (simp add: lock_held_def getOrCompute_def)
  qed (use l in \<open>auto simp: lock_held_def getOrCompute_def split: option.split\<close>)
qed

lemma writeThrough_lock: "lock_held s \<Longrightarrow> lock_held (writeThrough ok r s)"
  by (cases "bs_phase s r") (auto simp: lock_held_def writeThrough_def)

lemma step_lock: "lock_held s \<Longrightarrow> e \<noteq> Expire_lock \<Longrightarrow> lock_held (badge_step s e)"
  by (cases e) (simp_all add: getOrCompute_lock writeThrough_lock, simp_all add: lock_held_def)

text \<open>
  As long as the lock does not run out of its five seconds, at most one request at a time is between
  taking the lock and releasing it, so at most one counts on behalf of the cache.
\<close>

theorem one_request_computes:
  assumes "\<forall>r. p r = Asking \<or> p r = Recounting" and "Expire_lock \<notin> set es"
    and "computing (bs_phase (badge_run (fresh_badge n p) es) q)"
    and "computing (bs_phase (badge_run (fresh_badge n p) es) r)"
  shows "q = r"
proof -
  have keep: "lock_held s \<Longrightarrow> Expire_lock \<notin> set es \<Longrightarrow> lock_held (badge_run s es)" for s es
    by (induction es arbitrary: s) (auto simp: step_lock simp del: badge_step.simps)
  have "\<not> computing (p r)" for r using spec [OF assms(1), of r] by auto
  then have "lock_held (fresh_badge n p)" by (simp add: lock_held_def fresh_badge_def)
  from keep [OF this assms(2)] assms(3,4) show ?thesis unfolding lock_held_def by (metis option.inject)
qed

lemma one_request_computes_witness:
  "\<not> computing (bs_phase (badge_run (fresh_badge 2 (\<lambda>_. Asking))
      [Advance True 0, Advance True 1, Advance True 0, Advance True 1, Advance True 1]) 1)"
proof
  let ?es = "[Advance True 0, Advance True 1, Advance True 0, Advance True 1, Advance True 1]"
  assume "computing (bs_phase (badge_run (fresh_badge 2 (\<lambda>_. Asking)) ?es) 1)"
  moreover have "computing (bs_phase (badge_run (fresh_badge 2 (\<lambda>_. Asking)) ?es) 0)"
    by code_simp
  ultimately have "(1::nat) = 0" by (intro one_request_computes [of "\<lambda>_. Asking" ?es 2]) simp_all
  then show False by simp
qed

subsection \<open>Every request is answered\<close>

fun steps_left :: "phase \<Rightarrow> nat" where
  "steps_left Asking = RETRIES + 3"
| "steps_left Missed = RETRIES + 2"
| "steps_left Holding = 4"
| "steps_left (Counted c) = 3"
| "steps_left (Leaving c) = 2"
| "steps_left (Deleting c) = 1"
| "steps_left (Waiting i) = RETRIES + 1 - min i RETRIES"
| "steps_left Recounting = 2"
| "steps_left (Writing c) = 1"
| "steps_left (Served c) = 0"
| "steps_left Failed = 0"

definition answered :: "phase \<Rightarrow> bool" where
  "answered p \<longleftrightarrow> (\<exists>c. p = Served c) \<or> p = Failed"

lemma answered_iff: "answered p \<longleftrightarrow> steps_left p = 0"
  by (cases p) (auto simp: answered_def RETRIES_def)

lemma advance_progress: "steps_left (bs_phase (badge_step s (Advance ok r)) r) \<le> steps_left (bs_phase s r) - 1"
  by (cases "bs_phase s r") (auto simp: advance_defs RETRIES_def split: option.splits)

lemma advance_others: "q \<noteq> r \<Longrightarrow> bs_phase (badge_step s (Advance ok q)) r = bs_phase s r"
proof -
  assume q: "q \<noteq> r"
  have "bs_phase (getOrCompute ok q s) r = bs_phase s r" for s
    using q by (cases "bs_phase s q") (simp_all add: getOrCompute_def split: option.splits)
  moreover have "bs_phase (writeThrough ok q s) r = bs_phase s r" for s
    using q by (cases "bs_phase s q") (simp_all add: writeThrough_def)
  ultimately show "bs_phase (badge_step s (Advance ok q)) r = bs_phase s r" by simp
qed

definition turns :: "nat \<Rightarrow> badge_event list \<Rightarrow> nat" where
  "turns r es = length (filter (\<lambda>e. case e of Advance _ q \<Rightarrow> q = r | _ \<Rightarrow> False) es)"

lemma run_progress: "steps_left (bs_phase (badge_run s es) r) \<le> steps_left (bs_phase s r) - turns r es"
proof (induction es arbitrary: s)
  case (Cons e es)
  have "steps_left (bs_phase (badge_step s e) r) \<le> steps_left (bs_phase s r) - turns r [e]"
  proof (cases e)
    case (Advance ok q)
    then show ?thesis using advance_progress [of s ok r] advance_others [of q r s ok] by (cases "q = r") (simp_all add: turns_def)
  qed (simp_all add: turns_def)
  moreover have "turns r (e # es) = turns r [e] + turns r es" by (simp add: turns_def)
  ultimately show ?case using Cons.IH [of "badge_step s e"] by simp
qed (simp add: turns_def)

text \<open>
  C8. Every request for the badge is answered: after at most eight steps of its own it has a count or an
  error, whatever the other requests do, whoever holds the lock and whatever expires in between.
\<close>

theorem badge_request_is_answered:
  assumes "8 \<le> turns r es"
  shows "answered (bs_phase (badge_run s es) r)"
proof -
  have "steps_left (bs_phase s r) \<le> 8" by (cases "bs_phase s r") (simp_all add: RETRIES_def)
  then show ?thesis using run_progress [of s es r] assms by (simp add: answered_iff)
qed

text \<open>A request that finds the lock taken by one that never releases it.\<close>

lemma badge_request_is_answered_witness:
  "answered (bs_phase (badge_run ((fresh_badge 4 (\<lambda>_. Asking))\<lparr>bs_lock := Some 1\<rparr>) (replicate 8 (Advance True 0))) 0)"
  by (rule badge_request_is_answered) (simp add: turns_def)

subsection \<open>A stale badge\<close>

text \<open>
  A count taken before a notification is read, and stored after the reader's write-through, leaves a
  wrong badge behind: every request is answered, the database counts none unread, and the cache serves
  one to the next request.
\<close>

theorem late_store_leaves_stale_badge:
  shows "let p = (\<lambda>r. if r = 1 then Recounting else Asking);
             s = badge_run (fresh_badge 1 p)
               [Advance True 0, Advance True 0, Advance True 0, Change 0, Advance True 1, Advance True 1,
                Advance True 0, Advance True 0, Advance True 0, Advance True 2] in
    bs_count s = 0 \<and> bs_value s = Some 1 \<and> bs_lock s = None \<and> bs_phase s 0 = Served 1
    \<and> bs_phase s 1 = Served 0 \<and> bs_phase s 2 = Served 1"
  by code_simp

end
