(* ===== verification/Alarm_Scheduler.thy ===== *)
theory Alarm_Scheduler
  imports Server_Db
begin

text \<open>
  The delayed jobs behind the five-minute alarms, \<open>alarm-system/src/queue/alarmScheduler.ts\<close>: one job
  per task in the queue, replaced when the task is scheduled again, with retries when the queue refuses.
\<close>

subsection \<open>The queue\<close>

record alarm_task =
  at_id :: int
  at_user :: int
  at_title :: ustring
  at_deadline :: int
  at_deferred :: bool
  at_count :: int

text \<open>A job of the queue fires once the given instant is reached.\<close>

record alarm_job =
  jb_key :: int
  jb_task :: alarm_task
  jb_fires :: int

definition getJobId :: "int \<Rightarrow> int" where
  "getJobId taskId = taskId"

definition ALARM_LEAD :: int where "ALARM_LEAD = 5 * 60 * 1000"

definition maxRetries :: nat where "maxRetries = 3"
definition backoffTimes :: "int list" where "backoffTimes = [1000, 2000, 4000]"

text \<open>The queue's own operations: a job with the id of an existing one is not added again.\<close>

definition queue_add :: "alarm_job \<Rightarrow> alarm_job list \<Rightarrow> alarm_job list" where
  "queue_add j q = (if \<exists>x \<in> set q. jb_key x = jb_key j then q else q @ [j])"

definition queue_remove :: "int \<Rightarrow> alarm_job list \<Rightarrow> alarm_job list" where
  "queue_remove k q = filter (\<lambda>j. jb_key j \<noteq> k) q"

text \<open>\<open>ok\<close> tells whether the queue can look up and remove the job, which it refuses for a running one.\<close>

definition cancelAlarm :: "bool \<Rightarrow> int \<Rightarrow> alarm_job list \<Rightarrow> unit option \<times> alarm_job list" where
  "cancelAlarm ok taskId q = (if ok then (Some (), queue_remove (getJobId taskId) q) else (None, q))"

text \<open>
  The retries, from an attempt on, at its instant; \<open>add_ok\<close> tells which attempts the queue accepts.
  \<open>None\<close> is the error thrown after the last one.
\<close>

function enqueue :: "(nat \<Rightarrow> bool) \<Rightarrow> alarm_task \<Rightarrow> int \<Rightarrow> nat \<Rightarrow> int \<Rightarrow> alarm_job list \<Rightarrow> int option \<times> alarm_job list" where
  "enqueue add_ok t delay attempt now q =
     (if maxRetries < attempt then (Some now, q)
      else if add_ok attempt
      then (Some now, queue_add \<lparr>jb_key = getJobId (at_id t), jb_task = t, jb_fires = now + delay\<rparr> q)
      else if maxRetries < attempt + 1 then (None, q)
      else enqueue add_ok t delay (attempt + 1) (now + backoffTimes ! attempt) q)"
  by auto
termination by (relation "measure (\<lambda>(add_ok, t, delay, attempt, now, q). maxRetries + 1 - attempt)") auto

declare enqueue.simps [simp del]

definition scheduleAlarm ::
  "bool \<Rightarrow> (nat \<Rightarrow> bool) \<Rightarrow> alarm_task \<Rightarrow> int \<Rightarrow> alarm_job list \<Rightarrow> int option \<times> alarm_job list" where
  "scheduleAlarm cancel_ok add_ok t now q =
     (let delay = at_deadline t - ALARM_LEAD - now in
      if at_deadline t \<le> now
      then (case cancelAlarm cancel_ok (at_id t) q of (r, q') \<Rightarrow> (map_option (\<lambda>_. now) r, q'))
      else (case cancelAlarm cancel_ok (at_id t) q of
              (None, q') \<Rightarrow> (None, q')
            | (Some _, q') \<Rightarrow> enqueue add_ok t (max 0 delay) 0 now q'))"

subsection \<open>When the alarm fires\<close>

text \<open>The waiting before an attempt.\<close>

definition waited :: "nat \<Rightarrow> int" where
  "waited k = sum_list (take k backoffTimes)"

lemma waited_Suc: "k < 3 \<Longrightarrow> waited (Suc k) = waited k + backoffTimes ! k"
proof -
  assume "k < 3"
  then have "take (Suc k) backoffTimes = take k backoffTimes @ [backoffTimes ! k]"
    by (intro take_Suc_conv_app_nth) (simp add: backoffTimes_def)
  then show "waited (Suc k) = waited k + backoffTimes ! k" by (simp add: waited_def)
qed

lemma waited_bound: "k \<le> 3 \<Longrightarrow> 0 \<le> waited k \<and> waited k \<le> 7000"
  by (cases k; simp add: waited_def backoffTimes_def numeral_eq_Suc take_Cons')

lemma enqueue_at:
  assumes "k \<le> 3" and "add_ok k" and "\<forall>i < k. \<not> add_ok i" and "i \<le> k"
  shows "enqueue add_ok t d i (now + waited i) q
    = (Some (now + waited k), queue_add \<lparr>jb_key = at_id t, jb_task = t, jb_fires = now + waited k + d\<rparr> q)"
  using assms(4)
proof (induction "k - i" arbitrary: i)
  case 0
  then have "i = k" by simp
  then show ?case using assms(1,2) by (simp add: enqueue.simps [of _ _ _ k] maxRetries_def getJobId_def)
next
  case (Suc m)
  then have i: "i < k" "i < 3" using assms(1) by simp_all
  have "enqueue add_ok t d i (now + waited i) q = enqueue add_ok t d (Suc i) (now + waited (Suc i)) q"
    using i assms(3) by (simp add: enqueue.simps [of _ _ _ i] maxRetries_def waited_Suc add.assoc)
  then show ?case using Suc(1) [of "Suc i"] Suc(2) i by simp
qed

lemma enqueue_fails: "\<forall>i \<le> 3. \<not> add_ok i \<Longrightarrow> i \<le> 3 \<Longrightarrow> enqueue add_ok t d i now q = (None, q)"
proof (induction "3 - i" arbitrary: i now)
  case 0
  then have "i = 3" by simp
  then show ?case using 0(2) by (subst enqueue.simps) (simp add: maxRetries_def)
next
  case (Suc m)
  then have "i < 3" by simp
  then have "enqueue add_ok t d i now q = enqueue add_ok t d (Suc i) (now + backoffTimes ! i) q"
    using Suc(3) by (simp add: enqueue.simps [of _ _ _ i] maxRetries_def)
  then show ?case using Suc(1) [of "Suc i"] Suc(2,3) \<open>i < 3\<close> by simp
qed

definition jobs_of :: "int \<Rightarrow> alarm_job list \<Rightarrow> alarm_job list" where
  "jobs_of k q = filter (\<lambda>j. jb_key j = k) q"

lemma add_after_remove: "jobs_of k (queue_add j (queue_remove k q)) = [j]" if "jb_key j = k"
  using that by (auto simp: jobs_of_def queue_add_def queue_remove_def filter_empty_conv)

lemma jobs_of_others: "k \<noteq> k' \<Longrightarrow> jb_key j = k \<Longrightarrow> jobs_of k' (queue_add j (queue_remove k q)) = jobs_of k' q"
  by (auto simp: jobs_of_def queue_add_def queue_remove_def intro!: filter_cong)

text \<open>
  Scheduling a task whose deadline lies ahead leaves exactly one job for it, with its latest data,
  whatever was scheduled before; it fires five minutes before the deadline, or at once when less is left,
  and at most seven seconds later when the queue first refuses; the jobs of other tasks stay.
\<close>

theorem one_alarm_per_task:
  assumes "now < at_deadline t" and "k \<le> 3" and "add_ok k" and "\<forall>i < k. \<not> add_ok i"
  shows "\<exists>j q' d. scheduleAlarm True add_ok t now q = (Some (now + d), q') \<and> jobs_of (at_id t) q' = [j]
    \<and> jb_task j = t \<and> jb_fires j = max now (at_deadline t - 300000) + d \<and> 0 \<le> d \<and> d \<le> 7000
    \<and> (\<forall>k'. k' \<noteq> at_id t \<longrightarrow> jobs_of k' q' = jobs_of k' q)"
proof -
  let ?d = "max 0 (at_deadline t - ALARM_LEAD - now)"
  let ?j = "\<lparr>jb_key = at_id t, jb_task = t, jb_fires = now + waited k + ?d\<rparr>"
  have "waited 0 = 0" by (simp add: waited_def)
  then have s: "scheduleAlarm True add_ok t now q = (Some (now + waited k), queue_add ?j (queue_remove (at_id t) q))"
    using assms(1) enqueue_at [OF assms(2-4), of 0 t ?d now]
    by (simp add: scheduleAlarm_def cancelAlarm_def getJobId_def)
  have "jb_fires ?j = max now (at_deadline t - 300000) + waited k" by (simp add: ALARM_LEAD_def max_def)
  moreover have "jobs_of (at_id t) (queue_add ?j (queue_remove (at_id t) q)) = [?j]" by (rule add_after_remove) simp
  moreover have "\<forall>k'. k' \<noteq> at_id t \<longrightarrow> jobs_of k' (queue_add ?j (queue_remove (at_id t) q)) = jobs_of k' q"
    using jobs_of_others by (metis alarm_job.select_convs(1))
  ultimately show ?thesis using s waited_bound [OF assms(2)] by (metis alarm_job.select_convs(2))
qed

definition sample_alarm :: "int \<Rightarrow> alarm_task" where
  "sample_alarm d = \<lparr>at_id = 7, at_user = 1, at_title = [], at_deadline = d, at_deferred = False, at_count = 0\<rparr>"

lemma one_alarm_per_task_witness:
  "\<exists>j q' d. scheduleAlarm True (\<lambda>i. i = 1) (sample_alarm 900000) 1000 [] = (Some (1000 + d), q') \<and> jobs_of 7 q' = [j]
     \<and> jb_fires j = 600000 + d \<and> d \<le> 7000"
proof -
  have "\<exists>j q' d. scheduleAlarm True (\<lambda>i. i = 1) (sample_alarm 900000) 1000 [] = (Some (1000 + d), q')
      \<and> jobs_of (at_id (sample_alarm 900000)) q' = [j] \<and> jb_task j = sample_alarm 900000
      \<and> jb_fires j = max 1000 (at_deadline (sample_alarm 900000) - 300000) + d \<and> 0 \<le> d \<and> d \<le> 7000
      \<and> (\<forall>k'. k' \<noteq> at_id (sample_alarm 900000) \<longrightarrow> jobs_of k' q' = jobs_of k' [])"
    by (rule one_alarm_per_task [where k = 1]) (simp_all add: sample_alarm_def)
  moreover have "at_id (sample_alarm 900000) = 7" "max 1000 (at_deadline (sample_alarm 900000) - 300000) = 600000"
    by (simp_all add: sample_alarm_def)
  ultimately show ?thesis by metis
qed

text \<open>
  When the queue refuses all four attempts, the error leaves the task without any alarm: the job that
  was scheduled before is already gone.
\<close>

theorem failed_reschedule_loses_alarm:
  assumes "now < at_deadline t" and "\<forall>i \<le> 3. \<not> add_ok i"
  shows "\<exists>q'. scheduleAlarm True add_ok t now q = (None, q') \<and> jobs_of (at_id t) q' = []"
proof -
  have "scheduleAlarm True add_ok t now q = (None, queue_remove (at_id t) q)"
    using assms enqueue_fails [OF assms(2), of 0] by (simp add: scheduleAlarm_def cancelAlarm_def getJobId_def)
  then show ?thesis by (simp add: jobs_of_def queue_remove_def)
qed

lemma failed_reschedule_loses_alarm_witness:
  "\<exists>q'. scheduleAlarm True (\<lambda>_. False) (sample_alarm 900000) 1000
      [\<lparr>jb_key = 7, jb_task = sample_alarm 500000, jb_fires = 200000\<rparr>] = (None, q') \<and> jobs_of 7 q' = []"
  using failed_reschedule_loses_alarm [of 1000 "sample_alarm 900000" "\<lambda>_. False"] by (simp add: sample_alarm_def)

end
