(* ===== verification/Alarm_Client.thy ===== *)
theory Alarm_Client
  imports Server_Db Js_Regex
begin

text \<open>
  The page's side of the alarms, \<open>alarm-system/src/client/AlarmManager.ts\<close>: the toasts and their markup,
  the bell's badge, and the reordering of the task list.  The sliding of the cards is in
  \<open>Motion\<close>; the style sheet is left out.
\<close>

subsection \<open>Escaping\<close>

definition replace_char :: "nat \<Rightarrow> ustring \<Rightarrow> ustring \<Rightarrow> ustring" where
  "replace_char c r s = concat (map (\<lambda>x. if x = c then r else [x]) s)"

definition escapeHTML :: "ustring \<Rightarrow> ustring" where
  "escapeHTML s =
     replace_char 39 (ascii ''&#039;'') (replace_char 34 (ascii ''&quot;'') (replace_char 62 (ascii ''&gt;'')
       (replace_char 60 (ascii ''&lt;'') (replace_char 38 (ascii ''&amp;'') s))))"

subsection \<open>The manager\<close>

record alarm_event =
  ev_alarm :: int
  ev_task :: int
  ev_user :: int
  ev_name :: ustring
  ev_deadline :: int
  ev_triggered :: int
  ev_deferred :: bool
  ev_count :: int

text \<open>A toast: the alarm's id and the markup of its title.\<close>

record toast =
  ts_alarm :: int
  ts_title :: ustring

record alarm_manager =
  mg_shown :: "int list"
  mg_heard :: "alarm_event list"
  mg_toasts :: "toast list"
  mg_counts :: "int list"
  mg_badge :: "string \<times> bool"
  mg_panel :: bool

definition new_manager :: alarm_manager where
  "new_manager = \<lparr>mg_shown = [], mg_heard = [], mg_toasts = [], mg_counts = [], mg_badge = ('''', False), mg_panel = False\<rparr>"

definition renderToast :: "alarm_event \<Rightarrow> alarm_manager \<Rightarrow> alarm_manager" where
  "renderToast a m = m\<lparr>mg_toasts := mg_toasts m @ [\<lparr>ts_alarm = ev_alarm a, ts_title = escapeHTML (ev_name a)\<rparr>]\<rparr>"

definition handleAlarmTriggered :: "alarm_event \<Rightarrow> alarm_manager \<Rightarrow> alarm_manager" where
  "handleAlarmTriggered a m =
     (if ev_alarm a \<in> set (mg_shown m) then m
      else renderToast a (m\<lparr>mg_shown := mg_shown m @ [ev_alarm a], mg_heard := mg_heard m @ [a]\<rparr>))"

definition updateBellBadge :: "int \<Rightarrow> alarm_manager \<Rightarrow> alarm_manager" where
  "updateBellBadge count m =
     m\<lparr>mg_badge := (if 0 < count then (if 99 < count then ''99+'' else show_int count, True) else ('''', False))\<rparr>"

definition on_unread_count :: "int \<Rightarrow> alarm_manager \<Rightarrow> alarm_manager" where
  "on_unread_count count m = updateBellBadge count (m\<lparr>mg_counts := mg_counts m @ [count]\<rparr>)"

text \<open>Opening the panel sends the request that marks all alarms read; the flag tells whether it is sent.\<close>

definition setPanelState :: "bool \<Rightarrow> alarm_manager \<Rightarrow> bool \<times> alarm_manager" where
  "setPanelState isOpen m = (isOpen, m\<lparr>mg_panel := isOpen\<rparr>)"

subsection \<open>Reordering the list\<close>

text \<open>A child of the list: its identity in the document, its task id if any, its border and badge.\<close>

record list_node =
  ln_key :: nat
  ln_task :: "string option"
  ln_border :: bool
  ln_badge :: "int option"

text \<open>Of several children with one id the map keeps the last.\<close>

definition node_of :: "list_node list \<Rightarrow> string \<Rightarrow> nat option" where
  "node_of children i = map_option ln_key (List.find (\<lambda>n. ln_task n = Some i) (rev children))"


record listed_task =
  lt_id :: int
  lt_deferred :: bool
  lt_count :: int

definition style_node :: "listed_task \<Rightarrow> list_node \<Rightarrow> list_node" where
  "style_node t n =
     (if lt_deferred t \<and> 0 < lt_count t then n\<lparr>ln_border := True, ln_badge := Some (lt_count t)\<rparr>
      else n\<lparr>ln_border := False, ln_badge := None\<rparr>)"

text \<open>\<open>appendChild\<close> of a node that is already a child moves it to the end.\<close>

definition append_child :: "nat \<Rightarrow> (list_node \<Rightarrow> list_node) \<Rightarrow> list_node list \<Rightarrow> list_node list" where
  "append_child k f ns = filter (\<lambda>n. ln_key n \<noteq> k) ns @ map f (filter (\<lambda>n. ln_key n = k) ns)"

definition reorder_tasks :: "list_node list \<Rightarrow> listed_task list \<Rightarrow> list_node list" where
  "reorder_tasks children tasks =
     foldl (\<lambda>ns t. case node_of children (show_int (lt_id t)) of
                     None \<Rightarrow> ns
                   | Some k \<Rightarrow> append_child k (style_node t) ns) children tasks"

subsection \<open>The markup of a title\<close>

text \<open>How a browser reads text with the five character references that the escaping produces.\<close>

fun html_text :: "ustring \<Rightarrow> ustring" where
  "html_text [] = []"
| "html_text (c # s) =
     (if c \<noteq> 38 then c # html_text s
      else if starts_with (ascii ''amp;'') s then 38 # html_text (drop 4 s)
      else if starts_with (ascii ''lt;'') s then 60 # html_text (drop 3 s)
      else if starts_with (ascii ''gt;'') s then 62 # html_text (drop 3 s)
      else if starts_with (ascii ''quot;'') s then 34 # html_text (drop 5 s)
      else if starts_with (ascii ''#039;'') s then 39 # html_text (drop 5 s)
      else 38 # html_text s)"

definition escape_char :: "nat \<Rightarrow> ustring" where
  "escape_char c =
     (if c = 38 then [38, 97, 109, 112, 59] else if c = 60 then [38, 108, 116, 59]
      else if c = 62 then [38, 103, 116, 59] else if c = 34 then [38, 113, 117, 111, 116, 59]
      else if c = 39 then [38, 35, 48, 51, 57, 59] else [c])"

lemma entities: "ascii ''&amp;'' = [38, 97, 109, 112, 59]" "ascii ''&lt;'' = [38, 108, 116, 59]"
  "ascii ''&gt;'' = [38, 103, 116, 59]" "ascii ''&quot;'' = [38, 113, 117, 111, 116, 59]"
  "ascii ''&#039;'' = [38, 35, 48, 51, 57, 59]" "ascii ''amp;'' = [97, 109, 112, 59]" "ascii ''lt;'' = [108, 116, 59]"
  "ascii ''gt;'' = [103, 116, 59]" "ascii ''quot;'' = [113, 117, 111, 116, 59]" "ascii ''#039;'' = [35, 48, 51, 57, 59]"
  by code_simp+

text \<open>The five replacements one after the other are one replacement per character.\<close>

lemma escapeHTML_chars: "escapeHTML s = concat (map escape_char s)"
proof (induction s)
  case Nil
  show ?case by (simp add: escapeHTML_def replace_char_def)
next
  case (Cons c s)
  have app: "replace_char k r (a @ b) = replace_char k r a @ replace_char k r b" for k r a b
    by (simp add: replace_char_def)
  have "escapeHTML (c # s) = escapeHTML [c] @ escapeHTML s"
    unfolding escapeHTML_def by (simp only: app [symmetric]) (simp add: replace_char_def)
  moreover have "escapeHTML [c] = escape_char c"
    by (simp add: escapeHTML_def replace_char_def entities escape_char_def)
  ultimately show ?case using Cons by simp
qed

lemma read_escaped: "html_text (escape_char c @ s) = c # html_text s"
  by (simp add: escape_char_def entities)

text \<open>
  The markup of a toast's title holds no angle bracket and no quote, and a browser shows it as exactly
  the task's name, whatever characters and entities that contains.
\<close>

theorem toast_shows_task_name:
  shows "html_text (escapeHTML s) = s \<and> set (escapeHTML s) \<inter> {60, 62, 34, 39} = {}"
proof
  show "html_text (escapeHTML s) = s" by (induction s) (simp_all add: escapeHTML_chars read_escaped)
  show "set (escapeHTML s) \<inter> {60, 62, 34, 39} = {}"
    by (induction s) (auto simp: escapeHTML_chars escape_char_def)
qed

subsection \<open>One toast per alarm\<close>

lemma handle_shown: "set (mg_shown (handleAlarmTriggered a m)) = insert (ev_alarm a) (set (mg_shown m))"
  by (auto simp: handleAlarmTriggered_def renderToast_def)

definition one_toast_each :: "alarm_manager \<Rightarrow> bool" where
  "one_toast_each m \<longleftrightarrow> distinct (mg_shown m) \<and> map ts_alarm (mg_toasts m) = mg_shown m \<and> map ev_alarm (mg_heard m) = mg_shown m"

lemma handle_one_toast: "one_toast_each m \<Longrightarrow> one_toast_each (handleAlarmTriggered a m)"
  by (auto simp: one_toast_each_def handleAlarmTriggered_def renderToast_def)

lemma unread_one_toast: "one_toast_each (on_unread_count n m) \<longleftrightarrow> one_toast_each m"
  by (simp add: one_toast_each_def on_unread_count_def updateBellBadge_def)

lemma new_one_toast: "one_toast_each new_manager"
  by (simp add: one_toast_each_def new_manager_def)

lemma unread_shown [simp]: "mg_shown (on_unread_count n m) = mg_shown m" "mg_heard (on_unread_count n m) = mg_heard m"
  by (simp_all add: on_unread_count_def updateBellBadge_def)

subsection \<open>The order of the list\<close>

lemma append_child_keys:
  assumes "distinct (map ln_key ns)" and "k \<in> ln_key ` set ns" and "\<And>n. ln_key (f n) = ln_key n"
  shows "map ln_key (append_child k f ns) = filter (\<lambda>i. i \<noteq> k) (map ln_key ns) @ [k]"
  using assms(1,2)
proof (induction ns)
  case (Cons n ns)
  show ?case
  proof (cases "ln_key n = k")
    case True
    then have none: "filter (\<lambda>n. ln_key n = k) ns = []" "filter (\<lambda>n. ln_key n \<noteq> k) ns = ns"
      using Cons.prems(1) by (simp_all add: filter_empty_conv filter_id_conv) (metis imageI)+
    have "k \<notin> set (map ln_key ns)" using Cons.prems(1) True by simp
    then have "filter (\<lambda>i. i \<noteq> k) (map ln_key ns) = map ln_key ns" by (intro filter_True) blast
    then show ?thesis using True none assms(3) by (simp add: append_child_def)
  next
    case False
    then show ?thesis using Cons by (simp add: append_child_def)
  qed
qed simp

lemma style_key [simp]: "ln_key (style_node t n) = ln_key n"
  by (simp add: style_node_def)

definition task_nodes :: "list_node list \<Rightarrow> listed_task list \<Rightarrow> nat list" where
  "task_nodes children ts = List.map_filter (\<lambda>t. node_of children (show_int (lt_id t))) ts"

lemma node_of_key: "node_of children i = Some k \<Longrightarrow> k \<in> ln_key ` set children"
  by (auto simp: node_of_def find_Some_iff in_set_conv_nth image_iff) (metis nth_mem set_rev length_rev)

text \<open>
  After the bell is clicked, the children of the list that belong to tasks of the server's answer stand
  in the order of that answer, and they stand behind all children that belong to none: the deferred tasks
  come first among the tasks, not first in the list.
\<close>

theorem reorder_follows_server:
  assumes "distinct (map ln_key children)" and "distinct (task_nodes children ts)"
  shows "map ln_key (reorder_tasks children ts)
    = filter (\<lambda>k. k \<notin> set (task_nodes children ts)) (map ln_key children) @ task_nodes children ts"
proof -
  let ?step = "\<lambda>ns t. case node_of children (show_int (lt_id t)) of None \<Rightarrow> ns | Some k \<Rightarrow> append_child k (style_node t) ns"
  have "distinct (map ln_key ns) \<Longrightarrow> ln_key ` set ns = ln_key ` set children \<Longrightarrow> distinct (task_nodes children ts) \<Longrightarrow>
      map ln_key (foldl ?step ns ts) = filter (\<lambda>k. k \<notin> set (task_nodes children ts)) (map ln_key ns) @ task_nodes children ts" for ns ts
  proof (induction ts arbitrary: ns)
    case Nil
    then show ?case by (simp add: task_nodes_def List.map_filter_def)
  next
    case (Cons t ts)
    show ?case
    proof (cases "node_of children (show_int (lt_id t))")
      case None
      then show ?thesis using Cons by (simp add: task_nodes_def List.map_filter_def)
    next
      case (Some k)
      have tn: "task_nodes children (t # ts) = k # task_nodes children ts"
        using Some by (simp add: task_nodes_def List.map_filter_def)
      let ?ns = "append_child k (style_node t) ns"
      have keys: "map ln_key ?ns = filter (\<lambda>i. i \<noteq> k) (map ln_key ns) @ [k]"
        using append_child_keys [OF Cons.prems(1)] node_of_key [OF Some] Cons.prems(2) by simp
      have d: "distinct (map ln_key ?ns)" unfolding keys using Cons.prems(1) by (simp only: distinct_append distinct_filter) simp
      have st: "ln_key ` set ?ns = ln_key ` set children"
        using arg_cong [OF keys, of set] Cons.prems(2) node_of_key [OF Some] by auto
      have "k \<notin> set (task_nodes children ts)" "distinct (task_nodes children ts)" using Cons.prems(3) by (simp_all add: tn)
      then have "map ln_key (foldl ?step ?ns ts)
          = filter (\<lambda>i. i \<notin> set (k # task_nodes children ts)) (map ln_key ns) @ k # task_nodes children ts"
        using Cons.IH [OF d st] unfolding keys by (simp add: filter_filter conj_commute)
      then show ?thesis using Some by (simp add: tn)
    qed
  qed
  from this [OF assms(1) refl assms(2)] show ?thesis by (simp add: reorder_tasks_def)
qed

definition child :: "nat \<Rightarrow> string option \<Rightarrow> list_node" where
  "child k i = \<lparr>ln_key = k, ln_task = i, ln_border = False, ln_badge = None\<rparr>"

lemma reorder_follows_server_witness:
  "map ln_key (reorder_tasks [child 0 (Some ''1''), child 1 None, child 2 (Some ''2'')]
     [\<lparr>lt_id = 2, lt_deferred = True, lt_count = 3\<rparr>, \<lparr>lt_id = 1, lt_deferred = False, lt_count = 0\<rparr>]) = [1, 2, 0]"
proof -
  let ?c = "[child 0 (Some ''1''), child 1 None, child 2 (Some ''2'')]"
  let ?t = "[\<lparr>lt_id = 2, lt_deferred = True, lt_count = 3\<rparr>, \<lparr>lt_id = 1, lt_deferred = False, lt_count = 0\<rparr>]"
  have tn: "task_nodes ?c ?t = [2, 0]" by code_simp
  have "map ln_key (reorder_tasks ?c ?t) = filter (\<lambda>k. k \<notin> set (task_nodes ?c ?t)) (map ln_key ?c) @ task_nodes ?c ?t"
    by (rule reorder_follows_server) (simp add: child_def, simp only: tn, simp)
  then show ?thesis unfolding tn by (simp add: child_def)
qed

text \<open>The badge shows the count up to 99, then \<open>99+\<close>, and nothing for zero.\<close>

lemma bell_badge:
  "fst (mg_badge (on_unread_count n m)) = (if n \<le> 0 then '''' else if n \<le> 99 then show_int n else ''99+'')
   \<and> (snd (mg_badge (on_unread_count n m)) \<longleftrightarrow> 0 < n)"
  by (simp add: on_unread_count_def updateBellBadge_def)

end
