(* ===== verification/Server_Middleware.thy ===== *)
theory Server_Middleware
  imports Notification_Server
begin

text \<open>
  What a request of the server passes before its handler: the fixed-window rate limit of
  \<open>middleware/rateLimit.ts\<close> and the token check of \<open>middleware/auth.ts\<close>, in the order in which
  \<open>routes/notificationRoutes.ts\<close> puts them.
\<close>

subsection \<open>Authentication (middleware/auth.ts)\<close>

text \<open>
  A claim of a token: absent, a number, the empty text, or other text with the number that \<open>Number\<close>
  reads in it.  Verifying a token is the work of a library, which gives the claims or throws.
\<close>

datatype claim = Claim_absent | Claim_number js_value_num | Claim_empty | Claim_text js_value_num

record claims =
  cl_userId :: claim
  cl_sub :: claim

fun truthy_claim :: "claim \<Rightarrow> bool" where
  "truthy_claim Claim_absent = False"
| "truthy_claim (Claim_number x) = (x \<noteq> JNaN \<and> x \<noteq> JNum 0)"
| "truthy_claim Claim_empty = False"
| "truthy_claim (Claim_text x) = True"

fun claim_number :: "claim \<Rightarrow> js_value_num" where
  "claim_number Claim_absent = JNaN"
| "claim_number (Claim_number x) = x"
| "claim_number Claim_empty = JNum 0"
| "claim_number (Claim_text x) = x"

definition bearer_token :: "string \<Rightarrow> string" where
  "bearer_token h = (if take 7 h = ''Bearer '' then drop 7 h else h)"

definition unauthorized :: "string \<Rightarrow> int \<times> error_body" where
  "unauthorized m = error_reply 401 ''UNAUTHORIZED'' (ascii m)"

definition authenticate :: "(string \<Rightarrow> claims option) \<Rightarrow> string option \<Rightarrow> (int \<times> error_body) + js_value_num" where
  "authenticate verify header =
     (case header of
        None \<Rightarrow> Inl (unauthorized ''Authorization token is required.'')
      | Some h \<Rightarrow>
          if h = '''' then Inl (unauthorized ''Authorization token is required.'')
          else (case verify (bearer_token h) of
              None \<Rightarrow> Inl (unauthorized ''Token is invalid or expired.'')
            | Some c \<Rightarrow>
                (let userId = (if truthy_claim (cl_userId c) then cl_userId c else cl_sub c) in
                 if \<not> truthy_claim userId then Inl (unauthorized ''Invalid JWT payload.'')
                 else Inr (claim_number userId))))"

subsection \<open>The rate limit (middleware/rateLimit.ts)\<close>

text \<open>The request as the limiter sees it; times in milliseconds.\<close>

record limited_request =
  rq_time :: int
  rq_route :: string
  rq_user :: "int option"
  rq_ip :: "string option"

datatype subject = Of_user int | Of_ip string | Anon

record rate_options =
  ro_window :: int
  ro_max :: nat

text \<open>What \<open>app.ts\<close> passes for the notification routes.\<close>

definition notification_limit :: rate_options where
  "notification_limit = \<lparr>ro_window = 1, ro_max = 10\<rparr>"

type_synonym rate_key_id = "string \<times> subject \<times> int"

text \<open>The store: a count for a key, and when it runs out.\<close>

type_synonym rate_store = "rate_key_id \<Rightarrow> (nat \<times> int option) option"

definition subject_of :: "limited_request \<Rightarrow> subject" where
  "subject_of r =
     (case rq_user r of Some u \<Rightarrow> Of_user u | None \<Rightarrow> (case rq_ip r of Some ip \<Rightarrow> Of_ip ip | None \<Rightarrow> Anon))"

definition window_id :: "rate_options \<Rightarrow> int \<Rightarrow> int" where
  "window_id opts now = now div (1000 * ro_window opts)"

definition rate_key :: "rate_options \<Rightarrow> limited_request \<Rightarrow> rate_key_id" where
  "rate_key opts r = (rq_route r, subject_of r, window_id opts (rq_time r))"

definition live_count :: "int \<Rightarrow> (nat \<times> int option) option \<Rightarrow> nat \<times> int option" where
  "live_count now v =
     (case v of None \<Rightarrow> (0, None) | Some (n, None) \<Rightarrow> (n, None)
      | Some (n, Some e) \<Rightarrow> if now < e then (n, Some e) else (0, None))"

datatype rate_answer = Pass "nat option" | Too_many "int \<times> error_body" int

definition rate_limit :: "rate_options \<Rightarrow> (nat \<Rightarrow> bool) \<Rightarrow> limited_request \<Rightarrow> rate_store \<Rightarrow> rate_answer \<times> rate_store" where
  "rate_limit opts up r st =
     (let key = rate_key opts r; c = live_count (rq_time r) (st key); count = fst c + 1 in
      if \<not> up 0 then (Pass None, st)
      else if count = 1 \<and> \<not> up 1 then (Pass None, st(key \<mapsto> (count, snd c)))
      else (if ro_max opts < count
            then Too_many (error_reply 429 ''TOO_MANY_REQUESTS'' [0xC694, 0xCCAD, 0xC774, 0x20, 0xB108, 0xBB34,
               0x20, 0xC7A6, 0xC2B5, 0xB2C8, 0xB2E4, 0x2E, 0x20, 0xC7A0, 0xC2DC, 0x20, 0xD6C4, 0x20, 0xB2E4,
                  0xC2DC, 0x20, 0xC2DC, 0xB3C4, 0xD574, 0x20, 0xC8FC, 0xC138, 0xC694, 0x2E])
                   (ro_window opts)
            else Pass (Some (ro_max opts - count)),
            st(key \<mapsto> (count, if count = 1 then Some (rq_time r + 1000 * ro_window opts) else snd c))))"

definition passes :: "rate_answer \<Rightarrow> bool" where
  "passes a \<longleftrightarrow> (case a of Pass _ \<Rightarrow> True | Too_many _ _ \<Rightarrow> False)"

fun rate_run :: "rate_options \<Rightarrow> limited_request list \<Rightarrow> rate_store \<Rightarrow> bool list" where
  "rate_run opts [] st = []"
| "rate_run opts (r # rs) st =
     (let a = rate_limit opts (\<lambda>_. True) r st in passes (fst a) # rate_run opts rs (snd a))"

text \<open>The order of \<open>GET /notifications\<close>: the limit first, when no user is known yet, then the token.\<close>

definition limited_list ::
  "rate_options \<Rightarrow> (string \<Rightarrow> claims option) \<Rightarrow> (nat \<Rightarrow> bool) \<Rightarrow> string option \<Rightarrow> string option \<Rightarrow> int
   \<Rightarrow> list_params \<Rightarrow> notif_world \<Rightarrow> rate_store \<Rightarrow> ((int \<times> error_body) + list_page) \<times> rate_store" where
  "limited_list opts verify up header ip now p w st =
     (let a = rate_limit opts (\<lambda>_. True) \<lparr>rq_time = now, rq_route = ''GET:/api/notifications'', rq_user = None, rq_ip = ip\<rparr> st in
      (case fst a of
         Too_many e _ \<Rightarrow> Inl e
       | Pass _ \<Rightarrow>
           (case authenticate verify header of
              Inl e \<Rightarrow> Inl e
            | Inr x \<Rightarrow>
                (case as_integer x of
                   Some u \<Rightarrow> get_notifications up u p w
                 | None \<Rightarrow>
                     (if x = JNaN \<or> (case lp_user p of None \<Rightarrow> False | Some y \<Rightarrow> y \<noteq> x)
                      then Inl (error_reply 403 ''FORBIDDEN'' [0xB2E4, 0xB978, 0x20, 0xC0AC, 0xC6A9, 0xC790,
                         0xC758, 0x20, 0xC54C, 0xB9BC, 0xC740, 0x20, 0xC870, 0xD68C, 0xD560, 0x20, 0xC218, 0x20,
                            0xC5C6, 0xC2B5, 0xB2C8, 0xB2E4, 0x2E])
                      else Inl (error_reply 500 ''INTERNAL_SERVER_ERROR'' [0xC54C, 0xB9BC, 0x20, 0xC870, 0xD68C,
                         0xC5D0, 0x20, 0xC2E4, 0xD328, 0xD588, 0xC2B5, 0xB2C8, 0xB2E4, 0x2E])))),
       snd a))"

subsection \<open>What the limit lets through\<close>

text \<open>The store after a list of requests: for every key their number, to outlast the window.\<close>

definition seen :: "rate_options \<Rightarrow> limited_request list \<Rightarrow> rate_key_id \<Rightarrow> nat" where
  "seen opts rs k = length (filter (\<lambda>r. rate_key opts r = k) rs)"

definition counts :: "rate_options \<Rightarrow> limited_request list \<Rightarrow> rate_store \<Rightarrow> bool" where
  "counts opts rs st \<longleftrightarrow> (\<forall>k. if seen opts rs k = 0 then st k = None
     else \<exists>e. st k = Some (seen opts rs k, Some e) \<and> (snd (snd k) + 1) * (1000 * ro_window opts) \<le> e)"

lemma window_bounds:
  assumes "0 < ro_window opts"
  shows "now < (window_id opts now + 1) * (1000 * ro_window opts)"
    and "window_id opts now * (1000 * ro_window opts) \<le> now"
proof -
  let ?m = "1000 * ro_window opts"
  have m: "0 < ?m" using assms by simp
  note b = div_mult_mod_eq [of now ?m] pos_mod_bound [OF m, of now] pos_mod_sign [OF m, of now]
  show "now < (window_id opts now + 1) * ?m" unfolding window_id_def distrib_right mult_1 using b by linarith
  show "window_id opts now * ?m \<le> now" unfolding window_id_def using b by linarith
qed

lemma counts_at:
  assumes "counts opts rs st"
  shows "seen opts rs k = 0 \<Longrightarrow> st k = None"
    and "seen opts rs k \<noteq> 0 \<Longrightarrow> \<exists>e. st k = Some (seen opts rs k, Some e) \<and> (snd (snd k) + 1) * (1000 * ro_window opts) \<le> e"
  using spec [OF assms [unfolded counts_def], of k] by simp_all

lemma key_window: "snd (snd (rate_key opts r)) = window_id opts (rq_time r)"
  by (simp add: rate_key_def)

lemma length_filter_or:
  "(\<And>x. P x \<Longrightarrow> Q x \<or> R x) \<Longrightarrow> length (filter P xs) \<le> length (filter Q xs) + length (filter R xs)"
  by (induction xs) fastforce+

lemma live_seen:
  assumes "counts opts rs st" and "0 < ro_window opts"
  shows "fst (live_count (rq_time r) (st (rate_key opts r))) = seen opts rs (rate_key opts r)
    \<and> (seen opts rs (rate_key opts r) \<noteq> 0 \<longrightarrow>
        st (rate_key opts r) = Some (live_count (rq_time r) (st (rate_key opts r))))"
proof (cases "seen opts rs (rate_key opts r) = 0")
  case True
  then have "st (rate_key opts r) = None" by (rule counts_at(1) [OF assms(1)])
  with True show ?thesis by (simp add: live_count_def)
next
  case False
  then obtain e where e: "st (rate_key opts r) = Some (seen opts rs (rate_key opts r), Some e)"
      "(window_id opts (rq_time r) + 1) * (1000 * ro_window opts) \<le> e"
    using counts_at(2) [OF assms(1) False] unfolding key_window by blast
  then have "rq_time r < e" using window_bounds(1) [OF assms(2), of "rq_time r"] by linarith
  with e(1) show ?thesis by (simp add: live_count_def)
qed

lemma rate_limit_counts:
  assumes "counts opts rs st" and "0 < ro_window opts"
  shows "counts opts (rs @ [r]) (snd (rate_limit opts (\<lambda>_. True) r st))"
    and "passes (fst (rate_limit opts (\<lambda>_. True) r st)) \<longleftrightarrow> seen opts (rs @ [r]) (rate_key opts r) \<le> ro_max opts"
proof -
  let ?k = "rate_key opts r" and ?c = "live_count (rq_time r) (st (rate_key opts r))"
  note live = live_seen [OF assms, of r]
  have sn: "seen opts (rs @ [r]) k = seen opts rs k + (if k = ?k then 1 else 0)" for k by (auto simp: seen_def)
  have st: "snd (rate_limit opts (\<lambda>_. True) r st)
      = st(?k \<mapsto> (fst ?c + 1, if fst ?c = 0 then Some (rq_time r + 1000 * ro_window opts) else snd ?c))"
    by (simp add: rate_limit_def Let_def)
  have new: "\<exists>e. (if fst ?c = 0 then Some (rq_time r + 1000 * ro_window opts) else snd ?c) = Some e
      \<and> (window_id opts (rq_time r) + 1) * (1000 * ro_window opts) \<le> e"
  proof (cases "fst ?c = 0")
    case True
    then show ?thesis using window_bounds(2) [OF assms(2), of "rq_time r"] by (simp add: distrib_right)
  next
    case False
    then have n: "seen opts rs ?k \<noteq> 0" using live by simp
    then obtain e where "st ?k = Some (seen opts rs ?k, Some e)" "(window_id opts (rq_time r) + 1) * (1000 * ro_window opts) \<le> e"
      using counts_at(2) [OF assms(1) n] unfolding key_window by blast
    moreover have "st ?k = Some ?c" using live n by simp
    ultimately have "snd ?c = Some e" by (metis option.inject snd_conv)
    with False show ?thesis using \<open>_ \<le> e\<close> by simp
  qed
  show "counts opts (rs @ [r]) (snd (rate_limit opts (\<lambda>_. True) r st))"
    unfolding counts_def
  proof
    fix k
    show "if seen opts (rs @ [r]) k = 0 then snd (rate_limit opts (\<lambda>_. True) r st) k = None
      else \<exists>e. snd (rate_limit opts (\<lambda>_. True) r st) k = Some (seen opts (rs @ [r]) k, Some e)
        \<and> (snd (snd k) + 1) * (1000 * ro_window opts) \<le> e"
    proof (cases "k = ?k")
      case True
      show ?thesis using new live unfolding True key_window st by (simp add: sn)
    next
      case False
      then show ?thesis using counts_at [OF assms(1), of k] unfolding st by (simp add: sn)
    qed
  qed
  show "passes (fst (rate_limit opts (\<lambda>_. True) r st)) \<longleftrightarrow> seen opts (rs @ [r]) (rate_key opts r) \<le> ro_max opts"
    using live by (simp add: rate_limit_def Let_def passes_def sn not_less)
qed

lemma no_counts: "counts opts [] Map.empty"
  by (simp add: counts_def seen_def)

text \<open>The requests that pass, in their order.\<close>

definition passed :: "rate_options \<Rightarrow> limited_request list \<Rightarrow> rate_store \<Rightarrow> limited_request list" where
  "passed opts rs st = map fst (filter snd (zip rs (rate_run opts rs st)))"

lemma passed_per_key:
  assumes "0 < ro_window opts" and "counts opts ps st"
  shows "length (filter (\<lambda>r. rate_key opts r = k) (passed opts rs st)) + seen opts ps k \<le> max (ro_max opts) (seen opts ps k)"
  using assms(2)
proof (induction rs arbitrary: ps st)
  case (Cons r rs)
  note step = rate_limit_counts [OF Cons.prems assms(1), of r]
  have sn: "seen opts (ps @ [r]) k = seen opts ps k + (if k = rate_key opts r then 1 else 0)" by (auto simp: seen_def)
  have "length (filter (\<lambda>r. rate_key opts r = k) (passed opts rs (snd (rate_limit opts (\<lambda>_. True) r st)))) + seen opts (ps @ [r]) k
      \<le> max (ro_max opts) (seen opts (ps @ [r]) k)" by (rule Cons.IH [OF step(1)])
  then show ?case using step(2) by (auto simp: passed_def Let_def sn)
qed (simp add: passed_def)

text \<open>
  C14. A request passes exactly when it is among the first \<open>max\<close> of its window on its route and subject,
  wherever the windows lie and however the requests of others are mixed in.
\<close>

theorem rate_limit_is_exact:
  assumes "0 < ro_window opts" and "i < length rs"
  shows "rate_run opts rs Map.empty ! i \<longleftrightarrow> seen opts (take (Suc i) rs) (rate_key opts (rs ! i)) \<le> ro_max opts"
proof -
  have "counts opts ps st \<Longrightarrow> i < length rs \<Longrightarrow>
      rate_run opts rs st ! i \<longleftrightarrow> seen opts (ps @ take (Suc i) rs) (rate_key opts (rs ! i)) \<le> ro_max opts" for ps st i
  proof (induction rs arbitrary: ps st i)
    case (Cons r rs)
    note step = rate_limit_counts [OF Cons.prems(1) assms(1), of r]
    show ?case
    proof (cases i)
      case 0
      then show ?thesis using step(2) by (simp add: Let_def)
    next
      case (Suc j)
      then show ?thesis using Cons.IH [OF step(1), of j] Cons.prems(2) by (simp add: Let_def)
    qed
  qed simp
  from this [OF no_counts assms(2)] show ?thesis by simp
qed

definition hit :: "int \<Rightarrow> limited_request" where
  "hit t = \<lparr>rq_time = t, rq_route = ''r'', rq_user = Some 1, rq_ip = None\<rparr>"

lemma rate_limit_is_exact_witness:
  "\<not> rate_run \<lparr>ro_window = 1, ro_max = 1\<rparr> [hit 0, hit 999, hit 1000] Map.empty ! 1
   \<and> rate_run \<lparr>ro_window = 1, ro_max = 1\<rparr> [hit 0, hit 999, hit 1000] Map.empty ! 2"
  using rate_limit_is_exact [of "\<lparr>ro_window = 1, ro_max = 1\<rparr>" 1 "[hit 0, hit 999, hit 1000]"]
    rate_limit_is_exact [of "\<lparr>ro_window = 1, ro_max = 1\<rparr>" 2 "[hit 0, hit 999, hit 1000]"]
  by (simp add: seen_def rate_key_def window_id_def subject_of_def hit_def numeral_eq_Suc take_Cons')

text \<open>
  In any span of time as long as the window at most twice \<open>max\<close> requests of a subject pass on a
  route: the span meets two windows at most.
\<close>

theorem rate_limit_burst:
  assumes "0 < ro_window opts"
  shows "length (filter (\<lambda>r. rq_route r = route \<and> subject_of r = s \<and> a \<le> rq_time r \<and> rq_time r < a + 1000 * ro_window opts)
      (passed opts rs Map.empty)) \<le> 2 * ro_max opts"
proof -
  let ?w = "window_id opts a" and ?P = "passed opts rs Map.empty"
  let ?in = "\<lambda>k r. rate_key opts r = (route, s, k)"
  have "?in ?w r \<or> ?in (?w + 1) r"
    if "rq_route r = route" "subject_of r = s" "a \<le> rq_time r" "rq_time r < a + 1000 * ro_window opts" for r
  proof -
    have m: "0 < 1000 * ro_window opts" using assms by simp
    have "?w \<le> window_id opts (rq_time r)" unfolding window_id_def using that(3) m by (simp add: zdiv_mono1)
    moreover have "window_id opts (rq_time r) \<le> (a + 1000 * ro_window opts) div (1000 * ro_window opts)"
      unfolding window_id_def using that(4) m by (intro zdiv_mono1) simp_all
    moreover have "(a + 1000 * ro_window opts) div (1000 * ro_window opts) = ?w + 1" using m by (simp add: window_id_def)
    ultimately have "window_id opts (rq_time r) = ?w \<or> window_id opts (rq_time r) = ?w + 1" by linarith
    then show ?thesis using that(1,2) by (auto simp: rate_key_def)
  qed
  then have "length (filter (\<lambda>r. rq_route r = route \<and> subject_of r = s \<and> a \<le> rq_time r \<and> rq_time r < a + 1000 * ro_window opts) ?P)
      \<le> length (filter (?in ?w) ?P) + length (filter (?in (?w + 1)) ?P)"
    by (intro length_filter_or) blast
  also have "\<dots> \<le> ro_max opts + ro_max opts"
    using passed_per_key [OF assms no_counts] by (intro add_mono) (auto simp: seen_def)
  finally show ?thesis by simp
qed

lemma rate_limit_burst_witness:
  "length (filter (\<lambda>r. rq_route r = ''r'' \<and> subject_of r = Of_user 1 \<and> 999 \<le> rq_time r \<and> rq_time r < 1999)
      (passed \<lparr>ro_window = 1, ro_max = 1\<rparr> [hit 999, hit 1000, hit 1001] Map.empty)) \<le> 2"
  using rate_limit_burst [of "\<lparr>ro_window = 1, ro_max = 1\<rparr>" "''r''" "Of_user 1" 999 "[hit 999, hit 1000, hit 1001]"] by simp

subsection \<open>Requests without a user\<close>

text \<open>
  The limit stands before the token check, so it counts by address: once \<open>max\<close> requests came from an
  address within a window, with whatever tokens or none, a list request of a user with a valid token
  behind the same address is refused.
\<close>

theorem one_address_shares_the_limit:
  assumes "0 < ro_window opts" and "ro_max opts \<le> length hs"
  shows "\<exists>b. fst (limited_list opts verify up header ip now p w
      (foldl (\<lambda>st h. snd (limited_list opts verify up h ip now p w st)) Map.empty hs)) = Inl (429, b)"
proof -
  let ?r = "\<lparr>rq_time = now, rq_route = ''GET:/api/notifications'', rq_user = None, rq_ip = ip\<rparr> :: limited_request"
  let ?go = "\<lambda>st h. snd (limited_list opts verify up h ip now p w st)"
  have go: "?go st h = snd (rate_limit opts (\<lambda>_. True) ?r st)" for st h by (simp add: limited_list_def Let_def)
  have "counts opts (replicate n ?r) st \<Longrightarrow> counts opts (replicate (n + length hs) ?r) (foldl ?go st hs)" for n st hs
  proof (induction hs arbitrary: n st)
    case (Cons h hs)
    have "counts opts (replicate (Suc n) ?r) (?go st h)"
      using rate_limit_counts(1) [OF Cons.prems assms(1), of ?r] unfolding go by (simp flip: replicate_append_same)
    from Cons.IH [OF this] show ?case by simp
  qed simp
  from this [of 0 Map.empty hs] have c: "counts opts (replicate (length hs) ?r) (foldl ?go Map.empty hs)"
    using no_counts by simp
  have "seen opts (replicate (length hs) ?r @ [?r]) (rate_key opts ?r) = length hs + 1" by (simp add: seen_def)
  then have "\<not> passes (fst (rate_limit opts (\<lambda>_. True) ?r (foldl ?go Map.empty hs)))"
    using rate_limit_counts(2) [OF c assms(1), of ?r] assms(2) by simp
  then show ?thesis
    by (auto simp: limited_list_def Let_def rate_limit_def passes_def error_reply_def split: if_splits)
qed

lemma one_address_shares_the_limit_witness:
  "\<exists>b. fst (limited_list notification_limit (\<lambda>t. Some \<lparr>cl_userId = Claim_number (JNum 1), cl_sub = Claim_absent\<rparr>) (\<lambda>_. True)
      (Some ''t'') (Some ''10.0.0.1'') 0 \<lparr>lp_user = None, lp_unread = None, lp_cursor = No_cursor, lp_limit = None\<rparr>
      \<lparr>nw_db = empty_db, nw_rows = [], nw_next = 1, nw_badge = Map.empty, nw_sent = []\<rparr>
      (foldl (\<lambda>st h. snd (limited_list notification_limit (\<lambda>t. Some \<lparr>cl_userId = Claim_number (JNum 1), cl_sub = Claim_absent\<rparr>)
          (\<lambda>_. True) h (Some ''10.0.0.1'') 0 \<lparr>lp_user = None, lp_unread = None, lp_cursor = No_cursor, lp_limit = None\<rparr>
          \<lparr>nw_db = empty_db, nw_rows = [], nw_next = 1, nw_badge = Map.empty, nw_sent = []\<rparr> st))
        Map.empty (replicate 10 None))) = Inl (429, b)"
  by (rule one_address_shares_the_limit) (simp_all add: notification_limit_def)

end
