(* ===== verification/Alarm_Delivery.thy ===== *)
theory Alarm_Delivery
  imports Alarm_Client Server_Middleware
begin

text \<open>
  The delivery of alarms, \<open>alarm-system/src/realtime/socketHandler.ts\<close>: an alarm goes to the sockets in
  its user's room, or stays in the table as pending and is replayed when the user connects.  The tables,
  the sockets and the managers of the pages form one world; the row of an alarm is inserted by the worker
  that runs the jobs, with the defaults of the migration.
\<close>

subsection \<open>The world\<close>

record alarm_row =
  al_id :: int
  al_task :: int
  al_user :: int
  al_name :: ustring
  al_triggered :: int
  al_read_at :: "int option"
  al_deferred :: bool
  al_count :: int
  al_pending :: bool

text \<open>
  The sockets in the rooms, each with the page it belongs to and its user; \<open>aw_broken\<close> are the pages
  whose connection is down without the server having noticed.
\<close>

record alarm_world =
  aw_rows :: "alarm_row list"
  aw_deadline :: "int \<Rightarrow> int option"
  aw_sockets :: "(nat \<times> int) list"
  aw_broken :: "nat list"
  aw_pages :: "nat \<Rightarrow> alarm_manager"

definition to_socket :: "nat \<Rightarrow> (alarm_manager \<Rightarrow> alarm_manager) \<Rightarrow> alarm_world \<Rightarrow> alarm_world" where
  "to_socket c f w =
     (if c \<in> set (aw_broken w) then w else w\<lparr>aw_pages := (aw_pages w)(c := f (aw_pages w c))\<rparr>)"

definition to_room :: "int \<Rightarrow> (alarm_manager \<Rightarrow> alarm_manager) \<Rightarrow> alarm_world \<Rightarrow> alarm_world" where
  "to_room u f w =
     w\<lparr>aw_pages := (\<lambda>c. if (c, u) \<in> set (aw_sockets w) \<and> c \<notin> set (aw_broken w) then f (aw_pages w c) else aw_pages w c)\<rparr>"

subsection \<open>The handler\<close>

definition socket_auth :: "(string \<Rightarrow> claims option) \<Rightarrow> string option \<Rightarrow> string option \<Rightarrow> string + js_value_num" where
  "socket_auth verify auth_token header =
     (case (case auth_token of Some t \<Rightarrow> if t = '''' then header else Some t | None \<Rightarrow> header) of
        None \<Rightarrow> Inl ''Authentication error: Token is required''
      | Some token \<Rightarrow>
          if token = '''' then Inl ''Authentication error: Token is required''
          else (case verify (bearer_token token) of
              None \<Rightarrow> Inl ''Authentication error: Invalid signature or expired token''
            | Some c \<Rightarrow>
                (let userId = (if truthy_claim (cl_userId c) then cl_userId c else cl_sub c) in
                 if \<not> truthy_claim userId then Inl ''Authentication error: Invalid payload structure''
                 else Inr (claim_number userId))))"

definition count_unread_alarms :: "int \<Rightarrow> alarm_row list \<Rightarrow> int" where
  "count_unread_alarms u rows = int (length (filter (\<lambda>r. al_user r = u \<and> al_read_at r = None) rows))"

definition emit_unread_alarms :: "bool \<Rightarrow> int \<Rightarrow> alarm_world \<Rightarrow> alarm_world" where
  "emit_unread_alarms up u w = (if up then to_room u (on_unread_count (count_unread_alarms u (aw_rows w))) w else w)"

definition event_of :: "int \<Rightarrow> alarm_row \<Rightarrow> alarm_event" where
  "event_of deadline r =
     \<lparr>ev_alarm = al_id r, ev_task = al_task r, ev_user = al_user r, ev_name = al_name r, ev_deadline = deadline,
      ev_triggered = al_triggered r, ev_deferred = al_deferred r, ev_count = al_count r\<rparr>"

definition mark_delivered :: "int set \<Rightarrow> alarm_world \<Rightarrow> alarm_world" where
  "mark_delivered ids w =
     w\<lparr>aw_rows := update_where (\<lambda>r. al_id r \<in> ids) (\<lambda>r. r\<lparr>al_pending := False\<rparr>) (aw_rows w)\<rparr>"

text \<open>\<open>up\<close> tells which statements the database executes; a failed one is logged and ends the handler.\<close>

definition sendAlarmToUser :: "(nat \<Rightarrow> bool) \<Rightarrow> int \<Rightarrow> alarm_row \<Rightarrow> int \<Rightarrow> alarm_world \<Rightarrow> alarm_world" where
  "sendAlarmToUser up u r deadline w =
     (if list_ex (\<lambda>s. snd s = u) (aw_sockets w)
      then (let w1 = to_room u (handleAlarmTriggered (event_of deadline r)) w in
            if up 0 then emit_unread_alarms (up 1) u (mark_delivered {al_id r} w1) else w1)
      else w)"

definition pending_rows :: "int \<Rightarrow> alarm_row list \<Rightarrow> alarm_row list" where
  "pending_rows u rows = sort_key al_triggered (filter (\<lambda>r. al_user r = u \<and> al_pending r) rows)"

definition replay_event :: "int \<Rightarrow> alarm_world \<Rightarrow> alarm_row \<Rightarrow> alarm_event" where
  "replay_event now w r = event_of (or_default (aw_deadline w (al_task r)) now) r"

definition replayPendingAlarms :: "(nat \<Rightarrow> bool) \<Rightarrow> nat \<Rightarrow> int \<Rightarrow> int \<Rightarrow> alarm_world \<Rightarrow> alarm_world" where
  "replayPendingAlarms up c u now w =
     (if \<not> up 0 then w
      else (let rows = pending_rows u (aw_rows w) in
        if rows = [] then w
        else (let w1 = to_socket c (\<lambda>m. foldl (\<lambda>m r. handleAlarmTriggered (replay_event now w r) m) m rows) w in
              if up 1 then mark_delivered (al_id ` set rows) w1 else w1)))"

text \<open>A connection with the user of its token; a user that is no number or 0 is disconnected.\<close>

definition on_connection :: "(nat \<Rightarrow> bool) \<Rightarrow> nat \<Rightarrow> js_value_num \<Rightarrow> int \<Rightarrow> alarm_world \<Rightarrow> alarm_world" where
  "on_connection up c user now w =
     (case as_integer user of
        None \<Rightarrow> w
      | Some u \<Rightarrow>
          if u = 0 then w
          else emit_unread_alarms (up 2) u
                 (replayPendingAlarms up c u now (w\<lparr>aw_sockets := aw_sockets w @ [(c, u)], aw_broken := removeAll c (aw_broken w)\<rparr>)))"

subsection \<open>The steps of the world\<close>

text \<open>
  A page connects as its user; its connection ends, or breaks without notice; a job's worker inserts the
  row of an alarm and sends it.
\<close>

datatype alarm_op =
    Connect nat "nat \<Rightarrow> bool" int
  | Disconnect nat
  | Break nat
  | Trigger "nat \<Rightarrow> bool" alarm_row int

fun alarm_step :: "(nat \<Rightarrow> int) \<Rightarrow> alarm_world \<Rightarrow> alarm_op \<Rightarrow> alarm_world" where
  "alarm_step owner w (Connect c up now) = on_connection up c (JNum (of_int (owner c))) now w"
| "alarm_step owner w (Disconnect c) = w\<lparr>aw_sockets := filter (\<lambda>s. fst s \<noteq> c) (aw_sockets w), aw_broken := removeAll c (aw_broken w)\<rparr>"
| "alarm_step owner w (Break c) = w\<lparr>aw_broken := c # aw_broken w\<rparr>"
| "alarm_step owner w (Trigger up r deadline) =
     sendAlarmToUser up (al_user r) r deadline (w\<lparr>aw_rows := aw_rows w @ [r\<lparr>al_pending := True\<rparr>]\<rparr>)"

definition empty_alarms :: alarm_world where
  "empty_alarms = \<lparr>aw_rows = [], aw_deadline = Map.empty, aw_sockets = [], aw_broken = [], aw_pages = (\<lambda>_. new_manager)\<rparr>"

subsection \<open>What each operation does to a page\<close>

lemma to_room_page: "aw_pages (to_room u f w) c = aw_pages w c \<or> aw_pages (to_room u f w) c = f (aw_pages w c)"
  by (simp add: to_room_def)

lemma to_room_other [simp]: "aw_rows (to_room u f w) = aw_rows w" "aw_sockets (to_room u f w) = aw_sockets w"
  "aw_broken (to_room u f w) = aw_broken w" "aw_deadline (to_room u f w) = aw_deadline w"
  by (simp_all add: to_room_def)

lemma to_socket_other [simp]: "aw_rows (to_socket c f w) = aw_rows w" "aw_sockets (to_socket c f w) = aw_sockets w"
  "aw_broken (to_socket c f w) = aw_broken w"
  by (simp_all add: to_socket_def)

lemma mark_other [simp]: "aw_pages (mark_delivered I w) = aw_pages w" "aw_sockets (mark_delivered I w) = aw_sockets w"
  "aw_broken (mark_delivered I w) = aw_broken w"
  by (simp_all add: mark_delivered_def)

lemma emit_other [simp]: "aw_rows (emit_unread_alarms up u w) = aw_rows w" "aw_sockets (emit_unread_alarms up u w) = aw_sockets w"
  "aw_broken (emit_unread_alarms up u w) = aw_broken w"
  "mg_shown (aw_pages (emit_unread_alarms up u w) c) = mg_shown (aw_pages w c)"
  "mg_heard (aw_pages (emit_unread_alarms up u w) c) = mg_heard (aw_pages w c)"
  by (simp_all add: emit_unread_alarms_def to_room_def)

lemma shown_foldl: "set (mg_shown (foldl (\<lambda>m r. handleAlarmTriggered (g r) m) m rs)) = set (mg_shown m) \<union> (\<lambda>r. ev_alarm (g r)) ` set rs"
  by (induction rs arbitrary: m) (auto simp: handle_shown)

lemma event_id [simp]: "ev_alarm (event_of d r) = al_id r" "ev_alarm (replay_event now w r) = al_id r"
  by (simp_all add: event_of_def replay_event_def)

lemma foldl_one_toast: "one_toast_each m \<Longrightarrow> one_toast_each (foldl (\<lambda>m r. handleAlarmTriggered (g r) m) m rs)"
  by (induction rs arbitrary: m) (simp_all add: handle_one_toast)

lemma room_one_toast: "\<forall>c. one_toast_each (aw_pages w c) \<Longrightarrow> \<forall>c. one_toast_each (aw_pages (to_room u (handleAlarmTriggered e) w) c)"
  by (simp add: to_room_def handle_one_toast)

lemma emit_one_toast: "\<forall>c. one_toast_each (aw_pages w c) \<Longrightarrow> \<forall>c. one_toast_each (aw_pages (emit_unread_alarms up u w) c)"
  by (simp add: emit_unread_alarms_def to_room_def unread_one_toast)

lemma step_one_toast:
  assumes "\<forall>c. one_toast_each (aw_pages w c)"
  shows "\<forall>c. one_toast_each (aw_pages (alarm_step owner w x) c)"
proof (cases x)
  case (Connect c up now)
  have "\<forall>d. one_toast_each (aw_pages (replayPendingAlarms up c u now v) d)"
    if "\<forall>d. one_toast_each (aw_pages v d)" for u v
    using that by (simp add: replayPendingAlarms_def Let_def to_socket_def foldl_one_toast)
  then show ?thesis using assms emit_one_toast Connect by (simp add: on_connection_def as_integer_def)
next
  case (Trigger up r d)
  have "\<forall>c. one_toast_each (aw_pages (to_room (al_user r) (handleAlarmTriggered (event_of d r))
      (w\<lparr>aw_rows := aw_rows w @ [r\<lparr>al_pending := True\<rparr>]\<rparr>)) c)" using assms by (intro room_one_toast) simp
  then show ?thesis using assms emit_one_toast Trigger by (simp add: sendAlarmToUser_def Let_def)
qed (use assms in simp_all)

text \<open>
  However often an alarm is sent and replayed, a page shows one toast for it and calls its listener
  once: after any sequence of connections, breaks and alarms, the toasts of a page are of distinct alarms,
  in the order in which its listener heard them.
\<close>

theorem each_alarm_is_shown_once:
  shows "distinct (map ts_alarm (mg_toasts (aw_pages (foldl (alarm_step owner) empty_alarms ops) c)))
    \<and> map ev_alarm (mg_heard (aw_pages (foldl (alarm_step owner) empty_alarms ops) c))
        = map ts_alarm (mg_toasts (aw_pages (foldl (alarm_step owner) empty_alarms ops) c))"
proof -
  have "\<forall>c. one_toast_each (aw_pages w c) \<Longrightarrow> \<forall>c. one_toast_each (aw_pages (foldl (alarm_step owner) w ops) c)" for w ops
    by (induction ops arbitrary: w) (simp_all add: step_one_toast)
  from this [of empty_alarms ops] show ?thesis
    using new_one_toast by (simp add: empty_alarms_def one_toast_each_def)
qed

subsection \<open>No alarm is lost\<close>

definition reached :: "(nat \<Rightarrow> int) \<Rightarrow> alarm_world \<Rightarrow> alarm_row \<Rightarrow> bool" where
  "reached owner w r \<longleftrightarrow> (\<exists>c. owner c = al_user r \<and> al_id r \<in> set (mg_shown (aw_pages w c)))"

definition sockets_ok :: "(nat \<Rightarrow> int) \<Rightarrow> alarm_world \<Rightarrow> bool" where
  "sockets_ok owner w \<longleftrightarrow> (\<forall>s \<in> set (aw_sockets w). snd s = owner (fst s)) \<and> aw_broken w = []"

definition delivery_ok :: "(nat \<Rightarrow> int) \<Rightarrow> alarm_world \<Rightarrow> bool" where
  "delivery_ok owner w \<longleftrightarrow> sockets_ok owner w \<and> distinct (map al_id (aw_rows w))
     \<and> (\<forall>r \<in> set (aw_rows w). al_pending r \<or> reached owner w r)"

lemma mark_ids: "map al_id (aw_rows (mark_delivered I w)) = map al_id (aw_rows w)"
  by (simp add: mark_delivered_def map_update_where)

lemma mark_ok:
  assumes "sockets_ok owner w" and "distinct (map al_id (aw_rows w))"
    and "\<forall>r \<in> set (aw_rows w). al_pending r \<or> reached owner w r"
    and "\<forall>r \<in> set (aw_rows w). al_id r \<in> I \<longrightarrow> reached owner w r"
  shows "delivery_ok owner (mark_delivered I w)"
proof -
  have "al_pending x \<or> reached owner (mark_delivered I w) x" if x: "x \<in> set (aw_rows (mark_delivered I w))" for x
  proof -
    obtain r where r: "r \<in> set (aw_rows w)" "x = (if al_id r \<in> I then r\<lparr>al_pending := False\<rparr> else r)"
      using x by (auto simp: mark_delivered_def update_where_def)
    then show ?thesis using assms(3,4) by (auto simp: reached_def split: if_splits)
  qed
  then show ?thesis using assms(1,2) by (simp add: delivery_ok_def sockets_ok_def mark_ids)
qed

lemma emit_ok: "delivery_ok owner (emit_unread_alarms up u w) \<longleftrightarrow> delivery_ok owner w"
  by (simp add: delivery_ok_def sockets_ok_def reached_def)

lemma replay_ok:
  assumes w: "delivery_ok owner w" and "owner c = u"
  shows "delivery_ok owner (replayPendingAlarms up c u now w)"
proof (cases "up 0 \<and> pending_rows u (aw_rows w) \<noteq> []")
  case False
  then show ?thesis using w by (auto simp: replayPendingAlarms_def Let_def)
next
  case True
  define rows where "rows = pending_rows u (aw_rows w)"
  define v where "v = to_socket c (\<lambda>m. foldl (\<lambda>m r. handleAlarmTriggered (replay_event now w r) m) m rows) w"
  have shown: "set (mg_shown (aw_pages v d)) = (if d = c then set (mg_shown (aw_pages w c)) \<union> al_id ` set rows
      else set (mg_shown (aw_pages w d)))" for d
    using w by (simp add: v_def to_socket_def shown_foldl delivery_ok_def sockets_ok_def)
  then have more: "reached owner w r \<Longrightarrow> reached owner v r" for r unfolding reached_def by (metis UnI1)
  have rv: "aw_rows v = aw_rows w" by (simp add: v_def)
  have v: "sockets_ok owner v" "distinct (map al_id (aw_rows v))" "\<forall>r \<in> set (aw_rows v). al_pending r \<or> reached owner v r"
    using w more by (auto simp: delivery_ok_def sockets_ok_def v_def)
  have "\<forall>r \<in> set (aw_rows v). al_id r \<in> al_id ` set rows \<longrightarrow> reached owner v r"
  proof (intro ballI impI)
    fix r assume r: "r \<in> set (aw_rows v)" "al_id r \<in> al_id ` set rows"
    then obtain r' where r': "r' \<in> set (aw_rows v)" "al_user r' = u" "al_id r' = al_id r"
      by (auto simp: rows_def pending_rows_def rv)
    then have "r' = r" using r(1) v(2) by (metis distinct_map inj_onD)
    then show "reached owner v r" using r' r(2) shown [of c] assms(2) unfolding reached_def by auto
  qed
  then have "delivery_ok owner (mark_delivered (al_id ` set rows) v)" by (rule mark_ok [OF v])
  moreover have "delivery_ok owner v" unfolding delivery_ok_def using v by blast
  ultimately show ?thesis using True by (simp add: replayPendingAlarms_def Let_def flip: rows_def v_def)
qed

lemma connect_ok:
  assumes "delivery_ok owner w"
  shows "delivery_ok owner (alarm_step owner w (Connect c up now))"
proof (cases "owner c = 0")
  case False
  have "delivery_ok owner (w\<lparr>aw_sockets := aw_sockets w @ [(c, owner c)], aw_broken := removeAll c (aw_broken w)\<rparr>)"
    using assms by (auto simp: delivery_ok_def sockets_ok_def reached_def)
  from replay_ok [OF this refl] False show ?thesis by (simp add: on_connection_def as_integer_def emit_ok)
qed (use assms in \<open>simp add: on_connection_def as_integer_def\<close>)

lemma trigger_ok:
  assumes "delivery_ok owner w" and "al_id r \<notin> al_id ` set (aw_rows w)"
  shows "delivery_ok owner (alarm_step owner w (Trigger up r d))"
proof -
  let ?w = "w\<lparr>aw_rows := aw_rows w @ [r\<lparr>al_pending := True\<rparr>]\<rparr>"
  have w: "delivery_ok owner ?w" using assms by (auto simp: delivery_ok_def sockets_ok_def reached_def)
  show ?thesis
  proof (cases "list_ex (\<lambda>s. snd s = al_user r) (aw_sockets ?w)")
    case False
    then show ?thesis using w by (simp add: sendAlarmToUser_def)
  next
    case True
    let ?v = "to_room (al_user r) (handleAlarmTriggered (event_of d r)) ?w"
    have b: "aw_broken ?w = []" using w by (simp add: delivery_ok_def sockets_ok_def)
    have more: "reached owner ?w x \<Longrightarrow> reached owner ?v x" for x
      unfolding reached_def to_room_def by (auto simp: handle_shown)
    have v: "sockets_ok owner ?v" "distinct (map al_id (aw_rows ?v))"
      "\<forall>x \<in> set (aw_rows ?v). al_pending x \<or> reached owner ?v x"
      using w more by (auto simp: delivery_ok_def sockets_ok_def)
    have "\<forall>x \<in> set (aw_rows ?v). al_id x \<in> {al_id r} \<longrightarrow> reached owner ?v x"
    proof (intro ballI impI)
      fix x assume x: "x \<in> set (aw_rows ?v)" "al_id x \<in> {al_id r}"
      then have u: "al_user x = al_user r" using assms(2) by (auto simp: image_iff)
      obtain c where c: "(c, al_user r) \<in> set (aw_sockets ?w)" using True by (auto simp: list_ex_iff)
      then have "owner c = al_user r" using w by (force simp: delivery_ok_def sockets_ok_def)
      moreover have "al_id r \<in> set (mg_shown (aw_pages ?v c))"
        using c b by (simp add: to_room_def handle_shown)
      ultimately show "reached owner ?v x" using u x(2) unfolding reached_def by auto
    qed
    then have "delivery_ok owner (mark_delivered {al_id r} ?v)" by (rule mark_ok [OF v])
    moreover have "delivery_ok owner ?v" unfolding delivery_ok_def using v by blast
    ultimately show ?thesis using True by (simp add: sendAlarmToUser_def Let_def emit_ok)
  qed
qed

fun triggered :: "alarm_op list \<Rightarrow> int list" where
  "triggered [] = []"
| "triggered (Trigger up r d # xs) = al_id r # triggered xs"
| "triggered (_ # xs) = triggered xs"

lemma step_ids: "al_id ` set (aw_rows (alarm_step owner w x)) = al_id ` set (aw_rows w) \<union> set (triggered [x])"
proof -
  have m: "al_id ` set (aw_rows (mark_delivered I v)) = al_id ` set (aw_rows v)" for I v
    using mark_ids [of I v] by (metis list.set_map)
  show ?thesis
    by (cases x) (auto simp: on_connection_def replayPendingAlarms_def sendAlarmToUser_def Let_def m as_integer_def)
qed


definition alarm_at :: "int \<Rightarrow> alarm_row" where
  "alarm_at i = \<lparr>al_id = i, al_task = 1, al_user = 1, al_name = [], al_triggered = i, al_read_at = None, al_deferred = False,
     al_count = 0, al_pending = True\<rparr>"


lemma set_pending: "set (pending_rows u rows) = {r \<in> set rows. al_user r = u \<and> al_pending r}"
  by (auto simp: pending_rows_def)

lemma pending_none: "pending_rows u rows = [] \<longleftrightarrow> (\<forall>r \<in> set rows. al_user r = u \<longrightarrow> \<not> al_pending r)"
  using set_pending [of u rows] by (auto simp flip: set_empty)

lemma heard_in_order:
  "sorted (map al_triggered rs) \<Longrightarrow>
   \<exists>es. mg_heard (foldl (\<lambda>m r. handleAlarmTriggered (g r) m) m rs) = mg_heard m @ map g es
     \<and> set es \<subseteq> set rs \<and> sorted (map al_triggered es)"
proof (induction rs arbitrary: m)
  case (Cons r rs)
  obtain es where es: "mg_heard (foldl (\<lambda>m r. handleAlarmTriggered (g r) m) (handleAlarmTriggered (g r) m) rs)
      = mg_heard (handleAlarmTriggered (g r) m) @ map g es" "set es \<subseteq> set rs" "sorted (map al_triggered es)"
    using Cons.IH [of "handleAlarmTriggered (g r) m"] Cons.prems by auto
  show ?case
  proof (cases "ev_alarm (g r) \<in> set (mg_shown m)")
    case True
    then have "handleAlarmTriggered (g r) m = m" by (simp add: handleAlarmTriggered_def)
    with es show ?thesis by (intro exI [of _ es]) auto
  next
    case False
    then have "mg_heard (handleAlarmTriggered (g r) m) = mg_heard m @ [g r]"
      by (simp add: handleAlarmTriggered_def renderToast_def)
    moreover have "sorted (map al_triggered (r # es))" using es(2,3) Cons.prems by auto
    ultimately show ?thesis using es by (intro exI [of _ "r # es"]) auto
  qed
qed simp

text \<open>
  C34. When a user connects and the database answers, every pending alarm of the user is shown on the
  page, in the order in which the alarms were triggered, and none stays pending.
\<close>

theorem connecting_replays_pending:
  assumes "u \<noteq> 0" and "\<forall>k. up k" and "w' = on_connection up c (JNum (of_int u)) now w"
  shows "(\<forall>r \<in> set (aw_rows w). al_user r = u \<and> al_pending r \<longrightarrow> al_id r \<in> set (mg_shown (aw_pages w' c)))
    \<and> (\<forall>r \<in> set (aw_rows w'). al_user r = u \<longrightarrow> \<not> al_pending r)
    \<and> (\<exists>es. mg_heard (aw_pages w' c) = mg_heard (aw_pages w c) @ es \<and> sorted (map ev_triggered es))"
proof -
  let ?w = "w\<lparr>aw_sockets := aw_sockets w @ [(c, u)], aw_broken := removeAll c (aw_broken w)\<rparr>"
  let ?rows = "pending_rows u (aw_rows w)"
  let ?f = "\<lambda>m. foldl (\<lambda>m r. handleAlarmTriggered (replay_event now ?w r) m) m ?rows"
  have w': "w' = emit_unread_alarms (up 2) u (replayPendingAlarms up c u now ?w)"
    using assms(1,3) by (simp add: on_connection_def as_integer_def)
  have p: "aw_pages (replayPendingAlarms up c u now ?w) c = ?f (aw_pages w c)"
    using assms(2) by (simp add: replayPendingAlarms_def Let_def to_socket_def)
  have "sorted (map al_triggered ?rows)" by (simp add: pending_rows_def)
  then obtain es where es: "mg_heard (?f (aw_pages w c)) = mg_heard (aw_pages w c) @ map (replay_event now ?w) es"
      "sorted (map al_triggered es)"
    using heard_in_order by blast
  have "map ev_triggered (map (replay_event now ?w) es) = map al_triggered es"
    by (simp add: replay_event_def event_of_def)
  then have "sorted (map ev_triggered (map (replay_event now ?w) es))" using es(2) by (simp only:)
  moreover have "\<forall>r \<in> set (aw_rows w'). al_user r = u \<longrightarrow> \<not> al_pending r"
    using assms(2) by (auto simp: w' replayPendingAlarms_def Let_def mark_delivered_def update_where_def pending_none
        set_pending split: if_splits)
  moreover have "\<forall>r \<in> set (aw_rows w). al_user r = u \<and> al_pending r \<longrightarrow> al_id r \<in> set (mg_shown (aw_pages w' c))"
    by (simp add: w' p shown_foldl pending_rows_def)
  moreover have "mg_heard (aw_pages w' c) = mg_heard (aw_pages w c) @ map (replay_event now ?w) es"
    by (simp add: w' p es(1))
  ultimately show ?thesis by blast
qed

lemma connecting_replays_pending_witness:
  "{5, 8} \<subseteq> set (mg_shown (aw_pages (on_connection (\<lambda>_. True) 0 (JNum (of_int 1)) 9
      (empty_alarms\<lparr>aw_rows := [alarm_at 8, alarm_at 5]\<rparr>)) 0))"
  using connecting_replays_pending [of 1 "\<lambda>_. True" _ 0 9 "empty_alarms\<lparr>aw_rows := [alarm_at 8, alarm_at 5]\<rparr>"]
  by (simp add: alarm_at_def)

lemma one_shown: "show_nat (Suc 0) = ''1''"
  by code_simp

text \<open>
  An alarm that is emitted over a connection the server still believes in is marked delivered and
  never replayed: the page that connects again has not shown it and never will.
\<close>

theorem alarm_lost_on_broken_connection:
  shows "let w = foldl (alarm_step (\<lambda>_. 1)) empty_alarms
      [Connect 0 (\<lambda>_. True) 1, Break 0, Trigger (\<lambda>_. True) (alarm_at 5) 9, Disconnect 0, Connect 0 (\<lambda>_. True) 7] in
    map al_pending (aw_rows w) = [False] \<and> mg_shown (aw_pages w 0) = [] \<and> fst (mg_badge (aw_pages w 0)) = ''1''"
  by (simp add: empty_alarms_def on_connection_def as_integer_def replayPendingAlarms_def pending_rows_def
      emit_unread_alarms_def to_room_def to_socket_def sendAlarmToUser_def mark_delivered_def update_where_def alarm_at_def
      count_unread_alarms_def on_unread_count_def updateBellBadge_def new_manager_def show_int_def one_shown Let_def)

end
