(* ===== verification/Alarm_Routes.thy ===== *)
theory Alarm_Routes
  imports Alarm_Delivery "HOL-Library.Multiset"
begin

text \<open>
  The alarm API, \<open>alarm-system/src/routes/alarmRoutes.ts\<close>: the order of today's tasks, the history of
  the alarms in two sections, and marking all of them read.
\<close>

subsection \<open>Sorting by several keys\<close>

text \<open>A stable sort keeps what was sorted before among rows of equal key.\<close>

lemma sorted_wrt_filter_iff: "sorted_wrt R (filter P xs) \<longleftrightarrow> sorted_wrt (\<lambda>a b. P a \<and> P b \<longrightarrow> R a b) xs"
  by (induction xs) auto

lemma sort_key_lexicographic:
  fixes f :: "'a \<Rightarrow> 'b::linorder"
  assumes "sorted_wrt R xs"
  shows "sorted_wrt (\<lambda>a b. f a < f b \<or> f a = f b \<and> R a b) (sort_key f xs)"
proof -
  let ?s = "sort_key f xs"
  have le: "sorted_wrt (\<lambda>a b. f a \<le> f b) ?s" using sorted_sort_key [of f xs] by (simp only: sorted_map)
  have "sorted_wrt R (filter (\<lambda>x. f x = k) ?s)" for k
    unfolding sort_key_stable [of f k xs] by (rule sorted_wrt_filter [OF assms])
  then have st: "sorted_wrt (\<lambda>a b. f a = k \<and> f b = k \<longrightarrow> R a b) ?s" for k by (simp only: sorted_wrt_filter_iff)
  show ?thesis
    unfolding sorted_wrt_iff_nth_less
  proof (intro allI impI)
    fix i j assume ij: "i < j" "j < length ?s"
    have "f (?s ! i) \<le> f (?s ! j)" using le ij by (simp only: sorted_wrt_iff_nth_less)
    moreover have "f (?s ! i) = f (?s ! j) \<longrightarrow> R (?s ! i) (?s ! j)"
      using st [of "f (?s ! j)"] ij unfolding sorted_wrt_iff_nth_less by blast
    ultimately show "f (?s ! i) < f (?s ! j) \<or> f (?s ! i) = f (?s ! j) \<and> R (?s ! i) (?s ! j)" by auto
  qed
qed

subsection \<open>Today's tasks\<close>

definition DAY_MS :: int where "DAY_MS = 24 * 60 * 60 * 1000"

definition elevated :: "task_row \<Rightarrow> bool" where
  "elevated t \<longleftrightarrow> tk_deferred t \<and> 0 < tk_deferred_count t"

definition imminent :: "int \<Rightarrow> task_row \<Rightarrow> bool" where
  "imminent now t \<longleftrightarrow> (case tk_deadline t of None \<Rightarrow> False | Some d \<Rightarrow> now \<le> d \<and> d \<le> now + DAY_MS)"

definition today_rank :: "int \<Rightarrow> task_row \<Rightarrow> int" where
  "today_rank now t = (if elevated t then 1 else if imminent now t then 2 else 3)"

text \<open>
  The four sort keys, the last one sorted first; a deadline that is not within the day sorts after those
  that are, as \<open>NULL\<close> does in ascending order.
\<close>

definition today_order :: "int \<Rightarrow> task_row list \<Rightarrow> task_row list" where
  "today_order now ts =
     sort_key (today_rank now)
       (sort_key (\<lambda>t. if elevated t then - tk_deferred_count t else 0)
         (sort_key (\<lambda>t. if imminent now t then (case tk_deadline t of Some d \<Rightarrow> d | None \<Rightarrow> 0) else now + DAY_MS + 1)
           (sort_key (\<lambda>t. - tk_created_at t) ts)))"

definition get_today :: "bool \<Rightarrow> int \<Rightarrow> int \<Rightarrow> server_db \<Rightarrow> (int \<times> error_body) + task_row list" where
  "get_today up u now db =
     (if up then Inr (today_order now (filter (\<lambda>t. tk_user t = u \<and> tk_status t = S_PENDING) (db_tasks db)))
      else Inl (error_reply 500 ''INTERNAL_SERVER_ERROR'' (ascii ''Failed to retrieve today tasks.'')))"

text \<open>The documented order of two tasks.\<close>

definition today_before :: "int \<Rightarrow> task_row \<Rightarrow> task_row \<Rightarrow> bool" where
  "today_before now a b \<longleftrightarrow>
     today_rank now a < today_rank now b
   \<or> today_rank now a = today_rank now b
     \<and> (if elevated a then tk_deferred_count b \<le> tk_deferred_count a
        else if imminent now a then tk_deadline a = tk_deadline b \<or> (\<exists>c d. tk_deadline a = Some c \<and> tk_deadline b = Some d \<and> c < d)
        else tk_created_at b \<le> tk_created_at a)"

text \<open>
  Today's list holds exactly the user's pending tasks, and it is in the documented order: the deferred
  ones first, by how often they were deferred; then those due within a day, by deadline; then the others,
  newest first.
\<close>

theorem today_list_is_ordered:
  shows "\<exists>ts. get_today True u now db = Inr ts
    \<and> mset ts = mset (filter (\<lambda>t. tk_user t = u \<and> tk_status t = S_PENDING) (db_tasks db))
    \<and> sorted_wrt (today_before now) ts"
proof -
  let ?ts = "filter (\<lambda>t. tk_user t = u \<and> tk_status t = S_PENDING) (db_tasks db)"
  let ?k2 = "\<lambda>t. if elevated t then - tk_deferred_count t else 0"
  let ?k3 = "\<lambda>t. if imminent now t then (case tk_deadline t of Some d \<Rightarrow> d | None \<Rightarrow> 0) else now + DAY_MS + 1"
  have "sorted_wrt (\<lambda>a b. - tk_created_at a \<le> - tk_created_at b) (sort_key (\<lambda>t. - tk_created_at t) ?ts)"
    using sorted_sort_key [of "\<lambda>t. - tk_created_at t" ?ts] by (simp only: sorted_map)
  from sort_key_lexicographic [OF sort_key_lexicographic [OF sort_key_lexicographic [OF this, of ?k3], of ?k2], of "today_rank now"]
  have "sorted_wrt (today_before now) (today_order now ?ts)"
    unfolding today_order_def
  proof (rule sorted_wrt_mono_rel [rotated])
    fix a b :: task_row
    assume "today_rank now a < today_rank now b \<or> today_rank now a = today_rank now b
      \<and> (?k2 a < ?k2 b \<or> ?k2 a = ?k2 b \<and> (?k3 a < ?k3 b \<or> ?k3 a = ?k3 b \<and> - tk_created_at a \<le> - tk_created_at b))"
    then show "today_before now a b"
      by (auto simp: today_before_def today_rank_def imminent_def split: if_splits option.splits)
  qed
  then show ?thesis by (simp add: get_today_def today_order_def)
qed


subsection \<open>The history\<close>

definition latest_alarm :: "alarm_row list \<Rightarrow> task_row \<Rightarrow> int" where
  "latest_alarm rows t =
     (case map al_triggered (filter (\<lambda>r. al_task r = tk_id t) rows) of
        [] \<Rightarrow> tk_created_at t
      | x # xs \<Rightarrow> foldl max x xs)"

record alarm_history =
  ah_sectionA :: "(task_row \<times> int) list"
  ah_sectionB :: "alarm_row list"
  ah_unread :: int

definition get_alarms :: "(nat \<Rightarrow> bool) \<Rightarrow> int \<Rightarrow> server_db \<Rightarrow> alarm_world \<Rightarrow> (int \<times> error_body) + alarm_history" where
  "get_alarms up u db w =
     (if up 0 \<and> up 1 \<and> up 2
      then Inr \<lparr>
        ah_sectionA = sort_key (\<lambda>p. - tk_deferred_count (fst p)) (sort_key (\<lambda>p. - snd p)
          (map (\<lambda>t. (t, latest_alarm (aw_rows w) t))
            (filter (\<lambda>t. tk_user t = u \<and> tk_deferred t \<and> tk_status t = S_PENDING) (db_tasks db)))),
        ah_sectionB = sort_key (\<lambda>r. - al_triggered r) (filter (\<lambda>r. al_user r = u \<and> \<not> al_deferred r) (aw_rows w)),
        ah_unread = count_unread_alarms u (aw_rows w)\<rparr>
      else Inl (error_reply 500 ''INTERNAL_SERVER_ERROR'' (ascii ''Failed to retrieve alarms history.'')))"

text \<open>
  Of the alarms of a user the history lists exactly those that were not deferred, newest first, while
  the unread count covers all: the count exceeds the unread rows listed by the number of unread alarms of
  deferred tasks, which neither section shows.
\<close>

theorem history_omits_deferred_alarms:
  shows "\<exists>h. get_alarms (\<lambda>_. True) u db w = Inr h
    \<and> set (ah_sectionB h) = {r \<in> set (aw_rows w). al_user r = u \<and> \<not> al_deferred r}
    \<and> sorted_wrt (\<lambda>a b. al_triggered b \<le> al_triggered a) (ah_sectionB h)
    \<and> ah_unread h = int (length (filter (\<lambda>r. al_read_at r = None) (ah_sectionB h)))
        + int (length (filter (\<lambda>r. al_user r = u \<and> al_deferred r \<and> al_read_at r = None) (aw_rows w)))"
proof -
  let ?B = "sort_key (\<lambda>r. - al_triggered r) (filter (\<lambda>r. al_user r = u \<and> \<not> al_deferred r) (aw_rows w))"
  have "sorted_wrt (\<lambda>a b. - al_triggered a \<le> - al_triggered b) ?B"
    using sorted_sort_key [of "\<lambda>r. - al_triggered r"] by (simp only: sorted_map)
  moreover have "length (filter (\<lambda>r. al_read_at r = None) ?B)
      = length (filter (\<lambda>r. al_read_at r = None) (filter (\<lambda>r. al_user r = u \<and> \<not> al_deferred r) (aw_rows w)))"
    by (simp only: filter_sort length_sort)
  moreover have "length (filter (\<lambda>r. al_user r = u \<and> al_read_at r = None) rs)
      = length (filter (\<lambda>r. al_read_at r = None) (filter (\<lambda>r. al_user r = u \<and> \<not> al_deferred r) rs))
        + length (filter (\<lambda>r. al_user r = u \<and> al_deferred r \<and> al_read_at r = None) rs)" for rs :: "alarm_row list"
    by (induction rs) auto
  ultimately show ?thesis by (simp add: get_alarms_def count_unread_alarms_def)
qed

subsection \<open>Marking all alarms read\<close>

definition patch_mark_read :: "(nat \<Rightarrow> bool) \<Rightarrow> int \<Rightarrow> int \<Rightarrow> alarm_world \<Rightarrow> ((int \<times> error_body) + string) \<times> alarm_world" where
  "patch_mark_read up u now w =
     (if up 0
      then (Inr ''All alarms marked as read.'',
            emit_unread_alarms (up 1) u
              (w\<lparr>aw_rows := update_where (\<lambda>r. al_user r = u \<and> al_read_at r = None) (\<lambda>r. r\<lparr>al_read_at := Some now\<rparr>) (aw_rows w)\<rparr>))
      else (Inl (error_reply 500 ''INTERNAL_SERVER_ERROR'' (ascii ''Failed to mark alarms as read.'')), w))"

text \<open>The page's request when its panel opens.\<close>

definition open_panel :: "(nat \<Rightarrow> bool) \<Rightarrow> nat \<Rightarrow> int \<Rightarrow> int \<Rightarrow> alarm_world \<Rightarrow> alarm_world" where
  "open_panel up c u now w =
     (let r = setPanelState True (aw_pages w c); w1 = w\<lparr>aw_pages := (aw_pages w)(c := snd r)\<rparr> in
      if fst r then snd (patch_mark_read up u now w1) else w1)"

text \<open>
  Opening the panel clears the bell on every connected page of the user and marks all of the user's
  alarms read; the alarms of others and the delivery state of all alarms stay as they are.
\<close>

theorem opening_panel_clears_bell:
  assumes "\<forall>k. up k"
  shows "(\<forall>d. (d, u) \<in> set (aw_sockets w) \<and> d \<notin> set (aw_broken w) \<longrightarrow> mg_badge (aw_pages (open_panel up c u now w) d) = ('''', False))
    \<and> count_unread_alarms u (aw_rows (open_panel up c u now w)) = 0
    \<and> filter (\<lambda>r. al_user r \<noteq> u) (aw_rows (open_panel up c u now w)) = filter (\<lambda>r. al_user r \<noteq> u) (aw_rows w)
    \<and> map al_pending (aw_rows (open_panel up c u now w)) = map al_pending (aw_rows w)"
proof -
  let ?read = "update_where (\<lambda>r. al_user r = u \<and> al_read_at r = None) (\<lambda>r. r\<lparr>al_read_at := Some now\<rparr>)"
  have none: "filter (\<lambda>r. al_user r = u \<and> al_read_at r = None) (?read rs) = []" for rs :: "alarm_row list"
    by (induction rs) (auto simp: update_where_def)
  have others: "filter (\<lambda>r. al_user r \<noteq> u) (?read rs) = filter (\<lambda>r. al_user r \<noteq> u) rs" for rs :: "alarm_row list"
    by (induction rs) (auto simp: update_where_def)
  have pend: "map al_pending (?read rs) = map al_pending rs" for rs :: "alarm_row list"
    by (simp add: map_update_where)
  show ?thesis
    using assms none others pend
    by (simp add: open_panel_def Let_def setPanelState_def patch_mark_read_def emit_unread_alarms_def to_room_def
        count_unread_alarms_def on_unread_count_def updateBellBadge_def)
qed

lemma opening_panel_clears_bell_witness:
  "mg_badge (aw_pages (open_panel (\<lambda>_. True) 0 1 9 (foldl (alarm_step (\<lambda>_. 1)) empty_alarms [Connect 0 (\<lambda>_. True) 1])) 0) = ('''', False)"
  using opening_panel_clears_bell [of "\<lambda>_. True" 1 "foldl (alarm_step (\<lambda>_. 1)) empty_alarms [Connect 0 (\<lambda>_. True) 1]" 0 9]
  by (simp add: empty_alarms_def on_connection_def as_integer_def replayPendingAlarms_def pending_rows_def
      emit_unread_alarms_def to_room_def)

end
