(* ===== verification/Stepwise.thy ===== *)
theory Stepwise
  imports Main
begin

text \<open>
  Runs of a component event by event, and the one induction that every invariant of such a run needs.  A
  component of the page is a state, a step and a guard that says which events its surface offers; a run
  is \<open>None\<close> when it contains an event that is not offered.
\<close>

fun guarded_run :: "('s \<Rightarrow> 'e \<Rightarrow> bool) \<Rightarrow> ('s \<Rightarrow> 'e \<Rightarrow> 's) \<Rightarrow> 's \<Rightarrow> 'e list \<Rightarrow> 's option" where
  "guarded_run offers step s [] = Some s"
| "guarded_run offers step s (e # es) = (if offers s e then guarded_run offers step (step s e) es else None)"

lemma guarded_run_append:
  "guarded_run offers step s (xs @ ys) =
     (case guarded_run offers step s xs of None \<Rightarrow> None | Some s' \<Rightarrow> guarded_run offers step s' ys)"
  by (induction xs arbitrary: s) simp_all

lemma unguarded_run: "guarded_run (\<lambda>_ _. True) step s es = Some (foldl step s es)"
  by (induction es arbitrary: s) simp_all

text \<open>A run of which every event has a property is a run of the guard narrowed to it.\<close>

lemma guarded_run_conj:
  "guarded_run offers step s es = Some s' \<Longrightarrow> list_all P es \<Longrightarrow> guarded_run (\<lambda>s e. offers s e \<and> P e) step s es = Some s'"
  by (induction es arbitrary: s) (auto split: if_splits)

text \<open>What every offered step keeps.\<close>

locale stepwise =
  fixes offers :: "'s \<Rightarrow> 'e \<Rightarrow> bool"
    and step :: "'s \<Rightarrow> 'e \<Rightarrow> 's"
    and inv :: "'s \<Rightarrow> bool"
  assumes step_keeps: "inv s \<Longrightarrow> offers s e \<Longrightarrow> inv (step s e)"
begin

lemma run_keeps: "guarded_run offers step s es = Some s' \<Longrightarrow> inv s \<Longrightarrow> inv s'"
  by (induction es arbitrary: s) (auto split: if_splits simp: step_keeps)

lemma offered_keeps: "(\<And>s e. e \<in> set es \<Longrightarrow> offers s e) \<Longrightarrow> inv s \<Longrightarrow> inv (foldl step s es)"
  by (induction es arbitrary: s) (simp_all add: step_keeps)

end

text \<open>A component whose every event is always offered.\<close>

locale total_stepwise = stepwise "\<lambda>_ _. True" step inv
  for step :: "'s \<Rightarrow> 'e \<Rightarrow> 's" and inv :: "'s \<Rightarrow> bool"
begin

lemma fold_keeps: "inv s \<Longrightarrow> inv (foldl step s es)"
  by (rule offered_keeps) simp_all

end

end
