(* ===== verification/Alarm_Page.thy ===== *)
theory Alarm_Page
  imports Alarm_Client Stepwise
begin

text \<open>
  The life of the alarm manager on a page (\<open>alarm-system/src/client/AlarmManager.ts\<close>): its connection, the
  removal of a toast, and its requests.  What a message does is in \<open>Alarm_Client\<close>.
\<close>

subsection \<open>The connection\<close>

text \<open>
  Every \<open>connect\<close> makes a socket with the manager's listeners; \<open>disconnect\<close> closes the one the manager
  holds.  \<open>al_open\<close> are the sockets that still deliver messages.
\<close>

record alarm_link =
  al_socket :: "nat option"
  al_open :: "nat list"
  al_next :: nat
  al_manager :: alarm_manager

datatype link_event =
    Link_connect | Link_disconnect | Link_alarm nat alarm_event | Link_count nat int

definition new_link :: alarm_link where
  "new_link = \<lparr>al_socket = None, al_open = [], al_next = 0, al_manager = new_manager\<rparr>"

definition connect_alarms :: "alarm_link \<Rightarrow> alarm_link" where
  "connect_alarms w = w\<lparr>al_socket := Some (al_next w), al_open := al_open w @ [al_next w], al_next := al_next w + 1\<rparr>"

definition disconnect_alarms :: "alarm_link \<Rightarrow> alarm_link" where
  "disconnect_alarms w =
     (case al_socket w of
        None \<Rightarrow> w
      | Some s \<Rightarrow> w\<lparr>al_open := filter (\<lambda>x. x \<noteq> s) (al_open w), al_socket := None\<rparr>)"

fun link_step :: "alarm_link \<Rightarrow> link_event \<Rightarrow> alarm_link" where
  "link_step w Link_connect = connect_alarms w"
| "link_step w Link_disconnect = disconnect_alarms w"
| "link_step w (Link_alarm s a) =
     (if s \<in> set (al_open w) then w\<lparr>al_manager := handleAlarmTriggered a (al_manager w)\<rparr> else w)"
| "link_step w (Link_count s n) =
     (if s \<in> set (al_open w) then w\<lparr>al_manager := on_unread_count n (al_manager w)\<rparr> else w)"

subsection \<open>The removal of a toast\<close>

text \<open>
  After five seconds the toast takes its exit class and only then listens for the end of a transition,
  its own or one of its parts that bubbles: the bar of the remaining time drains in one.
\<close>

record toast_node =
  tn_exit :: bool
  tn_listening :: bool
  tn_removed :: bool

datatype toast_dom_event = TD_timeout | TD_transitionend

fun toast_dom_step :: "toast_node \<Rightarrow> toast_dom_event \<Rightarrow> toast_node" where
  "toast_dom_step t TD_timeout = t\<lparr>tn_exit := True, tn_listening := True\<rparr>"
| "toast_dom_step t TD_transitionend = (if tn_listening t then t\<lparr>tn_removed := True\<rparr> else t)"

definition shown_toast :: toast_node where
  "shown_toast = \<lparr>tn_exit = False, tn_listening = False, tn_removed = False\<rparr>"

subsection \<open>Requests\<close>

text \<open>What \<open>fetch\<close> gives: nothing, a refusal, or a body; the two readers throw their errors on.\<close>

datatype 'a fetched = Fetch_rejected string | Fetch_refused | Fetch_ok 'a

definition fetchAlarmHistory :: "'h fetched \<Rightarrow> string + 'h" where
  "fetchAlarmHistory r =
     (case r of Fetch_rejected e \<Rightarrow> Inl e | Fetch_refused \<Rightarrow> Inl ''Failed to fetch alarm history'' | Fetch_ok h \<Rightarrow> Inr h)"

definition handleBellClick :: "listed_task list fetched \<Rightarrow> list_node list \<Rightarrow> (string + listed_task list) \<times> list_node list" where
  "handleBellClick r container =
     (case r of
        Fetch_rejected e \<Rightarrow> (Inl e, container)
      | Fetch_refused \<Rightarrow> (Inl ''Failed to fetch today tasks'', container)
      | Fetch_ok tasks \<Rightarrow> (Inr tasks, reorder_tasks container tasks))"

subsection \<open>Properties\<close>

lemma link_step_one_toast: "one_toast_each (al_manager w) \<Longrightarrow> one_toast_each (al_manager (link_step w e))"
  by (cases e) (auto simp: connect_alarms_def disconnect_alarms_def handle_one_toast unread_one_toast split: option.splits)

interpretation link_run: total_stepwise link_step "\<lambda>w. one_toast_each (al_manager w)"
  by unfold_locales (rule link_step_one_toast)

text \<open>
  However often the manager connects and disconnects, and over however many sockets an alarm arrives,
  it is announced and shown once.
\<close>

theorem one_toast_over_reconnects: "one_toast_each (al_manager (foldl link_step new_link es))"
  by (rule link_run.fold_keeps) (simp add: new_link_def new_one_toast)

text \<open>
  A second connection leaks the first: after two calls of \<open>connect\<close> and one of \<open>disconnect\<close> the first socket
  still delivers alarms, and no call can close it.
\<close>

lemma leaked_socket_stays:
  assumes "s \<in> set (al_open w)" "al_socket w \<noteq> Some s" "s < al_next w"
  shows "s \<in> set (al_open (foldl link_step w es))"
  using assms
proof (induction es arbitrary: w)
  case (Cons e es)
  then have "s \<in> set (al_open (link_step w e)) \<and> al_socket (link_step w e) \<noteq> Some s \<and> s < al_next (link_step w e)"
    by (cases e) (auto simp: connect_alarms_def disconnect_alarms_def split: option.splits)
  with Cons.IH show ?case by simp
qed simp

theorem second_connect_leaks_socket:
  "al_next w \<in> set (al_open (foldl link_step w (Link_connect # Link_connect # es)))"
  using leaked_socket_stays [of "al_next w" "connect_alarms (connect_alarms w)" es]
  by (simp add: connect_alarms_def)

text \<open>
  A toast is taken off the page exactly when some transition ends after its timeout has run: when the
  bar has drained before, as it does when the timeout is late, the toast stays.
\<close>

lemma listening_removed:
  "tn_listening t \<Longrightarrow> tn_removed (foldl toast_dom_step t es) \<longleftrightarrow> tn_removed t \<or> TD_transitionend \<in> set es"
proof (induction es arbitrary: t)
  case (Cons e es)
  then show ?case by (cases e) auto
qed simp

theorem toast_removed_iff:
  "tn_removed (foldl toast_dom_step shown_toast es) \<longleftrightarrow> (\<exists>xs ys. es = xs @ TD_timeout # ys \<and> TD_transitionend \<in> set ys)"
proof -
  have "tn_removed (foldl toast_dom_step t es) \<longleftrightarrow> (\<exists>xs ys. es = xs @ TD_timeout # ys \<and> TD_transitionend \<in> set ys)"
    if "\<not> tn_listening t" "\<not> tn_removed t" for t
    using that
  proof (induction es arbitrary: t)
    case (Cons e es)
    show ?case
    proof (cases e)
      case TD_timeout
      have "TD_transitionend \<in> set es" if "TD_timeout # es = xs @ TD_timeout # ys" "TD_transitionend \<in> set ys" for xs ys
        using that by (cases xs) auto
      moreover have "tn_removed (foldl toast_dom_step t (e # es)) \<longleftrightarrow> TD_transitionend \<in> set es"
        using Cons.prems TD_timeout by (simp add: listening_removed)
      ultimately show ?thesis using TD_timeout by (metis append_Nil)
    next
      case TD_transitionend
      have "(\<exists>xs ys. TD_transitionend # es = xs @ TD_timeout # ys \<and> TD_transitionend \<in> set ys)
          \<longleftrightarrow> (\<exists>xs ys. es = xs @ TD_timeout # ys \<and> TD_transitionend \<in> set ys)"
        by (auto simp: Cons_eq_append_conv)
      with Cons TD_transitionend show ?thesis by simp
    qed
  qed simp
  then show ?thesis by (simp add: shown_toast_def)
qed

end
