(* ===== verification/Server_App.thy ===== *)
theory Server_App
  imports Api_Tasks "HOL-Library.Multiset"
begin

text \<open>
  Which handler answers a request: the routers of \<open>alarm-system/src/app.ts\<close> in the order in which they
  are mounted, with the routes they declare (\<open>routes/alarmRoutes.ts\<close>, \<open>notificationRoutes.ts\<close>,
  \<open>taskTimeRoutes.ts\<close>, \<open>priorityRoutes.ts\<close>), and where the requests of the page
  (\<open>Api_Tasks.tasks_request\<close>) arrive.  The handlers themselves are in the theories of their
  components.  A path is what the host hands over, before the query; the decoding of escapes in a
  segment is left to the host.
\<close>

subsection \<open>Routes\<close>

datatype endpoint =
    EP_health
  | EP_today | EP_mark_alarms_read | EP_alarms
  | EP_notifications | EP_badge | EP_read | EP_dismiss | EP_delete_task
  | EP_create_task | EP_complete | EP_get_available | EP_put_available
  | EP_status | EP_priority_task | EP_tasks | EP_set_priority

datatype guard = Guard_rate | Guard_auth

datatype seg = Lit string | Par

record route =
  ro_method :: http_method
  ro_path :: "seg list"
  ro_guards :: "guard list"
  ro_endpoint :: endpoint

definition route_of :: "http_method \<Rightarrow> seg list \<Rightarrow> guard list \<Rightarrow> endpoint \<Rightarrow> route" where
  "route_of me p gs e = \<lparr>ro_method = me, ro_path = p, ro_guards = gs, ro_endpoint = e\<rparr>"

definition alarm_routes :: "route list" where
  "alarm_routes =
     [route_of GET [Lit ''tasks'', Lit ''today''] [Guard_auth] EP_today,
      route_of PATCH [Lit ''alarms'', Lit ''mark-read''] [Guard_auth] EP_mark_alarms_read,
      route_of GET [Lit ''alarms''] [Guard_auth] EP_alarms]"

definition notification_routes :: "route list" where
  "notification_routes =
     [route_of GET [Lit ''notifications''] [Guard_rate, Guard_auth] EP_notifications,
      route_of GET [Lit ''notifications'', Lit ''badge''] [Guard_rate, Guard_auth] EP_badge,
      route_of POST [Lit ''notifications'', Par, Lit ''read''] [Guard_auth] EP_read,
      route_of POST [Lit ''notifications'', Par, Lit ''dismiss''] [Guard_auth] EP_dismiss,
      route_of DELETE_method [Lit ''tasks'', Par] [Guard_auth] EP_delete_task]"

definition task_time_routes :: "route list" where
  "task_time_routes =
     [route_of POST [Lit ''tasks''] [Guard_auth] EP_create_task,
      route_of PATCH [Lit ''tasks'', Par, Lit ''complete''] [Guard_auth] EP_complete,
      route_of GET [Lit ''users'', Par, Lit ''available-time''] [Guard_auth] EP_get_available,
      route_of PUT [Lit ''users'', Par, Lit ''available-time''] [Guard_auth] EP_put_available]"

definition priority_routes :: "route list" where
  "priority_routes =
     [route_of PATCH [Lit ''tasks'', Par, Lit ''status''] [Guard_auth] EP_status,
      route_of GET [Lit ''tasks'', Lit ''priority''] [Guard_auth] EP_priority_task,
      route_of GET [Lit ''tasks''] [Guard_auth] EP_tasks,
      route_of PATCH [Lit ''tasks'', Par, Lit ''priority''] [Guard_auth] EP_set_priority]"

definition ROUTES :: "route list" where
  "ROUTES = alarm_routes @ notification_routes @ task_time_routes @ priority_routes"

subsection \<open>Matching\<close>

text \<open>Literals match in any case, and one slash may follow the path.\<close>

fun split_path :: "string \<Rightarrow> string list" where
  "split_path [] = [[]]"
| "split_path (c # s) =
     (case split_path s of
        [] \<Rightarrow> [[c]]
      | x # xs \<Rightarrow> if c = CHR ''/'' then [] # x # xs else (c # x) # xs)"

definition lower_char :: "char \<Rightarrow> char" where
  "lower_char c = (let n = of_char c :: nat in if 65 \<le> n \<and> n \<le> 90 then char_of (n + 32) else c)"

fun match_segs :: "seg list \<Rightarrow> string list \<Rightarrow> string list option" where
  "match_segs [] [] = Some []"
| "match_segs [] (s # ss) = (if s = [] \<and> ss = [] then Some [] else None)"
| "match_segs (Lit l # ps) (s # ss) = (if map lower_char s = l then match_segs ps ss else None)"
| "match_segs (Par # ps) (s # ss) = (if s = [] then None else map_option ((#) s) (match_segs ps ss))"
| "match_segs (_ # _) [] = None"

definition matches_route :: "http_method \<Rightarrow> string list \<Rightarrow> route \<Rightarrow> bool" where
  "matches_route me ss r \<longleftrightarrow> ro_method r = me \<and> match_segs (ro_path r) ss \<noteq> None"

definition find_route :: "route list \<Rightarrow> http_method \<Rightarrow> string list \<Rightarrow> route option" where
  "find_route rs me ss = List.find (matches_route me ss) rs"

text \<open>The mount at \<open>/api\<close>, which also takes a second slash away.\<close>

fun strip_mount :: "string list \<Rightarrow> string list option" where
  "strip_mount ([] # a # rest) =
     (if map lower_char a = ''api'' then Some (case rest of [] # r # rs \<Rightarrow> r # rs | _ \<Rightarrow> rest) else None)"
| "strip_mount _ = None"

definition dispatch_request :: "http_method \<Rightarrow> string \<Rightarrow> (endpoint \<times> guard list \<times> string list) option" where
  "dispatch_request me url =
     (let ss = split_path url in
      case strip_mount ss of
        Some inner \<Rightarrow>
          (case find_route ROUTES me inner of
             None \<Rightarrow> None
           | Some r \<Rightarrow> Some (ro_endpoint r, ro_guards r, or_default (match_segs (ro_path r) inner) []))
      | None \<Rightarrow>
          if me = GET \<and> ss \<noteq> [] \<and> hd ss = [] \<and> match_segs [Lit ''health''] (tl ss) \<noteq> None
          then Some (EP_health, [], []) else None)"

subsection \<open>What runs without the cache server\<close>

text \<open>
  The parts of \<open>app.ts\<close> that depend on the connection to the cache server: the badge cache, the rate
  limit and the nightly scan.  Without it the routes pass the limit unchecked.
\<close>

record app_parts =
  pt_badge_cache :: bool
  pt_rate_limit :: bool
  pt_nightly_scan :: bool
  pt_priority_cache :: bool

definition start_app :: "bool \<Rightarrow> app_parts" where
  "start_app redis = \<lparr>pt_badge_cache = redis, pt_rate_limit = redis, pt_nightly_scan = redis, pt_priority_cache = redis\<rparr>"

definition guards_run :: "app_parts \<Rightarrow> guard list \<Rightarrow> guard list" where
  "guards_run a gs = filter (\<lambda>g. g = Guard_rate \<longrightarrow> pt_rate_limit a) gs"

subsection \<open>Lemmas\<close>

text \<open>Two patterns that some path may match alike.\<close>

fun clash :: "seg list \<Rightarrow> seg list \<Rightarrow> bool" where
  "clash [] [] = True"
| "clash [] (_ # _) = False"
| "clash (_ # _) [] = False"
| "clash (Lit a # ps) (Lit b # qs) = (a = b \<and> clash ps qs)"
| "clash (Lit _ # ps) (Par # qs) = clash ps qs"
| "clash (Par # ps) (Lit _ # qs) = clash ps qs"
| "clash (Par # ps) (Par # qs) = clash ps qs"

fun literal_ok :: "seg \<Rightarrow> bool" where
  "literal_ok (Lit l) = (l \<noteq> [])"
| "literal_ok Par = True"

lemma match_Nil: "match_segs [] ss \<noteq> None \<Longrightarrow> ss = [] \<or> ss = [[]]"
  by (cases ss) (auto split: if_splits)

lemma matched_clash:
  assumes "match_segs ps ss \<noteq> None" "match_segs qs ss \<noteq> None" "list_all literal_ok ps" "list_all literal_ok qs"
  shows "clash ps qs"
  using assms
proof (induction ps qs arbitrary: ss rule: clash.induct)
  case (2 q qs)
  then show ?case using match_Nil [of ss] by (cases q) auto
next
  case (3 p ps)
  then show ?case using match_Nil [of ss] by (cases p) auto
next
  case (4 a ps b qs)
  then show ?case by (cases ss) (auto split: if_splits)
next
  case (5 l ps qs)
  then show ?case by (cases ss) (auto split: if_splits)
next
  case (6 ps l qs)
  then show ?case by (cases ss) (auto split: if_splits)
next
  case (7 ps qs)
  then show ?case by (cases ss) (auto split: if_splits)
qed simp

definition apart :: "route \<Rightarrow> route \<Rightarrow> bool" where
  "apart r r' \<longleftrightarrow> ro_method r \<noteq> ro_method r' \<or> \<not> clash (ro_path r) (ro_path r')"

fun pairwise_apart :: "route list \<Rightarrow> bool" where
  "pairwise_apart [] = True"
| "pairwise_apart (r # rs) = (list_all (apart r) rs \<and> pairwise_apart rs)"

lemmas routes_defs = ROUTES_def alarm_routes_def notification_routes_def task_time_routes_def priority_routes_def route_of_def

lemma routes_apart: "pairwise_apart ROUTES"
  by (simp add: routes_defs apart_def)

lemma routes_literal: "r \<in> set ROUTES \<Longrightarrow> list_all literal_ok (ro_path r)"
  by (auto simp: routes_defs)

lemma apart_sym: "apart r r' \<Longrightarrow> apart r' r"
proof -
  have "clash p q \<Longrightarrow> clash q p" for p q by (induction p q rule: clash.induct) auto
  then show "apart r r' \<Longrightarrow> apart r' r" by (auto simp: apart_def)
qed

lemma pairwise_apart_in:
  "pairwise_apart rs \<Longrightarrow> r \<in> set rs \<Longrightarrow> r' \<in> set rs \<Longrightarrow> r \<noteq> r' \<Longrightarrow> apart r r'"
  by (induction rs) (auto simp: list_all_iff dest: apart_sym)

lemma one_route:
  assumes "r \<in> set ROUTES" "r' \<in> set ROUTES" "matches_route me ss r" "matches_route me ss r'"
  shows "r = r'"
proof (rule ccontr)
  assume "r \<noteq> r'"
  with pairwise_apart_in [OF routes_apart assms(1,2)] have "apart r r'" by simp
  moreover have "clash (ro_path r) (ro_path r')"
    using assms(3,4) by (intro matched_clash [of _ ss] routes_literal assms(1,2)) (simp_all add: matches_route_def)
  ultimately show False using assms(3,4) by (simp add: apart_def matches_route_def)
qed

lemma find_unique:
  assumes "set xs = set ys" "\<And>x y. x \<in> set xs \<Longrightarrow> y \<in> set xs \<Longrightarrow> P x \<Longrightarrow> P y \<Longrightarrow> x = y"
  shows "List.find P xs = List.find P ys"
proof (cases "List.find P xs")
  case None
  then show ?thesis using assms(1) by (metis find_None_iff)
next
  case (Some x)
  then have x: "P x" "x \<in> set xs" by (auto simp: find_Some_iff)
  then obtain y where y: "List.find P ys = Some y" using assms(1) by (metis find_None_iff option.exhaust)
  then have "P y" "y \<in> set ys" by (auto simp: find_Some_iff)
  with x y Some assms show ?thesis by metis
qed

text \<open>The segments of the page's requests.\<close>

lemma split_path_not_Nil [simp]: "split_path s \<noteq> []"
  by (induction s) (auto split: list.splits)

lemma split_path_plain: "CHR ''/'' \<notin> set s \<Longrightarrow> split_path s = [s]"
  by (induction s) auto

lemma split_path_slash: "CHR ''/'' \<notin> set a \<Longrightarrow> split_path (a @ CHR ''/'' # b) = a # split_path b"
  by (induction a) (auto split: list.splits)

lemma show_int_no_slash: "CHR ''/'' \<notin> set (show_int i)"
  using show_nat_digits [of "CHR ''/''"] by (auto simp: show_int_def digit_value_def)

lemma show_int_not_Nil [simp]: "show_int i \<noteq> []"
  by (simp add: show_int_def)

subsection \<open>Properties\<close>

text \<open>
  The order in which the routers are mounted and declare their routes does not matter: every request
  matches at most one route, so every permutation of the routes dispatches it alike.  In particular
  \<open>/tasks/today\<close> and \<open>/tasks/priority\<close> are never taken for the id of a task.
\<close>

theorem mount_order_irrelevant:
  assumes "mset rs = mset ROUTES"
  shows "find_route rs me ss = find_route ROUTES me ss"
  unfolding find_route_def
proof (rule find_unique)
  show "set rs = set ROUTES" using assms by (rule mset_eq_setD)
  then show "\<And>x y. x \<in> set rs \<Longrightarrow> y \<in> set rs \<Longrightarrow> matches_route me ss x \<Longrightarrow> matches_route me ss y \<Longrightarrow> x = y"
    using one_route by blast
qed

lemma mount_order_irrelevant_witness:
  "find_route (rev ROUTES) GET [''tasks'', ''today''] = find_route ROUTES GET [''tasks'', ''today'']"
  by (rule mount_order_irrelevant) simp

text \<open>
  Nothing but the health check is answered without a token: whatever is requested, its handler runs
  behind the authentication, with or without the cache server.
\<close>

theorem every_handler_is_authenticated:
  assumes "dispatch_request me url = Some (e, gs, ps)"
  shows "e = EP_health \<or> last (guards_run (start_app redis) gs) = Guard_auth \<and> guards_run (start_app redis) gs \<noteq> []"
proof -
  have all: "r \<in> set ROUTES \<Longrightarrow> ro_guards r = [Guard_auth] \<or> ro_guards r = [Guard_rate, Guard_auth]" for r
    by (auto simp: routes_defs)
  show ?thesis
  proof (cases "strip_mount (split_path url)")
    case None
    with assms show ?thesis by (auto simp: dispatch_request_def Let_def split: if_splits)
  next
    case (Some inner)
    with assms obtain r where "find_route ROUTES me inner = Some r" "gs = ro_guards r"
      by (auto simp: dispatch_request_def Let_def split: option.splits)
    then have "r \<in> set ROUTES" by (auto simp: find_route_def find_Some_iff)
    with all [of r] \<open>gs = ro_guards r\<close> show ?thesis
      by (cases redis) (auto simp: guards_run_def start_app_def)
  qed
qed

text \<open>Where the page expects its calls to arrive; what only the other back end offers is \<open>None\<close>.\<close>

fun served_by :: "api_call \<Rightarrow> (endpoint \<times> string list) option" where
  "served_by (Get_tasks _ _ _) = Some (EP_tasks, [])"
| "served_by (Get_all_pending _) = Some (EP_tasks, [])"
| "served_by (Get_archived_tasks _) = Some (EP_tasks, [])"
| "served_by (Create_task _) = Some (EP_create_task, [])"
| "served_by (Recreate_task _) = Some (EP_create_task, [])"
| "served_by (Create_task_with_budget _ _) = Some (EP_create_task, [])"
| "served_by (Update_task_status tid _ _ _) = Some (EP_status, [prop_key tid])"
| "served_by (Delete_task tid) = Some (EP_delete_task, [prop_key tid])"
| "served_by (Complete_task_with_refund tid _ _) = Some (EP_complete, [prop_key tid])"
| "served_by (Resolve_delete_confirm tid act) =
     Some (if act = ''COMPLETE'' then EP_status else EP_delete_task, [prop_key tid])"
| "served_by (Get_available_time u) = Some (EP_get_available, [show_int u])"
| "served_by (Set_available_time u _ _) = Some (EP_put_available, [show_int u])"
| "served_by (Get_notifications _ _ _ _) = Some (EP_notifications, [])"
| "served_by (Mark_notification_read nid) = Some (EP_read, [nid])"
| "served_by (Dismiss_notification nid) = Some (EP_dismiss, [nid])"
| "served_by _ = None"

fun call_ids_ok :: "api_call \<Rightarrow> bool" where
  "call_ids_ok (Update_task_status tid _ _ _) = (\<exists>i. tid = Num_id i)"
| "call_ids_ok (Delete_task tid) = (\<exists>i. tid = Num_id i)"
| "call_ids_ok (Complete_task_with_refund tid _ _) = (\<exists>i. tid = Num_id i)"
| "call_ids_ok (Resolve_delete_confirm tid _) = (\<exists>i. tid = Num_id i)"
| "call_ids_ok (Mark_notification_read nid) = (nid \<noteq> [] \<and> CHR ''/'' \<notin> set nid)"
| "call_ids_ok (Dismiss_notification nid) = (nid \<noteq> [] \<and> CHR ''/'' \<notin> set nid)"
| "call_ids_ok _ = True"

definition arrives_at :: "api_call \<Rightarrow> (endpoint \<times> string list) option" where
  "arrives_at c = map_option (\<lambda>(e, gs, ps). (e, ps)) (dispatch_request (rq_method (tasks_request c)) (rq_url (tasks_request c)))"

lemmas dispatch_simps = arrives_at_def dispatch_request_def Let_def find_route_def matches_route_def routes_defs request_def lower_char_def
  or_default_def

text \<open>
  C29. Client and server agree on the addresses: every call of the page's API arrives at the handler
  meant for it with the ids of the call as its parameters, and the four calls that only the other
  back end serves match no route.
\<close>

theorem calls_arrive:
  assumes "call_ids_ok c"
  shows "arrives_at c = served_by c"
proof -
  note path = split_path_slash [OF show_int_no_slash] split_path_plain [OF show_int_no_slash]
    task_url_def user_url_def dispatch_simps
  show ?thesis
  proof (cases c)
    case (Update_task_status tid act en mins)
    with assms show ?thesis by (auto simp: path)
  next
    case (Delete_task tid)
    with assms show ?thesis by (auto simp: path)
  next
    case (Complete_task_with_refund tid el at)
    with assms show ?thesis by (auto simp: path)
  next
    case (Resolve_delete_confirm tid act)
    with assms show ?thesis by (auto simp: path)
  next
    case (Mark_notification_read nid)
    with assms show ?thesis by (simp add: path split_path_slash)
  next
    case (Dismiss_notification nid)
    with assms show ?thesis by (simp add: path split_path_slash)
  qed (simp_all add: path)
qed

lemma calls_arrive_witness:
  "arrives_at (Resolve_delete_confirm (Num_id 7) ''DELETE'') = Some (EP_delete_task, [show_int 7])"
  using calls_arrive [of "Resolve_delete_confirm (Num_id 7) ''DELETE''"]
  by simp

end
