(* ===== verification/Task_List.thy ===== *)
theory Task_List
  imports Api_Errors "HOL-Library.Multiset"
begin

text \<open>
  The hooks that bind a page to the back end: \<open>frontend/src/hooks/useTasks.js\<close> keeps the list of
  the page and changes it before the server has answered, \<open>hooks/useAvailableTime.js\<close> keeps the
  budget, \<open>hooks/useTimer.js\<close> counts seconds.

  A React handler sees the state of the render it was created in.  So a mutation takes the list of
  that render, the \<open>snapshot\<close>, as an argument of its own; \<open>mutate_begin\<close> is the code up to the
  \<open>await\<close>, \<open>mutate_end\<close> what runs when the request settles.  An answer is \<open>Inl\<close> of the message of a
  rejection (which may be missing) or \<open>Inr\<close> of the value.
\<close>

subsection \<open>The list of a page (hooks/useTasks.js)\<close>

type_synonym 'a answer = "ustring option + 'a"

definition message_or :: "ustring option \<Rightarrow> ustring \<Rightarrow> ustring" where
  "message_or m d = (case m of None \<Rightarrow> d | Some s \<Rightarrow> if s = [] then d else s)"

record task_hook =
  th_tasks :: "task_response list"
  th_isLoading :: bool
  th_error :: "ustring option"

definition useTasks :: task_hook where
  "useTasks = \<lparr>th_tasks = [], th_isLoading = True, th_error = None\<rparr>"

definition list_fetch_begin :: "task_hook \<Rightarrow> task_hook" where
  "list_fetch_begin h = h\<lparr>th_error := None\<rparr>"

definition list_fetch_end :: "task_response list answer \<Rightarrow> task_hook \<Rightarrow> task_hook" where
  "list_fetch_end reply h =
     (case reply of
        Inr ts \<Rightarrow> h\<lparr>th_tasks := ts, th_isLoading := False\<rparr>
      | Inl m \<Rightarrow> h\<lparr>th_error := Some (message_or m [0xC791, 0xC5C5, 0xC744, 0x20, 0xBD88, 0xB7EC,
         0xC624, 0xC9C0, 0x20, 0xBABB, 0xD588, 0xC5B4, 0xC694, 0x2E]), th_isLoading := False\<rparr>)"

text \<open>
  The effect that fetches: a change of energy or time clears the running timeout and sets one of
  300 ms; the value is the instant at which the fetch is due.
\<close>

definition debounce_change :: "int \<Rightarrow> int option \<Rightarrow> int option" where
  "debounce_change now due = Some (now + 300)"

definition debounce_fire :: "int \<Rightarrow> int option \<Rightarrow> int option \<times> bool" where
  "debounce_fire now due =
     (case due of None \<Rightarrow> (None, False) | Some d \<Rightarrow> if d \<le> now then (None, True) else (due, False))"

definition hook_minutes :: "js_num option \<Rightarrow> int" where
  "hook_minutes timeAvailable = js_round (or_default timeAvailable 1 * 60)"

definition mutate_begin :: "(task_response list \<Rightarrow> task_response list) \<Rightarrow> task_response list \<Rightarrow> task_hook \<Rightarrow> task_hook" where
  "mutate_begin optimistic snapshot h = h\<lparr>th_tasks := optimistic snapshot\<rparr>"

definition mutate_end :: "task_response list \<Rightarrow> unit answer \<Rightarrow> task_hook \<Rightarrow> task_hook" where
  "mutate_end snapshot reply h =
     (case reply of
        Inr _ \<Rightarrow> h
      | Inl m \<Rightarrow> h\<lparr>th_tasks := snapshot,
                    th_error := Some (message_or m [0xBCC0, 0xACBD, 0xC5D0, 0x20, 0xC2E4, 0xD328, 0xD588, 0xC5B4,
                       0xC694, 0x2E, 0x20, 0xB2E4, 0xC2DC, 0x20, 0xC2DC, 0xB3C4, 0xD574, 0x20, 0xC8FC, 0xC138, 0xC694, 0x2E])\<rparr>)"

text \<open>The three mutations: what each does to the list and the request it sends.\<close>

definition without_task :: "js_id \<Rightarrow> task_response list \<Rightarrow> task_response list" where
  "without_task tid ts = filter (\<lambda>t. tr_taskId t \<noteq> tid) ts"

definition completeTask_list :: "js_id \<Rightarrow> task_response list \<Rightarrow> task_response list" where
  "completeTask_list tid ts = without_task tid ts"

definition snoozeTask_list :: "js_id \<Rightarrow> task_response list \<Rightarrow> task_response list" where
  "snoozeTask_list tid ts =
     update_where (\<lambda>t. tr_taskId t = tid) (\<lambda>t. t\<lparr>tr_delayCount := tr_delayCount t + 1\<rparr>) ts"

definition archiveTask_list :: "js_id \<Rightarrow> task_response list \<Rightarrow> task_response list" where
  "archiveTask_list tid ts = without_task tid ts"

text \<open>The argument of \<open>onArchived\<close>, which the caller keeps to offer an undo.\<close>

definition archiveTask_handed :: "js_id \<Rightarrow> task_response list \<Rightarrow> task_response option" where
  "archiveTask_handed tid ts = List.find (\<lambda>t. tr_taskId t = tid) ts"

datatype list_change = L_complete js_id | L_snooze js_id | L_archive js_id

fun change_list :: "list_change \<Rightarrow> task_response list \<Rightarrow> task_response list" where
  "change_list (L_complete i) = completeTask_list i"
| "change_list (L_snooze i) = snoozeTask_list i"
| "change_list (L_archive i) = archiveTask_list i"

fun change_call :: "energy \<Rightarrow> js_num option \<Rightarrow> list_change \<Rightarrow> api_call" where
  "change_call en av (L_complete i) = completeTask_call i (P_energy en) (P_num (of_int (hook_minutes av)))"
| "change_call en av (L_snooze i) = snoozeTask_call i (P_energy en) (P_num (of_int (hook_minutes av)))"
| "change_call en av (L_archive i) = archiveTask_call i (P_energy en) (P_num (of_int (hook_minutes av)))"

text \<open>\<open>restoreTask\<close> ignores the answer of its request.\<close>

definition restoreTask_hook :: "task_response option \<Rightarrow> task_hook \<Rightarrow> task_hook" where
  "restoreTask_hook task h =
     (case task of
        None \<Rightarrow> h
      | Some t \<Rightarrow>
          (if \<exists>x \<in> set (th_tasks h). tr_taskId x = tr_taskId t then h
           else h\<lparr>th_tasks := th_tasks h @ [t\<lparr>tr_status := S_PENDING\<rparr>]\<rparr>))"

text \<open>A new task of the page, as the dialogues hand it over.\<close>

record partial_task =
  pt_title :: ustring
  pt_description :: "ustring option"
  pt_estimatedMinutes :: "js_num option"
  pt_deadline :: "js_date option"
  pt_requiredEnergy :: "energy option"
  pt_importance :: "int option"
  pt_category :: "ustring option"

text \<open>
  The row shown until the server answers.  \<open>now\<close> is \<open>Date.now()\<close>; the row has no creation time,
  so \<open>tr_createdAt\<close>, which no page reads from it, is the invalid date.
\<close>

definition tmp_id :: "int \<Rightarrow> js_id" where
  "tmp_id now = Str_id (''tmp-'' @ show_int now)"

definition optimistic_task :: "int \<Rightarrow> partial_task \<Rightarrow> task_response" where
  "optimistic_task now p =
     \<lparr>tr_taskId = tmp_id now, tr_title = pt_title p,
      tr_description = Some (or_default (pt_description p) []),
      tr_estimatedMinutes = Some (JNum (or_default (pt_estimatedMinutes p) 30)), tr_estimatedDuration = None,
      tr_deadline = pt_deadline p, tr_requiredEnergy = or_default (pt_requiredEnergy p) MEDIUM,
      tr_importance = or_default (pt_importance p) 3, tr_status = S_PENDING, tr_delayCount = 0,
      tr_createdAt = Invalid_Date, tr_category = Some (or_default (pt_category p) [0xC5C5, 0xBB34]),
      tr_isPriority = None, tr_scheduledTime = None, tr_delayedFrom = None\<rparr>"

definition addTask_begin :: "int \<Rightarrow> partial_task \<Rightarrow> task_hook \<Rightarrow> task_hook" where
  "addTask_begin now p h = h\<lparr>th_tasks := optimistic_task now p # th_tasks h\<rparr>"

definition addTask_end :: "int \<Rightarrow> task_response answer \<Rightarrow> task_hook \<Rightarrow> task_hook" where
  "addTask_end now reply h =
     (case reply of
        Inr created \<Rightarrow> h\<lparr>th_tasks := update_where (\<lambda>t. tr_taskId t = tmp_id now) (\<lambda>_. created) (th_tasks h)\<rparr>
      | Inl m \<Rightarrow> h\<lparr>th_tasks := without_task (tmp_id now) (th_tasks h),
                    th_error := Some (message_or m [0xC791, 0xC5C5, 0x20, 0xCD94, 0xAC00, 0xC5D0, 0x20, 0xC2E4,
                       0xD328, 0xD588, 0xC5B4, 0xC694, 0x2E])\<rparr>)"

definition clearError :: "task_hook \<Rightarrow> task_hook" where
  "clearError h = h\<lparr>th_error := None\<rparr>"

subsection \<open>The budget of a page (hooks/useAvailableTime.js)\<close>

record 'snap avail_hook =
  av_snapshot :: "'snap option"
  av_isLoading :: bool
  av_error :: "ustring option"

definition avail_refetch_begin :: "'s avail_hook \<Rightarrow> 's avail_hook" where
  "avail_refetch_begin a = a\<lparr>av_error := None\<rparr>"

definition avail_refetch_end :: "'s answer \<Rightarrow> 's avail_hook \<Rightarrow> 's avail_hook" where
  "avail_refetch_end reply a =
     (case reply of
        Inr s \<Rightarrow> a\<lparr>av_snapshot := Some s, av_isLoading := False\<rparr>
      | Inl m \<Rightarrow> a\<lparr>av_error := Some (message_or m [0xAC00, 0xC6A9, 0xC2DC, 0xAC04, 0xC744, 0x20,
         0xBD88, 0xB7EC, 0xC624, 0xC9C0, 0x20, 0xBABB, 0xD588, 0xC5B4, 0xC694, 0x2E]), av_isLoading := False\<rparr>)"

text \<open>\<open>updateAvailable\<close>: a rejected setting is thrown on before the budget is read again.\<close>

definition updateAvailable :: "('e + 'r) \<Rightarrow> 's answer \<Rightarrow> 's avail_hook \<Rightarrow> 's avail_hook \<times> ('e + 'r)" where
  "updateAvailable set_reply refetch_reply a =
     (case set_reply of
        Inl e \<Rightarrow> (a, Inl e)
      | Inr r \<Rightarrow> (avail_refetch_end refetch_reply (avail_refetch_begin a), Inr r))"

subsection \<open>A stopwatch (hooks/useTimer.js)\<close>

definition pad2 :: "nat \<Rightarrow> string" where
  "pad2 n = (let s = show_nat n in replicate (2 - length s) CHR ''0'' @ s)"

text \<open>On whole seconds.\<close>

definition formatHMS :: "int \<Rightarrow> string" where
  "formatHMS totalSeconds =
     (let capped = min (max totalSeconds 0) 86399;
          h = capped div 3600;
          m = (capped mod 3600) div 60;
          s = capped mod 60
      in pad2 (nat h) @ '':'' @ pad2 (nat m) @ '':'' @ pad2 (nat s))"

record stopwatch =
  sw_elapsed :: int
  sw_running :: bool
  sw_anchor :: "(int \<times> int) option"

text \<open>The effect of \<open>isRunning\<close>: entering it sets the anchor; leaving it only stops the interval.\<close>

definition sw_enter :: "int \<Rightarrow> stopwatch \<Rightarrow> stopwatch" where
  "sw_enter now w = w\<lparr>sw_anchor := Some (now, sw_elapsed w)\<rparr>"

definition useTimer :: "int \<Rightarrow> int \<Rightarrow> bool \<Rightarrow> stopwatch" where
  "useTimer now initialSeconds autoStart =
     (let w = \<lparr>sw_elapsed = initialSeconds, sw_running = autoStart, sw_anchor = None\<rparr>
      in if autoStart then sw_enter now w else w)"

datatype sw_call = SW_tick | SW_start | SW_pause | SW_stop | SW_reset int

text \<open>The interval ticks only while the watch runs.\<close>

fun sw_step :: "stopwatch \<Rightarrow> int \<times> sw_call \<Rightarrow> stopwatch" where
  "sw_step w (now, SW_tick) =
     (if sw_running w
      then (case sw_anchor w of None \<Rightarrow> w | Some (st, base) \<Rightarrow> w\<lparr>sw_elapsed := base + (now - st) div 1000\<rparr>)
      else w)"
| "sw_step w (now, SW_start) = (if sw_running w then w else sw_enter now (w\<lparr>sw_running := True\<rparr>))"
| "sw_step w (now, SW_pause) = w\<lparr>sw_running := False\<rparr>"
| "sw_step w (now, SW_stop) = w\<lparr>sw_running := False, sw_elapsed := 0\<rparr>"
| "sw_step w (now, SW_reset to) = w\<lparr>sw_elapsed := to\<rparr>"

subsection \<open>Changes that do not overlap\<close>

text \<open>A change begun on the list of the last render and settled before the next one begins.\<close>

definition lone_change :: "task_hook \<Rightarrow> list_change \<times> unit answer \<Rightarrow> task_hook" where
  "lone_change h cr = mutate_end (th_tasks h) (snd cr) (mutate_begin (change_list (fst cr)) (th_tasks h) h)"

text \<open>The server applies what it accepts.\<close>

definition accepted :: "'a answer \<Rightarrow> bool" where
  "accepted r \<longleftrightarrow> (\<exists>x. r = Inr x)"

definition server_list :: "task_response list \<Rightarrow> (list_change \<times> unit answer) list \<Rightarrow> task_response list" where
  "server_list ts crs = foldl (\<lambda>l cr. if accepted (snd cr) then change_list (fst cr) l else l) ts crs"

lemma lone_change_tasks:
  "th_tasks (lone_change h cr) = (if accepted (snd cr) then change_list (fst cr) (th_tasks h) else th_tasks h)"
  by (cases cr; cases "snd cr") (simp_all add: lone_change_def mutate_begin_def mutate_end_def accepted_def)

lemma lone_changes_tasks: "th_tasks (foldl lone_change h crs) = server_list (th_tasks h) crs"
  by (induction crs arbitrary: h) (simp_all add: server_list_def lone_change_tasks)

lemma without_ids: "tr_taskId ` set (without_task i ts) = tr_taskId ` set ts - {i}"
  by (auto simp: without_task_def)

lemma without_absent: "i \<notin> tr_taskId ` set ts \<Longrightarrow> without_task i ts = ts"
  unfolding without_task_def by (rule filter_True) blast

lemma without_comm: "without_task i (without_task j ts) = without_task j (without_task i ts)"
  by (simp add: without_task_def conj_commute)

lemma find_id_Some:
  "i \<in> tr_taskId ` set ts \<Longrightarrow> \<exists>t. archiveTask_handed i ts = Some t \<and> t \<in> set ts \<and> tr_taskId t = i"
  unfolding archiveTask_handed_def by (induction ts) auto

subsection \<open>New rows settle in any order\<close>

text \<open>The settling of one row, on the list alone.\<close>

definition settle :: "int \<times> task_response answer \<Rightarrow> task_response list \<Rightarrow> task_response list" where
  "settle nr ts = th_tasks (addTask_end (fst nr) (snd nr) \<lparr>th_tasks = ts, th_isLoading = False, th_error = None\<rparr>)"

lemma addTask_end_tasks: "th_tasks (addTask_end n r h) = settle (n, r) (th_tasks h)"
  by (cases r) (simp_all add: settle_def addTask_end_def)

text \<open>What becomes of one row: nothing, the created task, or the row itself.\<close>

definition settle_row :: "int \<times> task_response answer \<Rightarrow> task_response \<Rightarrow> task_response list" where
  "settle_row nr t =
     (if tr_taskId t = tmp_id (fst nr) then (case snd nr of Inl _ \<Rightarrow> [] | Inr c \<Rightarrow> [c]) else [t])"

lemma settle_rows: "settle nr ts = concat (map (settle_row nr) ts)"
  by (induction ts; cases "snd nr")
     (auto simp: settle_def settle_row_def addTask_end_def update_where_def without_task_def)

lemma settle_append: "settle nr (xs @ ys) = settle nr xs @ settle nr ys"
  by (simp add: settle_rows)

lemma tmp_id_inject [simp]: "tmp_id a = tmp_id b \<longleftrightarrow> a = b"
  by (simp add: tmp_id_def)

text \<open>The server's ids are none of the page's own.\<close>

definition real_id :: "js_id \<Rightarrow> bool" where
  "real_id i \<longleftrightarrow> (\<forall>n. i \<noteq> tmp_id n)"

fun reply_ok :: "task_response answer \<Rightarrow> bool" where
  "reply_ok (Inl _) = True"
| "reply_ok (Inr c) = real_id (tr_taskId c)"

lemma settle_row_real: "real_id (tr_taskId t) \<Longrightarrow> settle_row nr t = [t]"
  by (auto simp: settle_row_def real_id_def)

lemma settle_real: "\<forall>t \<in> set ts. real_id (tr_taskId t) \<Longrightarrow> settle nr ts = ts"
  by (induction ts) (simp_all add: settle_rows settle_row_real)

lemma settle_commute:
  assumes "fst a \<noteq> fst b" "reply_ok (snd a)" "reply_ok (snd b)"
  shows "settle a (settle b ts) = settle b (settle a ts)"
proof (induction ts)
  case (Cons t ts)
  have "settle a (settle_row b t) = settle b (settle_row a t)"
    using assms by (cases "snd a"; cases "snd b") (auto simp: settle_rows settle_row_def real_id_def)
  with Cons show ?case by (simp add: settle_rows)
qed (simp add: settle_rows)

lemma settle_all_order:
  assumes "distinct (map fst qs)" "\<forall>q \<in> set qs. reply_ok (snd q)" "mset ps = mset qs"
  shows "fold settle ps ts = fold settle qs ts"
proof -
  have "settle x \<circ> settle y = settle y \<circ> settle x" if "x \<in> set ps" "y \<in> set ps" for x y
  proof (cases "x = y")
    case False
    have "set ps = set qs" using assms(3) by (rule mset_eq_setD)
    with that False assms(1) have "fst x \<noteq> fst y"
      by (metis distinct_map inj_onD)
    moreover have "reply_ok (snd x)" "reply_ok (snd y)" using \<open>set ps = set qs\<close> that assms(2) by auto
    ultimately show ?thesis by (auto simp: settle_commute)
  qed simp
  then show ?thesis using fold_multiset_equiv [OF _ assms(3), of settle] by simp
qed

text \<open>What the accepted requests leave, newest row first.\<close>

definition created_rows :: "(int \<times> task_response answer) list \<Rightarrow> task_response list" where
  "created_rows qs = concat (map (\<lambda>q. case snd q of Inl _ \<Rightarrow> [] | Inr c \<Rightarrow> [c]) qs)"

definition optimistic_rows :: "(int \<times> partial_task) list \<Rightarrow> task_response list" where
  "optimistic_rows ads = map (\<lambda>(n, p). optimistic_task n p) ads"

lemma optimistic_id [simp]: "tr_taskId (optimistic_task n p) = tmp_id n"
  by (simp add: optimistic_task_def)

lemma settle_other:
  "\<forall>t \<in> set ts. tr_taskId t \<noteq> tmp_id (fst q) \<Longrightarrow> settle q ts = ts"
  by (induction ts) (auto simp: settle_rows settle_row_def)

lemma fold_settle_append: "fold settle qs (xs @ ys) = fold settle qs xs @ fold settle qs ys"
  by (induction qs arbitrary: xs ys) (simp_all add: settle_append)

lemma fold_settle_real: "\<forall>t \<in> set ts. real_id (tr_taskId t) \<Longrightarrow> fold settle qs ts = ts"
  by (induction qs) (simp_all add: settle_real)

lemma settle_all_rows:
  assumes "distinct (map fst qs)" "\<forall>q \<in> set qs. reply_ok (snd q)" "map fst ads = map fst qs"
  shows "fold settle qs (optimistic_rows ads) = created_rows qs"
  using assms
proof (induction qs arbitrary: ads)
  case Nil
  then show ?case by (simp add: optimistic_rows_def created_rows_def)
next
  case (Cons q qs)
  then obtain n p ads' where ads: "ads = (n, p) # ads'" and n: "n = fst q" and rest: "map fst ads' = map fst qs"
    by (cases ads) auto
  have "fst q \<notin> fst ` set ads'" using Cons.prems(1) rest by (metis distinct.simps(2) list.simps(9) set_map)
  then have other: "settle q (optimistic_rows ads') = optimistic_rows ads'"
    by (intro settle_other) (auto simp: optimistic_rows_def image_iff)
  define c where "c = (case snd q of Inl _ \<Rightarrow> [] | Inr c \<Rightarrow> [c])"
  have row: "settle q [optimistic_task n p] = c"
    by (cases "snd q") (simp_all add: settle_rows settle_row_def n c_def)
  have real: "\<forall>t \<in> set c. real_id (tr_taskId t)"
    using Cons.prems(2) by (cases "snd q") (auto simp: c_def)
  have "fold settle (q # qs) (optimistic_rows ads) = fold settle qs (settle q ([optimistic_task n p] @ optimistic_rows ads'))"
    by (simp add: ads optimistic_rows_def)
  also have "\<dots> = fold settle qs c @ fold settle qs (optimistic_rows ads')"
    unfolding settle_append row other fold_settle_append ..
  also have "\<dots> = c @ created_rows qs"
    using Cons.IH [OF _ _ rest] Cons.prems(1,2) by (simp add: fold_settle_real [OF real])
  finally show ?case by (simp add: created_rows_def c_def)
qed

lemma adds_begun: "th_tasks (foldl (\<lambda>h (n, p). addTask_begin n p h) h ads) = optimistic_rows (rev ads) @ th_tasks h"
  by (induction ads arbitrary: h) (auto simp: addTask_begin_def optimistic_rows_def)

lemma adds_ended: "th_tasks (foldl (\<lambda>h (n, r). addTask_end n r h) h qs) = fold settle qs (th_tasks h)"
  by (induction qs arbitrary: h) (auto simp: addTask_end_tasks)

subsection \<open>Printing of seconds\<close>

lemma pad2_two: "n < 100 \<Longrightarrow> \<exists>a b. pad2 n = [a, b] \<and> digit_value a = Some (n div 10) \<and> digit_value b = Some (n mod 10)"
proof -
  assume n: "n < 100"
  have *: "n < 10 \<Longrightarrow> show_nat n = [char_of (48 + n)]" "\<not> n < 10 \<Longrightarrow> show_nat n = [char_of (48 + n div 10), char_of (48 + n mod 10)]"
    using n by (simp_all add: show_nat_rec [of n] show_nat_rec [of "n div 10"])
  have z: "digit_value CHR ''0'' = Some 0" by (simp add: digit_value_def)
  show ?thesis
  proof (cases "n < 10")
    case True
    then show ?thesis using z by (simp add: pad2_def *(1) Let_def)
  next
    case False
    then show ?thesis using n by (simp add: pad2_def *(2) Let_def)
  qed
qed

definition read_HMS :: "string \<Rightarrow> int option" where
  "read_HMS t =
     (case t of
        [a, b, _, c, d, _, e, f] \<Rightarrow>
          (case (read_digits 0 [a, b], read_digits 0 [c, d], read_digits 0 [e, f]) of
             (Some h, Some m, Some s) \<Rightarrow> Some (int h * 3600 + int m * 60 + int s)
           | _ \<Rightarrow> None)
      | _ \<Rightarrow> None)"

lemma read_formatHMS: "read_HMS (formatHMS x) = Some (min (max x 0) 86399)"
proof -
  define c where "c = min (max x 0) 86399"
  have c: "0 \<le> c" "c \<le> 86399" by (auto simp: c_def)
  define h m s where "h = nat (c div 3600)" and "m = nat ((c mod 3600) div 60)" and "s = nat (c mod 60)"
  have "c div 3600 < 100" "(c mod 3600) div 60 < 100" "c mod 60 < 100"
    using c by (auto simp: div_less_iff_less_mult)
  then have lt: "h < 100" "m < 100" "s < 100" by (auto simp: h_def m_def s_def)
  obtain a b where h: "pad2 h = [a, b]" "digit_value a = Some (h div 10)" "digit_value b = Some (h mod 10)"
    using pad2_two [OF lt(1)] by blast
  obtain a' b' where m: "pad2 m = [a', b']" "digit_value a' = Some (m div 10)" "digit_value b' = Some (m mod 10)"
    using pad2_two [OF lt(2)] by blast
  obtain a'' b'' where s: "pad2 s = [a'', b'']" "digit_value a'' = Some (s div 10)" "digit_value b'' = Some (s mod 10)"
    using pad2_two [OF lt(3)] by blast
  have "formatHMS x = pad2 h @ '':'' @ pad2 m @ '':'' @ pad2 s"
    by (simp add: formatHMS_def Let_def c_def h_def m_def s_def)
  then have "read_HMS (formatHMS x) = Some (int h * 3600 + int m * 60 + int s)"
    using h m s by (simp add: read_HMS_def)
  moreover have "int h * 3600 + int m * 60 + int s = c"
  proof -
    have "c mod 60 = (c mod 3600) mod 60" by (simp add: mod_mod_cancel)
    then have "int s = (c mod 3600) mod 60" using c by (simp add: s_def)
    moreover have "int m = (c mod 3600) div 60" "int h = c div 3600" using c by (auto simp: h_def m_def)
    ultimately show ?thesis by (metis div_mult_mod_eq add.assoc)
  qed
  ultimately show ?thesis by (simp add: c_def)
qed

lemma sw_ticks:
  assumes "sw_running w" "sw_anchor w = Some (st, base)"
  shows "foldl sw_step w (map (\<lambda>n. (n, SW_tick)) (ns @ [n])) = w\<lparr>sw_elapsed := base + (n - st) div 1000\<rparr>"
proof -
  have "\<exists>e. foldl sw_step w (map (\<lambda>n. (n, SW_tick)) ns) = w\<lparr>sw_elapsed := e\<rparr>"
  proof (induction ns rule: rev_induct)
    case Nil
    have "w = w\<lparr>sw_elapsed := sw_elapsed w\<rparr>" by simp
    then show ?case by (metis foldl_Nil list.map(1))
  next
    case (snoc n ns)
    then obtain e where "foldl sw_step w (map (\<lambda>n. (n, SW_tick)) ns) = w\<lparr>sw_elapsed := e\<rparr>" by blast
    with assms show ?case by (simp add: exI [of _ "base + (n - st) div 1000"])
  qed
  then obtain e where "foldl sw_step w (map (\<lambda>n. (n, SW_tick)) ns) = w\<lparr>sw_elapsed := e\<rparr>" by blast
  with assms show ?thesis by simp
qed

subsection \<open>Properties\<close>

text \<open>
  Changes that do not overlap follow the server: when every change is begun on the list the page
  shows and settles before the next one begins, the list is the one obtained by applying exactly the
  changes the server accepted, and after a rejected change the list is exactly what it was.
\<close>

theorem lone_changes_follow_server:
  "th_tasks (foldl lone_change h crs) = server_list (th_tasks h) crs
   \<and> (\<forall>c m. th_tasks (lone_change h (c, Inl m)) = th_tasks h)"
  by (simp add: lone_changes_tasks lone_change_tasks accepted_def)

text \<open>
  Overlapping changes lose each other: two tasks completed from the same render are both accepted
  by the server, and still the first one is on the page again, because the second change is applied
  to the list of that render; and a rejected change restores the list of its render, so the task of
  an accepted change begun in between is shown again.
\<close>

theorem overlapping_changes_lose_each_other:
  assumes "i \<in> tr_taskId ` set (th_tasks h)" "i \<noteq> j"
  shows "let s = th_tasks h;
             h1 = mutate_begin (change_list (L_complete i)) s h;
             h2 = mutate_begin (change_list (L_complete j)) s h1
         in i \<in> tr_taskId ` set (th_tasks (mutate_end s (Inr ()) (mutate_end s (Inr ()) h2)))"
    and "let s = th_tasks h;
             h1 = mutate_begin (change_list (L_complete j)) s h;
             h2 = mutate_begin (change_list (L_complete i)) (th_tasks h1) h1
         in i \<in> tr_taskId ` set (th_tasks (mutate_end s (Inl m) (mutate_end (th_tasks h1) (Inr ()) h2)))"
  using assms by (simp_all add: Let_def mutate_begin_def mutate_end_def completeTask_list_def without_ids)

text \<open>
  C26. New tasks settle in any order: with rows added at different instants and requests answered in
  whatever order, the rows of the accepted requests end up as the created tasks, newest first, the
  rows of the rejected ones are gone, and the tasks that were there before stand behind them.
\<close>

theorem added_tasks_settle_in_any_order:
  assumes "distinct (map fst ads)" and "map fst ads = map fst qs"
    and "\<forall>q \<in> set qs. reply_ok (snd q)" and "mset ps = mset qs"
    and "\<forall>t \<in> set (th_tasks h). real_id (tr_taskId t)"
  shows "th_tasks (foldl (\<lambda>h (n, r). addTask_end n r h) (foldl (\<lambda>h (n, p). addTask_begin n p h) h ads) ps)
         = created_rows (rev qs) @ th_tasks h"
proof -
  have "distinct (map fst qs)" using assms(1,2) by simp
  then have "fold settle ps ts = fold settle (rev qs) ts" for ts
    using assms(3,4) by (intro settle_all_order) (auto simp: rev_map [symmetric])
  moreover have "fold settle (rev qs) (optimistic_rows (rev ads)) = created_rows (rev qs)"
    using assms(1-3) by (intro settle_all_rows) (auto simp: rev_map [symmetric])
  ultimately show ?thesis
    by (simp add: adds_begun adds_ended fold_settle_append fold_settle_real [OF assms(5)])
qed

definition plain_partial :: partial_task where
  "plain_partial = \<lparr>pt_title = [0x41], pt_description = None, pt_estimatedMinutes = None, pt_deadline = None,
     pt_requiredEnergy = None, pt_importance = None, pt_category = None\<rparr>"

definition created_row :: task_response where
  "created_row = (optimistic_task 5 plain_partial)\<lparr>tr_taskId := Num_id 7\<rparr>"

lemma added_tasks_settle_in_any_order_witness:
  "th_tasks (foldl (\<lambda>h (n, r). addTask_end n r h)
       (foldl (\<lambda>h (n, p). addTask_begin n p h) useTasks [(5, plain_partial), (6, plain_partial)])
       [(6, Inl None), (5, Inr created_row)])
   = created_rows (rev [(5, Inr created_row), (6, Inl None)]) @ th_tasks useTasks"
  by (rule added_tasks_settle_in_any_order)
     (simp_all add: useTasks_def created_row_def real_id_def tmp_id_def add_mset_commute)

text \<open>
  Archiving hands out the task, and the undo puts it back: after an accepted archive followed by a
  restore of the task handed out, the page has the same ids, the task is pending and last, and a
  second restore changes nothing.
\<close>

theorem archive_undo:
  assumes "i \<in> tr_taskId ` set (th_tasks h)"
  shows "let s = th_tasks h; handed = archiveTask_handed i s;
             h' = restoreTask_hook handed (mutate_end s (Inr ()) (mutate_begin (change_list (L_archive i)) s h))
         in \<exists>t \<in> set s. handed = Some t \<and> tr_taskId t = i
            \<and> th_tasks h' = without_task i s @ [t\<lparr>tr_status := S_PENDING\<rparr>]
            \<and> tr_taskId ` set (th_tasks h') = tr_taskId ` set s
            \<and> restoreTask_hook handed h' = h'"
proof -
  obtain t where t: "archiveTask_handed i (th_tasks h) = Some t" "t \<in> set (th_tasks h)" "tr_taskId t = i"
    using find_id_Some [OF assms] by blast
  have "\<not> (\<exists>x \<in> set (without_task i (th_tasks h)). tr_taskId x = i)" by (auto simp: without_task_def)
  with t assms show ?thesis
    unfolding Let_def by (intro bexI [of _ t])
       (auto simp: restoreTask_hook_def mutate_begin_def mutate_end_def archiveTask_list_def without_ids)
qed

text \<open>
  The clock of a running stopwatch does not drift: however often and however late the interval
  fires, the last tick shows the whole seconds since the start; and setting the value while it runs
  lasts only until the next tick.
\<close>

theorem stopwatch_does_not_drift:
  assumes "\<not> sw_running w"
  shows "sw_elapsed (foldl sw_step (sw_step w (t0, SW_start)) (map (\<lambda>n. (n, SW_tick)) (ns @ [n])))
         = sw_elapsed w + (n - t0) div 1000"
    and "sw_elapsed (sw_step (sw_step (sw_step w (t0, SW_start)) (t1, SW_reset to)) (n, SW_tick))
         = sw_elapsed w + (n - t0) div 1000"
  using assms by (simp_all del: map_append add: sw_ticks [of _ t0 "sw_elapsed w"] sw_enter_def)

text \<open>
  What the stopwatch prints reads back as the seconds it counted, cut to one day: hours, minutes
  and seconds are lost by no rounding, and a negative count is printed as zero.
\<close>

theorem formatHMS_reads_back: "read_HMS (formatHMS x) = Some (min (max x 0) 86399)"
  by (rule read_formatHMS)

end
