(* ===== verification/Notification_Feed.thy ===== *)
theory Notification_Feed
  imports Mock_Backend Json Task_List
begin

text \<open>
  \<open>subscribeNotifications\<close> of \<open>frontend/src/api/notifications.js\<close>: the polling fall-back, whose every
  tick is split at its request, so that ticks overlap and may end after the subscription, and the two
  listeners of the event stream.  The calls of \<open>onNew\<close> and \<open>onUnreadCount\<close> are kept in order.
\<close>

subsection \<open>Polling\<close>

record feed =
  fd_stopped :: bool
  fd_seen :: "string list option"
  fd_new :: "mock_notification list"
  fd_counts :: "nat list"

definition subscribe :: feed where
  "subscribe = \<lparr>fd_stopped = False, fd_seen = None, fd_new = [], fd_counts = []\<rparr>"

definition poll_begins :: "feed \<Rightarrow> bool" where
  "poll_begins s \<longleftrightarrow> \<not> fd_stopped s"

definition is_news :: "string list \<Rightarrow> mock_notification \<Rightarrow> bool" where
  "is_news seen n \<longleftrightarrow> n_id n \<notin> set seen \<and> \<not> n_is_read n \<and> \<not> n_is_dismissed n"

definition poll_end :: "notification_page answer \<Rightarrow> feed \<Rightarrow> feed" where
  "poll_end reply s =
     (case reply of
        Inl _ \<Rightarrow> s
      | Inr p \<Rightarrow>
          (let ids = remdups (map n_id (pg_notifications p));
               s' = s\<lparr>fd_counts := fd_counts s @ [pg_unreadCount p], fd_seen := Some ids\<rparr>
           in case fd_seen s of
                None \<Rightarrow> s'
              | Some seen \<Rightarrow> s'\<lparr>fd_new := fd_new s @ filter (is_news seen) (pg_notifications p)\<rparr>))"

definition unsubscribe :: "feed \<Rightarrow> feed" where
  "unsubscribe s = s\<lparr>fd_stopped := True\<rparr>"

text \<open>
  A run of the subscription: a tick asks, or an earlier request is answered; \<open>feed_asked\<close> counts the
  requests on their way.
\<close>

datatype feed_event = Tick_fires | Poll_answered "notification_page answer" | Unsubscribed

fun feed_step :: "feed \<times> nat \<Rightarrow> feed_event \<Rightarrow> feed \<times> nat" where
  "feed_step (s, k) Tick_fires = (s, if poll_begins s then k + 1 else k)"
| "feed_step (s, k) (Poll_answered r) = (if k = 0 then (s, k) else (poll_end r s, k - 1))"
| "feed_step (s, k) Unsubscribed = (unsubscribe s, k)"

subsection \<open>The event stream\<close>

text \<open>
  The data of an event that is no JSON is ignored; so is a count of \<open>null\<close>, whose reading throws.
  A value without the member \<open>count\<close> hands over \<open>undefined\<close>.
\<close>

definition sse_new :: "ustring \<Rightarrow> json option" where
  "sse_new data = parse_json data"

definition sse_count :: "ustring \<Rightarrow> json option option" where
  "sse_count data =
     (case parse_json data of
        None \<Rightarrow> None
      | Some J_null \<Rightarrow> None
      | Some (J_obj ms) \<Rightarrow> Some (lookup ms (ascii ''count''))
      | Some _ \<Rightarrow> Some None)"

subsection \<open>Each notification is announced once\<close>

text \<open>
  The reference: of every list but the first, what no earlier list had and is unread.
\<close>

definition page_ids :: "notification_page \<Rightarrow> string set" where
  "page_ids p = set (map n_id (pg_notifications p))"

definition open_note :: "mock_notification \<Rightarrow> bool" where
  "open_note n \<longleftrightarrow> \<not> n_is_read n \<and> \<not> n_is_dismissed n"

fun first_seen :: "string set \<Rightarrow> notification_page list \<Rightarrow> mock_notification list" where
  "first_seen known [] = []"
| "first_seen known (p # ps) =
     filter (\<lambda>n. n_id n \<notin> known \<and> open_note n) (pg_notifications p) @ first_seen (known \<union> page_ids p) ps"

text \<open>What has left the list does not come back.\<close>

fun none_returns :: "string set \<Rightarrow> string set \<Rightarrow> notification_page list \<Rightarrow> bool" where
  "none_returns gone current [] = True"
| "none_returns gone current (p # ps) =
     (gone \<inter> page_ids p = {} \<and> none_returns (gone \<union> (current - page_ids p)) (page_ids p) ps)"

definition pages_of :: "notification_page answer list \<Rightarrow> notification_page list" where
  "pages_of rs = concat (map (\<lambda>r. case r of Inl _ \<Rightarrow> [] | Inr p \<Rightarrow> [p]) rs)"

definition announced :: "notification_page answer list \<Rightarrow> mock_notification list" where
  "announced rs = fd_new (foldl (\<lambda>s r. poll_end r s) subscribe rs)"

lemma poll_end_seen:
  assumes "fd_seen s = Some seen"
  shows "fd_new (poll_end (Inr p) s) = fd_new s @ filter (is_news seen) (pg_notifications p)"
    and "fd_seen (poll_end (Inr p) s) = Some (remdups (map n_id (pg_notifications p)))"
  using assms by (simp_all add: poll_end_def Let_def)

lemma poll_end_first:
  assumes "fd_seen s = None"
  shows "fd_new (poll_end (Inr p) s) = fd_new s"
    and "fd_seen (poll_end (Inr p) s) = Some (remdups (map n_id (pg_notifications p)))"
  using assms by (simp_all add: poll_end_def Let_def)

lemma poll_end_failed [simp]: "poll_end (Inl e) s = s"
  by (simp add: poll_end_def)

lemma polls_announce_first_seen:
  assumes "fd_seen s = Some seen" and "none_returns gone (set seen) (pages_of rs)"
  shows "fd_new (foldl (\<lambda>s r. poll_end r s) s rs) = fd_new s @ first_seen (gone \<union> set seen) (pages_of rs)"
  using assms
proof (induction rs arbitrary: s seen gone)
  case Nil
  then show ?case by (simp add: pages_of_def)
next
  case (Cons r rs)
  show ?case
  proof (cases r)
    case (Inl e)
    with Cons show ?thesis by (simp add: pages_of_def)
  next
    case (Inr p)
    then have pg: "pages_of (r # rs) = p # pages_of rs" by (simp add: pages_of_def)
    let ?s = "poll_end (Inr p) s" and ?ids = "remdups (map n_id (pg_notifications p))"
    from Cons.prems pg have free: "gone \<inter> page_ids p = {}"
      and rest: "none_returns (gone \<union> (set seen - page_ids p)) (set ?ids) (pages_of rs)"
      by (simp_all add: page_ids_def)
    note IH = Cons.IH [OF poll_end_seen(2) [OF Cons.prems(1)] rest]
    have known: "gone \<union> (set seen - page_ids p) \<union> set ?ids = gone \<union> set seen \<union> page_ids p"
      by (auto simp: page_ids_def)
    have news: "filter (is_news seen) (pg_notifications p)
        = filter (\<lambda>n. n_id n \<notin> gone \<union> set seen \<and> open_note n) (pg_notifications p)"
      using free by (intro filter_cong) (auto simp: is_news_def open_note_def page_ids_def)
    show ?thesis
      using IH [unfolded known] unfolding Inr pg [unfolded Inr]
      by (simp add: poll_end_seen(1) [OF Cons.prems(1)] news)
  qed
qed

lemma announced_first_seen:
  assumes "pages_of rs = p # ps" and "none_returns {} (page_ids p) ps"
  shows "announced rs = first_seen (page_ids p) ps"
proof -
  have "fd_new (foldl (\<lambda>s r. poll_end r s) s rs) = fd_new s @ first_seen (page_ids p) ps"
    if "fd_seen s = None" "pages_of rs = p # ps" for s
    using that
  proof (induction rs)
    case Nil
    then show ?case by (simp add: pages_of_def)
  next
    case (Cons r rs)
    show ?case
    proof (cases r)
      case (Inl e)
      with Cons show ?thesis by (simp add: pages_of_def)
    next
      case (Inr q)
      with Cons.prems have q: "q = p" "pages_of rs = ps" by (simp_all add: pages_of_def)
      have "set (remdups (map n_id (pg_notifications p))) = page_ids p" by (simp add: page_ids_def)
      with polls_announce_first_seen [OF poll_end_first(2) [OF Cons.prems(1)], of "{}" p rs] assms(2) q
      show ?thesis by (simp add: Inr poll_end_first(1) [OF Cons.prems(1)])
    qed
  qed
  from this [of subscribe] assms(1) show ?thesis by (simp add: announced_def subscribe_def)
qed

lemma first_seen_distinct:
  "list_all (\<lambda>p. distinct (map n_id (pg_notifications p))) ps
   \<Longrightarrow> distinct (map n_id (first_seen known ps)) \<and> n_id ` set (first_seen known ps) \<inter> known = {}"
proof (induction ps arbitrary: known)
  case Nil
  then show ?case by simp
next
  case (Cons p ps)
  then have IH: "distinct (map n_id (first_seen (known \<union> page_ids p) ps))"
    "n_id ` set (first_seen (known \<union> page_ids p) ps) \<inter> (known \<union> page_ids p) = {}" by auto
  let ?here = "filter (\<lambda>n. n_id n \<notin> known \<and> open_note n) (pg_notifications p)"
  have "distinct (map n_id ?here)" using Cons.prems by (simp add: distinct_map_filter)
  moreover have "n_id ` set ?here \<subseteq> page_ids p - known" by (auto simp: page_ids_def)
  ultimately show ?case using IH by (simp add: image_Un) blast
qed

subsection \<open>Properties\<close>


definition plain_note :: "string \<Rightarrow> mock_notification" where
  "plain_note k = \<lparr>n_id = k, n_task_id = Num_id 1, n_type = N_INFO, n_overdue_days = 0, n_message = [], n_is_read = False,
     n_is_dismissed = False, n_action_taken = NONE, n_created_at = 0, n_read_at = None\<rparr>"

definition plain_page :: "string list \<Rightarrow> notification_page" where
  "plain_page ks = \<lparr>pg_notifications = map plain_note ks, pg_unreadCount = length ks, pg_nextCursor = None\<rparr>"


text \<open>
  A full page breaks that condition: dismissing the newest of 51 notifications brings the oldest, which
  is older than the subscription, onto the page of 50, and it is announced as new.
\<close>

lemma newest_first_sorted: "sorted (map (\<lambda>n. - n_created_at n) ns) \<Longrightarrow> newest_first ns = ns"
  by (simp add: newest_first_def sort_key_id_if_sorted)

lemma first_page:
  assumes "filter (\<lambda>n. \<not> n_is_dismissed n) (m_notifications m) = ns" and "sorted (map (\<lambda>n. - n_created_at n) ns)"
  shows "pg_notifications (mock_getNotifications m False None k) = take k ns"
  using assms by (simp add: mock_getNotifications_def Let_def newest_first_sorted)

theorem dismissal_announces_old_notification:
  assumes "m_notifications m = n # ns @ [old]" and "length ns = 49" and "distinct (map n_id (n # ns @ [old]))"
    and "list_all open_note (n # ns @ [old])" and "sorted (map (\<lambda>n. - n_created_at n) (n # ns @ [old]))"
  shows "announced [Inr (mock_getNotifications m False None 50),
     Inr (mock_getNotifications (mock_dismissNotification m (n_id n)) False None 50)] = [old]"
proof -
  let ?m = "mock_dismissNotification m (n_id n)"
  have undismissed: "filter (\<lambda>n. \<not> n_is_dismissed n) (m_notifications m) = n # ns @ [old]"
    using assms(1,4) by (auto simp: open_note_def list_all_iff filter_id_conv)
  from assms(3) have "n_id n \<notin> n_id ` set (ns @ [old])" by auto
  then have others: "\<forall>x \<in> set (ns @ [old]). n_id x \<noteq> n_id n" by (metis imageI)
  have "update_where (\<lambda>x. n_id x = n_id n) (\<lambda>n. n\<lparr>n_is_dismissed := True\<rparr>) (ns @ [old]) = ns @ [old]"
    by (rule update_where_none) (use others in simp)
  then have "m_notifications ?m = n\<lparr>n_is_dismissed := True\<rparr> # ns @ [old]"
    using assms(1) by (simp add: mock_dismissNotification_def update_where_def)
  then have "filter (\<lambda>n. \<not> n_is_dismissed n) (m_notifications ?m) = ns @ [old]"
    using assms(4) by (auto simp: open_note_def list_all_iff filter_id_conv)
  from first_page [OF this] assms(2,5)
  have 2: "pg_notifications (mock_getNotifications ?m False None 50) = ns @ [old]" by simp
  from first_page [OF undismissed] assms(2,5)
  have 1: "pg_notifications (mock_getNotifications m False None 50) = n # ns" by simp
  have "filter (is_news (remdups (map n_id (n # ns)))) ns = []" by (auto simp: filter_empty_conv is_news_def)
  moreover have "is_news (remdups (map n_id (n # ns))) old"
    using assms(3,4) by (auto simp: is_news_def open_note_def)
  ultimately show ?thesis
    by (simp add: announced_def subscribe_def poll_end_def 1 2 Let_def del: remdups.simps list.map)
qed

end
