(* ===== verification/Today_List.thy ===== *)
theory Today_List
  imports Mock_Backend Js_Regex "HOL-Library.Multiset" "HOL-Library.Product_Lexorder"
begin

text \<open>
  What the page \<open>frontend/src/pages/TodayTasksPage.jsx\<close> shows of its tasks: the one priority task
  above, the list of the others with its three orders, and the empty and search states; and the
  list of \<open>pages/ImportantTasksPage.jsx\<close>.  \<open>lower\<close> is the host's \<open>toLowerCase\<close>.
\<close>

subsection \<open>Selection (pages/TodayTasksPage.jsx)\<close>

definition query_of :: "(ustring \<Rightarrow> ustring) \<Rightarrow> ustring \<Rightarrow> ustring" where
  "query_of lower search = lower (trim search)"

definition matchesQuery :: "(ustring \<Rightarrow> ustring) \<Rightarrow> ustring \<Rightarrow> view_model \<Rightarrow> bool" where
  "matchesQuery lower q t \<longleftrightarrow> q = [] \<or> str_includes (lower (vm_title t)) q"

definition page_priorityTask :: "(ustring \<Rightarrow> ustring) \<Rightarrow> ustring \<Rightarrow> view_model list \<Rightarrow> view_model option" where
  "page_priorityTask lower q views =
     List.find (\<lambda>t. vm_isPriority t \<and> \<not> vm_isZombie t \<and> matchesQuery lower q t) views"

definition page_hasPriorityTask :: "view_model list \<Rightarrow> bool" where
  "page_hasPriorityTask views \<longleftrightarrow> (\<exists>t \<in> set views. vm_isPriority t \<and> vm_status t \<noteq> S_COMPLETED)"

definition page_isEmpty :: "bool \<Rightarrow> view_model list \<Rightarrow> bool" where
  "page_isEmpty isLoading views \<longleftrightarrow> \<not> isLoading \<and> length views = 0"

definition pending_candidates :: "(ustring \<Rightarrow> ustring) \<Rightarrow> ustring \<Rightarrow> view_model list \<Rightarrow> view_model list" where
  "pending_candidates lower q views =
     filter (matchesQuery lower q) (filter (\<lambda>t. \<not> vm_isPriority t \<or> vm_isZombie t) views)"

definition page_isSearchEmpty :: "(ustring \<Rightarrow> ustring) \<Rightarrow> ustring \<Rightarrow> view_model list \<Rightarrow> bool" where
  "page_isSearchEmpty lower q views \<longleftrightarrow>
     q \<noteq> [] \<and> page_priorityTask lower q views = None \<and> length (pending_candidates lower q views) = 0"

fun energy_score :: "energy \<Rightarrow> int" where
  "energy_score LOW = 0"
| "energy_score MEDIUM = 1"
| "energy_score HIGH = 2"

datatype expected_priority = Critical | High | Medium | Low

definition computePriority :: "energy \<Rightarrow> js_num \<Rightarrow> expected_priority" where
  "computePriority en time =
     (let score = energy_score en + (if time \<ge> 5 then 2 else if time \<ge> 5 / 2 then 1 else 0)
      in if score \<ge> 4 then Critical else if score \<ge> 3 then High else if score \<ge> 1 then Medium else Low)"

subsection \<open>Order (pages/TodayTasksPage.jsx)\<close>

datatype sort_mode = By_adaptive | By_deadline | By_importance

definition fits :: "energy \<Rightarrow> js_num \<Rightarrow> view_model \<Rightarrow> bool" where
  "fits energyLevel minutes t \<longleftrightarrow>
     ENERGY_RANK (vm_requiredEnergy t) \<le> ENERGY_RANK energyLevel
     \<and> jn_le (as_number (vm_estimatedMinutes t)) (JNum minutes)"

text \<open>
  The engine's sort is stable, so a comparator that subtracts keys is \<open>sort_key\<close>; the adaptive
  comparator looks at two flags, \<open>true\<close> first.
\<close>

definition flag_rank :: "bool \<Rightarrow> nat" where
  "flag_rank b = (if b then 0 else 1)"

definition adaptive_rank :: "view_model \<times> bool \<Rightarrow> nat" where
  "adaptive_rank tf = 2 * flag_rank (vm_isZombie (fst tf)) + flag_rank (snd tf)"

definition page_pending ::
  "(ustring \<Rightarrow> ustring) \<Rightarrow> ustring \<Rightarrow> energy \<Rightarrow> js_num \<Rightarrow> sort_mode \<Rightarrow> view_model list \<Rightarrow> (view_model \<times> bool) list" where
  "page_pending lower q energyLevel minutes sortMode views =
     (let base = map (\<lambda>t. (t, fits energyLevel minutes t)) (pending_candidates lower q views) in
      case sortMode of
        By_deadline \<Rightarrow> sort_key (\<lambda>tf. ddayNum (vm_dday (fst tf))) base
      | By_importance \<Rightarrow> sort_key (\<lambda>tf. - vm_importance (fst tf)) base
      | By_adaptive \<Rightarrow> sort_key adaptive_rank base)"

definition card_dimmed :: "view_model \<times> bool \<Rightarrow> bool" where
  "card_dimmed tf \<longleftrightarrow> \<not> snd tf \<and> \<not> vm_isZombie (fst tf)"

subsection \<open>What the page renders\<close>

record today_render =
  rd_empty :: bool
  rd_searchEmpty :: bool
  rd_priority :: "view_model option"
  rd_pending :: "(view_model \<times> bool) list"

text \<open>The sections of the markup: nothing but the call to action when there is no task.\<close>

definition render_today ::
  "(ustring \<Rightarrow> ustring) \<Rightarrow> ustring \<Rightarrow> energy \<Rightarrow> js_num \<Rightarrow> sort_mode \<Rightarrow> bool \<Rightarrow> view_model list \<Rightarrow> today_render" where
  "render_today lower search energyLevel timeAvailable sortMode isLoading views =
     (let q = query_of lower search;
          isEmpty = page_isEmpty isLoading views;
          isSearchEmpty = page_isSearchEmpty lower q views;
          open_page = \<not> isEmpty \<and> \<not> isSearchEmpty
      in \<lparr>rd_empty = isEmpty, rd_searchEmpty = isSearchEmpty,
          rd_priority = (if open_page then page_priorityTask lower q views else None),
          rd_pending = (if open_page \<and> \<not> isLoading
                        then page_pending lower q energyLevel (timeAvailable * 60) sortMode views else [])\<rparr>)"

definition rendered :: "today_render \<Rightarrow> view_model list" where
  "rendered r = (case rd_priority r of None \<Rightarrow> [] | Some t \<Rightarrow> [t]) @ map fst (rd_pending r)"

subsection \<open>Important tasks (pages/ImportantTasksPage.jsx)\<close>

text \<open>The comparator: zombies first, then the higher importance.\<close>

definition important_rank :: "view_model \<Rightarrow> nat \<times> int" where
  "important_rank t = (flag_rank (vm_isZombie t), - vm_importance t)"

definition important_list :: "(ustring \<Rightarrow> ustring) \<Rightarrow> ustring \<Rightarrow> view_model list \<Rightarrow> view_model list" where
  "important_list lower q views =
     sort_key important_rank (filter (matchesQuery lower q) (filter (\<lambda>t. vm_importance t \<ge> 4) views))"

subsection \<open>Stable sorting into classes\<close>

lemma insort_key_into_classes:
  assumes "f x = k" "k < n" "\<forall>j < n. \<forall>y \<in> set (C j). f y = (j::nat)"
  shows "insort_key f x (concat (map C [0..<n])) = concat (map (\<lambda>j. if j = k then x # C j else C j) [0..<n])"
proof -
  have split: "[0..<n] = [0..<k] @ k # [Suc k..<n]"
    using assms(2) by (metis le_add_same_cancel1 less_imp_le upt_add_eq_append upt_conv_Cons zero_le le_add_diff_inverse)
  let ?a = "concat (map C [0..<k])" and ?b = "C k @ concat (map C [Suc k..<n])"
  have C: "f y = j" if "j < n" "y \<in> set (C j)" for j y using assms(3) that by blast
  have a: "\<forall>y \<in> set ?a. f y < f x" using assms(1,2) by (auto dest: C [rotated])
  have b: "\<forall>y \<in> set ?b. f x \<le> f y" using assms(1,2) by (auto dest: C [rotated])
  have i: "insort_key f x (?a @ ?b) = ?a @ x # ?b" unfolding insort_key_pass [OF a] insort_is_Cons [OF b] ..
  have m: "map (\<lambda>j. if j = k then x # C j else C j) [0..<k] = map C [0..<k]"
    "map (\<lambda>j. if j = k then x # C j else C j) [Suc k..<n] = map C [Suc k..<n]" by auto
  show ?thesis using i unfolding split map_append list.map concat_append concat.simps m by simp
qed

lemma stable_classes:
  "\<forall>x \<in> set xs. f x < (n::nat) \<Longrightarrow> sort_key f xs = concat (map (\<lambda>k. filter (\<lambda>x. f x = k) xs) [0..<n])"
proof (induction xs)
  case Nil
  have "concat (map (\<lambda>k. []) [0..<n]) = []" by (induction n) auto
  then show ?case by simp
next
  case (Cons x xs)
  then have "sort_key f (x # xs) = insort_key f x (concat (map (\<lambda>k. filter (\<lambda>x. f x = k) xs) [0..<n]))" by simp
  also have "\<dots> = concat (map (\<lambda>j. if j = f x then x # filter (\<lambda>x. f x = j) xs else filter (\<lambda>x. f x = j) xs) [0..<n])"
    by (rule insort_key_into_classes) (use Cons.prems in auto)
  also have "\<dots> = concat (map (\<lambda>k. filter (\<lambda>x. f x = k) (x # xs)) [0..<n])"
    by (intro arg_cong [of _ _ concat] map_cong) auto
  finally show ?case .
qed

lemma adaptive_classes:
  "sort_key adaptive_rank xs =
     filter (\<lambda>(t, f). vm_isZombie t \<and> f) xs @ filter (\<lambda>(t, f). vm_isZombie t \<and> \<not> f) xs
     @ filter (\<lambda>(t, f). \<not> vm_isZombie t \<and> f) xs @ filter (\<lambda>(t, f). \<not> vm_isZombie t \<and> \<not> f) xs"
proof -
  have "sort_key adaptive_rank xs = concat (map (\<lambda>k. filter (\<lambda>x. adaptive_rank x = k) xs) [0..<4])"
    by (rule stable_classes) (simp add: adaptive_rank_def flag_rank_def)
  moreover have "[0..<4] = [0, 1, 2, 3::nat]" by (simp add: upt_rec)
  moreover have "(\<lambda>x. adaptive_rank x = 0) = (\<lambda>(t, f). vm_isZombie t \<and> f)"
    "(\<lambda>x. adaptive_rank x = 1) = (\<lambda>(t, f). vm_isZombie t \<and> \<not> f)"
    "(\<lambda>x. adaptive_rank x = 2) = (\<lambda>(t, f). \<not> vm_isZombie t \<and> f)"
    "(\<lambda>x. adaptive_rank x = 3) = (\<lambda>(t, f). \<not> vm_isZombie t \<and> \<not> f)"
    by (auto simp: fun_eq_iff adaptive_rank_def flag_rank_def)
  ultimately show ?thesis by simp
qed

subsection \<open>What is shown\<close>

lemma mset_pending: "image_mset fst (mset (page_pending lower q en m mode views)) = mset (pending_candidates lower q views)"
proof -
  have "mset (page_pending lower q en m mode views) = mset (map (\<lambda>t. (t, fits en m t)) (pending_candidates lower q views))"
    by (cases mode) (simp_all only: page_pending_def Let_def sort_mode.case mset_sort)
  then show ?thesis by (simp add: image_mset.compositionality comp_def)
qed

lemma mset_find_first:
  "mset (filter P xs) = mset (case List.find P xs of None \<Rightarrow> [] | Some x \<Rightarrow> [x]) + mset (tl (filter P xs))"
proof (induction xs)
  case (Cons x xs)
  show ?case using Cons by (cases "P x") simp_all
qed simp

lemma filter_split_mset: "mset (filter P xs) = mset (filter (\<lambda>x. P x \<and> Q x) xs) + mset (filter (\<lambda>x. P x \<and> \<not> Q x) xs)"
  by (induction xs) auto

text \<open>The priority tasks the page does not show: all after the first.\<close>

definition hidden_priority :: "(ustring \<Rightarrow> ustring) \<Rightarrow> ustring \<Rightarrow> view_model list \<Rightarrow> view_model list" where
  "hidden_priority lower q views = tl (filter (\<lambda>t. vm_isPriority t \<and> \<not> vm_isZombie t \<and> matchesQuery lower q t) views)"

lemma shown_or_hidden:
  "mset (case page_priorityTask lower q views of None \<Rightarrow> [] | Some t \<Rightarrow> [t])
   + mset (pending_candidates lower q views) + mset (hidden_priority lower q views)
   = mset (filter (matchesQuery lower q) views)"
proof -
  let ?P = "\<lambda>t. vm_isPriority t \<and> \<not> vm_isZombie t \<and> matchesQuery lower q t"
  have 1: "pending_candidates lower q views = filter (\<lambda>t. matchesQuery lower q t \<and> (\<not> vm_isPriority t \<or> vm_isZombie t)) views"
    by (simp add: pending_candidates_def conj_commute)
  have "mset (filter (matchesQuery lower q) views)
      = mset (filter (\<lambda>t. matchesQuery lower q t \<and> (\<not> vm_isPriority t \<or> vm_isZombie t)) views) + mset (filter ?P views)"
    unfolding filter_split_mset [of "matchesQuery lower q" _ "\<lambda>t. \<not> vm_isPriority t \<or> vm_isZombie t"]
    by (simp add: conj_commute conj_left_commute)
  then show ?thesis
    using mset_find_first [of ?P views] by (simp add: 1 page_priorityTask_def hidden_priority_def ac_simps)
qed

lemma search_empty_none: "page_isSearchEmpty lower q views \<Longrightarrow> filter (matchesQuery lower q) views = []"
proof -
  assume "page_isSearchEmpty lower q views"
  then have n: "page_priorityTask lower q views = None" "pending_candidates lower q views = []"
    by (auto simp: page_isSearchEmpty_def)
  from n(1) have "filter (\<lambda>t. vm_isPriority t \<and> \<not> vm_isZombie t \<and> matchesQuery lower q t) views = []"
    by (auto simp: page_priorityTask_def find_None_iff filter_empty_conv)
  then have "hidden_priority lower q views = []" by (simp add: hidden_priority_def)
  with n shown_or_hidden [of lower q views] show ?thesis by simp
qed

subsection \<open>Properties\<close>

text \<open>
  C21. No task is shown twice, and none is lost but a second priority task: once the list is loaded, in
  every order and for every search text, the tasks on the page and the priority tasks after the
  first are together exactly the tasks whose title contains the text.
\<close>

theorem today_shows_each_task_once:
  "mset (rendered (render_today lower search en avail mode False views))
   + mset (hidden_priority lower (query_of lower search) views)
   = mset (filter (matchesQuery lower (query_of lower search)) views)"
proof -
  define q where "q = query_of lower search"
  have h: "hidden_priority lower q views = []" if "filter (matchesQuery lower q) views = []"
    using shown_or_hidden [of lower q views] that by simp
  consider "views = []" | "page_isSearchEmpty lower q views" | "views \<noteq> []" "\<not> page_isSearchEmpty lower q views" by blast
  then show ?thesis
  proof cases
    case 1
    then show ?thesis by (simp add: render_today_def rendered_def Let_def page_isEmpty_def hidden_priority_def)
  next
    case 2
    note none = search_empty_none [OF this]
    from 2 h [OF none] none show ?thesis
      by (simp add: render_today_def rendered_def Let_def q_def [symmetric])
  next
    case 3
    then show ?thesis
      using shown_or_hidden [of lower q views]
      by (simp add: render_today_def rendered_def Let_def page_isEmpty_def q_def [symmetric] mset_pending)
  qed
qed

text \<open>
  The adaptive order: first the tasks delayed five times or more, those that fit energy and time
  before the others, then the remaining tasks that fit, then the rest; each group in the order of the
  list.  The order by deadline is by the number of days left and the order by importance is falling.
\<close>

theorem today_orders:
  "let cs = map (\<lambda>t. (t, fits en m t)) (pending_candidates lower q views) in
   page_pending lower q en m By_adaptive views
     = filter (\<lambda>(t, f). vm_isZombie t \<and> f) cs @ filter (\<lambda>(t, f). vm_isZombie t \<and> \<not> f) cs
       @ filter (\<lambda>(t, f). \<not> vm_isZombie t \<and> f) cs @ filter (\<lambda>(t, f). \<not> vm_isZombie t \<and> \<not> f) cs
   \<and> sorted (map (\<lambda>tf. ddayNum (vm_dday (fst tf))) (page_pending lower q en m By_deadline views))
   \<and> sorted (map (\<lambda>tf. - vm_importance (fst tf)) (page_pending lower q en m By_importance views))"
  by (simp add: page_pending_def Let_def adaptive_classes)

text \<open>
  The important tasks are those of importance 4 and more that match, in the order of the pair of
  delayed first and importance falling, and tasks equal in both keep their order.
\<close>

theorem important_order:
  "sorted (map important_rank (important_list lower q views))
   \<and> mset (important_list lower q views) = mset (filter (\<lambda>t. vm_importance t \<ge> 4 \<and> matchesQuery lower q t) views)
   \<and> filter (\<lambda>t. important_rank t = k) (important_list lower q views)
     = filter (\<lambda>t. important_rank t = k \<and> vm_importance t \<ge> 4 \<and> matchesQuery lower q t) views"
  by (simp add: important_list_def sort_key_stable conj_commute conj_left_commute)

text \<open>
  The seed data of the mock back end has two tasks of importance 5: without a search text the page
  shows the first one above and the second, a pending task, in none of its orders.
\<close>

theorem seed_priority_hidden:
  "let views = map (toViewModel midnight now) (mock_getAllPending (mock_initial epoch))
   in Num_id 6 \<in> vm_id ` set views
      \<and> map_option vm_id (page_priorityTask lower [] views) = Some (Num_id 1)
      \<and> Num_id 6 \<notin> (vm_id \<circ> fst) ` set (page_pending lower [] en m mode views)"
proof -
  define views where "views = map (toViewModel midnight now) (mock_getAllPending (mock_initial epoch))"
  have v: "views = map (toViewModel midnight now) (map clone (seed_tasks epoch))"
    by (simp add: views_def mock_getAllPending_def pending_tasks_def mock_initial_def seed_defs)
  have ids: "map vm_id views = map Num_id [1, 2, 3, 4, 5, 6]"
    by (simp add: v seed_defs toViewModel_def Let_def clone_def)
  have "map vm_id (pending_candidates lower [] views) = map Num_id [2, 3, 4, 5]"
    by (simp add: pending_candidates_def matchesQuery_def v seed_defs toViewModel_def Let_def clone_def)
  then have "Num_id 6 \<notin> vm_id ` set (pending_candidates lower [] views)" by (simp flip: set_map)
  moreover have "set_mset (image_mset fst (mset (page_pending lower [] en m mode views))) = set (pending_candidates lower [] views)"
    by (simp add: mset_pending)
  ultimately have "Num_id 6 \<notin> (vm_id \<circ> fst) ` set (page_pending lower [] en m mode views)"
    by (metis image_comp set_image_mset set_mset_mset)
  moreover have "map_option vm_id (page_priorityTask lower [] views) = Some (Num_id 1)"
    by (simp add: page_priorityTask_def matchesQuery_def v seed_defs toViewModel_def Let_def clone_def)
  moreover have "Num_id 6 \<in> vm_id ` set views" unfolding set_map [symmetric] ids by simp
  ultimately show ?thesis unfolding Let_def views_def [symmetric] by blast
qed

end
