(* ===== verification/Today_Page.thy ===== *)
theory Today_Page
  imports Today_List Task_List Task_Runtime Local_Storage Priority_Service Stepwise
begin

text \<open>
  What the page \<open>frontend/src/pages/TodayTasksPage.jsx\<close> does: creating a task against the budget,
  finishing one (run state, history, refund, list), and the props it hands to its cards.  The
  handlers are cut at their \<open>await\<close>s; a handler keeps the list of the render it was created in, its
  \<open>closure\<close>.  \<open>time_label\<close> and \<open>iso_text\<close> are the host's \<open>toLocaleTimeString\<close> and \<open>toISOString\<close>.
\<close>

subsection \<open>State\<close>

record today_page =
  ty_runtime :: runtime_map
  ty_storage :: local_storage
  ty_hook :: task_hook
  ty_avail :: "available_time avail_hook"
  ty_lastRefund :: "(int \<times> js_value_num) option"
  ty_addOpen :: bool
  ty_creating :: bool
  ty_serverError :: "(normal_error + ustring) option"
  ty_quickInput :: ustring

text \<open>
  The estimate of a task in seconds.  A missing value of the two records is \<open>null\<close> or
  \<open>undefined\<close>, which \<open>??\<close> does not tell apart.
\<close>

definition page_estSecondsOf :: "task_response list \<Rightarrow> view_model \<Rightarrow> js_value_num" where
  "page_estSecondsOf tasks t =
     (let raw = List.find (\<lambda>rt. tr_taskId rt = vm_id t) tasks;
          dur = (case raw of None \<Rightarrow> None | Some r \<Rightarrow> tr_estimatedDuration r);
          mins = coalesce (case raw of None \<Rightarrow> None | Some r \<Rightarrow> tr_estimatedMinutes r) (vm_estimatedMinutes t)
      in case dur of Some d \<Rightarrow> d | None \<Rightarrow> jn_mult (or_default mins (JNum 30)) (JNum 60))"

subsection \<open>Finishing a task\<close>

fun id_json :: "js_id \<Rightarrow> json" where
  "id_json (Num_id i) = J_num (ascii (show_int i))"
| "id_json (Str_id s) = J_str (ascii s)"

definition completed_entry :: "(int \<Rightarrow> ustring) \<Rightarrow> (int \<Rightarrow> string) \<Rightarrow> task_response list \<Rightarrow> view_model \<Rightarrow> int \<Rightarrow> int \<Rightarrow> json" where
  "completed_entry time_label iso_text tasks t elapsed now =
     (let raw = List.find (\<lambda>rt. tr_taskId rt = vm_id t) tasks;
          cat = or_default (case raw of None \<Rightarrow> None | Some r \<Rightarrow> tr_category r) [0xC5C5, 0xBB34]
      in J_obj [(ascii ''taskId'', id_json (vm_id t)), (ascii ''title'', J_str (vm_title t)),
                (ascii ''category'', J_str cat), (ascii ''completedAt'', J_str (time_label now)),
                (ascii ''date'', J_str (ascii (take 10 (iso_text now)))),
                (ascii ''elapsedSeconds'', J_num (ascii (show_int elapsed)))])"

text \<open>
  Up to the request: the run state is finished, the history written.  When the history cannot be
  extended the handler throws there, and the request is never sent.
\<close>

definition finish_begin ::
  "(int \<Rightarrow> ustring) \<Rightarrow> (int \<Rightarrow> string) \<Rightarrow> task_response list \<Rightarrow> view_model \<Rightarrow> int option \<Rightarrow> int \<Rightarrow> today_page
   \<Rightarrow> today_page \<times> api_call option" where
  "finish_begin time_label iso_text closure t elapsedSeconds now p =
     (let (m, fin) = rt_finish (ty_runtime p) (ty_runtime p) (vm_id t) now;
          p' = p\<lparr>ty_runtime := m\<rparr>;
          elapsed = or_default elapsedSeconds (r_elapsed fin)
      in case appendCompleted (ty_storage p) (completed_entry time_label iso_text closure t elapsed now) of
           None \<Rightarrow> (p', None)
         | Some (s, _) \<Rightarrow> (p'\<lparr>ty_storage := s\<rparr>, Some (Complete_task_with_refund (vm_id t) (of_int elapsed) (iso_text now))))"

text \<open>
  When the request has settled: a refund is shown and the budget read again; after a rejection it
  is not; in both cases the task is taken off the list of the closure and the second request goes
  out.
\<close>

definition finish_refund :: "js_value_num option answer \<Rightarrow> int \<Rightarrow> today_page \<Rightarrow> today_page" where
  "finish_refund reply now p =
     (case reply of
        Inl _ \<Rightarrow> p
      | Inr r \<Rightarrow>
          (let p' = (case r of Some x \<Rightarrow> if jn_less (JNum 0) x then p\<lparr>ty_lastRefund := Some (now, x)\<rparr> else p | None \<Rightarrow> p)
           in p'\<lparr>ty_avail := avail_refetch_begin (ty_avail p')\<rparr>))"

definition finish_list :: "task_response list \<Rightarrow> js_id \<Rightarrow> today_page \<Rightarrow> today_page" where
  "finish_list closure tid p = p\<lparr>ty_hook := mutate_begin (change_list (L_complete tid)) closure (ty_hook p)\<rparr>"

definition finish_settled :: "task_response list \<Rightarrow> unit answer \<Rightarrow> today_page \<Rightarrow> today_page" where
  "finish_settled closure reply p = p\<lparr>ty_hook := mutate_end closure reply (ty_hook p)\<rparr>"

text \<open>The whole handler with the answers of its two requests; \<open>None\<close>: it threw before the first.\<close>

definition handleFinish ::
  "(int \<Rightarrow> ustring) \<Rightarrow> (int \<Rightarrow> string) \<Rightarrow> task_response list \<Rightarrow> view_model \<Rightarrow> int option \<Rightarrow> int
   \<Rightarrow> js_value_num option answer \<Rightarrow> unit answer \<Rightarrow> today_page \<Rightarrow> today_page" where
  "handleFinish time_label iso_text closure t elapsedSeconds now refund_reply list_reply p =
     (case finish_begin time_label iso_text closure t elapsedSeconds now p of
        (p', None) \<Rightarrow> p'
      | (p', Some _) \<Rightarrow>
          finish_settled closure list_reply (finish_list closure (vm_id t) (finish_refund refund_reply now p')))"

definition handleCompleteFromMini :: "view_model list \<Rightarrow> js_id \<Rightarrow> view_model option" where
  "handleCompleteFromMini views taskId = List.find (\<lambda>x. vm_id x = taskId) views"

text \<open>The mini widget lists the priority task and then the pending ones, eight at most.\<close>

definition mini_all :: "view_model option \<Rightarrow> view_model list \<Rightarrow> view_model list" where
  "mini_all priorityTask pending = (case priorityTask of None \<Rightarrow> [] | Some t \<Rightarrow> [t]) @ pending"

definition mini_items :: "view_model option \<Rightarrow> view_model list \<Rightarrow> view_model list" where
  "mini_items priorityTask pending = take 8 (mini_all priorityTask pending)"

subsection \<open>Props of a card\<close>

record countdown_props =
  cd_estimated :: js_value_num
  cd_status :: run_status
  cd_anchorMs :: "int option"
  cd_baseElapsed :: int

definition countdownProps :: "today_page \<Rightarrow> task_response list \<Rightarrow> view_model \<Rightarrow> countdown_props" where
  "countdownProps p tasks t =
     (let entry = Task_Runtime.get (ty_runtime p) (vm_id t)
      in \<lparr>cd_estimated = page_estSecondsOf tasks t, cd_status = r_status entry, cd_anchorMs = runStartMs entry,
          cd_baseElapsed = r_elapsed entry\<rparr>)"

fun card_of_run :: "run_status \<Rightarrow> card_status" where
  "card_of_run R_IDLE = C_IDLE"
| "card_of_run R_RUNNING = C_RUNNING"
| "card_of_run R_PAUSED = C_PAUSED"
| "card_of_run R_COMPLETED = C_COMPLETED"

definition actionsProps :: "today_page \<Rightarrow> view_model \<Rightarrow> display_status" where
  "actionsProps p t =
     deriveDisplayStatus (Some \<lparr>v_status = Some (vm_status t), v_dday = vm_dday t\<rparr>)
       (Some (card_of_run (r_status (Task_Runtime.get (ty_runtime p) (vm_id t)))))"

fun press :: "today_page \<Rightarrow> view_model \<Rightarrow> int \<Rightarrow> action_button \<Rightarrow> runtime_map" where
  "press p t now B_start = rt_start (ty_runtime p) (vm_id t) now"
| "press p t now B_pause = rt_pause (ty_runtime p) (vm_id t) now"
| "press p t now B_resume = rt_resume (ty_runtime p) (vm_id t) now"
| "press p t now B_finish = fst (rt_finish (ty_runtime p) (ty_runtime p) (vm_id t) now)"

subsection \<open>Creating a task\<close>

record create_payload =
  cr_title :: ustring
  cr_category :: ustring
  cr_deadline :: "js_date option"
  cr_estimated_duration :: js_num
  cr_isPriority :: bool

definition create_request :: "energy \<Rightarrow> create_payload \<Rightarrow> new_task" where
  "create_request energyLevel payload =
     \<lparr>nt_title = cr_title payload, nt_description = None, nt_estimatedMinutes = None,
      nt_estimated_duration = Some (cr_estimated_duration payload), nt_deadline = cr_deadline payload,
      nt_requiredEnergy = Some energyLevel, nt_importance = Some (if cr_isPriority payload then 5 else 3),
      nt_isPriority = Some (cr_isPriority payload), nt_category = Some (cr_category payload)\<rparr>"

definition create_begin :: "today_page \<Rightarrow> today_page" where
  "create_begin p = p\<lparr>ty_creating := True, ty_serverError := None\<rparr>"

text \<open>
  A failed request closes nothing and keeps the error, with its code only when the budget refused.
  After a created task the list is read again; that reading never throws.
\<close>

definition create_end :: "normal_error + unit \<Rightarrow> task_response list answer \<Rightarrow> today_page \<Rightarrow> today_page" where
  "create_end reply fetched p =
     (case reply of
        Inl e \<Rightarrow>
          p\<lparr>ty_creating := False,
            ty_serverError := Some (if ne_code e = ''INSUFFICIENT_AVAILABLE_TIME'' then Inl e
                                    else Inr (message_or (Some (ne_message e)) [0xC791, 0xC5C5, 0x20, 0xC0DD,
                                       0xC131, 0xC5D0, 0x20, 0xC2E4, 0xD328, 0xD588, 0xC5B4, 0xC694, 0x2E]))\<rparr>
      | Inr _ \<Rightarrow>
          p\<lparr>ty_hook := list_fetch_end fetched (list_fetch_begin (ty_hook p)), ty_avail := avail_refetch_begin (ty_avail p),
            ty_addOpen := False, ty_creating := False\<rparr>)"

definition closeAdd :: "today_page \<Rightarrow> today_page" where
  "closeAdd p = p\<lparr>ty_addOpen := False, ty_serverError := None\<rparr>"

text \<open>The quick input: nothing for a blank one; otherwise the payload, and the input is cleared.\<close>

definition quick_submit :: "today_page \<Rightarrow> today_page \<times> create_payload option" where
  "quick_submit p =
     (let title = trim (ty_quickInput p) in
      if title = [] then (p, None)
      else (create_begin p\<lparr>ty_quickInput := []\<rparr>,
            Some \<lparr>cr_title = title, cr_category = [0xC5C5, 0xBB34], cr_deadline = None, cr_estimated_duration = 30 * 60,
                  cr_isPriority = False\<rparr>))"

subsection \<open>The page on the mock back end\<close>

text \<open>A handler that runs to its end before the next one is created: the closure is the current list.\<close>

definition finish_on_mock ::
  "(int \<Rightarrow> ustring) \<Rightarrow> (int \<Rightarrow> string) \<Rightarrow> today_page \<times> mock_state \<Rightarrow> view_model \<times> int \<Rightarrow> today_page \<times> mock_state" where
  "finish_on_mock time_label iso_text pm tn =
     (let (p, m) = pm; (t, now) = tn; closure = th_tasks (ty_hook p) in
      case finish_begin time_label iso_text closure t None now p of
        (p', Some (Complete_task_with_refund tid el _)) \<Rightarrow>
          (let (m1, refund) = mock_completeTaskWithRefund m tid (of_int (max 0 (js_round el)));
               m2 = fst (mock_updateTaskStatus m1 tid MA_COMPLETE)
           in (finish_settled closure (Inr ()) (finish_list closure tid (finish_refund (Inr (Some refund)) now p')), m2))
      | (p', _) \<Rightarrow> (p', m))"

definition create_on_mock :: "energy \<Rightarrow> int \<Rightarrow> create_payload \<Rightarrow> today_page \<times> mock_state \<Rightarrow> today_page \<times> mock_state" where
  "create_on_mock energyLevel now payload pm =
     (let (p, m) = pm in
      case mock_createTaskWithBudget m now (create_request energyLevel payload) of
        Inl e \<Rightarrow> (create_end (Inl (normalizeError e)) (Inl None) (create_begin p), m)
      | Inr (m', _) \<Rightarrow> (create_end (Inr ()) (Inr (mock_getAllPending m')) (create_begin p), m'))"

text \<open>The page shows what the back end has; ids that print alike are the same.\<close>

definition page_matches :: "today_page \<times> mock_state \<Rightarrow> bool" where
  "page_matches pm \<longleftrightarrow> th_tasks (ty_hook (fst pm)) = mock_getAllPending (snd pm)
     \<and> inj_on prop_key (tr_taskId ` set (m_tasks (snd pm)))"

lemma finish_begin_hook: "ty_hook (fst (finish_begin lab iso_text c t e now p)) = ty_hook p"
  by (simp add: finish_begin_def Let_def split: prod.splits option.splits)

lemma finish_begin_call:
  "snd (finish_begin lab iso_text c t e now p) = Some call \<Longrightarrow> \<exists>el d. call = Complete_task_with_refund (vm_id t) el d"
  by (auto simp: finish_begin_def Let_def split: prod.splits option.splits)

lemma finish_refund_hook [simp]: "ty_hook (finish_refund r now p) = ty_hook p"
  by (auto simp: finish_refund_def Let_def split: sum.splits option.splits)

lemma finish_list_tasks:
  "th_tasks (ty_hook (finish_settled c (Inr ()) (finish_list c i p))) = without_task i c"
  by (simp add: finish_settled_def finish_list_def mutate_begin_def mutate_end_def completeTask_list_def)

lemma clone_id [simp]: "tr_taskId (clone t) = tr_taskId t"
  by (simp add: clone_def)

lemma filter_map_keep:
  "\<forall>t \<in> set ts. P (f t) = Q t \<and> (Q t \<longrightarrow> f t = t) \<Longrightarrow> filter P (map f ts) = filter Q ts"
  by (induction ts) simp_all

lemma completed_pending:
  assumes "\<forall>t \<in> set ts. prop_key (tr_taskId t) = prop_key i \<longrightarrow> tr_taskId t = i"
  shows "map clone (filter (\<lambda>t. tr_status t = S_PENDING)
           (update_where (\<lambda>t. prop_key (tr_taskId t) = prop_key i) (mock_effect MA_COMPLETE)
             (update_where (\<lambda>t. tr_taskId t = i) (\<lambda>t. t\<lparr>tr_status := S_COMPLETED\<rparr>) ts)))
         = without_task i (map clone (filter (\<lambda>t. tr_status t = S_PENDING) ts))"
proof -
  define g where "g t = (if tr_taskId t = i then t\<lparr>tr_status := S_COMPLETED\<rparr> else t)" for t :: task_response
  define f where "f t = (if prop_key (tr_taskId (g t)) = prop_key i then mock_effect MA_COMPLETE (g t) else g t)" for t
  have "tr_status (f t) = S_PENDING \<longleftrightarrow> tr_status t = S_PENDING \<and> tr_taskId t \<noteq> i"
    and "tr_status t = S_PENDING \<and> tr_taskId t \<noteq> i \<longrightarrow> f t = t" if "t \<in> set ts" for t
    using assms that by (cases "tr_taskId t = i"; fastforce simp: f_def g_def)+
  then have "filter (\<lambda>t. tr_status t = S_PENDING) (map f ts) = filter (\<lambda>t. tr_status t = S_PENDING \<and> tr_taskId t \<noteq> i) ts"
    by (intro filter_map_keep) blast
  moreover have "map f ts = update_where (\<lambda>t. prop_key (tr_taskId t) = prop_key i) (mock_effect MA_COMPLETE)
             (update_where (\<lambda>t. tr_taskId t = i) (\<lambda>t. t\<lparr>tr_status := S_COMPLETED\<rparr>) ts)"
    by (simp add: update_where_def f_def g_def)
  ultimately show ?thesis by (simp add: without_task_def filter_map comp_def conj_commute)
qed

lemma finish_mock_pending:
  assumes "i \<in> tr_taskId ` set (m_tasks m)" "inj_on prop_key (tr_taskId ` set (m_tasks m))"
  shows "mock_getAllPending (fst (mock_updateTaskStatus (fst (mock_completeTaskWithRefund m i e)) i MA_COMPLETE))
         = without_task i (mock_getAllPending m)"
proof -
  have "\<forall>t \<in> set (m_tasks m). prop_key (tr_taskId t) = prop_key i \<longrightarrow> tr_taskId t = i"
    using assms by (auto simp: inj_on_def)
  from completed_pending [OF this] show ?thesis
    by (simp add: mock_getAllPending_def pending_tasks_def mock_updateTaskStatus_def
        mock_completeTaskWithRefund_def Let_def)
qed

lemma finish_mock_ids:
  "tr_taskId ` set (m_tasks (fst (mock_updateTaskStatus (fst (mock_completeTaskWithRefund m i e)) i MA_COMPLETE)))
   = tr_taskId ` set (m_tasks m)"
proof -
  have "map tr_taskId (m_tasks (fst (mock_updateTaskStatus (fst (mock_completeTaskWithRefund m i e)) i MA_COMPLETE)))
      = map tr_taskId (m_tasks m)"
    by (simp add: mock_updateTaskStatus_def mock_completeTaskWithRefund_def Let_def map_update_where)
  then show ?thesis by (metis set_map)
qed

lemma finish_on_mock_step:
  assumes "page_matches (p, m)" "vm_id t \<in> tr_taskId ` set (m_tasks m)"
  shows "page_matches (finish_on_mock lab iso_text (p, m) (t, now))
    \<and> tr_taskId ` set (m_tasks (snd (finish_on_mock lab iso_text (p, m) (t, now)))) = tr_taskId ` set (m_tasks m)"
proof (cases "snd (finish_begin lab iso_text (th_tasks (ty_hook p)) t None now p)")
  case None
  then have "finish_on_mock lab iso_text (p, m) (t, now) = (fst (finish_begin lab iso_text (th_tasks (ty_hook p)) t None now p), m)"
    by (cases "finish_begin lab iso_text (th_tasks (ty_hook p)) t None now p") (simp add: finish_on_mock_def)
  with assms(1) show ?thesis by (simp add: page_matches_def finish_begin_hook)
next
  case (Some call)
  then obtain el d where call: "call = Complete_task_with_refund (vm_id t) el d" using finish_begin_call by blast
  define p' where "p' = fst (finish_begin lab iso_text (th_tasks (ty_hook p)) t None now p)"
  have b: "finish_begin lab iso_text (th_tasks (ty_hook p)) t None now p = (p', Some (Complete_task_with_refund (vm_id t) el d))"
    using Some call by (simp add: p'_def prod_eq_iff)
  obtain m1 r where m1: "mock_completeTaskWithRefund m (vm_id t) (of_int (max 0 (js_round el))) = (m1, r)" by fastforce
  define m2 where "m2 = fst (mock_updateTaskStatus m1 (vm_id t) MA_COMPLETE)"
  have fst_m1: "m1 = fst (mock_completeTaskWithRefund m (vm_id t) (of_int (max 0 (js_round el))))" by (simp add: m1)
  note pend = finish_mock_pending [OF assms(2), of "of_int (max 0 (js_round el))", folded fst_m1 m2_def]
  note ids = finish_mock_ids [of m "vm_id t" "of_int (max 0 (js_round el))", folded fst_m1 m2_def]
  have "finish_on_mock lab iso_text (p, m) (t, now)
      = (finish_settled (th_tasks (ty_hook p)) (Inr ())
          (finish_list (th_tasks (ty_hook p)) (vm_id t) (finish_refund (Inr (Some r)) now p')), m2)"
    by (simp add: finish_on_mock_def b m1 m2_def Let_def)
  with assms(1) pend ids show ?thesis by (simp add: page_matches_def finish_list_tasks)
qed

lemma rt_finish_displayed: "r_elapsed (snd (rt_finish m m i now)) = displaySeconds (Some (Task_Runtime.get m i)) now"
  by (auto simp: rt_finish_def Let_def Task_Runtime.get_def displaySeconds_def finishEntry_def orEmpty_def foldRunning_def emptyEntry_def
      run_step.intros split: option.splits)

lemma mock_create_ok:
  assumes "\<not> jn_less (jn_sub (m_available m) (allocatedSeconds m)) (jn_of (nt_estimated_duration (create_request en payload)))"
    and "\<not> (cr_isPriority payload \<and> (\<exists>t \<in> set (m_tasks m). is_open_priority_task t))"
  shows "\<exists>m' t. mock_createTaskWithBudget m now (create_request en payload) = Inr (m', t)
     \<and> (\<exists>c. m_tasks m' = c # m_tasks m \<and> tr_status c = S_PENDING \<and> tr_title c = cr_title payload)"
proof -
  have "\<not> (nt_isPriority (create_request en payload) = Some True \<and> (\<exists>t \<in> set (m_tasks m). is_open_priority_task t))"
    using assms(2) by (simp add: create_request_def)
  then show ?thesis using assms(1) unfolding mock_createTaskWithBudget_def Let_def by (simp add: create_request_def)
qed

subsection \<open>The page on the alarm server\<close>

text \<open>\<open>ACTIONS\<close> of \<open>alarm-system/src/routes/priorityRoutes.ts\<close>, as the route reads the body's text.\<close>

definition read_action :: "string \<Rightarrow> action option" where
  "read_action s =
     lookup [(''START'', ACT_START), (''PAUSE'', ACT_PAUSE), (''RESUME'', ACT_RESUME), (''FINISH'', ACT_FINISH)] s"

text \<open>What the client makes of an answer: the interceptor's message.\<close>

definition status_answer :: "(int \<times> error_body) + int \<times> status_reply \<Rightarrow> unit answer" where
  "status_answer r = (case r of Inl (st, b) \<Rightarrow> Inl (Some (ce_message (interceptor (Some (st, Some b))))) | Inr _ \<Rightarrow> Inr ())"

fun change_action :: "list_change \<Rightarrow> string" where
  "change_action (L_complete _) = ''COMPLETE''"
| "change_action (L_snooze _) = ''SNOOZE''"
| "change_action (L_archive _) = ''ARCHIVE''"

lemma change_call_action: "\<exists>i e m. change_call en av c = Update_task_status i (change_action c) e m"
  by (cases c) (auto simp: completeTask_call_def snoozeTask_call_def archiveTask_call_def)

lemma unknown_change: "read_action (change_action c) = None"
  by (cases c) (simp_all add: read_action_def)

subsection \<open>Properties\<close>

interpretation finishing: stepwise "\<lambda>_ tn. vm_id (fst tn) \<in> ids" "finish_on_mock lab iso_text"
  "\<lambda>pm. page_matches pm \<and> tr_taskId ` set (m_tasks (snd pm)) = ids" for lab iso_text ids
proof
  show "page_matches (finish_on_mock lab iso_text pm tn)
      \<and> tr_taskId ` set (m_tasks (snd (finish_on_mock lab iso_text pm tn))) = ids"
    if "page_matches pm \<and> tr_taskId ` set (m_tasks (snd pm)) = ids" "vm_id (fst tn) \<in> ids" for pm tn
    using that finish_on_mock_step [of "fst pm" "snd pm" "fst tn" lab iso_text "snd tn"] by simp
qed


definition seed_page :: today_page where
  "seed_page = \<lparr>ty_runtime = [], ty_storage = \<lparr>ls_items = [], ls_readable = True, ls_writable = True\<rparr>,
     ty_hook = useTasks\<lparr>th_tasks := mock_getAllPending (mock_initial 0)\<rparr>,
     ty_avail = \<lparr>av_snapshot = None, av_isLoading = False, av_error = None\<rparr>, ty_lastRefund = None,
     ty_addOpen = False, ty_creating = False, ty_serverError = None, ty_quickInput = []\<rparr>"


text \<open>
  Two tasks finished one after the other before the first request has been answered: both are
  accepted, and the first one is back on the page, for the second handler removes its task from the
  list of its own render.
\<close>

theorem quickly_finished_task_returns:
  assumes "i \<noteq> j" "i \<in> tr_taskId ` set closure"
  shows "i \<in> tr_taskId ` set (th_tasks (ty_hook
           (finish_settled closure (Inr ()) (finish_list closure j
             (finish_settled closure (Inr ()) (finish_list closure i p))))))"
  using assms by (simp add: finish_list_tasks without_ids)

text \<open>
  The seconds sent with a finished task are the ones on its card: the request carries exactly the
  whole seconds the run entry displays at the click, in every run status.
\<close>

theorem finish_sends_displayed_seconds:
  assumes "appendCompleted (ty_storage p) (completed_entry lab iso_text c t
             (displaySeconds (Some (Task_Runtime.get (ty_runtime p) (vm_id t))) now) now) \<noteq> None"
  shows "snd (finish_begin lab iso_text c t None now p)
         = Some (Complete_task_with_refund (vm_id t)
             (of_int (displaySeconds (Some (Task_Runtime.get (ty_runtime p) (vm_id t))) now)) (iso_text now))"
proof -
  obtain m fin where f: "rt_finish (ty_runtime p) (ty_runtime p) (vm_id t) now = (m, fin)" by fastforce
  then have "r_elapsed fin = displaySeconds (Some (Task_Runtime.get (ty_runtime p) (vm_id t))) now"
    using rt_finish_displayed [of "ty_runtime p" "vm_id t" now] by simp
  with assms f show ?thesis by (auto simp: finish_begin_def Let_def or_default_def split: option.splits)
qed

text \<open>
  Against the alarm server no change of the list ever lasts: the actions the page sends are none of
  the server's, every request is refused with status 400, and the page puts the list of the click
  back; a finished task is shown again.
\<close>

theorem alarm_server_refuses_list_changes:
  "let (reply, db', redis') = patch_status u (Some tid) (read_action (change_action c)) el now db redis
   in db' = db \<and> redis' = redis
      \<and> th_tasks (mutate_end (th_tasks h) (status_answer reply) (mutate_begin (change_list c) (th_tasks h) h)) = th_tasks h"
  by (simp add: patch_status_def unknown_change send_def status_answer_def mutate_end_def split: sum.splits)

text \<open>
  C22. Creating on the mock: a request for more than the remaining time leaves list, back end and dialog
  as they are and shows the refusal with its code; a second priority task is refused without one;
  everything else closes the dialog, and the page shows the pending tasks with the new one first.
\<close>

theorem create_outcomes:
  assumes "m_available m = JNum av" and "allocatedSeconds m = JNum al"
  shows "let (p', m') = create_on_mock en now payload (p, m) in
     if av - al < cr_estimated_duration payload
     then m' = m \<and> ty_hook p' = ty_hook p \<and> ty_addOpen p' = ty_addOpen p
          \<and> (\<exists>e. ty_serverError p' = Some (Inl e) \<and> ne_code e = ''INSUFFICIENT_AVAILABLE_TIME'')
     else if cr_isPriority payload \<and> (\<exists>t \<in> set (m_tasks m). is_open_priority_task t)
     then m' = m \<and> ty_hook p' = ty_hook p \<and> (\<exists>text. ty_serverError p' = Some (Inr text))
     else \<not> ty_addOpen p' \<and> ty_serverError p' = None \<and> th_tasks (ty_hook p') = mock_getAllPending m'
          \<and> tl (mock_getAllPending m') = mock_getAllPending m
          \<and> tr_title (hd (mock_getAllPending m')) = cr_title payload"
proof -
  let ?r = "mock_createTaskWithBudget m now (create_request en payload)"
  have less: "jn_less (jn_sub (m_available m) (allocatedSeconds m)) (jn_of (nt_estimated_duration (create_request en payload)))
      \<longleftrightarrow> av - al < cr_estimated_duration payload"
    by (simp add: assms create_request_def jn_of_def)
  consider "av - al < cr_estimated_duration payload"
    | "\<not> av - al < cr_estimated_duration payload" "cr_isPriority payload \<and> (\<exists>t \<in> set (m_tasks m). is_open_priority_task t)"
    | "\<not> av - al < cr_estimated_duration payload" "\<not> (cr_isPriority payload \<and> (\<exists>t \<in> set (m_tasks m). is_open_priority_task t))"
    by blast
  then show ?thesis
  proof cases
    case 1
    with less have "?r = Inl (insufficient_error (jn_sub (m_available m) (allocatedSeconds m)) (jn_of (nt_estimated_duration (create_request en payload))))"
      by (simp add: mock_createTaskWithBudget_def)
    with 1 show ?thesis
      by (simp add: create_on_mock_def create_end_def create_begin_def insufficient_error_def normalizeError_def error_data_def)
  next
    case 2
    with less have "?r = Inl priority_error"
      by (simp add: mock_createTaskWithBudget_def) (simp add: create_request_def)
    with 2 show ?thesis
      by (simp add: create_on_mock_def create_end_def create_begin_def priority_error_def normalizeError_def error_data_def)
  next
    case 3
    then obtain m' t where r: "?r = Inr (m', t)"
      and m': "\<exists>c. m_tasks m' = c # m_tasks m \<and> tr_status c = S_PENDING \<and> tr_title c = cr_title payload"
      using mock_create_ok [of m en payload now] less by blast
    from m' 3 r show ?thesis
      by (auto simp: create_on_mock_def create_end_def create_begin_def list_fetch_end_def list_fetch_begin_def
          mock_getAllPending_def pending_tasks_def clone_def)
  qed
qed

definition example_payload :: create_payload where
  "example_payload = \<lparr>cr_title = [0x41], cr_category = [0x42], cr_deadline = None, cr_estimated_duration = 3600,
     cr_isPriority = False\<rparr>"

lemma create_outcomes_witness:
  "let (p', m') = create_on_mock MEDIUM 0 example_payload (seed_page, empty_mock)
   in \<not> ty_addOpen p' \<and> th_tasks (ty_hook p') = mock_getAllPending m' \<and> tr_title (hd (mock_getAllPending m')) = [0x41]"
proof -
  have "m_available empty_mock = JNum 21600" "allocatedSeconds empty_mock = JNum 0" "m_tasks empty_mock = []"
    by (simp_all add: empty_mock_def mock_initial_def allocatedSeconds_def pending_tasks_def jn_sum_def)
  with create_outcomes [of empty_mock 21600 0 MEDIUM 0 example_payload seed_page] show ?thesis
    by (simp add: split_def Let_def example_payload_def)
qed

end
