(* ===== verification/Task_Card.thy ===== *)
theory Task_Card
  imports Today_Page
begin

text \<open>
  The parts of a task on the screen: \<open>frontend/src/components/TaskCard/TaskCard.jsx\<close> with its timers
  \<open>CountdownTimer/CountdownTimer.jsx\<close> and \<open>TimerDisplay/TimerDisplay.jsx\<close>, the gauge of
  \<open>AvailableTimeDisplay/AvailableTimeDisplay.jsx\<close> and the badge of
  \<open>NotificationBell/NotificationBell.jsx\<close>.  Of the markup the model keeps which controls are there
  and what their handlers do.
\<close>

subsection \<open>Which controls a card has (TaskCard.jsx)\<close>

datatype resolved_variant = RV_default | RV_priority | RV_zombie | RV_completed

datatype card_layout = Layout_card | Layout_line

record card_props =
  tc_variant :: resolved_variant
  tc_title :: ustring
  tc_delayCount :: int
  tc_layout :: card_layout
  tc_onComplete :: bool
  tc_timer :: bool
  tc_runStatus :: "run_status option"
  tc_displayTime :: bool
  tc_countdown :: bool
  tc_actions :: bool

definition card_resolved :: "card_props \<Rightarrow> resolved_variant" where
  "card_resolved c = (if tc_delayCount c \<ge> 5 then RV_zombie else tc_variant c)"

definition card_hasControls :: "card_props \<Rightarrow> bool" where
  "card_hasControls c \<longleftrightarrow> tc_runStatus c \<noteq> None \<or> tc_countdown c \<or> tc_actions c"

definition card_truncated :: "ustring \<Rightarrow> ustring" where
  "card_truncated title = (if length title > 50 then take 50 title @ [0x2026] else title)"

datatype run_button = RB_start | RB_pause | RB_resume | RB_finish

datatype card_control =
    CC_checked
  | CC_check
  | CC_countdown bool
  | CC_actions
  | CC_run_time bool
  | CC_run run_button
  | CC_timer

text \<open>The argument of \<open>CC_countdown\<close> is \<open>hideControls\<close>.\<close>

definition timer_controls :: "card_props \<Rightarrow> card_control list" where
  "timer_controls c =
     (if card_hasControls c \<and> (tc_countdown c \<or> tc_actions c)
      then (if tc_countdown c then [CC_countdown (tc_actions c)] else []) @ (if tc_actions c then [CC_actions] else [])
      else [])"

definition run_controls :: "card_props \<Rightarrow> card_control list" where
  "run_controls c =
     (if card_hasControls c \<and> \<not> tc_countdown c \<and> \<not> tc_actions c
      then (if (tc_runStatus c = Some R_RUNNING \<or> tc_runStatus c = Some R_PAUSED) \<and> tc_displayTime c
            then [CC_run_time (tc_runStatus c = Some R_RUNNING)] else [])
           @ (if tc_runStatus c = Some R_IDLE then [CC_run RB_start] else [])
           @ (if tc_runStatus c = Some R_RUNNING then [CC_run RB_pause, CC_run RB_finish] else [])
           @ (if tc_runStatus c = Some R_PAUSED then [CC_run RB_resume, CC_run RB_finish] else [])
      else [])"

definition card_controls :: "card_props \<Rightarrow> card_control list" where
  "card_controls c =
     (if card_resolved c = RV_completed then [CC_checked]
      else if tc_layout c = Layout_line then CC_check # timer_controls c
      else (if \<not> card_hasControls c then [CC_check] else []) @ timer_controls c @ run_controls c
           @ (if \<not> card_hasControls c \<and> tc_timer c then [CC_timer] else []))"

text \<open>
  The check box: the first click marks the card as done and starts a timeout of 280 ms, whose end
  calls \<open>onComplete\<close> when there is one.
\<close>

record card_state =
  cs_done :: bool
  cs_timeouts :: "int list"
  cs_completed :: nat

datatype card_event = Check_click | Timeouts_run

fun card_step :: "card_props \<Rightarrow> card_state \<Rightarrow> int \<times> card_event \<Rightarrow> card_state" where
  "card_step c s (now, Check_click) =
     (if cs_done s then s else s\<lparr>cs_done := True, cs_timeouts := cs_timeouts s @ [now + 280]\<rparr>)"
| "card_step c s (now, Timeouts_run) =
     s\<lparr>cs_timeouts := filter (\<lambda>d. \<not> d \<le> now) (cs_timeouts s),
       cs_completed := cs_completed s
         + (if tc_onComplete c then length (filter (\<lambda>d. d \<le> now) (cs_timeouts s)) else 0)\<rparr>"

definition new_card :: card_state where
  "new_card = \<lparr>cs_done = False, cs_timeouts = [], cs_completed = 0\<rparr>"

text \<open>The props with which the pages render their rows.\<close>

fun variant_of :: "card_variant \<Rightarrow> resolved_variant" where
  "variant_of V_zombie = RV_zombie"
| "variant_of V_priority = RV_priority"
| "variant_of V_default = RV_default"

definition today_card :: "card_layout \<Rightarrow> view_model \<Rightarrow> card_props" where
  "today_card lay t =
     \<lparr>tc_variant = variant_of (vm_variant t), tc_title = vm_title t, tc_delayCount = vm_delayCount t, tc_layout = lay,
      tc_onComplete = False, tc_timer = False, tc_runStatus = None, tc_displayTime = False,
      tc_countdown = True, tc_actions = True\<rparr>"

definition important_card :: "view_model \<Rightarrow> card_props" where
  "important_card t =
     \<lparr>tc_variant = variant_of (vm_variant t), tc_title = vm_title t, tc_delayCount = vm_delayCount t,
      tc_layout = Layout_line, tc_onComplete = True, tc_timer = False, tc_runStatus = None, tc_displayTime = False,
      tc_countdown = False, tc_actions = False\<rparr>"

subsection \<open>The countdown (CountdownTimer.jsx)\<close>

definition fmt_clock :: "js_num \<Rightarrow> bool \<Rightarrow> string" where
  "fmt_clock totalSeconds withHours =
     (let s = max 0 \<lfloor>totalSeconds\<rfloor>;
          h = s div 3600;
          m = (s mod 3600) div 60;
          sec = s mod 60
      in if withHours \<or> h > 0
         then pad2 (nat h) @ '':'' @ pad2 (nat m) @ '':'' @ pad2 (nat sec)
         else pad2 (nat m) @ '':'' @ pad2 (nat sec))"

datatype cd_tone = Tone_over | Tone_danger | Tone_warn | Tone_run

record countdown =
  co_elapsed :: js_num
  co_remaining :: js_num
  co_overrun :: bool
  co_ratio :: js_num
  co_tone :: cd_tone
  co_display :: string

text \<open>On an estimate that is a number.  An anchor of 0 is falsy.\<close>

definition cd_elapsed :: "run_status \<Rightarrow> int option \<Rightarrow> int \<Rightarrow> int \<Rightarrow> js_num" where
  "cd_elapsed status anchorMs baseElapsed now =
     (case truthy_start anchorMs of
        Some a \<Rightarrow> if status = R_RUNNING then of_int baseElapsed + max 0 (of_int (now - a) / 1000) else of_int baseElapsed
      | None \<Rightarrow> of_int baseElapsed)"

definition CountdownTimer :: "js_num \<Rightarrow> run_status \<Rightarrow> int option \<Rightarrow> int \<Rightarrow> int \<Rightarrow> countdown" where
  "CountdownTimer estimatedDuration status anchorMs baseElapsed now =
     (let elapsed = cd_elapsed status anchorMs baseElapsed now;
          rest = estimatedDuration - elapsed;
          overrun = rest < 0;
          withHours = estimatedDuration \<ge> 3600;
          ratio = (if estimatedDuration > 0 then max 0 (min 1 (rest / estimatedDuration)) else 0)
      in \<lparr>co_elapsed = elapsed, co_remaining = rest, co_overrun = overrun, co_ratio = ratio,
          co_tone = (if overrun then Tone_over else if rest < 60 then Tone_danger
                     else if ratio < 1 / 4 then Tone_warn else Tone_run),
          co_display = (if overrun then fmt_clock (elapsed - estimatedDuration) withHours
                        else fmt_clock rest withHours)\<rparr>)"

text \<open>The effect of \<open>overrun\<close> and \<open>status\<close>: the flag and whether the device vibrates.\<close>

definition vibrate_effect :: "bool \<Rightarrow> run_status \<Rightarrow> bool \<Rightarrow> bool \<times> bool" where
  "vibrate_effect overrun status vibrated =
     (let fires = overrun \<and> status = R_RUNNING \<and> \<not> vibrated;
          flag = (if fires then True else vibrated)
      in (if \<not> overrun then False else flag, fires))"

definition countdown_buttons :: "run_status \<Rightarrow> bool \<Rightarrow> run_button list" where
  "countdown_buttons status hideControls =
     (if hideControls then []
      else (if status = R_IDLE then [RB_start] else [])
           @ (if status = R_RUNNING then [RB_pause] else [])
           @ (if status = R_PAUSED then [RB_resume] else [])
           @ (if status = R_RUNNING \<or> status = R_PAUSED then [RB_finish] else []))"

definition complete_seconds :: "js_num \<Rightarrow> int" where
  "complete_seconds elapsed = js_round elapsed"

subsection \<open>The stopwatch display (TimerDisplay.jsx)\<close>

definition timer_idle :: "string option \<Rightarrow> bool \<Rightarrow> bool" where
  "timer_idle value isRunning \<longleftrightarrow> \<not> isRunning \<and> (value = None \<or> value = Some [] \<or> value = Some ''00:00:00'')"

datatype timer_view = TV_start | TV_readout "string option" "(run_button \<times> bool) option"

text \<open>The readout with the one button it has next to \<open>stop\<close>; the flag says that it pauses.\<close>

definition TimerDisplay :: "string option \<Rightarrow> bool \<Rightarrow> bool \<Rightarrow> timer_view" where
  "TimerDisplay value isRunning hasControls =
     (if timer_idle value isRunning \<and> hasControls then TV_start
      else TV_readout value
        (if hasControls then Some (if isRunning then (RB_pause, True) else (RB_resume, False)) else None))"

subsection \<open>The gauge of the available time (AvailableTimeDisplay.jsx)\<close>

definition hm :: "js_num \<Rightarrow> int \<times> int" where
  "hm sec = (let s = max 0 (js_round sec) in (s div 3600, js_round (of_int (s mod 3600) / 60)))"

definition hm_label :: "js_num \<Rightarrow> ustring" where
  "hm_label sec = (let (h, m) = hm sec in ascii (show_int h) @ [0xC2DC, 0xAC04, 0x20] @ ascii (show_int m) @ [0xBD84])"

definition gauge_ratio :: "js_num \<Rightarrow> js_num \<Rightarrow> js_num" where
  "gauge_ratio tot rest = (if tot > 0 then max 0 (min 1 (rest / tot)) else 0)"

definition gauge_low :: "js_num \<Rightarrow> js_num \<Rightarrow> bool" where
  "gauge_low tot rest \<longleftrightarrow> gauge_ratio tot rest < 1 / 5"

definition refund_toast :: "js_num option \<Rightarrow> ustring option" where
  "refund_toast lastRefund =
     (case lastRefund of
        Some seconds \<Rightarrow>
          if seconds > 0
          then (let (h, m) = hm seconds
                in Some ([0x2B] @ (if h > 0 then ascii (show_int h) @ [0xC2DC, 0xAC04,
                   0x20] else []) @ ascii (show_int m) @ [0xBD84, 0x20, 0xD658, 0xAE09, 0xB428]))
          else None
      | None \<Rightarrow> None)"

record avail_editor =
  ae_editing :: bool
  ae_draft :: "js_value_num \<times> js_value_num"
  ae_error :: ustring

definition startEdit :: "js_num \<Rightarrow> avail_editor \<Rightarrow> avail_editor" where
  "startEdit tot a =
     a\<lparr>ae_draft := (let (h, m) = hm tot in (JNum (of_int h), JNum (of_int m))), ae_error := [], ae_editing := True\<rparr>"

text \<open>The draft is what \<open>Number\<close> makes of the two inputs; \<open>NaN\<close> counts as 0.\<close>

fun num_or_0 :: "js_value_num \<Rightarrow> js_num" where
  "num_or_0 JNaN = 0"
| "num_or_0 (JNum x) = x"

definition draft_seconds :: "js_value_num \<times> js_value_num \<Rightarrow> js_num" where
  "draft_seconds d = num_or_0 (fst d) * 3600 + num_or_0 (snd d) * 60"

definition save_edit :: "(string \<times> ustring option) + unit \<Rightarrow> avail_editor \<Rightarrow> avail_editor" where
  "save_edit reply a =
     (case reply of
        Inr _ \<Rightarrow> a\<lparr>ae_editing := False\<rparr>
      | Inl (code, m) \<Rightarrow>
          a\<lparr>ae_error := (if code = ''AVAILABLE_BELOW_ALLOCATED''
                         then [0xC774, 0xBBF8, 0x20, 0xD560, 0xB2F9, 0xB41C, 0x20, 0xC791, 0xC5C5, 0x20, 0xC2DC,
                            0xAC04, 0xBCF4, 0xB2E4, 0x20, 0xC791, 0xAC8C, 0x20, 0xC124, 0xC815, 0xD560, 0x20,
                               0xC218, 0x20, 0xC5C6, 0xC5B4, 0xC694, 0x2E]
                         else message_or m [0xC124, 0xC815, 0x20, 0xC2E4, 0xD328])\<rparr>)"

subsection \<open>The badge (NotificationBell.jsx)\<close>

definition bell_badge :: "nat \<Rightarrow> string" where
  "bell_badge unreadCount = (if unreadCount > 99 then ''99+'' else show_nat unreadCount)"

definition bell_shown :: "bool \<Rightarrow> nat \<Rightarrow> string option" where
  "bell_shown isLoading unreadCount = (if \<not> isLoading \<and> unreadCount > 0 then Some (bell_badge unreadCount) else None)"

subsection \<open>Lemmas\<close>

definition card_run :: "card_props \<Rightarrow> card_state \<Rightarrow> (int \<times> card_event) list \<Rightarrow> card_state" where
  "card_run c s es = foldl (card_step c) s es"

text \<open>A clicked card waits for its one timeout or has had it.\<close>

definition card_waits :: "int \<Rightarrow> card_state \<Rightarrow> bool" where
  "card_waits d s \<longleftrightarrow> cs_done s \<and> cs_timeouts s = [d] \<and> cs_completed s = 0"

definition card_rang :: "card_props \<Rightarrow> card_state \<Rightarrow> bool" where
  "card_rang c s \<longleftrightarrow> cs_done s \<and> cs_timeouts s = [] \<and> cs_completed s = (if tc_onComplete c then 1 else 0)"

lemma card_rang_step: "card_rang c s \<Longrightarrow> card_rang c (card_step c s e)"
  by (cases e; cases "snd e") (auto simp: card_rang_def)

lemma card_rang_run: "card_rang c s \<Longrightarrow> card_rang c (card_run c s es)"
  unfolding card_run_def by (induction es arbitrary: s) (simp_all add: card_rang_step)

lemma card_waits_step:
  "card_waits d s \<Longrightarrow> card_step c s (n, Check_click) = s"
  "card_waits d s \<Longrightarrow> n < d \<Longrightarrow> card_waits d (card_step c s (n, Timeouts_run))"
  "card_waits d s \<Longrightarrow> d \<le> n \<Longrightarrow> card_rang c (card_step c s (n, Timeouts_run))"
  by (simp_all add: card_waits_def card_rang_def)

lemma card_waits_run:
  "card_waits d s \<Longrightarrow> if \<exists>n. (n, Timeouts_run) \<in> set es \<and> d \<le> n then card_rang c (card_run c s es) else card_waits d (card_run c s es)"
proof (induction es arbitrary: s)
  case Nil
  then show ?case by (simp add: card_run_def)
next
  case (Cons e es)
  obtain n k where e: "e = (n, k)" by (cases e)
  have r: "card_run c s (e # es) = card_run c (card_step c s e) es" by (simp add: card_run_def)
  show ?case
  proof (cases "k = Timeouts_run \<and> d \<le> n")
    case True
    then have "card_rang c (card_run c s (e # es))"
      using card_waits_step(3) [OF Cons.prems] e unfolding r by (simp add: card_rang_run)
    moreover have "(n, Timeouts_run) \<in> set (e # es) \<and> d \<le> n" using True e by simp
    ultimately show ?thesis by (simp only: if_P [OF exI])
  next
    case False
    then have w: "card_waits d (card_step c s e)"
      using card_waits_step(1,2) [OF Cons.prems] Cons.prems e by (cases k) (simp_all del: card_step.simps)
    have "(\<exists>m. (m, Timeouts_run) \<in> set (e # es) \<and> d \<le> m) \<longleftrightarrow> (\<exists>m. (m, Timeouts_run) \<in> set es \<and> d \<le> m)"
      using False e by auto
    with Cons.IH [OF w] show ?thesis unfolding r by simp
  qed
qed

lemma floor_add_max: "\<lfloor>of_int b + max 0 (x::rat)\<rfloor> = b + max 0 \<lfloor>x\<rfloor>"
  by (simp add: max_def)

lemma floor_ms: "\<lfloor>of_int m / (1000::rat)\<rfloor> = m div 1000"
  using floor_divide_of_int_eq [of m 1000] by simp

lemma cd_elapsed_whole: "\<lfloor>cd_elapsed (r_status e) (runStartMs e) (r_elapsed e) now\<rfloor> = displaySeconds (Some e) now"
  by (auto simp: cd_elapsed_def displaySeconds_def section_seconds_def floor_add_max floor_ms
      simp del: of_int_diff split: option.splits)

lemma hm_minutes: "snd (hm sec) = 60 \<longleftrightarrow> max 0 (js_round sec) mod 3600 \<ge> 3570"
proof -
  define r where "r = max 0 (js_round sec) mod 3600"
  have r: "0 \<le> r" "r < 3600" by (simp_all add: r_def)
  have "js_round (of_int r / 60) = (r + 30) div 60"
  proof -
    have "of_int r / (60::rat) + 1 / 2 = of_int (r + 30) / of_int 60" by (simp add: add_divide_distrib)
    then show ?thesis unfolding js_round_def by (metis floor_divide_of_int_eq)
  qed
  then have "snd (hm sec) = (r + 30) div 60" by (simp add: hm_def Let_def r_def)
  then show ?thesis using r unfolding r_def [symmetric] by auto
qed

lemma hm_whole_minutes: "0 \<le> k \<Longrightarrow> hm (of_int (60 * k)) = (k div 60, k mod 60)"
proof -
  assume k: "0 \<le> k"
  have "js_round (of_int (60 * k)) = 60 * k" by (rule js_round_of_int)
  moreover have "(60 * k) mod 3600 = 60 * (k mod 60)" using mult_mod_right [of 60 k 60] by simp
  moreover have "js_round (of_int (60 * (k mod 60)) / 60) = k mod 60" using js_round_of_int [of "k mod 60"] by simp
  ultimately show ?thesis using k by (simp add: hm_def Let_def)
qed

text \<open>A run of the vibration effect over the renders of a countdown.\<close>

fun vibrations :: "bool \<Rightarrow> (bool \<times> run_status) list \<Rightarrow> nat" where
  "vibrations v [] = 0"
| "vibrations v ((o_run, st) # rs) =
     (let (v', fires) = vibrate_effect o_run st v in (if fires then 1 else 0) + vibrations v' rs)"

lemma vibrated_stays: "\<forall>(o_run, st) \<in> set rs. o_run \<Longrightarrow> vibrations True rs = 0"
  by (induction rs) (auto simp: vibrate_effect_def)

subsection \<open>Properties\<close>

text \<open>
  A card completes its task once: however often its box is clicked, as soon as the timeout of the
  first click has run the callback has been called exactly once, and it is not called again.
\<close>

theorem card_completes_once:
  assumes "(n, Timeouts_run) \<in> set es" "t0 + 280 \<le> n"
  shows "cs_completed (card_run c new_card ((t0, Check_click) # es)) = (if tc_onComplete c then 1 else 0)"
proof -
  have "card_waits (t0 + 280) (card_step c new_card (t0, Check_click))" by (simp add: card_waits_def new_card_def)
  from card_waits_run [OF this, of es c] assms have "card_rang c (card_run c (card_step c new_card (t0, Check_click)) es)"
    by (metis (full_types))
  then show ?thesis by (simp add: card_rang_def card_run_def)
qed

text \<open>
  The check box of the today page completes nothing: in the line layout, which is the default, every
  row has a check box, and no sequence of clicks and timeouts completes the task, though the first
  click marks the row as done for good.
\<close>

theorem today_check_box_is_dead:
  "CC_check \<in> set (card_controls (today_card Layout_line t))
   \<and> cs_completed (card_run (today_card Layout_line t) new_card es) = 0
   \<and> cs_done (card_run (today_card Layout_line t) new_card ((n, Check_click) # es))"
proof -
  have z: "cs_completed (card_run (today_card Layout_line t) s es) = cs_completed s" for s
  proof (induction es arbitrary: s)
    case (Cons e es)
    have "cs_completed (card_step (today_card Layout_line t) s e) = cs_completed s"
      by (cases e; cases "snd e") (auto simp: today_card_def)
    with Cons show ?case by (simp add: card_run_def)
  qed (simp add: card_run_def)
  have "cs_done (card_run c s es)" if "cs_done s" for c s
    using that
  proof (induction es arbitrary: s)
    case (Cons e es)
    then have "cs_done (card_step c s e)" by (cases e; cases "snd e") auto
    with Cons.IH show ?case by (simp add: card_run_def)
  qed (simp add: card_run_def)
  then have "cs_done (card_run (today_card Layout_line t) (card_step (today_card Layout_line t) new_card (n, Check_click)) es)"
    by (simp add: new_card_def)
  then have d: "cs_done (card_run (today_card Layout_line t) new_card ((n, Check_click) # es))" by (simp add: card_run_def)
  have "card_resolved (today_card Layout_line t) \<noteq> RV_completed"
    by (cases "vm_variant t") (simp_all add: card_resolved_def today_card_def)
  with d z [of new_card] show ?thesis by (simp add: card_controls_def today_card_def new_card_def)
qed

text \<open>
  The countdown and the history count the same seconds: cut to whole seconds the elapsed time of the
  countdown is what the run entry displays, which is what finishing stores and sends.
\<close>

theorem countdown_counts_stored_seconds:
  "\<lfloor>co_elapsed (CountdownTimer est (r_status e) (runStartMs e) (r_elapsed e) now)\<rfloor> = displaySeconds (Some e) now
   \<and> r_elapsed (finishEntry (Some e) now) = \<lfloor>co_elapsed (CountdownTimer est (r_status e) (runStartMs e) (r_elapsed e) now)\<rfloor>"
proof -
  have "r_elapsed (finishEntry (Some e) now) = displaySeconds (Some e) now"
    by (auto simp: displaySeconds_def finishEntry_def orEmpty_def foldRunning_def run_step.intros split: option.splits)
  then show ?thesis by (simp add: CountdownTimer_def Let_def cd_elapsed_whole)
qed

text \<open>
  The device vibrates at most once for a countdown that has run out, whatever the run status does
  while it is over, and again only after time has been added.
\<close>

theorem vibrates_once:
  assumes "\<forall>(o_run, st) \<in> set rs. o_run"
  shows "vibrations v rs \<le> 1"
  using assms
proof (induction rs arbitrary: v)
  case (Cons r rs)
  obtain o_run st where r: "r = (o_run, st)" by (cases r)
  with Cons.prems have "o_run" "\<forall>(o_run, st) \<in> set rs. o_run" by auto
  then show ?case
    using Cons.IH [of v] vibrated_stays [of rs] by (auto simp: r vibrate_effect_def Let_def)
qed simp

text \<open>
  Editing the available time starts from what is shown: on whole minutes, opening the editor and
  saving its draft sends the same number of seconds.
\<close>

theorem edit_roundtrip:
  assumes "0 \<le> k"
  shows "draft_seconds (ae_draft (startEdit (of_int (60 * k)) a)) = of_int (60 * k)"
proof -
  have "of_int (k div 60) * 3600 + of_int (k mod 60) * 60 = (of_int (60 * k) :: rat)"
  proof -
    have "60 * k = (k div 60) * 3600 + (k mod 60) * 60" by presburger
    then show ?thesis by (metis of_int_add of_int_mult of_int_numeral)
  qed
  then show ?thesis
    unfolding startEdit_def hm_whole_minutes [OF assms] by (simp add: draft_seconds_def)
qed

text \<open>
  The gauge shows sixty minutes: of a time whose last 30 seconds before a full hour have begun, the
  label says the hour before and 60 minutes, and no other time is shown so.
\<close>

theorem sixty_minutes_shown:
  "snd (hm sec) = 60 \<longleftrightarrow> max 0 (js_round sec) mod 3600 \<ge> 3570"
  by (rule hm_minutes)

end
