(* ===== verification/Task_Forms.thy ===== *)
theory Task_Forms
  imports Task_Card Time_Service
begin

text \<open>
  The dialogues that make a new task: \<open>frontend/src/components/TaskCreationModal/TaskCreationModal.jsx\<close>,
  \<open>AddTaskModal/AddTaskModal.jsx\<close> and \<open>QuickAddModal/QuickAddModal.jsx\<close>.  \<open>end_of_day\<close> and \<open>nine\<close> are
  the host's reading of a day text with the time 23:59 and 9:00.
\<close>

subsection \<open>The dialogue of the today page (TaskCreationModal.jsx)\<close>

record task_form =
  tf_title :: ustring
  tf_category :: ustring
  tf_deadline :: string
  tf_hours :: js_num
  tf_minutes :: js_num
  tf_description :: ustring
  tf_isPriority :: bool

definition DEFAULT_FORM :: task_form where
  "DEFAULT_FORM = \<lparr>tf_title = [], tf_category = [0xC5C5, 0xBB34], tf_deadline = [], tf_hours = 0, tf_minutes = 0,
     tf_description = [], tf_isPriority = False\<rparr>"

record form_view =
  fv_form :: task_form
  fv_durationError :: bool
  fv_titleError :: bool

definition open_form :: "ustring \<Rightarrow> form_view" where
  "open_form initialTitle = \<lparr>fv_form = DEFAULT_FORM\<lparr>tf_title := initialTitle\<rparr>, fv_durationError = False, fv_titleError = False\<rparr>"

definition durationSeconds :: "task_form \<Rightarrow> js_num" where
  "durationSeconds f = tf_hours f * 3600 + tf_minutes f * 60"

text \<open>
  The inputs; a number input hands over \<open>Number(value) || 0\<close>, cut to its range.  Any change of the
  form takes the parent's error away.
\<close>

datatype form_input =
    FI_title ustring | FI_category ustring | FI_deadline string | FI_hours js_value_num | FI_minutes js_value_num
  | FI_toggle_priority

fun form_step :: "bool \<Rightarrow> form_view \<Rightarrow> form_input \<Rightarrow> form_view" where
  "form_step hasPrio v (FI_title t) = v\<lparr>fv_form := (fv_form v)\<lparr>tf_title := take 100 t\<rparr>, fv_titleError := False\<rparr>"
| "form_step hasPrio v (FI_category c) = v\<lparr>fv_form := (fv_form v)\<lparr>tf_category := c\<rparr>\<rparr>"
| "form_step hasPrio v (FI_deadline d) = v\<lparr>fv_form := (fv_form v)\<lparr>tf_deadline := d\<rparr>\<rparr>"
| "form_step hasPrio v (FI_hours x) =
     v\<lparr>fv_form := (fv_form v)\<lparr>tf_hours := max 0 (min 23 (num_or_0 x))\<rparr>, fv_durationError := False\<rparr>"
| "form_step hasPrio v (FI_minutes x) =
     v\<lparr>fv_form := (fv_form v)\<lparr>tf_minutes := max 0 (min 59 (num_or_0 x))\<rparr>, fv_durationError := False\<rparr>"
| "form_step hasPrio v FI_toggle_priority =
     (if hasPrio then v else v\<lparr>fv_form := (fv_form v)\<lparr>tf_isPriority := \<not> tf_isPriority (fv_form v)\<rparr>\<rparr>)"

record form_payload =
  fp_title :: ustring
  fp_category :: ustring
  fp_deadline :: "js_date option"
  fp_estimated_duration :: js_num
  fp_estimatedMinutes :: int
  fp_description :: "ustring option"
  fp_isPriority :: bool

text \<open>
  Submitting.  \<open>toISOString\<close> throws for a day text that is no date, and then nothing is submitted.
\<close>

datatype submit_outcome = Submitted form_payload | Fields_missing | Submit_throws

definition handleSubmit_form :: "(string \<Rightarrow> js_date) \<Rightarrow> bool \<Rightarrow> form_view \<Rightarrow> form_view \<times> submit_outcome" where
  "handleSubmit_form end_of_day hasPrio v =
     (let f = fv_form v;
          noTitle = trim (tf_title f) = [];
          noDuration = durationSeconds f \<le> 0
      in (v\<lparr>fv_titleError := (if noTitle then True else fv_titleError v),
            fv_durationError := (if noDuration then True else fv_durationError v)\<rparr>,
          if noTitle \<or> noDuration then Fields_missing
          else if tf_deadline f \<noteq> [] \<and> end_of_day (tf_deadline f) = Invalid_Date then Submit_throws
          else Submitted
            \<lparr>fp_title = trim (tf_title f), fp_category = tf_category f,
             fp_deadline = (if tf_deadline f = [] then None else Some (end_of_day (tf_deadline f))),
             fp_estimated_duration = durationSeconds f,
             fp_estimatedMinutes = js_round (durationSeconds f / 60),
             fp_description = (if trim (tf_description f) = [] then None else Some (trim (tf_description f))),
             fp_isPriority = tf_isPriority f \<and> \<not> hasPrio\<rparr>))"

definition priorityBlocked :: "bool \<Rightarrow> task_form \<Rightarrow> bool" where
  "priorityBlocked hasPrio f \<longleftrightarrow> tf_isPriority f \<and> hasPrio"

definition submit_disabled :: "bool \<Rightarrow> bool \<Rightarrow> bool \<Rightarrow> task_form \<Rightarrow> bool" where
  "submit_disabled submitting serverError hasPrio f \<longleftrightarrow>
     submitting \<or> serverError \<or> priorityBlocked hasPrio f"

text \<open>The payload as the page's handler reads it.\<close>

definition page_payload :: "form_payload \<Rightarrow> create_payload" where
  "page_payload p = \<lparr>cr_title = fp_title p, cr_category = fp_category p, cr_deadline = fp_deadline p,
     cr_estimated_duration = fp_estimated_duration p, cr_isPriority = fp_isPriority p\<rparr>"

text \<open>
  The banner under an error, whatever the error is: its headline says that the available time is not
  enough, and its numbers are those of the error or the defaults.
\<close>

definition humanDuration :: "js_num \<Rightarrow> ustring" where
  "humanDuration sec =
     (let s = max 0 (js_round sec) in
      ascii (show_int (s div 3600)) @ [0xC2DC, 0xAC04, 0x20] @ ascii (show_int (js_round (of_int (s mod 3600) / 60))) @ [0xBD84])"

definition rest_number :: "(string \<times> param) list \<Rightarrow> string \<Rightarrow> js_num option" where
  "rest_number rs k = (case lookup rs k of Some (P_num x) \<Rightarrow> Some x | _ \<Rightarrow> None)"

definition error_banner :: "task_form \<Rightarrow> (normal_error + ustring) option \<Rightarrow> (ustring \<times> ustring) option" where
  "error_banner f err =
     (case err of
        None \<Rightarrow> None
      | Some e \<Rightarrow>
          (let rs = (case e of Inl n \<Rightarrow> ne_rest n | Inr _ \<Rightarrow> [])
           in Some ([0xB2F9, 0xC2E0, 0xC5D0, 0xAC8C, 0x20, 0xB0A8, 0xC740, 0x20, 0xAC00, 0xC6A9, 0xC2DC, 0xAC04,
              0xC774, 0x20, 0xBD80, 0xC871, 0xD569, 0xB2C8, 0xB2E4],
                [0xB0A8, 0xC740, 0x20, 0xAC00, 0xC6A9, 0xC2DC, 0xAC04, 0x3A,
                   0x20] @ humanDuration (or_default (rest_number rs ''remaining_seconds'') 0)
                @ [0x20, 0x2F, 0x20, 0xC694, 0xCCAD, 0x20, 0xC18C, 0xC694, 0xC2DC, 0xAC04, 0x3A,
                   0x20] @ humanDuration (or_default (rest_number rs ''requested_seconds'') (durationSeconds f)))))"

text \<open>The day label beside the date; \<open>day_start\<close> is the host's reading of the day text at 0:00.\<close>

definition form_ddayLabel :: "(string \<Rightarrow> js_date) \<Rightarrow> (int \<Rightarrow> int) \<Rightarrow> int \<Rightarrow> string \<Rightarrow> string option" where
  "form_ddayLabel day_start midnight now dateStr =
     (if dateStr = [] then None
      else (case day_start dateStr of
              Invalid_Date \<Rightarrow> Some ''D+NaN''
            | At t \<Rightarrow>
                (let d = js_round (of_int (midnight t - midnight now) / of_int day_ms)
                 in Some (if d = 0 then ''D-DAY'' else if d > 0 then ''D-'' @ show_int d else ''D+'' @ show_int \<bar>d\<bar>))))"

subsection \<open>The short dialogues (AddTaskModal.jsx, QuickAddModal.jsx)\<close>

record add_form =
  af_title :: ustring
  af_category :: ustring
  af_importance :: js_value_num
  af_description :: ustring

record add_payload =
  adp_title :: ustring
  adp_category :: ustring
  adp_importance :: js_value_num
  adp_description :: "ustring option"

definition AddTask_handleSubmit :: "add_form \<Rightarrow> add_payload option" where
  "AddTask_handleSubmit f =
     (let title = trim (af_title f) in
      if title = [] then None
      else Some \<lparr>adp_title = title, adp_category = af_category f, adp_importance = af_importance f,
                 adp_description = (if trim (af_description f) = [] then None else Some (trim (af_description f)))\<rparr>)"

record quick_form =
  qf_title :: ustring
  qf_energy :: energy
  qf_category :: ustring
  qf_importance :: int
  qf_deadline :: string

datatype quick_outcome = Quick_added partial_task | Quick_blank | Quick_throws

definition QuickAdd_submit :: "(string \<Rightarrow> js_date) \<Rightarrow> quick_form \<Rightarrow> quick_outcome" where
  "QuickAdd_submit nine f =
     (let trimmed_title = trim (qf_title f) in
      if trimmed_title = [] then Quick_blank
      else if qf_deadline f \<noteq> [] \<and> nine (qf_deadline f) = Invalid_Date then Quick_throws
      else Quick_added
             \<lparr>pt_title = trimmed_title, pt_description = None, pt_estimatedMinutes = Some 30,
              pt_deadline = (if qf_deadline f = [] then None else Some (nine (qf_deadline f))),
              pt_requiredEnergy = Some (qf_energy f), pt_importance = Some (qf_importance f),
              pt_category = Some (qf_category f)\<rparr>)"

subsection \<open>Lemmas\<close>

text \<open>Whole hours and minutes in their ranges.\<close>

definition form_ok :: "task_form \<Rightarrow> bool" where
  "form_ok f \<longleftrightarrow> 0 \<le> tf_hours f \<and> tf_hours f \<le> 23 \<and> 0 \<le> tf_minutes f \<and> tf_minutes f \<le> 59"

definition whole :: "js_value_num \<Rightarrow> bool" where
  "whole x \<longleftrightarrow> x = JNaN \<or> (\<exists>n. x = JNum (of_int n))"

fun whole_input :: "form_input \<Rightarrow> bool" where
  "whole_input (FI_hours x) = whole x"
| "whole_input (FI_minutes x) = whole x"
| "whole_input _ = True"

definition form_whole :: "task_form \<Rightarrow> bool" where
  "form_whole f \<longleftrightarrow> (\<exists>h m. tf_hours f = of_int h \<and> tf_minutes f = of_int m)"

lemma form_ok_step: "form_ok (fv_form v) \<Longrightarrow> form_ok (fv_form (form_step b v i))"
  by (cases i) (auto simp: form_ok_def)

lemma whole_cut: "whole x \<Longrightarrow> \<exists>n. max 0 (min (of_int k) (num_or_0 x)) = of_int n"
proof -
  assume "whole x"
  then obtain n where n: "num_or_0 x = of_int n" by (metis whole_def num_or_0.simps of_int_0)
  have "max 0 (min (of_int k) (of_int n)) = (of_int (max 0 (min k n)) :: rat)" by (simp add: max_def min_def)
  with n show ?thesis by metis
qed

lemma form_whole_step: "form_whole (fv_form v) \<Longrightarrow> whole_input i \<Longrightarrow> form_whole (fv_form (form_step b v i))"
proof (cases i)
  case (FI_hours x)
  assume "form_whole (fv_form v)" "whole_input i"
  then show ?thesis using FI_hours whole_cut [of x 23] by (auto simp: form_whole_def)
next
  case (FI_minutes x)
  assume "form_whole (fv_form v)" "whole_input i"
  then show ?thesis using FI_minutes whole_cut [of x 59] by (auto simp: form_whole_def)
qed (auto simp: form_whole_def)

definition filled :: "bool \<Rightarrow> ustring \<Rightarrow> form_input list \<Rightarrow> form_view" where
  "filled b title is = foldl (form_step b) (open_form title) is"

lemma filled_ok: "form_ok (fv_form (filled b title is))"
proof -
  have "form_ok (fv_form (foldl (form_step b) v is))" if "form_ok (fv_form v)" for v
    using that by (induction "is" arbitrary: v) (simp_all add: form_ok_step)
  then show ?thesis by (simp add: filled_def open_form_def DEFAULT_FORM_def form_ok_def)
qed

lemma filled_whole: "list_all whole_input is \<Longrightarrow> form_whole (fv_form (filled b title is))"
proof -
  assume w: "list_all whole_input is"
  have "form_whole (fv_form (foldl (form_step b) v is))" if "form_whole (fv_form v)" for v
    using that w by (induction "is" arbitrary: v) (simp_all add: form_whole_step)
  moreover have "form_whole (fv_form (open_form title))"
    by (simp add: open_form_def DEFAULT_FORM_def form_whole_def)
  ultimately show ?thesis by (simp add: filled_def)
qed

lemma duration_range:
  assumes "form_ok f" "form_whole f" "0 < durationSeconds f"
  shows "\<exists>n. durationSeconds f = of_int n \<and> MIN_DURATION_SEC \<le> n \<and> n \<le> MAX_DURATION_SEC"
proof -
  from assms(2) obtain h m where hm: "tf_hours f = of_int h" "tf_minutes f = of_int m" by (auto simp: form_whole_def)
  have d: "durationSeconds f = of_int (3600 * h + 60 * m)" by (simp add: durationSeconds_def hm)
  have "0 \<le> h" "h \<le> 23" "0 \<le> m" "m \<le> 59" using assms(1) by (simp_all add: form_ok_def hm)
  moreover have "0 < 3600 * h + 60 * m" using assms(3) unfolding d by (simp only: of_int_0_less_iff)
  moreover from this have "1 \<le> 60 * h + m" by linarith
  ultimately have "60 \<le> 3600 * h + 60 * m" "3600 * h + 60 * m \<le> 86340" by linarith+
  then show ?thesis unfolding d
    by (intro exI [of _ "3600 * h + 60 * m"]) (simp add: MIN_DURATION_SEC_def MAX_DURATION_SEC_def)
qed

subsection \<open>Properties\<close>

text \<open>
  What the dialogue submits the server's check accepts: however the form is filled in, with whole
  numbers in the number inputs, a submitted task has a title without surrounding blanks, a duration
  within the server's bounds, and is a priority task only when there is none.
\<close>

theorem submitted_form_passes_server:
  assumes "list_all whole_input is" and "snd (handleSubmit_form end_of_day b (filled b title is)) = Submitted p"
  shows "\<exists>n. check_duration (Some (JNum (fp_estimated_duration p))) = Inr n \<and> of_int n = fp_estimated_duration p
     \<and> fp_title p \<noteq> [] \<and> trimmed (fp_title p) \<and> (\<not> fp_isPriority p \<or> \<not> b)"
proof -
  let ?f = "fv_form (filled b title is)"
  from assms(2) have p: "fp_estimated_duration p = durationSeconds ?f" "fp_title p = trim (tf_title ?f)"
    "fp_title p \<noteq> []" "0 < durationSeconds ?f" "fp_isPriority p \<longleftrightarrow> tf_isPriority ?f \<and> \<not> b"
    by (auto simp: handleSubmit_form_def Let_def split: if_splits)
  from duration_range [OF filled_ok filled_whole [OF assms(1)] p(4)] obtain n where
    n: "durationSeconds ?f = of_int n" "MIN_DURATION_SEC \<le> n" "n \<le> MAX_DURATION_SEC" by blast
  have "n \<noteq> 0" using n(2) by (simp add: MIN_DURATION_SEC_def)
  then have "check_duration (Some (JNum (of_int n))) = Inr n" using n by (simp add: check_duration_def as_integer_def)
  then show ?thesis using p n trim_trimmed by auto
qed

lemma submitted_form_passes_server_witness:
  "\<exists>p n. snd (handleSubmit_form (\<lambda>_. Invalid_Date) False (filled False [0x41] [FI_minutes (JNum (of_int 75)), FI_toggle_priority]))
        = Submitted p
     \<and> check_duration (Some (JNum (fp_estimated_duration p))) = Inr n \<and> of_int n = fp_estimated_duration p"
proof -
  let ?is = "[FI_minutes (JNum (of_int 75)), FI_toggle_priority]"
  define v where "v = filled False [0x41] ?is"
  have facts: "tf_title (fv_form v) = [0x41]" "tf_deadline (fv_form v) = []" "durationSeconds (fv_form v) = 3540"
    by (simp_all add: v_def filled_def open_form_def DEFAULT_FORM_def durationSeconds_def)
  have "\<not> blank [0x41]" by (simp add: blank_def white_def)
  then obtain p where p: "snd (handleSubmit_form (\<lambda>_. Invalid_Date) False v) = Submitted p"
    by (simp add: handleSubmit_form_def Let_def facts trim_Nil)
  have "list_all whole_input ?is" by (auto simp: whole_def)
  from submitted_form_passes_server [OF this p [unfolded v_def]] p [unfolded v_def] show ?thesis by blast
qed

text \<open>
  A blank title or no duration submits nothing and marks exactly the missing fields.
\<close>

theorem incomplete_form_submits_nothing:
  "snd (handleSubmit_form end_of_day b v) = Fields_missing
   \<longleftrightarrow> blank (tf_title (fv_form v)) \<or> durationSeconds (fv_form v) \<le> 0"
  by (simp add: handleSubmit_form_def Let_def trim_Nil)

text \<open>
  Every refusal looks like a lack of time: whatever error the creation ends with, the dialogue shows
  the same headline, and for an error without numbers it says that nothing is left.
\<close>

theorem every_error_shown_as_lack_of_time:
  "map_option fst (error_banner f (Some e)) = map_option fst (error_banner f (Some (Inl n)))
   \<and> error_banner f (Some (Inr text)) = error_banner f (Some (Inr []))"
  by (simp add: error_banner_def Let_def)

end
