(* ===== verification/App_Shell.thy ===== *)
theory App_Shell
  imports Task_Card Stepwise
begin

text \<open>
  The frame around the pages: \<open>frontend/src/App.jsx\<close>, the palette
  \<open>components/CommandPalette/CommandPalette.jsx\<close>, the stack of notification toasts
  \<open>components/NotificationToast/NotificationToast.jsx\<close>, and the weights of
  \<open>components/SettingsModal/SettingsModal.jsx\<close>.  A handler is a function on the state; the effects
  of React run after the render that changed what they depend on, and all updates made by the
  effects of one render are applied together.
\<close>

subsection \<open>Navigation, theme and toast (App.jsx)\<close>

datatype app_page = Page_today | Page_important | Page_history | Page_archive

datatype theme_mode = Theme_system | Theme_light | Theme_dark

record app_toast =
  apt_id :: int
  apt_message :: ustring
  apt_actionLabel :: "ustring option"

record app_shell =
  ap_page :: app_page
  ap_drawerOpen :: bool
  ap_compose :: "ustring option"
  ap_paletteOpen :: bool
  ap_themeMode :: theme_mode
  ap_isDark :: bool
  ap_notifications :: bool
  ap_audioOpen :: bool
  ap_voiceOpen :: bool
  ap_toast :: "app_toast option"
  ap_toastTimer :: "int option"
  ap_search :: ustring
  ap_scrollTaskId :: "js_id option"
  ap_storage :: local_storage

fun theme_text :: "theme_mode \<Rightarrow> ustring" where
  "theme_text Theme_system = ascii ''system''"
| "theme_text Theme_light = ascii ''light''"
| "theme_text Theme_dark = ascii ''dark''"

definition navigate :: "app_page \<Rightarrow> app_shell \<Rightarrow> app_shell" where
  "navigate p a = a\<lparr>ap_page := p, ap_drawerOpen := False\<rparr>"

definition navigateToTask :: "js_id \<Rightarrow> app_shell \<Rightarrow> app_shell" where
  "navigateToTask tid a = a\<lparr>ap_page := Page_today, ap_drawerOpen := False, ap_scrollTaskId := Some tid\<rparr>"

definition requestCompose :: "ustring \<Rightarrow> app_shell \<Rightarrow> app_shell" where
  "requestCompose title a = (navigate Page_today a)\<lparr>ap_compose := Some title\<rparr>"

text \<open>The effect of the theme; \<open>None\<close> when the browser's storage throws, which React reports.\<close>

definition theme_effect :: "bool \<Rightarrow> app_shell \<Rightarrow> app_shell option" where
  "theme_effect system_dark a =
     (case setItem (ap_storage a) ''sigma-theme'' (theme_text (ap_themeMode a)) of
        Inl _ \<Rightarrow> None
      | Inr s \<Rightarrow> Some (a\<lparr>ap_storage := s,
                         ap_isDark := (ap_themeMode a = Theme_dark \<or> ap_themeMode a = Theme_system \<and> system_dark)\<rparr>))"

text \<open>The system changes its colours: listened to only in mode \<open>system\<close>.\<close>

definition system_change :: "bool \<Rightarrow> app_shell \<Rightarrow> app_shell" where
  "system_change system_dark a = (if ap_themeMode a = Theme_system then a\<lparr>ap_isDark := system_dark\<rparr> else a)"

definition toggle_theme :: "app_shell \<Rightarrow> app_shell" where
  "toggle_theme a = a\<lparr>ap_themeMode := (if ap_isDark a then Theme_light else Theme_dark)\<rparr>"

definition notif_effect :: "app_shell \<Rightarrow> app_shell option" where
  "notif_effect a =
     (case setItem (ap_storage a) ''sigma-notif'' (ascii (if ap_notifications a then ''on'' else ''off'')) of
        Inl _ \<Rightarrow> None | Inr s \<Rightarrow> Some (a\<lparr>ap_storage := s\<rparr>))"

definition initial_notifications :: "local_storage \<Rightarrow> bool option" where
  "initial_notifications s =
     (case getItem s ''sigma-notif'' of Inl _ \<Rightarrow> None | Inr v \<Rightarrow> Some (v \<noteq> Some (ascii ''off'')))"

definition initial_theme :: "local_storage \<Rightarrow> ustring option" where
  "initial_theme s =
     (case getItem s ''sigma-theme'' of
        Inl _ \<Rightarrow> None
      | Inr v \<Rightarrow> Some (case v of None \<Rightarrow> ascii ''system'' | Some t \<Rightarrow> if t = [] then ascii ''system'' else t))"

definition showToast :: "int \<Rightarrow> ustring \<Rightarrow> ustring option \<Rightarrow> app_shell \<Rightarrow> app_shell" where
  "showToast now message actionLabel a =
     a\<lparr>ap_toast := Some \<lparr>apt_id = now, apt_message = message, apt_actionLabel = actionLabel\<rparr>,
       ap_toastTimer := Some (now + 5000)\<rparr>"

definition toast_timeout :: "int \<Rightarrow> app_shell \<Rightarrow> app_shell" where
  "toast_timeout now a =
     (case ap_toastTimer a of
        Some d \<Rightarrow> if d \<le> now then a\<lparr>ap_toast := None, ap_toastTimer := None\<rparr> else a
      | None \<Rightarrow> a)"

definition close_toast :: "app_shell \<Rightarrow> app_shell" where
  "close_toast a = a\<lparr>ap_toast := None\<rparr>"

text \<open>A message of the daemon: its kind, its action and its phrase, each perhaps missing.\<close>

record trigger_payload =
  tg_action :: "string option"
  tg_type :: "string option"
  tg_wake_phrase :: "ustring option"

definition onTrigger :: "int \<Rightarrow> trigger_payload option \<Rightarrow> app_shell \<Rightarrow> app_shell" where
  "onTrigger now payload a =
     (let a' = a\<lparr>ap_page := Page_today, ap_drawerOpen := False\<rparr>;
          act = (case payload of None \<Rightarrow> None | Some p \<Rightarrow> tg_action p);
          ty = (case payload of None \<Rightarrow> None | Some p \<Rightarrow> tg_type p);
          phrase = (case payload of None \<Rightarrow> None | Some p \<Rightarrow> tg_wake_phrase p)
      in if act = Some ''ASK_TASKS'' \<or> ty = Some ''VOICE_ACTIVATION'' \<or> ty = Some ''WAKE_WORD'' \<or> ty = Some ''CLAP''
         then a'\<lparr>ap_voiceOpen := True\<rparr>
         else showToast now ([0xD83C, 0xDF99, 0xFE0F, 0x20, 0xD638, 0xCD9C, 0xC5B4, 0xAC00, 0x20, 0xAC10, 0xC9C0,
            0xB418, 0xC5C8, 0xC2B5, 0xB2C8, 0xB2E4, 0x3A, 0x20, 0x22] @ message_or phrase [0xC74C, 0xC131] @ ascii ''\"'') None a')"

text \<open>The global keys: the modifier, the code and the key of the event, and whether a field has it.\<close>

definition app_keydown :: "bool \<Rightarrow> string \<Rightarrow> string \<Rightarrow> bool \<Rightarrow> app_shell \<Rightarrow> app_shell" where
  "app_keydown modifier code key typing a =
     (if modifier \<and> code = ''KeyK'' then a\<lparr>ap_paletteOpen := True\<rparr>
      else if modifier \<and> key = '','' then a\<lparr>ap_audioOpen := True\<rparr>
      else if \<not> modifier \<and> \<not> typing \<and> code = ''KeyN'' then requestCompose [] a
      else a)"

subsection \<open>Composing from elsewhere (App.jsx, TodayTasksPage.jsx, TaskCreationModal.jsx)\<close>

text \<open>
  The today page opens the dialog when there is a request and reports it as handled; the dialog
  takes over the title when it is opened or its initial title changes.  \<open>mo_seen\<close> is what the effect
  of the dialog depended on when it last ran.
\<close>

record compose_view =
  mo_addOpen :: bool
  mo_seen :: "bool \<times> ustring"
  mo_title :: ustring

definition modal_effect :: "bool \<times> ustring \<Rightarrow> compose_view \<Rightarrow> compose_view" where
  "modal_effect deps v =
     (if deps = mo_seen v then v
      else (v\<lparr>mo_seen := deps, mo_title := (if fst deps then snd deps else mo_title v)\<rparr>))"

definition compose_effects :: "app_shell \<times> compose_view \<Rightarrow> app_shell \<times> compose_view" where
  "compose_effects av =
     (let (a, v) = av;
          v' = modal_effect (mo_addOpen v, or_default (ap_compose a) []) v
      in if ap_compose a \<noteq> None then (a\<lparr>ap_compose := None\<rparr>, v'\<lparr>mo_addOpen := True\<rparr>) else (a, v'))"

text \<open>Renders follow until nothing changes any more; two more than the first are enough.\<close>

definition settle_compose :: "app_shell \<times> compose_view \<Rightarrow> app_shell \<times> compose_view" where
  "settle_compose av = (compose_effects ^^ 3) av"

subsection \<open>The palette (CommandPalette.jsx)\<close>

record palette_task =
  pl_id :: string
  pl_title :: ustring
  pl_page :: app_page

datatype palette_item = PI_create ustring | PI_nav app_page | PI_task palette_task

definition palette_tasks :: "view_model list option \<Rightarrow> view_model list option \<Rightarrow> completed_view list option \<Rightarrow> palette_task list" where
  "palette_tasks pending archived completed =
     map (\<lambda>t. \<lparr>pl_id = ''p-'' @ prop_key (vm_id t), pl_title = vm_title t, pl_page = Page_today\<rparr>) (or_default pending [])
     @ map (\<lambda>t. \<lparr>pl_id = ''a-'' @ prop_key (vm_id t), pl_title = vm_title t, pl_page = Page_archive\<rparr>) (or_default archived [])
     @ map (\<lambda>c. \<lparr>pl_id = ''c-'' @ prop_key (cp_taskId c), pl_title = cp_title c, pl_page = Page_history\<rparr>)
         (or_default completed [])"

definition NAV_ITEMS :: "(app_page \<times> ustring) list" where
  "NAV_ITEMS = [(Page_today, [0xC624, 0xB298, 0xC758, 0x20, 0xC791, 0xC5C5]), (Page_important, [0xC911,
     0xC694]), (Page_history, [0xAE30, 0xB85D]), (Page_archive, [0xBCF4, 0xAD00, 0xD568])]"

definition palette_items :: "(ustring \<Rightarrow> ustring) \<Rightarrow> ustring \<Rightarrow> palette_task list \<Rightarrow> palette_item list" where
  "palette_items lower query tasks =
     (let q = lower (trim query) in
      (if q \<noteq> [] then [PI_create (trim query)] else [])
      @ map (\<lambda>n. PI_nav (fst n)) (filter (\<lambda>n. q = [] \<or> str_includes (lower (snd n)) q) NAV_ITEMS)
      @ (if q \<noteq> [] then map PI_task (take 6 (filter (\<lambda>t. str_includes (lower (pl_title t)) q) tasks)) else []))"

record palette =
  pa_query :: ustring
  pa_tasks :: "palette_task list"
  pa_sel :: int

definition new_palette :: palette where
  "new_palette = \<lparr>pa_query = [], pa_tasks = [], pa_sel = 0\<rparr>"

text \<open>Opening it clears the query and the selection; the tasks of the last opening stay until the new ones arrive.\<close>

definition open_palette :: "palette \<Rightarrow> palette" where
  "open_palette p = p\<lparr>pa_query := [], pa_sel := 0\<rparr>"

datatype palette_event = Pal_type ustring | Pal_down | Pal_up | Pal_hover nat | Pal_loaded "palette_task list"

text \<open>Typing that changes the trimmed query puts the selection back to the first item.\<close>

fun palette_step :: "(ustring \<Rightarrow> ustring) \<Rightarrow> palette \<Rightarrow> palette_event \<Rightarrow> palette" where
  "palette_step lower p (Pal_type s) =
     p\<lparr>pa_query := s, pa_sel := (if lower (trim s) = lower (trim (pa_query p)) then pa_sel p else 0)\<rparr>"
| "palette_step lower p Pal_down =
     p\<lparr>pa_sel := min (pa_sel p + 1) (int (length (palette_items lower (pa_query p) (pa_tasks p))) - 1)\<rparr>"
| "palette_step lower p Pal_up = p\<lparr>pa_sel := max (pa_sel p - 1) 0\<rparr>"
| "palette_step lower p (Pal_hover i) =
     (if i < length (palette_items lower (pa_query p) (pa_tasks p)) then p\<lparr>pa_sel := int i\<rparr> else p)"
| "palette_step lower p (Pal_loaded ts) = p\<lparr>pa_tasks := ts\<rparr>"

definition palette_selected :: "(ustring \<Rightarrow> ustring) \<Rightarrow> palette \<Rightarrow> palette_item option" where
  "palette_selected lower p =
     (let is = palette_items lower (pa_query p) (pa_tasks p) in
      if 0 \<le> pa_sel p \<and> nat (pa_sel p) < length is then Some (is ! nat (pa_sel p)) else None)"

text \<open>\<open>activate\<close> with the callbacks of \<open>App.jsx\<close>; afterwards the palette is closed.\<close>

definition activate :: "palette_item option \<Rightarrow> app_shell \<Rightarrow> app_shell" where
  "activate it a =
     (case it of
        None \<Rightarrow> a
      | Some (PI_create l) \<Rightarrow> (requestCompose l a)\<lparr>ap_paletteOpen := False\<rparr>
      | Some (PI_nav p) \<Rightarrow> (navigate p a)\<lparr>ap_paletteOpen := False\<rparr>
      | Some (PI_task t) \<Rightarrow> (navigate (pl_page t) (a\<lparr>ap_search := pl_title t\<rparr>))\<lparr>ap_paletteOpen := False\<rparr>)"

subsection \<open>Notification toasts (NotificationToast.jsx, App.jsx)\<close>

text \<open>
  Every toast has a timeout of 3000 ms; its effect depends on \<open>onDismiss\<close>, a new function at every
  render of \<open>App\<close>, so every render of \<open>App\<close> clears the timeouts and sets new ones.
\<close>

record notif_toast =
  nt_id :: string
  nt_due :: int

datatype toast_event = Toast_arrives string bool | App_renders | Toast_closed string | Toast_timers

definition AUTO_DISMISS_MS :: int where
  "AUTO_DISMISS_MS = 3000"

definition renew_toasts :: "int \<Rightarrow> notif_toast list \<Rightarrow> notif_toast list" where
  "renew_toasts now ts = map (\<lambda>t. t\<lparr>nt_due := now + AUTO_DISMISS_MS\<rparr>) ts"

text \<open>An arriving, a closed and an expired toast change the state of \<open>App\<close>, which renders.\<close>

fun toast_step :: "notif_toast list \<Rightarrow> int \<times> toast_event \<Rightarrow> notif_toast list" where
  "toast_step ts (now, Toast_arrives i notificationsEnabled) =
     (if notificationsEnabled then renew_toasts now (ts @ [\<lparr>nt_id = i, nt_due = 0\<rparr>]) else ts)"
| "toast_step ts (now, App_renders) = renew_toasts now ts"
| "toast_step ts (now, Toast_closed i) = renew_toasts now (filter (\<lambda>t. nt_id t \<noteq> i) ts)"
| "toast_step ts (now, Toast_timers) =
     (let out = map nt_id (filter (\<lambda>t. nt_due t \<le> now) ts) in
      if out = [] then ts else renew_toasts now (filter (\<lambda>t. nt_id t \<notin> set out) ts))"

subsection \<open>Weights (SettingsModal.jsx)\<close>

record weights_view =
  wv_weights :: "weights option"
  wv_resetting :: bool
  wv_toast :: "ustring option"

definition load_weights :: "weights answer \<Rightarrow> weights_view \<Rightarrow> weights_view" where
  "load_weights reply v = v\<lparr>wv_weights := (case reply of Inl _ \<Rightarrow> None | Inr w \<Rightarrow> Some w)\<rparr>"

definition handleResetWeights :: "weights answer \<Rightarrow> weights_view \<Rightarrow> weights_view" where
  "handleResetWeights reply v =
     (let v' = v\<lparr>wv_resetting := True\<rparr>;
          v'' = (case reply of
                   Inr w \<Rightarrow> v'\<lparr>wv_weights := Some w, wv_toast := Some [0xC6B0, 0xC120, 0xC21C,
                      0xC704, 0x20, 0xAC00, 0xC911, 0xCE58, 0xB97C, 0x20, 0xAE30, 0xBCF8, 0xAC12, 0xC73C, 0xB85C,
                         0x20, 0xCD08, 0xAE30, 0xD654, 0xD588, 0xC5B4, 0xC694, 0x2E]\<rparr>
                 | Inl m \<Rightarrow> v'\<lparr>wv_toast := Some (message_or m [0xCD08, 0xAE30, 0xD654, 0xC5D0,
                    0x20, 0xC2E4, 0xD328, 0xD588, 0xC5B4, 0xC694, 0x2E, 0x20, 0xC7A0, 0xC2DC, 0x20, 0xD6C4, 0x20,
                       0xB2E4, 0xC2DC, 0x20, 0xC2DC, 0xB3C4, 0xD574, 0x20, 0xC8FC, 0xC138, 0xC694, 0x2E])\<rparr>)
      in v''\<lparr>wv_resetting := False\<rparr>)"

definition weight_pct :: "js_num option \<Rightarrow> string" where
  "weight_pct v = show_int (js_round (or_default v 0 * 100)) @ ''%''"

subsection \<open>Lemmas\<close>

lemma palette_items_nonempty: "palette_items lower query tasks \<noteq> []"
  by (simp add: palette_items_def Let_def NAV_ITEMS_def)

definition palette_ok :: "(ustring \<Rightarrow> ustring) \<Rightarrow> palette \<Rightarrow> bool" where
  "palette_ok lower p \<longleftrightarrow> 0 \<le> pa_sel p \<and> pa_sel p < int (length (palette_items lower (pa_query p) (pa_tasks p)))"

fun is_load :: "palette_event \<Rightarrow> bool" where
  "is_load (Pal_loaded _) = True"
| "is_load _ = False"

text \<open>The number of items depends on the query only through its trimmed, lowered text.\<close>

lemma palette_length_cong:
  "lower (trim s) = lower (trim s') \<Longrightarrow> length (palette_items lower s ts) = length (palette_items lower s' ts)"
  by (simp add: palette_items_def Let_def)

lemma palette_length_tasks: "length (palette_items lower s []) \<le> length (palette_items lower s ts)"
  by (simp add: palette_items_def Let_def)

lemma palette_ok_step [inv_intro]: "palette_ok lower p \<Longrightarrow> \<not> is_load e \<Longrightarrow> palette_ok lower (palette_step lower p e)"
proof (cases e)
  case (Pal_type s)
  assume "palette_ok lower p"
  then show ?thesis
    using Pal_type palette_items_nonempty [of lower s "pa_tasks p"]
    by (auto simp: palette_ok_def palette_length_cong [of lower s "pa_query p"])
next
  case Pal_down
  assume "palette_ok lower p"
  then show ?thesis
    using Pal_down palette_items_nonempty [of lower "pa_query p" "pa_tasks p"] by (auto simp: palette_ok_def min_def)
next
  case Pal_up
  assume "palette_ok lower p"
  then show ?thesis
    using Pal_up palette_items_nonempty [of lower "pa_query p" "pa_tasks p"] by (auto simp: palette_ok_def)
next
  case (Pal_hover i)
  assume "palette_ok lower p"
  then show ?thesis using Pal_hover by (simp add: palette_ok_def)
qed simp

interpretation palette_run: stepwise "\<lambda>_ e. \<not> is_load e" "palette_step lower" "palette_ok lower" for lower
  by unfold_locales (rule palette_ok_step)

lemma palette_ok_run:
  "palette_ok lower p \<Longrightarrow> \<forall>e \<in> set es. \<not> is_load e \<Longrightarrow> palette_ok lower (foldl (palette_step lower) p es)"
  by (rule palette_run.offered_keeps) simp_all

lemma palette_no_load:
  "\<forall>e \<in> set es. \<not> is_load e \<Longrightarrow> pa_tasks (foldl (palette_step lower) p es) = pa_tasks p"
proof (induction es arbitrary: p)
  case (Cons e es)
  then have "pa_tasks (palette_step lower p e) = pa_tasks p" by (cases e) simp_all
  with Cons show ?case by simp
qed simp

lemma palette_ok_selected: "palette_ok lower p \<Longrightarrow> palette_selected lower p \<noteq> None"
  by (auto simp: palette_ok_def palette_selected_def Let_def)

lemma toast_due_bound:
  assumes "\<forall>t \<in> set ts. nt_due t \<le> b" "now + 3000 \<le> b"
  shows "\<forall>t \<in> set (toast_step ts (now, e)). nt_due t \<le> b"
  using assms by (cases e) (auto simp: renew_toasts_def AUTO_DISMISS_MS_def Let_def)

subsection \<open>Properties\<close>

text \<open>
  A title handed over to the composer is lost: whatever the palette asks for, when the effects have
  settled the dialog of the today page is open and its title is empty, because the page reports the
  request as handled in the same update that opens the dialog.
\<close>

theorem composed_title_is_lost:
  "let (a', v') = settle_compose (requestCompose title a, \<lparr>mo_addOpen = False, mo_seen = (False, []), mo_title = old\<rparr>)
   in ap_page a' = Page_today \<and> ap_compose a' = None \<and> mo_addOpen v' \<and> mo_title v' = []"
  by (simp add: settle_compose_def numeral_eq_Suc compose_effects_def modal_effect_def Let_def
      requestCompose_def navigate_def or_default_def)

text \<open>
  The palette that is opened for the first time always has a selected item: after any keys and moves of
  the mouse, whether the tasks arrive before, between or after them, the selection points into the list,
  so Enter always activates something.
\<close>

theorem palette_always_selects:
  assumes "\<forall>e \<in> set (es @ es'). \<not> is_load e"
  shows "palette_selected lower (foldl (palette_step lower) (open_palette new_palette) (es @ Pal_loaded ts # es')) \<noteq> None"
proof -
  define p where "p = foldl (palette_step lower) (open_palette new_palette) es"
  have "palette_ok lower (open_palette new_palette)"
    using palette_items_nonempty [of lower "[]" "[]"] by (simp add: palette_ok_def open_palette_def new_palette_def)
  then have "palette_ok lower p" unfolding p_def using assms by (intro palette_ok_run) auto
  moreover have "pa_tasks p = []" unfolding p_def using assms by (subst palette_no_load) (auto simp: open_palette_def new_palette_def)
  ultimately have "palette_ok lower (palette_step lower p (Pal_loaded ts))"
    using palette_length_tasks [of lower "pa_query p" ts] by (auto simp: palette_ok_def)
  then show ?thesis using assms by (simp add: p_def [symmetric] palette_ok_run palette_ok_selected)
qed

lemma palette_always_selects_witness:
  "palette_selected id (foldl (palette_step id) (open_palette new_palette)
     ([Pal_down, Pal_down] @ Pal_loaded [\<lparr>pl_id = ''p-1'', pl_title = [97], pl_page = Page_today\<rparr>] # [Pal_type [97], Pal_down, Pal_down])) \<noteq> None"
  by (rule palette_always_selects) simp

text \<open>
  Opened again it still lists the tasks of the last opening; when the new list is shorter, the selection
  may point behind its end, and Enter does nothing.
\<close>

theorem reopened_palette_may_select_nothing:
  "let t = \<lparr>pl_id = ''p-1'', pl_title = [97], pl_page = Page_today\<rparr>;
       p = palette_step id (open_palette new_palette) (Pal_loaded [t])
   in palette_selected id (foldl (palette_step id) (open_palette p) [Pal_type [97], Pal_down]) = Some (PI_task t)
      \<and> palette_selected id (foldl (palette_step id) (open_palette p) [Pal_type [97], Pal_down, Pal_loaded []]) = None"
  by (simp add: palette_selected_def open_palette_def new_palette_def palette_items_def NAV_ITEMS_def Let_def trim_def white_def
      str_includes_def find_sub.simps)

text \<open>
  Settings of the frame survive a reload: in a readable storage the theme and the switch of the
  notifications read back as what the effects wrote.
\<close>

theorem shell_settings_roundtrip:
  assumes "theme_effect dark a = Some a'" "notif_effect a' = Some a''" "ls_readable (ap_storage a)"
  shows "initial_theme (ap_storage a'') = Some (theme_text (ap_themeMode a))
    \<and> initial_notifications (ap_storage a'') = Some (ap_notifications a)"
  using assms
  by (cases "ap_themeMode a")
     (auto simp: theme_effect_def notif_effect_def initial_theme_def initial_notifications_def setItem_def getItem_def
       ascii_def split: if_splits)

text \<open>
  Toasts of notifications go away when the frame is left alone, and only then: three seconds after
  the last render none is left; and while the frame renders at least once every three seconds, none
  expires.
\<close>

theorem toasts_expire:
  assumes "\<forall>(t, e) \<in> set es. t + 3000 \<le> n"
  shows "toast_step (foldl toast_step [] es) (n, Toast_timers) = []"
proof -
  have "\<forall>t \<in> set (foldl toast_step ts es). nt_due t \<le> n" if "\<forall>t \<in> set ts. nt_due t \<le> n" for ts
    using assms that
  proof (induction es arbitrary: ts)
    case (Cons e es)
    obtain t k where "e = (t, k)" by (cases e)
    with Cons toast_due_bound [of ts n t k] show ?case by auto
  qed simp
  from this [of "[]"] have "\<forall>t \<in> set (foldl toast_step [] es). nt_due t \<le> n" by simp
  then show ?thesis by (auto simp: Let_def renew_toasts_def)
qed

theorem renders_keep_toasts:
  assumes "n < t + 3000"
  shows "map nt_id (toast_step (toast_step ts (t, App_renders)) (n, Toast_timers)) = map nt_id ts"
  using assms by (auto simp: renew_toasts_def AUTO_DISMISS_MS_def Let_def comp_def)

end
