(* ===== verification/Side_Pages.thy ===== *)
theory Side_Pages
  imports Today_Page Stepwise
begin

text \<open>
  The pages beside the list of today: \<open>frontend/src/pages/HistoryPage.jsx\<close> (completed tasks, merged
  from the local history and the back end, filtered and grouped by day) and
  \<open>pages/ArchivePage.jsx\<close> (archived tasks with restore, removal and undo).  \<open>dateOf\<close> is the host's
  reading of a day text as the instant of its local midnight.
\<close>

subsection \<open>History (pages/HistoryPage.jsx)\<close>

record history_item =
  hi_taskId :: js_id
  hi_title :: ustring
  hi_category :: "ustring option"
  hi_completedAt :: ustring
  hi_date :: string

datatype history_tab = Tab_all | Tab_today | Tab_week | Tab_month

text \<open>The local history first; of the back end's rows those with an id not seen there.\<close>

definition merge_history :: "history_item list \<Rightarrow> history_item list \<Rightarrow> history_item list" where
  "merge_history loc remote =
     (let seen = set (map hi_taskId loc) in loc @ filter (\<lambda>r. hi_taskId r \<notin> seen) remote)"

text \<open>The latest of the dates, or the present instant.\<close>

definition refDate :: "(string \<Rightarrow> int) \<Rightarrow> int \<Rightarrow> history_item list \<Rightarrow> int" where
  "refDate dateOf now items =
     (case sort_key uminus (map (\<lambda>i. dateOf (hi_date i)) items) of [] \<Rightarrow> now | d # _ \<Rightarrow> d)"

definition diffDays :: "(string \<Rightarrow> int) \<Rightarrow> int \<Rightarrow> string \<Rightarrow> int" where
  "diffDays dateOf ref d = js_round (of_int (ref - dateOf d) / of_int day_ms)"

definition in_tab :: "zone \<Rightarrow> (string \<Rightarrow> int) \<Rightarrow> int \<Rightarrow> history_tab \<Rightarrow> history_item \<Rightarrow> bool" where
  "in_tab z dateOf ref tab i =
     (case tab of
        Tab_all \<Rightarrow> True
      | Tab_today \<Rightarrow> diffDays dateOf ref (hi_date i) = 0
      | Tab_week \<Rightarrow> diffDays dateOf ref (hi_date i) \<ge> 0 \<and> diffDays dateOf ref (hi_date i) < 7
      | Tab_month \<Rightarrow>
          getMonth z (dateOf (hi_date i)) = getMonth z ref \<and> getFullYear z (dateOf (hi_date i)) = getFullYear z ref)"

definition filtered_history :: "zone \<Rightarrow> (string \<Rightarrow> int) \<Rightarrow> int \<Rightarrow> history_tab \<Rightarrow> history_item list \<Rightarrow> history_item list" where
  "filtered_history z dateOf ref tab items = filter (in_tab z dateOf ref tab) items"

text \<open>The map from a day to its rows, in the order of the first rows, then newest day first.\<close>

fun add_row :: "history_item \<Rightarrow> (string \<times> history_item list) list \<Rightarrow> (string \<times> history_item list) list" where
  "add_row i [] = [(hi_date i, [i])]"
| "add_row i ((d, rows) # m) = (if d = hi_date i then (d, rows @ [i]) # m else (d, rows) # add_row i m)"

definition history_groups :: "(string \<Rightarrow> int) \<Rightarrow> history_item list \<Rightarrow> (string \<times> history_item list) list" where
  "history_groups dateOf items =
     sort_key (\<lambda>g. - dateOf (fst g)) (foldl (\<lambda>m i. add_row i m) [] items)"

definition weekCount :: "(string \<Rightarrow> int) \<Rightarrow> int \<Rightarrow> history_item list \<Rightarrow> nat" where
  "weekCount dateOf ref items =
     length (filter (\<lambda>i. diffDays dateOf ref (hi_date i) \<ge> 0 \<and> diffDays dateOf ref (hi_date i) < 7) items)"

datatype day_prefix = Label_today | Label_yesterday | Label_none

definition groupLabel :: "(string \<Rightarrow> int) \<Rightarrow> int \<Rightarrow> string \<Rightarrow> day_prefix" where
  "groupLabel dateOf ref d =
     (let diff = diffDays dateOf ref d in
      if diff = 0 then Label_today else if diff = 1 then Label_yesterday else Label_none)"

subsection \<open>Archive (pages/ArchivePage.jsx)\<close>

definition archive_visible :: "(ustring \<Rightarrow> ustring) \<Rightarrow> ustring \<Rightarrow> task_response list \<Rightarrow> task_response list" where
  "archive_visible lower search items =
     (let q = lower (trim search) in filter (\<lambda>raw. q = [] \<or> str_includes (lower (tr_title raw)) q) items)"

definition archive_drop :: "js_id \<Rightarrow> task_response list \<Rightarrow> task_response list" where
  "archive_drop i items = filter (\<lambda>x. tr_taskId x \<noteq> i) items"

definition archive_undo_remove :: "task_response \<Rightarrow> task_response list \<Rightarrow> task_response list" where
  "archive_undo_remove raw items =
     (if \<exists>x \<in> set items. tr_taskId x = tr_taskId raw then items else items @ [raw])"

text \<open>
  What a user does: restore a row, or remove it and perhaps undo that.  The undo hangs on the toast of
  the removal, and every action shows a toast of its own, so it comes before the next action.  Next
  to the list the mock back end, to which the calls go.
\<close>

datatype archive_action = AA_restore task_response | AA_remove task_response | AA_remove_undo task_response

fun archive_step :: "task_response list \<times> mock_state \<Rightarrow> archive_action \<Rightarrow> task_response list \<times> mock_state" where
  "archive_step (items, m) (AA_restore raw) =
     (archive_drop (tr_taskId raw) items, fst (mock_updateTaskStatus m (tr_taskId raw) MA_RESTORE))"
| "archive_step (items, m) (AA_remove raw) =
     (archive_drop (tr_taskId raw) items, mock_deleteTask m (tr_taskId raw))"
| "archive_step (items, m) (AA_remove_undo raw) =
     (archive_undo_remove raw (archive_drop (tr_taskId raw) items),
      fst (mock_recreateTask (mock_deleteTask m (tr_taskId raw)) raw))"

subsection \<open>Lemmas on the history\<close>

lemma add_row_keys: "fst ` set (add_row i m) = insert (hi_date i) (fst ` set m)"
  by (induction i m rule: add_row.induct) (simp_all add: insert_commute)

lemma add_row_distinct: "distinct (map fst m) \<Longrightarrow> distinct (map fst (add_row i m))"
proof (induction m)
  case (Cons g m)
  then show ?case using add_row_keys [of i m] by (cases g) (auto simp: image_iff)
qed simp

lemma add_row_rows: "mset (concat (map snd (add_row i m))) = add_mset i (mset (concat (map snd m)))"
  by (induction i m rule: add_row.induct) simp_all

definition group_ok :: "string \<times> history_item list \<Rightarrow> bool" where
  "group_ok g \<longleftrightarrow> snd g \<noteq> [] \<and> (\<forall>i \<in> set (snd g). hi_date i = fst g)"

lemma group_ok_add: "group_ok (hi_date i, [i])" "group_ok (hi_date i, rows) \<Longrightarrow> group_ok (hi_date i, rows @ [i])"
  by (auto simp: group_ok_def)

lemma add_row_ok: "list_all group_ok m \<Longrightarrow> list_all group_ok (add_row i m)"
  by (induction i m rule: add_row.induct) (auto simp: group_ok_add)

lemma rows_of_items:
  "distinct (map fst m) \<Longrightarrow> list_all group_ok m \<Longrightarrow>
   distinct (map fst (foldl (\<lambda>m i. add_row i m) m items))
   \<and> list_all group_ok (foldl (\<lambda>m i. add_row i m) m items)
   \<and> mset (concat (map snd (foldl (\<lambda>m i. add_row i m) m items))) = mset (concat (map snd m)) + mset items"
proof (induction items arbitrary: m)
  case (Cons i items)
  from Cons.IH [OF add_row_distinct [OF Cons.prems(1)] add_row_ok [OF Cons.prems(2)], of i]
  show ?case by (simp only: foldl.simps add_row_rows mset.simps union_mset_add_mset_left union_mset_add_mset_right simp_thms)
qed simp

lemma mset_concat_cong: "mset xs = mset ys \<Longrightarrow> mset (concat (map f xs)) = mset (concat (map f ys))"
  by (metis mset_concat mset_map sum_mset_sum_list)

lemma refDate_max:
  assumes "i \<in> set items"
  shows "dateOf (hi_date i) \<le> refDate dateOf now items" "refDate dateOf now items \<in> (\<lambda>i. dateOf (hi_date i)) ` set items"
proof -
  let ?ds = "sort_key uminus (map (\<lambda>i. dateOf (hi_date i)) items)"
  have set: "set ?ds = (\<lambda>i. dateOf (hi_date i)) ` set items" by simp
  then obtain d ds where ds: "?ds = d # ds" using assms by (cases ?ds) auto
  have "sorted (map uminus ?ds)" by (rule sorted_sort_key)
  then have "\<forall>e \<in> set ?ds. e \<le> d" unfolding ds by auto
  moreover have "dateOf (hi_date i) \<in> set ?ds" unfolding set using assms by blast
  moreover have "refDate dateOf now items = d" by (simp add: refDate_def ds)
  moreover have "d \<in> set ?ds" using ds by simp
  ultimately show "dateOf (hi_date i) \<le> refDate dateOf now items"
    "refDate dateOf now items \<in> (\<lambda>i. dateOf (hi_date i)) ` set items" using set by auto
qed

lemma diffDays_nonneg: "dateOf d \<le> ref \<Longrightarrow> 0 \<le> diffDays dateOf ref d"
  unfolding diffDays_def by (rule js_round_nonneg) (simp add: day_ms_def)

subsection \<open>Lemmas on the archive\<close>

lemma clone_clone [simp]: "clone (clone t) = clone t"
proof -
  have "clone_num (clone_num x) = clone_num x" for x by (cases x rule: clone_num.cases) simp_all
  then show ?thesis by (simp add: clone_def)
qed

lemma clone_status [simp]: "tr_status (clone t) = tr_status t"
  by (simp add: clone_def)

definition archive_matches :: "task_response list \<times> mock_state \<Rightarrow> bool" where
  "archive_matches im \<longleftrightarrow> fst im = mock_getArchivedTasks (snd im) \<and> inj_on prop_key (tr_taskId ` set (m_tasks (snd im)))"

lemma restored_archive:
  assumes "\<forall>t \<in> set ts. prop_key (tr_taskId t) = prop_key i \<longrightarrow> tr_taskId t = i"
  shows "filter (\<lambda>t. tr_status t = S_ARCHIVED) (update_where (\<lambda>t. prop_key (tr_taskId t) = prop_key i) (mock_effect MA_RESTORE) ts)
         = filter (\<lambda>t. tr_taskId t \<noteq> i \<and> tr_status t = S_ARCHIVED) ts"
proof -
  define f where "f t = (if prop_key (tr_taskId t) = prop_key i then mock_effect MA_RESTORE t else t)" for t
  have "tr_status (f t) = S_ARCHIVED \<longleftrightarrow> tr_taskId t \<noteq> i \<and> tr_status t = S_ARCHIVED"
    and "tr_taskId t \<noteq> i \<and> tr_status t = S_ARCHIVED \<longrightarrow> f t = t" if "t \<in> set ts" for t
    using assms that by (cases "tr_taskId t = i"; fastforce simp: f_def)+
  then have "filter (\<lambda>t. tr_status t = S_ARCHIVED) (map f ts) = filter (\<lambda>t. tr_taskId t \<noteq> i \<and> tr_status t = S_ARCHIVED) ts"
    by (intro filter_map_keep) blast
  moreover have "map f ts = update_where (\<lambda>t. prop_key (tr_taskId t) = prop_key i) (mock_effect MA_RESTORE) ts"
    by (simp add: update_where_def f_def)
  ultimately show ?thesis by simp
qed

lemma archive_dropped:
  "archive_drop i (map clone (filter P ts)) = map clone (filter (\<lambda>t. tr_taskId t \<noteq> i \<and> P t) ts)"
  by (simp add: archive_drop_def filter_map comp_def conj_commute)

lemma archive_drop_none: "\<not> (\<exists>x \<in> set (archive_drop i items). tr_taskId x = i)"
  by (simp add: archive_drop_def)

fun action_task :: "archive_action \<Rightarrow> task_response" where
  "action_task (AA_restore raw) = raw"
| "action_task (AA_remove raw) = raw"
| "action_task (AA_remove_undo raw) = raw"

lemma archive_step_matches:
  assumes "archive_matches (items, m)" "action_task a \<in> set items"
  shows "archive_matches (archive_step (items, m) a)"
proof -
  let ?raw = "action_task a" and ?A = "\<lambda>t. tr_status t = S_ARCHIVED"
  from assms obtain t where t: "t \<in> set (m_tasks m)" "?raw = clone t" "?A t" and items: "items = map clone (filter ?A (m_tasks m))"
    and inj: "inj_on prop_key (tr_taskId ` set (m_tasks m))"
    by (auto simp: archive_matches_def mock_getArchivedTasks_def)
  have key: "\<forall>u \<in> set (m_tasks m). prop_key (tr_taskId u) = prop_key (tr_taskId ?raw) \<longrightarrow> tr_taskId u = tr_taskId ?raw"
    using t inj by (auto simp: inj_on_def)
  show ?thesis
  proof (cases a)
    case (AA_restore raw)
    let ?m = "fst (mock_updateTaskStatus m (tr_taskId raw) MA_RESTORE)"
    have "map tr_taskId (m_tasks ?m) = map tr_taskId (m_tasks m)"
      by (simp add: mock_updateTaskStatus_def map_update_where)
    then have "tr_taskId ` set (m_tasks ?m) = tr_taskId ` set (m_tasks m)" by (metis set_map)
    moreover have "mock_getArchivedTasks ?m = archive_drop (tr_taskId raw) items"
      unfolding items archive_dropped using restored_archive [OF key] AA_restore
      by (simp add: mock_getArchivedTasks_def mock_updateTaskStatus_def)
    ultimately show ?thesis using AA_restore inj by (simp add: archive_matches_def)
  next
    case (AA_remove raw)
    have "inj_on prop_key (tr_taskId ` set (m_tasks (mock_deleteTask m (tr_taskId raw))))"
      by (rule inj_on_subset [OF inj]) (auto simp: mock_deleteTask_def)
    then show ?thesis using AA_remove
      by (simp add: archive_matches_def items archive_dropped mock_getArchivedTasks_def mock_deleteTask_def conj_commute)
  next
    case (AA_remove_undo raw)
    let ?d = "mock_deleteTask m (tr_taskId raw)"
    have raw: "raw = clone t" "tr_taskId raw = tr_taskId t" using t AA_remove_undo by simp_all
    have ids: "tr_taskId ` set (m_tasks ?d) \<subseteq> tr_taskId ` set (m_tasks m)" by (auto simp: mock_deleteTask_def)
    have "\<not> (\<exists>u \<in> set (m_tasks ?d). tr_taskId u = tr_taskId raw)" by (auto simp: mock_deleteTask_def)
    then have r: "m_tasks (fst (mock_recreateTask ?d raw)) = m_tasks ?d @ [raw]" by (simp add: mock_recreateTask_def)
    then have "tr_taskId ` set (m_tasks (fst (mock_recreateTask ?d raw))) \<subseteq> tr_taskId ` set (m_tasks m)"
      using ids t(1) raw(2) by auto
    then have "inj_on prop_key (tr_taskId ` set (m_tasks (fst (mock_recreateTask ?d raw))))" by (rule inj_on_subset [OF inj])
    moreover have "mock_getArchivedTasks (fst (mock_recreateTask ?d raw)) = archive_drop (tr_taskId raw) items @ [raw]"
      unfolding mock_getArchivedTasks_def r using t(3) raw(1)
      by (simp add: items archive_dropped mock_deleteTask_def conj_commute)
    ultimately show ?thesis
      using AA_remove_undo archive_drop_none [of "tr_taskId raw" items]
      by (simp add: archive_matches_def archive_undo_remove_def)
  qed
qed

subsection \<open>Properties\<close>

lemma image_filter_out: "f ` set (filter (\<lambda>r. f r \<notin> A) xs) = f ` set xs - A"
  by (induction xs) (simp_all add: insert_Diff_if)

text \<open>
  The merged history has every task of both sources and none twice: when neither source repeats an
  id the merged list does not, its ids are those of both, and a task in both is shown as the local
  history has it.
\<close>

theorem history_has_each_task_once:
  assumes "distinct (map hi_taskId loc)" "distinct (map hi_taskId remote)"
  shows "distinct (map hi_taskId (merge_history loc remote))
    \<and> hi_taskId ` set (merge_history loc remote) = hi_taskId ` set loc \<union> hi_taskId ` set remote
    \<and> filter (\<lambda>i. hi_taskId i \<in> hi_taskId ` set loc) (merge_history loc remote) = loc"
proof -
  have "distinct (map hi_taskId (filter P remote))" for P using assms(2) by (simp add: distinct_map_filter)
  moreover have "filter (\<lambda>i. hi_taskId i \<in> hi_taskId ` set loc) loc = loc" by (rule filter_True) blast
  moreover have "filter (\<lambda>i. hi_taskId i \<in> hi_taskId ` set loc) (filter (\<lambda>r. hi_taskId r \<notin> hi_taskId ` set loc) remote) = []"
    by (auto simp: filter_empty_conv)
  moreover have ids: "hi_taskId ` set (filter (\<lambda>r. hi_taskId r \<notin> hi_taskId ` set loc) remote) = hi_taskId ` set remote - hi_taskId ` set loc"
    by (rule image_filter_out)
  moreover have "hi_taskId ` set loc \<inter> hi_taskId ` set (filter (\<lambda>r. hi_taskId r \<notin> hi_taskId ` set loc) remote) = {}"
    unfolding ids by blast
  ultimately show ?thesis using assms(1)
    unfolding merge_history_def Let_def map_append distinct_append filter_append set_append image_Un set_map by simp
qed

text \<open>
  Grouping loses nothing: the groups have different days, newest first, no group is empty and every
  row stands under its own day, and together the groups hold exactly the rows of the list.
\<close>

theorem groups_partition_history:
  "distinct (map fst (history_groups dateOf items))
   \<and> sorted (map (\<lambda>g. - dateOf (fst g)) (history_groups dateOf items))
   \<and> (\<forall>g \<in> set (history_groups dateOf items). group_ok g)
   \<and> mset (concat (map snd (history_groups dateOf items))) = mset items"
proof -
  let ?m = "foldl (\<lambda>m i. add_row i m) [] items"
  have m: "distinct (map fst ?m)" "list_all group_ok ?m" "mset (concat (map snd ?m)) = mset items"
    using rows_of_items [of "[]" items] by simp_all
  have ms: "mset (history_groups dateOf items) = mset ?m" by (simp add: history_groups_def)
  have "mset (map fst (history_groups dateOf items)) = mset (map fst ?m)" unfolding mset_map ms ..
  then have "distinct (map fst (history_groups dateOf items))" using m(1) by (metis mset_eq_imp_distinct_iff)
  moreover have "set (history_groups dateOf items) = set ?m" using ms by (rule mset_eq_setD)
  moreover have "mset (concat (map snd (history_groups dateOf items))) = mset (concat (map snd ?m))"
    by (rule mset_concat_cong [OF ms])
  ultimately show ?thesis using m(2,3) by (simp add: history_groups_def list_all_iff)
qed

text \<open>
  Relative to the latest completion nothing lies in the future, so the summary counts exactly the rows
  of the tab of the week, and the tab of today is never empty while there is history.
\<close>

theorem week_summary_counts_tab:
  "weekCount dateOf (refDate dateOf now items) items = length (filtered_history z dateOf (refDate dateOf now items) Tab_week items)
   \<and> (items = [] \<or> filtered_history z dateOf (refDate dateOf now items) Tab_today items \<noteq> [])
   \<and> filter (\<lambda>i. diffDays dateOf (refDate dateOf now items) (hi_date i) < 0) items = []"
proof -
  have "diffDays dateOf (refDate dateOf now items) (hi_date i) \<ge> 0" if "i \<in> set items" for i
    using refDate_max(1) [OF that] by (rule diffDays_nonneg)
  then have "filter (\<lambda>i. diffDays dateOf (refDate dateOf now items) (hi_date i) < 0) items = []"
    by (auto simp: filter_empty_conv not_less)
  moreover have "filtered_history z dateOf (refDate dateOf now items) Tab_today items \<noteq> []" if "items \<noteq> []"
  proof -
    from that obtain i where "i \<in> set items" by (cases items) auto
    from refDate_max(2) [OF this, of dateOf now] obtain j where "j \<in> set items" "refDate dateOf now items = dateOf (hi_date j)"
      by auto
    then have "in_tab z dateOf (refDate dateOf now items) Tab_today j" by (simp add: in_tab_def diffDays_def)
    with \<open>j \<in> set items\<close> show ?thesis unfolding filtered_history_def filter_empty_conv by blast
  qed
  moreover have "in_tab z dateOf r Tab_week = (\<lambda>i. diffDays dateOf r (hi_date i) \<ge> 0 \<and> diffDays dateOf r (hi_date i) < 7)" for r
    by (simp add: fun_eq_iff in_tab_def)
  ultimately show ?thesis by (auto simp: weekCount_def filtered_history_def)
qed

text \<open>A session: only rows on the page can be acted on.\<close>

definition archive_offers :: "task_response list \<times> mock_state \<Rightarrow> archive_action \<Rightarrow> bool" where
  "archive_offers im a \<longleftrightarrow> action_task a \<in> set (fst im)"

abbreviation archive_session :: "task_response list \<times> mock_state \<Rightarrow> archive_action list \<Rightarrow> (task_response list \<times> mock_state) option" where
  "archive_session \<equiv> guarded_run archive_offers archive_step"

interpretation archive_run: stepwise archive_offers archive_step archive_matches
proof
  show "archive_matches (archive_step im a)" if "archive_matches im" "archive_offers im a" for im a
    using that archive_step_matches [of "fst im" "snd im" a] by (simp add: archive_offers_def)
qed

text \<open>
  The archive page stays true to the back end: from a page that shows the archived tasks of the
  mock, after any number of restored, removed and put back rows it still shows exactly the archived
  tasks of the mock, in the same order.
\<close>

theorem archive_page_follows_mock:
  assumes "archive_matches im" and "archive_session im as = Some im'"
  shows "archive_matches im'"
  using archive_run.run_keeps [OF assms(2,1)] .

definition archived_seed :: mock_state where
  "archived_seed = (mock_initial 0)\<lparr>m_tasks := [(seed_1 0)\<lparr>tr_status := S_ARCHIVED\<rparr>, seed_2 0]\<rparr>"

lemma archive_page_follows_mock_witness:
  "archive_matches (archive_step (mock_getArchivedTasks archived_seed, archived_seed)
     (AA_remove_undo (hd (mock_getArchivedTasks archived_seed))))"
  by (rule archive_page_follows_mock
        [of "(mock_getArchivedTasks archived_seed, archived_seed)" "[AA_remove_undo (hd (mock_getArchivedTasks archived_seed))]"])
     (simp_all add: archive_matches_def archive_offers_def mock_getArchivedTasks_def archived_seed_def mock_initial_def seed_defs)

text \<open>
  In a place east of Greenwich the completions of the morning are filed under the day before: the
  day written to the history is the one of the ISO text, which is UTC, while the clock beside it is
  local.
\<close>

definition iso_day :: "int \<Rightarrow> int" where
  "iso_day now = now div day_ms"

theorem morning_is_filed_under_yesterday:
  assumes "0 < off" "off < day_ms" "local_ms (fixed_zone off) now < off"
  shows "iso_day now = local_day (fixed_zone off) now - 1"
proof -
  define l where "l = now + off"
  have l: "l = local_day (fixed_zone off) now * day_ms + local_ms (fixed_zone off) now"
    "0 \<le> local_ms (fixed_zone off) now"
    by (simp_all add: l_def local_day_def local_ms_def fixed_zone_def day_ms_def)
  have "now = (local_day (fixed_zone off) now - 1) * day_ms + (day_ms + local_ms (fixed_zone off) now - off)"
    using l(1) by (simp add: l_def algebra_simps)
  moreover have "0 \<le> day_ms + local_ms (fixed_zone off) now - off" "day_ms + local_ms (fixed_zone off) now - off < day_ms"
    using assms l(2) by linarith+
  ultimately show ?thesis unfolding iso_day_def
    by (intro div_eqI [of _ _ _ "day_ms + local_ms (fixed_zone off) now - off"]) (simp_all only: mult.commute)
qed

end
