(* ===== verification/Page_Dialogs.thy ===== *)
theory Page_Dialogs
  imports Side_Pages "HOL-Library.Multiset"
begin

text \<open>
  The dialogue for a task that has been put off too often (\<open>components/ZombieModal/ZombieModal.jsx\<close>)
  with its handlers on the today and the important page, the undo of the important page, and the
  menus of the top bar: \<open>TopBar.jsx\<close>, \<open>NotificationBell.jsx\<close>, \<open>NotificationPanel.jsx\<close>,
  \<open>NotificationItem.jsx\<close>, \<open>ContextBar.jsx\<close> and the scroll lock of \<open>Modal.jsx\<close>.
\<close>

subsection \<open>Putting off (TodayTasksPage.jsx, ImportantTasksPage.jsx, ZombieModal.jsx)\<close>

text \<open>
  \<open>zd_task\<close> is \<open>zombieTask\<close>; \<open>zd_undo\<close> is what the undo of the toast would put back, on the important
  page only.  The mock accepts every change, so a change and its request are one step.
\<close>

record zombie_page =
  zd_hook :: task_hook
  zd_task :: "view_model option"
  zd_undo :: "task_response option"

definition onCardClick :: "view_model \<Rightarrow> zombie_page \<Rightarrow> zombie_page" where
  "onCardClick t p = (if vm_isZombie t then p\<lparr>zd_task := Some t\<rparr> else p)"

definition accept_change :: "list_change \<Rightarrow> zombie_page \<Rightarrow> zombie_page" where
  "accept_change c p =
     p\<lparr>zd_hook := mutate_end (th_tasks (zd_hook p)) (Inr ()) (mutate_begin (change_list c) (th_tasks (zd_hook p)) (zd_hook p))\<rparr>"

fun change_mock :: "list_change \<Rightarrow> mock_state \<Rightarrow> mock_state" where
  "change_mock (L_complete i) m = fst (mock_updateTaskStatus m i MA_COMPLETE)"
| "change_mock (L_snooze i) m = fst (mock_updateTaskStatus m i MA_SNOOZE)"
| "change_mock (L_archive i) m = fst (mock_updateTaskStatus m i MA_ARCHIVE)"

text \<open>The events of a page: a click on a card, its check box, the buttons of the dialogue, the toast.\<close>

datatype zombie_event = ZE_card view_model | ZE_check js_id | ZE_archive | ZE_keep | ZE_close | ZE_undo | ZE_toast_gone

fun zombie_step :: "bool \<Rightarrow> zombie_page \<times> mock_state \<Rightarrow> zombie_event \<Rightarrow> zombie_page \<times> mock_state" where
  "zombie_step offers_undo (p, m) (ZE_card v) = (onCardClick v p, m)"
| "zombie_step offers_undo (p, m) (ZE_check i) = (accept_change (L_complete i) p, change_mock (L_complete i) m)"
| "zombie_step offers_undo (p, m) ZE_archive =
     (case zd_task p of
        None \<Rightarrow> (p, m)
      | Some v \<Rightarrow>
          (let handed = archiveTask_handed (vm_id v) (th_tasks (zd_hook p));
               p' = (accept_change (L_archive (vm_id v)) p)\<lparr>zd_task := None\<rparr>
           in (if offers_undo then p'\<lparr>zd_undo := handed\<rparr> else p', change_mock (L_archive (vm_id v)) m)))"
| "zombie_step offers_undo (p, m) ZE_keep =
     (case zd_task p of
        None \<Rightarrow> (p, m)
      | Some v \<Rightarrow> ((accept_change (L_snooze (vm_id v)) p)\<lparr>zd_task := None\<rparr>, change_mock (L_snooze (vm_id v)) m))"
| "zombie_step offers_undo (p, m) ZE_close = (p\<lparr>zd_task := None\<rparr>, m)"
| "zombie_step offers_undo (p, m) ZE_undo =
     (case zd_undo p of
        None \<Rightarrow> (p, m)
      | Some s \<Rightarrow>
          (p\<lparr>zd_hook := restoreTask_hook (Some s) (zd_hook p), zd_undo := None\<rparr>,
           fst (mock_updateTaskStatus m (tr_taskId s) MA_RESTORE)))"
| "zombie_step offers_undo (p, m) ZE_toast_gone = (p\<lparr>zd_undo := None\<rparr>, m)"

text \<open>The focus of the dialogue's \<open>n\<close> buttons: Tab and Shift+Tab at the ends go round.\<close>

definition trap_tab :: "nat \<Rightarrow> bool \<Rightarrow> nat \<Rightarrow> nat option" where
  "trap_tab n shift k =
     (if n = 0 then None
      else if shift \<and> k = 0 then Some (n - 1)
      else if \<not> shift \<and> k = n - 1 then Some 0
      else Some (if shift then k - 1 else k + 1))"

subsection \<open>Menus (TopBar.jsx, NotificationBell.jsx, NotificationItem.jsx, NotificationPanel.jsx)\<close>

datatype top_menu = Menu_notif | Menu_profile

definition toggle_menu :: "top_menu \<Rightarrow> top_menu option \<Rightarrow> top_menu option" where
  "toggle_menu mn cur = (if cur = Some mn then None else Some mn)"

text \<open>A press outside and Escape close the open menu.\<close>

definition menu_listeners :: "bool \<Rightarrow> string \<Rightarrow> top_menu option \<Rightarrow> top_menu option" where
  "menu_listeners outside key cur = (if outside \<or> key = ''Escape'' then None else cur)"

text \<open>Opening an entry: it is marked as read when it is unread, and the page goes to its task.\<close>

datatype item_call = Call_mark_read string | Call_navigate js_id | Call_resolve js_id string

definition activate_item :: "mock_notification \<Rightarrow> item_call list" where
  "activate_item n = (if n_is_read n then [] else [Call_mark_read (n_id n)]) @ [Call_navigate (n_task_id n)]"

definition item_actions :: "mock_notification \<Rightarrow> item_call list" where
  "item_actions n =
     (if n_type n = N_DELETE_CONFIRM
      then [Call_resolve (n_task_id n) ''COMPLETE'', Call_resolve (n_task_id n) ''DELETE''] else [])"

datatype panel_body = Panel_loading | Panel_empty | Panel_list "mock_notification list" "bool option"

text \<open>The list with its button for more, which is disabled while more is loading.\<close>

definition NotificationPanel :: "bool \<Rightarrow> mock_notification list \<Rightarrow> bool \<Rightarrow> bool \<Rightarrow> panel_body" where
  "NotificationPanel isLoading items hasMore isLoadingMore =
     (if isLoading then Panel_loading else if length items = 0 then Panel_empty
      else Panel_list items (if hasMore then Some isLoadingMore else None))"

definition readall_disabled :: "nat \<Rightarrow> bool" where
  "readall_disabled unreadCount \<longleftrightarrow> unreadCount = 0"

subsection \<open>The state bar (ContextBar.jsx)\<close>

fun PRIORITY_LABEL :: "expected_priority \<Rightarrow> ustring" where
  "PRIORITY_LABEL Critical = [0xB9E4, 0xC6B0, 0x20, 0xB192, 0xC74C]"
| "PRIORITY_LABEL High = [0xB192, 0xC74C]"
| "PRIORITY_LABEL Medium = [0xBCF4, 0xD1B5]"
| "PRIORITY_LABEL Low = [0xB0AE, 0xC74C]"

definition slider_pct :: "js_num \<Rightarrow> js_num" where
  "slider_pct timeAvailable = timeAvailable / 8 * 100"

datatype bar_input = Bar_time js_num | Bar_energy energy

fun bar_change :: "js_num \<times> energy \<Rightarrow> bar_input \<Rightarrow> js_num \<times> energy" where
  "bar_change (t, e) (Bar_time t') = (t', e)"
| "bar_change (t, e) (Bar_energy e') = (t, e')"

subsection \<open>The scroll lock of a dialogue (Modal.jsx, ZombieModal.jsx, CommandPalette.jsx)\<close>

text \<open>Every dialogue sets the style of the body when it opens and clears it when it closes.\<close>

datatype lock_event = Dialog_opens nat | Dialog_closes nat

fun lock_step :: "nat list \<times> bool \<Rightarrow> lock_event \<Rightarrow> nat list \<times> bool" where
  "lock_step (ds, hidden) (Dialog_opens d) = (if d \<in> set ds then (ds, hidden) else (d # ds, True))"
| "lock_step (ds, hidden) (Dialog_closes d) = (if d \<in> set ds then (remove1 d ds, False) else (ds, hidden))"

subsection \<open>Lemmas\<close>

text \<open>Ids that print alike are the same, so the mock changes the task of that id only.\<close>

lemma update_by_key:
  assumes "inj_on prop_key (tr_taskId ` set ts)" "i \<in> tr_taskId ` set ts"
  shows "update_where (\<lambda>t. prop_key (tr_taskId t) = prop_key i) f ts = update_where (\<lambda>t. tr_taskId t = i) f ts"
  using assms by (auto simp: update_where_def inj_on_def)

abbreviation pend :: "task_response list \<Rightarrow> task_response list" where
  "pend ts \<equiv> map clone (filter (\<lambda>t. tr_status t = S_PENDING) ts)"

lemma pend_left:
  assumes "s \<noteq> S_PENDING"
  shows "pend (update_where (\<lambda>t. tr_taskId t = i) (\<lambda>t. t\<lparr>tr_status := s\<rparr>) ts) = without_task i (pend ts)"
  using assms by (induction ts) (auto simp: update_where_def without_task_def)

lemma clone_delayed: "clone (t\<lparr>tr_delayCount := d\<rparr>) = (clone t)\<lparr>tr_delayCount := d\<rparr>"
  by (simp add: clone_def)

lemma clone_delay [simp]: "tr_delayCount (clone t) = tr_delayCount t"
  by (simp add: clone_def)

lemma pend_delayed:
  "pend (update_where (\<lambda>t. tr_taskId t = i) (\<lambda>t. t\<lparr>tr_delayCount := tr_delayCount t + 1\<rparr>) ts) = snoozeTask_list i (pend ts)"
  by (induction ts) (auto simp: update_where_def snoozeTask_list_def clone_delayed)

lemma pend_back:
  assumes "t \<in> set ts" "distinct (map tr_taskId ts)" "tr_status t \<noteq> S_PENDING"
  shows "mset (pend (update_where (\<lambda>x. tr_taskId x = tr_taskId t) (\<lambda>t. t\<lparr>tr_status := S_PENDING\<rparr>) ts))
         = add_mset (clone (t\<lparr>tr_status := S_PENDING\<rparr>)) (mset (pend ts))"
  using assms
proof (induction ts)
  case (Cons u us)
  show ?case
  proof (cases "u = t")
    case True
    with Cons.prems have "tr_taskId t \<notin> tr_taskId ` set us" by auto
    then have "\<forall>x \<in> set us. tr_taskId x \<noteq> tr_taskId t" by (metis imageI)
    then have "update_where (\<lambda>x. tr_taskId x = tr_taskId t) (\<lambda>t. t\<lparr>tr_status := S_PENDING\<rparr>) us = us"
      by (rule update_where_none)
    with True Cons.prems(3) show ?thesis by (simp add: update_where_def)
  next
    case False
    with Cons.prems have "t \<in> set us" by simp
    with Cons.prems have "tr_taskId u \<noteq> tr_taskId t" by (metis distinct.simps(2) imageI list.simps(9) set_map)
    note this \<open>t \<in> set us\<close>
    with Cons show ?thesis by (simp add: update_where_def)
  qed
qed simp

lemma mset_without: "mset L = mset K \<Longrightarrow> mset (without_task i L) = mset (without_task i K)"
  by (simp add: without_task_def)

lemma mset_snoozed: "mset L = mset K \<Longrightarrow> mset (snoozeTask_list i L) = mset (snoozeTask_list i K)"
  by (simp add: snoozeTask_list_def update_where_def)

lemma update_ids: "(\<And>t. tr_taskId (f t) = tr_taskId t) \<Longrightarrow> map tr_taskId (update_where P f ts) = map tr_taskId ts"
  by (rule map_update_where) simp

lemma effect_id [simp]: "tr_taskId (mock_effect a t) = tr_taskId t"
  by (cases a) simp_all

text \<open>The page has the tasks of the back end; the undo has a task that is off the list.\<close>

definition undo_ok :: "task_response option \<Rightarrow> task_response list \<Rightarrow> bool" where
  "undo_ok u ts \<longleftrightarrow> (\<forall>s. u = Some s \<longrightarrow> (\<exists>t \<in> set ts. tr_status t \<noteq> S_PENDING \<and> s = clone (t\<lparr>tr_status := S_PENDING\<rparr>)))"

definition zombie_matches :: "zombie_page \<times> mock_state \<Rightarrow> bool" where
  "zombie_matches pm \<longleftrightarrow>
     (let ts = m_tasks (snd pm); p = fst pm in
      mset (th_tasks (zd_hook p)) = mset (mock_getAllPending (snd pm))
      \<and> distinct (map tr_taskId ts) \<and> inj_on prop_key (tr_taskId ` set ts)
      \<and> (\<forall>v. zd_task p = Some v \<longrightarrow> vm_id v \<in> tr_taskId ` set ts) \<and> undo_ok (zd_undo p) ts
      \<and> (\<forall>v s. zd_task p = Some v \<longrightarrow> zd_undo p = Some s \<longrightarrow> vm_id v \<noteq> tr_taskId s))"

text \<open>Only cards that are on the page can be clicked and checked.\<close>

fun zombie_event_ok :: "zombie_page \<Rightarrow> zombie_event \<Rightarrow> bool" where
  "zombie_event_ok p (ZE_card v) = (vm_id v \<in> tr_taskId ` set (th_tasks (zd_hook p)))"
| "zombie_event_ok p (ZE_check i) = (i \<in> tr_taskId ` set (th_tasks (zd_hook p)))"
| "zombie_event_ok p _ = True"

abbreviation zombie_session :: "bool \<Rightarrow> zombie_page \<times> mock_state \<Rightarrow> zombie_event list \<Rightarrow> (zombie_page \<times> mock_state) option" where
  "zombie_session u \<equiv> guarded_run (\<lambda>pm. zombie_event_ok (fst pm)) (zombie_step u)"

lemma kept_task: "t \<in> set ts \<Longrightarrow> tr_taskId t \<noteq> i \<Longrightarrow> t \<in> set (update_where (\<lambda>t. tr_taskId t = i) f ts)"
  by (auto simp: set_update_where)

lemma effect_status:
  "mock_effect MA_COMPLETE = (\<lambda>t. t\<lparr>tr_status := S_COMPLETED\<rparr>)"
  "mock_effect MA_ARCHIVE = (\<lambda>t. t\<lparr>tr_status := S_ARCHIVED\<rparr>)"
  "mock_effect MA_RESTORE = (\<lambda>t. t\<lparr>tr_status := S_PENDING\<rparr>)"
  "mock_effect MA_SNOOZE = (\<lambda>t. t\<lparr>tr_delayCount := tr_delayCount t + 1\<rparr>)"
  by (simp_all add: fun_eq_iff)

lemma changed_tasks:
  assumes "inj_on prop_key (tr_taskId ` set (m_tasks m))" "i \<in> tr_taskId ` set (m_tasks m)"
  shows "m_tasks (fst (mock_updateTaskStatus m i a)) = update_where (\<lambda>t. tr_taskId t = i) (mock_effect a) (m_tasks m)"
  using update_by_key [OF assms] by (simp add: mock_updateTaskStatus_def)

lemma accepted_list: "th_tasks (zd_hook (accept_change c p)) = change_list c (th_tasks (zd_hook p))"
  "zd_task (accept_change c p) = zd_task p" "zd_undo (accept_change c p) = zd_undo p"
  by (simp_all add: accept_change_def mutate_begin_def mutate_end_def)

lemma pending_on_page:
  assumes "mset L = mset (pend ts)" "s \<in> set L"
  obtains t where "t \<in> set ts" "tr_status t = S_PENDING" "s = clone t" "tr_taskId s = tr_taskId t"
proof -
  from assms have "s \<in> set (pend ts)" by (metis set_mset_mset)
  with that show thesis by auto
qed

lemma same_id: "distinct (map tr_taskId ts) \<Longrightarrow> t \<in> set ts \<Longrightarrow> u \<in> set ts \<Longrightarrow> tr_taskId t = tr_taskId u \<Longrightarrow> t = u"
  by (simp add: distinct_map inj_on_def)

lemma undo_ok_update:
  assumes "undo_ok u ts" "\<And>s. u = Some s \<Longrightarrow> tr_taskId s \<noteq> i"
  shows "undo_ok u (update_where (\<lambda>t. tr_taskId t = i) f ts)"
  unfolding undo_ok_def
proof (intro allI impI)
  fix s assume s: "u = Some s"
  with assms(1) obtain t where t: "t \<in> set ts" "tr_status t \<noteq> S_PENDING" "s = clone (t\<lparr>tr_status := S_PENDING\<rparr>)"
    by (auto simp: undo_ok_def)
  then have "tr_taskId t \<noteq> i" using assms(2) [OF s] by simp
  from kept_task [OF t(1) this] t(2,3)
  show "\<exists>t \<in> set (update_where (\<lambda>t. tr_taskId t = i) f ts). tr_status t \<noteq> S_PENDING \<and> s = clone (t\<lparr>tr_status := S_PENDING\<rparr>)"
    by blast
qed

lemma undo_off_page:
  assumes "mset L = mset (pend ts)" "distinct (map tr_taskId ts)" "undo_ok (Some s) ts"
  shows "tr_taskId s \<notin> tr_taskId ` set L"
proof
  assume "tr_taskId s \<in> tr_taskId ` set L"
  then obtain r where "r \<in> set L" "tr_taskId r = tr_taskId s" by auto
  then obtain t where t: "t \<in> set ts" "tr_status t = S_PENDING" "tr_taskId t = tr_taskId s"
    using pending_on_page [OF assms(1)] by metis
  from assms(3) obtain u where "u \<in> set ts" "tr_status u \<noteq> S_PENDING" "tr_taskId s = tr_taskId u"
    by (auto simp: undo_ok_def)
  with t same_id [OF assms(2)] show False by metis
qed

lemma handed_undo:
  assumes "mset L = mset (pend ts)" "archiveTask_handed i L = Some s"
  shows "undo_ok (Some s) (update_where (\<lambda>t. tr_taskId t = i) (\<lambda>t. t\<lparr>tr_status := S_ARCHIVED\<rparr>) ts) \<and> tr_taskId s = i"
proof -
  from assms(2) have s: "s \<in> set L" "tr_taskId s = i" by (auto simp: archiveTask_handed_def find_Some_iff)
  obtain t where t: "t \<in> set ts" "tr_status t = S_PENDING" "s = clone t" "tr_taskId s = tr_taskId t"
    using pending_on_page [OF assms(1) s(1)] .
  let ?t = "t\<lparr>tr_status := S_ARCHIVED\<rparr>"
  have "?t \<in> set (update_where (\<lambda>t. tr_taskId t = i) (\<lambda>t. t\<lparr>tr_status := S_ARCHIVED\<rparr>) ts)"
    using t(1) t(4) s(2) by (auto simp: set_update_where intro!: rev_image_eqI [of t])
  moreover have "t\<lparr>tr_status := S_PENDING\<rparr> = t" using t(2) by (cases t) simp
  ultimately show ?thesis using t(3) s(2) by (auto simp: undo_ok_def intro!: bexI [of _ ?t])
qed

lemma mock_pend: "mock_getAllPending m = pend (m_tasks m)"
  by (simp add: mock_getAllPending_def pending_tasks_def)

text \<open>A change of one task on both sides keeps the invariant.\<close>

lemma zombie_change:
  assumes z: "zombie_matches (p, m)" and i: "i \<in> tr_taskId ` set (m_tasks m)"
    and m': "m' = fst (mock_updateTaskStatus m i a)"
    and L: "mset (th_tasks (zd_hook p')) = mset (pend (update_where (\<lambda>t. tr_taskId t = i) (mock_effect a) (m_tasks m)))"
    and dlg: "zd_task p' = None \<or> zd_task p' = zd_task p"
    and u: "undo_ok (zd_undo p') (update_where (\<lambda>t. tr_taskId t = i) (mock_effect a) (m_tasks m))"
    and off: "\<And>v s. zd_task p' = Some v \<Longrightarrow> zd_undo p' = Some s \<Longrightarrow> vm_id v \<noteq> tr_taskId s"
  shows "zombie_matches (p', m')"
proof -
  let ?ts = "update_where (\<lambda>t. tr_taskId t = i) (mock_effect a) (m_tasks m)"
  from z have inv: "distinct (map tr_taskId (m_tasks m))" "inj_on prop_key (tr_taskId ` set (m_tasks m))"
    "\<And>v. zd_task p = Some v \<Longrightarrow> vm_id v \<in> tr_taskId ` set (m_tasks m)"
    by (simp_all add: zombie_matches_def Let_def)
  have ts: "m_tasks m' = ?ts" unfolding m' by (rule changed_tasks [OF inv(2) i])
  have ids: "map tr_taskId ?ts = map tr_taskId (m_tasks m)" by (rule update_ids) simp
  then have "tr_taskId ` set ?ts = tr_taskId ` set (m_tasks m)" by (metis set_map)
  with inv ids L dlg u off show ?thesis by (auto simp: zombie_matches_def Let_def ts mock_pend)
qed

lemma on_page_in_mock:
  assumes "zombie_matches (p, m)" "i \<in> tr_taskId ` set (th_tasks (zd_hook p))"
  shows "i \<in> tr_taskId ` set (m_tasks m) \<and> (\<forall>s. zd_undo p = Some s \<longrightarrow> tr_taskId s \<noteq> i)"
proof -
  from assms(1) have z: "mset (th_tasks (zd_hook p)) = mset (pend (m_tasks m))" "distinct (map tr_taskId (m_tasks m))"
    "undo_ok (zd_undo p) (m_tasks m)"
    by (simp_all add: zombie_matches_def Let_def mock_pend)
  have "tr_taskId s \<noteq> i" if "zd_undo p = Some s" for s
    using undo_off_page [OF z(1,2), of s] z(3) that assms(2) by auto
  moreover from assms(2) obtain r where "r \<in> set (th_tasks (zd_hook p))" "tr_taskId r = i" by auto
  with pending_on_page [OF z(1)] have "i \<in> tr_taskId ` set (m_tasks m)" by (metis imageI)
  ultimately show ?thesis by blast
qed

lemma zombie_step_matches:
  assumes "zombie_matches (p, m)" "zombie_event_ok p e"
  shows "zombie_matches (zombie_step offers_undo (p, m) e)"
proof -
  from assms(1) have z: "mset (th_tasks (zd_hook p)) = mset (pend (m_tasks m))" "undo_ok (zd_undo p) (m_tasks m)"
    "distinct (map tr_taskId (m_tasks m))" "inj_on prop_key (tr_taskId ` set (m_tasks m))"
    "\<And>v. zd_task p = Some v \<Longrightarrow> vm_id v \<in> tr_taskId ` set (m_tasks m)"
    "\<And>v s. zd_task p = Some v \<Longrightarrow> zd_undo p = Some s \<Longrightarrow> vm_id v \<noteq> tr_taskId s"
    by (simp_all add: zombie_matches_def Let_def mock_pend)
  note left = mset_without [OF z(1)] and delayed = mset_snoozed [OF z(1)]
  show ?thesis
  proof (cases e)
    case (ZE_card v)
    then have "vm_id v \<in> tr_taskId ` set (th_tasks (zd_hook p))" using assms(2) by simp
    from on_page_in_mock [OF assms(1) this] assms(1) ZE_card show ?thesis
      by (auto simp: zombie_matches_def Let_def onCardClick_def)
  next
    case (ZE_check i)
    then have on: "i \<in> tr_taskId ` set (th_tasks (zd_hook p))" using assms(2) by simp
    note i = on_page_in_mock [OF assms(1) on]
    have "zombie_matches (accept_change (L_complete i) p, change_mock (L_complete i) m)"
      by (rule zombie_change [OF assms(1), where i = i and a = MA_COMPLETE])
         (use i z left pend_left [of S_COMPLETED i] in
          \<open>simp_all add: accepted_list completeTask_list_def effect_status undo_ok_update\<close>)
    with ZE_check show ?thesis by simp
  next
    case ZE_archive
    show ?thesis
    proof (cases "zd_task p")
      case None
      with ZE_archive assms(1) show ?thesis by simp
    next
      case (Some v)
      let ?i = "vm_id v" and ?h = "archiveTask_handed (vm_id v) (th_tasks (zd_hook p))"
      define p' where "p' = (accept_change (L_archive ?i) p)\<lparr>zd_task := None\<rparr>"
      define q where "q = (if offers_undo then p'\<lparr>zd_undo := ?h\<rparr> else p')"
      have q: "zd_task q = None" "th_tasks (zd_hook q) = without_task ?i (th_tasks (zd_hook p))"
        "zd_undo q = (if offers_undo then ?h else zd_undo p)"
        by (simp_all add: q_def p'_def accepted_list archiveTask_list_def)
      have "undo_ok ?h (update_where (\<lambda>t. tr_taskId t = ?i) (\<lambda>t. t\<lparr>tr_status := S_ARCHIVED\<rparr>) (m_tasks m))"
        using handed_undo [OF z(1), of ?i] by (cases ?h) (auto simp: undo_ok_def)
      moreover have "undo_ok (zd_undo p) (update_where (\<lambda>t. tr_taskId t = ?i) f (m_tasks m))" for f
        using z(2) z(6) [OF Some] by (intro undo_ok_update) auto
      ultimately have "zombie_matches (q, change_mock (L_archive ?i) m)"
        by (intro zombie_change [OF assms(1), where i = ?i and a = MA_ARCHIVE])
           (use q z(5) [OF Some] left pend_left [of S_ARCHIVED ?i] in \<open>simp_all add: effect_status\<close>)
      with ZE_archive Some show ?thesis by (cases offers_undo) (simp_all add: Let_def q_def p'_def)
    qed
  next
    case ZE_keep
    show ?thesis
    proof (cases "zd_task p")
      case None
      with ZE_keep assms(1) show ?thesis by simp
    next
      case (Some v)
      let ?i = "vm_id v"
      have "undo_ok (zd_undo p) (update_where (\<lambda>t. tr_taskId t = ?i) f (m_tasks m))" for f
        using z(2) z(6) [OF Some] by (intro undo_ok_update) auto
      then have "zombie_matches ((accept_change (L_snooze ?i) p)\<lparr>zd_task := None\<rparr>, change_mock (L_snooze ?i) m)"
        by (intro zombie_change [OF assms(1), where i = ?i and a = MA_SNOOZE])
           (use z(5) [OF Some] delayed pend_delayed [of ?i] in \<open>simp_all add: effect_status accepted_list\<close>)
      with ZE_keep Some show ?thesis by simp
    qed
  next
    case ZE_undo
    show ?thesis
    proof (cases "zd_undo p")
      case None
      with ZE_undo assms(1) show ?thesis by simp
    next
      case (Some s)
      from z(2) Some obtain t where t: "t \<in> set (m_tasks m)" "tr_status t \<noteq> S_PENDING" "s = clone (t\<lparr>tr_status := S_PENDING\<rparr>)"
        by (auto simp: undo_ok_def)
      then have st: "tr_taskId s = tr_taskId t" "s\<lparr>tr_status := S_PENDING\<rparr> = s" by (simp_all add: clone_def)
      define q where "q = p\<lparr>zd_hook := restoreTask_hook (Some s) (zd_hook p), zd_undo := None\<rparr>"
      have "tr_taskId s \<notin> tr_taskId ` set (th_tasks (zd_hook p))"
        using undo_off_page [OF z(1,3), of s] z(2) Some by simp
      then have "\<not> (\<exists>x \<in> set (th_tasks (zd_hook p)). tr_taskId x = tr_taskId s)" by (metis imageI)
      then have q: "th_tasks (zd_hook q) = th_tasks (zd_hook p) @ [s]" "zd_undo q = None" "zd_task q = zd_task p"
        by (simp_all add: q_def restoreTask_hook_def st)
      have "zombie_matches (q, fst (mock_updateTaskStatus m (tr_taskId s) MA_RESTORE))"
        by (rule zombie_change [OF assms(1), where i = "tr_taskId t" and a = MA_RESTORE])
           (use t q st z(1) pend_back [OF t(1) z(3) t(2)] in \<open>simp_all add: effect_status undo_ok_def\<close>)
      with ZE_undo Some show ?thesis by (simp add: q_def)
    qed
  qed (use assms(1) in \<open>auto simp: zombie_matches_def Let_def undo_ok_def\<close>)
qed

interpretation putting_off: stepwise "\<lambda>pm. zombie_event_ok (fst pm)" "zombie_step u" zombie_matches for u
proof
  show "zombie_matches (zombie_step u pm e)" if "zombie_matches pm" "zombie_event_ok (fst pm) e" for pm e
    using that zombie_step_matches [of "fst pm" "snd pm" e u] by simp
qed

subsection \<open>Properties\<close>


definition seed_zombie_page :: zombie_page where
  "seed_zombie_page = \<lparr>zd_hook = useTasks\<lparr>th_tasks := mock_getAllPending (mock_initial 0)\<rparr>, zd_task = None, zd_undo = None\<rparr>"


text \<open>
  The keyboard stays in the dialogue: with Tab and Shift+Tab from one of its buttons the focus is
  always on one of its buttons.
\<close>

theorem focus_stays_in_dialogue:
  "k < n \<Longrightarrow> \<exists>k' < n. foldl (\<lambda>f s. case f of None \<Rightarrow> None | Some j \<Rightarrow> trap_tab n s j) (Some k) ss = Some k'"
proof (induction ss arbitrary: k)
  case (Cons s ss)
  have "\<exists>j < n. trap_tab n s k = Some j"
    using Cons.prems by (simp add: trap_tab_def) linarith
  then obtain j where "trap_tab n s k = Some j" "j < n" by blast
  with Cons.IH [of j] show ?case by simp
qed simp

text \<open>
  Closing one dialogue frees the page behind another: with two open the first to close takes the lock
  of the other away.
\<close>

theorem closing_unlocks_other_dialogue:
  assumes "d \<noteq> d'"
  shows "foldl lock_step ([], False) [Dialog_opens d, Dialog_opens d', Dialog_closes d'] = ([d], False)"
  using assms by simp

end
