(* ===== verification/Screen.thy ===== *)
theory Screen
  imports Prelude Js_Values
begin

text \<open>
  What a component shows, as far as its user can act on it: a list of widgets, each with its text, its
  state and the event its handler stands for.  An input yields a family of events, given by the function
  which reads the entered value off an event.  A text is the \<open>aria-label\<close> where the source gives one, else what
  is written, without the blanks that separate it from an icon.  The markup around the widgets (class names,
  icons, animations) is not kept.
\<close>

datatype 'e widget =
    Caption ustring
  | Button ustring bool 'e
  | Switch ustring bool bool 'e
  | Slider ustring int int int "'e \<Rightarrow> int option"
  | Choice ustring int "(int \<times> ustring) list" "'e \<Rightarrow> int option"
  | Entry ustring ustring "nat option" "'e \<Rightarrow> ustring option"
  | Select ustring ustring "(ustring \<times> ustring) list" "'e \<Rightarrow> ustring option"
  | Numeric ustring js_num "'e \<Rightarrow> js_value_num option"

text \<open>
  A button or a switch offers its event when it is enabled; a slider every whole number of its range, a
  choice or a selection the value of one of its options, an entry every text up to its length, a number
  input every number (it hands over the empty text for anything else, which reads as 0).
\<close>

fun widget_offers :: "'e widget \<Rightarrow> 'e \<Rightarrow> bool" where
  "widget_offers (Caption t) e \<longleftrightarrow> False"
| "widget_offers (Button t enabled e') e \<longleftrightarrow> enabled \<and> e = e'"
| "widget_offers (Switch t on enabled e') e \<longleftrightarrow> enabled \<and> e = e'"
| "widget_offers (Slider t lo hi v f) e \<longleftrightarrow> (case f e of None \<Rightarrow> False | Some x \<Rightarrow> lo \<le> x \<and> x \<le> hi)"
| "widget_offers (Choice t v opts f) e \<longleftrightarrow> (case f e of None \<Rightarrow> False | Some x \<Rightarrow> x \<in> fst ` set opts)"
| "widget_offers (Entry t v n f) e \<longleftrightarrow> (case f e of None \<Rightarrow> False | Some s \<Rightarrow> (case n of None \<Rightarrow> True | Some k \<Rightarrow> length s \<le> k))"
| "widget_offers (Select t v opts f) e \<longleftrightarrow> (case f e of None \<Rightarrow> False | Some s \<Rightarrow> s \<in> fst ` set opts)"
| "widget_offers (Numeric t v f) e \<longleftrightarrow> (case f e of None \<Rightarrow> False | Some x \<Rightarrow> x \<noteq> JNaN)"

definition screen_offers :: "'e widget list \<Rightarrow> 'e \<Rightarrow> bool" where
  "screen_offers ws e \<longleftrightarrow> list_ex (\<lambda>w. widget_offers w e) ws"

definition screen_when :: "bool \<Rightarrow> 'e widget list \<Rightarrow> 'e widget list" where
  "screen_when c ws = (if c then ws else [])"

lemma screen_offers_simps [simp]:
  "\<not> screen_offers [] e"
  "screen_offers (w # ws) e \<longleftrightarrow> widget_offers w e \<or> screen_offers ws e"
  "screen_offers (xs @ ys) e \<longleftrightarrow> screen_offers xs e \<or> screen_offers ys e"
  "screen_offers (screen_when c ws) e \<longleftrightarrow> c \<and> screen_offers ws e"
  by (auto simp: screen_offers_def screen_when_def)

lemma screen_offers_map: "screen_offers (map f xs) e \<longleftrightarrow> (\<exists>x \<in> set xs. widget_offers (f x) e)"
  by (induction xs) auto

lemma screen_offers_concat: "screen_offers (concat wss) e \<longleftrightarrow> (\<exists>ws \<in> set wss. screen_offers ws e)"
  by (induction wss) auto

end
