(* ===== verification/App_Chrome.thy ===== *)
theory App_Chrome
  imports App_Shell Page_Dialogs Screen
begin

text \<open>
  The frame around the pages as its user meets it: what \<open>Sidebar.jsx\<close>, \<open>TopBar.jsx\<close>, \<open>SettingsModal.jsx\<close>,
  \<open>HelpModal.jsx\<close>, \<open>CommandPalette.jsx\<close> and \<open>Toast.jsx\<close> show, and the whole component \<open>App.jsx\<close> as one
  step function over the handlers of \<open>App_Shell\<close>: presses, keys, messages of the daemon, changes of the
  system's colours, timeouts, and the effects that follow a change.
\<close>

subsection \<open>What is rendered\<close>

datatype chrome_control =
    CC_nav app_page | CC_add | CC_settings | CC_help | CC_scrim | CC_menu | CC_search ustring | CC_clap | CC_audio
  | CC_theme | CC_profile | CC_profile_settings | CC_profile_help | CC_theme_mode theme_mode | CC_notifications
  | CC_reset_weights | CC_close_settings | CC_close_help | CC_type ustring | CC_item nat | CC_close_palette
  | CC_toast_action | CC_toast_close

definition SIDE_NAV :: "(app_page \<times> ustring) list" where
  "SIDE_NAV = [(Page_today, [0xC624, 0xB298, 0xC758, 0x20, 0xC791, 0xC5C5]), (Page_important, [0xC911, 0xC694]), (Page_history, [0xAE30, 0xB85D])]"

definition sidebar_view :: "chrome_control widget list" where
  "sidebar_view =
     Caption (ascii ''SIGMA'') # Caption [0xC801, 0xC751, 0xD615, 0x20, 0xD560, 0x20, 0xC77C]
     # map (\<lambda>(p, label). Button label True (CC_nav p)) SIDE_NAV
     @ [Button [0xC0C8, 0x20, 0xC791, 0xC5C5, 0x20, 0xCD94, 0xAC00] True CC_add, Button [0xC124,
        0xC815] True CC_settings, Button [0xB3C4, 0xC6C0, 0xB9D0] True CC_help]"

text \<open>The entry of the sidebar that is marked as the current page; none on the archive.\<close>

definition sidebar_current :: "app_page \<Rightarrow> ustring option" where
  "sidebar_current page = lookup SIDE_NAV page"

fun read_search :: "chrome_control \<Rightarrow> ustring option" where
  "read_search (CC_search t) = Some t"
| "read_search _ = None"

definition topbar_view :: "bool \<Rightarrow> ustring \<Rightarrow> top_menu option \<Rightarrow> chrome_control widget list" where
  "topbar_view isDark typed menu =
     [Button [0xBA54, 0xB274, 0x20, 0xC5F4, 0xAE30] True CC_menu, Entry [0xC791, 0xC5C5, 0x20, 0xAC80, 0xC0C9] typed None read_search,
      Button [0xAC00, 0xC0C1, 0x20, 0xBC15, 0xC218, 0x20, 0xD14C, 0xC2A4,
         0xD2B8] True CC_clap, Button (ascii ''Audio Activation Settings'') True CC_audio,
      Button (if isDark then [0xB77C, 0xC774, 0xD2B8, 0x20, 0xBAA8, 0xB4DC, 0xB85C, 0x20, 0xC804,
         0xD658] else [0xB2E4, 0xD06C, 0x20, 0xBAA8, 0xB4DC, 0xB85C, 0x20, 0xC804, 0xD658]) True CC_theme,
      Button [0xD504, 0xB85C, 0xD544] True CC_profile]
     @ screen_when (menu = Some Menu_profile)
         [Caption [0xC0AC, 0xC6A9, 0xC790], Caption [0x53, 0x49, 0x47, 0x4D, 0x41, 0x20, 0xC6CC, 0xD06C, 0xC2A4,
            0xD398, 0xC774, 0xC2A4], Button [0xC124, 0xC815] True CC_profile_settings,
          Button [0xB3C4, 0xC6C0, 0xB9D0] True CC_profile_help]"

definition THEMES :: "(theme_mode \<times> ustring) list" where
  "THEMES = [(Theme_system, [0xC2DC, 0xC2A4, 0xD15C]), (Theme_light, [0xB77C, 0xC774, 0xD2B8]), (Theme_dark, [0xB2E4, 0xD06C])]"

definition WEIGHT_LABELS :: "((weights \<Rightarrow> js_num) \<times> ustring) list" where
  "WEIGHT_LABELS = [(w1, [0xC911, 0xC694, 0xB3C4]), (w2, [0xAE34, 0xAE09, 0xB3C4]), (w3, [0xC9C0, 0xC5F0])]"

definition weights_caption :: "weights option \<Rightarrow> ustring" where
  "weights_caption ws =
     (case ws of
        None \<Rightarrow> [0xD559, 0xC2B5, 0xB41C, 0x20, 0xAC00, 0xC911, 0xCE58, 0xB97C, 0x20, 0xBD88, 0xB7EC, 0xC624, 0xB294, 0x20, 0xC911, 0x2026]
      | Some w \<Rightarrow>
          (let parts = map (\<lambda>(get, label). label @ [0x20] @ ascii (weight_pct (Some (get w)))) WEIGHT_LABELS
           in hd parts @ concat (map (\<lambda>p. [0x20, 0xB7, 0x20] @ p) (tl parts))))"

definition settings_view :: "theme_mode \<Rightarrow> bool \<Rightarrow> weights_view \<Rightarrow> chrome_control widget list" where
  "settings_view mode notif v =
     Caption [0xC124, 0xC815] # Button [0xB2EB, 0xAE30] True CC_close_settings # Caption [0xD14C, 0xB9C8]
     # map (\<lambda>(t, label). Switch label (mode = t) True (CC_theme_mode t)) THEMES
     @ [Caption [0xC2DC, 0xC2A4, 0xD15C, 0xC740, 0x20, 0x4F, 0x53, 0x20, 0xC124, 0xC815, 0xC744, 0x20, 0xB530,
        0xB985, 0xB2C8, 0xB2E4, 0x2E], Caption [0xBBF8, 0xB904, 0xC9C4, 0x20, 0xC791, 0xC5C5, 0xB7, 0xB9C8, 0xAC10,
           0x20, 0xC784, 0xBC15, 0xC744, 0x20, 0xC54C, 0xB824, 0xC918, 0xC694, 0x2E],
        Switch [0xC54C, 0xB9BC, 0x20, 0xD45C, 0xC2DC] notif True CC_notifications, Caption [0xC6B0, 0xC120, 0xC21C,
           0xC704, 0x20, 0xAC00, 0xC911, 0xCE58], Caption (weights_caption (wv_weights v)),
        Button (if wv_resetting v then [0xCD08, 0xAE30, 0xD654, 0x20, 0xC911, 0x2026] else [0xAE30, 0xBCF8, 0xAC12,
           0xC73C, 0xB85C, 0x20, 0xCD08, 0xAE30, 0xD654])
          (\<not> (wv_resetting v \<or> wv_weights v = None)) CC_reset_weights]"

text \<open>
  \<open>utils/platform.js\<close>: the platform is recognised by its name, whose letters are compared without their
  case, and decides how a combination of keys is written.
\<close>

definition ascii_lower :: "nat \<Rightarrow> nat" where
  "ascii_lower c = (if 0x41 \<le> c \<and> c \<le> 0x5A then c + 0x20 else c)"

definition isMac :: "ustring \<Rightarrow> bool" where
  "isMac ua \<longleftrightarrow> list_ex (str_includes (map ascii_lower ua)) [ascii ''mac'', ascii ''iphone'', ascii ''ipad'', ascii ''ipod'']"

definition comboLabel :: "ustring \<Rightarrow> ustring \<Rightarrow> ustring" where
  "comboLabel ua key = (if isMac ua then [0x2318] @ key else ascii ''Ctrl+'' @ key)"

definition SHORTCUTS :: "ustring \<Rightarrow> (ustring list \<times> ustring) list" where
  "SHORTCUTS ua =
     [([comboLabel ua (ascii ''K'')], [0xBA85, 0xB839, 0x20, 0xD314, 0xB808, 0xD2B8, 0x20, 0x28, 0xAC80, 0xC0C9,
        0x20, 0xB7, 0x20, 0xC774, 0xB3D9, 0x20, 0xB7, 0x20, 0xCD94, 0xAC00, 0x29]), ([ascii ''N''], [0xC0C8, 0x20,
           0xC791, 0xC5C5, 0x20, 0xBC14, 0xB85C, 0x20, 0xCD94, 0xAC00]),
      ([[0x2191], [0x2193]], [0xD314, 0xB808, 0xD2B8, 0x20, 0xD56D, 0xBAA9, 0x20, 0xC774,
         0xB3D9]), ([ascii ''Enter''], [0xC120, 0xD0DD, 0x20, 0xB7, 0x20, 0xCD94, 0xAC00, 0x20, 0xD655,
            0xC815]), ([ascii ''Esc''], [0xCC3D, 0x20, 0xB2EB, 0xAE30])]"

definition GUIDE :: "(ustring \<times> ustring) list" where
  "GUIDE =
     [([0xBA85, 0xB839, 0x20, 0xD314, 0xB808, 0xD2B8], [0x2318, 0x4B, 0xB85C, 0x20, 0xBAA8, 0xB4E0, 0x20, 0xC791,
        0xC5C5, 0xC744, 0x20, 0xAC80, 0xC0C9, 0xD558, 0xACE0, 0x2C, 0x20, 0xC5B4, 0xB514, 0xB85C, 0xB4E0, 0x20,
           0xC774, 0xB3D9, 0xD558, 0xAC70, 0xB098, 0x20, 0xC0C8, 0x20, 0xC791, 0xC5C5, 0xC744, 0x20, 0xCD94, 0xAC00, 0xD569, 0xB2C8, 0xB2E4, 0x2E]),
      ([0xC801, 0xC751, 0xD615, 0x20, 0xC6B0, 0xC120, 0xC21C, 0xC704], [0xAC00, 0xC6A9, 0x20, 0xC2DC, 0xAC04, 0xB7,
         0xC5D0, 0xB108, 0xC9C0, 0xB97C, 0x20, 0xC124, 0xC815, 0xD558, 0xBA74, 0x20, 0xC9C0, 0xAE08, 0x20, 0xD560,
            0x20, 0xC218, 0x20, 0xC788, 0xB294, 0x20, 0xC791, 0xC5C5, 0xC774, 0x20, 0xC704, 0xB85C, 0x20, 0xC62C,
               0xB77C, 0xC635, 0xB2C8, 0xB2E4, 0x2E]),
      ([0xC880, 0xBE44, 0x20, 0xC791, 0xC5C5], [0x35, 0xBC88, 0x20, 0xC774, 0xC0C1, 0x20, 0xBBF8, 0xB904, 0xC9C4,
         0x20, 0xC791, 0xC5C5, 0xC740, 0x20, 0xBE68, 0xAC1B, 0xAC8C, 0x20, 0xAC15, 0xC870, 0xB418, 0xACE0, 0x2C,
            0x20, 0xBCF4, 0xAD00, 0xD560, 0xC9C0, 0x20, 0xBB3C, 0xC5B4, 0xBD05, 0xB2C8, 0xB2E4, 0x2E]),
      ([0xBCF4, 0xAE30, 0x20, 0xB7, 0x20, 0xC815, 0xB82C], [0xD5E4, 0xB354, 0xC758, 0x20, 0x25A6, 0x20, 0xC544,
         0xC774, 0xCF58, 0xC73C, 0xB85C, 0x20, 0xCE74, 0xB4DC, 0x2F, 0xC904, 0x20, 0xBCF4, 0xAE30, 0xB97C, 0x2C,
            0x20, 0x2195, 0x20, 0xC544, 0xC774, 0xCF58, 0xC73C, 0xB85C, 0x20, 0xC815, 0xB82C, 0xC744, 0x20, 0xBC14, 0xAFC9, 0xB2C8, 0xB2E4, 0x2E])]"

definition help_view :: "ustring \<Rightarrow> chrome_control widget list" where
  "help_view ua =
     Caption [0xB3C4, 0xC6C0, 0xB9D0] # Button [0xB2EB, 0xAE30] True CC_close_help # Caption [0xD0A4, 0xBCF4, 0xB4DC, 0x20, 0xB2E8, 0xCD95, 0xD0A4]
     # concat (map (\<lambda>(keys, desc). Caption desc # map Caption keys) (SHORTCUTS ua))
     @ Caption [0xAE30, 0xB2A5, 0x20, 0xC548,
        0xB0B4] # concat (map (\<lambda>(t, d). [Caption t, Caption d]) GUIDE) @ [Caption [0x53, 0x49, 0x47, 0x4D,
           0x41, 0x20, 0xB7, 0x20, 0x76, 0x30, 0x2E, 0x31, 0x2E, 0x30]]"

fun read_query :: "chrome_control \<Rightarrow> ustring option" where
  "read_query (CC_type t) = Some t"
| "read_query _ = None"

fun item_label :: "palette_item \<Rightarrow> ustring" where
  "item_label (PI_create l) = [0x2018] @ l @ [0x2019, 0x20, 0xC0C8, 0x20, 0xC791, 0xC5C5, 0xC73C, 0xB85C, 0x20, 0xCD94, 0xAC00]"
| "item_label (PI_nav p) = or_default (lookup NAV_ITEMS p) []"
| "item_label (PI_task t) = pl_title t"

definition palette_view :: "(ustring \<Rightarrow> ustring) \<Rightarrow> palette \<Rightarrow> chrome_control widget list" where
  "palette_view lower p =
     (let items = palette_items lower (pa_query p) (pa_tasks p) in
      Entry [0xBA85, 0xB839, 0x20, 0xAC80, 0xC0C9] (pa_query p) None read_query
      # (if items = [] then [Caption [0xAC80, 0xC0C9, 0x20, 0xACB0, 0xACFC, 0xAC00, 0x20, 0xC5C6, 0xC5B4, 0xC694, 0x2E]]
         else map (\<lambda>i. Button (item_label (items ! i)) True (CC_item i)) [0..<length items]))"

text \<open>The toast: its message, its action when it has one, and the cross.\<close>

definition toast_view :: "app_toast option \<Rightarrow> chrome_control widget list" where
  "toast_view t =
     (case t of
        None \<Rightarrow> []
      | Some x \<Rightarrow>
          Caption (apt_message x)
          # (case apt_actionLabel x of None \<Rightarrow> [] | Some l \<Rightarrow> screen_when (l \<noteq> []) [Button l True CC_toast_action])
          @ [Button [0xC54C, 0xB9BC, 0x20, 0xB2EB, 0xAE30] True CC_toast_close])"

subsection \<open>The component\<close>

text \<open>
  \<open>ch_typed\<close> is the text in the search box, which is not controlled by \<open>search\<close>; \<open>ch_loading\<close> says that
  the weights asked for at the last opening of the settings are still awaited, \<open>ch_resetOut\<close> the same of
  the reset.  \<open>ch_crashed\<close>: an effect has thrown, and React has taken the whole page down.
\<close>

record chrome =
  ch_shell :: app_shell
  ch_settingsOpen :: bool
  ch_helpOpen :: bool
  ch_menu :: "top_menu option"
  ch_typed :: ustring
  ch_systemDark :: bool
  ch_palette :: palette
  ch_weights :: weights_view
  ch_loading :: bool
  ch_resetOut :: bool
  ch_crashed :: bool

definition chrome_view :: "(ustring \<Rightarrow> ustring) \<Rightarrow> ustring \<Rightarrow> chrome \<Rightarrow> chrome_control widget list" where
  "chrome_view lower ua c =
     (let a = ch_shell c in
      sidebar_view @ screen_when (ap_drawerOpen a) [Button [] True CC_scrim]
      @ topbar_view (ap_isDark a) (ch_typed c) (ch_menu c)
      @ screen_when (ch_settingsOpen c) (settings_view (ap_themeMode a) (ap_notifications a) (ch_weights c))
      @ screen_when (ch_helpOpen c) (help_view ua)
      @ screen_when (ap_paletteOpen a) (palette_view lower (ch_palette c) @ [Button [] True CC_close_palette])
      @ toast_view (ap_toast a))"

text \<open>The effects of a render: the theme and the switch are written when they have changed.\<close>

definition run_effect :: "(app_shell \<Rightarrow> app_shell option) \<Rightarrow> chrome \<Rightarrow> chrome" where
  "run_effect f c = (case f (ch_shell c) of None \<Rightarrow> c\<lparr>ch_crashed := True\<rparr> | Some a \<Rightarrow> c\<lparr>ch_shell := a\<rparr>)"

definition shell_effects :: "chrome \<Rightarrow> chrome \<Rightarrow> chrome" where
  "shell_effects old c =
     (let c1 = (if ap_themeMode (ch_shell old) = ap_themeMode (ch_shell c) then c
                else run_effect (theme_effect (ch_systemDark c)) c)
      in if ap_notifications (ch_shell old) = ap_notifications (ch_shell c1) then c1 else run_effect notif_effect c1)"

abbreviation on_shell :: "(app_shell \<Rightarrow> app_shell) \<Rightarrow> chrome \<Rightarrow> chrome" where
  "on_shell f c \<equiv> c\<lparr>ch_shell := f (ch_shell c)\<rparr>"

definition open_settings :: "chrome \<Rightarrow> chrome" where
  "open_settings c =
     (if ch_settingsOpen c then c
      else c\<lparr>ch_settingsOpen := True, ch_weights := (ch_weights c)\<lparr>wv_weights := None\<rparr>, ch_loading := True\<rparr>)"

definition show_palette :: "chrome \<Rightarrow> chrome \<Rightarrow> chrome" where
  "show_palette old c =
     (if ap_paletteOpen (ch_shell c) \<and> \<not> ap_paletteOpen (ch_shell old) then c\<lparr>ch_palette := open_palette (ch_palette c)\<rparr> else c)"

text \<open>
  The handlers.  The drawer's button in the top bar toggles; a toast's action is the caller's.  The sidebar
  hands the event of its click to \<open>requestCompose\<close>, as the title; the dialogue never takes a title over
  (\<open>composed_title_is_lost\<close>), so the empty text stands for it.
\<close>

fun press_chrome :: "(ustring \<Rightarrow> ustring) \<Rightarrow> chrome_control \<Rightarrow> chrome \<Rightarrow> chrome" where
  "press_chrome lower (CC_nav p) c = on_shell (navigate p) c"
| "press_chrome lower CC_add c = on_shell (requestCompose []) c"
| "press_chrome lower CC_settings c = open_settings c"
| "press_chrome lower CC_help c = c\<lparr>ch_helpOpen := True\<rparr>"
| "press_chrome lower CC_scrim c = on_shell (\<lambda>a. a\<lparr>ap_drawerOpen := False\<rparr>) c"
| "press_chrome lower CC_menu c = on_shell (\<lambda>a. a\<lparr>ap_drawerOpen := \<not> ap_drawerOpen a\<rparr>) c"
| "press_chrome lower (CC_search t) c = on_shell (\<lambda>a. a\<lparr>ap_search := t\<rparr>) (c\<lparr>ch_typed := t\<rparr>)"
| "press_chrome lower CC_clap c = on_shell (\<lambda>a. a\<lparr>ap_voiceOpen := True\<rparr>) c"
| "press_chrome lower CC_audio c = on_shell (\<lambda>a. a\<lparr>ap_audioOpen := True\<rparr>) c"
| "press_chrome lower CC_theme c = on_shell toggle_theme c"
| "press_chrome lower CC_profile c = c\<lparr>ch_menu := toggle_menu Menu_profile (ch_menu c)\<rparr>"
| "press_chrome lower CC_profile_settings c = open_settings (c\<lparr>ch_menu := None\<rparr>)"
| "press_chrome lower CC_profile_help c = c\<lparr>ch_menu := None, ch_helpOpen := True\<rparr>"
| "press_chrome lower (CC_theme_mode t) c = on_shell (\<lambda>a. a\<lparr>ap_themeMode := t\<rparr>) c"
| "press_chrome lower CC_notifications c = on_shell (\<lambda>a. a\<lparr>ap_notifications := \<not> ap_notifications a\<rparr>) c"
| "press_chrome lower CC_reset_weights c = c\<lparr>ch_weights := (ch_weights c)\<lparr>wv_resetting := True\<rparr>, ch_resetOut := True\<rparr>"
| "press_chrome lower CC_close_settings c = c\<lparr>ch_settingsOpen := False, ch_loading := False\<rparr>"
| "press_chrome lower CC_close_help c = c\<lparr>ch_helpOpen := False\<rparr>"
| "press_chrome lower (CC_type t) c = c\<lparr>ch_palette := palette_step lower (ch_palette c) (Pal_type t)\<rparr>"
| "press_chrome lower (CC_item i) c =
     (let items = palette_items lower (pa_query (ch_palette c)) (pa_tasks (ch_palette c))
      in on_shell (activate (if i < length items then Some (items ! i) else None)) c)"
| "press_chrome lower CC_close_palette c = on_shell (\<lambda>a. a\<lparr>ap_paletteOpen := False\<rparr>) c"
| "press_chrome lower CC_toast_action c = on_shell close_toast c"
| "press_chrome lower CC_toast_close c = on_shell close_toast c"

datatype chrome_event =
    CE_press chrome_control | CE_key bool string string bool | CE_palette palette_event | CE_enter
  | CE_trigger "trigger_payload option" | CE_system bool | CE_toast ustring "ustring option" | CE_timeout
  | CE_outside bool string | CE_to_task js_id | CE_composed | CE_close_audio | CE_close_voice
  | CE_weights "weights answer" | CE_reset "weights answer"

definition reset_answered :: "int \<Rightarrow> weights answer \<Rightarrow> chrome \<Rightarrow> chrome" where
  "reset_answered now reply c =
     (let v = handleResetWeights reply (ch_weights c);
          c' = c\<lparr>ch_weights := v\<lparr>wv_toast := None\<rparr>, ch_resetOut := False\<rparr>
      in case wv_toast v of None \<Rightarrow> c' | Some m \<Rightarrow> on_shell (showToast now m None) c')"

fun chrome_handle :: "(ustring \<Rightarrow> ustring) \<Rightarrow> chrome \<Rightarrow> int \<times> chrome_event \<Rightarrow> chrome" where
  "chrome_handle lower c (now, CE_press x) = press_chrome lower x c"
| "chrome_handle lower c (now, CE_key m code key typing) = on_shell (app_keydown m code key typing) c"
| "chrome_handle lower c (now, CE_palette e) = c\<lparr>ch_palette := palette_step lower (ch_palette c) e\<rparr>"
| "chrome_handle lower c (now, CE_enter) = on_shell (activate (palette_selected lower (ch_palette c))) c"
| "chrome_handle lower c (now, CE_trigger p) = on_shell (onTrigger now p) c"
| "chrome_handle lower c (now, CE_system dark) = on_shell (system_change dark) (c\<lparr>ch_systemDark := dark\<rparr>)"
| "chrome_handle lower c (now, CE_toast m l) = on_shell (showToast now m l) c"
| "chrome_handle lower c (now, CE_timeout) = on_shell (toast_timeout now) c"
| "chrome_handle lower c (now, CE_outside out key) = c\<lparr>ch_menu := menu_listeners out key (ch_menu c)\<rparr>"
| "chrome_handle lower c (now, CE_to_task i) = on_shell (navigateToTask i) c"
| "chrome_handle lower c (now, CE_composed) = on_shell (\<lambda>a. a\<lparr>ap_compose := None\<rparr>) c"
| "chrome_handle lower c (now, CE_close_audio) = on_shell (\<lambda>a. a\<lparr>ap_audioOpen := False\<rparr>) c"
| "chrome_handle lower c (now, CE_close_voice) = on_shell (\<lambda>a. a\<lparr>ap_voiceOpen := False\<rparr>) c"
| "chrome_handle lower c (now, CE_weights reply) =
     (if ch_loading c then c\<lparr>ch_weights := load_weights reply (ch_weights c), ch_loading := False\<rparr> else c)"
| "chrome_handle lower c (now, CE_reset reply) = (if ch_resetOut c then reset_answered now reply c else c)"

definition chrome_step :: "(ustring \<Rightarrow> ustring) \<Rightarrow> chrome \<Rightarrow> int \<times> chrome_event \<Rightarrow> chrome" where
  "chrome_step lower c e = shell_effects c (show_palette c (chrome_handle lower c e))"

fun chrome_offers :: "(ustring \<Rightarrow> ustring) \<Rightarrow> ustring \<Rightarrow> chrome \<Rightarrow> int \<times> chrome_event \<Rightarrow> bool" where
  "chrome_offers lower keys c (now, CE_press x) \<longleftrightarrow> \<not> ch_crashed c \<and> screen_offers (chrome_view lower keys c) x"
| "chrome_offers lower keys c (now, CE_palette e) \<longleftrightarrow> \<not> ch_crashed c \<and> ap_paletteOpen (ch_shell c)"
| "chrome_offers lower keys c (now, CE_enter) \<longleftrightarrow> \<not> ch_crashed c \<and> ap_paletteOpen (ch_shell c)"
| "chrome_offers lower keys c (now, e) \<longleftrightarrow> \<not> ch_crashed c"

text \<open>Loading the page: the two settings are read, then all effects run.\<close>

definition read_theme :: "ustring \<Rightarrow> theme_mode option" where
  "read_theme t = lookup (map (\<lambda>m. (theme_text m, m)) [Theme_system, Theme_light, Theme_dark]) t"

definition blank_shell :: "theme_mode \<Rightarrow> bool \<Rightarrow> local_storage \<Rightarrow> app_shell" where
  "blank_shell mode notif s =
     \<lparr>ap_page = Page_today, ap_drawerOpen = False, ap_compose = None, ap_paletteOpen = False, ap_themeMode = mode,
      ap_isDark = False, ap_notifications = notif, ap_audioOpen = False, ap_voiceOpen = False, ap_toast = None,
      ap_toastTimer = None, ap_search = [], ap_scrollTaskId = None, ap_storage = s\<rparr>"

definition blank_chrome :: "app_shell \<Rightarrow> bool \<Rightarrow> chrome" where
  "blank_chrome a systemDark =
     \<lparr>ch_shell = a, ch_settingsOpen = False, ch_helpOpen = False, ch_menu = None, ch_typed = [], ch_systemDark = systemDark,
      ch_palette = new_palette, ch_weights = \<lparr>wv_weights = None, wv_resetting = False, wv_toast = None\<rparr>,
      ch_loading = False, ch_resetOut = False, ch_crashed = False\<rparr>"

definition load_app :: "local_storage \<Rightarrow> bool \<Rightarrow> chrome option" where
  "load_app s systemDark =
     (case (initial_theme s, initial_notifications s) of
        (Some t, Some notif) \<Rightarrow>
          (case read_theme t of
             None \<Rightarrow> None
           | Some mode \<Rightarrow>
               Some (run_effect notif_effect (run_effect (theme_effect systemDark)
                       (blank_chrome (blank_shell mode notif s) systemDark))))
      | _ \<Rightarrow> None)"

definition app_run :: "(ustring \<Rightarrow> ustring) \<Rightarrow> ustring \<Rightarrow> chrome \<Rightarrow> (int \<times> chrome_event) list \<Rightarrow> chrome option" where
  "app_run lower keys = guarded_run (chrome_offers lower keys) (chrome_step lower)"

subsection \<open>Invariants\<close>

text \<open>What the handlers of the frame leave alone: the settings with their storage, and the toast.\<close>

abbreviation shell_settings :: "app_shell \<Rightarrow> theme_mode \<times> bool \<times> bool \<times> local_storage" where
  "shell_settings a \<equiv> (ap_themeMode a, ap_isDark a, ap_notifications a, ap_storage a)"

abbreviation shell_toast :: "app_shell \<Rightarrow> app_toast option \<times> int option" where
  "shell_toast a \<equiv> (ap_toast a, ap_toastTimer a)"

lemma shell_kept [conserve]:
  "shell_settings (navigate p a) = shell_settings a" "shell_toast (navigate p a) = shell_toast a"
  "shell_settings (requestCompose t a) = shell_settings a" "shell_toast (requestCompose t a) = shell_toast a"
  "shell_settings (activate it a) = shell_settings a" "shell_toast (activate it a) = shell_toast a"
  "shell_settings (app_keydown m code key ty a) = shell_settings a" "shell_toast (app_keydown m code key ty a) = shell_toast a"
  "shell_settings (navigateToTask i a) = shell_settings a" "shell_toast (navigateToTask i a) = shell_toast a"
  "shell_settings (close_toast a) = shell_settings a" "shell_settings (toast_timeout now a) = shell_settings a"
  "shell_settings (showToast now txt l a) = shell_settings a" "shell_settings (onTrigger now pl a) = shell_settings a"
  by (auto simp: navigate_def requestCompose_def activate_def app_keydown_def navigateToTask_def close_toast_def
      toast_timeout_def showToast_def onTrigger_def Let_def split: option.splits palette_item.splits)

definition dark_for :: "theme_mode \<Rightarrow> bool \<Rightarrow> bool" where
  "dark_for mode systemDark \<longleftrightarrow> mode = Theme_dark \<or> mode = Theme_system \<and> systemDark"

definition theme_stored :: "bool \<Rightarrow> app_shell \<Rightarrow> bool" where
  "theme_stored systemDark a \<longleftrightarrow> ap_isDark a = dark_for (ap_themeMode a) systemDark
     \<and> lookup (ls_items (ap_storage a)) ''sigma-theme'' = Some (theme_text (ap_themeMode a))"

definition notif_stored :: "app_shell \<Rightarrow> bool" where
  "notif_stored a \<longleftrightarrow> lookup (ls_items (ap_storage a)) ''sigma-notif'' = Some (ascii (if ap_notifications a then ''on'' else ''off''))"

definition toast_timed :: "app_shell \<Rightarrow> bool" where
  "toast_timed a \<longleftrightarrow> (\<forall>t. ap_toast a = Some t \<longrightarrow> ap_toastTimer a = Some (apt_id t + 5000))"

definition storage_usable :: "app_shell \<Rightarrow> bool" where
  "storage_usable a \<longleftrightarrow> ls_readable (ap_storage a) \<and> ls_writable (ap_storage a)"

definition chrome_ok :: "chrome \<Rightarrow> bool" where
  "chrome_ok c \<longleftrightarrow> \<not> ch_crashed c \<and> storage_usable (ch_shell c) \<and> theme_stored (ch_systemDark c) (ch_shell c)
     \<and> notif_stored (ch_shell c) \<and> toast_timed (ch_shell c) \<and> wv_resetting (ch_weights c) = ch_resetOut c
     \<and> (ch_loading c \<longrightarrow> ch_settingsOpen c)"

text \<open>Before the effects: what has changed need not be stored yet.\<close>

definition chrome_pre :: "chrome \<Rightarrow> chrome \<Rightarrow> bool" where
  "chrome_pre old c \<longleftrightarrow> \<not> ch_crashed c \<and> storage_usable (ch_shell c)
     \<and> (ap_themeMode (ch_shell old) = ap_themeMode (ch_shell c) \<longrightarrow> theme_stored (ch_systemDark c) (ch_shell c))
     \<and> (ap_notifications (ch_shell old) = ap_notifications (ch_shell c) \<longrightarrow> notif_stored (ch_shell c))
     \<and> toast_timed (ch_shell c) \<and> wv_resetting (ch_weights c) = ch_resetOut c \<and> (ch_loading c \<longrightarrow> ch_settingsOpen c)"

lemma theme_effect_run:
  "storage_usable (ch_shell c) \<Longrightarrow>
   run_effect (theme_effect d) c
     = c\<lparr>ch_shell := (ch_shell c)\<lparr>ap_storage := (ap_storage (ch_shell c))\<lparr>ls_items :=
            store ''sigma-theme'' (theme_text (ap_themeMode (ch_shell c))) (ls_items (ap_storage (ch_shell c)))\<rparr>,
          ap_isDark := dark_for (ap_themeMode (ch_shell c)) d\<rparr>\<rparr>"
  by (simp add: run_effect_def theme_effect_def setItem_def storage_usable_def dark_for_def)

lemma notif_effect_run:
  "storage_usable (ch_shell c) \<Longrightarrow>
   run_effect notif_effect c
     = c\<lparr>ch_shell := (ch_shell c)\<lparr>ap_storage := (ap_storage (ch_shell c))\<lparr>ls_items :=
            store ''sigma-notif'' (ascii (if ap_notifications (ch_shell c) then ''on'' else ''off''))
              (ls_items (ap_storage (ch_shell c)))\<rparr>\<rparr>\<rparr>"
  by (simp add: run_effect_def notif_effect_def setItem_def storage_usable_def)

lemmas stored_defs = theme_stored_def notif_stored_def toast_timed_def storage_usable_def

lemma shell_effects_ok: "chrome_pre old c \<Longrightarrow> chrome_ok (shell_effects old c)"
proof -
  assume p: "chrome_pre old c"
  define c1 where "c1 = (if ap_themeMode (ch_shell old) = ap_themeMode (ch_shell c) then c
      else run_effect (theme_effect (ch_systemDark c)) c)"
  have u: "storage_usable (ch_shell c)" using p by (simp add: chrome_pre_def)
  have c1: "\<not> ch_crashed c1" "storage_usable (ch_shell c1)" "theme_stored (ch_systemDark c1) (ch_shell c1)"
    "ap_notifications (ch_shell c1) = ap_notifications (ch_shell c)"
    "ap_notifications (ch_shell old) = ap_notifications (ch_shell c) \<longrightarrow> notif_stored (ch_shell c1)"
    "toast_timed (ch_shell c1)" "wv_resetting (ch_weights c1) = ch_resetOut c1" "ch_loading c1 \<longrightarrow> ch_settingsOpen c1"
    using p theme_effect_run [OF u, of "ch_systemDark c"] by (auto simp: c1_def chrome_pre_def stored_defs)
  have "shell_effects old c = (if ap_notifications (ch_shell old) = ap_notifications (ch_shell c) then c1 else run_effect notif_effect c1)"
    using c1(4) by (simp add: shell_effects_def c1_def Let_def)
  then show ?thesis using c1 notif_effect_run [OF c1(2)] by (auto simp: chrome_ok_def stored_defs)
qed

lemma pre_same:
  assumes "chrome_ok c" "shell_settings (ch_shell c') = shell_settings (ch_shell c)" "toast_timed (ch_shell c')"
    "ch_systemDark c' = ch_systemDark c" "ch_crashed c' = ch_crashed c"
    "wv_resetting (ch_weights c') = ch_resetOut c'" "ch_loading c' \<longrightarrow> ch_settingsOpen c'"
  shows "chrome_pre c c'"
  using assms by (simp add: chrome_ok_def chrome_pre_def stored_defs)

lemma timed_same: "toast_timed a \<Longrightarrow> shell_toast a' = shell_toast a \<Longrightarrow> toast_timed a'"
  by (simp add: toast_timed_def)

lemma timed_simps [simp]:
  "toast_timed (showToast now txt l a)" "toast_timed (close_toast a)"
  "toast_timed a \<Longrightarrow> toast_timed (toast_timeout now a)" "toast_timed a \<Longrightarrow> toast_timed (onTrigger now pl a)"
  by (auto simp: toast_timed_def showToast_def close_toast_def toast_timeout_def onTrigger_def Let_def split: option.splits)

lemma chrome_okD:
  "chrome_ok c \<Longrightarrow> toast_timed (ch_shell c)" "chrome_ok c \<Longrightarrow> wv_resetting (ch_weights c) = ch_resetOut c"
  "chrome_ok c \<Longrightarrow> ch_loading c \<longrightarrow> ch_settingsOpen c"
  by (simp_all add: chrome_ok_def)

text \<open>A handler of the shell that leaves the settings alone; a handler that leaves the shell alone.\<close>

lemma pre_shell:
  assumes "chrome_ok c" "shell_settings (f (ch_shell c)) = shell_settings (ch_shell c)" "toast_timed (f (ch_shell c))"
    "ch_shell c' = f (ch_shell c)" "ch_systemDark c' = ch_systemDark c" "ch_crashed c' = ch_crashed c"
    "ch_weights c' = ch_weights c" "ch_resetOut c' = ch_resetOut c" "ch_loading c' = ch_loading c" "ch_settingsOpen c' = ch_settingsOpen c"
  shows "chrome_pre c c'"
  using assms by (intro pre_same) (simp_all add: chrome_ok_def)

lemma pre_frame:
  assumes "chrome_ok c" "ch_shell c' = ch_shell c" "ch_systemDark c' = ch_systemDark c" "ch_crashed c' = ch_crashed c"
    "wv_resetting (ch_weights c') = ch_resetOut c'" "ch_loading c' \<longrightarrow> ch_settingsOpen c'"
  shows "chrome_pre c c'"
  using assms by (intro pre_same) (simp_all add: chrome_ok_def)

lemma press_pre:
  assumes c: "chrome_ok c"
  shows "chrome_pre c (press_chrome lower x c)"
proof -
  note k = chrome_okD [OF c]
  have theme: "chrome_pre c (on_shell (\<lambda>a. a\<lparr>ap_themeMode := t\<rparr>) c)" for t
    using c by (auto simp: chrome_ok_def chrome_pre_def stored_defs)
  have same: "toast_timed a'" if "shell_toast a' = shell_toast (ch_shell c)" for a'
    using timed_same [OF k(1) that] .
  show ?thesis
  proof (cases x)
    case CC_theme
    have "press_chrome lower x c = on_shell (\<lambda>a. a\<lparr>ap_themeMode := (if ap_isDark (ch_shell c) then Theme_light else Theme_dark)\<rparr>) c"
      using CC_theme by (simp add: toggle_theme_def)
    with theme [of "if ap_isDark (ch_shell c) then Theme_light else Theme_dark"] show ?thesis by simp
  next
    case (CC_theme_mode t)
    then show ?thesis using theme by simp
  next
    case CC_notifications
    then show ?thesis using c by (auto simp: chrome_ok_def chrome_pre_def stored_defs)
  next
    case (CC_nav p)
    show ?thesis unfolding CC_nav press_chrome.simps
      by (rule pre_shell [OF c, where f = "navigate p"]) (simp_all only: conserve same, simp_all)
  next
    case CC_add
    show ?thesis unfolding CC_add press_chrome.simps
      by (rule pre_shell [OF c, where f = "requestCompose []"]) (simp_all only: conserve same, simp_all)
  next
    case (CC_item i)
    show ?thesis unfolding CC_item press_chrome.simps Let_def
      by (rule pre_shell [OF c, where f = "activate _"]) (simp_all only: conserve same, simp_all)
  next
    case CC_scrim
    show ?thesis unfolding CC_scrim press_chrome.simps
      by (rule pre_shell [OF c, where f = "\<lambda>a. a\<lparr>ap_drawerOpen := False\<rparr>"]) (simp_all add: same)
  next
    case CC_menu
    show ?thesis unfolding CC_menu press_chrome.simps
      by (rule pre_shell [OF c, where f = "\<lambda>a. a\<lparr>ap_drawerOpen := \<not> ap_drawerOpen a\<rparr>"]) (simp_all add: same)
  next
    case (CC_search t)
    show ?thesis unfolding CC_search press_chrome.simps
      by (rule pre_shell [OF c, where f = "\<lambda>a. a\<lparr>ap_search := t\<rparr>"]) (simp_all add: same)
  next
    case CC_clap
    show ?thesis unfolding CC_clap press_chrome.simps
      by (rule pre_shell [OF c, where f = "\<lambda>a. a\<lparr>ap_voiceOpen := True\<rparr>"]) (simp_all add: same)
  next
    case CC_audio
    show ?thesis unfolding CC_audio press_chrome.simps
      by (rule pre_shell [OF c, where f = "\<lambda>a. a\<lparr>ap_audioOpen := True\<rparr>"]) (simp_all add: same)
  next
    case CC_close_palette
    show ?thesis unfolding CC_close_palette press_chrome.simps
      by (rule pre_shell [OF c, where f = "\<lambda>a. a\<lparr>ap_paletteOpen := False\<rparr>"]) (simp_all add: same)
  next
    case CC_toast_action
    show ?thesis unfolding CC_toast_action press_chrome.simps
      by (rule pre_shell [OF c, where f = close_toast]) (simp_all only: conserve timed_simps, simp_all)
  next
    case CC_toast_close
    show ?thesis unfolding CC_toast_close press_chrome.simps
      by (rule pre_shell [OF c, where f = close_toast]) (simp_all only: conserve timed_simps, simp_all)
  qed (use k in \<open>simp_all add: open_settings_def pre_frame [OF c]\<close>)
qed

text \<open>The other events.\<close>

lemma handle_pre:
  assumes c: "chrome_ok c"
  shows "chrome_pre c (chrome_handle lower c (now, e))"
proof -
  note k = chrome_okD [OF c]
  have same: "toast_timed a'" if "shell_toast a' = shell_toast (ch_shell c)" for a'
    using timed_same [OF k(1) that] .
  show ?thesis
  proof (cases e)
    case (CE_press x)
    then show ?thesis using press_pre [OF c] by simp
  next
    case (CE_key m code key ty)
    show ?thesis unfolding CE_key chrome_handle.simps
      by (rule pre_shell [OF c, where f = "app_keydown m code key ty"]) (simp_all only: conserve same, simp_all)
  next
    case (CE_system dark)
    then show ?thesis using c by (auto simp: system_change_def chrome_ok_def chrome_pre_def stored_defs dark_for_def)
  next
    case CE_enter
    show ?thesis unfolding CE_enter chrome_handle.simps
      by (rule pre_shell [OF c, where f = "activate _"]) (simp_all only: conserve same, simp_all)
  next
    case (CE_trigger p)
    show ?thesis unfolding CE_trigger chrome_handle.simps
      by (rule pre_shell [OF c, where f = "onTrigger now p"]) (simp_all only: conserve timed_simps k(1), simp_all)
  next
    case (CE_toast m l)
    show ?thesis unfolding CE_toast chrome_handle.simps
      by (rule pre_shell [OF c, where f = "showToast now m l"]) (simp_all only: conserve timed_simps, simp_all)
  next
    case CE_timeout
    show ?thesis unfolding CE_timeout chrome_handle.simps
      by (rule pre_shell [OF c, where f = "toast_timeout now"]) (simp_all only: conserve timed_simps k(1), simp_all)
  next
    case (CE_to_task i)
    show ?thesis unfolding CE_to_task chrome_handle.simps
      by (rule pre_shell [OF c, where f = "navigateToTask i"]) (simp_all only: conserve same, simp_all)
  next
    case CE_composed
    show ?thesis unfolding CE_composed chrome_handle.simps
      by (rule pre_shell [OF c, where f = "\<lambda>a. a\<lparr>ap_compose := None\<rparr>"]) (simp_all add: same)
  next
    case CE_close_audio
    show ?thesis unfolding CE_close_audio chrome_handle.simps
      by (rule pre_shell [OF c, where f = "\<lambda>a. a\<lparr>ap_audioOpen := False\<rparr>"]) (simp_all add: same)
  next
    case CE_close_voice
    show ?thesis unfolding CE_close_voice chrome_handle.simps
      by (rule pre_shell [OF c, where f = "\<lambda>a. a\<lparr>ap_voiceOpen := False\<rparr>"]) (simp_all add: same)
  next
    case (CE_weights r)
    then show ?thesis using k by (simp add: load_weights_def pre_frame [OF c])
  next
    case (CE_reset r)
    have r: "\<not> wv_resetting (handleResetWeights r w)" for w by (simp add: handleResetWeights_def Let_def)
    show ?thesis
    proof (cases "ch_resetOut c")
      case True
      have "chrome_pre c (reset_answered now r c)"
        using c r by (cases "wv_toast (handleResetWeights r (ch_weights c))")
          (auto intro!: pre_same simp: reset_answered_def Let_def chrome_ok_def showToast_def toast_timed_def)
      with True CE_reset show ?thesis by simp
    qed (use CE_reset k in \<open>simp add: pre_frame [OF c]\<close>)
  qed (use k in \<open>simp_all add: pre_frame [OF c]\<close>)
qed

lemma chrome_step_ok: "chrome_ok c \<Longrightarrow> chrome_ok (chrome_step lower c (now, e))"
proof -
  assume "chrome_ok c"
  then have "chrome_pre c (chrome_handle lower c (now, e))" by (rule handle_pre)
  then have "chrome_pre c (show_palette c (chrome_handle lower c (now, e)))"
    by (simp add: chrome_pre_def show_palette_def)
  then show ?thesis unfolding chrome_step_def by (rule shell_effects_ok)
qed

interpretation app_runs: stepwise "chrome_offers lower keys" "chrome_step lower" chrome_ok for lower keys
proof
  show "chrome_ok (chrome_step lower c e)" if "chrome_ok c" for c e
    using chrome_step_ok [OF that, of lower "fst e" "snd e"] by simp
qed

lemma read_theme_text [simp]: "read_theme (theme_text m) = Some m"
  by (cases m) (simp_all add: read_theme_def ascii_def)

lemma load_app_ok:
  assumes "load_app s d = Some c" "ls_readable s" "ls_writable s"
  shows "chrome_ok c \<and> ch_systemDark c = d"
proof -
  obtain t notif mode where "initial_theme s = Some t" "initial_notifications s = Some notif" "read_theme t = Some mode"
    using assms(1) by (auto simp: load_app_def split: option.splits prod.splits)
  then have c: "c = run_effect notif_effect (run_effect (theme_effect d) (blank_chrome (blank_shell mode notif s) d))"
    using assms(1) by (simp add: load_app_def)
  have u: "storage_usable (ch_shell (blank_chrome (blank_shell mode notif s) d))"
    using assms(2,3) by (simp add: storage_usable_def blank_chrome_def blank_shell_def)
  have v: "storage_usable (ch_shell (run_effect (theme_effect d) (blank_chrome (blank_shell mode notif s) d)))"
    unfolding theme_effect_run [OF u] using u by (simp add: storage_usable_def)
  show ?thesis
    unfolding c notif_effect_run [OF v] unfolding theme_effect_run [OF u]
    using assms(2,3) by (simp add: chrome_ok_def stored_defs blank_chrome_def blank_shell_def)
qed

lemma app_run_ok:
  assumes "load_app s d = Some c0" "ls_readable s" "ls_writable s" "app_run lower keys c0 es = Some c"
  shows "chrome_ok c"
  using app_runs.run_keeps [OF assms(4) [unfolded app_run_def]] load_app_ok [OF assms(1,2,3)] by blast

subsection \<open>Properties\<close>

text \<open>
  C37. At every point of every run the page can be reloaded without a visible change of its settings: the
  reloaded page has the same theme, the same colours and the same switch for the notifications, whatever
  was pressed, whatever the daemon or the system did, in a browser whose storage works.
\<close>

theorem reload_keeps_settings:
  assumes "load_app s d = Some c0" "ls_readable s" "ls_writable s" "app_run lower keys c0 es = Some c"
  shows "\<exists>r. load_app (ap_storage (ch_shell c)) (ch_systemDark c) = Some r
    \<and> shell_settings (ch_shell r) = shell_settings (ch_shell c)"
proof -
  let ?a = "ch_shell c" let ?s = "ap_storage (ch_shell c)" let ?d = "ch_systemDark c"
  have ok: "chrome_ok c" using app_run_ok [OF assms] .
  then have st: "ls_readable ?s" "ls_writable ?s" "storage_usable ?a" by (simp_all add: chrome_ok_def stored_defs)
  from ok have th: "lookup (ls_items ?s) ''sigma-theme'' = Some (theme_text (ap_themeMode ?a))"
    and nt: "lookup (ls_items ?s) ''sigma-notif'' = Some (ascii (if ap_notifications ?a then ''on'' else ''off''))"
    and dk: "ap_isDark ?a = dark_for (ap_themeMode ?a) ?d"
    by (simp_all add: chrome_ok_def stored_defs)
  have "theme_text m \<noteq> []" for m by (cases m) (simp_all add: ascii_def)
  then have it: "initial_theme ?s = Some (theme_text (ap_themeMode ?a))"
    using th st by (simp add: initial_theme_def getItem_def)
  have inn: "initial_notifications ?s = Some (ap_notifications ?a)"
    using nt st by (simp add: initial_notifications_def getItem_def ascii_def)
  define b where "b = blank_chrome (blank_shell (ap_themeMode ?a) (ap_notifications ?a) ?s) ?d"
  have u: "storage_usable (ch_shell b)" using st by (simp add: storage_usable_def b_def blank_chrome_def blank_shell_def)
  have e1: "run_effect (theme_effect ?d) b = b\<lparr>ch_shell := (ch_shell b)\<lparr>ap_isDark := ap_isDark ?a\<rparr>\<rparr>"
    unfolding theme_effect_run [OF u] using th dk by (simp add: b_def blank_chrome_def blank_shell_def store_same)
  have u2: "storage_usable (ch_shell (b\<lparr>ch_shell := (ch_shell b)\<lparr>ap_isDark := ap_isDark ?a\<rparr>\<rparr>))"
    using u by (simp add: storage_usable_def)
  have e2: "run_effect notif_effect (run_effect (theme_effect ?d) b) = b\<lparr>ch_shell := (ch_shell b)\<lparr>ap_isDark := ap_isDark ?a\<rparr>\<rparr>"
    unfolding e1 notif_effect_run [OF u2] using nt by (simp add: b_def blank_chrome_def blank_shell_def store_same)
  have "load_app ?s ?d = Some (b\<lparr>ch_shell := (ch_shell b)\<lparr>ap_isDark := ap_isDark ?a\<rparr>\<rparr>)"
    using it inn e2 by (simp add: load_app_def b_def)
  then show ?thesis by (simp add: b_def blank_chrome_def blank_shell_def)
qed

text \<open>
  The colours always follow the chosen theme and the system, a toast on the screen has its
  timeout five seconds after the moment it was shown, whatever older toasts there were, and the settings never offer to reset weights
  while a reset is under way.
\<close>

theorem frame_invariant:
  assumes "load_app s d = Some c0" "ls_readable s" "ls_writable s" "app_run lower keys c0 es = Some c"
  shows "\<not> ch_crashed c \<and> ap_isDark (ch_shell c) = dark_for (ap_themeMode (ch_shell c)) (ch_systemDark c)
    \<and> toast_timed (ch_shell c)
    \<and> (ch_resetOut c \<longrightarrow> \<not> screen_offers (settings_view (ap_themeMode (ch_shell c)) (ap_notifications (ch_shell c)) (ch_weights c))
          CC_reset_weights)"
  using app_run_ok [OF assms]
  by (auto simp: chrome_ok_def stored_defs settings_view_def THEMES_def)

text \<open>Runs in which nothing of the palette is activated.\<close>

fun no_pick :: "int \<times> chrome_event \<Rightarrow> bool" where
  "no_pick (now, CE_enter) \<longleftrightarrow> False"
| "no_pick (now, CE_press (CC_item i)) \<longleftrightarrow> False"
| "no_pick _ \<longleftrightarrow> True"

definition plain_frame :: "chrome \<Rightarrow> bool" where
  "plain_frame c \<longleftrightarrow> ap_page (ch_shell c) \<noteq> Page_archive \<and> ap_search (ch_shell c) = ch_typed c"

lemma effects_plain [simp]:
  "ap_page (ch_shell (shell_effects old c)) = ap_page (ch_shell c)"
  "ap_search (ch_shell (shell_effects old c)) = ap_search (ch_shell c)" "ch_typed (shell_effects old c) = ch_typed c"
  by (auto simp: shell_effects_def run_effect_def theme_effect_def notif_effect_def Let_def split: option.splits sum.splits)

lemma show_palette_plain [simp]: "ch_shell (show_palette old c) = ch_shell c" "ch_typed (show_palette old c) = ch_typed c"
  by (simp_all add: show_palette_def)

lemma sidebar_pages: "screen_offers (chrome_view lower keys c) (CC_nav p) \<Longrightarrow> p \<noteq> Page_archive"
  by (auto simp: chrome_view_def Let_def sidebar_view_def SIDE_NAV_def topbar_view_def settings_view_def THEMES_def help_view_def
      SHORTCUTS_def GUIDE_def palette_view_def toast_view_def screen_offers_map split: option.splits if_splits)

lemma plain_press:
  assumes "plain_frame c" "\<And>p. x = CC_nav p \<Longrightarrow> p \<noteq> Page_archive" "\<And>i. x \<noteq> CC_item i"
  shows "plain_frame (press_chrome lower x c)"
proof (cases x)
  case (CC_item i)
  then show ?thesis using assms(3) by blast
qed (use assms(1,2) in \<open>simp_all add: plain_frame_def navigate_def requestCompose_def open_settings_def toggle_theme_def close_toast_def\<close>)

lemma plain_handle:
  assumes "plain_frame c" "chrome_offers lower keys c (now, e)" "no_pick (now, e)"
  shows "plain_frame (chrome_handle lower c (now, e))"
proof (cases e)
  case (CE_press x)
  show ?thesis unfolding CE_press chrome_handle.simps
  proof (rule plain_press [OF assms(1)])
    show "p \<noteq> Page_archive" if "x = CC_nav p" for p using that assms(2) CE_press sidebar_pages [of lower keys c p] by simp
    show "x \<noteq> CC_item i" for i using assms(3) CE_press by auto
  qed
next
  case CE_enter
  then show ?thesis using assms(3) by simp
qed (use assms(1) in \<open>auto simp: plain_frame_def app_keydown_def requestCompose_def navigate_def onTrigger_def showToast_def
    system_change_def toast_timeout_def navigateToTask_def reset_answered_def Let_def split: option.splits\<close>)

interpretation plain_runs: stepwise "\<lambda>c e. chrome_offers lower keys c e \<and> no_pick e" "chrome_step lower" plain_frame for lower keys
proof
  fix c e assume p: "plain_frame c" and o: "chrome_offers lower keys c e \<and> no_pick e"
  obtain now x where e: "e = (now, x)" by (cases e)
  have "plain_frame (chrome_handle lower c (now, x))" using plain_handle [OF p] o unfolding e by blast
  then show "plain_frame (chrome_step lower c e)" by (simp add: plain_frame_def chrome_step_def e)
qed

lemma load_app_plain: "load_app s d = Some c \<Longrightarrow> plain_frame c"
  by (auto simp: load_app_def plain_frame_def run_effect_def theme_effect_def notif_effect_def blank_chrome_def blank_shell_def
      split: option.splits prod.splits sum.splits)

text \<open>
  The archive is reached through the palette only: in a run in which nothing of the palette is
  activated, no press, key or message leads to it, and the pages are filtered by what the search box shows.
\<close>

theorem archive_needs_palette:
  assumes "load_app s d = Some c0" "app_run lower keys c0 es = Some c" "list_all no_pick es"
  shows "ap_page (ch_shell c) \<noteq> Page_archive \<and> ap_search (ch_shell c) = ch_typed c"
  using plain_runs.run_keeps [OF guarded_run_conj [OF assms(2) [unfolded app_run_def] assms(3)] load_app_plain [OF assms(1)]]
  by (simp add: plain_frame_def)

text \<open>
  A task picked in the palette filters the pages by its title, while the search box stays empty: the box
  is not controlled by the text the frame hands to it.
\<close>

definition working_storage :: local_storage where
  "working_storage = \<lparr>ls_items = [], ls_readable = True, ls_writable = True\<rparr>"

definition pick_run :: "(int \<times> chrome_event) list" where
  "pick_run = [(0, CE_key True ''KeyK'' ''k'' False),
     (1, CE_palette (Pal_loaded [\<lparr>pl_id = ''p-1'', pl_title = [97], pl_page = Page_today\<rparr>])),
     (2, CE_press (CC_type [97])), (3, CE_press (CC_item 1))]"

lemma working_start:
  "load_app working_storage False = Some (blank_chrome (blank_shell Theme_system True
     \<lparr>ls_items = [(''sigma-theme'', theme_text Theme_system), (''sigma-notif'', ascii ''on'')], ls_readable = True, ls_writable = True\<rparr>) False)"
  by (simp add: load_app_def working_storage_def initial_theme_def initial_notifications_def getItem_def setItem_def run_effect_def
      theme_effect_def notif_effect_def blank_chrome_def blank_shell_def read_theme_def ascii_def)

lemmas chrome_eval = app_run_def chrome_step_def show_palette_def shell_effects_def open_palette_def new_palette_def blank_chrome_def
  blank_shell_def chrome_view_def palette_view_def palette_items_def NAV_ITEMS_def Let_def trim_def white_def str_includes_def
  find_sub.simps activate_def navigate_def app_keydown_def

theorem picked_title_not_shown:
  "\<exists>c. app_run id [] (the (load_app working_storage False)) pick_run = Some c
     \<and> ap_search (ch_shell c) = [97] \<and> ch_typed c = []"
  unfolding working_start pick_run_def by (simp add: chrome_eval screen_offers_map)

subsection \<open>Witnesses\<close>

definition theme_presses :: "(int \<times> chrome_event) list" where
  "theme_presses = [(0, CE_press CC_theme), (1, CE_press CC_settings), (2, CE_press CC_notifications), (3, CE_press (CC_nav Page_important))]"

lemma theme_presses_run:
  "\<exists>c. app_run id [] (the (load_app working_storage False)) theme_presses = Some c \<and> ap_themeMode (ch_shell c) = Theme_dark
     \<and> ch_systemDark c = False"
  unfolding working_start theme_presses_def
  by (simp add: app_run_def chrome_step_def show_palette_def shell_effects_def blank_chrome_def blank_shell_def chrome_view_def Let_def
      sidebar_view_def SIDE_NAV_def topbar_view_def settings_view_def toggle_theme_def run_effect_def theme_effect_def setItem_def
      notif_effect_def open_settings_def navigate_def)

lemma storage_works_now: "ls_readable working_storage" "ls_writable working_storage"
  by (simp_all add: working_storage_def)

lemma load_app_works: "load_app working_storage False = Some (the (load_app working_storage False))"
  unfolding working_start by simp

lemma reload_keeps_settings_witness:
  "\<exists>r. load_app (ap_storage (ch_shell (the (app_run id [] (the (load_app working_storage False)) theme_presses)))) False = Some r
     \<and> ap_themeMode (ch_shell r) = Theme_dark"
proof -
  obtain c where c: "app_run id [] (the (load_app working_storage False)) theme_presses = Some c" "ap_themeMode (ch_shell c) = Theme_dark"
    "ch_systemDark c = False"
    using theme_presses_run by blast
  with reload_keeps_settings [OF load_app_works storage_works_now c(1)] c show ?thesis by auto
qed

lemma frame_invariant_witness:
  "toast_timed (ch_shell (the (app_run id [] (the (load_app working_storage False)) theme_presses)))"
proof -
  obtain c where c: "app_run id [] (the (load_app working_storage False)) theme_presses = Some c"
    using theme_presses_run by blast
  from frame_invariant [OF load_app_works storage_works_now c] c show ?thesis by simp
qed

lemma archive_needs_palette_witness:
  "ap_page (ch_shell (the (app_run id [] (the (load_app working_storage False)) theme_presses))) \<noteq> Page_archive"
proof -
  obtain c where c: "app_run id [] (the (load_app working_storage False)) theme_presses = Some c"
    using theme_presses_run by blast
  have "list_all no_pick theme_presses" by (simp add: theme_presses_def)
  from archive_needs_palette [OF load_app_works c this] c show ?thesis by simp
qed

end
