(* ===== verification/Today_Screen.thy ===== *)
theory Today_Screen
  imports Page_Dialogs Screen
begin

text \<open>
  The controls of \<open>frontend/src/pages/TodayTasksPage.jsx\<close> around its list: the header with the menu of
  the orders, the two layouts and the mini widget; the state bar \<open>ContextBar.jsx\<close>, the quick input and the
  call to action \<open>EmptyState.jsx\<close>; and the jump to the task of a notification.  The list itself is in
  \<open>Today_List\<close>, its handlers in \<open>Today_Page\<close>.
\<close>

subsection \<open>What is rendered\<close>

text \<open>The slider of the available time has steps of half an hour; its event counts them.\<close>

datatype today_control =
    TC_sort_menu | TC_sort sort_mode | TC_layout | TC_mini | TC_add | TC_half_hours int | TC_energy energy
  | TC_quick ustring | TC_submit

definition SORTS :: "(sort_mode \<times> ustring) list" where
  "SORTS = [(By_adaptive, [0xC801, 0xC751, 0xD615, 0x28, 0xAE30, 0xBCF8, 0x29]), (By_deadline, [0xB9C8, 0xAC10,
     0x20, 0xC784, 0xBC15, 0xC21C]), (By_importance, [0xC911, 0xC694, 0xB3C4, 0xC21C])]"

definition ENERGY_LEVELS :: "(energy \<times> ustring) list" where
  "ENERGY_LEVELS = [(LOW, [0xB0AE, 0xC74C]), (MEDIUM, [0xBCF4, 0xD1B5]), (HIGH, [0xB192, 0xC74C])]"

fun read_halves :: "today_control \<Rightarrow> int option" where
  "read_halves (TC_half_hours n) = Some n"
| "read_halves _ = None"

fun read_quick :: "today_control \<Rightarrow> ustring option" where
  "read_quick (TC_quick t) = Some t"
| "read_quick _ = None"

record today_ui =
  tu_sortMode :: sort_mode
  tu_sortOpen :: bool
  tu_line :: bool
  tu_energy :: energy
  tu_halves :: int
  tu_quick :: ustring
  tu_addOpen :: bool

definition new_today_ui :: today_ui where
  "new_today_ui = \<lparr>tu_sortMode = By_adaptive, tu_sortOpen = False, tu_line = True, tu_energy = MEDIUM, tu_halves = 9,
     tu_quick = [], tu_addOpen = False\<rparr>"

definition timeAvailable :: "today_ui \<Rightarrow> js_num" where
  "timeAvailable u = of_int (tu_halves u) / 2"

definition today_header :: "bool \<Rightarrow> today_ui \<Rightarrow> today_control widget list" where
  "today_header mini_shown u =
     [Caption [0xC624, 0xB298, 0xC758, 0x20, 0xC791, 0xC5C5], Switch [0xC815, 0xB82C] (tu_sortOpen u) True TC_sort_menu]
     @ screen_when (tu_sortOpen u) (map (\<lambda>(m, label). Switch label (tu_sortMode u = m) True (TC_sort m)) SORTS)
     @ [Switch (if tu_line u then [0xCE74, 0xB4DC, 0x20, 0xBCF4, 0xAE30, 0xB85C, 0x20, 0xC804,
        0xD658] else [0xBAA9, 0xB85D, 0x20, 0xBCF4, 0xAE30, 0xB85C, 0x20, 0xC804, 0xD658]) (tu_line u) True TC_layout,
        Switch [0xBBF8, 0xB2C8, 0x20, 0xC704, 0xC82F, 0x20, 0x28, 0xD56D, 0xC0C1, 0x20, 0xC704, 0xC5D0, 0x20,
           0xB5A0, 0x20, 0xC788, 0xB294, 0x20, 0xC791, 0xC740, 0x20, 0xCC3D, 0x29] mini_shown True TC_mini]"

text \<open>The button of the orders is marked while its menu is open and while the order is not the first.\<close>

definition sort_marked :: "today_ui \<Rightarrow> bool" where
  "sort_marked u \<longleftrightarrow> tu_sortOpen u \<or> tu_sortMode u \<noteq> By_adaptive"

definition empty_state_view :: "today_control widget list" where
  "empty_state_view =
     [Caption [0xC624, 0xB298, 0xC758, 0x20, 0xC791, 0xC5C5, 0xC774, 0x20, 0xC5C6, 0xC2B5, 0xB2C8,
        0xB2E4], Caption [0xC0C8, 0x20, 0xC791, 0xC5C5, 0xC744, 0x20, 0xCD94, 0xAC00, 0xD574, 0xC11C, 0x20, 0xC624,
           0xB298, 0xC744, 0x20, 0xC2DC, 0xC791, 0xD574, 0xBCF4, 0xC138, 0xC694],
      Button [0xC0C8, 0x20, 0xC791, 0xC5C5, 0x20, 0xCD94, 0xAC00, 0xD558, 0xAE30, 0x20] True TC_add]"

text \<open>\<open>toFixed(1)\<close> of half hours.\<close>

definition hours_text :: "int \<Rightarrow> ustring" where
  "hours_text halves = ascii (show_int (halves div 2)) @ ascii ''.'' @ ascii (if halves mod 2 = 0 then ''0'' else ''5'')"

definition context_bar_view :: "today_ui \<Rightarrow> today_control widget list" where
  "context_bar_view u =
     [Caption [0xAC00, 0xC6A9, 0x20, 0xC2DC, 0xAC04], Slider [0xAC00, 0xC6A9, 0x20, 0xC2DC,
        0xAC04] 0 16 (tu_halves u) read_halves, Caption (hours_text (tu_halves u) @ ascii ''h''),
      Caption [0xC5D0, 0xB108, 0xC9C0]]
     @ map (\<lambda>(e, label). Switch label (tu_energy u = e) True (TC_energy e)) ENERGY_LEVELS
     @ [Caption [0xC608, 0xC0C1, 0x20, 0xC6B0, 0xC120, 0xC21C, 0xC704,
        0x20], Caption (PRIORITY_LABEL (computePriority (tu_energy u) (timeAvailable u)))]"

definition quick_add_view :: "today_ui \<Rightarrow> today_control widget list" where
  "quick_add_view u = [Entry [0xC0C8, 0x20, 0xC791, 0xC5C5, 0x20, 0xBE60, 0xB978, 0x20, 0xCD94,
     0xAC00] (tu_quick u) None read_quick, Button [0xCD94, 0xAC00, 0x20] True TC_submit]"

definition search_empty_view :: "ustring \<Rightarrow> today_control widget list" where
  "search_empty_view search = [Caption ([0x2018] @ search @ [0x2019, 0x20, 0xAC80, 0xC0C9, 0x20, 0xACB0, 0xACFC,
     0xAC00, 0x20, 0xC5C6, 0xC5B4, 0xC694, 0x2E])]"

text \<open>The place of the list: its label, then skeletons, the hint, or one caption for each card.\<close>

definition list_view :: "today_render \<Rightarrow> bool \<Rightarrow> today_control widget list" where
  "list_view r isLoading =
     Caption [0xB300, 0xAE30, 0x20, 0xC911, 0xC778, 0x20, 0xC791, 0xC5C5]
     # (if isLoading then []
        else if rd_pending r = [] then [Caption [0xB300, 0xAE30, 0x20, 0xC911, 0xC778, 0x20, 0xC791, 0xC5C5,
           0xC774, 0x20, 0xC5C6, 0xC5B4, 0xC694, 0x2E, 0x20, 0xBA4B, 0xC9C4, 0x20, 0xD558, 0xB8E8, 0xC608, 0xC694, 0x21]]
        else map (\<lambda>tf. Caption (vm_title (fst tf))) (rd_pending r))"

definition priority_view :: "today_render \<Rightarrow> today_control widget list" where
  "priority_view r = (case rd_priority r of None \<Rightarrow> [] | Some t \<Rightarrow> [Caption [0xD83D, 0xDD25,
     0x20, 0xCD5C, 0xC6B0, 0xC120, 0x20, 0xACFC, 0xC81C], Caption (vm_title t)])"

definition today_view ::
  "(ustring \<Rightarrow> ustring) \<Rightarrow> ustring \<Rightarrow> bool \<Rightarrow> ustring option \<Rightarrow> bool \<Rightarrow> view_model list \<Rightarrow> today_ui \<Rightarrow> today_control widget list" where
  "today_view lower search isLoading error mini_shown views u =
     (let r = render_today lower search (tu_energy u) (timeAvailable u) (tu_sortMode u) isLoading views;
          full = \<not> rd_empty r \<and> \<not> rd_searchEmpty r
      in today_header mini_shown u
         @ (case error of None \<Rightarrow> [] | Some m \<Rightarrow> screen_when (m \<noteq> []) [Caption m])
         @ screen_when (rd_empty r) empty_state_view
         @ screen_when (rd_searchEmpty r) (search_empty_view search)
         @ priority_view r
         @ screen_when full (list_view r isLoading)
         @ screen_when full (context_bar_view u)
         @ screen_when full (quick_add_view u))"

text \<open>What a control changes; the mini widget and the request of the quick input are in their own parts.\<close>

fun today_press :: "today_ui \<Rightarrow> today_control \<Rightarrow> today_ui" where
  "today_press u TC_sort_menu = u\<lparr>tu_sortOpen := \<not> tu_sortOpen u\<rparr>"
| "today_press u (TC_sort m) = u\<lparr>tu_sortMode := m, tu_sortOpen := False\<rparr>"
| "today_press u TC_layout = u\<lparr>tu_line := \<not> tu_line u\<rparr>"
| "today_press u TC_mini = u"
| "today_press u TC_add = u\<lparr>tu_addOpen := True\<rparr>"
| "today_press u (TC_half_hours n) = u\<lparr>tu_halves := n\<rparr>"
| "today_press u (TC_energy e) = u\<lparr>tu_energy := e\<rparr>"
| "today_press u (TC_quick t) = u\<lparr>tu_quick := t\<rparr>"
| "today_press u TC_submit = (if trim (tu_quick u) = [] then u else u\<lparr>tu_quick := []\<rparr>)"

text \<open>The listeners of the open menu: a press outside of it and Escape.\<close>

definition sort_listeners :: "bool \<Rightarrow> string \<Rightarrow> today_ui \<Rightarrow> today_ui" where
  "sort_listeners outside key u = (if tu_sortOpen u \<and> (outside \<or> key = ''Escape'') then u\<lparr>tu_sortOpen := False\<rparr> else u)"

subsection \<open>The mini widget\<close>

text \<open>
  \<open>mw_ref\<close> is \<open>pipRef.current\<close>, \<open>mw_portal\<close> is \<open>pipWindow\<close>, whose window shows the list while the page is
  mounted.  \<open>mw_windows\<close> are the open windows, \<open>mw_hiding\<close> the closed ones whose \<open>pagehide\<close> has not been
  delivered, \<open>mw_asked\<close> the requests for a window that are awaited.  Opening a window of the picture-in-picture
  kind closes the one before.
\<close>

record mini_widget =
  mw_ref :: "nat option"
  mw_portal :: "nat option"
  mw_windows :: "nat list"
  mw_hiding :: "nat list"
  mw_asked :: nat
  mw_next :: nat
  mw_mounted :: bool
  mw_toast :: "ustring option"

definition new_mini :: mini_widget where
  "new_mini = \<lparr>mw_ref = None, mw_portal = None, mw_windows = [], mw_hiding = [], mw_asked = 0, mw_next = 0, mw_mounted = True,
     mw_toast = None\<rparr>"

definition close_window :: "nat \<Rightarrow> mini_widget \<Rightarrow> mini_widget" where
  "close_window w m =
     (if w \<in> set (mw_windows m) then m\<lparr>mw_windows := removeAll w (mw_windows m), mw_hiding := mw_hiding m @ [w]\<rparr> else m)"

text \<open>The press up to the \<open>await\<close>; what follows when the window is there, or when it is refused.\<close>

definition toggleMiniWidget :: "mini_widget \<Rightarrow> mini_widget" where
  "toggleMiniWidget m = (case mw_ref m of Some w \<Rightarrow> close_window w m | None \<Rightarrow> m\<lparr>mw_asked := mw_asked m + 1\<rparr>)"

definition window_opened :: "mini_widget \<Rightarrow> mini_widget" where
  "window_opened m =
     m\<lparr>mw_asked := mw_asked m - 1, mw_windows := [mw_next m], mw_hiding := mw_hiding m @ mw_windows m,
       mw_ref := Some (mw_next m), mw_portal := Some (mw_next m), mw_next := mw_next m + 1\<rparr>"

definition window_refused :: "mini_widget \<Rightarrow> mini_widget" where
  "window_refused m = m\<lparr>mw_asked := mw_asked m - 1, mw_toast := Some [0xBBF8, 0xB2C8, 0x20, 0xC704, 0xC82F,
     0xC744, 0x20, 0xC5F4, 0x20, 0xC218, 0x20, 0xC5C6, 0xC5B4, 0xC694, 0x2E]\<rparr>"

text \<open>The listener of \<open>pagehide\<close> does not look at which window it belongs to.\<close>

definition window_hidden :: "nat \<Rightarrow> mini_widget \<Rightarrow> mini_widget" where
  "window_hidden w m = m\<lparr>mw_hiding := remove1 w (mw_hiding m), mw_ref := None, mw_portal := None\<rparr>"

definition leave_page :: "mini_widget \<Rightarrow> mini_widget" where
  "leave_page m = (case mw_ref m of Some w \<Rightarrow> close_window w m | None \<Rightarrow> m)\<lparr>mw_mounted := False\<rparr>"

datatype mini_event = MW_press | MW_opened | MW_refused | MW_pagehide nat | MW_user_closes nat | MW_leave

fun mini_step :: "mini_widget \<Rightarrow> mini_event \<Rightarrow> mini_widget" where
  "mini_step m MW_press = toggleMiniWidget m"
| "mini_step m MW_opened = window_opened m"
| "mini_step m MW_refused = window_refused m"
| "mini_step m (MW_pagehide w) = window_hidden w m"
| "mini_step m (MW_user_closes w) = close_window w m"
| "mini_step m MW_leave = leave_page m"

fun mini_offers :: "mini_widget \<Rightarrow> mini_event \<Rightarrow> bool" where
  "mini_offers m MW_press \<longleftrightarrow> mw_mounted m"
| "mini_offers m MW_opened \<longleftrightarrow> mw_asked m > 0"
| "mini_offers m MW_refused \<longleftrightarrow> mw_asked m > 0"
| "mini_offers m (MW_pagehide w) \<longleftrightarrow> w \<in> set (mw_hiding m)"
| "mini_offers m (MW_user_closes w) \<longleftrightarrow> w \<in> set (mw_windows m)"
| "mini_offers m MW_leave \<longleftrightarrow> mw_mounted m"

text \<open>A user who waits: no second press while a window is coming or going, no leaving while one is coming.\<close>

fun mini_patient :: "mini_widget \<Rightarrow> mini_event \<Rightarrow> bool" where
  "mini_patient m MW_press \<longleftrightarrow> mini_offers m MW_press \<and> mw_asked m = 0 \<and> mw_hiding m = []"
| "mini_patient m MW_leave \<longleftrightarrow> mini_offers m MW_leave \<and> mw_asked m = 0"
| "mini_patient m e \<longleftrightarrow> mini_offers m e"

text \<open>The window that shows the list.\<close>

definition live_window :: "mini_widget \<Rightarrow> nat option" where
  "live_window m = (if mw_mounted m then mw_portal m else None)"

text \<open>
  In a browser without picture-in-picture the widget is a small window of a fixed name, opened at once: a window
  of that name that is still open is taken again.  \<open>blocked\<close> says that the browser refuses it.
\<close>

definition popup_press :: "bool \<Rightarrow> mini_widget \<Rightarrow> mini_widget" where
  "popup_press blocked m =
     (case mw_ref m of
        Some w \<Rightarrow> close_window w m
      | None \<Rightarrow>
          if blocked then m\<lparr>mw_toast := Some [0xD31D, 0xC5C5, 0xC774, 0x20, 0xCC28, 0xB2E8, 0xB410, 0xC5B4,
             0xC694, 0x2E, 0x20, 0xD31D, 0xC5C5, 0x20, 0xD5C8, 0xC6A9, 0x20, 0xD6C4, 0x20, 0xB2E4, 0xC2DC, 0x20,
                0xC2DC, 0xB3C4, 0xD574, 0x20, 0xC8FC, 0xC138, 0xC694, 0x2E]\<rparr>
          else (let w = (case mw_windows m of [] \<Rightarrow> mw_next m | v # _ \<Rightarrow> v)
                in m\<lparr>mw_windows := [w], mw_ref := Some w, mw_portal := Some w, mw_next := max (mw_next m) (w + 1)\<rparr>))"

datatype popup_event = PU_press bool | PU_pagehide nat | PU_user_closes nat | PU_leave

fun popup_step :: "mini_widget \<Rightarrow> popup_event \<Rightarrow> mini_widget" where
  "popup_step m (PU_press blocked) = popup_press blocked m"
| "popup_step m (PU_pagehide w) = window_hidden w m"
| "popup_step m (PU_user_closes w) = close_window w m"
| "popup_step m PU_leave = leave_page m"

fun popup_offers :: "mini_widget \<Rightarrow> popup_event \<Rightarrow> bool" where
  "popup_offers m (PU_press blocked) \<longleftrightarrow> mw_mounted m"
| "popup_offers m (PU_pagehide w) \<longleftrightarrow> w \<in> set (mw_hiding m)"
| "popup_offers m (PU_user_closes w) \<longleftrightarrow> w \<in> set (mw_windows m)"
| "popup_offers m PU_leave \<longleftrightarrow> mw_mounted m"

subsection \<open>The jump to a task\<close>

text \<open>
  \<open>sj_target\<close> is the property \<open>scrollToTaskId\<close>, \<open>sj_due\<close> the timeout of the effect, \<open>sj_marked\<close> the cards
  with the class of the highlight and the instants that end it, \<open>sj_jumps\<close> the cards scrolled to.  The
  effect depends on \<open>onScrolled\<close>, which is new at each render of the frame.
\<close>

record scroll_jump =
  sj_target :: "js_id option"
  sj_due :: "int option"
  sj_marked :: "(js_id \<times> int) list"
  sj_jumps :: "js_id list"

definition id_truthy :: "js_id \<Rightarrow> bool" where
  "id_truthy i = (case i of Num_id n \<Rightarrow> n \<noteq> 0 | Str_id s \<Rightarrow> s \<noteq> [])"

definition jump_effect :: "int \<Rightarrow> scroll_jump \<Rightarrow> scroll_jump" where
  "jump_effect now s =
     s\<lparr>sj_due := (case sj_target s of Some i \<Rightarrow> if id_truthy i then Some (now + 180) else None | None \<Rightarrow> None)\<rparr>"

text \<open>The elements of the page are found by the text of their id; the request is reported as handled in any case.\<close>

definition jump_timeout :: "js_id list \<Rightarrow> int \<Rightarrow> scroll_jump \<Rightarrow> scroll_jump" where
  "jump_timeout shown now s =
     (case (sj_due s, sj_target s) of
        (Some d, Some i) \<Rightarrow>
          if d \<le> now
          then (let s' = (if prop_key i \<in> prop_key ` set shown
                          then s\<lparr>sj_jumps := sj_jumps s @ [i], sj_marked := sj_marked s @ [(i, now + 1600)]\<rparr> else s)
                in s'\<lparr>sj_target := None, sj_due := None\<rparr>)
          else s
      | _ \<Rightarrow> s)"

definition flash_timeouts :: "int \<Rightarrow> scroll_jump \<Rightarrow> scroll_jump" where
  "flash_timeouts now s =
     (let over = map fst (filter (\<lambda>m. snd m \<le> now) (sj_marked s))
      in s\<lparr>sj_marked := filter (\<lambda>m. fst m \<notin> set over \<and> \<not> snd m \<le> now) (sj_marked s)\<rparr>)"

definition ask_jump :: "int \<Rightarrow> js_id \<Rightarrow> scroll_jump \<Rightarrow> scroll_jump" where
  "ask_jump now i s = jump_effect now (s\<lparr>sj_target := Some i\<rparr>)"

definition no_jump :: scroll_jump where
  "no_jump = \<lparr>sj_target = None, sj_due = None, sj_marked = [], sj_jumps = []\<rparr>"

text \<open>
  The page that is mounted for the jump: its list is asked for only when the 300 ms of its hook are over
  (\<open>useTasks.js\<close>), and arrives later still.
\<close>

record jumping_page =
  jp_hook :: task_hook
  jp_fetchDue :: "int option"
  jp_fetching :: bool
  jp_jump :: scroll_jump

datatype jump_event = JE_frame_renders | JE_timers | JE_fetched "task_response list answer"

definition mount_for_jump :: "int \<Rightarrow> js_id \<Rightarrow> jumping_page" where
  "mount_for_jump now i = \<lparr>jp_hook = useTasks, jp_fetchDue = debounce_change now None, jp_fetching = False, jp_jump = ask_jump now i no_jump\<rparr>"

definition shown_ids :: "(ustring \<Rightarrow> ustring) \<Rightarrow> ustring \<Rightarrow> (task_response \<Rightarrow> view_model) \<Rightarrow> jumping_page \<Rightarrow> js_id list" where
  "shown_ids lower search view p =
     map vm_id (rendered (render_today lower search MEDIUM (9 / 2) By_adaptive (th_isLoading (jp_hook p))
       (map view (th_tasks (jp_hook p)))))"

fun jump_step :: "(ustring \<Rightarrow> ustring) \<Rightarrow> ustring \<Rightarrow> (task_response \<Rightarrow> view_model) \<Rightarrow> jumping_page \<Rightarrow> int \<times> jump_event \<Rightarrow> jumping_page" where
  "jump_step lower search view p (now, JE_frame_renders) = p\<lparr>jp_jump := jump_effect now (jp_jump p)\<rparr>"
| "jump_step lower search view p (now, JE_timers) =
     (let (due, go) = debounce_fire now (jp_fetchDue p) in
      p\<lparr>jp_fetchDue := due, jp_fetching := (jp_fetching p \<or> go),
        jp_jump := flash_timeouts now (jump_timeout (shown_ids lower search view p) now (jp_jump p))\<rparr>)"
| "jump_step lower search view p (now, JE_fetched reply) =
     (if jp_fetching p then p\<lparr>jp_fetching := False, jp_hook := list_fetch_end reply (list_fetch_begin (jp_hook p))\<rparr> else p)"

subsection \<open>Properties of the controls\<close>

lemma today_view_offers:
  "screen_offers (today_view lower search isLoading error mini views u) c \<longleftrightarrow>
     (let r = render_today lower search (tu_energy u) (timeAvailable u) (tu_sortMode u) isLoading views;
          full = \<not> rd_empty r \<and> \<not> rd_searchEmpty r
      in case c of
           TC_sort_menu \<Rightarrow> True
         | TC_sort m \<Rightarrow> tu_sortOpen u
         | TC_layout \<Rightarrow> True
         | TC_mini \<Rightarrow> True
         | TC_add \<Rightarrow> rd_empty r
         | TC_half_hours n \<Rightarrow> full \<and> 0 \<le> n \<and> n \<le> 16
         | TC_energy e \<Rightarrow> full
         | TC_quick t \<Rightarrow> full
         | TC_submit \<Rightarrow> full)"
proof -
  have lv: "\<not> screen_offers (list_view r b) x" for r b x by (auto simp: list_view_def screen_offers_map)
  have pv: "\<not> screen_offers (priority_view r) x" for r x by (auto simp: priority_view_def split: option.splits)
  have ev: "\<not> screen_offers (case error of None \<Rightarrow> [] | Some m \<Rightarrow> screen_when (m \<noteq> []) [Caption m]) x" for x
    by (auto split: option.splits)
  have e: "e = LOW \<or> e = MEDIUM \<or> e = HIGH" for e by (cases e) simp_all
  have m: "m = By_adaptive \<or> m = By_deadline \<or> m = By_importance" for m by (cases m) simp_all
  show ?thesis
    using e m by (cases c) (simp_all add: today_view_def Let_def lv pv ev today_header_def SORTS_def empty_state_view_def
        search_empty_view_def context_bar_view_def ENERGY_LEVELS_def quick_add_view_def)
qed

interpretation today_ui_runs: stepwise "\<lambda>u c. screen_offers (today_view lower search l err mini views u) c" today_press
  "\<lambda>u. 0 \<le> tu_halves u \<and> tu_halves u \<le> 16" for lower search l err mini views
proof
  fix u c
  assume "0 \<le> tu_halves u \<and> tu_halves u \<le> 16" "screen_offers (today_view lower search l err mini views u) c"
  then show "0 \<le> tu_halves (today_press u c) \<and> tu_halves (today_press u c) \<le> 16"
    by (cases c) (auto simp: today_view_offers Let_def)
qed

text \<open>
  Whatever controls of the page are used, the minutes its hook sends with a change are those of the
  slider, a multiple of thirty from nothing to eight hours: rounding loses nothing.
\<close>

theorem slider_minutes_exact:
  assumes "guarded_run (\<lambda>u c. screen_offers (today_view lower search l err mini views u) c) today_press new_today_ui cs = Some u"
  shows "hook_minutes (Some (timeAvailable u)) = 30 * tu_halves u \<and> 0 \<le> 30 * tu_halves u \<and> 30 * tu_halves u \<le> 480"
proof -
  have "0 \<le> tu_halves u \<and> tu_halves u \<le> 16" using today_ui_runs.run_keeps [OF assms] by (simp add: new_today_ui_def)
  moreover have "or_default (Some (timeAvailable u)) 1 * 60 = of_int (30 * tu_halves u)"
    by (simp add: or_default_def timeAvailable_def)
  then have "hook_minutes (Some (timeAvailable u)) = 30 * tu_halves u" by (simp only: hook_minutes_def js_round_of_int)
  ultimately show ?thesis by simp
qed

text \<open>
  There is a way to add a task on the page itself, unless a search has no hit: then the quick input and
  the state bar are gone with the list.
\<close>

theorem creation_offered:
  "let r = render_today lower search (tu_energy u) (timeAvailable u) (tu_sortMode u) isLoading views;
       view = today_view lower search isLoading error mini views u
   in screen_offers view TC_add \<or> screen_offers view TC_submit \<longleftrightarrow> rd_empty r \<or> \<not> rd_searchEmpty r"
  by (auto simp: today_view_offers Let_def)

subsection \<open>Properties of the mini widget\<close>

definition mini_ok :: "mini_widget \<Rightarrow> bool" where
  "mini_ok m \<longleftrightarrow> mw_portal m = mw_ref m \<and> (mw_asked m = 0 \<or> mw_ref m = None \<and> mw_hiding m = [] \<and> mw_asked m = 1)
     \<and> (mw_mounted m \<or> mw_asked m = 0 \<and> mw_windows m = [])
     \<and> (case mw_ref m of
          None \<Rightarrow> mw_hiding m = [] \<and> mw_windows m = []
        | Some w \<Rightarrow> mw_hiding m = [] \<and> mw_windows m = [w] \<or> mw_hiding m = [w] \<and> mw_windows m = [])"

lemma mini_ok_step: "mini_ok m \<Longrightarrow> mini_patient m e \<Longrightarrow> mini_ok (mini_step m e)"
  by (cases e; cases "mw_ref m")
     (auto simp: mini_ok_def toggleMiniWidget_def close_window_def window_opened_def window_refused_def window_hidden_def leave_page_def)

interpretation mini_runs: stepwise mini_patient mini_step mini_ok
  by unfold_locales (rule mini_ok_step)

text \<open>
  A user who waits for the window to come and to go never has more than one, each open window shows
  the list, and leaving the page closes it.
\<close>

theorem patient_user_has_one_window:
  assumes "guarded_run mini_patient mini_step new_mini es = Some m"
  shows "mw_windows m = [] \<or> (\<exists>w. mw_windows m = [w] \<and> live_window m = Some w)"
proof -
  have "mini_ok m" using mini_runs.run_keeps [OF assms] by (simp add: mini_ok_def new_mini_def)
  then show ?thesis by (auto simp: mini_ok_def live_window_def split: option.splits)
qed

text \<open>
  Leaving the page while the window is coming leaves it open with nothing in it, and nothing on the page
  closes it any more.
\<close>

theorem late_window_stays_open:
  "\<exists>m. guarded_run mini_offers mini_step new_mini [MW_press, MW_leave, MW_opened] = Some m
     \<and> mw_windows m = [0] \<and> live_window m = None \<and> \<not> mw_mounted m"
  by (simp add: new_mini_def toggleMiniWidget_def leave_page_def window_opened_def live_window_def)

text \<open>
  A second press while the window is coming asks for another one; when the first is closed by the second,
  its \<open>pagehide\<close> takes the list away from the second, and the next press opens a third.
\<close>

theorem impatient_user_loses_window:
  "\<exists>m. guarded_run mini_offers mini_step new_mini [MW_press, MW_press, MW_opened, MW_opened, MW_pagehide 0, MW_press] = Some m
     \<and> mw_windows m = [1] \<and> live_window m = None \<and> mw_asked m = 1"
  by (simp add: new_mini_def toggleMiniWidget_def window_opened_def window_hidden_def live_window_def)

text \<open>The window of the other kind has none of these: it is opened at once, so no other press can come between.\<close>

definition popup_ok :: "mini_widget \<Rightarrow> bool" where
  "popup_ok m \<longleftrightarrow> mw_portal m = mw_ref m
     \<and> (case mw_ref m of
          None \<Rightarrow> mw_windows m = [] \<and> mw_hiding m = []
        | Some w \<Rightarrow> mw_windows m = [w] \<and> mw_hiding m = [] \<and> mw_mounted m \<or> mw_windows m = [] \<and> mw_hiding m = [w])"

lemma popup_ok_step: "popup_ok m \<Longrightarrow> popup_offers m e \<Longrightarrow> popup_ok (popup_step m e)"
  by (cases e; cases "mw_ref m")
     (auto simp: popup_ok_def popup_press_def close_window_def window_hidden_def leave_page_def Let_def)

interpretation popup_runs: stepwise popup_offers popup_step popup_ok
  by unfold_locales (rule popup_ok_step)

theorem popup_has_one_window:
  assumes "guarded_run popup_offers popup_step new_mini es = Some m"
  shows "length (mw_windows m) \<le> 1 \<and> (mw_windows m \<noteq> [] \<longrightarrow> live_window m = Some (hd (mw_windows m))) \<and> (\<not> mw_mounted m \<longrightarrow> mw_windows m = [])"
proof -
  have "popup_ok m" using popup_runs.run_keeps [OF assms] by (simp add: popup_ok_def new_mini_def)
  then show ?thesis by (auto simp: popup_ok_def live_window_def split: option.splits)
qed

subsection \<open>Properties of the jump\<close>

text \<open>
  On a page that shows the task, the jump of a notification arrives 180 ms later and the highlight goes
  1600 ms after that; for a task that is not shown it is dropped.
\<close>

theorem jump_hits_shown_task:
  assumes "id_truthy i" "now + 180 \<le> n" "sj_marked s = []"
  shows "let s' = flash_timeouts n (jump_timeout shown n (ask_jump now i s)) in
     sj_target s' = None \<and> sj_jumps s' = sj_jumps s @ (if prop_key i \<in> prop_key ` set shown then [i] else [])
     \<and> sj_marked s' = (if prop_key i \<in> prop_key ` set shown then [(i, n + 1600)] else [])
     \<and> sj_marked (flash_timeouts (n + 1600) s') = []"
  using assms by (simp add: ask_jump_def jump_effect_def jump_timeout_def flash_timeouts_def Let_def)

text \<open>The page that is mounted for a jump and has not yet asked for its list.\<close>

definition jump_waiting :: "int \<Rightarrow> jumping_page \<Rightarrow> bool" where
  "jump_waiting t0 p \<longleftrightarrow> jp_hook p = useTasks \<and> jp_fetchDue p = Some (t0 + 300) \<and> \<not> jp_fetching p
     \<and> sj_jumps (jp_jump p) = [] \<and> (sj_target (jp_jump p) = None \<or> (\<exists>d. sj_due (jp_jump p) = Some d \<and> d < t0 + 300))"

definition early :: "int \<Rightarrow> int \<times> jump_event \<Rightarrow> bool" where
  "early t0 e \<longleftrightarrow> fst e < t0 + 300 \<and> (snd e \<noteq> JE_frame_renders \<or> fst e < t0 + 120)"

lemma nothing_shown: "jp_hook p = useTasks \<Longrightarrow> shown_ids lower search view p = []"
  by (simp add: shown_ids_def useTasks_def rendered_def render_today_def Let_def page_isEmpty_def page_priorityTask_def
      page_isSearchEmpty_def)

lemma jump_waiting_step:
  assumes "jump_waiting t0 p" "early t0 e" "sj_target (jp_jump p) = None \<or> (\<exists>i. sj_target (jp_jump p) = Some i \<and> id_truthy i)"
  shows "jump_waiting t0 (jump_step lower search view p e)
    \<and> (sj_target (jp_jump (jump_step lower search view p e)) = None
       \<or> (\<exists>i. sj_target (jp_jump (jump_step lower search view p e)) = Some i \<and> id_truthy i))"
proof -
  obtain now k where e: "e = (now, k)" by (cases e)
  show ?thesis
  proof (cases k)
    case JE_frame_renders
    then show ?thesis using assms e by (auto simp: jump_waiting_def early_def jump_effect_def)
  next
    case JE_timers
    have "debounce_fire now (jp_fetchDue p) = (Some (t0 + 300), False)"
      using assms(1,2) e by (simp add: jump_waiting_def early_def debounce_fire_def)
    moreover have "shown_ids lower search view p = []" using assms(1) by (intro nothing_shown) (simp add: jump_waiting_def)
    ultimately show ?thesis
      using assms e JE_timers
      by (auto simp: jump_waiting_def flash_timeouts_def jump_timeout_def Let_def split: option.splits)
  next
    case (JE_fetched r)
    then show ?thesis using assms e by (simp add: jump_waiting_def)
  qed
qed

interpretation jump_runs: stepwise "\<lambda>_ e. early t0 e" "jump_step lower search view"
  "\<lambda>p. jump_waiting t0 p \<and> (sj_target (jp_jump p) = None \<or> (\<exists>i. sj_target (jp_jump p) = Some i \<and> id_truthy i))"
  for t0 lower search view
proof
  fix p e
  assume "jump_waiting t0 p \<and> (sj_target (jp_jump p) = None \<or> (\<exists>i. sj_target (jp_jump p) = Some i \<and> id_truthy i))" "early t0 e"
  then show "jump_waiting t0 (jump_step lower search view p e)
      \<and> (sj_target (jp_jump (jump_step lower search view p e)) = None
         \<or> (\<exists>i. sj_target (jp_jump (jump_step lower search view p e)) = Some i \<and> id_truthy i))"
    by (intro jump_waiting_step) simp_all
qed

text \<open>
  A notification pressed on another page leads to the today page but never to its task: the jump is
  looked up 180 ms after the page was mounted, the list is asked for after 300 ms only, and by then the
  request has been reported as handled, unless the frame happens to render in between.
\<close>

theorem jump_from_other_page_is_lost:
  assumes "id_truthy i" "\<forall>e \<in> set es. early t0 e"
  shows "let p = jump_step lower search view (foldl (jump_step lower search view) (mount_for_jump t0 i) es) (t0 + 299, JE_timers)
     in sj_jumps (jp_jump p) = [] \<and> sj_target (jp_jump p) = None \<and> th_tasks (jp_hook p) = []"
proof -
  let ?q = "foldl (jump_step lower search view) (mount_for_jump t0 i) es"
  let ?e = "(t0 + 299, JE_timers)"
  have start: "jump_waiting t0 (mount_for_jump t0 i)
      \<and> (sj_target (jp_jump (mount_for_jump t0 i)) = None \<or> (\<exists>i'. sj_target (jp_jump (mount_for_jump t0 i)) = Some i' \<and> id_truthy i'))"
    using assms(1) by (simp add: jump_waiting_def mount_for_jump_def debounce_change_def ask_jump_def jump_effect_def no_jump_def)
  have q: "jump_waiting t0 ?q \<and> (sj_target (jp_jump ?q) = None \<or> (\<exists>i'. sj_target (jp_jump ?q) = Some i' \<and> id_truthy i'))"
    using assms(2) by (intro jump_runs.offered_keeps [OF _ start]) simp
  have w: "jump_waiting t0 (jump_step lower search view ?q ?e)"
    using jump_waiting_step [of t0 ?q ?e lower search view] q by (simp add: early_def)
  have "sj_target (jp_jump (jump_step lower search view ?q ?e)) = None"
    using q by (auto simp: jump_waiting_def jump_timeout_def flash_timeouts_def Let_def split: option.splits prod.splits)
  with w show ?thesis by (simp add: jump_waiting_def useTasks_def Let_def)
qed

subsection \<open>Witnesses\<close>

lemma slider_minutes_exact_witness:
  "hook_minutes (Some (timeAvailable (the (guarded_run
     (\<lambda>u c. screen_offers (today_view id [] True None False [] u) c) today_press new_today_ui [TC_sort_menu, TC_half_hours 16])))) = 480"
proof -
  have r: "guarded_run (\<lambda>u c. screen_offers (today_view id [] True None False [] u) c) today_press new_today_ui
      [TC_sort_menu, TC_half_hours 16] = Some (new_today_ui\<lparr>tu_sortOpen := True, tu_halves := 16\<rparr>)"
    by (simp add: today_view_offers render_today_def page_isEmpty_def page_isSearchEmpty_def query_of_def trim_def Let_def new_today_ui_def)
  from slider_minutes_exact [OF r] r show ?thesis by simp
qed

lemma patient_user_has_one_window_witness:
  "let m = the (guarded_run mini_patient mini_step new_mini [MW_press, MW_opened, MW_press, MW_pagehide 0, MW_press, MW_opened])
   in mw_windows m = [1] \<and> live_window m = Some 1"
proof -
  obtain m where m: "guarded_run mini_patient mini_step new_mini [MW_press, MW_opened, MW_press, MW_pagehide 0, MW_press, MW_opened] = Some m"
    "mw_windows m = [1]"
    by (simp add: new_mini_def toggleMiniWidget_def close_window_def window_opened_def window_hidden_def)
  from patient_user_has_one_window [OF m(1)] m show ?thesis by simp
qed

lemma jump_from_other_page_is_lost_witness:
  "let p = jump_step id [] (toViewModel (\<lambda>t. t) 0) (foldl (jump_step id [] (toViewModel (\<lambda>t. t) 0)) (mount_for_jump 1000 (Num_id 3))
       [(1050, JE_frame_renders), (1230, JE_timers), (1240, JE_fetched (Inr [seed_1 0]))]) (1299, JE_timers)
   in sj_jumps (jp_jump p) = [] \<and> sj_target (jp_jump p) = None"
proof -
  have "id_truthy (Num_id 3)" "\<forall>e \<in> set [(1050, JE_frame_renders), (1230, JE_timers), (1240, JE_fetched (Inr [seed_1 0]))]. early 1000 e"
    by (simp_all add: id_truthy_def early_def)
  from jump_from_other_page_is_lost [OF this, of id "[]" "toViewModel (\<lambda>t. t) 0"] show ?thesis by (simp add: Let_def)
qed

end
