(* ===== verification/Voice_Capture.thy ===== *)
theory Voice_Capture
  imports Voice_Nlp Task_List Mock_Backend Time_Service Json
begin

text \<open>
  Adding a task by voice: what is made of the language model's answer, \<open>frontend/src/lib/voiceGemini.js\<close>,
  and the dialogue \<open>components/VoiceTaskCapture/VoiceTaskCapture.jsx\<close> with its briefing, its
  recognition, its timeouts and the one flag \<open>cancelRef\<close> that all its sessions share.  The speech
  services and the model's service are not modelled; what they answer is an argument.
\<close>

subsection \<open>Values of the answer\<close>

definition latin :: "ustring \<Rightarrow> string option" where
  "latin s = (if \<forall>c \<in> set s. c < 128 then Some (map char_of s) else None)"

text \<open>\<open>Number(x)\<close> of a JSON value; an array is the number of its only element's text.\<close>

fun json_Number :: "json \<Rightarrow> js_value_num" where
  "json_Number J_null = JNum 0"
| "json_Number (J_bool b) = JNum (if b then 1 else 0)"
| "json_Number (J_num n) = (case latin n of None \<Rightarrow> JNaN | Some s \<Rightarrow> (case js_Number s of None \<Rightarrow> JNaN | Some x \<Rightarrow> JNum x))"
| "json_Number (J_str t) = (case latin t of None \<Rightarrow> JNaN | Some s \<Rightarrow> (case js_Number s of None \<Rightarrow> JNaN | Some x \<Rightarrow> JNum x))"
| "json_Number (J_arr []) = JNum 0"
| "json_Number (J_arr [v]) = (case v of J_bool _ \<Rightarrow> JNaN | J_obj _ \<Rightarrow> JNaN | _ \<Rightarrow> json_Number v)"
| "json_Number (J_arr (v # w # vs)) = JNaN"
| "json_Number (J_obj _) = JNaN"

definition json_truthy :: "json \<Rightarrow> bool" where
  "json_truthy v =
     (case v of
        J_null \<Rightarrow> False
      | J_bool b \<Rightarrow> b
      | J_num _ \<Rightarrow> json_Number v \<noteq> JNum 0
      | J_str t \<Rightarrow> t \<noteq> []
      | _ \<Rightarrow> True)"

text \<open>\<open>parsed.k\<close>, \<open>a || b\<close> and \<open>a ?? b\<close>.\<close>

definition member :: "json \<Rightarrow> string \<Rightarrow> json option" where
  "member v k = (case v of J_obj ms \<Rightarrow> lookup ms (ascii k) | _ \<Rightarrow> None)"

definition truthy_member :: "json option \<Rightarrow> json option" where
  "truthy_member v = (case v of None \<Rightarrow> None | Some x \<Rightarrow> if json_truthy x then Some x else None)"

definition present_member :: "json option \<Rightarrow> json option" where
  "present_member v = (if v = Some J_null then None else v)"

fun jn_min :: "js_value_num \<Rightarrow> js_value_num \<Rightarrow> js_value_num" where
  "jn_min (JNum x) (JNum y) = JNum (min x y)"
| "jn_min _ _ = JNaN"

subsection \<open>The model's answer (lib/voiceGemini.js)\<close>

datatype voice_deadline = VD_none | VD_instant int | VD_said json

record capture_result =
  cap_title :: ustring
  cap_deadline :: voice_deadline
  cap_importance :: js_value_num
  cap_category :: json
  cap_energy :: energy
  cap_minutes :: json
  cap_tts :: "json option"

definition energy_of_json :: "json option \<Rightarrow> energy" where
  "energy_of_json v =
     (if v = Some (J_str (ascii ''LOW'')) then LOW else if v = Some (J_str (ascii ''HIGH'')) then HIGH else MEDIUM)"

text \<open>
  \<open>None\<close> is \<open>null\<close>: an unusable title.  Reading a member of \<open>null\<close> throws, which the caller turns
  into \<open>null\<close> as well.
\<close>

definition gemini_result :: "json \<Rightarrow> capture_result option" where
  "gemini_result parsed =
     (case member parsed ''title'' of
        Some (J_str title) \<Rightarrow>
          if title = [] then None
          else Some
            \<lparr>cap_title = trim title,
             cap_deadline = (case truthy_member (member parsed ''deadline'') of None \<Rightarrow> VD_none | Some v \<Rightarrow> VD_said v),
             cap_importance = jn_max (JNum 1) (jn_min (JNum 5)
                (case present_member (member parsed ''importance'') of None \<Rightarrow> JNum 3 | Some v \<Rightarrow> json_Number v)),
             cap_category = or_default (truthy_member (member parsed ''category'')) (J_str [0xC5C5, 0xBB34]),
             cap_energy = energy_of_json (member parsed ''requiredEnergy''),
             cap_minutes = or_default (present_member (member parsed ''estimatedMinutes'')) (J_num (ascii ''30'')),
             cap_tts = truthy_member (member parsed ''ttsResponse'')\<rparr>
      | _ \<Rightarrow> None)"

text \<open>The service: the request failed, its status was bad, or it answered with perhaps a text.\<close>

datatype gemini_reply = G_threw | G_bad_status | G_text "ustring option"

definition parseWithGemini :: "bool \<Rightarrow> ustring \<Rightarrow> gemini_reply \<Rightarrow> capture_result option" where
  "parseWithGemini key spoken reply =
     (if \<not> key \<or> trim spoken = [] then None
      else (case reply of
              G_text (Some raw) \<Rightarrow>
                if raw = [] then None
                else (case parse_json raw of None \<Rightarrow> None | Some parsed \<Rightarrow> gemini_result parsed)
            | _ \<Rightarrow> None))"

definition local_briefing :: "nat \<Rightarrow> nat \<Rightarrow> ustring" where
  "local_briefing tasks zombies =
     (if tasks = 0 \<and> zombies = 0 then [0xC624, 0xB298, 0x20, 0xC608, 0xC815, 0xB41C, 0x20, 0xC791, 0xC5C5,
        0xC774, 0x20, 0xC5C6, 0xC2B5, 0xB2C8, 0xB2E4, 0x2E, 0x20, 0xC5B4, 0xB5A4, 0x20, 0xC791, 0xC5C5, 0xC744,
           0x20, 0xD558, 0xC2E4, 0x20, 0xAC74, 0xAC00, 0xC694, 0x3F]
      else (let parts = (if tasks > 0 then [[0xC624, 0xB298, 0x20, 0xB0A8, 0xC740, 0x20, 0xC791, 0xC5C5, 0xC774,
         0x20] @ ascii (show_nat tasks) @ [0xAC1C]] else [])
                       @ (if zombies > 0 then [[0xBBF8, 0xB904, 0xC9C4, 0x20, 0xC791, 0xC5C5, 0xC774,
                          0x20] @ ascii (show_nat zombies) @ [0xAC1C]] else [])
            in join_parts parts @ [0x20, 0xC788, 0xC2B5, 0xB2C8, 0xB2E4, 0x2E, 0x20, 0xC5B4, 0xB5A4, 0x20, 0xC791,
               0xC5C5, 0xC744, 0x20, 0xCD94, 0xAC00, 0xD560, 0xAE4C, 0xC694, 0x3F]))"

definition fallback_briefing :: "nat \<Rightarrow> nat \<Rightarrow> ustring" where
  "fallback_briefing tasks zombies =
     [0xC624, 0xB298, 0x20, 0xB0A8, 0xC740, 0x20, 0xC791, 0xC5C5, 0xC774, 0x20] @ ascii (show_nat tasks) @ [0xAC1C,
        0x2C, 0x20, 0xBBF8, 0xB904, 0xC9C4, 0x20, 0xC791, 0xC5C5, 0xC774, 0x20] @ ascii (show_nat zombies)
     @ [0xAC1C, 0x20, 0xC788, 0xC2B5, 0xB2C8, 0xB2E4, 0x2E, 0x20, 0xCD94, 0xAC00, 0xB85C, 0x20, 0xC5B4, 0xB5A4,
        0x20, 0xC791, 0xC5C5, 0xC744, 0x20, 0xB4F1, 0xB85D, 0xD560, 0xAE4C, 0xC694, 0x3F]"

definition generateBriefing :: "bool \<Rightarrow> nat \<Rightarrow> nat \<Rightarrow> gemini_reply \<Rightarrow> ustring" where
  "generateBriefing key tasks zombies reply =
     (if \<not> key then local_briefing tasks zombies
      else (case reply of
              G_text (Some t) \<Rightarrow> if t = [] then fallback_briefing tasks zombies else filter (\<lambda>c. c \<noteq> 42) (trim t)
            | _ \<Rightarrow> fallback_briefing tasks zombies))"

text \<open>The rule-based parser's result in the same shape.\<close>

definition local_result :: "voice_task \<Rightarrow> capture_result" where
  "local_result v =
     \<lparr>cap_title = vt_title v,
      cap_deadline = (case vt_deadline v of None \<Rightarrow> VD_none | Some t \<Rightarrow> VD_instant t),
      cap_importance = JNum (of_int (vt_importance v)), cap_category = J_str (vt_category v),
      cap_energy = vt_requiredEnergy v, cap_minutes = J_num (ascii (show_int (vt_estimatedMinutes v))), cap_tts = None\<rparr>"

subsection \<open>The dialogue (VoiceTaskCapture.jsx)\<close>

datatype voice_phase =
    VP_idle | VP_preparing | VP_briefing | VP_listening | VP_parsing | VP_parsed | VP_creating | VP_done | VP_error
  | VP_unsupported

datatype voice_timer = T_create capture_result | T_close

text \<open>
  \<open>vc_session\<close> numbers the openings; the closures of a session see its own \<open>cancelled\<close>, the numbers
  in \<open>vc_cancelled\<close>.  \<open>vc_asked\<close> are the texts for which the model's answer is awaited, \<open>vc_sent\<close>
  the tasks whose creation has been requested, \<open>vc_open\<close> is the state of the parent.
\<close>

record voice_dialog =
  vc_open :: bool
  vc_session :: nat
  vc_cancelled :: "nat list"
  vc_cancelRef :: bool
  vc_phase :: voice_phase
  vc_briefing :: ustring
  vc_transcript :: ustring
  vc_result :: "capture_result option"
  vc_timers :: "(int \<times> voice_timer) list"
  vc_asked :: "ustring list"
  vc_sent :: "capture_result list"

definition new_dialog :: voice_dialog where
  "new_dialog = \<lparr>vc_open = False, vc_session = 0, vc_cancelled = [], vc_cancelRef = False, vc_phase = VP_idle,
     vc_briefing = [], vc_transcript = [], vc_result = None, vc_timers = [], vc_asked = [], vc_sent = []\<rparr>"

definition open_dialog :: "bool \<Rightarrow> voice_dialog \<Rightarrow> voice_dialog" where
  "open_dialog supported d =
     (if vc_open d then d
      else d\<lparr>vc_open := True, vc_session := vc_session d + 1, vc_cancelRef := False, vc_transcript := [],
             vc_result := None, vc_briefing := [],
             vc_phase := (if supported then VP_preparing else VP_unsupported)\<rparr>)"

text \<open>
  The clean-up of the effect; a browser without speech has none, so there \<open>cancelRef\<close> stays.
\<close>

definition close_dialog :: "bool \<Rightarrow> voice_dialog \<Rightarrow> voice_dialog" where
  "close_dialog supported d =
     (if \<not> vc_open d then d
      else (let d' = d\<lparr>vc_open := False\<rparr>
            in if supported then d'\<lparr>vc_cancelled := vc_session d # vc_cancelled d, vc_cancelRef := True\<rparr> else d'))"

definition is_cancelled :: "nat \<Rightarrow> voice_dialog \<Rightarrow> bool" where
  "is_cancelled s d \<longleftrightarrow> s \<in> set (vc_cancelled d)"

text \<open>A failed briefing speaks the prompt and leaves the phase.\<close>

definition briefing_ready :: "nat \<Rightarrow> ustring answer \<Rightarrow> voice_dialog \<Rightarrow> voice_dialog" where
  "briefing_ready s reply d =
     (if is_cancelled s d then d
      else (case reply of Inr t \<Rightarrow> d\<lparr>vc_briefing := t, vc_phase := VP_briefing\<rparr> | Inl _ \<Rightarrow> d))"

definition startListening :: "nat \<Rightarrow> bool \<Rightarrow> voice_dialog \<Rightarrow> voice_dialog" where
  "startListening s starts d =
     (if is_cancelled s d then d else d\<lparr>vc_phase := (if starts then VP_listening else VP_error)\<rparr>)"

definition local_parse :: "zone \<Rightarrow> int \<Rightarrow> ustring \<Rightarrow> voice_dialog \<Rightarrow> voice_dialog" where
  "local_parse z now spoken d =
     (if vc_cancelRef d then d
      else (case parseVoiceInput z now spoken of
              Inl _ \<Rightarrow> d
            | Inr v \<Rightarrow> d\<lparr>vc_result := Some (local_result v), vc_phase := VP_parsed,
                         vc_timers := vc_timers d @ [(now + 1800, T_create (local_result v))]\<rparr>))"

definition smartParse :: "bool \<Rightarrow> zone \<Rightarrow> int \<Rightarrow> ustring \<Rightarrow> voice_dialog \<Rightarrow> voice_dialog" where
  "smartParse key z now spoken d =
     (if vc_cancelRef d then d
      else (let d' = d\<lparr>vc_phase := VP_parsing\<rparr>
            in if key then d'\<lparr>vc_asked := vc_asked d @ [spoken]\<rparr> else local_parse z now spoken d'))"

text \<open>The rest of \<open>smartParse\<close> when the model has answered.\<close>

definition gemini_answered :: "zone \<Rightarrow> int \<Rightarrow> ustring \<Rightarrow> gemini_reply \<Rightarrow> voice_dialog \<Rightarrow> voice_dialog" where
  "gemini_answered z now spoken reply d =
     (if spoken \<notin> set (vc_asked d) then d
      else (let d' = d\<lparr>vc_asked := remove1 spoken (vc_asked d)\<rparr>
            in case parseWithGemini True spoken reply of
                 Some r \<Rightarrow>
                   (if vc_cancelRef d' then d'
                    else d'\<lparr>vc_result := Some r, vc_phase := VP_parsed,
                            vc_timers := vc_timers d' @ [(now + 2000, T_create r)]\<rparr>)
               | None \<Rightarrow> local_parse z now spoken d'))"

definition handleVoiceResult :: "bool \<Rightarrow> zone \<Rightarrow> int \<Rightarrow> ustring \<Rightarrow> voice_dialog \<Rightarrow> voice_dialog" where
  "handleVoiceResult key z now spoken d = smartParse key z now spoken (d\<lparr>vc_transcript := spoken\<rparr>)"

definition recognised :: "bool \<Rightarrow> zone \<Rightarrow> int \<Rightarrow> nat \<Rightarrow> ustring option \<Rightarrow> voice_dialog \<Rightarrow> voice_dialog" where
  "recognised key z now s spoken d =
     (if is_cancelled s d then d
      else (case spoken of
              None \<Rightarrow> d\<lparr>vc_phase := VP_error\<rparr>
            | Some t \<Rightarrow> if trim t = [] then d\<lparr>vc_phase := VP_error\<rparr> else handleVoiceResult key z now (trim t) d))"

definition showManual :: "voice_dialog \<Rightarrow> bool" where
  "showManual d \<longleftrightarrow> vc_phase d = VP_unsupported \<or> vc_phase d = VP_error"

definition showParsed :: "voice_dialog \<Rightarrow> bool" where
  "showParsed d \<longleftrightarrow> vc_phase d = VP_parsed \<or> vc_phase d = VP_creating \<or> vc_phase d = VP_done"

definition submit_manual :: "bool \<Rightarrow> zone \<Rightarrow> int \<Rightarrow> ustring \<Rightarrow> voice_dialog \<Rightarrow> voice_dialog" where
  "submit_manual key z now text d =
     (if vc_open d \<and> showManual d \<and> trim text \<noteq> [] then handleVoiceResult key z now (trim text) d else d)"

text \<open>\<open>createFromParsed\<close> up to its request, and what follows the answer.\<close>

definition createFromParsed :: "capture_result \<Rightarrow> voice_dialog \<Rightarrow> voice_dialog" where
  "createFromParsed r d =
     (if vc_cancelRef d then d else d\<lparr>vc_phase := VP_creating, vc_sent := vc_sent d @ [r]\<rparr>)"

definition create_answered :: "int \<Rightarrow> capture_result \<Rightarrow> unit answer \<Rightarrow> voice_dialog \<Rightarrow> voice_dialog" where
  "create_answered now r reply d =
     (case reply of
        Inr _ \<Rightarrow> d\<lparr>vc_transcript := cap_title r, vc_phase := VP_done, vc_timers := vc_timers d @ [(now + 2200, T_close)]\<rparr>
      | Inl _ \<Rightarrow> d\<lparr>vc_phase := VP_error\<rparr>)"

fun fire_timer :: "bool \<Rightarrow> voice_timer \<Rightarrow> voice_dialog \<Rightarrow> voice_dialog" where
  "fire_timer supported (T_create r) d = createFromParsed r d"
| "fire_timer supported T_close d = (if vc_cancelRef d then d else close_dialog supported d)"

definition run_timers :: "bool \<Rightarrow> int \<Rightarrow> voice_dialog \<Rightarrow> voice_dialog" where
  "run_timers supported now d =
     (let out = filter (\<lambda>t. fst t \<le> now) (vc_timers d);
          d' = d\<lparr>vc_timers := filter (\<lambda>t. \<not> fst t \<le> now) (vc_timers d)\<rparr>
      in fold (\<lambda>t. fire_timer supported (snd t)) out d')"

text \<open>
  The request of a capture: it has minutes but no \<open>estimated_duration\<close>.  \<open>read_date\<close> is what the host's
  \<open>Date\<close> reads from a deadline of the language model.  (An importance that is no whole number, minutes
  that are no number and a category that is no text do not fit the model of the back end; the first
  is cut, the others are left out.)
\<close>

definition capture_request :: "(json \<Rightarrow> js_date) \<Rightarrow> capture_result \<Rightarrow> new_task" where
  "capture_request read_date r =
     \<lparr>nt_title = cap_title r, nt_description = None,
      nt_estimatedMinutes = (case json_Number (cap_minutes r) of JNum x \<Rightarrow> Some x | JNaN \<Rightarrow> None),
      nt_estimated_duration = None,
      nt_deadline = (case cap_deadline r of VD_instant t \<Rightarrow> Some (At t) | VD_said v \<Rightarrow> Some (read_date v) | VD_none \<Rightarrow> None),
      nt_requiredEnergy = Some (cap_energy r),
      nt_importance = (case cap_importance r of JNum x \<Rightarrow> Some \<lfloor>x\<rfloor> | JNaN \<Rightarrow> None),
      nt_isPriority = None,
      nt_category = (case cap_category r of J_str t \<Rightarrow> Some t | _ \<Rightarrow> None)\<rparr>"

definition formatDeadline :: "zone \<Rightarrow> int option \<Rightarrow> ustring option" where
  "formatDeadline z d =
     (case d of
        None \<Rightarrow> None
      | Some t \<Rightarrow>
          Some (ascii (show_int (getMonth z t + 1)) @ ascii ''/'' @ ascii (show_int (getDate z t)) @ ascii '' (''
            @ [[0xC77C, 0xC6D4, 0xD654, 0xC218, 0xBAA9, 0xAE08, 0xD1A0] ! nat (getDay z t)] @ ascii '')''))"

subsection \<open>Runs\<close>

datatype voice_event =
    E_open | E_close | E_briefing nat "ustring answer" | E_listen nat bool | E_heard nat "ustring option"
  | E_manual ustring | E_gemini ustring gemini_reply | E_timers | E_created capture_result "unit answer"

fun voice_step :: "bool \<Rightarrow> bool \<Rightarrow> zone \<Rightarrow> voice_dialog \<Rightarrow> int \<times> voice_event \<Rightarrow> voice_dialog" where
  "voice_step key speech z d (now, E_open) = open_dialog speech d"
| "voice_step key speech z d (now, E_close) = close_dialog speech d"
| "voice_step key speech z d (now, E_briefing s r) = briefing_ready s r d"
| "voice_step key speech z d (now, E_listen s b) = startListening s b d"
| "voice_step key speech z d (now, E_heard s t) = recognised key z now s t d"
| "voice_step key speech z d (now, E_manual t) = submit_manual key z now t d"
| "voice_step key speech z d (now, E_gemini t r) = gemini_answered z now t r d"
| "voice_step key speech z d (now, E_timers) = run_timers speech now d"
| "voice_step key speech z d (now, E_created r a) = create_answered now r a d"

definition voice_run :: "bool \<Rightarrow> bool \<Rightarrow> zone \<Rightarrow> voice_dialog \<Rightarrow> (int \<times> voice_event) list \<Rightarrow> voice_dialog" where
  "voice_run key speech z d es = foldl (voice_step key speech z) d es"

text \<open>A task in the dialogue: asked about, waiting for its timeout, or sent.\<close>

fun is_create :: "voice_timer \<Rightarrow> bool" where
  "is_create (T_create _) = True"
| "is_create T_close = False"

definition creates :: "(int \<times> voice_timer) list \<Rightarrow> nat" where
  "creates ts = length (filter (\<lambda>t. is_create (snd t)) ts)"

definition tasks_in :: "voice_dialog \<Rightarrow> nat" where
  "tasks_in d = length (vc_sent d) + creates (vc_timers d) + length (vc_asked d)"

fun is_utterance :: "voice_event \<Rightarrow> bool" where
  "is_utterance (E_heard _ (Some _)) = True"
| "is_utterance (E_manual _) = True"
| "is_utterance _ = False"

lemma creates_simps [simp]:
  "creates [] = 0" "creates (xs @ ys) = creates xs + creates ys"
  "creates ((n, T_create r) # xs) = Suc (creates xs)" "creates ((n, T_close) # xs) = creates xs"
  by (simp_all add: creates_def)

lemma creates_split: "creates (filter P ts) + creates (filter (\<lambda>t. \<not> P t) ts) = creates ts"
proof (induction ts)
  case (Cons t ts)
  obtain n k where "t = (n, k)" by (cases t)
  with Cons show ?case by (cases k) simp_all
qed simp

lemma local_parse_tasks: "tasks_in (local_parse z now s d) \<le> Suc (tasks_in d)"
  by (simp add: local_parse_def tasks_in_def split: sum.splits)

lemma smartParse_tasks: "tasks_in (smartParse key z now s d) \<le> Suc (tasks_in d)"
  using local_parse_tasks [of z now s "d\<lparr>vc_phase := VP_parsing\<rparr>"]
  by (simp add: smartParse_def Let_def) (simp add: tasks_in_def)

lemma gemini_tasks: "tasks_in (gemini_answered z now s r d) \<le> tasks_in d"
proof (cases "s \<in> set (vc_asked d)")
  case True
  then have "0 < length (vc_asked d)" by (cases "vc_asked d") simp_all
  then have "Suc (tasks_in (d\<lparr>vc_asked := remove1 s (vc_asked d)\<rparr>)) = tasks_in d"
    using True by (simp add: tasks_in_def length_remove1)
  then show ?thesis
    using True local_parse_tasks [of z now s "d\<lparr>vc_asked := remove1 s (vc_asked d)\<rparr>"]
    by (auto simp: gemini_answered_def Let_def tasks_in_def split: option.splits)
qed (simp add: gemini_answered_def)

lemma fire_tasks:
  "vc_timers (fire_timer speech k d) = vc_timers d \<and> vc_asked (fire_timer speech k d) = vc_asked d
   \<and> length (vc_sent (fire_timer speech k d)) \<le> length (vc_sent d) + (if is_create k then 1 else 0)"
  by (cases k) (auto simp: createFromParsed_def close_dialog_def Let_def)

lemma fold_fire_tasks:
  "vc_timers (fold (\<lambda>t. fire_timer speech (snd t)) ts d) = vc_timers d
   \<and> vc_asked (fold (\<lambda>t. fire_timer speech (snd t)) ts d) = vc_asked d
   \<and> length (vc_sent (fold (\<lambda>t. fire_timer speech (snd t)) ts d)) \<le> length (vc_sent d) + creates ts"
proof (induction ts arbitrary: d)
  case (Cons t ts)
  obtain n k where "t = (n, k)" by (cases t)
  then show ?case using Cons [of "fire_timer speech k d"] fire_tasks [of speech k d] by (cases k) auto
qed simp

lemma timers_tasks: "tasks_in (run_timers speech now d) \<le> tasks_in d"
  using fold_fire_tasks [of speech "filter (\<lambda>t. fst t \<le> now) (vc_timers d)"
      "d\<lparr>vc_timers := filter (\<lambda>t. \<not> fst t \<le> now) (vc_timers d)\<rparr>"]
    creates_split [of "\<lambda>t. fst t \<le> now" "vc_timers d"]
  by (simp add: run_timers_def Let_def tasks_in_def)

lemma tasks_in_cong:
  "vc_sent d' = vc_sent d \<Longrightarrow> vc_timers d' = vc_timers d \<Longrightarrow> vc_asked d' = vc_asked d \<Longrightarrow> tasks_in d' = tasks_in d"
  by (simp add: tasks_in_def)

lemma handleVoiceResult_tasks: "tasks_in (handleVoiceResult key z now t d) \<le> Suc (tasks_in d)"
  using smartParse_tasks [of key z now t "d\<lparr>vc_transcript := t\<rparr>"] by (simp add: handleVoiceResult_def tasks_in_def)

lemma voice_step_tasks: "tasks_in (voice_step key speech z d (now, e)) \<le> tasks_in d + (if is_utterance e then 1 else 0)"
proof (cases e)
  case (E_heard s t)
  have "tasks_in (d\<lparr>vc_phase := VP_error\<rparr>) = tasks_in d" by (rule tasks_in_cong) simp_all
  then show ?thesis
    using E_heard handleVoiceResult_tasks [of key z now "trim (the t)" d]
    by (cases t) (auto simp: recognised_def)
next
  case (E_manual t)
  then show ?thesis using handleVoiceResult_tasks [of key z now "trim t" d] by (auto simp: submit_manual_def)
next
  case (E_created r a)
  then show ?thesis by (cases a) (simp_all add: create_answered_def tasks_in_def)
qed (auto simp: open_dialog_def close_dialog_def briefing_ready_def startListening_def gemini_tasks timers_tasks Let_def
    intro!: eq_imp_le tasks_in_cong split: sum.splits)

text \<open>While the flag is set nothing is sent.\<close>

lemma cancelled_fire:
  "vc_cancelRef d \<Longrightarrow> vc_cancelRef (fire_timer speech k d) \<and> vc_sent (fire_timer speech k d) = vc_sent d"
  by (cases k) (simp_all add: createFromParsed_def)

lemma cancelled_fold:
  "vc_cancelRef d \<Longrightarrow> vc_cancelRef (fold (\<lambda>t. fire_timer speech (snd t)) ts d)
     \<and> vc_sent (fold (\<lambda>t. fire_timer speech (snd t)) ts d) = vc_sent d"
  by (induction ts arbitrary: d) (simp_all add: cancelled_fire)

lemma cancelled_parse:
  "vc_cancelRef d \<Longrightarrow> smartParse key z now t d = d"
  "vc_cancelRef d \<Longrightarrow> local_parse z now t d = d"
  by (simp_all add: smartParse_def local_parse_def)

lemma cancelled_step:
  "vc_cancelRef d \<Longrightarrow> e \<noteq> E_open \<Longrightarrow>
   vc_cancelRef (voice_step key speech z d (now, e)) \<and> vc_sent (voice_step key speech z d (now, e)) = vc_sent d"
proof (cases e)
  case (E_gemini t r)
  assume "vc_cancelRef d"
  with E_gemini show ?thesis by (simp add: gemini_answered_def cancelled_parse Let_def split: option.splits)
next
  case E_timers
  assume "vc_cancelRef d"
  with E_timers show ?thesis by (simp add: run_timers_def Let_def cancelled_fold)
next
  case (E_heard s t)
  assume "vc_cancelRef d"
  with E_heard show ?thesis by (cases t) (simp_all add: recognised_def handleVoiceResult_def cancelled_parse)
qed (simp_all add: close_dialog_def briefing_ready_def startListening_def submit_manual_def handleVoiceResult_def
    cancelled_parse create_answered_def Let_def split: sum.splits)

lemma cancelled_run:
  "vc_cancelRef d \<Longrightarrow> \<forall>(n, e) \<in> set es. e \<noteq> E_open \<Longrightarrow> vc_sent (voice_run key speech z d es) = vc_sent d"
  unfolding voice_run_def
proof (induction es arbitrary: d)
  case (Cons ne es)
  obtain n e where ne: "ne = (n, e)" by (cases ne)
  with Cons.prems have "vc_cancelRef (voice_step key speech z d (n, e)) \<and> vc_sent (voice_step key speech z d (n, e)) = vc_sent d"
    by (intro cancelled_step) auto
  with Cons.IH [of "voice_step key speech z d (n, e)"] Cons.prems(2) ne show ?case by simp
qed simp

subsection \<open>Properties\<close>

text \<open>
  No utterance becomes two tasks: in every run, whatever is heard, typed, answered, closed and
  reopened, at most as many creations are requested as texts were heard or typed.
\<close>

theorem each_utterance_at_most_once:
  "length (vc_sent (voice_run key speech z new_dialog es)) \<le> length (filter (\<lambda>(n, e). is_utterance e) es)"
proof -
  have "tasks_in (voice_run key speech z d es) \<le> tasks_in d + length (filter (\<lambda>(n, e). is_utterance e) es)" for d
    unfolding voice_run_def
  proof (induction es arbitrary: d)
    case (Cons ne es)
    obtain n e where ne: "ne = (n, e)" by (cases ne)
    from Cons [of "voice_step key speech z d (n, e)"] voice_step_tasks [of key speech z d n e] ne show ?case
      by (cases "is_utterance e") (simp_all add: order_trans)
  qed simp
  from this [of new_dialog] show ?thesis by (simp add: tasks_in_def new_dialog_def creates_def)
qed

text \<open>
  C25. A dialogue that is closed stays silent: in a browser with speech, after the open dialogue has been
  closed no task is created any more, as long as it is not opened again.
\<close>

theorem closed_dialog_creates_nothing:
  assumes "vc_open d" and "\<forall>(n, e) \<in> set es. e \<noteq> E_open"
  shows "vc_sent (voice_run key True z (close_dialog True d) es) = vc_sent d"
  using cancelled_run [OF _ assms(2), of "close_dialog True d" key True z] assms(1)
  by (simp add: close_dialog_def Let_def)

lemma closed_dialog_creates_nothing_witness:
  "vc_sent (voice_run True True (fixed_zone 0) (close_dialog True (open_dialog True new_dialog))
     [(0, E_heard 1 (Some [0x41])), (5000, E_timers)]) = vc_sent (open_dialog True new_dialog)"
  by (rule closed_dialog_creates_nothing) (simp_all add: open_dialog_def new_dialog_def)

text \<open>
  Opening it again revives what was cancelled: a text heard in the first session, the dialogue closed
  and opened again, and when the timeout of the first session runs its task is created after all.
\<close>

theorem reopened_dialog_creates_cancelled_task:
  assumes "parseVoiceInput z t1 (trim s) = Inr v" "trim s \<noteq> []" "t1 + 1800 \<le> t4"
  shows "vc_sent (voice_run False True z new_dialog
           [(t0, E_open), (t1, E_heard 1 (Some s)), (t2, E_close), (t3, E_open), (t4, E_timers)]) = [local_result v]"
  using assms
  by (simp add: voice_run_def new_dialog_def open_dialog_def recognised_def is_cancelled_def handleVoiceResult_def
      smartParse_def local_parse_def close_dialog_def run_timers_def createFromParsed_def Let_def)

text \<open>
  What the language model says is brought into range: a usable answer has a non-empty title before
  it is trimmed, an importance that is no number or lies between 1 and 5, and an importance within
  that range is kept.
\<close>

theorem gemini_importance_in_range:
  assumes "gemini_result p = Some r"
  shows "(cap_importance r = JNaN \<or> (\<exists>x. cap_importance r = JNum x \<and> 1 \<le> x \<and> x \<le> 5))
     \<and> (\<forall>v x. member p ''importance'' \<noteq> Some v \<or> v = J_null \<or> json_Number v \<noteq> JNum x \<or> x < 1 \<or> 5 < x
          \<or> cap_importance r = JNum x)
     \<and> trimmed (cap_title r)"
proof -
  define n where "n = (case present_member (member p ''importance'') of None \<Rightarrow> JNum 3 | Some v \<Rightarrow> json_Number v)"
  from assms have i: "cap_importance r = jn_max (JNum 1) (jn_min (JNum 5) n)"
    by (auto simp: gemini_result_def n_def split: option.splits json.splits if_splits)
  have "trimmed (cap_title r)"
    using assms by (auto simp: gemini_result_def trim_trimmed split: option.splits json.splits if_splits)
  moreover have "cap_importance r = JNaN \<or> (\<exists>x. cap_importance r = JNum x \<and> 1 \<le> x \<and> x \<le> 5)"
    using i by (cases n) auto
  moreover have "cap_importance r = JNum x"
    if "member p ''importance'' = Some v" "v \<noteq> J_null" "json_Number v = JNum x" "\<not> x < 1" "\<not> 5 < x" for v x
    using that i by (simp add: n_def present_member_def)
  ultimately show ?thesis by blast
qed

text \<open>
  A task created by voice has no duration for the budget: the mock accepts it and its remaining time
  is no number from then on, and the alarm server refuses the same request.
\<close>

theorem voice_task_breaks_budget:
  "(\<exists>m' t. mock_createTaskWithBudget m now (capture_request read_date r) = Inr (m', t)
      \<and> at_remaining (mock_getAvailableTime m') = JNaN)
   \<and> (\<exists>e. post_tasks z u (Some (cap_title r)) Missing False now' db = (Inl e, db))"
proof
  show "\<exists>m' t. mock_createTaskWithBudget m now (capture_request read_date r) = Inr (m', t)
      \<and> at_remaining (mock_getAvailableTime m') = JNaN"
    using missing_duration_disables_budget [of "capture_request read_date r" m now] by (auto simp: capture_request_def)
  show "\<exists>e. post_tasks z u (Some (cap_title r)) Missing False now' db = (Inl e, db)"
    by (simp add: post_tasks_def answer_def reserveAndCreateTask_def check_duration_def as_integer_def)
qed

end
