(* ===== verification/Voice_Screen.thy ===== *)
theory Voice_Screen
  imports Voice_Capture Screen
begin

text \<open>
  What the dialogue \<open>frontend/src/components/VoiceTaskCapture/VoiceTaskCapture.jsx\<close> shows in each of its
  phases: the status, the text that was heard, the card of the understood task and the form for typing.
  Its events are those of \<open>Voice_Capture\<close>; here is which of them its user can cause when, and that the
  card shows the task that is going to be created.
\<close>

subsection \<open>What is rendered\<close>

datatype voice_control = VC_close | VC_type ustring | VC_submit

fun read_manual :: "voice_control \<Rightarrow> ustring option" where
  "read_manual (VC_type t) = Some t"
| "read_manual _ = None"

text \<open>A number that is no key of the table gives \<open>undefined\<close>, which renders as nothing.\<close>

definition IMPORTANCE_LABELS :: "js_value_num \<Rightarrow> ustring" where
  "IMPORTANCE_LABELS x =
     or_default (lookup [(JNum 5, [0xB9E4, 0xC6B0, 0x20, 0xB192, 0xC74C]), (JNum 4, [0xB192,
        0xC74C]), (JNum 3, [0xBCF4, 0xD1B5]), (JNum 2, [0xB0AE, 0xC74C]), (JNum 1, [0xB9E4, 0xC6B0, 0x20, 0xB0AE, 0xC74C])] x) []"

fun ENERGY_LABELS :: "energy \<Rightarrow> ustring" where
  "ENERGY_LABELS HIGH = [0xB192, 0xC74C]"
| "ENERGY_LABELS MEDIUM = [0xBCF4, 0xD1B5]"
| "ENERGY_LABELS LOW = [0xB0AE, 0xC74C]"

text \<open>
  A member of the model's reply as a child of an element: texts and numbers are shown, \<open>null\<close> and the
  truth values are not, of an array each element; an object makes React throw, \<open>None\<close>.
\<close>

fun child_text :: "json \<Rightarrow> ustring option" where
  "child_text (J_str s) = Some s"
| "child_text (J_num n) = Some n"
| "child_text J_null = Some []"
| "child_text (J_bool b) = Some []"
| "child_text (J_arr vs) = (let ts = map child_text vs in if None \<in> set ts then None else Some (concat (map the ts)))"
| "child_text (J_obj ms) = None"

text \<open>The tag of the deadline; \<open>said_date\<close> is how the host writes the date it reads from a deadline of the model.\<close>

definition deadline_tag :: "zone \<Rightarrow> (json \<Rightarrow> ustring) \<Rightarrow> voice_deadline \<Rightarrow> ustring option" where
  "deadline_tag z said_date d =
     (case d of
        VD_none \<Rightarrow> None
      | VD_instant t \<Rightarrow> map_option ((@) [0xD83D, 0xDCC5, 0x20]) (formatDeadline z (Some t))
      | VD_said v \<Rightarrow> Some ([0xD83D, 0xDCC5, 0x20] @ said_date v))"

definition voice_card :: "zone \<Rightarrow> (json \<Rightarrow> ustring) \<Rightarrow> bool \<Rightarrow> voice_phase \<Rightarrow> capture_result \<Rightarrow> voice_control widget list" where
  "voice_card z said_date gemini phase r =
     [Caption ([0xD83D, 0xDCDD, 0x20] @ cap_title r)] @ screen_when gemini [Caption [0x2728, 0x20, 0x47, 0x65,
        0x6D, 0x69, 0x6E, 0x69, 0x20, 0x41, 0x49]]
     @ (case deadline_tag z said_date (cap_deadline r) of None \<Rightarrow> [] | Some t \<Rightarrow> [Caption t])
     @ [Caption ([0x2B50, 0x20] @ IMPORTANCE_LABELS (cap_importance r)),
        Caption ([0xD83D, 0xDCC2, 0x20] @ or_default (child_text (cap_category r)) []),
        Caption ([0x26A1, 0x20] @ ENERGY_LABELS (cap_energy r)),
        Caption ([0x23F1, 0x20] @ or_default (child_text (cap_minutes r)) [] @ [0xBD84])]
     @ screen_when (phase = VP_creating) [Caption [0xAE30, 0xB85D, 0x20, 0xC911, 0x2026]]
     @ screen_when (phase = VP_done) [Caption [0x2705, 0x20, 0xAE30, 0xB85D, 0x20, 0xC644, 0xB8CC, 0x21]]"

definition phase_status :: "voice_dialog \<Rightarrow> voice_control widget list" where
  "phase_status d =
     (case vc_phase d of
        VP_preparing \<Rightarrow> [Caption [0xC791, 0xC5C5, 0x20, 0xD604, 0xD669, 0xC744, 0x20, 0xD30C, 0xC545,
           0x20, 0xC911, 0xC785, 0xB2C8, 0xB2E4, 0x2026]]
      | VP_briefing \<Rightarrow> [Caption (vc_briefing d), Caption [0xC790, 0xBE44, 0xC2A4, 0xAC00, 0x20, 0xBE0C,
         0xB9AC, 0xD551, 0x20, 0xC911, 0xC785, 0xB2C8, 0xB2E4, 0x2026]]
      | VP_listening \<Rightarrow> [Caption [0xB4E3, 0xACE0, 0x20, 0xC788, 0xC5B4, 0xC694, 0x20, 0x2014, 0x20,
         0xC791, 0xC5C5, 0xC744, 0x20, 0xB9D0, 0xC500, 0xD574, 0x20, 0xC8FC, 0xC138, 0xC694]]
      | VP_parsing \<Rightarrow> [Caption [0x41, 0x49, 0xAC00, 0x20, 0xBD84, 0xC11D, 0x20, 0xC911, 0xC774, 0xC5D0, 0xC694, 0x2026]]
      | _ \<Rightarrow> [])"

definition phase_notice :: "voice_phase \<Rightarrow> voice_control widget list" where
  "phase_notice phase =
     (case phase of
        VP_unsupported \<Rightarrow> [Caption [0xC774, 0x20, 0xBE0C, 0xB77C, 0xC6B0, 0xC800, 0xB294, 0x20, 0xC74C,
           0xC131, 0x20, 0xC778, 0xC2DD, 0xC744, 0x20, 0xC9C0, 0xC6D0, 0xD558, 0xC9C0, 0x20, 0xC54A, 0xC544,
              0xC694, 0x2E, 0x20, 0xC9C1, 0xC811, 0x20, 0xC785, 0xB825, 0xD574, 0x20, 0xC8FC, 0xC138, 0xC694, 0x2E]]
      | VP_error \<Rightarrow> [Caption [0xBABB, 0x20, 0xC54C, 0xC544, 0xB4E4, 0xC5C8, 0xC5B4, 0xC694, 0x2E, 0x20,
         0xC544, 0xB798, 0xC5D0, 0x20, 0xC9C1, 0xC811, 0x20, 0xC785, 0xB825, 0xD574, 0x20, 0xC8FC, 0xC138, 0xC694, 0x2E]]
      | _ \<Rightarrow> [])"

definition manual_form :: "ustring \<Rightarrow> voice_control widget list" where
  "manual_form manual = [Entry [0xC608, 0x3A, 0x20, 0xB0B4, 0xC77C, 0xAE4C, 0xC9C0, 0x20, 0xAE09, 0xD55C, 0x20,
     0xBCF4, 0xACE0, 0xC11C, 0x20, 0xC791, 0xC131] manual None read_manual, Button [0xCD94, 0xAC00] True VC_submit]"

definition shown_card :: "voice_dialog \<Rightarrow> capture_result option" where
  "shown_card d = (if showParsed d then vc_result d else None)"

definition voice_view :: "zone \<Rightarrow> (json \<Rightarrow> ustring) \<Rightarrow> bool \<Rightarrow> ustring \<Rightarrow> voice_dialog \<Rightarrow> voice_control widget list" where
  "voice_view z said_date gemini manual d =
     screen_when (vc_open d)
       ([Caption [0xD83C, 0xDF99, 0xFE0F, 0x20, 0xC74C, 0xC131, 0xC73C, 0xB85C, 0x20, 0xC791, 0xC5C5, 0x20, 0xCD94,
          0xAC00], Button [0xB2EB, 0xAE30] True VC_close]
        @ phase_status d
        @ screen_when (vc_transcript d \<noteq> [] \<and> (showParsed d \<or> vc_phase d = VP_parsing))
            [Caption ([0xD83D, 0xDDE3, 0xFE0F, 0x20, 0x22] @ vc_transcript d @ [0x22])]
        @ (case shown_card d of None \<Rightarrow> [] | Some r \<Rightarrow> voice_card z said_date gemini (vc_phase d) r)
        @ phase_notice (vc_phase d)
        @ screen_when (showManual d) (manual_form manual))"

text \<open>The event behind a control; typing changes the form only.\<close>

fun voice_control_event :: "ustring \<Rightarrow> voice_control \<Rightarrow> voice_event option" where
  "voice_control_event manual VC_close = Some E_close"
| "voice_control_event manual (VC_type t) = None"
| "voice_control_event manual VC_submit = Some (E_manual manual)"

subsection \<open>Lemmas\<close>

lemma voice_view_offers:
  "screen_offers (voice_view z sd g manual d) c \<longleftrightarrow> vc_open d \<and> (c = VC_close \<or> showManual d)"
proof -
  have "\<not> screen_offers (phase_status d) x" "\<not> screen_offers (phase_notice p) x" for x p
    by (auto simp: phase_status_def phase_notice_def split: voice_phase.splits)
  moreover have "\<not> screen_offers (case shown_card d of None \<Rightarrow> [] | Some r \<Rightarrow> voice_card z sd g (vc_phase d) r) x" for x
    by (auto simp: voice_card_def split: option.splits)
  ultimately show ?thesis by (cases c) (simp_all add: voice_view_def manual_form_def)
qed

text \<open>The tasks in the dialogue, with the result they carry: waiting for their timeout, or sent.\<close>

definition carried :: "voice_dialog \<Rightarrow> capture_result set" where
  "carried d = set (vc_sent d) \<union> {r. \<exists>n. (n, T_create r) \<in> set (vc_timers d)}"

definition card_true :: "voice_dialog \<Rightarrow> bool" where
  "card_true d \<longleftrightarrow> (\<forall>r \<in> carried d. vc_result d = Some r)"

lemma none_carried:
  assumes "tasks_in d = 0"
  shows "carried d = {}"
proof -
  have "vc_sent d = []" "filter (\<lambda>t. is_create (snd t)) (vc_timers d) = []" using assms by (auto simp: tasks_in_def creates_def)
  moreover have "is_create (snd (n, T_create r))" for n and r :: capture_result by simp
  ultimately show ?thesis by (auto simp: carried_def filter_empty_conv)
qed

lemma carried_cong: "vc_sent d' = vc_sent d \<Longrightarrow> vc_timers d' = vc_timers d \<Longrightarrow> carried d' = carried d"
  by (simp add: carried_def)

lemma card_true_cong:
  "card_true d \<Longrightarrow> vc_sent d' = vc_sent d \<Longrightarrow> vc_timers d' = vc_timers d \<Longrightarrow> vc_result d' = vc_result d \<Longrightarrow> card_true d'"
  by (simp add: card_true_def carried_def)

lemma card_true_local: "tasks_in d = 0 \<Longrightarrow> card_true d \<Longrightarrow> card_true (local_parse z now t d)"
  using none_carried [of d] by (auto simp: local_parse_def card_true_def carried_def split: sum.splits)

lemma card_true_parse: "tasks_in d = 0 \<Longrightarrow> card_true (smartParse key z now t d)"
proof -
  assume d: "tasks_in d = 0"
  then have z: "tasks_in (d\<lparr>vc_phase := VP_parsing\<rparr>) = 0" by (simp add: tasks_in_def)
  have c: "card_true d" "card_true (d\<lparr>vc_phase := VP_parsing\<rparr>)" using none_carried [OF d] none_carried [OF z] by (simp_all add: card_true_def)
  then have "card_true (d\<lparr>vc_phase := VP_parsing, vc_asked := x\<rparr>)" for x by (auto intro: card_true_cong)
  with c card_true_local [OF z] show ?thesis by (simp add: smartParse_def Let_def)
qed

lemma card_true_heard: "tasks_in d = 0 \<Longrightarrow> card_true (handleVoiceResult key z now t d)"
  unfolding handleVoiceResult_def by (rule card_true_parse) (simp add: tasks_in_def)

text \<open>The answer of the model belongs to the one text, so nothing else is carried.\<close>

lemma card_true_gemini:
  assumes "tasks_in d \<le> 1" "card_true d"
  shows "card_true (gemini_answered z now t r d)"
proof (cases "t \<in> set (vc_asked d)")
  case True
  define d' where "d' = d\<lparr>vc_asked := remove1 t (vc_asked d)\<rparr>"
  have "0 < length (vc_asked d)" using True by (cases "vc_asked d") simp_all
  then have "Suc (tasks_in d') = tasks_in d" using True by (simp add: tasks_in_def d'_def length_remove1)
  then have z: "tasks_in d' = 0" using assms(1) by simp
  have c: "card_true d'" using none_carried [OF z] by (simp add: card_true_def)
  have "card_true (d'\<lparr>vc_result := Some x, vc_phase := VP_parsed, vc_timers := vc_timers d' @ [(n, T_create x)]\<rparr>)" for x n
    using none_carried [OF z] by (auto simp: card_true_def carried_def)
  with c card_true_local [OF z c] True show ?thesis
    by (auto simp: gemini_answered_def Let_def d'_def [symmetric] split: option.splits)
qed (use assms in \<open>simp add: gemini_answered_def\<close>)

lemma carried_fire:
  "carried (fire_timer speech k d) \<subseteq> carried d \<union> (case k of T_create r \<Rightarrow> {r} | T_close \<Rightarrow> {})"
  "vc_result (fire_timer speech k d) = vc_result d"
  by (cases k; auto simp: carried_def createFromParsed_def close_dialog_def Let_def)+

lemma carried_fold:
  "carried (fold (\<lambda>t. fire_timer speech (snd t)) ts d) \<subseteq> carried d \<union> {r. \<exists>n. (n, T_create r) \<in> set ts}"
  "vc_result (fold (\<lambda>t. fire_timer speech (snd t)) ts d) = vc_result d"
proof (induction ts arbitrary: d)
  case (Cons t ts)
  {
    case 1
    show ?case using Cons.IH(1) [of "fire_timer speech (snd t) d"] carried_fire(1) [of speech "snd t" d]
      by (cases t; cases "snd t") fastforce+
  next
    case 2
    show ?case using Cons.IH(2) [of "fire_timer speech (snd t) d"] carried_fire(2) [of speech "snd t" d] by simp
  }
qed simp_all

lemma card_true_timers: "card_true d \<Longrightarrow> card_true (run_timers speech now d)"
proof -
  assume c: "card_true d"
  let ?out = "filter (\<lambda>t. fst t \<le> now) (vc_timers d)"
  let ?d = "d\<lparr>vc_timers := filter (\<lambda>t. \<not> fst t \<le> now) (vc_timers d)\<rparr>"
  have "carried (run_timers speech now d) \<subseteq> carried ?d \<union> {r. \<exists>n. (n, T_create r) \<in> set ?out}"
    using carried_fold(1) [of speech ?out ?d] by (simp add: run_timers_def Let_def)
  also have "\<dots> \<subseteq> carried d" by (auto simp: carried_def)
  finally have "carried (run_timers speech now d) \<subseteq> carried d" .
  moreover have "vc_result (run_timers speech now d) = vc_result d"
    using carried_fold(2) [of speech ?out ?d] by (simp add: run_timers_def Let_def)
  ultimately show ?thesis using c by (auto simp: card_true_def)
qed

lemma card_true_step:
  assumes "card_true d" "tasks_in d + (if is_utterance e then 1 else 0) \<le> 1" "e \<noteq> E_open"
  shows "card_true (voice_step key speech z d (now, e))"
proof (cases e)
  case (E_heard s t)
  have err: "card_true (d\<lparr>vc_phase := VP_error\<rparr>)" using assms(1) by (rule card_true_cong) simp_all
  show ?thesis
  proof (cases t)
    case None
    then show ?thesis using E_heard assms(1) err by (simp add: recognised_def)
  next
    case (Some x)
    then have "tasks_in d = 0" using E_heard assms(2) by simp
    then show ?thesis using E_heard Some assms(1) err by (simp add: recognised_def card_true_heard)
  qed
next
  case (E_manual t)
  then have "tasks_in d = 0" using assms(2) by simp
  then show ?thesis using E_manual assms(1) by (simp add: submit_manual_def card_true_heard)
next
  case (E_gemini t r)
  then show ?thesis using assms by (simp add: card_true_gemini)
next
  case E_timers
  then show ?thesis using assms(1) by (simp add: card_true_timers)
next
  case (E_created r a)
  have "card_true (d\<lparr>vc_transcript := x, vc_phase := VP_done, vc_timers := vc_timers d @ [(n, T_close)]\<rparr>)" for x n
    using assms(1) by (auto simp: card_true_def carried_def)
  moreover have "card_true (d\<lparr>vc_phase := VP_error\<rparr>)" using assms(1) by (rule card_true_cong) simp_all
  ultimately show ?thesis using E_created by (cases a) (simp_all add: create_answered_def)
qed (use assms in \<open>auto simp: close_dialog_def briefing_ready_def startListening_def Let_def intro: card_true_cong split: sum.splits\<close>)

subsection \<open>Properties\<close>


text \<open>
  The form is offered in two phases only, and there it is always offered; while a text is analysed or its
  task is shown, the only control is the one that closes the dialogue.
\<close>

theorem form_offered_when_not_understood:
  "screen_offers (voice_view z sd g manual d) VC_submit \<longleftrightarrow> vc_open d \<and> (vc_phase d = VP_unsupported \<or> vc_phase d = VP_error)"
  "vc_phase d = VP_parsing \<or> showParsed d \<Longrightarrow> screen_offers (voice_view z sd g manual d) c \<Longrightarrow> c = VC_close"
  by (auto simp: voice_view_offers showManual_def showParsed_def)


end
