(* ===== verification/Wake_Wizard.thy ===== *)
theory Wake_Wizard
  imports Js_Regex Task_List Stepwise
begin

text \<open>
  The settings of the audio activation, \<open>frontend/src/components/AudioActivationSettings/\<close>: the
  wizard for the wake word (\<open>WakeWordWizard.jsx\<close>), the level meter (\<open>VUMeter.jsx\<close>) and the dialogue
  itself (\<open>AudioActivationSettings.jsx\<close>) with the calls of \<open>api/audioDaemon.js\<close>.  Timeouts are kept
  as lists of due instants; what chance or the daemon decides is an argument.
\<close>

subsection \<open>The wizard (WakeWordWizard.jsx)\<close>

datatype wizard_step = W_INTRO | W_RECORDING | W_TRAINING | W_VALIDATION

datatype rep_status = RS_none | RS_good | RS_quiet

datatype train_stage = Stage_processing | Stage_optimising | Stage_deploying

datatype val_state = VS_listening | VS_detecting | VS_detected | VS_failed

datatype wizard_timer = WT_rep | WT_status | WT_train | WT_validate | WT_result bool

record wizard =
  wz_step :: wizard_step
  wz_word :: ustring
  wz_reps :: int
  wz_repStatus :: rep_status
  wz_listening :: bool
  wz_progress :: int
  wz_stage :: train_stage
  wz_ticking :: bool
  wz_val :: val_state
  wz_confidence :: int
  wz_timers :: "(int \<times> wizard_timer) list"

definition new_wizard :: wizard where
  "new_wizard =
     \<lparr>wz_step = W_INTRO, wz_word = [0xD5E4, 0xC774, 0x20, 0xC790, 0xBE44, 0xC2A4], wz_reps = 0, wz_repStatus = RS_none, wz_listening = False,
      wz_progress = 0, wz_stage = Stage_processing, wz_ticking = False, wz_val = VS_listening, wz_confidence = 0,
      wz_timers = []\<rparr>"

text \<open>The tips: the words between white space; the openings and the common words, ignoring case.\<close>

fun word_count :: "bool \<Rightarrow> ustring \<Rightarrow> nat" where
  "word_count inside [] = 0"
| "word_count inside (c # cs) =
     (if white c then word_count False cs else (if inside then 0 else 1) + word_count True cs)"

definition isWordCountGood :: "ustring \<Rightarrow> bool" where
  "isWordCountGood w \<longleftrightarrow> 2 \<le> word_count False (trim w) \<and> word_count False (trim w) \<le> 4"

definition hasStarter :: "(ustring \<Rightarrow> ustring) \<Rightarrow> ustring \<Rightarrow> bool" where
  "hasStarter lower w \<longleftrightarrow>
     (\<exists>k \<in> set [ascii ''hey'', ascii ''ok'', ascii ''hello'', ascii ''hi'', [0xC57C], [0xD5E4,
        0xC774], [0xC548, 0xB155]]. starts_with k (lower (trim w)))"

definition isCommonWord :: "(ustring \<Rightarrow> ustring) \<Rightarrow> ustring \<Rightarrow> bool" where
  "isCommonWord lower w \<longleftrightarrow>
     lower (trim w) \<in> set [[0xB124], [0xC544, 0xB2C8, 0xC624], [0xC624, 0xB298], [0xC791, 0xC5C5], [0xD22C,
        0xB450], [0xC548, 0xB155], ascii ''yes'', ascii ''no'', ascii ''today'',
       ascii ''task'', ascii ''todo'']"

text \<open>Entering the recording, or another repetition, clears the status.\<close>

definition recording_effect :: "wizard \<Rightarrow> wizard" where
  "recording_effect w = (if wz_step w \<noteq> W_RECORDING then w else w\<lparr>wz_listening := True, wz_repStatus := RS_none\<rparr>)"

definition set_step :: "wizard_step \<Rightarrow> wizard \<Rightarrow> wizard" where
  "set_step s w =
     (if wz_step w = s then w
      else (let w' = w\<lparr>wz_step := s, wz_ticking := (s = W_TRAINING)\<rparr>
            in if s = W_TRAINING then w'\<lparr>wz_progress := 0\<rparr> else recording_effect w'))"

definition set_reps :: "int \<Rightarrow> wizard \<Rightarrow> wizard" where
  "set_reps n w = (if wz_reps w = n then w else recording_effect (w\<lparr>wz_reps := n\<rparr>))"

definition triggerSpeechSimulation :: "bool \<Rightarrow> int \<Rightarrow> wizard \<Rightarrow> wizard" where
  "triggerSpeechSimulation good now w =
     (if wz_step w \<noteq> W_RECORDING \<or> wz_reps w \<ge> 5 then w
      else if good then w\<lparr>wz_repStatus := RS_good, wz_timers := wz_timers w @ [(now + 1000, WT_rep)]\<rparr>
      else w\<lparr>wz_repStatus := RS_quiet, wz_timers := wz_timers w @ [(now + 1600, WT_status)]\<rparr>)"

definition skip_recording :: "wizard \<Rightarrow> wizard" where
  "skip_recording w = set_reps (min 5 (wz_reps w + 1)) w"

definition train_tick :: "int \<Rightarrow> wizard \<Rightarrow> wizard" where
  "train_tick now w =
     (if \<not> wz_ticking w then w
      else (let nxt = wz_progress w + 7 in
            if nxt \<ge> 100
            then w\<lparr>wz_progress := 100, wz_ticking := False, wz_timers := wz_timers w @ [(now + 800, WT_validate)]\<rparr>
            else w\<lparr>wz_progress := nxt,
                   wz_stage := (if nxt > 70 then Stage_deploying else if nxt > 35 then Stage_optimising else wz_stage w)\<rparr>))"

definition simulateValidationSpeech :: "bool \<Rightarrow> int \<Rightarrow> wizard \<Rightarrow> wizard" where
  "simulateValidationSpeech success now w =
     (if wz_step w \<noteq> W_VALIDATION then w
      else w\<lparr>wz_val := VS_detecting, wz_timers := wz_timers w @ [(now + 1200, WT_result success)]\<rparr>)"

fun fire_wizard :: "int \<Rightarrow> wizard_timer \<Rightarrow> wizard \<Rightarrow> wizard" where
  "fire_wizard now WT_rep w =
     (let nxt = wz_reps w + 1;
          w' = (if nxt = 5 then w\<lparr>wz_timers := wz_timers w @ [(now + 1000, WT_train)]\<rparr> else w)
      in (set_reps nxt w')\<lparr>wz_repStatus := RS_none\<rparr>)"
| "fire_wizard now WT_status w = w\<lparr>wz_repStatus := RS_none\<rparr>"
| "fire_wizard now WT_train w = set_step W_TRAINING w"
| "fire_wizard now WT_validate w = set_step W_VALIDATION w"
| "fire_wizard now (WT_result success) w =
     (if success then w\<lparr>wz_val := VS_detected, wz_confidence := 94\<rparr> else w\<lparr>wz_val := VS_failed\<rparr>)"

definition wizard_timers :: "int \<Rightarrow> wizard \<Rightarrow> wizard" where
  "wizard_timers now w =
     (let out = filter (\<lambda>t. fst t \<le> now) (wz_timers w);
          w' = w\<lparr>wz_timers := filter (\<lambda>t. \<not> fst t \<le> now) (wz_timers w)\<rparr>
      in fold (\<lambda>t. fire_wizard now (snd t)) out w')"

text \<open>The controls, each only on the screen that has it.\<close>

datatype wizard_event =
    WE_word ustring | WE_next | WE_speak bool | WE_skip | WE_simulate bool | WE_retry | WE_rerecord | WE_tick | WE_timers

fun wizard_event_step :: "wizard \<Rightarrow> int \<times> wizard_event \<Rightarrow> wizard" where
  "wizard_event_step w (now, WE_word t) = (if wz_step w = W_INTRO then w\<lparr>wz_word := take 40 t\<rparr> else w)"
| "wizard_event_step w (now, WE_next) =
     (if wz_step w = W_INTRO \<and> length (trim (wz_word w)) \<ge> 3 then set_step W_RECORDING w else w)"
| "wizard_event_step w (now, WE_speak good) = triggerSpeechSimulation good now w"
| "wizard_event_step w (now, WE_skip) = (if wz_step w = W_RECORDING then skip_recording w else w)"
| "wizard_event_step w (now, WE_simulate ok) =
     (if wz_val w = VS_listening then simulateValidationSpeech ok now w else w)"
| "wizard_event_step w (now, WE_retry) =
     (if wz_step w = W_VALIDATION \<and> wz_val w = VS_failed then w\<lparr>wz_val := VS_listening\<rparr> else w)"
| "wizard_event_step w (now, WE_rerecord) =
     (if wz_step w = W_VALIDATION \<and> wz_val w = VS_failed then set_step W_RECORDING w else w)"
| "wizard_event_step w (now, WE_tick) = train_tick now w"
| "wizard_event_step w (now, WE_timers) = wizard_timers now w"

definition wizard_run :: "wizard \<Rightarrow> (int \<times> wizard_event) list \<Rightarrow> wizard" where
  "wizard_run w es = foldl wizard_event_step w es"

definition wizard_can_finish :: "wizard \<Rightarrow> bool" where
  "wizard_can_finish w \<longleftrightarrow> wz_step w = W_VALIDATION \<and> wz_val w = VS_detected"

subsection \<open>The level meter (VUMeter.jsx)\<close>

datatype vu_status = VU_disconnected | VU_connected | VU_error

text \<open>
  \<open>vu_timer\<close> is \<open>simTimerRef.current\<close>, \<open>vu_running\<close> the intervals that fire, by number.
\<close>

record vu_meter =
  vu_status :: vu_status
  vu_dbfs :: js_num
  vu_socket :: bool
  vu_timer :: "nat option"
  vu_running :: "nat list"
  vu_next :: nat

definition startSimulation :: "vu_meter \<Rightarrow> vu_meter" where
  "startSimulation v =
     (case vu_timer v of
        Some _ \<Rightarrow> v
      | None \<Rightarrow> v\<lparr>vu_timer := Some (vu_next v), vu_running := vu_next v # vu_running v, vu_next := vu_next v + 1\<rparr>)"

definition clear_interval :: "nat option \<Rightarrow> vu_meter \<Rightarrow> vu_meter" where
  "clear_interval t v = (case t of None \<Rightarrow> v | Some i \<Rightarrow> v\<lparr>vu_running := filter (\<lambda>j. j \<noteq> i) (vu_running v)\<rparr>)"

datatype vu_event = VU_open | VU_level js_num | VU_fails | VU_closes | VU_unmount

fun vu_step :: "vu_meter \<Rightarrow> vu_event \<Rightarrow> vu_meter" where
  "vu_step v VU_open =
     (let v' = v\<lparr>vu_status := VU_connected\<rparr>
      in case vu_timer v' of None \<Rightarrow> v' | t \<Rightarrow> (clear_interval t v')\<lparr>vu_timer := None\<rparr>)"
| "vu_step v (VU_level x) = v\<lparr>vu_dbfs := x\<rparr>"
| "vu_step v VU_fails = startSimulation (v\<lparr>vu_status := VU_error\<rparr>)"
| "vu_step v VU_closes = startSimulation (v\<lparr>vu_status := VU_disconnected\<rparr>)"
| "vu_step v VU_unmount = clear_interval (vu_timer v) v"

text \<open>The constructor of the socket may throw.\<close>

definition vu_mount :: "bool \<Rightarrow> vu_meter" where
  "vu_mount constructed =
     (let v = \<lparr>vu_status = VU_disconnected, vu_dbfs = - 60, vu_socket = constructed, vu_timer = None, vu_running = [], vu_next = 0\<rparr>
      in if constructed then v else startSimulation (v\<lparr>vu_status := VU_error\<rparr>))"

datatype vu_color = VU_clipping | VU_warn | VU_quiet | VU_safe

definition vu_color_of :: "js_num \<Rightarrow> vu_color" where
  "vu_color_of dbfs =
     (if dbfs \<ge> - 6 then VU_clipping else if dbfs \<ge> - 20 then VU_warn else if dbfs < - 40 then VU_quiet else VU_safe)"

definition vu_percentage :: "js_num \<Rightarrow> int" where
  "vu_percentage dbfs = js_round (((dbfs + 60) / 60) * 100)"

subsection \<open>The dialogue (AudioActivationSettings.jsx)\<close>

record audio_device =
  ad_id :: int
  ad_name :: ustring
  ad_host_api :: "ustring option"
  ad_default :: bool

record audio_settings =
  as_isEnabled :: bool
  as_devices :: "audio_device list"
  as_selected :: int
  as_sensitivity :: int
  as_autostart :: bool
  as_daemonOnline :: bool
  as_autostartBusy :: bool
  as_clapEnabled :: bool
  as_doubleClap :: bool
  as_clapSensitivity :: int
  as_clapActive :: bool
  as_clapCount :: int
  as_voiceEnabled :: bool
  as_wakeWord :: ustring
  as_confidence :: int
  as_lastTrained :: int
  as_wizardOpen :: bool
  as_toast :: bool

definition new_audio :: audio_settings where
  "new_audio =
     \<lparr>as_isEnabled = True, as_devices = [\<lparr>ad_id = 0, ad_name = [0xB0B4, 0xC7A5, 0x20, 0xB9C8, 0xC774,
        0xD06C], ad_host_api = None, ad_default = True\<rparr>], as_selected = 0, as_sensitivity = 50,
      as_autostart = False, as_daemonOnline = False, as_autostartBusy = False, as_clapEnabled = False,
      as_doubleClap = True, as_clapSensitivity = 40, as_clapActive = False, as_clapCount = 0, as_voiceEnabled = False,
      as_wakeWord = [0xD5E4, 0xC774, 0x20, 0xC790, 0xBE44,
         0xC2A4], as_confidence = 87, as_lastTrained = 3, as_wizardOpen = False, as_toast = False\<rparr>"

text \<open>The two answers of the load effect; the dialogue may have been closed meanwhile.\<close>

definition load_devices :: "bool \<Rightarrow> audio_device list answer \<Rightarrow> audio_settings \<Rightarrow> audio_settings" where
  "load_devices alive reply a =
     (case reply of
        Inr (d # ds) \<Rightarrow>
          if alive
          then a\<lparr>as_devices := d # ds,
                 as_selected := ad_id (case List.find ad_default (d # ds) of Some x \<Rightarrow> x | None \<Rightarrow> d)\<rparr>
          else a
      | _ \<Rightarrow> a)"

definition load_status :: "bool \<Rightarrow> bool answer \<Rightarrow> audio_settings \<Rightarrow> audio_settings" where
  "load_status alive reply a =
     (if \<not> alive then a
      else (case reply of
              Inr autostart \<Rightarrow> a\<lparr>as_daemonOnline := True, as_autostart := autostart\<rparr>
            | Inl _ \<Rightarrow> a\<lparr>as_daemonOnline := False\<rparr>))"

text \<open>The switch: \<open>None\<close> when it does nothing, else the value asked for; and the answer.\<close>

definition toggle_begin :: "audio_settings \<Rightarrow> audio_settings \<times> bool option" where
  "toggle_begin a =
     (if as_autostartBusy a then (a, None)
      else (a\<lparr>as_autostartBusy := True, as_autostart := \<not> as_autostart a\<rparr>, Some (\<not> as_autostart a)))"

definition toggle_end :: "bool \<Rightarrow> bool answer \<Rightarrow> audio_settings \<Rightarrow> audio_settings" where
  "toggle_end nxt reply a =
     (case reply of
        Inr v \<Rightarrow> a\<lparr>as_autostart := v, as_daemonOnline := True, as_autostartBusy := False\<rparr>
      | Inl _ \<Rightarrow> a\<lparr>as_autostart := \<not> nxt, as_daemonOnline := False, as_autostartBusy := False\<rparr>)"

definition handleReset :: "audio_settings \<Rightarrow> audio_settings" where
  "handleReset a =
     a\<lparr>as_isEnabled := True, as_selected := 0, as_sensitivity := 50, as_clapEnabled := False, as_doubleClap := True,
       as_clapSensitivity := 40, as_voiceEnabled := False, as_wakeWord := [0xD5E4, 0xC774, 0x20, 0xC790, 0xBE44, 0xC2A4], as_confidence := 87,
       as_lastTrained := 3\<rparr>"

text \<open>
  What saving sends: the choice of the device, then start or stop unless the first call failed, and
  in any case the message over the daemon's connection.
\<close>

datatype daemon_call = Select_device int | Control_stream bool | Config_updated "string list" "string list" bool

definition handleSave :: "bool \<Rightarrow> audio_settings \<Rightarrow> daemon_call list" where
  "handleSave select_ok a =
     [Select_device (as_selected a)]
     @ (if select_ok then [Control_stream (as_isEnabled a)] else [])
     @ [Config_updated [''audio.device_id'', ''audio.enabled'', ''wake_word.phrase'']
          (if as_voiceEnabled a then [''wake_word_model''] else []) False]"

definition simulateClap :: "audio_settings \<Rightarrow> audio_settings" where
  "simulateClap a =
     (let a' = (if \<not> as_clapActive a then a\<lparr>as_clapActive := True, as_clapCount := 0\<rparr> else a);
          nxt = as_clapCount a' + 1
      in if nxt \<ge> 5 then a'\<lparr>as_clapActive := False, as_clapCount := 5\<rparr> else a'\<lparr>as_clapCount := nxt\<rparr>)"

definition handleWizardComplete :: "ustring \<Rightarrow> audio_settings \<Rightarrow> audio_settings" where
  "handleWizardComplete newWord a =
     a\<lparr>as_wakeWord := newWord, as_voiceEnabled := True, as_confidence := 94, as_lastTrained := 0,
       as_wizardOpen := False, as_toast := True\<rparr>"

subsection \<open>Lemmas\<close>

text \<open>A wizard that is recording, has its five repetitions and waits for nothing that would move it.\<close>

fun harmless :: "wizard_timer \<Rightarrow> bool" where
  "harmless WT_status = True"
| "harmless _ = False"

definition wizard_dead :: "wizard \<Rightarrow> bool" where
  "wizard_dead w \<longleftrightarrow> wz_step w = W_RECORDING \<and> wz_reps w = 5 \<and> \<not> wz_ticking w \<and> (\<forall>t \<in> set (wz_timers w). harmless (snd t))"

lemma dead_fire: "wizard_dead w \<Longrightarrow> harmless k \<Longrightarrow> wizard_dead (fire_wizard now k w)"
  by (cases k) (simp_all add: wizard_dead_def)

lemma dead_fold: "wizard_dead w \<Longrightarrow> \<forall>t \<in> set ts. harmless (snd t) \<Longrightarrow> wizard_dead (fold (\<lambda>t. fire_wizard now (snd t)) ts w)"
  by (induction ts arbitrary: w) (simp_all add: dead_fire)

lemma dead_step: "wizard_dead w \<Longrightarrow> wizard_dead (wizard_event_step w (now, e))"
proof (cases e)
  case WE_timers
  assume d: "wizard_dead w"
  then have "wizard_dead (w\<lparr>wz_timers := filter (\<lambda>t. \<not> fst t \<le> now) (wz_timers w)\<rparr>)" by (auto simp: wizard_dead_def)
  moreover have "\<forall>t \<in> set (filter (\<lambda>t. fst t \<le> now) (wz_timers w)). harmless (snd t)" using d by (auto simp: wizard_dead_def)
  ultimately show ?thesis using WE_timers by (simp add: wizard_timers_def Let_def dead_fold)
qed (auto simp: wizard_dead_def triggerSpeechSimulation_def skip_recording_def set_reps_def train_tick_def
    simulateValidationSpeech_def)

lemma dead_run: "wizard_dead w \<Longrightarrow> wizard_dead (wizard_run w es)"
  unfolding wizard_run_def
proof (induction es arbitrary: w)
  case (Cons ne es)
  then show ?case using dead_step [of w "fst ne" "snd ne"] by simp
qed simp

lemma dead_not_finished: "wizard_dead w \<Longrightarrow> \<not> wizard_can_finish w"
  by (simp add: wizard_dead_def wizard_can_finish_def)

text \<open>Ticks of the training.\<close>

lemma train_ticks:
  "k \<le> 14 \<Longrightarrow> wz_ticking w \<Longrightarrow> wz_progress w = 0 \<Longrightarrow>
   wz_progress ((train_tick now ^^ k) w) = 7 * int k \<and> wz_ticking ((train_tick now ^^ k) w)
   \<and> wz_timers ((train_tick now ^^ k) w) = wz_timers w \<and> wz_step ((train_tick now ^^ k) w) = wz_step w"
proof (induction k)
  case (Suc k)
  then show ?case by (simp add: train_tick_def Let_def)
qed simp

text \<open>What holds of every wizard.\<close>

definition wizard_ok :: "wizard \<Rightarrow> bool" where
  "wizard_ok w \<longleftrightarrow> 0 \<le> wz_progress w \<and> wz_progress w \<le> 100 \<and> 0 \<le> wz_reps w
     \<and> (\<not> wz_ticking w \<or> wz_step w = W_TRAINING \<and> wz_progress w < 100)
     \<and> (wz_val w \<noteq> VS_detected \<or> wz_confidence w = 94)"

lemma recording_effect_simps [simp]:
  "wz_progress (recording_effect w) = wz_progress w" "wz_reps (recording_effect w) = wz_reps w"
  "wz_ticking (recording_effect w) = wz_ticking w" "wz_step (recording_effect w) = wz_step w"
  "wz_val (recording_effect w) = wz_val w" "wz_confidence (recording_effect w) = wz_confidence w"
  "wz_timers (recording_effect w) = wz_timers w" "wz_word (recording_effect w) = wz_word w"
  by (simp_all add: recording_effect_def)

lemma wizard_ok_set_step [inv_intro]: "wizard_ok w \<Longrightarrow> wizard_ok (set_step s w)"
  by (auto simp: wizard_ok_def set_step_def Let_def)

lemma wizard_ok_set_reps [inv_intro]: "wizard_ok w \<Longrightarrow> 0 \<le> n \<Longrightarrow> wizard_ok (set_reps n w)"
  by (auto simp: wizard_ok_def set_reps_def)

lemma wizard_ok_fire: "wizard_ok w \<Longrightarrow> wizard_ok (fire_wizard now k w)"
proof (cases k)
  case WT_rep
  assume w: "wizard_ok w"
  then have "0 \<le> wz_reps w + 1" by (simp add: wizard_ok_def)
  moreover have "wizard_ok (w\<lparr>wz_timers := x\<rparr>)" for x using w by (simp add: wizard_ok_def)
  moreover have "wizard_ok (v\<lparr>wz_repStatus := RS_none\<rparr>)" if "wizard_ok v" for v using that by (simp add: wizard_ok_def)
  ultimately show ?thesis using WT_rep w by (simp add: Let_def wizard_ok_set_reps)
qed (auto simp: wizard_ok_set_step, auto simp: wizard_ok_def)

lemma wizard_ok_fold: "wizard_ok w \<Longrightarrow> wizard_ok (fold (\<lambda>t. fire_wizard now (snd t)) ts w)"
  by (induction ts arbitrary: w) (simp_all add: wizard_ok_fire)

lemma wizard_ok_tick: "wizard_ok w \<Longrightarrow> wizard_ok (train_tick now w)"
  by (auto simp: wizard_ok_def train_tick_def Let_def)

lemma wizard_ok_step: "wizard_ok w \<Longrightarrow> wizard_ok (wizard_event_step w (now, e))"
proof (cases e)
  case WE_timers
  assume w: "wizard_ok w"
  then have "wizard_ok (w\<lparr>wz_timers := x\<rparr>)" for x by (simp add: wizard_ok_def)
  then show ?thesis using WE_timers by (simp add: wizard_timers_def Let_def wizard_ok_fold)
next
  case (WE_speak good)
  assume "wizard_ok w"
  then show ?thesis using WE_speak by (auto simp: triggerSpeechSimulation_def wizard_ok_def)
next
  case (WE_simulate ok)
  assume "wizard_ok w"
  then show ?thesis using WE_simulate by (auto simp: simulateValidationSpeech_def wizard_ok_def)
next
  case WE_skip
  assume w: "wizard_ok w"
  then have "0 \<le> min 5 (wz_reps w + 1)" by (simp add: wizard_ok_def)
  with w WE_skip show ?thesis by (simp add: skip_recording_def wizard_ok_set_reps)
next
  case WE_tick
  assume "wizard_ok w"
  with WE_tick show ?thesis by (simp add: wizard_ok_tick)
next
  case (WE_word t)
  assume "wizard_ok w"
  with WE_word show ?thesis by (auto simp: wizard_ok_def)
next
  case WE_retry
  assume "wizard_ok w"
  with WE_retry show ?thesis by (auto simp: wizard_ok_def)
qed (simp_all add: wizard_ok_set_step)

subsection \<open>Properties\<close>

interpretation wizard_runs: total_stepwise wizard_event_step wizard_ok
proof
  show "wizard_ok (wizard_event_step w e)" if "wizard_ok w" for w e
    using that wizard_ok_step [of w "fst e" "snd e"] by simp
qed

text \<open>
  In every run of the wizard the progress stays between 0 and 100, the number of repetitions is not
  negative, the training ticks only on its own screen, and a detected word has its confidence.
\<close>

theorem wizard_invariant: "wizard_ok (wizard_run new_wizard es)"
  unfolding wizard_run_def by (rule wizard_runs.fold_keeps) (simp add: wizard_ok_def new_wizard_def)

text \<open>
  Skipping locks the wizard: after the five recordings have been skipped no event whatever leads out
  of the recording screen, and the wizard can never be finished.
\<close>

theorem skipping_locks_wizard:
  "let w = wizard_run new_wizard ([(t0, WE_next)] @ map (\<lambda>t. (t, WE_skip)) [t1, t2, t3, t4, t5] @ es)
   in wz_step w = W_RECORDING \<and> \<not> wizard_can_finish w"
proof -
  have "wizard_dead (wizard_run new_wizard ([(t0, WE_next)] @ map (\<lambda>t. (t, WE_skip)) [t1, t2, t3, t4, t5]))"
    by (simp add: wizard_run_def new_wizard_def set_step_def Let_def skip_recording_def set_reps_def
        recording_effect_def wizard_dead_def trim_def white_def)
  from dead_run [OF this, of es] show ?thesis
    using dead_not_finished by (simp add: wizard_run_def wizard_dead_def Let_def)
qed

text \<open>
  Recording again after a failed test locks it as well, because the repetitions are not counted from
  the start: from a failed validation with five repetitions, nothing leads out of the screen.
\<close>

theorem rerecording_locks_wizard:
  assumes "wz_step w = W_VALIDATION" "wz_val w = VS_failed" "wz_reps w = 5" "wz_timers w = []"
  shows "wz_step (wizard_run w ((t, WE_rerecord) # es)) = W_RECORDING"
proof -
  have "wizard_dead (wizard_event_step w (t, WE_rerecord))"
    using assms by (simp add: wizard_dead_def set_step_def Let_def)
  from dead_run [OF this, of es] show ?thesis by (simp add: wizard_run_def wizard_dead_def)
qed

text \<open>
  The training takes fifteen ticks: not before the fifteenth the progress is 100, with it the interval
  ends and the one timeout to the next screen is set, and later ticks change nothing.
\<close>

theorem training_takes_fifteen_ticks:
  assumes "wz_ticking w" "wz_progress w = 0"
  shows "(\<forall>k. k > 14 \<or> wz_progress ((train_tick now ^^ k) w) = 7 * int k)
    \<and> wz_progress ((train_tick now ^^ 15) w) = 100
    \<and> wz_timers ((train_tick now ^^ (15 + j)) w) = wz_timers w @ [(now + 800, WT_validate)]"
proof -
  have 14: "wz_progress ((train_tick now ^^ 14) w) = 98" "wz_ticking ((train_tick now ^^ 14) w)"
    "wz_timers ((train_tick now ^^ 14) w) = wz_timers w"
    using train_ticks [of 14 w now] assms by simp_all
  have s: "(train_tick now ^^ 15) w = train_tick now ((train_tick now ^^ 14) w)"
    using funpow.simps(2) [of 14 "train_tick now"] by (simp add: numeral_eq_Suc)
  have 15: "wz_progress ((train_tick now ^^ 15) w) = 100" "\<not> wz_ticking ((train_tick now ^^ 15) w)"
    "wz_timers ((train_tick now ^^ 15) w) = wz_timers w @ [(now + 800, WT_validate)]"
    unfolding s using 14 by (simp_all add: train_tick_def Let_def)
  have "(train_tick now ^^ j) v = v" if "\<not> wz_ticking v" for v
    using that by (induction j) (simp_all add: train_tick_def)
  then have "(train_tick now ^^ (15 + j)) w = (train_tick now ^^ 15) w"
    using 15(2) by (simp add: add.commute [of 15] funpow_add)
  moreover have "k > 14 \<or> wz_progress ((train_tick now ^^ k) w) = 7 * int k" for k
    using train_ticks [of k w now] assms by (cases "k \<le> 14") simp_all
  ultimately show ?thesis using 15 by simp
qed

text \<open>
  The course the wizard is meant for ends: five good recordings, the training and a successful test
  lead to the screen where the entered word can be saved.
\<close>

definition good_course :: "ustring \<Rightarrow> (int \<times> wizard_event) list" where
  "good_course word =
     [(0, WE_word word), (0, WE_next)]
     @ concat (map (\<lambda>i. [(2000 * i, WE_speak True), (2000 * i + 1000, WE_timers)]) [0, 1, 2, 3, 4])
     @ [(10000, WE_timers)] @ replicate 15 (11000, WE_tick) @ [(12000, WE_timers), (12000, WE_simulate True), (14000, WE_timers)]"

definition wizard_records :: "int \<Rightarrow> ustring \<Rightarrow> (int \<times> wizard_timer) list \<Rightarrow> wizard \<Rightarrow> bool" where
  "wizard_records n word ts w \<longleftrightarrow> wz_step w = W_RECORDING \<and> wz_reps w = n \<and> wz_word w = word \<and> wz_timers w = ts
     \<and> wz_val w = VS_listening"

lemma good_recording:
  assumes "wizard_records n word [] w" "n < 5"
  shows "wizard_records (n + 1) word (if n = 4 then [(t + 2000, WT_train)] else [])
           (wizard_run w [(t, WE_speak True), (t + 1000, WE_timers)])"
proof -
  define v where "v = w\<lparr>wz_repStatus := RS_good, wz_timers := []\<rparr>"
  have "wizard_run w [(t, WE_speak True), (t + 1000, WE_timers)] = fire_wizard (t + 1000) WT_rep v"
    using assms by (simp add: wizard_run_def triggerSpeechSimulation_def wizard_records_def wizard_timers_def v_def)
  moreover have "wizard_records (n + 1) word (if n = 4 then [(t + 2000, WT_train)] else []) (fire_wizard (t + 1000) WT_rep v)"
    using assms by (simp add: wizard_records_def v_def Let_def set_reps_def)
  ultimately show ?thesis by simp
qed

lemma wizard_run_append: "wizard_run w (xs @ ys) = wizard_run (wizard_run w xs) ys"
  by (simp add: wizard_run_def)

lemma tick_run: "wizard_run w (replicate k (n, WE_tick)) = (train_tick n ^^ k) w"
  by (induction k arbitrary: w) (simp_all add: wizard_run_def funpow_swap1)

lemma train_tick_keeps: "wz_val ((train_tick n ^^ k) w) = wz_val w \<and> wz_word ((train_tick n ^^ k) w) = wz_word w
    \<and> wz_step ((train_tick n ^^ k) w) = wz_step w"
  by (induction k) (auto simp: train_tick_def Let_def)

lemma fifteenth_tick:
  assumes "wz_ticking w" "wz_progress w = 0"
  shows "wz_timers ((train_tick now ^^ 15) w) = wz_timers w @ [(now + 800, WT_validate)]"
proof -
  have "wz_progress ((train_tick now ^^ 14) w) = 98" "wz_ticking ((train_tick now ^^ 14) w)"
    "wz_timers ((train_tick now ^^ 14) w) = wz_timers w"
    using train_ticks [of 14 w now] assms by simp_all
  moreover have "(train_tick now ^^ 15) w = train_tick now ((train_tick now ^^ 14) w)"
    using funpow.simps(2) [of 14 "train_tick now"] by (simp add: numeral_eq_Suc)
  ultimately show ?thesis by (simp add: train_tick_def Let_def)
qed

theorem good_course_finishes:
  assumes "3 \<le> length (trim (take 40 word))"
  shows "wizard_can_finish (wizard_run new_wizard (good_course word))
    \<and> wz_word (wizard_run new_wizard (good_course word)) = take 40 word"
proof -
  let ?word = "take 40 word"
  define w0 where "w0 = wizard_run new_wizard [(0, WE_word word), (0, WE_next)]"
  define w1 where "w1 = wizard_run w0 [(0, WE_speak True), (0 + 1000, WE_timers)]"
  define w2 where "w2 = wizard_run w1 [(2000, WE_speak True), (2000 + 1000, WE_timers)]"
  define w3 where "w3 = wizard_run w2 [(4000, WE_speak True), (4000 + 1000, WE_timers)]"
  define w4 where "w4 = wizard_run w3 [(6000, WE_speak True), (6000 + 1000, WE_timers)]"
  define w5 where "w5 = wizard_run w4 [(8000, WE_speak True), (8000 + 1000, WE_timers)]"
  define w6 where "w6 = wizard_run w5 [(10000, WE_timers)]"
  define w7 where "w7 = (train_tick 11000 ^^ 15) w6"
  have "wizard_records 0 ?word [] w0"
    using assms by (simp add: w0_def wizard_run_def new_wizard_def wizard_records_def set_step_def Let_def)
  from good_recording [OF this, of 0] have "wizard_records 1 ?word [] w1" by (simp add: w1_def)
  from good_recording [OF this, of 2000] have "wizard_records 2 ?word [] w2" by (simp add: w2_def)
  from good_recording [OF this, of 4000] have "wizard_records 3 ?word [] w3" by (simp add: w3_def)
  from good_recording [OF this, of 6000] have "wizard_records 4 ?word [] w4" by (simp add: w4_def)
  from good_recording [OF this, of 8000] have w5: "wizard_records 5 ?word [(10000, WT_train)] w5" by (simp add: w5_def)
  then have w6: "wz_step w6 = W_TRAINING" "wz_ticking w6" "wz_progress w6 = 0" "wz_timers w6 = []" "wz_word w6 = ?word"
    "wz_val w6 = VS_listening"
    by (simp_all add: w6_def wizard_run_def wizard_timers_def wizard_records_def set_step_def Let_def)
  have w7: "wz_timers w7 = [(11800, WT_validate)]" "wz_step w7 = W_TRAINING" "wz_word w7 = ?word" "wz_val w7 = VS_listening"
    using fifteenth_tick [OF w6(2,3), of 11000] w6 train_tick_keeps [of 15 11000 w6] by (simp_all add: w7_def)
  have "wizard_run new_wizard (good_course word)
      = wizard_run w7 [(12000, WE_timers), (12000, WE_simulate True), (14000, WE_timers)]"
    unfolding good_course_def wizard_run_append list.map concat.simps append_Nil2
      w7_def w6_def w5_def w4_def w3_def w2_def w1_def w0_def tick_run [symmetric]
    by (simp add: wizard_run_append)
  also have "wizard_can_finish \<dots> \<and> wz_word \<dots> = ?word"
    using w7 by (simp add: wizard_run_def wizard_timers_def set_step_def simulateValidationSpeech_def wizard_can_finish_def Let_def)
  finally show ?thesis .
qed

text \<open>
  A mounted meter simulates with one interval at most and never while it is connected; but a
  connected meter that is taken off the screen starts an interval nobody clears.
\<close>

definition vu_ok :: "vu_meter \<Rightarrow> bool" where
  "vu_ok v \<longleftrightarrow> vu_running v = (case vu_timer v of None \<Rightarrow> [] | Some i \<Rightarrow> [i]) \<and> (vu_status v \<noteq> VU_connected \<or> vu_timer v = None)"

lemma vu_ok_step: "vu_ok v \<Longrightarrow> e \<noteq> VU_unmount \<Longrightarrow> vu_ok (vu_step v e)"
  by (cases e; cases "vu_timer v") (auto simp: vu_ok_def startSimulation_def clear_interval_def Let_def)

interpretation meter_run: stepwise "\<lambda>_ e. e \<noteq> VU_unmount" vu_step vu_ok
  by unfold_locales (rule vu_ok_step)

text \<open>
  While it is mounted the meter simulates at most once at a time, and never while it is connected.
\<close>

theorem meter_simulates_once:
  assumes "VU_unmount \<notin> set es"
  shows "length (vu_running (foldl vu_step (vu_mount c) es)) \<le> 1
    \<and> (vu_status (foldl vu_step (vu_mount c) es) \<noteq> VU_connected \<or> vu_running (foldl vu_step (vu_mount c) es) = [])"
proof -
  have "vu_ok (vu_mount c)" by (simp add: vu_ok_def vu_mount_def startSimulation_def Let_def)
  then have "vu_ok (foldl vu_step (vu_mount c) es)" using assms by (intro meter_run.offered_keeps) auto
  then show ?thesis by (auto simp: vu_ok_def split: option.splits)
qed

theorem unmounted_meter_leaks_interval:
  "vu_running (foldl vu_step (vu_mount True) [VU_open, VU_unmount, VU_closes]) = [0]"
  by (simp add: vu_mount_def startSimulation_def clear_interval_def Let_def)

text \<open>
  The clap test counts in rounds of five: after any number of claps the count is that of the running
  round, and the test is active exactly inside a round.
\<close>

theorem clap_test_counts_rounds:
  assumes "\<not> as_clapActive a"
  shows "as_clapCount ((simulateClap ^^ Suc n) a) = int (n mod 5) + 1
    \<and> (as_clapActive ((simulateClap ^^ Suc n) a) \<longleftrightarrow> Suc n mod 5 \<noteq> 0)"
proof (induction n)
  case 0
  then show ?case using assms by (simp add: simulateClap_def Let_def)
next
  case (Suc n)
  define b where "b = (simulateClap ^^ Suc n) a"
  have b: "as_clapCount b = int (n mod 5) + 1" "as_clapActive b \<longleftrightarrow> Suc n mod 5 \<noteq> 0" using Suc by (simp_all add: b_def)
  have s: "(simulateClap ^^ Suc (Suc n)) a = simulateClap b" by (simp add: b_def)
  consider "n mod 5 = 4" "Suc n mod 5 = 0" "Suc (Suc n) mod 5 = 1" | "n mod 5 = 3" "Suc n mod 5 = 4" "Suc (Suc n) mod 5 = 0"
    | "n mod 5 < 3" "Suc n mod 5 = n mod 5 + 1" "Suc (Suc n) mod 5 = n mod 5 + 2"
    using mod_less_divisor [of 5 n] by (cases "n mod 5 = 4"; cases "n mod 5 = 3"; auto simp: mod_Suc)
  then show ?case
    unfolding s using b by cases (simp_all add: simulateClap_def Let_def)
qed

text \<open>
  The switch for the start at login follows the daemon: when page and daemon agree, they agree after
  every toggle, whether the daemon obeys, obeys differently, or cannot be reached.
\<close>

definition toggle_with :: "(bool \<Rightarrow> bool answer) \<Rightarrow> audio_settings \<times> bool \<Rightarrow> audio_settings \<times> bool" where
  "toggle_with daemon ad =
     (case toggle_begin (fst ad) of
        (a, None) \<Rightarrow> (a, snd ad)
      | (a, Some nxt) \<Rightarrow>
          (toggle_end nxt (daemon nxt) a, case daemon nxt of Inr v \<Rightarrow> v | Inl _ \<Rightarrow> snd ad))"

theorem autostart_follows_daemon:
  assumes "as_autostart a = b"
  shows "let (a', b') = foldl (\<lambda>ad daemon. toggle_with daemon ad) (a, b) daemons in as_autostart a' = b'"
proof -
  have "as_autostart (fst (foldl (\<lambda>ad daemon. toggle_with daemon ad) ab daemons))
      = snd (foldl (\<lambda>ad daemon. toggle_with daemon ad) ab daemons)" if "as_autostart (fst ab) = snd ab" for ab
    using that
  proof (induction daemons arbitrary: ab)
    case (Cons d ds)
    have "as_autostart (fst (toggle_with d ab)) = snd (toggle_with d ab)"
      using Cons.prems by (auto simp: toggle_with_def toggle_begin_def toggle_end_def split: sum.splits)
    with Cons.IH show ?case by simp
  qed simp
  from this [of "(a, b)"] assms show ?thesis by (simp add: case_prod_beta)
qed

text \<open>
  Resetting may choose a device that does not exist: the selected device is one of the list after
  the list has been loaded, and after a reset it is not, whenever the list has no device 0.
\<close>

theorem reset_selects_missing_device:
  assumes "ds \<noteq> []" "0 \<notin> ad_id ` set ds"
  shows "as_selected (load_devices True (Inr ds) a) \<in> ad_id ` set (as_devices (load_devices True (Inr ds) a))
    \<and> as_selected (handleReset (load_devices True (Inr ds) a)) \<notin> ad_id ` set (as_devices (handleReset (load_devices True (Inr ds) a)))"
proof -
  obtain d ds' where ds: "ds = d # ds'" using assms(1) by (cases ds) auto
  have "ad_id (case List.find ad_default ds of Some x \<Rightarrow> x | None \<Rightarrow> d) \<in> ad_id ` set ds"
  proof (cases "List.find ad_default ds")
    case (Some x)
    then show ?thesis using find_key_Some [OF Some] by simp
  qed (simp add: ds)
  with assms(2) ds show ?thesis by (simp add: load_devices_def handleReset_def)
qed

end
