(* ===== verification/Audio_Panel.thy ===== *)
theory Audio_Panel
  imports Wake_Wizard Screen
begin

text \<open>
  The dialogue of the audio settings as its user meets it, \<open>AudioActivationSettings.jsx\<close> with the wizard
  \<open>WakeWordWizard.jsx\<close> above it and the toast \<open>ToastNotification.jsx\<close>: which controls it renders in which
  state, what a press of the mouse or of a key on them does, and the answers of the daemon, which may
  arrive after the dialogue has been closed or opened again.  The handlers are those of \<open>Wake_Wizard\<close>.
\<close>

subsection \<open>What is rendered\<close>

datatype audio_control =
    AC_enable | AC_autostart | AC_device int | AC_sensitivity int | AC_clap | AC_double_clap
  | AC_clap_sensitivity int | AC_clap_test | AC_voice | AC_open_wizard | AC_calibrate | AC_reset | AC_close | AC_save

fun read_device :: "audio_control \<Rightarrow> int option" where
  "read_device (AC_device i) = Some i"
| "read_device _ = None"

fun read_sensitivity :: "audio_control \<Rightarrow> int option" where
  "read_sensitivity (AC_sensitivity x) = Some x"
| "read_sensitivity _ = None"

fun read_clap_sensitivity :: "audio_control \<Rightarrow> int option" where
  "read_clap_sensitivity (AC_clap_sensitivity x) = Some x"
| "read_clap_sensitivity _ = None"

text \<open>A missing member of a device is \<open>undefined\<close>, which renders as nothing.\<close>

definition device_label :: "audio_device \<Rightarrow> ustring" where
  "device_label d = ad_name d @ [0x20, 0x28] @ (case ad_host_api d of None \<Rightarrow> [] | Some h \<Rightarrow> h) @ [0x29]"

definition sensitivity_caption :: "int \<Rightarrow> ustring" where
  "sensitivity_caption s = (if s < 30 then [0xB0AE, 0xC74C] else if s < 70 then [0xBCF4, 0xD1B5] else [0xB192, 0xC74C])"

definition autostart_hint :: "audio_settings \<Rightarrow> ustring" where
  "autostart_hint a =
     (if as_daemonOnline a then [0xCEF4, 0xD4E8, 0xD130, 0x20, 0xB85C, 0xADF8, 0xC778, 0x20, 0xC2DC, 0x20, 0xC74C,
        0xC131, 0x20, 0xC778, 0xC2DD, 0x20, 0xC11C, 0xBE44, 0xC2A4, 0xAC00, 0x20, 0xC790, 0xB3D9, 0xC73C, 0xB85C,
           0x20, 0xC2E4, 0xD589, 0xB429, 0xB2C8, 0xB2E4, 0x2E]
      else [0xC624, 0xB514, 0xC624, 0x20, 0xC11C, 0xBE44, 0xC2A4, 0x28, 0xB370, 0xBAAC, 0x29, 0xAC00, 0x20, 0xC2E4,
         0xD589, 0x20, 0xC911, 0xC774, 0x20, 0xC544, 0xB2D9, 0xB2C8, 0xB2E4, 0x20, 0x2014, 0x20, 0xB370, 0xBAAC,
            0xC744, 0x20, 0xBA3C, 0xC800, 0x20, 0xC2E4, 0xD589, 0xD558, 0xC138, 0xC694, 0x2E])"

definition percent :: "int \<Rightarrow> ustring" where
  "percent x = ascii (show_int x) @ [0x25]"

definition general_section :: "audio_settings \<Rightarrow> audio_control widget list" where
  "general_section a =
     [Caption [0xAE30, 0xBCF8, 0x20, 0xC124, 0xC815], Switch [0xC74C, 0xC131, 0x20, 0xC778, 0xC2DD, 0x20, 0xAE30,
        0xB2A5, 0x20, 0xD65C, 0xC131, 0xD654] (as_isEnabled a) True AC_enable,
      Caption [0xC571, 0xC774, 0x20, 0xB9C8, 0xC774, 0xD06C, 0x20, 0xC785, 0xB825, 0xC744, 0x20, 0xD1B5, 0xD574,
         0x20, 0xC624, 0xB514, 0xC624, 0x20, 0xC774, 0xBCA4, 0xD2B8, 0xB97C, 0x20, 0xAC10, 0xC9C0, 0xD560, 0x20,
            0xC218, 0x20, 0xC788, 0xB3C4, 0xB85D, 0x20, 0xD569, 0xB2C8, 0xB2E4, 0x2E], Caption (autostart_hint a),
      Switch [0xB85C, 0xADF8, 0xC778, 0x20, 0xC2DC, 0x20, 0xC790, 0xB3D9, 0x20, 0xC2DC,
         0xC791] (as_autostart a) (\<not> (\<not> as_daemonOnline a \<or> as_autostartBusy a)) AC_autostart]
     @ screen_when (as_isEnabled a)
         [Choice [0xB9C8, 0xC774, 0xD06C, 0x20, 0xC785, 0xB825, 0x20, 0xC7A5,
            0xCE58] (as_selected a) (map (\<lambda>d. (ad_id d, device_label d)) (as_devices a)) read_device,
          Caption (percent (as_sensitivity a)), Slider [0xB9C8, 0xC774, 0xD06C, 0x20, 0xC785, 0xB825, 0x20, 0xAC10,
             0xB3C4] 0 100 (as_sensitivity a) read_sensitivity,
          Caption (sensitivity_caption (as_sensitivity a))]"

definition clap_section :: "audio_settings \<Rightarrow> audio_control widget list" where
  "clap_section a =
     screen_when (as_isEnabled a)
       (Caption [0xBC15, 0xC218, 0x20, 0xAC10, 0xC9C0] # Switch [0xBC15, 0xC218, 0x20, 0xAC10, 0xC9C0, 0x20,
          0xD65C, 0xC131, 0xD654] (as_clapEnabled a) True AC_clap
        # screen_when (as_clapEnabled a)
            [Switch [0xB450, 0x20, 0xBC88, 0x20, 0xC5F0, 0xC18D, 0x20, 0xBC15, 0xC218, 0x20, 0xD544, 0xC694] (as_doubleClap a) True AC_double_clap,
             Caption (percent (as_clapSensitivity a)), Slider [0xBC15, 0xC218, 0x20, 0xAC10,
                0xB3C4] 10 90 (as_clapSensitivity a) read_clap_sensitivity,
             Button [0xD83C, 0xDFA4, 0x20, 0xBC15, 0xC218, 0x20, 0xAC10, 0xC9C0, 0x20, 0xD14C, 0xC2A4, 0xD2B8] True AC_clap_test,
             Caption (if as_clapActive a then [0xAC10, 0xC9C0, 0x20, 0xC911, 0x2E, 0x2E, 0x2E] else [0xB300, 0xAE30, 0x20, 0xC911])])"

definition trained_label :: "int \<Rightarrow> ustring" where
  "trained_label days = (if days = 0 then [0xC624, 0xB298] else ascii (show_int days) @ [0xC77C, 0x20, 0xC804])"

definition voice_section :: "audio_settings \<Rightarrow> audio_control widget list" where
  "voice_section a =
     screen_when (as_isEnabled a)
       (Caption [0xC74C, 0xC131, 0x20, 0xD638, 0xCD9C, 0xC5B4, 0x28, 0x57, 0x61, 0x6B, 0x65, 0x20, 0x57, 0x6F,
          0x72, 0x64, 0x29] # Switch [0xC74C, 0xC131, 0x20, 0xD638, 0xCD9C, 0x20, 0xD65C, 0xC131, 0xD654] (as_voiceEnabled a) True AC_voice
        # screen_when (as_voiceEnabled a)
            [Caption [0xD638, 0xCD9C, 0xC5B4, 0x3A], Caption ([0x22] @ as_wakeWord a @ [0x22]),
             Button [0x270F, 0xFE0F, 0x20, 0xBCC0, 0xACBD] True AC_open_wizard,
             Button [0xD83C, 0xDF99, 0xFE0F, 0x20, 0xC0C8, 0x20, 0xD638, 0xCD9C, 0xC5B4, 0x20, 0xB4F1, 0xB85D] True AC_open_wizard,
             Caption ([0x2705, 0x20, 0xD559, 0xC2B5, 0x20, 0xC644, 0xB8CC, 0x20,
                0x28] @ ascii (show_int (as_confidence a)) @ [0x25, 0x20, 0xC2E0, 0xB8B0, 0xB3C4, 0x29]),
             Button [0xC7AC, 0xD559, 0xC2B5] True AC_open_wizard,
             Caption ([0xCD5C, 0xADFC, 0x20, 0xD559, 0xC2B5, 0x3A, 0x20] @ trained_label (as_lastTrained a))])"

definition panel_footer :: "audio_control widget list" where
  "panel_footer =
     [Button [0xB9C8, 0xC774, 0xD06C, 0x20, 0xBCF4, 0xC815, 0x20, 0xB9C8, 0xBC95, 0xC0AC, 0x20, 0xC2E4,
        0xD589] True AC_calibrate, Button [0xCD08, 0xAE30, 0xD654] True AC_reset, Button [0xCDE8, 0xC18C] True AC_close,
      Button [0xC124, 0xC815, 0x20, 0xC800, 0xC7A5] True AC_save]"

text \<open>The five nodes of the clap test, and whether the level meter is on the page.\<close>

definition clap_nodes :: "audio_settings \<Rightarrow> bool list" where
  "clap_nodes a = map (\<lambda>i. int i < as_clapCount a) [0..<5]"

definition meter_shown :: "audio_settings \<Rightarrow> bool" where
  "meter_shown a \<longleftrightarrow> as_isEnabled a"

definition audio_view :: "audio_settings \<Rightarrow> audio_control widget list" where
  "audio_view a =
     Caption [0xD83C, 0xDF99, 0xFE0F, 0x20, 0xC74C, 0xC131, 0x20, 0xC778, 0xC2DD, 0x20, 0xD65C, 0xC131, 0xD654,
        0x20, 0xC124, 0xC815] # Button [0xD7] True AC_close # general_section a @ clap_section a @ voice_section a
     @ screen_when (meter_shown a) [Caption [0xB9C8, 0xC774, 0xD06C, 0x20, 0xC785, 0xB825, 0x20, 0xB808, 0xBCA8]] @ panel_footer"

text \<open>The screens of the wizard; \<open>lower\<close> is the host's \<open>toLowerCase\<close>.\<close>

datatype wizard_control = WC wizard_event | WC_back | WC_done

fun read_word :: "wizard_control \<Rightarrow> ustring option" where
  "read_word (WC (WE_word t)) = Some t"
| "read_word _ = None"

definition wizard_tips :: "(ustring \<Rightarrow> ustring) \<Rightarrow> wizard \<Rightarrow> wizard_control widget list" where
  "wizard_tips lower w =
     [Caption ((if isWordCountGood (wz_word w) then [0x2705] else [0x274C])
         @ [0x20, 0x32, 0x7E, 0x34, 0xB2E8, 0xC5B4, 0xB85C, 0x20, 0xC785, 0xB825, 0xD574, 0x20, 0xC8FC, 0xC138,
            0xC694, 0x20, 0x28, 0xD604, 0xC7AC, 0x20, 0xB2E8, 0xC5B4, 0x20, 0xC218, 0x3A,
               0x20] @ ascii (show_int (int (word_count False (trim (wz_word w))))) @ [0x29]),
      Caption ((if hasStarter lower (wz_word w) then [0x2705] else [0xD83D, 0xDCA1]) @ [0x20, 0xC2DC, 0xC791, 0x20,
         0xB2E8, 0xC5B4, 0xB97C, 0x20, 0xBA85, 0xD655, 0xD558, 0xAC8C, 0x20, 0xD574, 0xC8FC, 0xC138, 0xC694, 0x20,
            0x28, 0xC608, 0x3A, 0x20, 0x22, 0xD5E4, 0xC774, 0x22, 0x2C, 0x20, 0x22, 0xC624, 0xCF00, 0xC774, 0x22, 0x29]),
      Caption (if isCommonWord lower (wz_word w) then [0x274C, 0x20, 0xD754, 0xD558, 0xAC8C, 0x20, 0xC0AC, 0xC6A9,
         0xB418, 0xB294, 0x20, 0xB2E8, 0xC5B4, 0xB294, 0x20, 0xD53C, 0xD574, 0x20, 0xC8FC, 0xC138, 0xC694]
               else [0x2705, 0x20, 0xD6CC, 0xB96D, 0xD558, 0xACE0, 0x20, 0xACE0, 0xC720, 0xD55C, 0x20, 0xD638,
                  0xCD9C, 0xC5B4, 0x20, 0xC120, 0xD0DD, 0xC785, 0xB2C8, 0xB2E4])]"

definition wizard_intro :: "(ustring \<Rightarrow> ustring) \<Rightarrow> wizard \<Rightarrow> wizard_control widget list" where
  "wizard_intro lower w =
     Caption [0xC74C, 0xC131, 0x20, 0xD638, 0xCD9C, 0xC5B4, 0x20, 0xC124, 0xC815]
     # Caption [0xB9C8, 0xC774, 0xD06C, 0xC5D0, 0x20, 0xB300, 0xACE0, 0x20, 0xB9D0, 0xD560, 0x20, 0xB54C, 0x20,
        0xC790, 0xC5F0, 0xC2A4, 0xB7EC, 0xC6B4, 0x20, 0xD638, 0xCD9C, 0xC5B4, 0x20, 0xBB38, 0xAD6C, 0xB97C, 0x20,
           0xC124, 0xC815, 0xD574, 0x20, 0xC8FC, 0xC138, 0xC694, 0x2E, 0x20, 0x32, 0x7E, 0x34, 0xB2E8, 0xC5B4,
              0xB85C, 0x20, 0xAD6C, 0xC131, 0xD558, 0xB294, 0x20, 0xAC83, 0xC774, 0x20, 0xAC00, 0xC7A5, 0x20, 0xC88B, 0xC2B5, 0xB2C8, 0xB2E4, 0x2E]
     # Entry [0xD638, 0xCD9C, 0xC5B4, 0x20, 0xBB38, 0xAD6C, 0x20, 0xC785, 0xB825] (wz_word w) (Some 40) read_word # wizard_tips lower w
     @ [Button [0xB179, 0xC74C, 0x20, 0xB2E8, 0xACC4, 0xB85C, 0x20, 0xC9C4, 0xD589] (\<not> length (trim (wz_word w)) < 3) (WC WE_next)]"

text \<open>The button that simulates a recording is one; chance decides between its two events.\<close>

definition wizard_recording :: "wizard \<Rightarrow> wizard_control widget list" where
  "wizard_recording w =
     [Caption ([0x22] @ wz_word w @ [0x22, 0xB77C, 0xACE0, 0x20, 0xB9D0, 0xD574, 0x20, 0xC8FC, 0xC138, 0xC694]),
      Caption [0xC778, 0xACF5, 0xC9C0, 0xB2A5, 0x20, 0xBAA8, 0xB378, 0x20, 0xD559, 0xC2B5, 0xC744, 0x20, 0xC704,
         0xD574, 0x20, 0xD638, 0xCD9C, 0xC5B4, 0xB97C, 0x20, 0x35, 0xBC88, 0x20, 0xBC18, 0xBCF5, 0xD558, 0xC5EC,
            0x20, 0xB179, 0xC74C, 0xD569, 0xB2C8, 0xB2E4, 0x2E],
      Caption ([0x35, 0xD68C, 0x20, 0xC911, 0x20] @ ascii (show_int (wz_reps w)) @ [0xD68C, 0x20, 0xB179, 0xC74C, 0x20, 0xC644, 0xB8CC])]
     @ (case wz_repStatus w of
          RS_none \<Rightarrow> []
        | RS_good \<Rightarrow> [Caption [0x2705, 0x20, 0xB179, 0xC74C, 0x20, 0xC644, 0xB8CC, 0x20, 0x28, 0xC0C1, 0xD0DC, 0x20, 0xC591, 0xD638, 0x29]]
        | RS_quiet \<Rightarrow> [Caption [0x26A0, 0xFE0F, 0x20, 0xC18C, 0xB9AC, 0xAC00, 0x20, 0xB108, 0xBB34,
           0x20, 0xC791, 0xC2B5, 0xB2C8, 0xB2E4, 0x20, 0x2014, 0x20, 0xC870, 0xAE08, 0x20, 0xB354, 0x20, 0xD06C,
              0xAC8C, 0x20, 0xB9D0, 0xC500, 0xD574, 0x20, 0xC8FC, 0xC138, 0xC694]])
     @ [Button [0xD83C, 0xDFA4, 0x20, 0xC74C, 0xC131, 0x20, 0xC785, 0xB825, 0x20, 0xC2DC, 0xBBAC, 0xB808, 0xC774, 0xC158] True (WC (WE_speak True)),
        Button [0xD83C, 0xDFA4, 0x20, 0xC74C, 0xC131, 0x20, 0xC785, 0xB825, 0x20, 0xC2DC, 0xBBAC, 0xB808, 0xC774, 0xC158] True (WC (WE_speak False)),
        Button [0xD604, 0xC7AC, 0x20, 0xB179, 0xC74C, 0x20, 0xAC74, 0xB108, 0xB6F0, 0xAE30] True (WC WE_skip)]"

definition stage_label :: "train_stage \<Rightarrow> ustring" where
  "stage_label s =
     (case s of
        Stage_processing \<Rightarrow> [0xB179, 0xC74C, 0x20, 0xD30C, 0xC77C, 0x20, 0xCC98, 0xB9AC, 0x20, 0xC911, 0x2E, 0x2E, 0x2E]
      | Stage_optimising \<Rightarrow> [0xC778, 0xACF5, 0xC2E0, 0xACBD, 0xB9DD, 0x20, 0xAC00, 0xC911, 0xCE58, 0x20,
         0xCD5C, 0xC801, 0xD654, 0x20, 0xC911, 0x2E, 0x2E, 0x2E]
      | Stage_deploying \<Rightarrow> [0xB85C, 0xCEEC, 0x20, 0xC74C, 0xC131, 0x20, 0xBAA8, 0xB378, 0x20, 0xBC30,
         0xD3EC, 0x20, 0xC911, 0x2E, 0x2E, 0x2E])"

definition wizard_training :: "wizard \<Rightarrow> wizard_control widget list" where
  "wizard_training w =
     [Caption [0xBAA8, 0xB378, 0x20, 0xD559, 0xC2B5, 0x20, 0xC911, 0x2E, 0x2E, 0x2E], Caption [0xC0AC, 0xC6A9,
        0xC790, 0xC758, 0x20, 0xAC1C, 0xBCC4, 0x20, 0xC74C, 0xC131, 0x20, 0xC2DC, 0xADF8, 0xB2C8, 0xCC98, 0xB97C,
           0x20, 0xACE0, 0xC720, 0x20, 0xC54C, 0xACE0, 0xB9AC, 0xC998, 0x20, 0xBAA8, 0xB378, 0xC5D0, 0x20, 0xD559,
              0xC2B5, 0xC2DC, 0xD0A4, 0xB294, 0x20, 0xC911, 0xC785, 0xB2C8, 0xB2E4,
                 0x2E], Caption (stage_label (wz_stage w)), Caption (percent (wz_progress w))]"

definition wizard_validation :: "wizard \<Rightarrow> wizard_control widget list" where
  "wizard_validation w =
     [Caption [0xC778, 0xC2DD, 0x20, 0xD14C, 0xC2A4, 0xD2B8],
      Caption ([0xC124, 0xC815, 0xD55C, 0x20, 0xD638, 0xCD9C, 0xC5B4, 0xAC00, 0x20, 0xC815, 0xC0C1, 0x20, 0xC791,
         0xB3D9, 0xD558, 0xB294, 0xC9C0, 0x20, 0xD655, 0xC778, 0xD558, 0xAE30, 0x20, 0xC704, 0xD574, 0x20,
            0x22] @ wz_word w @ [0x22, 0xB77C, 0xACE0, 0x20, 0xD070, 0x20, 0xC18C, 0xB9AC, 0xB85C, 0x20, 0xB9D0,
               0xC500, 0xD574, 0x20, 0xC8FC, 0xC138, 0xC694, 0x2E])]
     @ (case wz_val w of
        VS_listening \<Rightarrow>
          [Caption [0xC74C, 0xC131, 0x20, 0xB300, 0xAE30, 0x20, 0xC911, 0x2E, 0x2E, 0x2E], Button [0xC778, 0xC2DD,
             0x20, 0xC131, 0xACF5, 0x20, 0xC2DC, 0xBBAC, 0xB808, 0xC774, 0xC158] True (WC (WE_simulate True)),
           Button [0xC778, 0xC2DD, 0x20, 0xC2E4, 0xD328, 0x20, 0xC2DC, 0xBBAC, 0xB808, 0xC774, 0xC158] True (WC (WE_simulate False))]
      | VS_detecting \<Rightarrow> [Caption [0xBD84, 0xC11D, 0x20, 0xC911, 0x2E, 0x2E, 0x2E]]
      | VS_detected \<Rightarrow>
          [Caption [0xC778, 0xC2DD, 0x20, 0xC131, 0xACF5, 0x21], Caption [0x2705, 0x20, 0xD638, 0xCD9C, 0xC5B4,
             0xAC00, 0x20, 0xC644, 0xBCBD, 0xD558, 0xAC8C, 0x20, 0xB9E4, 0xCE6D, 0x20, 0xBC0F, 0x20, 0xD655,
                0xC778, 0xB418, 0xC5C8, 0xC2B5, 0xB2C8, 0xB2E4, 0x21],
           Caption ([0xC77C, 0xCE58, 0xB3C4, 0x20, 0xC2E0, 0xB8B0, 0xAC12, 0x3A,
              0x20] @ ascii (show_int (wz_confidence w)) @ [0x25]), Button [0x2705, 0x20, 0xC124, 0xC815, 0x20,
                 0xC800, 0xC7A5, 0x20, 0xBC0F, 0x20, 0xB9C8, 0xCE68] True WC_done]
      | VS_failed \<Rightarrow>
          [Caption [0xC778, 0xC2DD, 0x20, 0xC2E4, 0xD328], Caption [0xB9C8, 0xC774, 0xD06C, 0xC5D0, 0x20, 0xC870,
             0xAE08, 0x20, 0xB354, 0x20, 0xAC00, 0xAE4C, 0xC774, 0x20, 0xB300, 0xACE0, 0x20, 0xD070, 0x20, 0xC18C,
                0xB9AC, 0xB85C, 0x20, 0xB9D0, 0xC500, 0xD558, 0xC2DC, 0xAC70, 0xB098, 0x2C, 0x20, 0xAC10, 0xB3C4,
                   0xB97C, 0x20, 0xC870, 0xC808, 0xD574, 0x20, 0xC8FC, 0xC138, 0xC694, 0x2E],
           Button [0xD83D, 0xDD04, 0x20, 0xB2E4, 0xC2DC, 0x20, 0xC2DC, 0xB3C4] True (WC WE_retry), Button [0xD83C,
              0xDF99, 0xFE0F, 0x20, 0xC7AC, 0xB179, 0xC74C, 0xD558, 0xAE30] True (WC WE_rerecord)])"

definition step_number :: "wizard_step \<Rightarrow> ustring" where
  "step_number s =
     (case s of W_INTRO \<Rightarrow> ascii ''1'' | W_RECORDING \<Rightarrow> ascii ''2'' | W_TRAINING \<Rightarrow> ascii ''3'' | W_VALIDATION \<Rightarrow> ascii ''4'')"

definition wizard_view :: "(ustring \<Rightarrow> ustring) \<Rightarrow> wizard \<Rightarrow> wizard_control widget list" where
  "wizard_view lower w =
     Button [0xB9C8, 0xBC95, 0xC0AC, 0x20, 0xCDE8, 0xC18C, 0x20, 0xBC0F, 0x20, 0xB2EB,
        0xAE30] True WC_back # Caption (step_number (wz_step w) @ [0x20, 0x2F, 0x20, 0x34, 0x20, 0xB2E8, 0xACC4])
     # (case wz_step w of
          W_INTRO \<Rightarrow> wizard_intro lower w
        | W_RECORDING \<Rightarrow> wizard_recording w
        | W_TRAINING \<Rightarrow> wizard_training w
        | W_VALIDATION \<Rightarrow> wizard_validation w)"

subsection \<open>The dialogue at work\<close>

text \<open>
  A save that waits for the daemon: whether the stream has been asked for, and what the handler read at
  the click.  A load waits for the devices or for the status, and knows the opening it belongs to.
  \<open>ap_toggle\<close> is the value the switch has asked the daemon for, \<open>ap_toastDue\<close> the timeout of the toast,
  \<open>ap_sent\<close> what has been sent to the daemon.  The wizard is mounted while it is shown.
\<close>

record save_ticket =
  sv_streaming :: bool
  sv_enabled :: bool
  sv_voice :: bool

datatype load_stage = L_devices | L_status

record audio_panel =
  ap_open :: bool
  ap_set :: audio_settings
  ap_session :: nat
  ap_loads :: "(nat \<times> load_stage) list"
  ap_toggle :: "bool option"
  ap_saves :: "save_ticket list"
  ap_sent :: "daemon_call list"
  ap_wizard :: "wizard option"
  ap_toastDue :: "int option"

definition new_panel :: audio_panel where
  "new_panel =
     \<lparr>ap_open = False, ap_set = new_audio, ap_session = 0, ap_loads = [], ap_toggle = None, ap_saves = [],
      ap_sent = [], ap_wizard = None, ap_toastDue = None\<rparr>"

text \<open>The effect of the toast: its dependency \<open>onClose\<close> is new at every render, so each one restarts it.\<close>

definition toast_effect :: "int \<Rightarrow> audio_panel \<Rightarrow> audio_panel" where
  "toast_effect now p = p\<lparr>ap_toastDue := (if ap_open p \<and> as_toast (ap_set p) then Some (now + 2000) else None)\<rparr>"

definition wizard_mount :: "audio_panel \<Rightarrow> audio_panel" where
  "wizard_mount p =
     p\<lparr>ap_wizard := (if ap_open p \<and> as_wizardOpen (ap_set p)
                     then (case ap_wizard p of None \<Rightarrow> Some new_wizard | Some w \<Rightarrow> Some w) else None)\<rparr>"

definition panel_rendered :: "int \<Rightarrow> audio_panel \<Rightarrow> audio_panel" where
  "panel_rendered now p = toast_effect now (wizard_mount p)"

text \<open>A setter that keeps the value does not render.\<close>

definition change_settings :: "int \<Rightarrow> audio_settings \<Rightarrow> audio_panel \<Rightarrow> audio_panel" where
  "change_settings now a p = (if ap_set p = a then p else panel_rendered now (p\<lparr>ap_set := a\<rparr>))"

text \<open>\<open>App.jsx\<close> opens and closes; opening starts the load effect.\<close>

definition open_audio_panel :: "int \<Rightarrow> audio_panel \<Rightarrow> audio_panel" where
  "open_audio_panel now p =
     (if ap_open p then p
      else panel_rendered now (p\<lparr>ap_open := True, ap_session := ap_session p + 1,
                           ap_loads := ap_loads p @ [(ap_session p + 1, L_devices)]\<rparr>))"

definition close_panel :: "int \<Rightarrow> audio_panel \<Rightarrow> audio_panel" where
  "close_panel now p = (if ap_open p then panel_rendered now (p\<lparr>ap_open := False\<rparr>) else p)"

text \<open>The handlers of the controls.\<close>

fun audio_set :: "audio_control \<Rightarrow> audio_settings \<Rightarrow> audio_settings" where
  "audio_set AC_enable a = a\<lparr>as_isEnabled := \<not> as_isEnabled a\<rparr>"
| "audio_set (AC_device i) a = a\<lparr>as_selected := i\<rparr>"
| "audio_set (AC_sensitivity x) a = a\<lparr>as_sensitivity := x\<rparr>"
| "audio_set AC_clap a = a\<lparr>as_clapEnabled := \<not> as_clapEnabled a\<rparr>"
| "audio_set AC_double_clap a = a\<lparr>as_doubleClap := \<not> as_doubleClap a\<rparr>"
| "audio_set (AC_clap_sensitivity x) a = a\<lparr>as_clapSensitivity := x\<rparr>"
| "audio_set AC_clap_test a = simulateClap a"
| "audio_set AC_voice a = a\<lparr>as_voiceEnabled := \<not> as_voiceEnabled a\<rparr>"
| "audio_set AC_open_wizard a = a\<lparr>as_wizardOpen := True\<rparr>"
| "audio_set AC_reset a = handleReset a"
| "audio_set _ a = a"

definition press_autostart :: "int \<Rightarrow> audio_panel \<Rightarrow> audio_panel" where
  "press_autostart now p =
     (case toggle_begin (ap_set p) of
        (a, None) \<Rightarrow> p
      | (a, Some nxt) \<Rightarrow> change_settings now a (p\<lparr>ap_toggle := Some nxt\<rparr>))"

definition press_save :: "audio_panel \<Rightarrow> audio_panel" where
  "press_save p =
     p\<lparr>ap_sent := ap_sent p @ [Select_device (as_selected (ap_set p))],
       ap_saves := ap_saves p @ [\<lparr>sv_streaming = False, sv_enabled = as_isEnabled (ap_set p),
                                  sv_voice = as_voiceEnabled (ap_set p)\<rparr>]\<rparr>"

definition press_control :: "int \<Rightarrow> audio_control \<Rightarrow> audio_panel \<Rightarrow> audio_panel" where
  "press_control now c p =
     (case c of
        AC_autostart \<Rightarrow> press_autostart now p
      | AC_close \<Rightarrow> close_panel now p
      | AC_save \<Rightarrow> press_save p
      | _ \<Rightarrow> change_settings now (audio_set c (ap_set p)) p)"

text \<open>
  The answer to the request a save waits for.  The choice of the device taken, the stream is asked
  for; any other answer leads to the message and to \<open>onClose\<close>.
\<close>

definition config_message :: "bool \<Rightarrow> daemon_call" where
  "config_message voice =
     Config_updated [''audio.device_id'', ''audio.enabled'', ''wake_word.phrase'']
       (if voice then [''wake_word_model''] else []) False"

definition save_answered :: "int \<Rightarrow> nat \<Rightarrow> bool \<Rightarrow> audio_panel \<Rightarrow> audio_panel" where
  "save_answered now n ok p =
     (let v = ap_saves p ! n in
      if \<not> sv_streaming v \<and> ok
      then p\<lparr>ap_sent := ap_sent p @ [Control_stream (sv_enabled v)],
             ap_saves := (ap_saves p)[n := v\<lparr>sv_streaming := True\<rparr>]\<rparr>
      else close_panel now (p\<lparr>ap_sent := ap_sent p @ [config_message (sv_voice v)],
                              ap_saves := drop_nth n (ap_saves p)\<rparr>))"

definition session_alive :: "nat \<Rightarrow> audio_panel \<Rightarrow> bool" where
  "session_alive k p \<longleftrightarrow> ap_open p \<and> ap_session p = k"

definition devices_answered :: "int \<Rightarrow> nat \<Rightarrow> audio_device list answer \<Rightarrow> audio_panel \<Rightarrow> audio_panel" where
  "devices_answered now k reply p =
     change_settings now (load_devices (session_alive k p) reply (ap_set p))
       (p\<lparr>ap_loads := remove1 (k, L_devices) (ap_loads p) @ [(k, L_status)]\<rparr>)"

definition status_answered :: "int \<Rightarrow> nat \<Rightarrow> bool answer \<Rightarrow> audio_panel \<Rightarrow> audio_panel" where
  "status_answered now k reply p =
     change_settings now (load_status (session_alive k p) reply (ap_set p))
       (p\<lparr>ap_loads := remove1 (k, L_status) (ap_loads p)\<rparr>)"

definition toggle_answered :: "int \<Rightarrow> bool answer \<Rightarrow> audio_panel \<Rightarrow> audio_panel" where
  "toggle_answered now reply p =
     (case ap_toggle p of
        None \<Rightarrow> p
      | Some nxt \<Rightarrow> change_settings now (toggle_end nxt reply (ap_set p)) (p\<lparr>ap_toggle := None\<rparr>))"

text \<open>
  The wizard lies over the whole panel, inside the overlay whose \<open>onMouseDown\<close> is \<open>onClose\<close>, and lets
  the press through: a mouse closes the dialogue before its click arrives.  A key reaches the control.
\<close>

datatype pointer = Mouse | Keyboard

definition wizard_pressed :: "int \<Rightarrow> pointer \<Rightarrow> wizard_control \<Rightarrow> wizard \<Rightarrow> audio_panel \<Rightarrow> audio_panel" where
  "wizard_pressed now d c w p =
     (if d = Mouse then close_panel now p
      else (case c of
              WC e \<Rightarrow> p\<lparr>ap_wizard := Some (wizard_event_step w (now, e))\<rparr>
            | WC_back \<Rightarrow> change_settings now ((ap_set p)\<lparr>as_wizardOpen := False\<rparr>) p
            | WC_done \<Rightarrow> change_settings now (handleWizardComplete (wz_word w) (ap_set p)) p))"

datatype audio_event =
    AE_open | AE_render | AE_backdrop | AE_press pointer audio_control | AE_wizard pointer wizard_control
  | AE_wizard_time wizard_event | AE_toast | AE_devices nat "audio_device list answer" | AE_status nat "bool answer"
  | AE_toggled "bool answer" | AE_saved nat bool

fun audio_step :: "audio_panel \<Rightarrow> int \<times> audio_event \<Rightarrow> audio_panel" where
  "audio_step p (now, AE_open) = open_audio_panel now p"
| "audio_step p (now, AE_render) = panel_rendered now p"
| "audio_step p (now, AE_backdrop) = close_panel now p"
| "audio_step p (now, AE_press d c) = press_control now c p"
| "audio_step p (now, AE_wizard d c) = (case ap_wizard p of None \<Rightarrow> p | Some w \<Rightarrow> wizard_pressed now d c w p)"
| "audio_step p (now, AE_wizard_time e) =
     (case ap_wizard p of None \<Rightarrow> p | Some w \<Rightarrow> p\<lparr>ap_wizard := Some (wizard_event_step w (now, e))\<rparr>)"
| "audio_step p (now, AE_toast) = change_settings now ((ap_set p)\<lparr>as_toast := False\<rparr>) (p\<lparr>ap_toastDue := None\<rparr>)"
| "audio_step p (now, AE_devices k reply) = devices_answered now k reply p"
| "audio_step p (now, AE_status k reply) = status_answered now k reply p"
| "audio_step p (now, AE_toggled reply) = toggle_answered now reply p"
| "audio_step p (now, AE_saved n ok) = save_answered now n ok p"

text \<open>What can happen: what is on the screen can be pressed, what is awaited can be answered.\<close>

fun audio_offers :: "(ustring \<Rightarrow> ustring) \<Rightarrow> audio_panel \<Rightarrow> int \<times> audio_event \<Rightarrow> bool" where
  "audio_offers lower p (now, AE_open) \<longleftrightarrow> True"
| "audio_offers lower p (now, AE_render) \<longleftrightarrow> True"
| "audio_offers lower p (now, AE_backdrop) \<longleftrightarrow> ap_open p"
| "audio_offers lower p (now, AE_press d c) \<longleftrightarrow>
     ap_open p \<and> (d = Keyboard \<or> ap_wizard p = None) \<and> screen_offers (audio_view (ap_set p)) c"
| "audio_offers lower p (now, AE_wizard d c) \<longleftrightarrow>
     (case ap_wizard p of None \<Rightarrow> False | Some w \<Rightarrow> screen_offers (wizard_view lower w) c)"
| "audio_offers lower p (now, AE_wizard_time e) \<longleftrightarrow> ap_wizard p \<noteq> None \<and> (e = WE_tick \<or> e = WE_timers)"
| "audio_offers lower p (now, AE_toast) \<longleftrightarrow> (case ap_toastDue p of None \<Rightarrow> False | Some t \<Rightarrow> t \<le> now)"
| "audio_offers lower p (now, AE_devices k reply) \<longleftrightarrow> (k, L_devices) \<in> set (ap_loads p)"
| "audio_offers lower p (now, AE_status k reply) \<longleftrightarrow> (k, L_status) \<in> set (ap_loads p)"
| "audio_offers lower p (now, AE_toggled reply) \<longleftrightarrow> ap_toggle p \<noteq> None"
| "audio_offers lower p (now, AE_saved n ok) \<longleftrightarrow> n < length (ap_saves p)"

definition audio_run :: "(ustring \<Rightarrow> ustring) \<Rightarrow> audio_panel \<Rightarrow> (int \<times> audio_event) list \<Rightarrow> audio_panel option" where
  "audio_run lower = guarded_run (audio_offers lower) audio_step"

subsection \<open>Invariants\<close>

definition settings_ok :: "audio_settings \<Rightarrow> bool" where
  "settings_ok a \<longleftrightarrow> 0 \<le> as_sensitivity a \<and> as_sensitivity a \<le> 100 \<and> 10 \<le> as_clapSensitivity a \<and> as_clapSensitivity a \<le> 90
     \<and> 0 \<le> as_clapCount a \<and> as_clapCount a \<le> 5 \<and> (\<not> as_clapActive a \<or> as_clapCount a < 5)
     \<and> (as_confidence a = 87 \<or> as_confidence a = 94) \<and> (as_selected a = 0 \<or> as_selected a \<in> ad_id ` set (as_devices a))
     \<and> 3 \<le> length (trim (as_wakeWord a)) \<and> length (as_wakeWord a) \<le> 40"

definition wizard_word_ok :: "wizard \<Rightarrow> bool" where
  "wizard_word_ok w \<longleftrightarrow> wizard_ok w \<and> length (wz_word w) \<le> 40
     \<and> (if wz_step w = W_INTRO then wz_timers w = [] else 3 \<le> length (trim (wz_word w)))"

definition saves_counted :: "audio_panel \<Rightarrow> bool" where
  "saves_counted p \<longleftrightarrow>
     length (filter (\<lambda>c. case c of Select_device _ \<Rightarrow> True | _ \<Rightarrow> False) (ap_sent p))
     = length (filter (\<lambda>c. case c of Config_updated _ _ _ \<Rightarrow> True | _ \<Rightarrow> False) (ap_sent p)) + length (ap_saves p)"

definition panel_core :: "audio_panel \<Rightarrow> bool" where
  "panel_core p \<longleftrightarrow> settings_ok (ap_set p) \<and> (\<forall>w. ap_wizard p = Some w \<longrightarrow> wizard_word_ok w)
     \<and> (ap_toggle p \<noteq> None \<longleftrightarrow> as_autostartBusy (ap_set p)) \<and> saves_counted p"

definition panel_mounted :: "audio_panel \<Rightarrow> bool" where
  "panel_mounted p \<longleftrightarrow> (ap_wizard p \<noteq> None \<longleftrightarrow> ap_open p \<and> as_wizardOpen (ap_set p))
     \<and> (ap_toastDue p \<noteq> None \<longleftrightarrow> ap_open p \<and> as_toast (ap_set p))"

definition panel_ok :: "audio_panel \<Rightarrow> bool" where
  "panel_ok p \<longleftrightarrow> panel_core p \<and> panel_mounted p"

lemma panel_rendered_simps [simp]:
  "ap_open (panel_rendered now p) = ap_open p" "ap_set (panel_rendered now p) = ap_set p" "ap_session (panel_rendered now p) = ap_session p"
  "ap_loads (panel_rendered now p) = ap_loads p" "ap_toggle (panel_rendered now p) = ap_toggle p" "ap_saves (panel_rendered now p) = ap_saves p"
  "ap_sent (panel_rendered now p) = ap_sent p"
  "ap_toastDue (panel_rendered now p) = (if ap_open p \<and> as_toast (ap_set p) then Some (now + 2000) else None)"
  "ap_wizard (panel_rendered now p) = (if ap_open p \<and> as_wizardOpen (ap_set p)
     then (case ap_wizard p of None \<Rightarrow> Some new_wizard | Some w \<Rightarrow> Some w) else None)"
  by (simp_all add: panel_rendered_def toast_effect_def wizard_mount_def)

lemma change_settings_simps [simp]:
  "ap_open (change_settings now a p) = ap_open p" "ap_set (change_settings now a p) = a"
  "ap_session (change_settings now a p) = ap_session p" "ap_loads (change_settings now a p) = ap_loads p"
  "ap_toggle (change_settings now a p) = ap_toggle p" "ap_saves (change_settings now a p) = ap_saves p"
  "ap_sent (change_settings now a p) = ap_sent p"
  by (simp_all add: change_settings_def)

lemma close_panel_simps [simp]:
  "\<not> ap_open (close_panel now p)" "ap_set (close_panel now p) = ap_set p" "ap_session (close_panel now p) = ap_session p"
  "ap_loads (close_panel now p) = ap_loads p" "ap_toggle (close_panel now p) = ap_toggle p"
  "ap_saves (close_panel now p) = ap_saves p" "ap_sent (close_panel now p) = ap_sent p"
  by (simp_all add: close_panel_def)

lemma new_wizard_word: "wizard_word_ok new_wizard"
  by (simp add: wizard_word_ok_def wizard_ok_def new_wizard_def)

lemma panel_rendered_ok [inv_intro]: "panel_core p \<Longrightarrow> panel_ok (panel_rendered now p)"
  by (auto simp: panel_ok_def panel_core_def panel_mounted_def saves_counted_def new_wizard_word split: option.splits)

lemma change_settings_ok [inv_intro]:
  assumes "panel_core (p\<lparr>ap_set := a\<rparr>)" "a = ap_set p \<Longrightarrow> panel_mounted p"
  shows "panel_ok (change_settings now a p)"
proof (cases "ap_set p = a")
  case True
  then have "p\<lparr>ap_set := a\<rparr> = p" by auto
  with True assms show ?thesis by (simp add: change_settings_def panel_ok_def)
qed (simp add: change_settings_def panel_rendered_ok assms)

lemma close_panel_ok [inv_intro]:
  assumes "panel_core p" "ap_open p \<or> panel_mounted p"
  shows "panel_ok (close_panel now p)"
proof (cases "ap_open p")
  case True
  have "panel_core (p\<lparr>ap_open := False\<rparr>)" using assms(1) by (simp add: panel_core_def saves_counted_def)
  then show ?thesis using True by (simp add: close_panel_def panel_rendered_ok)
qed (use assms in \<open>simp add: close_panel_def panel_ok_def\<close>)

text \<open>What a control offered by the view does to the settings.\<close>

lemma audio_set_ok:
  assumes "settings_ok a" "screen_offers (audio_view a) c"
  shows "settings_ok (audio_set c a) \<and> as_autostartBusy (audio_set c a) = as_autostartBusy a"
proof (cases c)
  case AC_clap_test
  then show ?thesis using assms(1) by (auto simp: settings_ok_def simulateClap_def Let_def)
next
  case (AC_device i)
  then have "i \<in> ad_id ` set (as_devices a)"
    using assms(2) by (auto simp: audio_view_def general_section_def clap_section_def voice_section_def panel_footer_def)
  then show ?thesis using AC_device assms(1) by (auto simp: settings_ok_def)
next
  case (AC_sensitivity x)
  then have "0 \<le> x \<and> x \<le> 100"
    using assms(2) by (auto simp: audio_view_def general_section_def clap_section_def voice_section_def panel_footer_def)
  then show ?thesis using AC_sensitivity assms(1) by (auto simp: settings_ok_def)
next
  case (AC_clap_sensitivity x)
  then have "10 \<le> x \<and> x \<le> 90"
    using assms(2) by (auto simp: audio_view_def general_section_def clap_section_def voice_section_def panel_footer_def)
  then show ?thesis using AC_clap_sensitivity assms(1) by (auto simp: settings_ok_def)
next
  case AC_reset
  then show ?thesis using assms(1) by (auto simp: settings_ok_def handleReset_def trim_def white_def)
qed (use assms(1) in \<open>auto simp: settings_ok_def\<close>)

definition past_intro :: "ustring \<Rightarrow> wizard \<Rightarrow> bool" where
  "past_intro word w \<longleftrightarrow> wz_step w \<noteq> W_INTRO \<and> wz_word w = word"

lemma past_intro_set [simp]:
  "past_intro word w \<Longrightarrow> s \<noteq> W_INTRO \<Longrightarrow> past_intro word (set_step s w)"
  "past_intro word w \<Longrightarrow> past_intro word (set_reps n w)"
  by (auto simp: past_intro_def set_step_def set_reps_def Let_def)

lemma past_intro_fire: "past_intro word w \<Longrightarrow> past_intro word (fire_wizard now k w)"
proof (cases k)
  case WT_rep
  assume w: "past_intro word w"
  then have "past_intro word (w\<lparr>wz_timers := ts\<rparr>)" for ts by (simp add: past_intro_def)
  moreover have "past_intro word (v\<lparr>wz_repStatus := RS_none\<rparr>)" if "past_intro word v" for v using that by (simp add: past_intro_def)
  ultimately show ?thesis using WT_rep w by (simp add: Let_def)
qed (auto simp: past_intro_def set_step_def Let_def)

lemma past_intro_fold: "past_intro word w \<Longrightarrow> past_intro word (fold (\<lambda>t. fire_wizard now (snd t)) ts w)"
  by (induction ts arbitrary: w) (simp_all add: past_intro_fire)

lemma past_intro_step: "past_intro word w \<Longrightarrow> past_intro word (wizard_event_step w (now, e))"
proof (cases e)
  case WE_timers
  assume w: "past_intro word w"
  then have "past_intro word (w\<lparr>wz_timers := ts\<rparr>)" for ts by (simp add: past_intro_def)
  then show ?thesis using WE_timers by (simp add: wizard_timers_def Let_def past_intro_fold)
qed (auto simp: past_intro_def triggerSpeechSimulation_def simulateValidationSpeech_def skip_recording_def set_reps_def
    set_step_def train_tick_def Let_def)

lemma wizard_word_step:
  assumes w: "wizard_word_ok w"
  shows "wizard_word_ok (wizard_event_step w (now, e))"
proof -
  have ok: "wizard_ok (wizard_event_step w (now, e))" using w by (simp add: wizard_word_ok_def wizard_ok_step)
  show ?thesis
  proof (cases "wz_step w = W_INTRO")
    case False
    then have "past_intro (wz_word w) w" by (simp add: past_intro_def)
    from past_intro_step [OF this, of now e] ok w False show ?thesis by (simp add: wizard_word_ok_def past_intro_def)
  next
    case True
    then have "wz_timers w = []" "\<not> wz_ticking w" using w by (auto simp: wizard_word_ok_def wizard_ok_def)
    with True w ok show ?thesis
      by (cases e) (auto simp: wizard_word_ok_def triggerSpeechSimulation_def simulateValidationSpeech_def
          set_step_def train_tick_def wizard_timers_def Let_def)
  qed
qed

text \<open>Every event that can happen keeps the invariant.\<close>

lemma change_ok:
  assumes "panel_ok p" "settings_ok a" "ap_toggle q \<noteq> None \<longleftrightarrow> as_autostartBusy a" "ap_wizard q = ap_wizard p"
    "ap_open q = ap_open p" "ap_set q = ap_set p" "ap_toastDue q = ap_toastDue p" "ap_sent q = ap_sent p" "ap_saves q = ap_saves p"
  shows "panel_ok (change_settings now a q)"
proof (rule change_settings_ok)
  show "panel_core (q\<lparr>ap_set := a\<rparr>)" using assms by (simp add: panel_ok_def panel_core_def saves_counted_def)
  show "panel_mounted q" using assms by (simp add: panel_ok_def panel_mounted_def)
qed

lemma panel_okD: "panel_ok p \<Longrightarrow> settings_ok (ap_set p)" "panel_ok p \<Longrightarrow> ap_toggle p \<noteq> None \<longleftrightarrow> as_autostartBusy (ap_set p)"
  by (simp_all add: panel_ok_def panel_core_def)

lemma press_autostart_ok:
  assumes "panel_ok p"
  shows "panel_ok (press_autostart now p)"
proof (cases "as_autostartBusy (ap_set p)")
  case False
  have "settings_ok ((ap_set p)\<lparr>as_autostartBusy := True, as_autostart := x\<rparr>)" for x
    using panel_okD(1) [OF assms] by (simp add: settings_ok_def)
  then show ?thesis using False assms by (simp add: press_autostart_def toggle_begin_def change_ok)
qed (use assms in \<open>simp add: press_autostart_def toggle_begin_def\<close>)

lemma press_control_ok:
  assumes "panel_ok p" "screen_offers (audio_view (ap_set p)) c"
  shows "panel_ok (press_control now c p)"
proof -
  have s: "settings_ok (audio_set c (ap_set p)) \<and> as_autostartBusy (audio_set c (ap_set p)) = as_autostartBusy (ap_set p)"
    using assms by (intro audio_set_ok) (auto simp: panel_ok_def panel_core_def)
  have set: "panel_ok (change_settings now (audio_set c (ap_set p)) p)"
    using assms(1) s by (intro change_settings_ok) (auto simp: panel_ok_def panel_core_def saves_counted_def)
  show ?thesis
  proof (cases c)
    case AC_autostart
    then show ?thesis using press_autostart_ok assms(1) by (simp add: press_control_def)
  next
    case AC_close
    then show ?thesis using assms(1) by (simp add: press_control_def panel_ok_def close_panel_ok [unfolded panel_ok_def])
  next
    case AC_save
    then show ?thesis using assms(1)
      by (simp add: press_control_def press_save_def panel_ok_def panel_core_def panel_mounted_def saves_counted_def)
  qed (use set in \<open>simp_all add: press_control_def\<close>)
qed

lemma save_answered_ok:
  assumes "panel_ok p" "n < length (ap_saves p)"
  shows "panel_ok (save_answered now n ok p)"
proof -
  have "length (drop_nth n (ap_saves p)) = length (ap_saves p) - 1" using assms(2) by (simp add: length_drop_nth)
  then have "panel_core (p\<lparr>ap_sent := ap_sent p @ [config_message v], ap_saves := drop_nth n (ap_saves p)\<rparr>)" for v
    using assms by (auto simp: panel_ok_def panel_core_def saves_counted_def config_message_def)
  moreover have "panel_mounted (p\<lparr>ap_sent := x, ap_saves := y\<rparr>)" for x y
    using assms(1) by (simp add: panel_ok_def panel_mounted_def)
  moreover have "panel_core (p\<lparr>ap_sent := ap_sent p @ [Control_stream b], ap_saves := (ap_saves p)[n := v]\<rparr>)" for b v
    using assms(1) by (auto simp: panel_ok_def panel_core_def saves_counted_def)
  ultimately show ?thesis by (simp add: save_answered_def Let_def close_panel_ok, simp add: panel_ok_def)
qed

lemma load_devices_cases:
  obtains "load_devices alive ds a = a"
  | l x where "x \<in> set l" "load_devices alive ds a = a\<lparr>as_devices := l, as_selected := ad_id x\<rparr>"
proof (cases "alive \<and> (\<exists>d r. ds = Inr (d # r))")
  case True
  then obtain d r where dr: "ds = Inr (d # r)" by blast
  define x where "x = (case List.find ad_default (d # r) of Some x \<Rightarrow> x | None \<Rightarrow> d)"
  have "x \<in> set (d # r)"
    using find_key_Some [of ad_default "d # r"] unfolding x_def by (cases "List.find ad_default (d # r)") (simp_all del: find.simps)
  moreover have "load_devices alive ds a = a\<lparr>as_devices := d # r, as_selected := ad_id x\<rparr>"
    using True dr by (simp add: load_devices_def x_def)
  ultimately show ?thesis using that(2) by blast
next
  case False
  then have "load_devices alive ds a = a" by (auto simp: load_devices_def split: sum.splits list.splits)
  then show ?thesis by (rule that(1))
qed

lemma load_ok:
  assumes "settings_ok a"
  shows "settings_ok (load_devices alive ds a) \<and> as_autostartBusy (load_devices alive ds a) = as_autostartBusy a"
    and "settings_ok (load_status alive st a) \<and> as_autostartBusy (load_status alive st a) = as_autostartBusy a"
proof -
  show "settings_ok (load_devices alive ds a) \<and> as_autostartBusy (load_devices alive ds a) = as_autostartBusy a"
    using assms by (cases rule: load_devices_cases [of alive ds a]) (simp_all add: settings_ok_def)
  show "settings_ok (load_status alive st a) \<and> as_autostartBusy (load_status alive st a) = as_autostartBusy a"
    using assms by (auto simp: load_status_def settings_ok_def split: sum.splits)
qed

lemma toggle_end_ok: "settings_ok a \<Longrightarrow> settings_ok (toggle_end nxt r a) \<and> \<not> as_autostartBusy (toggle_end nxt r a)"
  by (auto simp: toggle_end_def settings_ok_def split: sum.splits)

lemma wizard_pressed_ok:
  assumes p: "panel_ok p" and w: "ap_wizard p = Some w" and c: "screen_offers (wizard_view lower w) c"
  shows "panel_ok (wizard_pressed now d c w p)"
proof -
  have ok: "wizard_word_ok w" using p w by (simp add: panel_ok_def panel_core_def)
  have s: "settings_ok (ap_set p)" "ap_toggle p \<noteq> None \<longleftrightarrow> as_autostartBusy (ap_set p)" using panel_okD [OF p] by simp_all
  show ?thesis
  proof (cases "d = Mouse")
    case True
    then show ?thesis using p by (simp add: wizard_pressed_def panel_ok_def close_panel_ok [unfolded panel_ok_def])
  next
    case False
    show ?thesis
    proof (cases c)
      case (WC e)
      have "panel_ok (p\<lparr>ap_wizard := Some (wizard_event_step w (now, e))\<rparr>)"
        using p w wizard_word_step [OF ok, of now e] by (simp add: panel_ok_def panel_core_def panel_mounted_def saves_counted_def)
      then show ?thesis using WC False by (simp add: wizard_pressed_def)
    next
      case WC_back
      have "settings_ok ((ap_set p)\<lparr>as_wizardOpen := False\<rparr>)" using s by (simp add: settings_ok_def)
      then show ?thesis using WC_back False p s by (simp add: wizard_pressed_def change_ok)
    next
      case WC_done
      then have "wz_step w = W_VALIDATION"
        using c by (auto simp: wizard_view_def wizard_intro_def wizard_tips_def wizard_recording_def wizard_training_def
            split: wizard_step.splits rep_status.splits)
      then have "settings_ok (handleWizardComplete (wz_word w) (ap_set p))"
        using ok s by (simp add: settings_ok_def handleWizardComplete_def wizard_word_ok_def)
      then show ?thesis using WC_done False p s by (simp add: wizard_pressed_def change_ok) (simp add: handleWizardComplete_def change_ok)
    qed
  qed
qed

lemma toast_ok:
  assumes "panel_ok p" "ap_toastDue p \<noteq> None"
  shows "panel_ok (change_settings now ((ap_set p)\<lparr>as_toast := False\<rparr>) (p\<lparr>ap_toastDue := None\<rparr>))"
proof -
  have "as_toast (ap_set p)" using assms by (simp add: panel_ok_def panel_mounted_def)
  then have n: "ap_set p \<noteq> (ap_set p)\<lparr>as_toast := False\<rparr>" by (metis audio_settings.select_convs(18) audio_settings.surjective audio_settings.update_convs(18))
  have "panel_core (p\<lparr>ap_toastDue := None, ap_set := (ap_set p)\<lparr>as_toast := False\<rparr>\<rparr>)"
    using assms(1) by (simp add: panel_ok_def panel_core_def saves_counted_def settings_ok_def)
  then have "panel_ok (panel_rendered now (p\<lparr>ap_toastDue := None, ap_set := (ap_set p)\<lparr>as_toast := False\<rparr>\<rparr>))" by (rule panel_rendered_ok)
  then show ?thesis using n by (simp add: change_settings_def)
qed

lemma open_audio_panel_ok: "panel_ok p \<Longrightarrow> panel_ok (open_audio_panel now p)"
proof -
  assume p: "panel_ok p"
  then have "panel_core (p\<lparr>ap_open := True, ap_session := k, ap_loads := l\<rparr>)" for k l
    by (simp add: panel_ok_def panel_core_def saves_counted_def)
  with p show ?thesis by (simp add: open_audio_panel_def panel_rendered_ok)
qed

lemma audio_step_ok:
  assumes "panel_ok p" "audio_offers lower p (now, e)"
  shows "panel_ok (audio_step p (now, e))"
proof (cases e)
  case AE_open
  then show ?thesis using assms by (simp add: open_audio_panel_ok)
next
  case AE_render
  then show ?thesis using assms by (simp add: panel_rendered_ok panel_ok_def [of p])
next
  case AE_backdrop
  then show ?thesis using assms by (simp add: close_panel_ok panel_ok_def [of p])
next
  case (AE_press d c)
  then show ?thesis using assms by (simp add: press_control_ok)
next
  case (AE_wizard d c)
  then show ?thesis using assms by (auto simp: wizard_pressed_ok split: option.splits)
next
  case (AE_wizard_time e)
  then obtain w where w: "ap_wizard p = Some w" using assms(2) by auto
  then have "wizard_word_ok (wizard_event_step w (now, e))"
    using assms(1) by (simp add: panel_ok_def panel_core_def wizard_word_step)
  then show ?thesis using AE_wizard_time w assms(1) by (simp add: panel_ok_def panel_core_def panel_mounted_def saves_counted_def)
next
  case AE_toast
  then show ?thesis using assms by (auto intro: toast_ok split: option.splits)
next
  case (AE_devices k r)
  then show ?thesis using assms load_ok(1) panel_okD [OF assms(1)] by (simp add: devices_answered_def change_ok)
next
  case (AE_status k r)
  then show ?thesis using assms load_ok(2) panel_okD [OF assms(1)] by (simp add: status_answered_def change_ok)
next
  case (AE_toggled r)
  then obtain nxt where n: "ap_toggle p = Some nxt" using assms(2) by auto
  then show ?thesis using AE_toggled assms(1) toggle_end_ok panel_okD [OF assms(1)] by (simp add: toggle_answered_def change_ok)
next
  case (AE_saved n b)
  then show ?thesis using assms by (simp add: save_answered_ok)
qed

interpretation audio_runs: stepwise "audio_offers lower" audio_step panel_ok for lower
proof
  show "panel_ok (audio_step p e)" if "panel_ok p" "audio_offers lower p e" for p e
    using audio_step_ok [of p lower "fst e" "snd e"] that by simp
qed

lemma new_panel_ok: "panel_ok new_panel"
  by (simp add: panel_ok_def panel_core_def panel_mounted_def saves_counted_def settings_ok_def new_panel_def new_audio_def
      trim_def white_def)

lemma audio_run_ok: "audio_run lower new_panel es = Some p \<Longrightarrow> panel_ok p"
  unfolding audio_run_def using audio_runs.run_keeps [OF _ new_panel_ok] by blast

subsection \<open>Properties\<close>

text \<open>
  In every run of what its screen offers, whatever the daemon answers and whenever, the dialogue
  keeps its values in their ranges: the sliders, the count of the clap test, a phrase of at least three
  letters, a device of the list (or the reset's device 0); the wizard and the toast are there exactly
  when they should be; the switch is blocked exactly while its request is out; and every save that was
  begun has told the daemon of it or is still waiting for an answer.
\<close>

theorem audio_panel_invariant:
  assumes "audio_run lower new_panel es = Some p"
  shows "settings_ok (ap_set p)
    \<and> (ap_wizard p \<noteq> None \<longleftrightarrow> ap_open p \<and> as_wizardOpen (ap_set p))
    \<and> (ap_toastDue p \<noteq> None \<longleftrightarrow> ap_open p \<and> as_toast (ap_set p))
    \<and> (ap_toggle p \<noteq> None \<longleftrightarrow> as_autostartBusy (ap_set p)) \<and> saves_counted p"
  using audio_run_ok [OF assms] by (simp add: panel_ok_def panel_core_def panel_mounted_def)

text \<open>A run without the keyboard.\<close>

fun by_mouse :: "int \<times> audio_event \<Rightarrow> bool" where
  "by_mouse (now, AE_press d c) \<longleftrightarrow> d = Mouse"
| "by_mouse (now, AE_wizard d c) \<longleftrightarrow> d = Mouse"
| "by_mouse _ \<longleftrightarrow> True"

text \<open>The state that such a run cannot leave once the wizard has been opened.\<close>

definition panel_locked :: "audio_panel \<Rightarrow> audio_panel \<Rightarrow> bool" where
  "panel_locked p0 p \<longleftrightarrow> as_wizardOpen (ap_set p) \<and> (ap_open p \<longrightarrow> ap_wizard p \<noteq> None) \<and> ap_saves p = []
     \<and> ap_sent p = ap_sent p0 \<and> as_wakeWord (ap_set p) = as_wakeWord (ap_set p0)
     \<and> as_isEnabled (ap_set p) = as_isEnabled (ap_set p0) \<and> as_voiceEnabled (ap_set p) = as_voiceEnabled (ap_set p0)
     \<and> as_sensitivity (ap_set p) = as_sensitivity (ap_set p0)"

lemma locked_change: 
  assumes "panel_locked p0 p" "panel_locked p0 (q\<lparr>ap_set := a\<rparr>)"
    "ap_open q = ap_open p" "ap_wizard q = ap_wizard p" 
  shows "panel_locked p0 (change_settings now a q)"
  using assms by (auto simp: panel_locked_def change_settings_def split: option.splits)

lemma load_keeps:
  "as_wizardOpen (load_devices b ds a) = as_wizardOpen a" "as_wakeWord (load_devices b ds a) = as_wakeWord a"
  "as_isEnabled (load_devices b ds a) = as_isEnabled a" "as_voiceEnabled (load_devices b ds a) = as_voiceEnabled a"
  "as_sensitivity (load_devices b ds a) = as_sensitivity a"
  "as_wizardOpen (load_status b st a) = as_wizardOpen a" "as_wakeWord (load_status b st a) = as_wakeWord a"
  "as_isEnabled (load_status b st a) = as_isEnabled a" "as_voiceEnabled (load_status b st a) = as_voiceEnabled a"
  "as_sensitivity (load_status b st a) = as_sensitivity a"
  "as_wizardOpen (toggle_end n r a) = as_wizardOpen a" "as_wakeWord (toggle_end n r a) = as_wakeWord a"
  "as_isEnabled (toggle_end n r a) = as_isEnabled a" "as_voiceEnabled (toggle_end n r a) = as_voiceEnabled a"
  "as_sensitivity (toggle_end n r a) = as_sensitivity a"
  by (auto simp: load_devices_def load_status_def toggle_end_def split: sum.splits list.splits)

lemma locked_step:
  assumes l: "panel_locked p0 p" and o: "audio_offers lower p (now, e)" and m: "by_mouse (now, e)"
  shows "panel_locked p0 (audio_step p (now, e))"
proof (cases e)
  case (AE_press d c)
  then show ?thesis using o m l by (auto simp: panel_locked_def)
next
  case (AE_wizard d c)
  then show ?thesis using o m l by (auto simp: panel_locked_def wizard_pressed_def close_panel_def split: option.splits)
next
  case (AE_saved n b)
  then show ?thesis using o l by (simp add: panel_locked_def)
next
  case AE_toast
  have "panel_locked p0 (p\<lparr>ap_toastDue := None, ap_set := (ap_set p)\<lparr>as_toast := False\<rparr>\<rparr>)"
    using l by (simp add: panel_locked_def)
  then show ?thesis using AE_toast l by (auto intro!: locked_change)
next
  case (AE_devices k r)
  show ?thesis unfolding AE_devices audio_step.simps devices_answered_def
    using l by (intro locked_change [OF l]) (auto simp: panel_locked_def load_keeps)
next
  case (AE_status k r)
  show ?thesis unfolding AE_status audio_step.simps status_answered_def
    using l by (intro locked_change [OF l]) (auto simp: panel_locked_def load_keeps)
next
  case (AE_toggled r)
  show ?thesis
  proof (cases "ap_toggle p")
    case (Some nxt)
    then have "panel_locked p0 (change_settings now (toggle_end nxt r (ap_set p)) (p\<lparr>ap_toggle := None\<rparr>))"
      using l by (intro locked_change [OF l]) (auto simp: panel_locked_def load_keeps)
    with AE_toggled Some show ?thesis by (simp add: toggle_answered_def)
  qed (use AE_toggled l in \<open>simp add: toggle_answered_def\<close>)
qed (use l in \<open>auto simp: panel_locked_def open_audio_panel_def close_panel_def split: option.splits\<close>)

interpretation mouse_runs: stepwise "\<lambda>p e. audio_offers lower p e \<and> by_mouse e" audio_step "panel_locked p0" for lower p0
proof
  show "panel_locked p0 (audio_step p e)" if "panel_locked p0 p" "audio_offers lower p e \<and> by_mouse e" for p e
    using locked_step [of p0 p lower "fst e" "snd e"] that by simp
qed


text \<open>The keyboard gets through: the course the wizard is meant for leads to the new phrase.\<close>

fun wizard_as_audio :: "int \<times> wizard_event \<Rightarrow> int \<times> audio_event" where
  "wizard_as_audio (now, WE_tick) = (now, AE_wizard_time WE_tick)"
| "wizard_as_audio (now, WE_timers) = (now, AE_wizard_time WE_timers)"
| "wizard_as_audio (now, e) = (now, AE_wizard Keyboard (WC e))"

lemma wizard_as_audio_step:
  "ap_wizard p = Some w \<Longrightarrow> audio_step p (wizard_as_audio (now, e)) = p\<lparr>ap_wizard := Some (wizard_event_step w (now, e))\<rparr>"
  by (cases e) (simp_all add: wizard_pressed_def)

lemma wizard_as_audio_run:
  "ap_wizard p = Some w \<Longrightarrow> foldl audio_step p (map wizard_as_audio es) = p\<lparr>ap_wizard := Some (wizard_run w es)\<rparr>"
proof (induction es arbitrary: p w)
  case (Cons e es)
  obtain now x where e: "e = (now, x)" by (cases e)
  show ?case using Cons.prems wizard_as_audio_step [of p w now x]
      Cons.IH [of "p\<lparr>ap_wizard := Some (wizard_event_step w e)\<rparr>" "wizard_event_step w e"]
    by (simp add: e wizard_run_def)
qed (simp add: wizard_run_def)

theorem keyboard_sets_phrase:
  assumes "3 \<le> length (trim (take 40 word))" "ap_wizard p = Some new_wizard"
  defines "q \<equiv> foldl audio_step p (map wizard_as_audio (good_course word) @ [(15000, AE_wizard Keyboard WC_done)])"
  shows "as_wakeWord (ap_set q) = take 40 word \<and> as_voiceEnabled (ap_set q) \<and> \<not> as_wizardOpen (ap_set q)
    \<and> screen_offers (wizard_view lower (wizard_run new_wizard (good_course word))) WC_done"
proof -
  have w: "wizard_can_finish (wizard_run new_wizard (good_course word))" "wz_word (wizard_run new_wizard (good_course word)) = take 40 word"
    using good_course_finishes [OF assms(1)] by simp_all
  then have "screen_offers (wizard_view lower (wizard_run new_wizard (good_course word))) WC_done"
    by (simp add: wizard_can_finish_def wizard_view_def wizard_validation_def)
  moreover have "as_wakeWord (ap_set q) = take 40 word \<and> as_voiceEnabled (ap_set q) \<and> \<not> as_wizardOpen (ap_set q)"
    using w wizard_as_audio_run [OF assms(2), of "good_course word"]
    by (simp add: q_def wizard_pressed_def handleWizardComplete_def)
  ultimately show ?thesis by simp
qed

lemmas panel_eval = audio_run_def new_panel_def new_audio_def open_audio_panel_def close_panel_def audio_view_def general_section_def
  clap_section_def voice_section_def panel_footer_def press_control_def press_save_def press_autostart_def toggle_begin_def
  toggle_answered_def toggle_end_def devices_answered_def status_answered_def load_devices_def load_status_def
  session_alive_def change_settings_def panel_rendered_def toast_effect_def wizard_mount_def save_answered_def

text \<open>A save answered late closes the dialogue that has been opened again meanwhile.\<close>

theorem late_save_closes_reopened_dialog:
  "\<exists>p. audio_run lower new_panel
         [(0, AE_open), (1, AE_press Mouse AC_save), (2, AE_press Mouse AC_close), (3, AE_open), (4, AE_saved 0 False)] = Some p
       \<and> \<not> ap_open p \<and> ap_session p = 2"
  by (simp add: panel_eval Let_def)

text \<open>
  The status read when the dialogue is opened again may arrive after a toggle it did not see: the daemon
  has accepted the start at login, and the switch shows that it is off.
\<close>

theorem late_status_undoes_toggle:
  "\<exists>p. audio_run lower new_panel
         [(0, AE_open), (1, AE_devices 1 (Inl None)), (2, AE_status 1 (Inr False)), (3, AE_press Mouse AC_close),
          (4, AE_open), (5, AE_devices 2 (Inl None)), (6, AE_press Mouse AC_autostart), (7, AE_toggled (Inr True)),
          (8, AE_status 2 (Inr False))] = Some p
       \<and> ap_open p \<and> \<not> as_autostart (ap_set p)"
  by (simp add: panel_eval)

subsection \<open>Witnesses\<close>

text \<open>The voice section is switched on and the wizard opened with the mouse, then pressed.\<close>

lemma audio_panel_invariant_witness:
  "let p = the (audio_run (\<lambda>t. t) new_panel [(0, AE_open), (1, AE_press Mouse (AC_sensitivity 100)), (2, AE_press Keyboard AC_save)])
   in settings_ok (ap_set p) \<and> as_sensitivity (ap_set p) = 100 \<and> saves_counted p"
proof -
  let ?es = "[(0, AE_open), (1, AE_press Mouse (AC_sensitivity 100)), (2, AE_press Keyboard AC_save)]"
  obtain p where p: "audio_run (\<lambda>t. t) new_panel ?es = Some p" "as_sensitivity (ap_set p) = 100"
    by (simp add: panel_eval)
  from audio_panel_invariant [OF p(1)] p show ?thesis by simp
qed

definition lock_start :: "(int \<times> audio_event) list" where
  "lock_start = [(0, AE_open), (1, AE_press Mouse AC_voice), (2, AE_press Mouse AC_open_wizard)]"

definition lock_tries :: "(int \<times> audio_event) list" where
  "lock_tries = [(3, AE_wizard Mouse (WC WE_next)), (4, AE_open), (5, AE_wizard Mouse WC_back)]"


lemma keyboard_sets_phrase_witness:
  "as_wakeWord (ap_set (foldl audio_step (open_audio_panel 0 (new_panel\<lparr>ap_set := new_audio\<lparr>as_wizardOpen := True\<rparr>\<rparr>))
     (map wizard_as_audio (good_course (ascii ''ok home'')) @ [(15000, AE_wizard Keyboard WC_done)]))) = ascii ''ok home''"
proof -
  have a: "3 \<le> length (trim (take 40 (ascii ''ok home'')))" "take 40 (ascii ''ok home'') = ascii ''ok home''"
    by (simp_all add: ascii_def trim_def white_def)
  have "ap_wizard (open_audio_panel 0 (new_panel\<lparr>ap_set := new_audio\<lparr>as_wizardOpen := True\<rparr>\<rparr>)) = Some new_wizard"
    by (simp add: open_audio_panel_def new_panel_def)
  from keyboard_sets_phrase [OF a(1) this] a(2) show ?thesis by simp
qed

end
