(* ===== verification/Form_Screen.thy ===== *)
theory Form_Screen
  imports Task_Forms App_Shell Screen Stepwise
begin

text \<open>
  The dialogues that make a task as their user meets them: what \<open>TaskCreationModal.jsx\<close> with its
  \<open>PriorityBlockedBanner.jsx\<close>, \<open>AddTaskModal.jsx\<close> and \<open>QuickAddModal.jsx\<close> render, and the creation of tasks
  on \<open>pages/TodayTasksPage.jsx\<close> as a whole, with the dialogue, the quick input and requests that overlap.
  The checks of the fields are in \<open>Task_Forms\<close>, the two halves of \<open>handleCreate\<close> in \<open>Today_Page\<close>.
\<close>

subsection \<open>The dialogue of the today page\<close>

datatype form_control = FC_close | FC_cancel | FC_submit | FC_input form_input

definition FORM_CATEGORIES :: "ustring list" where
  "FORM_CATEGORIES = [[0xC5C5, 0xBB34], [0xB514, 0xC790, 0xC778], [0xAC1C, 0xC778], [0xD559, 0xC2B5], [0xAC74, 0xAC15], [0xAE30, 0xD0C0]]"

fun read_title :: "form_control \<Rightarrow> ustring option" where
  "read_title (FC_input (FI_title t)) = Some t"
| "read_title _ = None"

fun read_category :: "form_control \<Rightarrow> ustring option" where
  "read_category (FC_input (FI_category t)) = Some t"
| "read_category _ = None"

fun read_deadline :: "form_control \<Rightarrow> ustring option" where
  "read_deadline (FC_input (FI_deadline d)) = Some (ascii d)"
| "read_deadline _ = None"

fun read_hours :: "form_control \<Rightarrow> js_value_num option" where
  "read_hours (FC_input (FI_hours x)) = Some x"
| "read_hours _ = None"

fun read_minutes :: "form_control \<Rightarrow> js_value_num option" where
  "read_minutes (FC_input (FI_minutes x)) = Some x"
| "read_minutes _ = None"

definition blocked_banner :: "ustring option \<Rightarrow> form_control widget list" where
  "blocked_banner existingTitle =
     [Caption [0xCD5C, 0xC6B0, 0xC120, 0x20, 0xACFC, 0xC81C, 0xAC00, 0x20, 0xC774, 0xBBF8, 0x20, 0xC874, 0xC7AC, 0xD569, 0xB2C8, 0xB2E4, 0x21, 0x21],
      Caption (case existingTitle of
                 None \<Rightarrow> [0xAE30, 0xC874, 0x20, 0xCD5C, 0xC6B0, 0xC120, 0x20, 0xACFC, 0xC81C, 0xB97C,
                    0x20, 0xC644, 0xB8CC, 0xD558, 0xAC70, 0xB098, 0x20, 0xD574, 0xC81C, 0xD55C, 0x20, 0xD6C4, 0x20,
                       0xC124, 0xC815, 0xD560, 0x20, 0xC218, 0x20, 0xC788, 0xC2B5, 0xB2C8, 0xB2E4, 0x2E]
               | Some t \<Rightarrow> if t = [] then [0xAE30, 0xC874, 0x20, 0xCD5C, 0xC6B0, 0xC120, 0x20, 0xACFC,
                  0xC81C, 0xB97C, 0x20, 0xC644, 0xB8CC, 0xD558, 0xAC70, 0xB098, 0x20, 0xD574, 0xC81C, 0xD55C, 0x20,
                     0xD6C4, 0x20, 0xC124, 0xC815, 0xD560, 0x20, 0xC218, 0x20, 0xC788, 0xC2B5, 0xB2C8, 0xB2E4, 0x2E]
                           else [0x27] @ t @ [0x27, 0xC744, 0x28, 0xB97C, 0x29, 0x20, 0xBA3C, 0xC800, 0x20, 0xC644,
                              0xB8CC, 0xD558, 0xAC70, 0xB098, 0x20, 0xD574, 0xC81C, 0xD574, 0xC8FC, 0xC138, 0xC694, 0x2E])]"

definition creation_view ::
  "bool \<Rightarrow> (normal_error + ustring) option \<Rightarrow> bool \<Rightarrow> ustring option \<Rightarrow> string option \<Rightarrow> form_view \<Rightarrow> form_control widget list" where
  "creation_view submitting serverError hasPrio prioTitle dday v =
     (let f = fv_form v in
      [Caption [0xC0C8, 0x20, 0xC791, 0xC5C5, 0x20, 0xCD94, 0xAC00], Button [0xB2EB, 0xAE30] True FC_close]
      @ (case error_banner f serverError of None \<Rightarrow> [] | Some (headline, detail) \<Rightarrow> [Caption headline, Caption detail])
      @ [Entry [0xC791, 0xC5C5, 0x20, 0xC81C, 0xBAA9] (tf_title f) (Some 100) read_title]
      @ screen_when (fv_titleError v) [Caption [0xC791, 0xC5C5, 0x20, 0xC81C, 0xBAA9, 0xC744, 0x20, 0xC785, 0xB825, 0xD574, 0xC8FC, 0xC138, 0xC694]]
      @ [Select [0xCE74, 0xD14C, 0xACE0, 0xB9AC] (tf_category f) (map (\<lambda>c. (c, c)) FORM_CATEGORIES) read_category,
         Caption ([0xB9C8, 0xAC10, 0xC77C,
            0x20] @ (case dday of None \<Rightarrow> [] | Some t \<Rightarrow> ascii t)), Entry [0xB9C8, 0xAC10,
               0xC77C] (ascii (tf_deadline f)) None read_deadline,
         Numeric [0xC2DC, 0xAC04] (tf_hours f) read_hours, Numeric [0xBD84] (tf_minutes f) read_minutes]
      @ screen_when (fv_durationError v) [Caption [0xC18C, 0xC694, 0xC2DC, 0xAC04, 0xC744, 0x20, 0xC785, 0xB825, 0xD574, 0xC8FC, 0xC138, 0xC694]]
      @ [Switch [0xCD5C, 0xC6B0, 0xC120, 0x20, 0xACFC, 0xC81C, 0xB85C, 0x20, 0xC124,
         0xC815] (tf_isPriority f \<and> \<not> hasPrio) (\<not> hasPrio) (FC_input FI_toggle_priority)]
      @ screen_when hasPrio (blocked_banner prioTitle)
      @ [Button [0xCDE8, 0xC18C] True FC_cancel,
         Button (if submitting then [0xC0DD, 0xC131, 0x20, 0xC911, 0x2026] else [0xC791, 0xC5C5, 0x20, 0xC0DD, 0xC131])
           (\<not> submit_disabled submitting (serverError \<noteq> None) hasPrio f) FC_submit])"

text \<open>The browser submits a form only when its number inputs hold whole numbers, their default step.\<close>

definition inputs_valid :: "task_form \<Rightarrow> bool" where
  "inputs_valid f \<longleftrightarrow> of_int \<lfloor>tf_hours f\<rfloor> = tf_hours f \<and> of_int \<lfloor>tf_minutes f\<rfloor> = tf_minutes f"

subsection \<open>Creating on the today page\<close>

text \<open>
  The page with its dialogue.  \<open>dk_awaited\<close> are the creations whose answer is awaited, of the dialogue and
  of the quick input, \<open>dk_sent\<close> all that have been requested; \<open>view\<close> is \<open>toViewModel\<close> of the moment.
\<close>

record desk =
  dk_page :: today_page
  dk_form :: form_view
  dk_awaited :: "create_payload list"
  dk_sent :: "create_payload list"

definition new_desk :: "today_page \<Rightarrow> desk" where
  "new_desk p = \<lparr>dk_page = p, dk_form = open_form [], dk_awaited = [], dk_sent = []\<rparr>"

definition desk_hasPriority :: "(task_response \<Rightarrow> view_model) \<Rightarrow> desk \<Rightarrow> bool" where
  "desk_hasPriority view d = page_hasPriorityTask (map view (th_tasks (ty_hook (dk_page d))))"

text \<open>
  Opening from the page, and from the frame with a title: an open dialogue takes the title over for one
  render and then the empty one (\<open>settle_compose\<close>), which resets its fields.
\<close>

definition open_dialog_desk :: "desk \<Rightarrow> desk" where
  "open_dialog_desk d =
     (if ty_addOpen (dk_page d) then d else d\<lparr>dk_page := (dk_page d)\<lparr>ty_addOpen := True\<rparr>, dk_form := open_form []\<rparr>)"

definition compose_desk :: "ustring \<Rightarrow> desk \<Rightarrow> desk" where
  "compose_desk title d =
     (if ty_addOpen (dk_page d) \<and> title = [] then d
      else d\<lparr>dk_page := (dk_page d)\<lparr>ty_addOpen := True\<rparr>, dk_form := open_form []\<rparr>)"

definition request_desk :: "create_payload \<Rightarrow> desk \<Rightarrow> desk" where
  "request_desk pl d = d\<lparr>dk_awaited := dk_awaited d @ [pl], dk_sent := dk_sent d @ [pl]\<rparr>"

definition close_desk :: "desk \<Rightarrow> desk" where
  "close_desk d = d\<lparr>dk_page := closeAdd (dk_page d)\<rparr>"

text \<open>The handlers of the dialogue; every change of a field takes the error of the server away.\<close>

definition input_desk :: "bool \<Rightarrow> form_input \<Rightarrow> desk \<Rightarrow> desk" where
  "input_desk hasPrio i d =
     d\<lparr>dk_page := (dk_page d)\<lparr>ty_serverError := None\<rparr>, dk_form := form_step hasPrio (dk_form d) i\<rparr>"

definition submit_desk :: "(string \<Rightarrow> js_date) \<Rightarrow> bool \<Rightarrow> desk \<Rightarrow> desk" where
  "submit_desk end_of_day hasPrio d =
     (let (v, out) = handleSubmit_form end_of_day hasPrio (dk_form d); d' = d\<lparr>dk_form := v\<rparr>
      in case out of
           Submitted p \<Rightarrow> request_desk (page_payload p) (d'\<lparr>dk_page := create_begin (dk_page d)\<rparr>)
         | _ \<Rightarrow> d')"

fun press_form :: "(string \<Rightarrow> js_date) \<Rightarrow> bool \<Rightarrow> form_control \<Rightarrow> desk \<Rightarrow> desk" where
  "press_form end_of_day hasPrio FC_close d = close_desk d"
| "press_form end_of_day hasPrio FC_cancel d = close_desk d"
| "press_form end_of_day hasPrio FC_submit d = submit_desk end_of_day hasPrio d"
| "press_form end_of_day hasPrio (FC_input i) d = input_desk hasPrio i d"

definition quick_desk :: "desk \<Rightarrow> desk" where
  "quick_desk d =
     (let (p, out) = quick_submit (dk_page d); d' = d\<lparr>dk_page := p\<rparr>
      in case out of None \<Rightarrow> d' | Some pl \<Rightarrow> request_desk pl d')"

definition answer_desk :: "nat \<Rightarrow> normal_error + unit \<Rightarrow> task_response list answer \<Rightarrow> desk \<Rightarrow> desk" where
  "answer_desk n reply fetched d =
     d\<lparr>dk_page := create_end reply fetched (dk_page d), dk_awaited := drop_nth n (dk_awaited d)\<rparr>"

datatype desk_event =
    DE_open | DE_compose ustring | DE_press form_control | DE_backdrop | DE_escape | DE_quick_type ustring | DE_quick
  | DE_answer nat "normal_error + unit" "task_response list answer"

fun desk_step :: "(string \<Rightarrow> js_date) \<Rightarrow> (task_response \<Rightarrow> view_model) \<Rightarrow> desk \<Rightarrow> desk_event \<Rightarrow> desk" where
  "desk_step end_of_day view d DE_open = open_dialog_desk d"
| "desk_step end_of_day view d (DE_compose title) = compose_desk title d"
| "desk_step end_of_day view d (DE_press c) = press_form end_of_day (desk_hasPriority view d) c d"
| "desk_step end_of_day view d DE_backdrop = close_desk d"
| "desk_step end_of_day view d DE_escape = close_desk d"
| "desk_step end_of_day view d (DE_quick_type t) = d\<lparr>dk_page := (dk_page d)\<lparr>ty_quickInput := t\<rparr>\<rparr>"
| "desk_step end_of_day view d DE_quick = quick_desk d"
| "desk_step end_of_day view d (DE_answer n reply fetched) = answer_desk n reply fetched d"

text \<open>What is on the screen or awaited; the captions that depend on the clock and the first priority task are arguments.\<close>

definition desk_view :: "ustring option \<Rightarrow> string option \<Rightarrow> (task_response \<Rightarrow> view_model) \<Rightarrow> desk \<Rightarrow> form_control widget list" where
  "desk_view prioTitle dday view d =
     screen_when (ty_addOpen (dk_page d))
       (creation_view (ty_creating (dk_page d)) (ty_serverError (dk_page d)) (desk_hasPriority view d) prioTitle dday (dk_form d))"

fun desk_offers :: "ustring option \<Rightarrow> string option \<Rightarrow> (task_response \<Rightarrow> view_model) \<Rightarrow> desk \<Rightarrow> desk_event \<Rightarrow> bool" where
  "desk_offers pt dday view d (DE_press c) \<longleftrightarrow>
     screen_offers (desk_view pt dday view d) c \<and> (c = FC_submit \<longrightarrow> inputs_valid (fv_form (dk_form d)))"
| "desk_offers pt dday view d DE_backdrop \<longleftrightarrow> ty_addOpen (dk_page d)"
| "desk_offers pt dday view d DE_escape \<longleftrightarrow> ty_addOpen (dk_page d)"
| "desk_offers pt dday view d (DE_answer n reply fetched) \<longleftrightarrow> n < length (dk_awaited d)"
| "desk_offers pt dday view d _ \<longleftrightarrow> True"

definition desk_run ::
  "(string \<Rightarrow> js_date) \<Rightarrow> ustring option \<Rightarrow> string option \<Rightarrow> (task_response \<Rightarrow> view_model) \<Rightarrow> desk \<Rightarrow> desk_event list \<Rightarrow> desk option" where
  "desk_run end_of_day pt dday view = guarded_run (desk_offers pt dday view) (desk_step end_of_day view)"

subsection \<open>Properties of the desk\<close>

lemma creation_view_offers:
  "screen_offers (creation_view sub err b pt dday v) c \<longleftrightarrow>
     (case c of
        FC_close \<Rightarrow> True
      | FC_cancel \<Rightarrow> True
      | FC_submit \<Rightarrow> \<not> submit_disabled sub (err \<noteq> None) b (fv_form v)
      | FC_input (FI_title t) \<Rightarrow> length t \<le> 100
      | FC_input (FI_category t) \<Rightarrow> t \<in> set FORM_CATEGORIES
      | FC_input (FI_deadline d) \<Rightarrow> True
      | FC_input (FI_hours x) \<Rightarrow> x \<noteq> JNaN
      | FC_input (FI_minutes x) \<Rightarrow> x \<noteq> JNaN
      | FC_input FI_toggle_priority \<Rightarrow> \<not> b)"
proof -
  have "\<not> screen_offers (case error_banner f err of None \<Rightarrow> [] | Some (headline, detail) \<Rightarrow> [Caption headline, Caption detail]) c" for f
    by (auto split: option.splits)
  moreover have "\<not> screen_offers (blocked_banner pt) c" by (simp add: blocked_banner_def)
  ultimately show ?thesis
    by (cases c) (auto simp: creation_view_def Let_def image_image split: form_input.splits js_value_num.splits)
qed

text \<open>What a request has to be: a title without blanks around it and a duration the server accepts.\<close>

definition payload_ok :: "create_payload \<Rightarrow> bool" where
  "payload_ok pl \<longleftrightarrow> cr_title pl \<noteq> [] \<and> trimmed (cr_title pl)
     \<and> (\<exists>n. check_duration (Some (JNum (cr_estimated_duration pl))) = Inr n \<and> of_int n = cr_estimated_duration pl)"

definition desk_ok :: "desk \<Rightarrow> bool" where
  "desk_ok d \<longleftrightarrow> form_ok (fv_form (dk_form d)) \<and> (\<forall>pl \<in> set (dk_sent d). payload_ok pl) \<and> set (dk_awaited d) \<subseteq> set (dk_sent d)"

lemma inputs_valid_whole: "inputs_valid f \<Longrightarrow> form_whole f"
  unfolding inputs_valid_def form_whole_def by metis

lemma valid_duration:
  assumes "form_ok f" "inputs_valid f" "0 < durationSeconds f"
  shows "\<exists>n. check_duration (Some (JNum (durationSeconds f))) = Inr n \<and> of_int n = durationSeconds f"
proof -
  from duration_range [OF assms(1) inputs_valid_whole [OF assms(2)] assms(3)] obtain n where
    n: "durationSeconds f = of_int n" "MIN_DURATION_SEC \<le> n" "n \<le> MAX_DURATION_SEC" by blast
  have "n \<noteq> 0" using n(2) by (simp add: MIN_DURATION_SEC_def)
  then have "check_duration (Some (JNum (of_int n))) = Inr n" using n by (simp add: check_duration_def as_integer_def)
  then show ?thesis using n(1) by auto
qed

lemma submitted_payload_ok:
  assumes "form_ok (fv_form v)" "inputs_valid (fv_form v)" "handleSubmit_form eod b v = (v', Submitted p)"
  shows "payload_ok (page_payload p)"
proof -
  let ?f = "fv_form v"
  from assms(3) have p: "fp_estimated_duration p = durationSeconds ?f" "fp_title p = trim (tf_title ?f)"
    "fp_title p \<noteq> []" "0 < durationSeconds ?f"
    by (auto simp: handleSubmit_form_def Let_def split: if_splits)
  then show ?thesis using valid_duration [OF assms(1,2) p(4)] trim_trimmed by (auto simp: payload_ok_def page_payload_def)
qed

lemma submit_keeps_form: "fv_form (fst (handleSubmit_form eod b v)) = fv_form v"
  by (simp add: handleSubmit_form_def Let_def)

lemma quick_payload_ok: "quick_submit p = (p', Some pl) \<Longrightarrow> payload_ok pl"
  using trim_trimmed [of "ty_quickInput p"]
  by (auto simp: quick_submit_def Let_def payload_ok_def check_duration_def as_integer_def MIN_DURATION_SEC_def MAX_DURATION_SEC_def
      split: if_splits)

lemma open_form_ok: "form_ok (fv_form (open_form t))"
  by (simp add: open_form_def DEFAULT_FORM_def form_ok_def)

lemma submit_desk_ok:
  assumes "desk_ok d" "inputs_valid (fv_form (dk_form d))"
  shows "desk_ok (submit_desk eod b d)"
proof (cases "handleSubmit_form eod b (dk_form d)")
  case (Pair v out)
  then have v: "fv_form v = fv_form (dk_form d)" using submit_keeps_form [of eod b "dk_form d"] by simp
  show ?thesis
  proof (cases out)
    case (Submitted p)
    with submitted_payload_ok [OF _ assms(2)] Pair assms(1) have "payload_ok (page_payload p)" by (auto simp: desk_ok_def)
    then show ?thesis using assms(1) v by (auto simp: submit_desk_def Pair Submitted request_desk_def desk_ok_def)
  qed (use assms(1) v in \<open>auto simp: submit_desk_def Pair desk_ok_def\<close>)
qed

lemma quick_desk_ok: "desk_ok d \<Longrightarrow> desk_ok (quick_desk d)"
  using quick_payload_ok [of "dk_page d"]
  by (auto simp: quick_desk_def request_desk_def desk_ok_def Let_def split: prod.splits option.splits)

lemma press_form_ok:
  assumes "desk_ok d" "desk_offers pt dday view d (DE_press c)"
  shows "desk_ok (press_form eod b c d)"
  using assms submit_desk_ok [of d eod b]
  by (cases c) (auto simp: close_desk_def input_desk_def desk_ok_def form_ok_step)

lemma desk_step_ok:
  assumes "desk_ok d" "desk_offers pt dday view d e"
  shows "desk_ok (desk_step eod view d e)"
proof (cases e)
  case (DE_press c)
  then show ?thesis using press_form_ok [of d pt dday view c eod] assms by simp
next
  case (DE_answer n reply fetched)
  then show ?thesis using assms(1) set_drop_nth [of n "dk_awaited d"] by (auto simp: answer_desk_def desk_ok_def)
qed (use assms(1) open_form_ok quick_desk_ok in
     \<open>auto simp: open_dialog_desk_def compose_desk_def close_desk_def desk_ok_def\<close>)

interpretation desk_runs: stepwise "desk_offers pt dday view" "desk_step eod view" desk_ok for pt dday view eod
  by unfold_locales (rule desk_step_ok)

text \<open>
  C27. Whatever is done on the page, with the dialogue and the quick input, in any order and with answers
  at any time, every request for a new task has a title without surrounding blanks and a duration that the
  server's check accepts, to the second.
\<close>

theorem every_creation_passes_server:
  assumes "desk_run eod pt dday view (new_desk p) es = Some d" "pl \<in> set (dk_sent d)"
  shows "cr_title pl \<noteq> [] \<and> trimmed (cr_title pl)
     \<and> (\<exists>n. check_duration (Some (JNum (cr_estimated_duration pl))) = Inr n \<and> of_int n = cr_estimated_duration pl)"
proof -
  have "desk_ok (new_desk p)" by (simp add: desk_ok_def new_desk_def open_form_ok)
  then have "desk_ok d" by (rule desk_runs.run_keeps [OF assms(1) [unfolded desk_run_def]])
  then have "payload_ok pl" using assms(2) by (simp add: desk_ok_def)
  then show ?thesis unfolding payload_ok_def .
qed

text \<open>Runs in which the quick input is not used.\<close>

fun no_quick :: "desk_event \<Rightarrow> bool" where
  "no_quick DE_quick \<longleftrightarrow> False"
| "no_quick _ \<longleftrightarrow> True"

definition desk_waits :: "desk \<Rightarrow> bool" where
  "desk_waits d \<longleftrightarrow> (if ty_creating (dk_page d) then length (dk_awaited d) = 1 else dk_awaited d = [])"

lemma desk_waits_step:
  assumes w: "desk_waits d" and o: "desk_offers pt dday view d e" and q: "no_quick e"
  shows "desk_waits (desk_step eod view d e)"
proof (cases e)
  case (DE_press c)
  show ?thesis
  proof (cases c)
    case FC_submit
    with o DE_press have "\<not> ty_creating (dk_page d)"
      by (simp add: desk_view_def creation_view_offers submit_disabled_def)
    with w have "dk_awaited d = []" "\<not> ty_creating (dk_page d)" by (simp_all add: desk_waits_def)
    then show ?thesis using DE_press FC_submit
      by (auto simp: submit_desk_def request_desk_def create_begin_def desk_waits_def Let_def split: prod.splits submit_outcome.splits)
  qed (use w DE_press in \<open>auto simp: close_desk_def closeAdd_def input_desk_def desk_waits_def\<close>)
next
  case (DE_answer n reply fetched)
  with o have n: "n < length (dk_awaited d)" by simp
  with w have "length (dk_awaited d) = 1" by (auto simp: desk_waits_def split: if_splits)
  then obtain pl where "dk_awaited d = [pl]" by (cases "dk_awaited d") auto
  with n have "drop_nth n (dk_awaited d) = []" by (simp add: drop_nth_def)
  then show ?thesis using DE_answer by (auto simp: answer_desk_def create_end_def desk_waits_def split: sum.splits)
qed (use w q in \<open>auto simp: open_dialog_desk_def compose_desk_def close_desk_def closeAdd_def desk_waits_def\<close>)

interpretation waiting_runs: stepwise "\<lambda>d e. desk_offers pt dday view d e \<and> no_quick e" "desk_step eod view" desk_waits
  for pt dday view eod
  by unfold_locales (auto intro: desk_waits_step)

text \<open>
  The dialogue asks for one task at a time: without the quick input at most one creation is awaited at
  any moment, also when the dialogue is closed and opened again meanwhile, and while one is awaited nothing can
  be submitted.
\<close>

theorem dialog_waits_for_answer:
  assumes "desk_run eod pt dday view (new_desk p) es = Some d" "list_all no_quick es" "\<not> ty_creating p"
  shows "length (dk_awaited d) \<le> 1
    \<and> (dk_awaited d \<noteq> [] \<longrightarrow> \<not> desk_offers pt dday view d (DE_press FC_submit))"
proof -
  have "desk_waits (new_desk p)" using assms(3) by (simp add: desk_waits_def new_desk_def)
  with waiting_runs.run_keeps [OF guarded_run_conj [OF assms(1) [unfolded desk_run_def] assms(2)]]
  have "desk_waits d" by simp
  then show ?thesis
    by (auto simp: desk_waits_def desk_view_def creation_view_offers submit_disabled_def split: if_splits)
qed

text \<open>
  The dialogue can be left at any time, and whatever the server has answered, a change of a field makes it
  possible to submit again, unless an answer is awaited or the priority is taken.
\<close>

theorem dialog_can_be_left_and_retried:
  assumes "ty_addOpen (dk_page d)"
  shows "desk_offers pt dday view d (DE_press FC_close) \<and> desk_offers pt dday view d (DE_press FC_cancel)
    \<and> (screen_offers (desk_view pt dday view (desk_step eod view d (DE_press (FC_input i)))) FC_submit
         \<longleftrightarrow> \<not> ty_creating (dk_page d)
           \<and> \<not> priorityBlocked (desk_hasPriority view d) (fv_form (form_step (desk_hasPriority view d) (dk_form d) i)))"
  using assms by (simp add: desk_view_def creation_view_offers input_desk_def submit_disabled_def desk_hasPriority_def)

text \<open>
  An answer is not told apart by who asked: the success of a quick creation closes the dialogue that has
  been opened since, and what was typed there is lost.
\<close>

theorem quick_answer_closes_dialog:
  assumes "dk_awaited d = [pl]" "ty_addOpen (dk_page d)"
  shows "let d' = desk_step eod view (desk_step eod view d (DE_answer 0 (Inr ()) fetched)) DE_open
     in desk_offers pt dday view d (DE_answer 0 (Inr ()) fetched)
       \<and> \<not> ty_addOpen (dk_page (desk_step eod view d (DE_answer 0 (Inr ()) fetched)))
       \<and> tf_title (fv_form (dk_form d')) = [] \<and> dk_awaited d' = []"
  using assms by (simp add: answer_desk_def create_end_def open_dialog_desk_def open_form_def DEFAULT_FORM_def drop_nth_def)

text \<open>
  A refused quick creation shows nothing on the page; its error waits for the dialogue, which opens with a
  banner about the available time and without a way to submit until a field is changed.
\<close>

theorem refused_quick_blocks_dialog:
  assumes "\<not> ty_addOpen (dk_page d)" "dk_awaited d = [pl]"
  shows "let d' = desk_step eod view (desk_step eod view d (DE_answer 0 (Inl err) fetched)) DE_open
     in ty_serverError (dk_page d') \<noteq> None \<and> error_banner (fv_form (dk_form d')) (ty_serverError (dk_page d')) \<noteq> None
       \<and> \<not> desk_offers pt dday view d' (DE_press FC_submit)"
  using assms
  by (simp add: answer_desk_def create_end_def open_dialog_desk_def error_banner_def Let_def desk_view_def creation_view_offers
      submit_disabled_def)

definition blank_page :: today_page where
  "blank_page = seed_page\<lparr>ty_hook := useTasks\<rparr>"

definition typed_run :: "desk_event list" where
  "typed_run = [DE_open, DE_press (FC_input (FI_title [0x41])), DE_press (FC_input (FI_minutes (JNum 30))), DE_press FC_submit]"

abbreviation no_view :: "task_response \<Rightarrow> view_model" where
  "no_view \<equiv> toViewModel (\<lambda>t. t) 0"

lemma typed_run_sends:
  "\<exists>d. desk_run (\<lambda>_. Invalid_Date) None None no_view (new_desk blank_page) typed_run = Some d
     \<and> length (dk_sent d) = 1 \<and> length (dk_awaited d) = 1"
proof -
  have "\<not> blank [0x41]" by (simp add: blank_def white_def)
  then show ?thesis
    by (simp add: desk_run_def typed_run_def desk_view_def creation_view_offers open_dialog_desk_def new_desk_def blank_page_def
        seed_page_def useTasks_def input_desk_def desk_hasPriority_def page_hasPriorityTask_def open_form_def DEFAULT_FORM_def
        submit_disabled_def priorityBlocked_def inputs_valid_def submit_desk_def handleSubmit_form_def Let_def trim_Nil
        durationSeconds_def request_desk_def create_begin_def)
qed

lemma every_creation_passes_server_witness:
  "\<exists>d pl. desk_run (\<lambda>_. Invalid_Date) None None no_view (new_desk blank_page) typed_run = Some d
     \<and> pl \<in> set (dk_sent d) \<and> (\<exists>n. check_duration (Some (JNum (cr_estimated_duration pl))) = Inr n)"
proof -
  obtain d where d: "desk_run (\<lambda>_. Invalid_Date) None None no_view (new_desk blank_page) typed_run = Some d" "length (dk_sent d) = 1"
    using typed_run_sends by blast
  then obtain pl where pl: "pl \<in> set (dk_sent d)" by (cases "dk_sent d") auto
  from every_creation_passes_server [OF d(1) pl] d(1) pl show ?thesis by blast
qed

lemma dialog_waits_for_answer_witness:
  "\<exists>d. desk_run (\<lambda>_. Invalid_Date) None None no_view (new_desk blank_page) typed_run = Some d
     \<and> length (dk_awaited d) = 1 \<and> \<not> desk_offers None None no_view d (DE_press FC_submit)"
proof -
  obtain d where d: "desk_run (\<lambda>_. Invalid_Date) None None no_view (new_desk blank_page) typed_run = Some d" "length (dk_awaited d) = 1"
    using typed_run_sends by blast
  then have "dk_awaited d \<noteq> []" by auto
  moreover have "list_all no_quick typed_run" "\<not> ty_creating blank_page"
    by (simp_all add: typed_run_def blank_page_def seed_page_def)
  ultimately have "\<not> desk_offers None None no_view d (DE_press FC_submit)" using dialog_waits_for_answer [OF d(1)] by blast
  with d show ?thesis by blast
qed

subsection \<open>The short dialogues\<close>

datatype add_control =
    AD_close | AD_cancel | AD_submit | AD_title ustring | AD_category ustring | AD_importance int | AD_description ustring

definition ADD_CATEGORIES :: "ustring list" where
  "ADD_CATEGORIES = [[0xAC1C, 0xC778], [0xC5C5, 0xBB34], [0xD559, 0xC2B5], [0xAC74, 0xAC15], [0xAE30, 0xD0C0]]"

definition ADD_DEFAULT :: add_form where
  "ADD_DEFAULT = \<lparr>af_title = [], af_category = [0xAC1C, 0xC778], af_importance = JNum 3, af_description = []\<rparr>"

fun read_add_title :: "add_control \<Rightarrow> ustring option" where
  "read_add_title (AD_title t) = Some t"
| "read_add_title _ = None"

fun read_add_category :: "add_control \<Rightarrow> ustring option" where
  "read_add_category (AD_category t) = Some t"
| "read_add_category _ = None"

fun read_add_importance :: "add_control \<Rightarrow> int option" where
  "read_add_importance (AD_importance n) = Some n"
| "read_add_importance _ = None"

fun read_add_description :: "add_control \<Rightarrow> ustring option" where
  "read_add_description (AD_description t) = Some t"
| "read_add_description _ = None"

text \<open>The dialogue with its parent, which closes it when asked to and takes what is submitted.\<close>

record add_dialog =
  adl_open :: bool
  adl_form :: add_form
  adl_error :: bool
  adl_sent :: "add_payload list"

definition new_add_dialog :: add_dialog where
  "new_add_dialog = \<lparr>adl_open = False, adl_form = ADD_DEFAULT, adl_error = False, adl_sent = []\<rparr>"

fun slider_value :: "js_value_num \<Rightarrow> int" where
  "slider_value (JNum x) = \<lfloor>x\<rfloor>"
| "slider_value JNaN = 3"

definition add_dialog_view :: "add_dialog \<Rightarrow> add_control widget list" where
  "add_dialog_view d =
     screen_when (adl_open d)
       ([Caption [0xC0C8, 0x20, 0xC791, 0xC5C5, 0x20, 0xCD94, 0xAC00], Button [0xB2EB,
          0xAE30] True AD_close, Entry [0xC791, 0xC5C5, 0xBA85] (af_title (adl_form d)) (Some 100) read_add_title]
        @ screen_when (adl_error d) [Caption [0xC791, 0xC5C5, 0xBA85, 0xC744, 0x20, 0xC785, 0xB825, 0xD574, 0x20, 0xC8FC, 0xC138, 0xC694]]
        @ [Select [0xCE74, 0xD14C, 0xACE0, 0xB9AC] (af_category (adl_form d)) (map (\<lambda>c. (c, c)) ADD_CATEGORIES) read_add_category,
           Slider [0xC911, 0xC694, 0xB3C4] 1 5 (slider_value (af_importance (adl_form d))) read_add_importance,
           Entry [0xBA54, 0xBAA8] (af_description (adl_form d)) (Some 500) read_add_description,
           Button [0xCDE8, 0xC18C] True AD_cancel, Button [0xCD94, 0xAC00] True AD_submit])"

fun add_press :: "add_control \<Rightarrow> add_dialog \<Rightarrow> add_dialog" where
  "add_press AD_close d = d\<lparr>adl_open := False\<rparr>"
| "add_press AD_cancel d = d\<lparr>adl_open := False\<rparr>"
| "add_press AD_submit d =
     (case AddTask_handleSubmit (adl_form d) of
        None \<Rightarrow> d\<lparr>adl_error := True\<rparr>
      | Some p \<Rightarrow> d\<lparr>adl_sent := adl_sent d @ [p], adl_open := False\<rparr>)"
| "add_press (AD_title t) d = d\<lparr>adl_form := (adl_form d)\<lparr>af_title := t\<rparr>, adl_error := False\<rparr>"
| "add_press (AD_category c) d = d\<lparr>adl_form := (adl_form d)\<lparr>af_category := c\<rparr>\<rparr>"
| "add_press (AD_importance n) d = d\<lparr>adl_form := (adl_form d)\<lparr>af_importance := JNum (of_int n)\<rparr>\<rparr>"
| "add_press (AD_description t) d = d\<lparr>adl_form := (adl_form d)\<lparr>af_description := t\<rparr>\<rparr>"

datatype add_event = ADE_open | ADE_press add_control | ADE_dismiss

fun add_step :: "add_dialog \<Rightarrow> add_event \<Rightarrow> add_dialog" where
  "add_step d ADE_open = (if adl_open d then d else d\<lparr>adl_open := True, adl_form := ADD_DEFAULT, adl_error := False\<rparr>)"
| "add_step d (ADE_press c) = add_press c d"
| "add_step d ADE_dismiss = d\<lparr>adl_open := False\<rparr>"

fun add_offers :: "add_dialog \<Rightarrow> add_event \<Rightarrow> bool" where
  "add_offers d ADE_open \<longleftrightarrow> True"
| "add_offers d (ADE_press c) \<longleftrightarrow> screen_offers (add_dialog_view d) c"
| "add_offers d ADE_dismiss \<longleftrightarrow> adl_open d"

definition add_form_ok :: "add_form \<Rightarrow> bool" where
  "add_form_ok f \<longleftrightarrow> length (af_title f) \<le> 100 \<and> af_category f \<in> set ADD_CATEGORIES
     \<and> (\<exists>n. af_importance f = JNum (of_int n) \<and> 1 \<le> n \<and> n \<le> 5) \<and> length (af_description f) \<le> 500"

definition add_payload_ok :: "add_payload \<Rightarrow> bool" where
  "add_payload_ok p \<longleftrightarrow> adp_title p \<noteq> [] \<and> trimmed (adp_title p) \<and> length (adp_title p) \<le> 100
     \<and> adp_category p \<in> set ADD_CATEGORIES \<and> (\<exists>n. adp_importance p = JNum (of_int n) \<and> 1 \<le> n \<and> n \<le> 5)
     \<and> (\<forall>t. adp_description p = Some t \<longrightarrow> t \<noteq> [] \<and> length t \<le> 500)"

definition add_ok :: "add_dialog \<Rightarrow> bool" where
  "add_ok d \<longleftrightarrow> add_form_ok (adl_form d) \<and> (\<forall>p \<in> set (adl_sent d). add_payload_ok p)"

lemma length_trim: "length (trim s) \<le> length s"
  by (simp add: trim_def) (metis length_dropWhile_le length_rev le_trans)

lemma add_submit_ok: "add_form_ok f \<Longrightarrow> AddTask_handleSubmit f = Some p \<Longrightarrow> add_payload_ok p"
  using trim_trimmed [of "af_title f"] length_trim [of "af_title f"] length_trim [of "af_description f"]
  by (auto simp: AddTask_handleSubmit_def Let_def add_form_ok_def add_payload_ok_def split: if_splits)

lemma add_view_offers:
  "screen_offers (add_dialog_view d) c \<Longrightarrow>
   case c of AD_title t \<Rightarrow> length t \<le> 100 | AD_category t \<Rightarrow> t \<in> set ADD_CATEGORIES | AD_importance n \<Rightarrow> 1 \<le> n \<and> n \<le> 5
     | AD_description t \<Rightarrow> length t \<le> 500 | _ \<Rightarrow> True"
  by (cases c) (auto simp: add_dialog_view_def image_image)

lemma add_default_ok: "add_form_ok ADD_DEFAULT"
  unfolding add_form_ok_def by (auto simp: ADD_DEFAULT_def ADD_CATEGORIES_def intro: exI [of _ 3])

lemma add_press_ok:
  assumes "add_ok d" "screen_offers (add_dialog_view d) c"
  shows "add_ok (add_press c d)"
  using add_view_offers [OF assms(2)] assms(1) add_submit_ok [of "adl_form d"]
  by (cases c) (auto simp: add_ok_def add_form_ok_def split: option.splits)

interpretation add_runs: stepwise add_offers add_step add_ok
proof
  fix d e assume "add_ok d" "add_offers d e"
  then show "add_ok (add_step d e)"
    using add_press_ok [of d] add_default_ok by (cases e) (auto simp: add_ok_def)
qed

text \<open>
  Whatever is done in the short dialogue, what it submits is within the bounds of its fields: a title
  of 1 to 100 units without surrounding blanks, a category of the list, an importance of 1 to 5, and a memo of
  at most 500 units or none.
\<close>

theorem short_dialog_bounds:
  assumes "guarded_run add_offers add_step new_add_dialog es = Some d" "p \<in> set (adl_sent d)"
  shows "adp_title p \<noteq> [] \<and> trimmed (adp_title p) \<and> length (adp_title p) \<le> 100
    \<and> adp_category p \<in> set ADD_CATEGORIES \<and> (\<exists>n. adp_importance p = JNum (of_int n) \<and> 1 \<le> n \<and> n \<le> 5)
    \<and> (\<forall>t. adp_description p = Some t \<longrightarrow> t \<noteq> [] \<and> length t \<le> 500)"
  using add_runs.run_keeps [OF assms(1)] assms(2) add_default_ok
  by (simp add: add_ok_def new_add_dialog_def add_payload_ok_def)

text \<open>
  \<open>QuickAddModal.jsx\<close>: its effect resets the fields when it is opened and also whenever its parent hands it a
  new \<open>onClose\<close>.
\<close>

datatype quick_control =
    QC_submit | QC_title ustring | QC_energy energy | QC_category ustring | QC_importance int | QC_deadline string

definition QUICK_CATEGORIES :: "ustring list" where
  "QUICK_CATEGORIES = [[0xC5C5, 0xBB34], [0xAC1C, 0xC778], [0xB514, 0xC790, 0xC778], [0xBB38, 0xC11C], [0xD68C,
     0xC758], [0xAC1C, 0xBC1C], [0xC778, 0xC0AC]]"

definition QUICK_IMPORTANCE :: "(int \<times> ustring) list" where
  "QUICK_IMPORTANCE = [(5, [0xB9E4, 0xC6B0, 0x20, 0xB192, 0xC74C]), (4, [0xB192, 0xC74C]), (3, [0xBCF4,
     0xD1B5]), (2, [0xB0AE, 0xC74C]), (1, [0xB9E4, 0xC6B0, 0x20, 0xB0AE, 0xC74C])]"

definition QUICK_ENERGY :: "(energy \<times> ustring) list" where
  "QUICK_ENERGY = [(LOW, [0xB0AE, 0xC74C]), (MEDIUM, [0xBCF4, 0xD1B5]), (HIGH, [0xB192, 0xC74C])]"

definition quick_reset :: "ustring \<Rightarrow> quick_form" where
  "quick_reset initialTitle = \<lparr>qf_title = initialTitle, qf_energy = MEDIUM, qf_category = [0xC5C5,
     0xBB34], qf_importance = 3, qf_deadline = []\<rparr>"

fun read_quick_title :: "quick_control \<Rightarrow> ustring option" where
  "read_quick_title (QC_title t) = Some t"
| "read_quick_title _ = None"

fun read_quick_energy :: "quick_control \<Rightarrow> int option" where
  "read_quick_energy (QC_energy e) = Some (case e of LOW \<Rightarrow> 0 | MEDIUM \<Rightarrow> 1 | HIGH \<Rightarrow> 2)"
| "read_quick_energy _ = None"

fun read_quick_category :: "quick_control \<Rightarrow> ustring option" where
  "read_quick_category (QC_category t) = Some t"
| "read_quick_category _ = None"

fun read_quick_importance :: "quick_control \<Rightarrow> int option" where
  "read_quick_importance (QC_importance n) = Some n"
| "read_quick_importance _ = None"

fun read_quick_deadline :: "quick_control \<Rightarrow> ustring option" where
  "read_quick_deadline (QC_deadline t) = Some (ascii t)"
| "read_quick_deadline _ = None"

fun energy_index :: "energy \<Rightarrow> int" where
  "energy_index LOW = 0"
| "energy_index MEDIUM = 1"
| "energy_index HIGH = 2"

record quick_dialog =
  qdl_open :: bool
  qdl_initial :: ustring
  qdl_form :: quick_form
  qdl_sent :: "partial_task list"

definition new_quick_dialog :: quick_dialog where
  "new_quick_dialog = \<lparr>qdl_open = False, qdl_initial = [], qdl_form = quick_reset [], qdl_sent = []\<rparr>"

definition quick_dialog_view :: "quick_dialog \<Rightarrow> quick_control widget list" where
  "quick_dialog_view d =
     (let f = qdl_form d in
      screen_when (qdl_open d)
        [Entry [0xC791, 0xC5C5, 0x20, 0xC81C, 0xBAA9] (qf_title f) None read_quick_title,
         Choice [0xC5D0, 0xB108, 0xC9C0] (energy_index (qf_energy f)) (map (\<lambda>(e, l). (energy_index e, l)) QUICK_ENERGY) read_quick_energy,
         Select [0xCE74, 0xD14C, 0xACE0, 0xB9AC] (qf_category f) (map (\<lambda>c. (c, c)) QUICK_CATEGORIES) read_quick_category,
         Choice [0xC911, 0xC694, 0xB3C4] (qf_importance f) QUICK_IMPORTANCE read_quick_importance,
         Entry [0xB9C8, 0xAC10] (ascii (qf_deadline f)) None read_quick_deadline,
         Caption [0x45, 0x6E, 0x74, 0x65, 0x72, 0x20, 0xCD94, 0xAC00, 0x20, 0xB7, 0x20, 0x45, 0x73, 0x63, 0x20,
            0xCDE8, 0xC18C], Button [0xCD94, 0xAC00] True QC_submit])"

fun quick_press :: "(string \<Rightarrow> js_date) \<Rightarrow> quick_control \<Rightarrow> quick_dialog \<Rightarrow> quick_dialog" where
  "quick_press nine QC_submit d =
     (case QuickAdd_submit nine (qdl_form d) of
        Quick_added t \<Rightarrow> d\<lparr>qdl_sent := qdl_sent d @ [t], qdl_open := False\<rparr>
      | _ \<Rightarrow> d)"
| "quick_press nine (QC_title t) d = d\<lparr>qdl_form := (qdl_form d)\<lparr>qf_title := t\<rparr>\<rparr>"
| "quick_press nine (QC_energy e) d = d\<lparr>qdl_form := (qdl_form d)\<lparr>qf_energy := e\<rparr>\<rparr>"
| "quick_press nine (QC_category c) d = d\<lparr>qdl_form := (qdl_form d)\<lparr>qf_category := c\<rparr>\<rparr>"
| "quick_press nine (QC_importance n) d = d\<lparr>qdl_form := (qdl_form d)\<lparr>qf_importance := n\<rparr>\<rparr>"
| "quick_press nine (QC_deadline t) d = d\<lparr>qdl_form := (qdl_form d)\<lparr>qf_deadline := t\<rparr>\<rparr>"

datatype quick_event = QDE_open ustring | QDE_new_close | QDE_press quick_control | QDE_dismiss

fun quick_step :: "(string \<Rightarrow> js_date) \<Rightarrow> quick_dialog \<Rightarrow> quick_event \<Rightarrow> quick_dialog" where
  "quick_step nine d (QDE_open title) =
     (if qdl_open d then d else d\<lparr>qdl_open := True, qdl_initial := title, qdl_form := quick_reset title\<rparr>)"
| "quick_step nine d QDE_new_close = (if qdl_open d then d\<lparr>qdl_form := quick_reset (qdl_initial d)\<rparr> else d)"
| "quick_step nine d (QDE_press c) = quick_press nine c d"
| "quick_step nine d QDE_dismiss = d\<lparr>qdl_open := False\<rparr>"

fun quick_offers :: "quick_dialog \<Rightarrow> quick_event \<Rightarrow> bool" where
  "quick_offers d (QDE_press c) \<longleftrightarrow> screen_offers (quick_dialog_view d) c"
| "quick_offers d QDE_dismiss \<longleftrightarrow> qdl_open d"
| "quick_offers d _ \<longleftrightarrow> True"

definition quick_ok :: "quick_dialog \<Rightarrow> bool" where
  "quick_ok d \<longleftrightarrow> qf_category (qdl_form d) \<in> set QUICK_CATEGORIES \<and> 1 \<le> qf_importance (qdl_form d) \<and> qf_importance (qdl_form d) \<le> 5
     \<and> (\<forall>t \<in> set (qdl_sent d). pt_title t \<noteq> [] \<and> trimmed (pt_title t) \<and> pt_estimatedMinutes t = Some 30
          \<and> (\<exists>c \<in> set QUICK_CATEGORIES. pt_category t = Some c) \<and> (\<exists>n. pt_importance t = Some n \<and> 1 \<le> n \<and> n \<le> 5))"

lemma quick_submit_ok:
  "QuickAdd_submit nine f = Quick_added t \<Longrightarrow>
   pt_title t = trim (qf_title f) \<and> pt_title t \<noteq> [] \<and> pt_estimatedMinutes t = Some 30 \<and> pt_category t = Some (qf_category f)
     \<and> pt_importance t = Some (qf_importance f)"
  by (auto simp: QuickAdd_submit_def Let_def split: if_splits)

lemma quick_view_offers:
  "screen_offers (quick_dialog_view d) c \<Longrightarrow>
   case c of QC_category t \<Rightarrow> t \<in> set QUICK_CATEGORIES | QC_importance n \<Rightarrow> 1 \<le> n \<and> n \<le> 5 | _ \<Rightarrow> True"
  by (cases c) (auto simp: quick_dialog_view_def Let_def image_image QUICK_IMPORTANCE_def)

lemma quick_reset_ok: "qf_category (quick_reset t) \<in> set QUICK_CATEGORIES" "qf_importance (quick_reset t) = 3"
  by (simp_all add: quick_reset_def QUICK_CATEGORIES_def)

lemma quick_press_ok:
  assumes "quick_ok d" "screen_offers (quick_dialog_view d) c"
  shows "quick_ok (quick_press nine c d)"
proof (cases c)
  case QC_submit
  show ?thesis
  proof (cases "QuickAdd_submit nine (qdl_form d)")
    case (Quick_added t)
    with quick_submit_ok [OF Quick_added] trim_trimmed [of "qf_title (qdl_form d)"] assms(1) QC_submit show ?thesis
      by (auto simp: quick_ok_def)
  qed (use QC_submit assms(1) in simp_all)
qed (use quick_view_offers [OF assms(2)] assms(1) in \<open>auto simp: quick_ok_def\<close>)

interpretation quick_runs: stepwise quick_offers "quick_step nine" quick_ok for nine
proof
  fix d e assume "quick_ok d" "quick_offers d e"
  then show "quick_ok (quick_step nine d e)"
    using quick_press_ok [of d _ nine] by (cases e) (auto simp: quick_ok_def quick_reset_ok)
qed

text \<open>
  The composer: every task it hands over has a title without surrounding blanks, thirty minutes, a category
  and an importance of its lists.
\<close>

theorem composer_bounds:
  assumes "guarded_run quick_offers (quick_step nine) new_quick_dialog es = Some d" "t \<in> set (qdl_sent d)"
  shows "pt_title t \<noteq> [] \<and> trimmed (pt_title t) \<and> pt_estimatedMinutes t = Some 30
    \<and> (\<exists>c \<in> set QUICK_CATEGORIES. pt_category t = Some c) \<and> (\<exists>n. pt_importance t = Some n \<and> 1 \<le> n \<and> n \<le> 5)"
proof -
  have "quick_ok new_quick_dialog" by (simp add: quick_ok_def new_quick_dialog_def quick_reset_ok)
  then have "quick_ok d" by (rule quick_runs.run_keeps [OF assms(1)])
  with assms(2) show ?thesis unfolding quick_ok_def by blast
qed

text \<open>
  A parent that hands over a new \<open>onClose\<close> at each of its renders wipes what has been typed: after such a
  render a submission without further typing adds nothing.
\<close>

theorem parent_render_wipes_composer:
  assumes "qdl_open d" "qdl_initial d = []"
  shows "quick_step nine (quick_step nine (quick_step nine d (QDE_press (QC_title t))) QDE_new_close) (QDE_press QC_submit)
     = d\<lparr>qdl_form := quick_reset []\<rparr>"
  using assms by (simp add: QuickAdd_submit_def quick_reset_def trim_def)

end
