(* ===== verification/Side_Screens.thy ===== *)
theory Side_Screens
  imports Page_Dialogs Task_Card Screen
begin

text \<open>
  What the cards and the pages beside the list of today show, and what their controls do over time:
  \<open>TaskCard.jsx\<close> with \<open>CountdownTimer.jsx\<close>, \<open>TaskActionButtons.jsx\<close> and \<open>TagBadge.jsx\<close>;
  \<open>AvailableTimeDisplay.jsx\<close> with its editor; \<open>HistoryPage.jsx\<close> with \<open>FilterTabs.jsx\<close> and
  \<open>SummaryBar.jsx\<close>; \<open>ImportantTasksPage.jsx\<close>; \<open>MiniTasks.jsx\<close>; \<open>ZombieModal.jsx\<close> with its focus; and
  \<open>ArchivePage.jsx\<close> with requests that fail or overtake each other.
\<close>

subsection \<open>The texts of a card (TaskCard.jsx, TagBadge.jsx)\<close>

record card_texts =
  ct_description :: ustring
  ct_tags :: "tag list"
  ct_dday :: "string option"
  ct_scheduledTime :: "ustring option"
  ct_completedAt :: "ustring option"
  ct_delayedFrom :: "ustring option"
  ct_timeRange :: "ustring option"
  ct_isCritical :: bool
  ct_assignees :: "ustring option list"
  ct_dimmed :: bool

text \<open>A text that is missing or empty is not rendered.\<close>

definition shown_text :: "ustring option \<Rightarrow> ustring list" where
  "shown_text t = (case t of None \<Rightarrow> [] | Some s \<Rightarrow> if s = [] then [] else [s])"

definition delay_badge :: "card_props \<Rightarrow> ustring list" where
  "delay_badge c = (if card_resolved c = RV_zombie then [ascii (show_int (tc_delayCount c)) @ [0xBC88, 0x20, 0xBBF8, 0xB904, 0xC9D0]] else [])"

definition tag_badges :: "card_texts \<Rightarrow> ustring list" where
  "tag_badges x = map tag_label (ct_tags x)"

definition dday_badge :: "card_texts \<Rightarrow> ustring list" where
  "dday_badge x = shown_text (map_option ascii (ct_dday x))"

text \<open>The first unit of a name, as the code takes it, or a dot when there is none.\<close>

definition avatar :: "ustring option \<Rightarrow> ustring" where
  "avatar name = (case name of Some (u # us) \<Rightarrow> [u] | _ \<Rightarrow> [0xB7])"

definition line_captions :: "card_props \<Rightarrow> card_texts \<Rightarrow> ustring list" where
  "line_captions c x =
     [card_truncated (tc_title c)] @ delay_badge c @ shown_text (ct_scheduledTime x) @ tag_badges x @ dday_badge x"

definition footer_captions :: "card_texts \<Rightarrow> ustring list" where
  "footer_captions x =
     shown_text (ct_timeRange x) @ (if ct_isCritical x then [[0x21, 0x20, 0xC911, 0xC694]] else []) @ map avatar (ct_assignees x)"

definition full_captions :: "card_props \<Rightarrow> card_texts \<Rightarrow> ustring list" where
  "full_captions c x =
     [card_truncated (tc_title c)] @ delay_badge c @ shown_text (Some (ct_description x))
     @ tag_badges x @ dday_badge x @ shown_text (ct_scheduledTime x)
     @ map (\<lambda>s. s @ [0xBD80, 0xD130, 0x20, 0xBBF8, 0xB904, 0xC9C4, 0x20, 0xC791, 0xC5C5]) (shown_text (ct_delayedFrom x))
     @ (if ct_dimmed x then [[0xC9C0, 0xAE08, 0x20, 0xC0C1, 0xD669, 0xC5D4, 0x20, 0xBB34, 0xB9AC, 0x20, 0xB7, 0x20,
        0xC2DC, 0xAC04, 0xB7, 0xC5D0, 0xB108, 0xC9C0, 0x20, 0xCD08, 0xACFC]] else []) @ footer_captions x"

definition completed_captions :: "card_props \<Rightarrow> card_texts \<Rightarrow> ustring list" where
  "completed_captions c x = [card_truncated (tc_title c)] @ tag_badges x @ shown_text (ct_completedAt x)"

definition card_captions :: "card_props \<Rightarrow> card_texts \<Rightarrow> ustring list" where
  "card_captions c x =
     (if card_resolved c = RV_completed then completed_captions c x
      else if tc_layout c = Layout_line then line_captions c x else full_captions c x)"

text \<open>The texts that the today page hands to the card of a task.\<close>

definition texts_of_view :: "view_model \<times> bool \<Rightarrow> card_texts" where
  "texts_of_view tf =
     (let (t, fits) = tf in
      \<lparr>ct_description = [], ct_tags = vm_tags t, ct_dday = vm_dday t, ct_scheduledTime = vm_scheduledTime t,
       ct_completedAt = None, ct_delayedFrom = vm_delayedFrom t, ct_timeRange = None, ct_isCritical = False,
       ct_assignees = [], ct_dimmed = (\<not> fits \<and> \<not> vm_isZombie t)\<rparr>)"

subsection \<open>The buttons of a card (TaskActionButtons.jsx, CountdownTimer.jsx)\<close>

fun button_text :: "action_button \<Rightarrow> ustring" where
  "button_text B_start = [0xC2DC, 0xC791, 0xD558, 0xAE30]"
| "button_text B_resume = [0xC774, 0xC5B4, 0xC11C, 0x20, 0xC2DC, 0xC791, 0xD558, 0xAE30]"
| "button_text B_pause = [0xC911, 0xC9C0]"
| "button_text B_finish = [0xB05D, 0xB0B4, 0xAE30]"

definition actions_view :: "display_status \<Rightarrow> action_button widget list" where
  "actions_view status =
     (case TaskActionButtons status of None \<Rightarrow> [] | Some (overdue, bs) \<Rightarrow> map (\<lambda>b. Button (button_text b) True b) bs)"

fun run_text :: "run_button \<Rightarrow> ustring" where
  "run_text RB_start = [0xC2DC, 0xC791]"
| "run_text RB_pause = [0xC77C, 0xC2DC, 0xC815, 0xC9C0]"
| "run_text RB_resume = [0xC7AC, 0xC2DC, 0xC791]"
| "run_text RB_finish = [0xC644, 0xB8CC]"

definition countdown_view :: "js_num \<Rightarrow> run_status \<Rightarrow> int option \<Rightarrow> int \<Rightarrow> bool \<Rightarrow> int \<Rightarrow> run_button widget list" where
  "countdown_view estimatedDuration status anchorMs baseElapsed hideControls now =
     (let r = CountdownTimer estimatedDuration status anchorMs baseElapsed now in
      [Caption (ascii (co_display r))] @ screen_when (co_overrun r) [Caption [0xC2DC, 0xAC04, 0x20, 0xCD08, 0xACFC, 0x20, 0x2B]]
      @ map (\<lambda>b. Button (run_text b) True b) (countdown_buttons status hideControls))"

text \<open>The digits blink in the last minute.\<close>

definition countdown_blinks :: "countdown \<Rightarrow> bool" where
  "countdown_blinks r \<longleftrightarrow> co_remaining r < 60 \<and> \<not> co_overrun r"

subsection \<open>The gauge and its editor (AvailableTimeDisplay.jsx)\<close>

datatype avail_control = AV_edit | AV_hours js_value_num | AV_minutes js_value_num | AV_save | AV_cancel

fun read_avail_hours :: "avail_control \<Rightarrow> js_value_num option" where
  "read_avail_hours (AV_hours x) = Some x"
| "read_avail_hours _ = None"

fun read_avail_minutes :: "avail_control \<Rightarrow> js_value_num option" where
  "read_avail_minutes (AV_minutes x) = Some x"
| "read_avail_minutes _ = None"

text \<open>The seconds of the snapshot, which may be missing; \<open>avd_sent\<close> is what has been asked to be set.\<close>

record avail_display =
  avd_total :: js_num
  avd_remaining :: js_num
  avd_allocated :: js_num
  avd_editor :: avail_editor
  avd_sent :: "js_num list"

definition avail_view :: "bool \<Rightarrow> ustring option \<Rightarrow> avail_display \<Rightarrow> avail_control widget list" where
  "avail_view isLoading toast d =
     (let e = avd_editor d in
      Caption [0xC624, 0xB298, 0x20, 0xAC00, 0xC6A9, 0xC2DC, 0xAC04]
      # (if \<not> ae_editing e then [Button [0xAC00, 0xC6A9, 0xC2DC, 0xAC04, 0x20, 0xD3B8,
         0xC9D1] (\<not> isLoading) AV_edit, Caption (hm_label (avd_total d))]
         else [Numeric [0xC2DC,
            0xAC04] (num_or_0 (fst (ae_draft e))) read_avail_hours, Numeric [0xBD84] (num_or_0 (snd (ae_draft e))) read_avail_minutes,
               Button [0xC800, 0xC7A5] True AV_save, Button [0xCDE8, 0xC18C] True AV_cancel])
      @ [Caption ([0xC794, 0xC5EC, 0x20] @ hm_label (avd_remaining d) @ [0x20, 0xB7, 0x20, 0xD560, 0xB2F9, 0x20] @ hm_label (avd_allocated d))]
      @ screen_when (ae_error e \<noteq> []) [Caption (ae_error e)]
      @ (case toast of None \<Rightarrow> [] | Some t \<Rightarrow> [Caption t]))"

fun avail_press :: "avail_control \<Rightarrow> avail_display \<Rightarrow> avail_display" where
  "avail_press AV_edit d = d\<lparr>avd_editor := startEdit (avd_total d) (avd_editor d)\<rparr>"
| "avail_press (AV_hours x) d = d\<lparr>avd_editor := (avd_editor d)\<lparr>ae_draft := (x, snd (ae_draft (avd_editor d)))\<rparr>\<rparr>"
| "avail_press (AV_minutes x) d = d\<lparr>avd_editor := (avd_editor d)\<lparr>ae_draft := (fst (ae_draft (avd_editor d)), x)\<rparr>\<rparr>"
| "avail_press AV_save d = d\<lparr>avd_sent := avd_sent d @ [draft_seconds (ae_draft (avd_editor d))]\<rparr>"
| "avail_press AV_cancel d = d\<lparr>avd_editor := (avd_editor d)\<lparr>ae_editing := False\<rparr>\<rparr>"

definition avail_answered :: "(string \<times> ustring option) + unit \<Rightarrow> avail_display \<Rightarrow> avail_display" where
  "avail_answered reply d = d\<lparr>avd_editor := save_edit reply (avd_editor d)\<rparr>"

subsection \<open>History and important tasks (HistoryPage.jsx, FilterTabs.jsx, SummaryBar.jsx, ImportantTasksPage.jsx)\<close>

definition TABS :: "(history_tab \<times> ustring) list" where
  "TABS = [(Tab_all, [0xC804, 0xCCB4]), (Tab_today, [0xC624, 0xB298]), (Tab_week, [0xC774, 0xBC88, 0x20,
     0xC8FC]), (Tab_month, [0xC774, 0xBC88, 0x20, 0xB2EC])]"

definition filter_tabs :: "(history_tab \<times> ustring) list \<Rightarrow> history_tab \<Rightarrow> history_tab widget list" where
  "filter_tabs tabs activeTab = map (\<lambda>(t, label). Switch label (t = activeTab) True t) tabs"

definition summary_bar :: "ustring \<Rightarrow> 'e widget list" where
  "summary_bar message = (if message = [] then [] else [Caption message])"

fun prefix_text :: "day_prefix \<Rightarrow> ustring" where
  "prefix_text Label_today = [0xC624, 0xB298, 0x20, 0x2014, 0x20]"
| "prefix_text Label_yesterday = [0xC5B4, 0xC81C, 0x20, 0x2014, 0x20]"
| "prefix_text Label_none = []"

text \<open>A row of the history; \<open>pretty\<close> is how the host writes a day.\<close>

definition history_row :: "history_item \<Rightarrow> ustring list" where
  "history_row i = [card_truncated (hi_title i), (case hi_category i of None \<Rightarrow> [] | Some c \<Rightarrow> c)] @ shown_text (Some (hi_completedAt i))"

definition history_view ::
  "zone \<Rightarrow> (string \<Rightarrow> int) \<Rightarrow> (string \<Rightarrow> ustring) \<Rightarrow> int \<Rightarrow> bool \<Rightarrow> history_tab \<Rightarrow> history_item list \<Rightarrow> history_tab widget list" where
  "history_view z dateOf pretty now isLoading tab items =
     (let ref = refDate dateOf now items;
          n = weekCount dateOf ref items;
          groups = history_groups dateOf (filtered_history z dateOf ref tab items)
      in Caption [0xC644, 0xB8CC, 0xB41C, 0x20, 0xC791, 0xC5C5]
         # (if \<not> isLoading \<and> n > 0 then summary_bar ([0xC774, 0xBC88, 0x20, 0xC8FC, 0xC5D0,
            0x20] @ ascii (show_nat n) @ [0xAC1C, 0xC758, 0x20, 0xC791, 0xC5C5, 0xC744, 0x20, 0xC644, 0xB8CC,
               0xD588, 0xC2B5, 0xB2C8, 0xB2E4, 0x2E]) else [])
         @ filter_tabs TABS tab
         @ (if isLoading then []
            else if groups = [] then [Caption [0xD574, 0xB2F9, 0x20, 0xAE30, 0xAC04, 0xC5D0, 0x20, 0xC644, 0xB8CC,
               0xB41C, 0x20, 0xC791, 0xC5C5, 0xC774, 0x20, 0xC5C6, 0xC2B5, 0xB2C8, 0xB2E4, 0x2E]]
            else concat (map (\<lambda>(d, rows). Caption (prefix_text (groupLabel dateOf ref d) @ pretty d)
                                 # map Caption (concat (map history_row rows))) groups)))"

definition important_view :: "(ustring \<Rightarrow> ustring) \<Rightarrow> ustring \<Rightarrow> bool \<Rightarrow> ustring option \<Rightarrow> view_model list \<Rightarrow> ustring list" where
  "important_view lower search isLoading error views =
     (let q = lower (trim search); cards = important_list lower q views in
      [[0xC911, 0xC694, 0x20, 0xC791, 0xC5C5], [0xC911, 0xC694, 0xB3C4, 0xAC00, 0x20, 0xB192, 0xC740, 0x20, 0xC791,
         0xC5C5, 0xB9CC, 0x20, 0xBAA8, 0xC558, 0xC2B5, 0xB2C8, 0xB2E4]] @ shown_text error
      @ (if isLoading then []
         else if cards = [] then [if q \<noteq> [] then [0x2018] @ q @ [0x2019, 0x20, 0xAC80, 0xC0C9, 0x20, 0xACB0,
            0xACFC, 0xAC00, 0x20, 0xC5C6, 0xC5B4, 0xC694, 0x2E] else [0xC9C0, 0xAE08, 0x20, 0xC911, 0xC694, 0x20,
               0xD45C, 0xC2DC, 0xB41C, 0x20, 0xC791, 0xC5C5, 0xC774, 0x20, 0xC5C6, 0xC2B5, 0xB2C8, 0xB2E4, 0x2E]]
         else concat (map (\<lambda>t. card_captions (important_card t) (texts_of_view (t, True))) cards)))"

definition mini_view :: "view_model option \<Rightarrow> view_model list \<Rightarrow> js_id widget list" where
  "mini_view priorityTask pending =
     (let rest = mini_all priorityTask pending; items = mini_items priorityTask pending in
      [Caption [0xC624, 0xB298, 0xC758, 0x20, 0xC791, 0xC5C5]] @ screen_when (rest \<noteq> []) [Caption ([0xB0A8,
         0xC740, 0x20] @ ascii (show_nat (length rest)))]
      @ (if items = [] then [Caption [0xC624, 0xB298, 0x20, 0xB0A8, 0xC740, 0x20, 0xC791, 0xC5C5, 0xC774, 0x20, 0xC5C6, 0xC2B5, 0xB2C8, 0xB2E4, 0x2E]]
         else concat (map (\<lambda>t. Button (vm_title t @ [0x20, 0xC644, 0xB8CC]) True (vm_id t) # Caption (vm_title t)
                                 # map Caption (shown_text (map_option ascii (vm_dday t)))) items)))"

subsection \<open>The dialogue for a task put off too often (ZombieModal.jsx)\<close>

datatype zombie_button = ZB_archive | ZB_keep

definition zombie_view :: "int \<Rightarrow> ustring option \<Rightarrow> zombie_button widget list" where
  "zombie_view delayCount taskTitle =
     [Caption (ascii (show_int delayCount) @ [0xBC88, 0xC774, 0xB098, 0x20, 0xBBF8, 0xB904, 0xC9C4, 0x20, 0xC791, 0xC5C5, 0xC774, 0xC5D0, 0xC694]),
      Caption [0xC9C0, 0xAE08, 0xC740, 0x20, 0xD0C0, 0xC774, 0xBC0D, 0xC774, 0x20, 0xC544, 0xB2D0, 0x20, 0xC218,
         0x20, 0xC788, 0xC5B4, 0xC694, 0x2E, 0x20, 0x2018, 0xBCF4, 0xAD00, 0xD568, 0x2019, 0xC73C, 0xB85C, 0x20,
            0xC228, 0xACA8, 0xB458, 0xAE4C, 0xC694, 0x3F]]
     @ map (\<lambda>t. Caption ([0x201C] @ t @ [0x201D])) (shown_text taskTitle)
     @ [Button [0xBCF4, 0xAD00, 0xD558, 0xAE30] True ZB_archive, Button [0xACC4, 0xC18D, 0x20, 0xC720, 0xC9C0] True ZB_keep]"

text \<open>
  The focus inside the dialogue and its user's choice.  The effect depends on \<open>onClose\<close>, a new function at
  every render of the page: each one gives the focus back, and takes it again for the first button.  The page
  renders every second while a task runs (\<open>useTaskRuntime.js\<close>).
\<close>

datatype zombie_choice = Chosen zombie_button | Dismissed

record zombie_focus =
  zf_focus :: nat
  zf_choice :: "zombie_choice option"

datatype focus_event = FE_tab bool | FE_render | FE_enter | FE_escape

definition zombie_opened :: zombie_focus where
  "zombie_opened = \<lparr>zf_focus = 0, zf_choice = None\<rparr>"

fun focus_step :: "zombie_focus \<Rightarrow> focus_event \<Rightarrow> zombie_focus" where
  "focus_step s (FE_tab shift) =
     (if zf_choice s \<noteq> None then s else (case trap_tab 2 shift (zf_focus s) of None \<Rightarrow> s | Some k \<Rightarrow> s\<lparr>zf_focus := k\<rparr>))"
| "focus_step s FE_render = (if zf_choice s \<noteq> None then s else s\<lparr>zf_focus := 0\<rparr>)"
| "focus_step s FE_enter =
     (if zf_choice s \<noteq> None then s else s\<lparr>zf_choice := Some (Chosen (if zf_focus s = 0 then ZB_archive else ZB_keep))\<rparr>)"
| "focus_step s FE_escape = (if zf_choice s \<noteq> None then s else s\<lparr>zf_choice := Some Dismissed\<rparr>)"

subsection \<open>The archive with its requests (ArchivePage.jsx)\<close>

datatype archive_control = AR_restore task_response | AR_remove task_response

definition archive_row :: "(task_response \<Rightarrow> view_model) \<Rightarrow> task_response \<Rightarrow> archive_control widget list" where
  "archive_row view raw =
     (let t = view raw in
      map Caption (vm_title t # map tag_label (vm_tags t) @ shown_text (map_option ascii (vm_dday t)))
      @ [Button [0xBCF5, 0xAD6C] True (AR_restore raw), Button (vm_title t @ [0x20, 0xC601, 0xAD6C, 0x20, 0xC0AD, 0xC81C]) True (AR_remove raw)])"

definition archive_view ::
  "(ustring \<Rightarrow> ustring) \<Rightarrow> (task_response \<Rightarrow> view_model) \<Rightarrow> ustring \<Rightarrow> bool \<Rightarrow> task_response list \<Rightarrow> archive_control widget list" where
  "archive_view lower view search isLoading items =
     (let q = lower (trim search); visible = archive_visible lower search items in
      [Caption [0xBCF4, 0xAD00, 0xD568], Caption [0xBBF8, 0xB904, 0xB450, 0xAC70, 0xB098, 0x20, 0xBCF4, 0xAD00,
         0xD55C, 0x20, 0xC791, 0xC5C5, 0xC774, 0xC5D0, 0xC694, 0x2E, 0x20, 0xBCF5, 0xAD6C, 0xD558, 0xBA74, 0x20,
            0xB2E4, 0xC2DC, 0x20, 0xBAA9, 0xB85D, 0xC5D0, 0x20, 0xB098, 0xD0C0, 0xB098, 0xC694, 0x2E]]
      @ (if isLoading then []
         else if visible = [] then [Caption (if q \<noteq> [] then [0x2018] @ q @ [0x2019, 0x20, 0xAC80, 0xC0C9,
            0x20, 0xACB0, 0xACFC, 0xAC00, 0x20, 0xC5C6, 0xC5B4, 0xC694, 0x2E] else [0xBCF4, 0xAD00, 0xD55C, 0x20,
               0xC791, 0xC5C5, 0xC774, 0x20, 0xC5C6, 0xC2B5, 0xB2C8, 0xB2E4, 0x2E])]
         else concat (map (archive_row view) visible)))"

text \<open>
  The list, the undo that the toast offers, the requests that are awaited, and the tasks of the back end.  A
  request is carried out when the back end gets to it, in any order, or fails, which the page ignores.
\<close>

datatype archive_call = Do_restore js_id | Do_delete js_id | Do_recreate task_response

record archive_world =
  ac_items :: "task_response list"
  ac_undo :: "task_response option"
  ac_awaited :: "archive_call list"
  ac_server :: mock_state

fun perform_call :: "archive_call \<Rightarrow> mock_state \<Rightarrow> mock_state" where
  "perform_call (Do_restore i) m = fst (mock_updateTaskStatus m i MA_RESTORE)"
| "perform_call (Do_delete i) m = mock_deleteTask m i"
| "perform_call (Do_recreate raw) m = fst (mock_recreateTask m raw)"

fun archive_press :: "archive_control \<Rightarrow> archive_world \<Rightarrow> archive_world" where
  "archive_press (AR_restore raw) w =
     w\<lparr>ac_items := archive_drop (tr_taskId raw) (ac_items w), ac_undo := None, ac_awaited := ac_awaited w @ [Do_restore (tr_taskId raw)]\<rparr>"
| "archive_press (AR_remove raw) w =
     w\<lparr>ac_items := archive_drop (tr_taskId raw) (ac_items w), ac_undo := Some raw, ac_awaited := ac_awaited w @ [Do_delete (tr_taskId raw)]\<rparr>"

definition undo_removal :: "archive_world \<Rightarrow> archive_world" where
  "undo_removal w =
     (case ac_undo w of
        None \<Rightarrow> w
      | Some raw \<Rightarrow> w\<lparr>ac_items := archive_undo_remove raw (ac_items w), ac_undo := None, ac_awaited := ac_awaited w @ [Do_recreate raw]\<rparr>)"

definition archive_served :: "nat \<Rightarrow> bool \<Rightarrow> archive_world \<Rightarrow> archive_world" where
  "archive_served n ok w =
     w\<lparr>ac_server := (if ok then perform_call (ac_awaited w ! n) (ac_server w) else ac_server w), ac_awaited := drop_nth n (ac_awaited w)\<rparr>"

datatype archive_event = AVE_press archive_control | AVE_undo | AVE_toast_gone | AVE_served nat bool

fun archive_world_step :: "archive_world \<Rightarrow> archive_event \<Rightarrow> archive_world" where
  "archive_world_step w (AVE_press c) = archive_press c w"
| "archive_world_step w AVE_undo = undo_removal w"
| "archive_world_step w AVE_toast_gone = w\<lparr>ac_undo := None\<rparr>"
| "archive_world_step w (AVE_served n ok) = archive_served n ok w"

fun archive_world_offers ::
  "(ustring \<Rightarrow> ustring) \<Rightarrow> (task_response \<Rightarrow> view_model) \<Rightarrow> ustring \<Rightarrow> archive_world \<Rightarrow> archive_event \<Rightarrow> bool" where
  "archive_world_offers lower view search w (AVE_press c) \<longleftrightarrow> screen_offers (archive_view lower view search False (ac_items w)) c"
| "archive_world_offers lower view search w AVE_undo \<longleftrightarrow> ac_undo w \<noteq> None"
| "archive_world_offers lower view search w AVE_toast_gone \<longleftrightarrow> True"
| "archive_world_offers lower view search w (AVE_served n ok) \<longleftrightarrow> n < length (ac_awaited w)"

subsection \<open>Properties of the cards\<close>

text \<open>
  The line layout shows no text that the card layout does not: it only leaves some out, among them why a
  task is dimmed and since when it has been put off.
\<close>

theorem line_shows_part_of_card:
  "mset (line_captions c x) \<subseteq># mset (full_captions c x)
   \<and> mset (full_captions c x) - mset (line_captions c x)
       = mset (shown_text (Some (ct_description x)) @ map (\<lambda>s. s @ [0xBD80, 0xD130, 0x20, 0xBBF8, 0xB904,
          0xC9C4, 0x20, 0xC791, 0xC5C5]) (shown_text (ct_delayedFrom x))
           @ (if ct_dimmed x then [[0xC9C0, 0xAE08, 0x20, 0xC0C1, 0xD669, 0xC5D4, 0x20, 0xBB34, 0xB9AC, 0x20, 0xB7,
              0x20, 0xC2DC, 0xAC04, 0xB7, 0xC5D0, 0xB108, 0xC9C0, 0x20, 0xCD08, 0xACFC]] else []) @ footer_captions x)"
proof -
  let ?rest = "mset (shown_text (Some (ct_description x)) @ map (\<lambda>s. s @ [0xBD80, 0xD130, 0x20, 0xBBF8,
     0xB904, 0xC9C4, 0x20, 0xC791, 0xC5C5]) (shown_text (ct_delayedFrom x))
      @ (if ct_dimmed x then [[0xC9C0, 0xAE08, 0x20, 0xC0C1, 0xD669, 0xC5D4, 0x20, 0xBB34, 0xB9AC, 0x20, 0xB7,
         0x20, 0xC2DC, 0xAC04, 0xB7, 0xC5D0, 0xB108, 0xC9C0, 0x20, 0xCD08, 0xACFC]] else []) @ footer_captions x)"
  have "mset (full_captions c x) = mset (line_captions c x) + ?rest"
    by (simp add: full_captions_def line_captions_def union_ac)
  then show ?thesis by simp
qed

lemma actions_view_offers: "screen_offers (actions_view d) b \<longleftrightarrow> b \<in> set (taskActionButtonSet d)"
  by (cases d; cases b) (simp_all add: actions_view_def TaskActionButtons_def)

lemma countdown_view_offers: "screen_offers (countdown_view est s anc base hide now) b \<longleftrightarrow> b \<in> set (countdown_buttons s hide)"
  by (auto simp: countdown_view_def Let_def screen_offers_map)

text \<open>
  A row of the today page offers exactly the transitions that its status allows, and each once: its countdown
  hides its own buttons.
\<close>

theorem row_offers_each_transition_once:
  "(\<exists>b'. screen_offers (countdown_view est s anc base (tc_actions (today_card lay t)) now) b') = False
   \<and> (screen_offers (actions_view d) b \<longleftrightarrow> TABLE (button_action b) d \<noteq> None)
   \<and> length (filter (\<lambda>w. widget_offers w b) (actions_view d)) \<le> 1"
proof -
  have "length (filter (\<lambda>w. widget_offers w b) (actions_view d)) \<le> 1"
    by (cases d; cases b) (simp_all add: actions_view_def TaskActionButtons_def)
  moreover have "b \<in> set (taskActionButtonSet d) \<longleftrightarrow> TABLE (button_action b) d \<noteq> None"
    by (cases b; cases d) simp_all
  ultimately show ?thesis by (simp add: actions_view_offers countdown_view_offers countdown_buttons_def today_card_def)
qed

text \<open>
  Opening the editor of the available time and saving without a change keeps the budget when it is a number of
  whole minutes; otherwise the budget is rounded to minutes.
\<close>

lemma max_zero_mult: "max 0 (60 * k) = 60 * max 0 (k::int)"
  by (simp add: max_def)

lemma round_minutes: "0 \<le> r \<Longrightarrow> js_round (of_int r / 60) = (r + 30) div 60"
proof -
  have "of_int r / (60::rat) + 1 / 2 = of_int (r + 30) / of_int 60" by (simp add: add_divide_distrib)
  then show ?thesis unfolding js_round_def by (metis floor_divide_of_int_eq)
qed

text \<open>
  Opening the editor of the available time and saving at once sends the budget rounded to whole
  minutes, half a minute upwards; a budget of whole minutes is sent back as it is.
\<close>

theorem unchanged_edit_keeps_minutes:
  assumes "0 \<le> n"
  shows "draft_seconds (ae_draft (startEdit (of_int n) a)) = of_int (60 * ((n + 30) div 60))
    \<and> draft_seconds (ae_draft (startEdit (of_int (60 * k)) a)) = of_int (60 * max 0 k)"
proof -
  have main: "draft_seconds (ae_draft (startEdit (of_int m) a)) = of_int (60 * ((m + 30) div 60))" if m: "0 \<le> m" for m
  proof -
    have "(m + 30) div 60 = (m div 3600) * 60 + (m mod 3600 + 30) div 60"
    proof -
      have "m + 30 = (m mod 3600 + 30) + ((m div 3600) * 60) * 60" using div_mult_mod_eq [of m 3600] by linarith
      then show ?thesis by (metis add.commute div_mult_self1 zero_neq_numeral)
    qed
    moreover have "hm (of_int m) = (m div 3600, (m mod 3600 + 30) div 60)"
      using m round_minutes [of "m mod 3600"] by (simp add: hm_def Let_def)
    ultimately show ?thesis by (simp add: startEdit_def draft_seconds_def)
  qed
  have "hm (of_int j) = hm (of_int (max 0 j))" for j by (simp only: hm_def js_round_of_int max.left_idem)
  from this [of "60 * k"] have "hm (of_int (60 * k)) = hm (of_int (60 * max 0 k))" by (simp only: max_zero_mult)
  then have "draft_seconds (ae_draft (startEdit (of_int (60 * k)) a)) = draft_seconds (ae_draft (startEdit (of_int (60 * max 0 k)) a))"
    by (simp add: startEdit_def)
  also have "\<dots> = of_int (60 * max 0 k)" using main [of "60 * max 0 k"] by simp
  finally show ?thesis using main [OF assms] by simp
qed

lemma unchanged_edit_keeps_minutes_witness:
  "draft_seconds (ae_draft (startEdit (of_int 3599) \<lparr>ae_editing = False, ae_draft = (JNum 0, JNum 0), ae_error = []\<rparr>)) = of_int 3600"
  using unchanged_edit_keeps_minutes [of 3599 "\<lparr>ae_editing = False, ae_draft = (JNum 0, JNum 0), ae_error = []\<rparr>" 0] by simp

subsection \<open>Properties of the pages\<close>

text \<open>
  The history has no dead end: every tab can be chosen in every state, and once there is a completed task
  every tab shows one.
\<close>

theorem every_tab_shows_history:
  "screen_offers (history_view z dateOf pretty now isLoading tab items) t
   \<and> (items \<noteq> [] \<longrightarrow> history_groups dateOf (filtered_history z dateOf (refDate dateOf now items) t items) \<noteq> [])"
proof -
  have "screen_offers (filter_tabs TABS tab) t" by (cases t) (simp_all add: filter_tabs_def TABS_def)
  then have "screen_offers (history_view z dateOf pretty now isLoading tab items) t" by (simp add: history_view_def Let_def)
  moreover have "history_groups dateOf (filtered_history z dateOf (refDate dateOf now items) t items) \<noteq> []" if "items \<noteq> []"
  proof -
    let ?ref = "refDate dateOf now items"
    from that obtain i where "i \<in> set items" by (cases items) auto
    from refDate_max(2) [OF this, of dateOf now] obtain j where j: "j \<in> set items" "?ref = dateOf (hi_date j)" by auto
    then have "in_tab z dateOf ?ref t j" by (cases t) (simp_all add: in_tab_def diffDays_def)
    with j(1) have "filtered_history z dateOf ?ref t items \<noteq> []" unfolding filtered_history_def filter_empty_conv by blast
    then have "mset (concat (map snd (history_groups dateOf (filtered_history z dateOf ?ref t items)))) \<noteq> {#}"
      using groups_partition_history [of dateOf "filtered_history z dateOf ?ref t items"] by simp
    then show ?thesis by auto
  qed
  ultimately show ?thesis by blast
qed

text \<open>The mini widget can complete exactly the tasks it lists, and it counts the others too.\<close>

theorem mini_completes_listed_tasks:
  "(screen_offers (mini_view p rest) i \<longleftrightarrow> i \<in> vm_id ` set (mini_items p rest))
   \<and> (mini_all p rest \<noteq> [] \<longrightarrow> Caption ([0xB0A8, 0xC740,
      0x20] @ ascii (show_nat (length (mini_all p rest)))) \<in> set (mini_view p rest))"
proof -
  have "\<not> screen_offers (map Caption ts) x" for ts and x :: js_id by (induction ts) simp_all
  then have "screen_offers (mini_view p rest) i \<longleftrightarrow> i \<in> vm_id ` set (mini_items p rest)"
    by (auto simp: mini_view_def Let_def screen_offers_concat image_iff)
  then show ?thesis by (simp add: mini_view_def Let_def screen_when_def)
qed

text \<open>
  Every render of the page moves the choice back to the first button: whatever was focused, an Enter after a
  render archives, while without renders an odd number of tabs leads to the button that keeps the task.
\<close>

lemma tab_moves: "zf_focus s < 2 \<Longrightarrow> zf_choice s = None \<Longrightarrow> focus_step s (FE_tab b) = s\<lparr>zf_focus := 1 - zf_focus s\<rparr>"
  by (auto simp: trap_tab_def less_2_cases_iff)

lemma tabs_move:
  "zf_focus s < 2 \<Longrightarrow> zf_choice s = None \<Longrightarrow>
   foldl focus_step s (map FE_tab bs) = s\<lparr>zf_focus := (if even (length bs) then zf_focus s else 1 - zf_focus s)\<rparr>"
proof (induction bs arbitrary: s)
  case (Cons b bs)
  then have "foldl focus_step s (map FE_tab (b # bs)) = foldl focus_step (s\<lparr>zf_focus := 1 - zf_focus s\<rparr>) (map FE_tab bs)"
    by (simp add: tab_moves del: focus_step.simps)
  also have "\<dots> = (s\<lparr>zf_focus := 1 - zf_focus s\<rparr>)\<lparr>zf_focus := (if even (length bs) then 1 - zf_focus s else 1 - (1 - zf_focus s))\<rparr>"
    using Cons.IH [of "s\<lparr>zf_focus := 1 - zf_focus s\<rparr>"] Cons.prems by simp
  also have "\<dots> = s\<lparr>zf_focus := (if even (length (b # bs)) then zf_focus s else 1 - zf_focus s)\<rparr>"
    using Cons.prems by (auto simp: less_2_cases_iff)
  finally show ?case .
qed simp

theorem render_redirects_enter:
  "zf_choice (foldl focus_step zombie_opened (map FE_tab bs @ [FE_render, FE_enter])) = Some (Chosen ZB_archive)
   \<and> zf_choice (foldl focus_step zombie_opened (map FE_tab bs @ [FE_enter]))
       = Some (Chosen (if even (length bs) then ZB_archive else ZB_keep))"
proof -
  have "foldl focus_step zombie_opened (map FE_tab bs) = zombie_opened\<lparr>zf_focus := (if even (length bs) then 0 else 1)\<rparr>"
    using tabs_move [of zombie_opened bs] by (simp add: zombie_opened_def)
  then show ?thesis by (simp add: zombie_opened_def)
qed

subsection \<open>Properties of the archive\<close>

lemma archive_view_offers:
  "screen_offers (archive_view lower view search loading items) c \<Longrightarrow>
   case c of AR_restore raw \<Rightarrow> raw \<in> set items | AR_remove raw \<Rightarrow> raw \<in> set items"
proof -
  have "\<not> screen_offers (map Caption ts) x" for ts and x :: archive_control by (induction ts) simp_all
  then show "screen_offers (archive_view lower view search loading items) c \<Longrightarrow> ?thesis"
    by (cases c) (auto simp: archive_view_def Let_def screen_offers_concat archive_row_def archive_visible_def simp del: list.map split: if_splits)
qed

text \<open>What the back end will have when the awaited requests have been carried out in their order.\<close>

definition archive_target :: "archive_world \<Rightarrow> mock_state" where
  "archive_target w = foldl (\<lambda>m c. perform_call c m) (ac_server w) (ac_awaited w)"

definition archive_ok :: "archive_world \<Rightarrow> bool" where
  "archive_ok w \<longleftrightarrow> archive_matches (ac_items w, archive_target w)
     \<and> (\<forall>raw. ac_undo w = Some raw \<longrightarrow>
          (\<exists>items m. archive_matches (items, m) \<and> raw \<in> set items
             \<and> ac_items w = archive_drop (tr_taskId raw) items \<and> archive_target w = mock_deleteTask m (tr_taskId raw)))"

text \<open>Requests that are answered in the order they were made, and all accepted.\<close>

fun in_order :: "archive_event \<Rightarrow> bool" where
  "in_order (AVE_served n ok) \<longleftrightarrow> n = 0 \<and> ok"
| "in_order _ \<longleftrightarrow> True"

lemma archive_press_ok:
  assumes "archive_ok w" "archive_world_offers lower view search w (AVE_press c)"
  shows "archive_ok (archive_press c w)"
proof (cases c)
  case (AR_restore raw)
  then have "raw \<in> set (ac_items w)" using archive_view_offers [OF assms(2) [unfolded archive_world_offers.simps]] by simp
  with archive_step_matches [of "ac_items w" "archive_target w" "AA_restore raw"] assms(1) AR_restore show ?thesis
    by (simp add: archive_ok_def archive_target_def)
next
  case (AR_remove raw)
  then have raw: "raw \<in> set (ac_items w)" using archive_view_offers [OF assms(2) [unfolded archive_world_offers.simps]] by simp
  from assms(1) have m: "archive_matches (ac_items w, archive_target w)" by (simp add: archive_ok_def)
  with archive_step_matches [of "ac_items w" "archive_target w" "AA_remove raw"] raw
  have "archive_matches (archive_drop (tr_taskId raw) (ac_items w), mock_deleteTask (archive_target w) (tr_taskId raw))" by simp
  with AR_remove m raw show ?thesis by (auto simp: archive_ok_def archive_target_def)
qed

lemma undo_removal_ok:
  assumes "archive_ok w"
  shows "archive_ok (undo_removal w)"
proof (cases "ac_undo w")
  case (Some raw)
  with assms obtain items m where im: "archive_matches (items, m)" "raw \<in> set items"
    "ac_items w = archive_drop (tr_taskId raw) items" "archive_target w = mock_deleteTask m (tr_taskId raw)"
    by (auto simp: archive_ok_def)
  from archive_step_matches [of items m "AA_remove_undo raw"] im
  have "archive_matches (archive_undo_remove raw (ac_items w), fst (mock_recreateTask (archive_target w) raw))" by simp
  then show ?thesis by (simp add: undo_removal_def Some archive_ok_def archive_target_def)
qed (use assms in \<open>simp add: undo_removal_def\<close>)

lemma archive_served_ok:
  assumes "archive_ok w" "ac_awaited w \<noteq> []"
  shows "archive_ok (archive_served 0 True w)"
proof -
  have "archive_target (archive_served 0 True w) = archive_target w"
    using assms(2) by (cases "ac_awaited w") (simp_all add: archive_served_def archive_target_def drop_nth_def)
  then show ?thesis using assms(1) by (simp add: archive_ok_def archive_served_def)
qed

interpretation archive_runs: stepwise "\<lambda>w e. archive_world_offers lower view search w e \<and> in_order e" archive_world_step archive_ok
  for lower view search
proof
  fix w e assume w: "archive_ok w" and e: "archive_world_offers lower view search w e \<and> in_order e"
  show "archive_ok (archive_world_step w e)"
  proof (cases e)
    case (AVE_press c)
    with e archive_press_ok [OF w] show ?thesis by (simp del: archive_press.simps)
  next
    case (AVE_served n ok)
    with e archive_served_ok [OF w] show ?thesis by auto
  qed (use w undo_removal_ok in \<open>auto simp: archive_ok_def archive_target_def\<close>)
qed

text \<open>
  C23. While the requests are carried out in the order in which they were made, the archive page is ahead of
  the back end by exactly the awaited requests: whatever has been restored, removed and put back, the page shows
  the archived tasks that there will be when those have been carried out, and once none is awaited the two agree.
\<close>

theorem archive_ahead_by_awaited:
  assumes "archive_matches (items, m)"
    and "guarded_run (archive_world_offers lower view search) archive_world_step
           \<lparr>ac_items = items, ac_undo = None, ac_awaited = [], ac_server = m\<rparr> es = Some w"
    and "list_all in_order es"
  shows "ac_items w = mock_getArchivedTasks (foldl (\<lambda>m c. perform_call c m) (ac_server w) (ac_awaited w))
    \<and> (ac_awaited w = [] \<longrightarrow> ac_items w = mock_getArchivedTasks (ac_server w))"
proof -
  have "archive_ok \<lparr>ac_items = items, ac_undo = None, ac_awaited = [], ac_server = m\<rparr>"
    using assms(1) by (simp add: archive_ok_def archive_target_def)
  then have "archive_ok w" by (rule archive_runs.run_keeps [OF guarded_run_conj [OF assms(2,3)]])
  then show ?thesis by (auto simp: archive_ok_def archive_matches_def archive_target_def)
qed

text \<open>
  A restoration that fails is not noticed: the row is gone from the page while the task stays archived.
\<close>

theorem failed_restore_hides_task:
  assumes "archive_matches (items, m)" "raw \<in> set items"
  shows "let w = foldl archive_world_step \<lparr>ac_items = items, ac_undo = None, ac_awaited = [], ac_server = m\<rparr>
            [AVE_press (AR_restore raw), AVE_served 0 False]
     in raw \<notin> set (ac_items w) \<and> raw \<in> set (mock_getArchivedTasks (ac_server w)) \<and> ac_awaited w = []"
  using assms by (simp add: archive_served_def archive_drop_def drop_nth_def archive_matches_def)

text \<open>
  An undo whose request overtakes the removal loses the task: the page shows it again, the back end has it no more.
\<close>

theorem overtaken_undo_loses_task:
  assumes "archive_matches (items, m)" "raw \<in> set items"
  shows "let w = foldl archive_world_step \<lparr>ac_items = items, ac_undo = None, ac_awaited = [], ac_server = m\<rparr>
            [AVE_press (AR_remove raw), AVE_undo, AVE_served 1 True, AVE_served 0 True]
     in raw \<in> set (ac_items w) \<and> tr_taskId raw \<notin> tr_taskId ` set (m_tasks (ac_server w)) \<and> ac_awaited w = []"
proof -
  have "mock_recreateTask m raw = (m, clone raw)"
    using assms by (auto simp: mock_recreateTask_def archive_matches_def mock_getArchivedTasks_def)
  then show ?thesis
    using archive_drop_none [of "tr_taskId raw" items]
    by (auto simp: archive_served_def undo_removal_def archive_undo_remove_def drop_nth_def mock_deleteTask_def Let_def)
qed

subsection \<open>A session of the archive\<close>

lemma visible_offered:
  assumes "raw \<in> set (archive_visible lower search items)"
  shows "screen_offers (archive_view lower view search False items) (AR_restore raw)"
    "screen_offers (archive_view lower view search False items) (AR_remove raw)"
proof -
  from assms have "archive_visible lower search items \<noteq> []" by auto
  moreover have "screen_offers (archive_row view raw) (AR_restore raw)" "screen_offers (archive_row view raw) (AR_remove raw)"
    by (simp_all add: archive_row_def Let_def)
  ultimately show "screen_offers (archive_view lower view search False items) (AR_restore raw)"
    "screen_offers (archive_view lower view search False items) (AR_remove raw)"
    using assms by (auto simp: archive_view_def Let_def screen_offers_concat)
qed

lemma seed_archive:
  "archive_matches (mock_getArchivedTasks archived_seed, archived_seed)" "mock_getArchivedTasks archived_seed \<noteq> []"
  by (simp_all add: archive_matches_def mock_getArchivedTasks_def archived_seed_def mock_initial_def seed_defs)

lemma archive_ahead_by_awaited_witness:
  "\<exists>raw w. guarded_run (archive_world_offers (\<lambda>t. t) (toViewModel (\<lambda>t. t) 0) []) archive_world_step
        \<lparr>ac_items = mock_getArchivedTasks archived_seed, ac_undo = None, ac_awaited = [], ac_server = archived_seed\<rparr>
        [AVE_press (AR_remove raw), AVE_served 0 True, AVE_undo, AVE_served 0 True] = Some w
      \<and> ac_items w = mock_getArchivedTasks (ac_server w)"
proof -
  let ?w0 = "\<lparr>ac_items = mock_getArchivedTasks archived_seed, ac_undo = None, ac_awaited = [], ac_server = archived_seed\<rparr>"
  obtain raw where raw: "raw \<in> set (mock_getArchivedTasks archived_seed)" using seed_archive(2) by (metis list.set_intros(1) neq_Nil_conv)
  let ?es = "[AVE_press (AR_remove raw), AVE_served 0 True, AVE_undo, AVE_served 0 True]"
  have "raw \<in> set (archive_visible (\<lambda>t. t) [] (mock_getArchivedTasks archived_seed))" using raw by (simp add: archive_visible_def trim_def)
  note off = visible_offered(2) [OF this, of "toViewModel (\<lambda>t. t) 0"]
  have "\<exists>w. guarded_run (archive_world_offers (\<lambda>t. t) (toViewModel (\<lambda>t. t) 0) []) archive_world_step ?w0 ?es = Some w
      \<and> ac_awaited w = []"
    using off by (simp add: archive_served_def undo_removal_def drop_nth_def)
  then obtain w where
    w: "guarded_run (archive_world_offers (\<lambda>t. t) (toViewModel (\<lambda>t. t) 0) []) archive_world_step ?w0 ?es = Some w"
    and none: "ac_awaited w = []" by blast
  have "list_all in_order ?es" by simp
  from archive_ahead_by_awaited [OF seed_archive(1) w this] none have "ac_items w = mock_getArchivedTasks (ac_server w)" by blast
  with w show ?thesis by blast
qed

end
