(* ===== verification/Bell_Screen.thy ===== *)
theory Bell_Screen
  imports Page_Dialogs Task_Card App_Shell Screen
begin

text \<open>
  The bell of the top bar, \<open>NotificationBell.jsx\<close>, with the list it opens, \<open>NotificationPanel.jsx\<close> and
  \<open>NotificationItem.jsx\<close>, and the stack of \<open>NotificationToast.jsx\<close>: what they render, and which calls of the frame
  their controls lead to.
\<close>

subsection \<open>What is rendered\<close>

datatype bell_control = BL_bell | BL_item mock_notification | BL_resolve js_id string | BL_readall | BL_more

definition bell_label :: "nat \<Rightarrow> ustring" where
  "bell_label unreadCount = (if unreadCount > 0 then [0xC54C, 0xB9BC, 0x2C, 0x20, 0xC77D, 0xC9C0, 0x20, 0xC54A,
     0xC74C, 0x20] @ ascii (show_nat unreadCount) @ [0xAC74] else [0xC54C, 0xB9BC])"

fun resolve_text :: "item_call \<Rightarrow> ustring" where
  "resolve_text (Call_resolve i a) = (if a = ''COMPLETE'' then [0xC644, 0xB8CC, 0xB85C, 0x20, 0xCC98, 0xB9AC] else [0xC0AD, 0xC81C])"
| "resolve_text _ = []"

fun resolve_control :: "item_call \<Rightarrow> bell_control" where
  "resolve_control (Call_resolve i a) = BL_resolve i a"
| "resolve_control _ = BL_bell"

definition item_view :: "mock_notification \<Rightarrow> bell_control widget list" where
  "item_view n =
     [Button (n_message n @ [0x20, 0x2014, 0x20, 0xAD00, 0xB828, 0x20, 0xC791, 0xC5C5, 0xC73C, 0xB85C, 0x20,
        0xC774, 0xB3D9]) True (BL_item n), Caption (n_message n)]
     @ screen_when (\<not> n_is_read n) [Caption [0xC77D, 0xC9C0, 0x20, 0xC54A, 0xC74C]]
     @ map (\<lambda>c. Button (resolve_text c) True (resolve_control c)) (item_actions n)"

definition panel_view :: "bool \<Rightarrow> nat \<Rightarrow> mock_notification list \<Rightarrow> bool \<Rightarrow> bool \<Rightarrow> bell_control widget list" where
  "panel_view isLoading unreadCount items hasMore isLoadingMore =
     [Caption [0xC54C, 0xB9BC]] @ screen_when (unreadCount > 0) [Caption (ascii (show_nat unreadCount))]
     @ [Button [0xBAA8, 0xB450, 0x20, 0xC77D, 0xC74C] (\<not> readall_disabled unreadCount) BL_readall]
     @ (case NotificationPanel isLoading items hasMore isLoadingMore of
          Panel_loading \<Rightarrow> []
        | Panel_empty \<Rightarrow> [Caption [0xBC00, 0xB9B0, 0x20, 0xC791, 0xC5C5, 0xC774, 0x20, 0xC5C6, 0xC2B5, 0xB2C8, 0xB2E4, 0x2E]]
        | Panel_list ns lm \<Rightarrow>
            concat (map item_view ns)
            @ (case lm of None \<Rightarrow> [] | Some busy \<Rightarrow> [Button (if busy then [0xBD88, 0xB7EC,
               0xC624, 0xB294, 0x20, 0xC911, 0x2026] else [0xB354, 0x20, 0xBCF4, 0xAE30]) (\<not> busy) BL_more]))"

definition bell_view :: "bool \<Rightarrow> nat \<Rightarrow> mock_notification list \<Rightarrow> bool \<Rightarrow> bool \<Rightarrow> bool \<Rightarrow> bell_control widget list" where
  "bell_view isLoading unreadCount items hasMore isLoadingMore is_open =
     [Button (bell_label unreadCount) True BL_bell]
     @ map (\<lambda>b. Caption (ascii b)) (case bell_shown isLoading unreadCount of None \<Rightarrow> [] | Some b \<Rightarrow> [b])
     @ screen_when is_open (panel_view isLoading unreadCount items hasMore isLoadingMore)"

subsection \<open>The bell at work\<close>

text \<open>\<open>be_calls\<close> are the calls of its properties, \<open>be_focus\<close> says that the focus has been given back to the button.\<close>

datatype bell_call = Item_call item_call | Mark_all_read | Load_more

record bell =
  be_open :: bool
  be_focus :: bool
  be_calls :: "bell_call list"

definition new_bell :: bell where
  "new_bell = \<lparr>be_open = False, be_focus = False, be_calls = []\<rparr>"

definition close_bell :: "bell \<Rightarrow> bell" where
  "close_bell b = b\<lparr>be_open := False, be_focus := True\<rparr>"

fun bell_press :: "bell_control \<Rightarrow> bell \<Rightarrow> bell" where
  "bell_press BL_bell b = b\<lparr>be_open := \<not> be_open b\<rparr>"
| "bell_press (BL_item n) b = close_bell (b\<lparr>be_calls := be_calls b @ map Item_call (activate_item n)\<rparr>)"
| "bell_press (BL_resolve i a) b = b\<lparr>be_calls := be_calls b @ [Item_call (Call_resolve i a)]\<rparr>"
| "bell_press BL_readall b = b\<lparr>be_calls := be_calls b @ [Mark_all_read]\<rparr>"
| "bell_press BL_more b = b\<lparr>be_calls := be_calls b @ [Load_more]\<rparr>"

datatype bell_event = BE_press bell_control | BE_key string | BE_outside

fun bell_step :: "bell \<Rightarrow> bell_event \<Rightarrow> bell" where
  "bell_step b (BE_press c) = bell_press c b"
| "bell_step b (BE_key k) = (if be_open b \<and> k = ''Escape'' then close_bell b else b)"
| "bell_step b BE_outside = (if be_open b then b\<lparr>be_open := False\<rparr> else b)"

fun bell_offers :: "bool \<Rightarrow> nat \<Rightarrow> mock_notification list \<Rightarrow> bool \<Rightarrow> bool \<Rightarrow> bell \<Rightarrow> bell_event \<Rightarrow> bool" where
  "bell_offers ld u items has busy b (BE_press c) \<longleftrightarrow> screen_offers (bell_view ld u items has busy (be_open b)) c"
| "bell_offers ld u items has busy b _ \<longleftrightarrow> True"

subsection \<open>The stack of toasts (NotificationToast.jsx)\<close>

record shown_notif =
  sn_toast :: notif_toast
  sn_message :: ustring
  sn_task_id :: js_id

datatype stack_control = ST_open js_id | ST_close string

definition toast_host_view :: "shown_notif list \<Rightarrow> stack_control widget list" where
  "toast_host_view ts =
     concat (map (\<lambda>t. [Button (sn_message t) True (ST_open (sn_task_id t)), Button [0xC54C, 0xB9BC, 0x20,
        0xB2EB, 0xAE30] True (ST_close (nt_id (sn_toast t)))]) ts)"

text \<open>A toast that is opened stays; the frame goes to its task and renders.\<close>

fun stack_press :: "int \<Rightarrow> stack_control \<Rightarrow> app_shell \<times> notif_toast list \<Rightarrow> app_shell \<times> notif_toast list" where
  "stack_press now (ST_open i) (a, ts) = (navigateToTask i a, toast_step ts (now, App_renders))"
| "stack_press now (ST_close k) (a, ts) = (a, toast_step ts (now, Toast_closed k))"

subsection \<open>Properties\<close>

lemma item_view_offers:
  "screen_offers (item_view n) c \<longleftrightarrow> c = BL_item n
     \<or> n_type n = N_DELETE_CONFIRM \<and> c \<in> {BL_resolve (n_task_id n) ''COMPLETE'', BL_resolve (n_task_id n) ''DELETE''}"
  by (auto simp: item_view_def item_actions_def)

lemma bell_view_offers:
  "screen_offers (bell_view ld u items has busy op) c \<longleftrightarrow>
     (case c of
        BL_bell \<Rightarrow> True
      | BL_item n \<Rightarrow> op \<and> \<not> ld \<and> n \<in> set items
      | BL_resolve i a \<Rightarrow> op \<and> \<not> ld \<and> (\<exists>n \<in> set items. n_type n = N_DELETE_CONFIRM \<and> n_task_id n = i \<and> a \<in> {''COMPLETE'', ''DELETE''})
      | BL_readall \<Rightarrow> op \<and> u \<noteq> 0
      | BL_more \<Rightarrow> op \<and> \<not> ld \<and> items \<noteq> [] \<and> has \<and> \<not> busy)"
proof -
  have "\<not> screen_offers (map (\<lambda>b. Caption (ascii b)) ts) x" for ts and x :: bell_control by (induction ts) simp_all
  then show ?thesis
    by (cases c) (auto simp: bell_view_def panel_view_def NotificationPanel_def readall_disabled_def screen_offers_concat item_view_offers)
qed

text \<open>What a call may be, given the list.\<close>

fun call_of_list :: "mock_notification list \<Rightarrow> bell_call \<Rightarrow> bool" where
  "call_of_list items (Item_call (Call_mark_read i)) \<longleftrightarrow> (\<exists>n \<in> set items. n_id n = i \<and> \<not> n_is_read n)"
| "call_of_list items (Item_call (Call_navigate t)) \<longleftrightarrow> (\<exists>n \<in> set items. n_task_id n = t)"
| "call_of_list items (Item_call (Call_resolve t a)) \<longleftrightarrow>
     (\<exists>n \<in> set items. n_type n = N_DELETE_CONFIRM \<and> n_task_id n = t) \<and> a \<in> {''COMPLETE'', ''DELETE''}"
| "call_of_list items _ \<longleftrightarrow> True"

definition bell_ok :: "mock_notification list \<Rightarrow> bell \<Rightarrow> bool" where
  "bell_ok items b \<longleftrightarrow> list_all (call_of_list items) (be_calls b)"

lemma bell_press_ok:
  assumes "bell_ok items b" "screen_offers (bell_view ld u items has busy (be_open b)) c"
  shows "bell_ok items (bell_press c b)"
  using assms by (cases c) (auto simp: bell_ok_def bell_view_offers close_bell_def activate_item_def)

interpretation bell_runs: stepwise "bell_offers ld u items has busy" bell_step "bell_ok items" for ld u items has busy
proof
  fix b e assume "bell_ok items b" "bell_offers ld u items has busy b e"
  then show "bell_ok items (bell_step b e)"
    using bell_press_ok [of items b ld u has busy] by (cases e) (auto simp: bell_ok_def close_bell_def simp del: bell_press.simps)
qed

text \<open>
  Whatever is done with the bell, its calls are about the notifications of its list: only unread ones are
  marked as read, only tasks of the list are gone to, and only those of a question to delete are resolved.
\<close>

theorem bell_calls_belong_to_list:
  assumes "guarded_run (bell_offers ld u items has busy) bell_step new_bell es = Some b"
  shows "list_all (call_of_list items) (be_calls b)"
  using bell_runs.run_keeps [OF assms] by (simp add: bell_ok_def new_bell_def)

text \<open>Opening an entry closes the list and gives the focus back; a closed bell offers only itself.\<close>

theorem opened_entry_closes_bell:
  "\<not> be_open (bell_step b (BE_press (BL_item n))) \<and> be_focus (bell_step b (BE_press (BL_item n)))
   \<and> (bell_offers ld u items has busy (bell_step b (BE_press (BL_item n))) (BE_press c) \<longleftrightarrow> c = BL_bell)"
  by (cases c) (simp_all add: close_bell_def bell_view_offers)

text \<open>
  An opened toast outlives its click: the frame renders, and each toast, the opened one too, starts its three
  seconds again.
\<close>

theorem opened_toast_starts_again:
  "let (a', ts') = stack_press now (ST_open i) (a, ts)
   in ap_page a' = Page_today \<and> ap_scrollTaskId a' = Some i
     \<and> map nt_id ts' = map nt_id ts \<and> (\<forall>t \<in> set ts'. nt_due t = now + AUTO_DISMISS_MS)"
  by (auto simp: navigateToTask_def renew_toasts_def)

end
