(* ===== verification/Tab_Sync.thy ===== *)
theory Tab_Sync
  imports Task_Context Stepwise
begin

text \<open>
  The open tabs of one user together: each is a \<open>TaskProvider\<close> (\<open>context/TaskContext.jsx\<close>) kept in step by
  \<open>hooks/useTaskSync.js\<close>, over a back end and a broadcast channel.  Requests are carried out and answered at
  any time and in any order, messages arrive late, answers get lost.  The back end is a parameter; what a tab
  does with its answers is \<open>Task_Context\<close>.
\<close>

subsection \<open>The tabs and what is under way between them\<close>

text \<open>A request that has not been carried out, or its answer on the way back.\<close>

datatype 'r call = Asked | Underway 'r

type_synonym create_reply = "(api_error \<times> string option) + raw_task"

record 'c sync_tab =
  sy_ctx :: task_ctx
  sy_visible :: bool
  sy_fetches :: "raw_task list option call list"
  sy_updates :: "(pending_update \<times> action \<times> update_reply call) list"
  sy_creates :: "('c \<times> create_reply call) list"
  sy_inbox :: "sync_message list"

record ('s, 'c) back_end =
  bk_pending :: "'s \<Rightarrow> raw_task list option"
  bk_update :: "'s \<Rightarrow> js_id \<Rightarrow> action \<Rightarrow> 's \<times> update_reply"
  bk_create :: "'s \<Rightarrow> 'c \<Rightarrow> 's \<times> create_reply"

record ('s, 'c) sync_world =
  sw_server :: 's
  sw_tabs :: "'c sync_tab list"

subsection \<open>What a tab does (useTaskSync.js, TaskContext.jsx)\<close>

definition start_fetch :: "'c sync_tab \<Rightarrow> 'c sync_tab" where
  "start_fetch t = t\<lparr>sy_ctx := fetch_begin (sy_ctx t), sy_fetches := sy_fetches t @ [Asked]\<rparr>"

definition notice :: "sync_event \<Rightarrow> 'c sync_tab \<Rightarrow> 'c sync_tab" where
  "notice e t = (if useTaskSync True (sy_visible t) e then start_fetch t else t)"

text \<open>A tab when its first effects have run.\<close>

definition opened_tab :: "'c sync_tab" where
  "opened_tab = notice SyncMount
     \<lparr>sy_ctx = ctx_initial, sy_visible = True, sy_fetches = [], sy_updates = [], sy_creates = [], sy_inbox = []\<rparr>"

definition read_message :: "'c sync_tab \<Rightarrow> 'c sync_tab" where
  "read_message t =
     (case sy_inbox t of [] \<Rightarrow> t | m # ms \<Rightarrow> notice (SyncMessage m) (t\<lparr>sy_inbox := ms\<rparr>))"

definition show_tab :: "bool \<Rightarrow> 'c sync_tab \<Rightarrow> 'c sync_tab" where
  "show_tab v t = notice SyncVisibility (t\<lparr>sy_visible := v\<rparr>)"

text \<open>A click on the list of the last render, which is the present one between two events.\<close>

definition click_tab :: "js_id \<Rightarrow> action \<Rightarrow> 'c sync_tab \<Rightarrow> 'c sync_tab" where
  "click_tab tid act t =
     (case update_begin (ctx_tasks (sy_ctx t)) (sy_ctx t) tid act of
        (c, None) \<Rightarrow> t\<lparr>sy_ctx := c\<rparr>
      | (c, Some p) \<Rightarrow> t\<lparr>sy_ctx := c, sy_updates := sy_updates t @ [(p, act, Asked)]\<rparr>)"

definition fetched_tab :: "nat \<Rightarrow> string option + raw_task list option \<Rightarrow> 'c sync_tab \<Rightarrow> 'c sync_tab" where
  "fetched_tab n reply t = t\<lparr>sy_ctx := fetch_settle (sy_ctx t) reply, sy_fetches := drop_nth n (sy_fetches t)\<rparr>"

text \<open>The end of an update and of a creation, with the events for the subscribers.\<close>

definition updated_tab :: "nat \<Rightarrow> update_reply \<Rightarrow> 'c sync_tab \<Rightarrow> 'c sync_tab \<times> change_event list" where
  "updated_tab n reply t =
     (case update_settle (sy_ctx t) (fst (sy_updates t ! n)) reply of
        (c, evs, _) \<Rightarrow> (t\<lparr>sy_ctx := c, sy_updates := drop_nth n (sy_updates t)\<rparr>, evs))"

definition created_tab :: "nat \<Rightarrow> create_reply \<Rightarrow> 'c sync_tab \<Rightarrow> 'c sync_tab \<times> change_event list" where
  "created_tab n reply t =
     (case createTask_settle (sy_ctx t) reply of
        (c, evs, _) \<Rightarrow> (t\<lparr>sy_ctx := c, sy_creates := drop_nth n (sy_creates t)\<rparr>, evs))"

subsection \<open>What happens\<close>

definition on_tab :: "nat \<Rightarrow> ('c sync_tab \<Rightarrow> 'c sync_tab) \<Rightarrow> ('s, 'c) sync_world \<Rightarrow> ('s, 'c) sync_world" where
  "on_tab i f w = w\<lparr>sw_tabs := (sw_tabs w)[i := f (sw_tabs w ! i)]\<rparr>"

text \<open>The channel hands the events of a tab to every other tab.\<close>

definition post_events :: "nat \<Rightarrow> change_event list \<Rightarrow> ('s, 'c) sync_world \<Rightarrow> ('s, 'c) sync_world" where
  "post_events i evs w =
     w\<lparr>sw_tabs := map (\<lambda>(j, t). if j = i then t else t\<lparr>sy_inbox := sy_inbox t @ map ev_type evs\<rparr>) (enumerate 0 (sw_tabs w))\<rparr>"

definition settle_in_tab ::
  "nat \<Rightarrow> ('c sync_tab \<Rightarrow> 'c sync_tab \<times> change_event list) \<Rightarrow> ('s, 'c) sync_world \<Rightarrow> ('s, 'c) sync_world" where
  "settle_in_tab i f w = (case f (sw_tabs w ! i) of (t, evs) \<Rightarrow> post_events i evs (on_tab i (\<lambda>_. t) w))"

definition serve_fetch :: "('s, 'c) back_end \<Rightarrow> nat \<Rightarrow> nat \<Rightarrow> ('s, 'c) sync_world \<Rightarrow> ('s, 'c) sync_world" where
  "serve_fetch B i n w =
     on_tab i (\<lambda>t. t\<lparr>sy_fetches := (sy_fetches t)[n := Underway (bk_pending B (sw_server w))]\<rparr>) w"

definition serve_update :: "('s, 'c) back_end \<Rightarrow> nat \<Rightarrow> nat \<Rightarrow> ('s, 'c) sync_world \<Rightarrow> ('s, 'c) sync_world" where
  "serve_update B i n w =
     (case sy_updates (sw_tabs w ! i) ! n of (p, act, _) \<Rightarrow>
        (case bk_update B (sw_server w) (pu_taskId p) act of (s, r) \<Rightarrow>
           on_tab i (\<lambda>t. t\<lparr>sy_updates := (sy_updates t)[n := (p, act, Underway r)]\<rparr>) (w\<lparr>sw_server := s\<rparr>)))"

definition serve_create :: "('s, 'c) back_end \<Rightarrow> nat \<Rightarrow> nat \<Rightarrow> ('s, 'c) sync_world \<Rightarrow> ('s, 'c) sync_world" where
  "serve_create B i n w =
     (case sy_creates (sw_tabs w ! i) ! n of (input, _) \<Rightarrow>
        (case bk_create B (sw_server w) input of (s, r) \<Rightarrow>
           on_tab i (\<lambda>t. t\<lparr>sy_creates := (sy_creates t)[n := (input, Underway r)]\<rparr>) (w\<lparr>sw_server := s\<rparr>)))"

text \<open>
  An answer is \<open>lost\<close> when the request has been carried out and the tab sees a failure nevertheless; a request
  that \<open>fails\<close> never reaches the back end.
\<close>

datatype 'c tab_event =
    TE_click nat js_id action | TE_create nat 'c
  | TE_serve_fetch nat nat | TE_serve_update nat nat | TE_serve_create nat nat
  | TE_fetched nat nat | TE_fetch_fails nat nat "string option"
  | TE_updated nat nat | TE_update_fails nat nat | TE_update_lost nat nat
  | TE_created nat nat | TE_create_fails nat nat api_error "string option" | TE_create_lost nat nat api_error "string option"
  | TE_message nat | TE_interval nat | TE_visible nat bool

fun answer_of :: "'r call \<Rightarrow> 'r option" where
  "answer_of Asked = None"
| "answer_of (Underway r) = Some r"

fun tabs_step :: "('s, 'c) back_end \<Rightarrow> ('s, 'c) sync_world \<Rightarrow> 'c tab_event \<Rightarrow> ('s, 'c) sync_world" where
  "tabs_step B w (TE_click i tid act) = on_tab i (click_tab tid act) w"
| "tabs_step B w (TE_create i input) = on_tab i (\<lambda>t. t\<lparr>sy_creates := sy_creates t @ [(input, Asked)]\<rparr>) w"
| "tabs_step B w (TE_serve_fetch i n) = serve_fetch B i n w"
| "tabs_step B w (TE_serve_update i n) = serve_update B i n w"
| "tabs_step B w (TE_serve_create i n) = serve_create B i n w"
| "tabs_step B w (TE_fetched i n) =
     (case answer_of (sy_fetches (sw_tabs w ! i) ! n) of None \<Rightarrow> w | Some raw \<Rightarrow> on_tab i (fetched_tab n (Inr raw)) w)"
| "tabs_step B w (TE_fetch_fails i n m) = on_tab i (fetched_tab n (Inl m)) w"
| "tabs_step B w (TE_updated i n) =
     (case answer_of (snd (snd (sy_updates (sw_tabs w ! i) ! n))) of
        None \<Rightarrow> w | Some r \<Rightarrow> settle_in_tab i (updated_tab n r) w)"
| "tabs_step B w (TE_update_fails i n) = settle_in_tab i (updated_tab n Rejected) w"
| "tabs_step B w (TE_update_lost i n) = settle_in_tab i (updated_tab n Rejected) w"
| "tabs_step B w (TE_created i n) =
     (case answer_of (snd (sy_creates (sw_tabs w ! i) ! n)) of
        None \<Rightarrow> w | Some r \<Rightarrow> settle_in_tab i (created_tab n r) w)"
| "tabs_step B w (TE_create_fails i n e m) = settle_in_tab i (created_tab n (Inl (e, m))) w"
| "tabs_step B w (TE_create_lost i n e m) = settle_in_tab i (created_tab n (Inl (e, m))) w"
| "tabs_step B w (TE_message i) = on_tab i read_message w"
| "tabs_step B w (TE_interval i) = on_tab i (notice SyncInterval) w"
| "tabs_step B w (TE_visible i v) = on_tab i (show_tab v) w"

text \<open>What can happen: requests that are there, answers that are on their way.\<close>

fun event_tab :: "'c tab_event \<Rightarrow> nat" where
  "event_tab (TE_click i _ _) = i"
| "event_tab (TE_create i _) = i"
| "event_tab (TE_serve_fetch i _) = i"
| "event_tab (TE_serve_update i _) = i"
| "event_tab (TE_serve_create i _) = i"
| "event_tab (TE_fetched i _) = i"
| "event_tab (TE_fetch_fails i _ _) = i"
| "event_tab (TE_updated i _) = i"
| "event_tab (TE_update_fails i _) = i"
| "event_tab (TE_update_lost i _) = i"
| "event_tab (TE_created i _) = i"
| "event_tab (TE_create_fails i _ _ _) = i"
| "event_tab (TE_create_lost i _ _ _) = i"
| "event_tab (TE_message i) = i"
| "event_tab (TE_interval i) = i"
| "event_tab (TE_visible i _) = i"

definition nth_is :: "('a \<Rightarrow> bool) \<Rightarrow> 'a list \<Rightarrow> nat \<Rightarrow> bool" where
  "nth_is P xs n \<longleftrightarrow> n < length xs \<and> P (xs ! n)"

definition open_call :: "'r call \<Rightarrow> bool" where
  "open_call c \<longleftrightarrow> answer_of c = None"

fun tab_offers :: "'c sync_tab \<Rightarrow> 'c tab_event \<Rightarrow> bool" where
  "tab_offers t (TE_serve_fetch i n) \<longleftrightarrow> nth_is open_call (sy_fetches t) n"
| "tab_offers t (TE_serve_update i n) \<longleftrightarrow> nth_is (\<lambda>(p, a, c). open_call c) (sy_updates t) n"
| "tab_offers t (TE_serve_create i n) \<longleftrightarrow> nth_is (\<lambda>(x, c). open_call c) (sy_creates t) n"
| "tab_offers t (TE_fetched i n) \<longleftrightarrow> nth_is (\<lambda>c. \<not> open_call c) (sy_fetches t) n"
| "tab_offers t (TE_fetch_fails i n m) \<longleftrightarrow> n < length (sy_fetches t)"
| "tab_offers t (TE_updated i n) \<longleftrightarrow> nth_is (\<lambda>(p, a, c). \<not> open_call c) (sy_updates t) n"
| "tab_offers t (TE_update_fails i n) \<longleftrightarrow> nth_is (\<lambda>(p, a, c). open_call c) (sy_updates t) n"
| "tab_offers t (TE_update_lost i n) \<longleftrightarrow> nth_is (\<lambda>(p, a, c). \<not> open_call c) (sy_updates t) n"
| "tab_offers t (TE_created i n) \<longleftrightarrow> nth_is (\<lambda>(x, c). \<not> open_call c) (sy_creates t) n"
| "tab_offers t (TE_create_fails i n e m) \<longleftrightarrow> nth_is (\<lambda>(x, c). open_call c) (sy_creates t) n"
| "tab_offers t (TE_create_lost i n e m) \<longleftrightarrow> nth_is (\<lambda>(x, c). \<not> open_call c) (sy_creates t) n"
| "tab_offers t _ \<longleftrightarrow> True"

definition tabs_offer :: "('s, 'c) sync_world \<Rightarrow> 'c tab_event \<Rightarrow> bool" where
  "tabs_offer w e \<longleftrightarrow> event_tab e < length (sw_tabs w) \<and> tab_offers (sw_tabs w ! event_tab e) e"

definition opened_tabs :: "nat \<Rightarrow> 's \<Rightarrow> ('s, 'c) sync_world" where
  "opened_tabs n s = \<lparr>sw_server = s, sw_tabs = replicate n opened_tab\<rparr>"

subsection \<open>Keeping in step\<close>

text \<open>An accepted change whose tab has not heard of it yet.\<close>

fun accepted_change :: "update_reply call \<Rightarrow> bool" where
  "accepted_change (Underway (Accepted st)) \<longleftrightarrow> True"
| "accepted_change _ \<longleftrightarrow> False"

fun made_task :: "create_reply call \<Rightarrow> bool" where
  "made_task (Underway (Inr raw)) \<longleftrightarrow> True"
| "made_task _ \<longleftrightarrow> False"

definition untold :: "'c sync_tab \<Rightarrow> bool" where
  "untold t \<longleftrightarrow> (\<exists>x \<in> set (sy_updates t). accepted_change (snd (snd x))) \<or> (\<exists>x \<in> set (sy_creates t). made_task (snd x))"

definition news :: "nat \<Rightarrow> ('s, 'c) sync_world \<Rightarrow> bool" where
  "news j w \<longleftrightarrow> sy_inbox (sw_tabs w ! j) \<noteq> [] \<or> (\<exists>i < length (sw_tabs w). untold (sw_tabs w ! i))"

text \<open>A tab that asks, or whose last answer is the present list, or that shows it.\<close>

definition asks_or_shows :: "raw_task list option \<Rightarrow> 'c sync_tab \<Rightarrow> bool" where
  "asks_or_shows raw t \<longleftrightarrow>
     (if sy_fetches t = [] then ctx_tasks (sy_ctx t) = normalizeList raw else last (sy_fetches t) \<in> {Asked, Underway raw})"

definition told_kind :: "sync_message \<Rightarrow> bool" where
  "told_kind m \<longleftrightarrow> m = TASK_STATUS_CHANGED \<or> m = TASK_CREATED"

definition watcher_ok :: "('s, 'c) back_end \<Rightarrow> nat \<Rightarrow> ('s, 'c) sync_world \<Rightarrow> bool" where
  "watcher_ok B j w \<longleftrightarrow>
     j < length (sw_tabs w) \<and> sy_updates (sw_tabs w ! j) = [] \<and> sy_creates (sw_tabs w ! j) = []
     \<and> list_all told_kind (sy_inbox (sw_tabs w ! j))
     \<and> (news j w \<or> asks_or_shows (bk_pending B (sw_server w)) (sw_tabs w ! j))"

text \<open>A change that the back end refuses leaves the list alone.\<close>

definition refusals_change_nothing :: "('s, 'c) back_end \<Rightarrow> bool" where
  "refusals_change_nothing B \<longleftrightarrow>
     (\<forall>s tid a s'. bk_update B s tid a = (s', Rejected) \<longrightarrow> bk_pending B s' = bk_pending B s)
     \<and> (\<forall>s x s' e. bk_create B s x = (s', Inl e) \<longrightarrow> bk_pending B s' = bk_pending B s)"

text \<open>
  Tab \<open>j\<close> watches: nothing is changed in it, none of its fetches fails, and their answers arrive in the order
  in which they were asked for.  No answer to a change is lost anywhere.
\<close>

fun watches :: "nat \<Rightarrow> 'c tab_event \<Rightarrow> bool" where
  "watches j (TE_click i tid act) \<longleftrightarrow> i \<noteq> j"
| "watches j (TE_create i x) \<longleftrightarrow> i \<noteq> j"
| "watches j (TE_fetched i n) \<longleftrightarrow> (i = j \<longrightarrow> n = 0)"
| "watches j (TE_fetch_fails i n m) \<longleftrightarrow> i \<noteq> j"
| "watches j (TE_update_lost i n) \<longleftrightarrow> False"
| "watches j (TE_create_lost i n e m) \<longleftrightarrow> False"
| "watches j _ \<longleftrightarrow> True"

lemma on_tab_simps [simp]:
  "sw_server (on_tab i f w) = sw_server w"
  "length (sw_tabs (on_tab i f w)) = length (sw_tabs w)"
  "i < length (sw_tabs w) \<Longrightarrow> sw_tabs (on_tab i f w) ! i = f (sw_tabs w ! i)"
  "k \<noteq> i \<Longrightarrow> sw_tabs (on_tab i f w) ! k = sw_tabs w ! k"
  by (simp_all add: on_tab_def)

lemma post_events_simps [simp]:
  "sw_server (post_events i evs w) = sw_server w"
  "length (sw_tabs (post_events i evs w)) = length (sw_tabs w)"
  "k < length (sw_tabs w) \<Longrightarrow> sw_tabs (post_events i evs w) ! k =
     (if k = i then sw_tabs w ! k else (sw_tabs w ! k)\<lparr>sy_inbox := sy_inbox (sw_tabs w ! k) @ map ev_type evs\<rparr>)"
  by (simp_all add: post_events_def nth_enumerate_eq)

lemma watcher_other_tab:
  assumes "watcher_ok B j w" "i \<noteq> j" "i < length (sw_tabs w)"
    and "untold (sw_tabs w ! i) \<Longrightarrow> untold (f (sw_tabs w ! i))"
  shows "watcher_ok B j (on_tab i f w)"
proof -
  have "news j w \<Longrightarrow> news j (on_tab i f w)"
    unfolding news_def using assms(2-4) by (metis on_tab_simps(2-4))
  then show ?thesis using assms(1,2) by (auto simp: watcher_ok_def)
qed

lemma watcher_own_tab:
  assumes "watcher_ok B j w"
    and "sy_updates (f (sw_tabs w ! j)) = []" "sy_creates (f (sw_tabs w ! j)) = []"
    and "list_all told_kind (sy_inbox (f (sw_tabs w ! j)))"
    and "sy_inbox (sw_tabs w ! j) \<noteq> [] \<Longrightarrow> sy_inbox (f (sw_tabs w ! j)) \<noteq> [] \<or> asks_or_shows (bk_pending B (sw_server w)) (f (sw_tabs w ! j))"
    and "asks_or_shows (bk_pending B (sw_server w)) (sw_tabs w ! j) \<Longrightarrow> asks_or_shows (bk_pending B (sw_server w)) (f (sw_tabs w ! j))"
  shows "watcher_ok B j (on_tab j f w)"
proof -
  have j: "j < length (sw_tabs w)" "\<not> untold (sw_tabs w ! j)" using assms(1) by (auto simp: watcher_ok_def untold_def)
  have "news j w \<Longrightarrow> news j (on_tab j f w) \<or> asks_or_shows (bk_pending B (sw_server w)) (f (sw_tabs w ! j))"
    unfolding news_def using j assms(5) by (metis on_tab_simps(2-4))
  then show ?thesis using assms by (auto simp: watcher_ok_def)
qed

lemma start_fetch_asks [simp]: "asks_or_shows raw (start_fetch t)"
  by (simp add: asks_or_shows_def start_fetch_def)

lemma start_fetch_simps [simp]:
  "sy_updates (start_fetch t) = sy_updates t" "sy_creates (start_fetch t) = sy_creates t" "sy_inbox (start_fetch t) = sy_inbox t"
  by (simp_all add: start_fetch_def)

lemma notice_simps [simp]:
  "sy_updates (notice e t) = sy_updates t" "sy_creates (notice e t) = sy_creates t" "sy_inbox (notice e t) = sy_inbox t"
  by (simp_all add: notice_def)

lemma show_tab_simps [simp]:
  "sy_updates (show_tab v t) = sy_updates t" "sy_creates (show_tab v t) = sy_creates t" "sy_inbox (show_tab v t) = sy_inbox t"
  by (simp_all add: show_tab_def)

lemma notice_keeps: "asks_or_shows raw t \<Longrightarrow> asks_or_shows raw (notice e t)"
  by (simp add: notice_def)

lemma untold_other:
  "untold (click_tab tid act t) = untold t"
  "untold (fetched_tab n r t) = untold t"
  "untold (read_message t) = untold t"
  "untold (notice e t) = untold t"
  "untold (show_tab v t) = untold t"
  "untold t \<Longrightarrow> untold (t\<lparr>sy_creates := sy_creates t @ [x]\<rparr>)"
  "untold (t\<lparr>sy_fetches := fs\<rparr>) = untold t"
  by (auto simp: untold_def click_tab_def fetched_tab_def read_message_def show_tab_def split: prod.splits option.splits list.splits)

lemma ex_drop_nth:
  assumes "\<exists>x \<in> set xs. P x" "\<not> P (xs ! n)"
  shows "\<exists>x \<in> set (drop_nth n xs). P x"
proof (cases "n < length xs")
  case True
  have "set xs = insert (xs ! n) (set (drop_nth n xs))"
    using arg_cong [OF id_take_nth_drop [OF True], of set] by (auto simp: drop_nth_def)
  with assms show ?thesis by auto
qed (use assms in \<open>simp add: drop_nth_def\<close>)

lemma ex_list_update:
  assumes "\<exists>x \<in> set xs. P x" "\<not> P (xs ! n)"
  shows "\<exists>x \<in> set (xs[n := y]). P x"
proof -
  from assms(1) obtain k where k: "k < length xs" "P (xs ! k)" by (auto simp: in_set_conv_nth)
  with assms(2) have "k \<noteq> n" by auto
  with k have "xs[n := y] ! k = xs ! k" "k < length (xs[n := y])" by simp_all
  with k show ?thesis by (metis nth_mem)
qed

text \<open>Removing or replacing a change that is not news keeps the news.\<close>

lemma untold_drop:
  assumes "untold t"
  shows "\<not> accepted_change (snd (snd (sy_updates t ! n))) \<Longrightarrow> untold (t\<lparr>sy_ctx := c, sy_updates := drop_nth n (sy_updates t)\<rparr>)"
    and "\<not> made_task (snd (sy_creates t ! n)) \<Longrightarrow> untold (t\<lparr>sy_ctx := c, sy_creates := drop_nth n (sy_creates t)\<rparr>)"
  using assms ex_drop_nth [of "sy_updates t" "\<lambda>x. accepted_change (snd (snd x))" n] ex_drop_nth [of "sy_creates t" "\<lambda>x. made_task (snd x)" n]
  unfolding untold_def by simp_all blast+

lemma untold_replace:
  assumes "untold t"
  shows "\<not> accepted_change (snd (snd (sy_updates t ! n))) \<Longrightarrow> untold (t\<lparr>sy_updates := (sy_updates t)[n := y]\<rparr>)"
    and "\<not> made_task (snd (sy_creates t ! n)) \<Longrightarrow> untold (t\<lparr>sy_creates := (sy_creates t)[n := z]\<rparr>)"
  using assms ex_list_update [of "sy_updates t" "\<lambda>x. accepted_change (snd (snd x))" n y] ex_list_update [of "sy_creates t" "\<lambda>x. made_task (snd x)" n z]
  unfolding untold_def by simp_all blast+

lemma open_not_news: "open_call c \<Longrightarrow> \<not> accepted_change c" "open_call d \<Longrightarrow> \<not> made_task d"
  by (cases c; simp add: open_call_def) (cases d; simp add: open_call_def)

lemma watcher_settled:
  assumes w: "watcher_ok B j w" and i: "i \<noteq> j" "i < length (sw_tabs w)"
    and f: "f (sw_tabs w ! i) = (t, evs)" "list_all told_kind (map ev_type evs)"
    and keep: "evs = [] \<Longrightarrow> untold (sw_tabs w ! i) \<Longrightarrow> untold t"
  shows "watcher_ok B j (settle_in_tab i f w)"
proof (cases "evs = []")
  case True
  have "watcher_ok B j (on_tab i (\<lambda>_. t) w)" by (rule watcher_other_tab [OF w i]) (rule keep [OF True])
  moreover have "settle_in_tab i f w = on_tab i (\<lambda>_. t) w"
    unfolding settle_in_tab_def f(1) True by (simp add: post_events_def case_prod_unfold nth_equalityI nth_enumerate_eq list_eq_iff_nth_eq)
  ultimately show ?thesis by simp
next
  case False
  then show ?thesis using w i f(2) by (simp add: settle_in_tab_def f(1) watcher_ok_def news_def)
qed

lemma watcher_updated:
  assumes w: "watcher_ok B j w" and i: "i \<noteq> j" "i < length (sw_tabs w)"
    and c: "accepted_change (snd (snd (sy_updates (sw_tabs w ! i) ! n))) \<Longrightarrow> r \<noteq> Rejected"
  shows "watcher_ok B j (settle_in_tab i (updated_tab n r) w)"
proof -
  obtain c' evs d where u: "update_settle (sy_ctx (sw_tabs w ! i)) (fst (sy_updates (sw_tabs w ! i) ! n)) r = (c', evs, d)"
    by (cases "update_settle (sy_ctx (sw_tabs w ! i)) (fst (sy_updates (sw_tabs w ! i) ! n)) r")
  then have e: "list_all told_kind (map ev_type evs)" "evs = [] \<Longrightarrow> r = Rejected"
    by (auto simp: update_settle_def told_kind_def Let_def split: update_reply.splits)
  show ?thesis
  proof (rule watcher_settled [OF w i _ e(1)])
    show "updated_tab n r (sw_tabs w ! i) =
        ((sw_tabs w ! i)\<lparr>sy_ctx := c', sy_updates := drop_nth n (sy_updates (sw_tabs w ! i))\<rparr>, evs)"
      by (simp add: updated_tab_def u)
  qed (use e(2) c untold_drop(1) in blast)
qed

lemma watcher_created:
  assumes w: "watcher_ok B j w" and i: "i \<noteq> j" "i < length (sw_tabs w)"
    and c: "made_task (snd (sy_creates (sw_tabs w ! i) ! n)) \<Longrightarrow> \<exists>raw. r = Inr raw"
  shows "watcher_ok B j (settle_in_tab i (created_tab n r) w)"
proof -
  obtain c' evs d where u: "createTask_settle (sy_ctx (sw_tabs w ! i)) r = (c', evs, d)"
    by (cases "createTask_settle (sy_ctx (sw_tabs w ! i)) r")
  then have e: "list_all told_kind (map ev_type evs)" "evs = [] \<Longrightarrow> \<not> (\<exists>raw. r = Inr raw)"
    by (auto simp: createTask_settle_def told_kind_def split: sum.splits option.splits)
  show ?thesis
  proof (rule watcher_settled [OF w i _ e(1)])
    show "created_tab n r (sw_tabs w ! i) =
        ((sw_tabs w ! i)\<lparr>sy_ctx := c', sy_creates := drop_nth n (sy_creates (sw_tabs w ! i))\<rparr>, evs)"
      by (simp add: created_tab_def u)
  qed (use e(2) c untold_drop(2) in blast)
qed

lemma watcher_served_update:
  assumes w: "watcher_ok B j w" and B: "refusals_change_nothing B" and i: "i < length (sw_tabs w)"
    and n: "nth_is (\<lambda>(p, a, c). open_call c) (sy_updates (sw_tabs w ! i)) n"
  shows "watcher_ok B j (serve_update B i n w)"
proof -
  let ?t = "sw_tabs w ! i"
  obtain p act c where u: "sy_updates ?t ! n = (p, act, c)" by (cases "sy_updates ?t ! n")
  obtain s r where r: "bk_update B (sw_server w) (pu_taskId p) act = (s, r)" by (cases "bk_update B (sw_server w) (pu_taskId p) act")
  let ?f = "\<lambda>t. t\<lparr>sy_updates := (sy_updates t)[n := (p, act, Underway r)]\<rparr>"
  have ij: "i \<noteq> j" using n w by (auto simp: nth_is_def watcher_ok_def)
  have eq: "serve_update B i n w = on_tab i ?f (w\<lparr>sw_server := s\<rparr>)" by (simp add: serve_update_def u r)
  show ?thesis
  proof (cases r)
    case Rejected
    then have "bk_pending B s = bk_pending B (sw_server w)" using B r by (auto simp: refusals_change_nothing_def)
    then have "watcher_ok B j (w\<lparr>sw_server := s\<rparr>)" using w by (simp add: watcher_ok_def news_def)
    moreover have "untold ?t \<Longrightarrow> untold (?f ?t)"
      using untold_replace(1) [of ?t n] open_not_news(1) [of c] n u by (simp add: nth_is_def)
    ultimately show ?thesis unfolding eq using i by (intro watcher_other_tab [OF _ ij]) simp_all
  next
    case (Accepted st)
    have "(p, act, Underway r) \<in> set ((sy_updates ?t)[n := (p, act, Underway r)])" using n by (simp add: nth_is_def set_update_memI)
    then have "untold (?f ?t)" unfolding untold_def Accepted by force
    then have "news j (serve_update B i n w)" unfolding news_def eq using i by (intro disjI2 exI [of _ i]) simp
    then show ?thesis using w ij by (simp add: watcher_ok_def eq)
  qed
qed

lemma watcher_served_create:
  assumes w: "watcher_ok B j w" and B: "refusals_change_nothing B" and i: "i < length (sw_tabs w)"
    and n: "nth_is (\<lambda>(x, c). open_call c) (sy_creates (sw_tabs w ! i)) n"
  shows "watcher_ok B j (serve_create B i n w)"
proof -
  let ?t = "sw_tabs w ! i"
  obtain x c where u: "sy_creates ?t ! n = (x, c)" by (cases "sy_creates ?t ! n")
  obtain s r where r: "bk_create B (sw_server w) x = (s, r)" by (cases "bk_create B (sw_server w) x")
  let ?f = "\<lambda>t. t\<lparr>sy_creates := (sy_creates t)[n := (x, Underway r)]\<rparr>"
  have ij: "i \<noteq> j" using n w by (auto simp: nth_is_def watcher_ok_def)
  have eq: "serve_create B i n w = on_tab i ?f (w\<lparr>sw_server := s\<rparr>)" by (simp add: serve_create_def u r)
  show ?thesis
  proof (cases r)
    case (Inl e)
    then have "bk_pending B s = bk_pending B (sw_server w)" using B r unfolding refusals_change_nothing_def by metis
    then have "watcher_ok B j (w\<lparr>sw_server := s\<rparr>)" using w by (simp add: watcher_ok_def news_def)
    moreover have "untold ?t \<Longrightarrow> untold (?f ?t)"
      using untold_replace(2) [of ?t n] open_not_news(2) [of c] n u by (simp add: nth_is_def)
    ultimately show ?thesis unfolding eq using i by (intro watcher_other_tab [OF _ ij]) simp_all
  next
    case (Inr raw)
    have "(x, Underway r) \<in> set ((sy_creates ?t)[n := (x, Underway r)])" using n by (simp add: nth_is_def set_update_memI)
    then have "untold (?f ?t)" unfolding untold_def Inr by force
    then have "news j (serve_create B i n w)" unfolding news_def eq using i by (intro disjI2 exI [of _ i]) simp
    then show ?thesis using w ij by (simp add: watcher_ok_def eq)
  qed
qed

lemma watcher_step:
  assumes w: "watcher_ok B j w" and B: "refusals_change_nothing B" and o: "tabs_offer w e" "watches j e"
  shows "watcher_ok B j (tabs_step B w e)"
proof -
  have i: "event_tab e < length (sw_tabs w)" "tab_offers (sw_tabs w ! event_tab e) e" using o(1) by (simp_all add: tabs_offer_def)
  have none: "sy_updates (sw_tabs w ! j) = []" "sy_creates (sw_tabs w ! j) = []" "list_all told_kind (sy_inbox (sw_tabs w ! j))"
    using w by (simp_all add: watcher_ok_def)
  show ?thesis
  proof (cases e)
    case (TE_click k tid act)
    with o i show ?thesis by (auto intro: watcher_other_tab [OF w] simp: untold_other)
  next
    case (TE_create k x)
    with o i show ?thesis by (auto intro: watcher_other_tab [OF w] simp: untold_other)
  next
    case (TE_serve_fetch k n)
    show ?thesis
    proof (cases "k = j")
      case True
      have "asks_or_shows raw t \<Longrightarrow> asks_or_shows raw (t\<lparr>sy_fetches := (sy_fetches t)[n := Underway raw]\<rparr>)" for raw and t :: "'b sync_tab"
        by (auto simp: asks_or_shows_def last_list_update)
      then show ?thesis using TE_serve_fetch True none by (auto simp: serve_fetch_def intro: watcher_own_tab [OF w])
    next
      case False
      with TE_serve_fetch i show ?thesis by (auto simp: serve_fetch_def untold_other intro: watcher_other_tab [OF w])
    qed
  next
    case (TE_serve_update k n)
    with i watcher_served_update [OF w B, of k n] show ?thesis by simp
  next
    case (TE_serve_create k n)
    with i watcher_served_create [OF w B, of k n] show ?thesis by simp
  next
    case (TE_fetched k n)
    with i obtain raw where raw: "sy_fetches (sw_tabs w ! k) ! n = Underway raw" "n < length (sy_fetches (sw_tabs w ! k))"
      by (auto simp: nth_is_def open_call_def elim: answer_of.elims)
    show ?thesis
    proof (cases "k = j")
      case True
      with TE_fetched o raw have n: "n = 0" "sy_fetches (sw_tabs w ! j) \<noteq> []" "hd (sy_fetches (sw_tabs w ! j)) = Underway raw"
        by (auto simp: hd_conv_nth)
      have "asks_or_shows r t \<Longrightarrow> sy_fetches t \<noteq> [] \<Longrightarrow> hd (sy_fetches t) = Underway raw \<Longrightarrow> asks_or_shows r (fetched_tab 0 (Inr raw) t)"
        for r and t :: "'b sync_tab"
        by (cases "sy_fetches t"; cases "tl (sy_fetches t)")
           (auto simp: asks_or_shows_def fetched_tab_def drop_nth_def fetch_settle_def)
      then show ?thesis using TE_fetched True raw n none
        by (auto simp: fetched_tab_def intro!: watcher_own_tab [OF w])
    next
      case False
      with TE_fetched i raw show ?thesis by (auto simp: untold_other intro: watcher_other_tab [OF w])
    qed
  next
    case (TE_fetch_fails k n m)
    with o i show ?thesis by (auto intro: watcher_other_tab [OF w] simp: untold_other)
  next
    case (TE_updated k n)
    then have k: "nth_is (\<lambda>(p, a, c). \<not> open_call c) (sy_updates (sw_tabs w ! k)) n" "k < length (sw_tabs w)" using i by simp_all
    then obtain r where r: "snd (snd (sy_updates (sw_tabs w ! k) ! n)) = Underway r"
      by (auto simp: nth_is_def open_call_def elim: answer_of.elims split: prod.splits)
    have "k \<noteq> j" using k(1) none by (auto simp: nth_is_def)
    moreover have "accepted_change (Underway r) \<Longrightarrow> r \<noteq> Rejected" by (cases r) auto
    ultimately show ?thesis using watcher_updated [OF w _ k(2), of n r] r TE_updated by simp
  next
    case (TE_update_fails k n)
    then have k: "nth_is (\<lambda>(p, a, c). open_call c) (sy_updates (sw_tabs w ! k)) n" "k < length (sw_tabs w)" using i by simp_all
    then have "k \<noteq> j" "\<not> accepted_change (snd (snd (sy_updates (sw_tabs w ! k) ! n)))"
      using none open_not_news(1) by (auto simp: nth_is_def split: prod.splits)
    with watcher_updated [OF w _ k(2), of n Rejected] TE_update_fails show ?thesis by simp
  next
    case (TE_created k n)
    then have k: "nth_is (\<lambda>(x, c). \<not> open_call c) (sy_creates (sw_tabs w ! k)) n" "k < length (sw_tabs w)" using i by simp_all
    then obtain r where r: "snd (sy_creates (sw_tabs w ! k) ! n) = Underway r"
      by (auto simp: nth_is_def open_call_def elim: answer_of.elims split: prod.splits)
    have "k \<noteq> j" using k(1) none by (auto simp: nth_is_def)
    moreover have "made_task (Underway r) \<Longrightarrow> \<exists>raw. r = Inr raw" by (cases r) auto
    ultimately show ?thesis using watcher_created [OF w _ k(2), of n r] r TE_created by simp
  next
    case (TE_create_fails k n err m)
    then have k: "nth_is (\<lambda>(x, c). open_call c) (sy_creates (sw_tabs w ! k)) n" "k < length (sw_tabs w)" using i by simp_all
    then have "k \<noteq> j" "\<not> made_task (snd (sy_creates (sw_tabs w ! k) ! n))"
      using none open_not_news(2) by (auto simp: nth_is_def split: prod.splits)
    with watcher_created [OF w _ k(2), of n "Inl (err, m)"] TE_create_fails show ?thesis by simp
  next
    case (TE_message k)
    show ?thesis
    proof (cases "k = j")
      case True
      have "asks_or_shows r (read_message t)" if "list_all told_kind (sy_inbox t)" "sy_inbox t \<noteq> [] \<or> asks_or_shows r t"
        for r and t :: "'b sync_tab"
        using that by (cases "sy_inbox t") (auto simp: read_message_def notice_def told_kind_def)
      then show ?thesis using TE_message True none
        by (auto simp: read_message_def intro!: watcher_own_tab [OF w] split: list.splits)
    next
      case False
      with TE_message i show ?thesis by (auto simp: untold_other intro: watcher_other_tab [OF w])
    qed
  next
    case (TE_interval k)
    with i none show ?thesis
      by (cases "k = j") (auto simp: untold_other notice_keeps intro: watcher_other_tab [OF w] watcher_own_tab [OF w])
  next
    case (TE_visible k v)
    have "asks_or_shows r t \<Longrightarrow> asks_or_shows r (show_tab v t)" for r and t :: "'b sync_tab"
      unfolding show_tab_def by (rule notice_keeps) (auto simp: asks_or_shows_def)
    with TE_visible i none show ?thesis
      by (cases "k = j") (auto simp: untold_other intro: watcher_other_tab [OF w] watcher_own_tab [OF w])
  qed (use o in simp_all)
qed

interpretation watched_tabs: stepwise "\<lambda>w e. tabs_offer w e \<and> watches j e" "tabs_step B"
    "\<lambda>w. refusals_change_nothing B \<and> watcher_ok B j w" for j and B :: "('s, 'c) back_end"
  by unfold_locales (auto intro: watcher_step)


text \<open>
  Answers are taken as they come: when the older of two lists arrives last, the tab shows it until something
  makes it ask again.
\<close>

theorem overtaken_list_stays:
  assumes "i < length (sw_tabs w)" "sy_fetches (sw_tabs w ! i) = [Underway old, Underway new]"
  shows "let w' = foldl (tabs_step B) w [TE_fetched i 1, TE_fetched i 0]
     in ctx_tasks (sy_ctx (sw_tabs w' ! i)) = normalizeList old \<and> sy_fetches (sw_tabs w' ! i) = []
       \<and> sy_inbox (sw_tabs w' ! i) = sy_inbox (sw_tabs w ! i) \<and> sw_server w' = sw_server w"
  using assms by (simp add: fetched_tab_def drop_nth_def fetch_settle_def)

subsection \<open>Two tabs\<close>

definition small_back_end :: "(raw_task list, api_error) back_end" where
  "small_back_end =
     \<lparr>bk_pending = Some,
      bk_update = (\<lambda>s tid act. if act = ACT_START then ([raw_of_store (sample_task ''1'' D_ACTIVE False)], Accepted None) else (s, Rejected)),
      bk_create = (\<lambda>s e. (s, Inl (e, None)))\<rparr>"

definition two_tabs_run :: "api_error tab_event list" where
  "two_tabs_run =
     [TE_serve_fetch 0 0, TE_fetched 0 0, TE_serve_fetch 1 0, TE_click 0 (Str_id ''1'') ACT_START, TE_interval 1,
      TE_serve_update 0 0, TE_fetched 1 0, TE_updated 0 0, TE_serve_fetch 1 0, TE_message 1, TE_fetched 1 0,
      TE_serve_fetch 1 0, TE_fetched 1 0]"

lemma small_back_end_simps:
  "bk_pending small_back_end = Some"
  "bk_update small_back_end s tid ACT_START = ([raw_of_store (sample_task ''1'' D_ACTIVE False)], Accepted None)"
  by (simp_all add: small_back_end_def)

lemma one_task_list: "normalizeList (Some [raw_of_store (sample_task i d b)]) = [sample_task i d b]"
  by (simp add: normalizeList_def normalize_raw_of_store)

lemma click_on_task:
  "update_begin [sample_task ''1'' D_IDLE False] c (Str_id ''1'') ACT_START =
     (c\<lparr>ctx_tasks := applyOptimisticStatus (ctx_tasks c) (Str_id ''1'') D_ACTIVE\<rparr>,
      Some \<lparr>pu_taskId = Str_id ''1'', pu_prev = D_IDLE, pu_optimistic = D_ACTIVE\<rparr>)"
  by (simp add: update_begin_def getStatus_def sample_task_def optimisticStatusFor_def canTransition_action_def)

lemma two_tabs_settle:
  "\<exists>w. guarded_run tabs_offer (tabs_step small_back_end) (opened_tabs 2 [raw_sample ''1'']) two_tabs_run = Some w
     \<and> (\<forall>t \<in> set (sw_tabs w). sy_updates t = [] \<and> sy_creates t = [])
     \<and> sy_inbox (sw_tabs w ! 1) = [] \<and> sy_fetches (sw_tabs w ! 1) = []
     \<and> sw_server w = [raw_of_store (sample_task ''1'' D_ACTIVE False)]"
  by (simp add: two_tabs_run_def opened_tabs_def opened_tab_def notice_def start_fetch_def tabs_offer_def nth_is_def open_call_def
      serve_fetch_def serve_update_def on_tab_def fetched_tab_def drop_nth_def fetch_settle_def fetch_begin_def click_tab_def
      small_back_end_simps numeral_2_eq_2 one_task_list click_on_task raw_sample_def ctx_initial_def
      settle_in_tab_def updated_tab_def update_settle_def post_events_def read_message_def Let_def)


end
