(* ===== verification/Audio_Api.thy ===== *)
theory Audio_Api
  imports Wake_Wizard Api_Tasks
begin

text \<open>
  The calls to the audio service on the user's machine, \<open>frontend/src/api/audioDaemon.js\<close>: the request each
  one makes, how its answer settles, the address of the level stream, and what the settings dialogue
  (\<open>AudioActivationSettings.jsx\<close>, in \<open>Wake_Wizard\<close>) asks of it when it saves.
\<close>

subsection \<open>Requests\<close>

text \<open>The base address may be configured; the stream's has \<open>ws\<close> in the place of a leading \<open>http\<close>, in any case of its letters.\<close>

definition AUDIO_DAEMON_URL :: "string option \<Rightarrow> string" where
  "AUDIO_DAEMON_URL configured = (case configured of None \<Rightarrow> ''http://localhost:8770'' | Some u \<Rightarrow> u)"

definition http_to_ws :: "string \<Rightarrow> string" where
  "http_to_ws u =
     (if list_all2 (\<lambda>c cs. c \<in> set cs) (take 4 u) [''hH'', ''tT'', ''tT'', ''pP''] then ''ws'' @ drop 4 u else u)"

definition AUDIO_DAEMON_WS :: "string option \<Rightarrow> string" where
  "AUDIO_DAEMON_WS configured = http_to_ws (AUDIO_DAEMON_URL configured) @ ''/stream/level''"

datatype audio_call =
    AU_getDevices | AU_selectDevice int | AU_controlStream string | AU_getStatus | AU_setAutostart bool | AU_controlService string

record daemon_request =
  aq_method :: http_method
  aq_url :: string
  aq_json :: "(string \<times> param) list option"

definition audio_post :: "string \<Rightarrow> (string \<times> param) list \<Rightarrow> daemon_request" where
  "audio_post url body = \<lparr>aq_method = POST, aq_url = url, aq_json = Some body\<rparr>"

fun audio_request :: "string \<Rightarrow> audio_call \<Rightarrow> daemon_request" where
  "audio_request base AU_getDevices = \<lparr>aq_method = GET, aq_url = base @ ''/devices'', aq_json = None\<rparr>"
| "audio_request base (AU_selectDevice i) = audio_post (base @ ''/devices/select'') [(''device_id'', P_num (of_int i))]"
| "audio_request base (AU_controlStream a) =
     \<lparr>aq_method = POST, aq_url = base @ ''/control/stream?action='' @ a, aq_json = None\<rparr>"
| "audio_request base AU_getStatus = \<lparr>aq_method = GET, aq_url = base @ ''/control/status'', aq_json = None\<rparr>"
| "audio_request base (AU_setAutostart b) = audio_post (base @ ''/control/autostart'') [(''enabled'', P_bool b)]"
| "audio_request base (AU_controlService a) =
     \<lparr>aq_method = POST, aq_url = base @ ''/control/service?action='' @ a, aq_json = None\<rparr>"

text \<open>
  An answer by its status and what reading its body as JSON gives: an error unless the status is a success,
  nothing for 204, else the body, whose reading may fail.
\<close>

definition audio_settles :: "int \<Rightarrow> string + 'a \<Rightarrow> string + 'a option" where
  "audio_settles status json =
     (if \<not> (200 \<le> status \<and> status \<le> 299) then Inl (''audio-daemon '' @ show_int status)
      else if status = 204 then Inr None
      else map_sum id Some json)"

text \<open>The requests of the settings dialogue among what saving sends.\<close>

fun save_request :: "daemon_call \<Rightarrow> audio_call list" where
  "save_request (Select_device i) = [AU_selectDevice i]"
| "save_request (Control_stream on) = [AU_controlStream (if on then ''start'' else ''stop'')]"
| "save_request (Config_updated keys models restart) = []"

definition save_requests :: "string \<Rightarrow> bool \<Rightarrow> audio_settings \<Rightarrow> daemon_request list" where
  "save_requests base select_ok a = map (audio_request base) (concat (map save_request (handleSave select_ok a)))"

subsection \<open>Properties\<close>

text \<open>No two calls make the same request, whatever the actions are.\<close>

theorem audio_requests_differ: "audio_request base c = audio_request base d \<longleftrightarrow> c = d"
  by (cases c; cases d) (auto simp: audio_post_def)

text \<open>The stream is reached where the service is: over \<open>ws\<close> when that is \<open>http\<close>, over \<open>wss\<close> when it is \<open>https\<close>.\<close>

theorem stream_follows_service:
  "AUDIO_DAEMON_WS None = ''ws://localhost:8770/stream/level''"
  "AUDIO_DAEMON_WS (Some (''http://'' @ host)) = ''ws://'' @ host @ ''/stream/level''"
  "AUDIO_DAEMON_WS (Some (''https://'' @ host)) = ''wss://'' @ host @ ''/stream/level''"
  by (simp_all add: AUDIO_DAEMON_WS_def AUDIO_DAEMON_URL_def http_to_ws_def)

text \<open>
  Saving makes one request for the device and, when that has succeeded, one that starts or stops the stream
  as the switch says; the phrase, the sensitivities and the clap settings are in neither.
\<close>

theorem save_reaches_daemon:
  "save_requests base select_ok a =
     audio_request base (AU_selectDevice (as_selected a))
     # (if select_ok then [audio_request base (AU_controlStream (if as_isEnabled a then ''start'' else ''stop''))] else [])"
  "save_requests base select_ok (a\<lparr>as_wakeWord := w, as_sensitivity := x, as_clapSensitivity := y, as_clapEnabled := p, as_doubleClap := q\<rparr>)
     = save_requests base select_ok a"
  by (simp_all add: save_requests_def handleSave_def)

text \<open>An answer is a value only when its status is a success; anything else is an error that names it.\<close>

theorem audio_answer_cases:
  "(\<exists>x. audio_settles status json = Inr (Some x)) \<longleftrightarrow> 200 \<le> status \<and> status \<le> 299 \<and> status \<noteq> 204 \<and> (\<exists>x. json = Inr x)"
  "status < 200 \<or> 299 < status \<Longrightarrow> audio_settles status json = Inl (''audio-daemon '' @ show_int status)"
  by (cases json; auto simp: audio_settles_def) (auto simp: audio_settles_def)

end
