(* ===== verification/Overdue_Schedule.thy ===== *)
theory Overdue_Schedule
  imports Overdue_Scan
begin

text \<open>
  When the nightly scan runs: \<open>OVERDUE_CRON\<close> of \<open>queue/overdueNotificationScheduler.ts\<close> and the repeated
  job of \<open>queue/registerOverdueSchedule.ts\<close>, whose worker scans with the current instant.  The pattern is
  read the way the queue documents it (minute, hour, day, month, weekday; a star for any), in the server's own
  zone, since the job names none; the scan computes its days in the zone of the service.
\<close>

subsection \<open>The pattern\<close>

definition OVERDUE_CRON :: string where
  "OVERDUE_CRON = ''5 0 * * *''"

datatype cron_field = Any | Exactly int

fun split_spaces :: "string \<Rightarrow> string list" where
  "split_spaces [] = [[]]"
| "split_spaces (c # cs) =
     (if c = CHR '' '' then [] # split_spaces cs
      else (case split_spaces cs of [] \<Rightarrow> [[c]] | p # ps \<Rightarrow> (c # p) # ps))"

definition read_field :: "string \<Rightarrow> cron_field option" where
  "read_field s = (if s = ''*'' then Some Any else map_option (\<lambda>n. Exactly (int n)) (read_digits 0 s))"

definition read_cron :: "string \<Rightarrow> cron_field list option" where
  "read_cron s =
     (let fs = map read_field (split_spaces s)
      in if length fs = 5 \<and> None \<notin> set fs then Some (map the fs) else None)"

definition field_matches :: "cron_field \<Rightarrow> int \<Rightarrow> bool" where
  "field_matches f v \<longleftrightarrow> (case f of Any \<Rightarrow> True | Exactly x \<Rightarrow> v = x)"

definition minute_ms :: int where "minute_ms = 60000"

definition local_minute :: "zone \<Rightarrow> int \<Rightarrow> int" where
  "local_minute z t = local_ms z t mod hour_ms div minute_ms"

text \<open>A job is due at the full minutes whose fields match.\<close>

definition cron_fires :: "string \<Rightarrow> zone \<Rightarrow> int \<Rightarrow> bool" where
  "cron_fires pattern z t \<longleftrightarrow>
     local_ms z t mod minute_ms = 0
     \<and> (case read_cron pattern of
          None \<Rightarrow> False
        | Some fs \<Rightarrow> list_all2 field_matches fs [local_minute z t, getHours z t, getDate z t, getMonth z t + 1, getDay z t])"

text \<open>The instant at which the scan of the server's day \<open>n\<close> is due; \<open>off\<close> is the offset of the server's zone.\<close>

definition scan_instant :: "int \<Rightarrow> int \<Rightarrow> int" where
  "scan_instant off n = n * day_ms - off + 5 * minute_ms"

text \<open>The worker: the scan with the clock of the moment, everything else as the environment has it.\<close>

definition scheduled_env :: "scan_env \<Rightarrow> int \<Rightarrow> int \<Rightarrow> scan_env" where
  "scheduled_env e off n = e\<lparr>se_local := fixed_zone off, se_now := scan_instant off n\<rparr>"

text \<open>How many days the calendar of the service, at offset \<open>svc\<close>, is ahead of the server's at the scan.\<close>

definition schedule_shift :: "int \<Rightarrow> int \<Rightarrow> int" where
  "schedule_shift svc off = (svc - off + 5 * minute_ms) div day_ms"

subsection \<open>Lemmas\<close>

lemma read_OVERDUE_CRON: "read_cron OVERDUE_CRON = Some [Exactly 5, Exactly 0, Any, Any, Any]"
  by (simp add: read_cron_def OVERDUE_CRON_def read_field_def Let_def digit_value_def)

lemma five_past_midnight:
  fixes m :: int
  assumes "0 \<le> m"
  shows "m mod minute_ms = 0 \<and> m mod hour_ms div minute_ms = 5 \<and> m div hour_ms = 0 \<longleftrightarrow> m = 5 * minute_ms"
proof
  assume a: "m mod minute_ms = 0 \<and> m mod hour_ms div minute_ms = 5 \<and> m div hour_ms = 0"
  then have "m mod hour_ms = m" using div_mult_mod_eq [of m hour_ms] by simp
  with a have "m div minute_ms = 5" by simp
  then show "m = 5 * minute_ms" using a div_mult_mod_eq [of m minute_ms] by simp
qed (simp add: minute_ms_def hour_ms_def)

lemma scan_local:
  "toLocal (fixed_zone svc) (scan_instant off n) = n * day_ms + (svc - off + 5 * minute_ms)"
  by (simp add: fixed_zone_def scan_instant_def)

lemma scan_service_day: "local_day (fixed_zone svc) (scan_instant off n) = n + schedule_shift svc off"
  by (simp add: local_day_def scan_local schedule_shift_def day_ms_def)

subsection \<open>Properties\<close>

text \<open>
  The pattern means five past midnight: in a server zone with a fixed offset the scans are due exactly once
  in each day of the server.
\<close>

theorem scan_due_daily: "cron_fires OVERDUE_CRON (fixed_zone off) t \<longleftrightarrow> (\<exists>n. t = scan_instant off n)"
proof -
  let ?z = "fixed_zone off"
  have ms: "0 \<le> local_ms ?z t" by (simp add: local_ms_def day_ms_def)
  have "cron_fires OVERDUE_CRON ?z t \<longleftrightarrow> local_ms ?z t = 5 * minute_ms"
    using five_past_midnight [OF ms]
    by (simp add: cron_fires_def read_OVERDUE_CRON field_matches_def local_minute_def getHours_def)
  also have "\<dots> \<longleftrightarrow> (\<exists>n. t = scan_instant off n)"
  proof
    assume "local_ms ?z t = 5 * minute_ms"
    then have "t + off = local_day ?z t * day_ms + 5 * minute_ms"
      using local_split(1) [of ?z t] by (simp add: fixed_zone_def)
    then have "t = scan_instant off (local_day ?z t)" by (simp add: scan_instant_def)
    then show "\<exists>n. t = scan_instant off n" by blast
  next
    assume "\<exists>n. t = scan_instant off n"
    then obtain n where "t = scan_instant off n" by blast
    then have "toLocal ?z t = n * day_ms + 5 * minute_ms" by (simp add: scan_local)
    then show "local_ms ?z t = 5 * minute_ms" by (simp add: local_ms_def day_ms_def minute_ms_def)
  qed
  finally show ?thesis .
qed


text \<open>
  At which time of the service's day that is depends on the server: five past midnight only when the two offsets
  agree up to whole days.
\<close>

theorem scan_time_of_day:
  "local_ms (fixed_zone svc) (scan_instant off n) = (svc - off + 5 * minute_ms) mod day_ms"
  "local_ms (fixed_zone svc) (scan_instant off n) = 5 * minute_ms \<longleftrightarrow> day_ms dvd svc - off"
proof -
  show 1: "local_ms (fixed_zone svc) (scan_instant off n) = (svc - off + 5 * minute_ms) mod day_ms"
    by (simp add: local_ms_def scan_local day_ms_def)
  have "5 * minute_ms mod day_ms = 5 * minute_ms" by (simp add: minute_ms_def day_ms_def)
  then have "local_ms (fixed_zone svc) (scan_instant off n) = 5 * minute_ms
      \<longleftrightarrow> (svc - off + 5 * minute_ms) mod day_ms = (0 + 5 * minute_ms) mod day_ms" using 1 by simp
  also have "\<dots> \<longleftrightarrow> (svc - off) mod day_ms = 0 mod day_ms"
    by (metis add_diff_cancel_right' mod_add_cong mod_diff_left_eq)
  finally show "local_ms (fixed_zone svc) (scan_instant off n) = 5 * minute_ms \<longleftrightarrow> day_ms dvd svc - off"
    by (simp add: dvd_eq_mod_eq_0)
qed

text \<open>On a server in Greenwich the scan for Korea's day is due at five past nine in the morning there.\<close>

theorem greenwich_server_scans_at_nine:
  "getHours (fixed_zone (9 * hour_ms)) (scan_instant 0 n) = 9 \<and> local_minute (fixed_zone (9 * hour_ms)) (scan_instant 0 n) = 5"
  using scan_time_of_day(1) [of "9 * hour_ms" 0 n]
  by (simp add: getHours_def local_minute_def hour_ms_def minute_ms_def day_ms_def)


end
