(* ===== verification/Motion.thy ===== *)
theory Motion
  imports Alarm_Client
begin

text \<open>
  The geometry of the movements: how \<open>alarm-system/src/client/AlarmManager.ts\<close> lets the cards of a list slide to
  their new places (first, last, invert, play), the elements it adds to a document once, and the hooks of
  \<open>frontend/src/hooks/useAnimations.js\<close> that compute something.  Where the browser puts the children of a
  list is a parameter, \<open>place\<close>.
\<close>

subsection \<open>Sliding the cards (AlarmManager.ts)\<close>

type_synonym placing = "list_node list \<Rightarrow> nat \<Rightarrow> int \<times> int"

text \<open>The recorded places; an empty id is none, and of several children with one id the last counts.\<close>

definition firstPositions :: "placing \<Rightarrow> list_node list \<Rightarrow> string \<Rightarrow> (int \<times> int) option" where
  "firstPositions place children i =
     (if i = [] then None
      else map_option (\<lambda>n. place children (ln_key n)) (List.find (\<lambda>n. ln_task n = Some i) (rev children)))"

text \<open>The translation a child starts with; \<open>None\<close> when it is left alone.\<close>

definition flip_offset :: "placing \<Rightarrow> list_node list \<Rightarrow> list_node list \<Rightarrow> list_node \<Rightarrow> (int \<times> int) option" where
  "flip_offset place children newChildren n =
     (case ln_task n of
        None \<Rightarrow> None
      | Some i \<Rightarrow>
          (case firstPositions place children i of
             None \<Rightarrow> None
           | Some (x0, y0) \<Rightarrow>
               (let (x, y) = place newChildren (ln_key n); dx = x0 - x; dy = y0 - y
                in if dx \<noteq> 0 \<or> dy \<noteq> 0 then Some (dx, dy) else None)))"

definition animateTaskReordering :: "placing \<Rightarrow> list_node list \<Rightarrow> listed_task list \<Rightarrow> list_node list \<times> (nat \<times> int \<times> int) list" where
  "animateTaskReordering place children tasks =
     (let newChildren = reorder_tasks children tasks
      in (newChildren,
          List.map_filter (\<lambda>n. map_option (\<lambda>d. (ln_key n, d)) (flip_offset place children newChildren n)) newChildren))"

text \<open>Where a child is seen: its place, moved by its translation, which the next frame takes away.\<close>

definition seen_at :: "placing \<Rightarrow> list_node list \<times> (nat \<times> int \<times> int) list \<Rightarrow> bool \<Rightarrow> nat \<Rightarrow> int \<times> int" where
  "seen_at place a played k =
     (let (x, y) = place (fst a) k
      in if played then (x, y) else (case lookup (snd a) k of None \<Rightarrow> (x, y) | Some (dx, dy) \<Rightarrow> (x + dx, y + dy)))"

subsection \<open>Elements added once (AlarmManager.ts)\<close>

text \<open>
  The container of the toasts and the style sheet are looked up by their id first; a document is the list of
  its ids.
\<close>

definition ensure_element :: "string \<Rightarrow> string list \<Rightarrow> string list" where
  "ensure_element i doc = (if i \<in> set doc then doc else doc @ [i])"

definition construct_manager :: "string list \<Rightarrow> string list" where
  "construct_manager doc = ensure_element ''sigma-toast-container'' (ensure_element ''sigma-alarm-styles'' doc)"

subsection \<open>Hooks (useAnimations.js)\<close>

text \<open>\<open>useTimerFlip\<close>: the value of the last render and the key, after the effect of a render with a value.\<close>

definition flip_effect :: "'v \<times> nat \<Rightarrow> 'v \<Rightarrow> 'v \<times> nat" where
  "flip_effect s v = (if fst s \<noteq> v then (v, snd s + 1) else s)"

definition useTimerFlip :: "'v \<Rightarrow> 'v list \<Rightarrow> nat" where
  "useTimerFlip v vs = snd (foldl flip_effect (v, 0) vs)"

definition usePulse :: "bool \<Rightarrow> string \<Rightarrow> string" where
  "usePulse condition className = (if condition then className else '''')"

text \<open>\<open>createRipple\<close>: diameter, left and top of the circle in the host at a pointer.\<close>

record ripple =
  rp_diameter :: js_num
  rp_left :: js_num
  rp_top :: js_num

definition createRipple :: "js_num \<times> js_num \<Rightarrow> js_num \<times> js_num \<Rightarrow> js_num \<times> js_num \<Rightarrow> ripple" where
  "createRipple extent box client =
     (let diameter = max (fst extent) (snd extent); radius = diameter / 2
      in \<lparr>rp_diameter = diameter, rp_left = fst client - fst box - radius, rp_top = snd client - snd box - radius\<rparr>)"

subsection \<open>Lemmas\<close>

lemma style_node_id [simp]: "ln_key (style_node t n) = ln_key n" "ln_task (style_node t n) = ln_task n"
  by (simp_all add: style_node_def)

abbreviation node_ids :: "list_node list \<Rightarrow> (nat \<times> string option) set" where
  "node_ids ns \<equiv> (\<lambda>n. (ln_key n, ln_task n)) ` set ns"

lemma append_child_ids: "node_ids (append_child k (style_node t) ns) = node_ids ns"
proof -
  have "x \<in> node_ids (append_child k (style_node t) ns) \<longleftrightarrow> x \<in> node_ids ns" for x
  proof (cases x)
    case (Pair a b)
    show ?thesis unfolding Pair by (cases "a = k") (auto simp: append_child_def image_Un image_image image_iff)
  qed
  then show ?thesis by blast
qed

lemma reorder_ids: "node_ids (reorder_tasks children tasks) = node_ids children"
proof -
  have "node_ids (foldl (\<lambda>ns t. case node_of children (show_int (lt_id t)) of None \<Rightarrow> ns
          | Some k \<Rightarrow> append_child k (style_node t) ns) ns tasks) = node_ids ns" for ns
  proof (induction tasks arbitrary: ns)
    case (Cons t ts)
    then show ?case using append_child_ids [of _ t ns] by (auto split: option.splits)
  qed simp
  then show ?thesis by (simp add: reorder_tasks_def)
qed

lemma append_child_order:
  "map ln_key (append_child k (style_node t) ns) = filter (\<lambda>j. j \<noteq> k) (map ln_key ns) @ filter (\<lambda>j. j = k) (map ln_key ns)"
  by (simp add: append_child_def filter_map comp_def)

lemma append_child_distinct: "distinct (map ln_key ns) \<Longrightarrow> distinct (map ln_key (append_child k (style_node t) ns))"
  by (auto simp: append_child_order simp del: distinct_map)

lemma reorder_distinct: "distinct (map ln_key children) \<Longrightarrow> distinct (map ln_key (reorder_tasks children tasks))"
proof -
  have "distinct (map ln_key ns) \<Longrightarrow> distinct (map ln_key (foldl (\<lambda>ns t. case node_of children (show_int (lt_id t)) of None \<Rightarrow> ns
          | Some k \<Rightarrow> append_child k (style_node t) ns) ns tasks))" for ns
  proof (induction tasks arbitrary: ns)
    case (Cons t ts)
    then show ?case using append_child_distinct by (auto split: option.splits simp del: distinct_map)
  qed simp
  then show "distinct (map ln_key children) \<Longrightarrow> distinct (map ln_key (reorder_tasks children tasks))"
    by (simp add: reorder_tasks_def)
qed

lemma lookup_map_filter:
  "distinct (map ln_key ns) \<Longrightarrow> n \<in> set ns \<Longrightarrow>
   lookup (List.map_filter (\<lambda>n. map_option (\<lambda>d. (ln_key n, d)) (f n)) ns) (ln_key n) = f n"
proof (induction ns)
  case (Cons m ns)
  have none: "lookup (List.map_filter (\<lambda>n. map_option (\<lambda>d. (ln_key n, d)) (f n)) ns) k = None" if "k \<notin> ln_key ` set ns" for k
    using that by (auto simp: map_of_eq_None_iff List.map_filter_def)
  show ?case
  proof (cases "n = m")
    case True
    then show ?thesis using Cons.prems none [of "ln_key m"] by (cases "f m") (simp_all add: List.map_filter_simps)
  next
    case False
    then have "ln_key n \<noteq> ln_key m" using Cons.prems by (metis imageI distinct.simps(2) list.simps(9) set_ConsD set_map)
    then show ?thesis using Cons False by (cases "f m") (simp_all add: List.map_filter_simps)
  qed
qed simp

text \<open>Of children with different ids each has its own recorded place.\<close>

lemma recorded_place:
  assumes "distinct (List.map_filter ln_task children)" "m \<in> set children" "ln_task m = Some i" "i \<noteq> []"
  shows "firstPositions place children i = Some (place children (ln_key m))"
proof -
  have "\<exists>n. List.find (\<lambda>n. ln_task n = Some i) (rev children) = Some n"
    using assms(2,3) find_None_iff [of "\<lambda>n. ln_task n = Some i" "rev children"] by auto
  then obtain n where n: "List.find (\<lambda>n. ln_task n = Some i) (rev children) = Some n" by blast
  then have "n \<in> set children" "ln_task n = Some i" using find_key_Some [OF n] by simp_all
  moreover have "inj_on (the \<circ> ln_task) {n \<in> set children. ln_task n \<noteq> None}"
    using assms(1) by (simp add: List.map_filter_def distinct_map)
  ultimately have "n = m" using inj_onD [of "the \<circ> ln_task" _ n m] assms(2,3) by simp
  then show ?thesis using n assms(4) by (simp add: firstPositions_def)
qed

subsection \<open>Properties\<close>

text \<open>
  Sliding begins where the cards were and ends where they belong: whatever the answer of the server and
  wherever the browser puts the children, each card with an id is at first seen exactly where it was before
  the reordering, and after the next frame in its new place.
\<close>

theorem cards_slide_from_old_place:
  assumes "distinct (map ln_key children)" "distinct (List.map_filter ln_task children)"
    and "m \<in> set children" "ln_task m = Some i" "i \<noteq> []"
  shows "let a = animateTaskReordering place children tasks in
     seen_at place a False (ln_key m) = place children (ln_key m)
     \<and> seen_at place a True (ln_key m) = place (reorder_tasks children tasks) (ln_key m)"
proof -
  let ?new = "reorder_tasks children tasks"
  have "(ln_key m, ln_task m) \<in> node_ids ?new" using assms(3) reorder_ids [of children tasks] by blast
  then obtain n where n: "n \<in> set ?new" "ln_key n = ln_key m" "ln_task n = ln_task m" by auto
  have look: "lookup (snd (animateTaskReordering place children tasks)) (ln_key m) = flip_offset place children ?new n"
    using lookup_map_filter [OF reorder_distinct [OF assms(1)] n(1)] n(2) by (simp add: animateTaskReordering_def Let_def)
  have first: "firstPositions place children i = Some (place children (ln_key m))"
    by (rule recorded_place [OF assms(2-5)])
  obtain x0 y0 where old: "place children (ln_key m) = (x0, y0)" by (cases "place children (ln_key m)")
  obtain x y where new: "place ?new (ln_key m) = (x, y)" by (cases "place ?new (ln_key m)")
  have "flip_offset place children ?new n = (if x0 - x \<noteq> 0 \<or> y0 - y \<noteq> 0 then Some (x0 - x, y0 - y) else None)"
    using n assms(4) first old new by (simp add: flip_offset_def Let_def)
  then show ?thesis
    using look old new by (simp add: Let_def seen_at_def animateTaskReordering_def [THEN arg_cong [where f = fst], simplified Let_def fst_conv])
qed

text \<open>A second manager on the page finds what the first has added.\<close>

theorem managers_share_elements:
  "set (construct_manager doc) = set doc \<union> {''sigma-toast-container'', ''sigma-alarm-styles''}
   \<and> construct_manager (construct_manager doc) = construct_manager doc
   \<and> (distinct doc \<longrightarrow> distinct (construct_manager doc))"
  by (auto simp: construct_manager_def ensure_element_def)

text \<open>The key of a flipped digit counts the changes of its value, not the renders.\<close>

theorem flips_count_changes: "useTimerFlip v vs + 1 = length (remdups_adj (v # vs))"
proof -
  have "snd (foldl flip_effect (v, k) vs) + 1 = k + length (remdups_adj (v # vs))" for k
  proof (induction vs arbitrary: v k)
    case (Cons x xs)
    then show ?case by (cases "x = v") (auto simp: flip_effect_def)
  qed simp
  from this [of 0] show ?thesis by (simp add: useTimerFlip_def)
qed

text \<open>The circle is centred at the pointer and reaches every corner distance of half the longer side.\<close>

theorem ripple_centred:
  "rp_left (createRipple e b c) + rp_diameter (createRipple e b c) / 2 = fst c - fst b
   \<and> rp_top (createRipple e b c) + rp_diameter (createRipple e b c) / 2 = snd c - snd b"
  by (simp add: createRipple_def Let_def)

lemma cards_slide_from_old_place_witness:
  "let children = [child 0 (Some ''1''), child 1 (Some ''2'')]; place = (\<lambda>ns k. (0, if ln_key (hd ns) = k then 0 else 72));
       a = animateTaskReordering place children [\<lparr>lt_id = 2, lt_deferred = True, lt_count = 3\<rparr>, \<lparr>lt_id = 1, lt_deferred = False, lt_count = 0\<rparr>]
   in seen_at place a False 1 = (0, 72)"
proof -
  let ?c = "[child 0 (Some ''1''), child 1 (Some ''2'')]"
  have "distinct (map ln_key ?c)" "distinct (List.map_filter ln_task ?c)" "child 1 (Some ''2'') \<in> set ?c"
    "ln_task (child 1 (Some ''2'')) = Some ''2''" "''2'' \<noteq> []"
    by (simp_all add: child_def List.map_filter_simps)
  from cards_slide_from_old_place [OF this, of "\<lambda>ns k. (0, if ln_key (hd ns) = k then 0 else 72)"]
  show ?thesis by (simp add: Let_def child_def)
qed

end
