(* ===== verification/Spec2Isabelle.thy ===== *)
theory Spec2Isabelle
  imports Budget_Ledger Timer_Store Task_Runtime Task_Context Mock_Backend Daemon_Ipc Primary_Tab Local_Storage
    Voice_Nlp Priority_Service Badge_Cache Alarm_Scheduler Alarm_Routes Alarm_Page Server_App Notification_Feed
    Task_Forms App_Chrome Today_Screen Voice_Screen Audio_Panel Form_Screen Side_Screens Bell_Screen
    Tab_Sync Audio_Api Overdue_Schedule Motion
begin

text \<open>
  A task manager that charges work against the time a user has on a day.  The page
  (\<open>src/frontend/src\<close>) keeps the tasks, their timers and the day's budget; the task server
  (\<open>src/alarm-system/src\<close>) keeps the tables, decides about status changes, reservations and the priority
  task, and sends notifications and alarms.  The page talks to the server over HTTP and web sockets, to the
  audio daemon over a framed socket protocol, and to its other tabs over a broadcast channel.

  \<^bold>\<open>How the code is modelled.\<close>  A component of the code is a theory; a state object is a record with the
  code's fields, a function or handler is a function on it that returns the new state, with one branch per
  early return and error.  Numbers of JavaScript are rationals with \<open>NaN\<close> added where it arises
  (\<open>Js_Values\<close>); text is the list of its UTF-16 code units; instants are milliseconds.  An asynchronous
  function is split at its awaits into a part before and a part after, so that theorems quantify over the
  interleavings; what the database, the store or a socket answers is an argument.  Statements of SQL are
  written out as functions on lists of rows (\<open>Server_Db\<close>), a transaction is one atomic step.

  \<^bold>\<open>The page.\<close>
  \<^item> \<open>Availability\<close>, \<open>Budget_Ledger\<close>: \<open>lib/availability.js\<close>, \<open>context/AvailableTimeContext.jsx\<close> and
    \<open>stores/availableTimeStore.js\<close>; the three counters implement a ledger of tasks.
  \<^item> \<open>Timer_Engine\<close>, \<open>Timer_Store\<close>: \<open>lib/timerEngine.js\<close>, \<open>context/TimerContext.jsx\<close>,
    \<open>stores/timerStore.js\<close>; accounting of time, independence of the schedule of ticks, one running timer,
    the two stores simulate each other, completion pays the refund.
  \<^item> \<open>Task_Runtime\<close>: \<open>lib/taskRuntime.js\<close>, \<open>hooks/useTaskRuntime.js\<close>; one running entry.
  \<^item> \<open>Display_Status\<close>: \<open>lib/displayStatus.js\<close>, the action buttons, and \<open>state/taskTransitions.ts\<close> of the
    server; the buttons are the transitions the server accepts.
  \<^item> \<open>Task_Store\<close>, \<open>Task_Context\<close>: \<open>lib/taskStoreCore.js\<close>, \<open>context/TaskContext.jsx\<close>,
    \<open>stores/taskStore.js\<close>, \<open>hooks/useTaskSync.js\<close>; optimistic updates and their roll-back under any
    interleaving with other updates and polls.
  \<^item> \<open>Api_Tasks\<close>, \<open>Api_Errors\<close>, \<open>Mock_Backend\<close>: \<open>api/tasks.js\<close>, \<open>hooks/useNotifications.js\<close>,
    \<open>api/client.js\<close> with the server's \<open>errors/errorCodes.ts\<close>, \<open>api/mock.js\<close>.
  \<^item> \<open>Json\<close>, \<open>Utf8\<close>, \<open>Ipc_Protocol\<close>, \<open>Daemon_Ipc\<close>, \<open>Primary_Tab\<close>: \<open>lib/ipcProtocol.js\<close>,
    \<open>api/daemonIpc.js\<close>, \<open>lib/primaryTab.js\<close>, \<open>hooks/useDaemonIpc.js\<close>; frames survive the wire, a cut
    frame is refused, queued frames keep their order, one primary tab.
  \<^item> \<open>Local_Storage\<close>: \<open>lib/storage.js\<close>.
  \<^item> \<open>Voice_Nlp\<close>: \<open>lib/voiceNlp.js\<close>, over the regular expressions of \<open>Js_Regex\<close> (a backtracking matcher,
    whose iterations are bounded by the length of the text) and the calendar of \<open>Js_Date\<close>.

  \<^bold>\<open>The pages.\<close>  Every call of a hook or handler is split at its await, so that calls overlap; where a page
  is run on the mock back end the two step together and an invariant says that they show the same.
  \<^item> \<open>Task_List\<close>: \<open>hooks/useTasks.js\<close>, \<open>hooks/useAvailableTime.js\<close>, \<open>hooks/useTimer.js\<close>; added rows settle in
    any order, undo, and what overlapping changes lose.
  \<^item> \<open>Today_List\<close>, \<open>Today_Page\<close>: \<open>pages/TodayTasksPage.jsx\<close>, the list of \<open>ImportantTasksPage.jsx\<close> and
    \<open>MiniTasks.jsx\<close>; each task is shown once, finishing and creating keep page and back end alike.
  \<^item> \<open>Side_Pages\<close>: \<open>pages/HistoryPage.jsx\<close>, \<open>pages/ArchivePage.jsx\<close>; the merged history, its groups, the
    archive with its undo.
  \<^item> \<open>Page_Dialogs\<close>: \<open>ZombieModal.jsx\<close> with its handlers on both pages, the menus of \<open>TopBar.jsx\<close>, the entries of
    \<open>NotificationPanel.jsx\<close> and \<open>NotificationItem.jsx\<close>, \<open>ContextBar.jsx\<close>, \<open>Modal.jsx\<close>; putting off keeps page and
    back end alike.
  \<^item> \<open>Task_Card\<close>: \<open>TaskCard.jsx\<close>, \<open>CountdownTimer.jsx\<close>, \<open>TimerDisplay.jsx\<close>, \<open>AvailableTimeDisplay.jsx\<close>, the badge of
    \<open>NotificationBell.jsx\<close>; a card completes once, the countdown counts what is stored.
  \<^item> \<open>Task_Forms\<close>: \<open>TaskCreationModal.jsx\<close>, \<open>AddTaskModal.jsx\<close>, \<open>QuickAddModal.jsx\<close>; what is submitted the
    server's check accepts.
  \<^item> \<open>App_Shell\<close>: \<open>App.jsx\<close>, \<open>CommandPalette.jsx\<close>, \<open>NotificationToast.jsx\<close>, the weights of \<open>SettingsModal.jsx\<close>.
  \<^item> \<open>Tab_Sync\<close>: several tabs with \<open>context/TaskContext.jsx\<close> and \<open>hooks/useTaskSync.js\<close> over one back end and a
    broadcast channel; a tab in which nothing is changed ends with the list of the back end, however requests,
    answers and messages interleave, as long as its own answers keep their order.
  \<^item> \<open>Notification_Feed\<close>: \<open>api/notifications.js\<close>, the subscription; each notification is announced once.
  \<^item> \<open>Voice_Capture\<close>: \<open>lib/voiceGemini.js\<close>, \<open>VoiceTaskCapture.jsx\<close>; one task per utterance, none after closing.
  \<^item> \<open>Wake_Wizard\<close>: \<open>WakeWordWizard.jsx\<close>, \<open>VUMeter.jsx\<close>, \<open>AudioActivationSettings.jsx\<close>.
  \<^item> \<open>Audio_Api\<close>: \<open>api/audioDaemon.js\<close>, the requests to the audio service and how their answers settle.

  \<^bold>\<open>The screens.\<close>  \<open>Screen\<close> has the widgets that a component renders, as far as its user can act on them; a screen
  theory gives the list of widgets for a state, one event per control, and a step function over the handlers of the
  theories above.  Its theorems are about every run of events that the rendered widgets offer.
  \<^item> \<open>App_Chrome\<close>: \<open>App.jsx\<close> with \<open>Sidebar.jsx\<close>, \<open>TopBar.jsx\<close>, \<open>SettingsModal.jsx\<close>, \<open>HelpModal.jsx\<close>,
    \<open>CommandPalette.jsx\<close>, \<open>Toast.jsx\<close> and \<open>utils/platform.js\<close>; what is stored is what is shown, at every point.
  \<^item> \<open>Today_Screen\<close>: the controls of \<open>pages/TodayTasksPage.jsx\<close>, \<open>EmptyState.jsx\<close>, \<open>ContextBar.jsx\<close>, the mini
    widget with its window, the jump to the card of a notification.
  \<^item> \<open>Form_Screen\<close>: \<open>TaskCreationModal.jsx\<close>, \<open>PriorityBlockedBanner.jsx\<close>, \<open>AddTaskModal.jsx\<close>, \<open>QuickAddModal.jsx\<close>, and
    the creation of tasks on the page with requests that overlap; every request passes the server's check.
  \<^item> \<open>Side_Screens\<close>: \<open>TaskCard.jsx\<close>, \<open>TagBadge.jsx\<close>, \<open>TaskActionButtons.jsx\<close>, \<open>CountdownTimer.jsx\<close>,
    \<open>AvailableTimeDisplay.jsx\<close>, \<open>HistoryPage.jsx\<close>, \<open>FilterTabs.jsx\<close>, \<open>SummaryBar.jsx\<close>, \<open>ImportantTasksPage.jsx\<close>,
    \<open>MiniTasks.jsx\<close>, \<open>ZombieModal.jsx\<close>, \<open>ArchivePage.jsx\<close>; the archive is ahead of the back end by its requests.
  \<^item> \<open>Bell_Screen\<close>: \<open>NotificationBell.jsx\<close>, \<open>NotificationPanel.jsx\<close>, \<open>NotificationItem.jsx\<close>, \<open>NotificationToast.jsx\<close>.
  \<^item> \<open>Voice_Screen\<close>, \<open>Audio_Panel\<close>: \<open>VoiceTaskCapture.jsx\<close>; \<open>AudioActivationSettings.jsx\<close> with its wizard and
    \<open>ToastNotification.jsx\<close>, and the daemon's answers, which may be late.
  \<^item> \<open>Motion\<close>: the sliding of the cards of \<open>client/AlarmManager.ts\<close>, what it adds to the document once, and
    \<open>hooks/useAnimations.js\<close>.

  \<^bold>\<open>The server.\<close>
  \<^item> \<open>Server_Db\<close>, \<open>Time_Service\<close>: \<open>services/availableTimeService.ts\<close>, \<open>routes/taskTimeRoutes.ts\<close>; no day is
    overbooked, and the page's counters move as the server's do.
  \<^item> \<open>Priority_Service\<close>: \<open>services/priorityTaskService.ts\<close>, \<open>services/taskStatusService.ts\<close>,
    \<open>routes/priorityRoutes.ts\<close>; status requests refine the transition machine, the cache is true.
  \<^item> \<open>Overdue\<close>, \<open>Notification_Text\<close>: \<open>notifications/overdue.ts\<close>, \<open>notifications/messages.ts\<close>,
    \<open>lib/sanitize.ts\<close>, \<open>lib/mask.ts\<close>.
  \<^item> \<open>Keyset\<close>: a locale for reading a table page by page behind a cursor, interpreted for the nightly scan
    (\<open>by_id\<close> in \<open>Overdue_Scan\<close>) and for the list of notifications (\<open>by_created\<close> in \<open>Notification_Routes\<close>).
  \<^item> \<open>Notification_Server\<close>, \<open>Overdue_Scan\<close>, \<open>Notification_Routes\<close>: \<open>realtime/notificationDispatcher.ts\<close>,
    \<open>notifications/queries.ts\<close>, \<open>routes/notificationRoutes.ts\<close>, \<open>queue/overdueNotificationScheduler.ts\<close>;
    the scan is one pass and ends, a second one is silent, pages list everything once, badges are true.
    The fuel of the scan is one page per task and one more, which the first theorem shows to be enough.
  \<^item> \<open>Overdue_Schedule\<close>: \<open>queue/registerOverdueSchedule.ts\<close>, the cron pattern; each number of days overdue
    belongs to one scan.
  \<^item> \<open>Badge_Cache\<close>: \<open>cache/notificationBadgeCache.ts\<close>, command by command under any interleaving; one request
    computes at a time, every request is answered.
  \<^item> \<open>Server_Middleware\<close>: \<open>middleware/auth.ts\<close>, \<open>middleware/rateLimit.ts\<close>; the verification of a token is an
    argument.
  \<^item> \<open>Server_App\<close>: the mounts of \<open>app.ts\<close> and the routes of the four routers; every request matches at most one
    route, and the page's calls arrive at the routes meant for them.
  \<^item> \<open>Alarm_Scheduler\<close>, \<open>Alarm_Client\<close>, \<open>Alarm_Delivery\<close>, \<open>Alarm_Page\<close>, \<open>Alarm_Routes\<close>: \<open>queue/alarmScheduler.ts\<close>,
    \<open>client/AlarmManager.ts\<close>, \<open>realtime/socketHandler.ts\<close>, \<open>routes/alarmRoutes.ts\<close>; one job per task, no
    alarm is lost, each is shown once.

  \<^bold>\<open>Libraries.\<close>  \<open>Prelude\<close> has the lookups in association lists, the showing and reading of numbers and the
  updates of rows that all components share; \<open>Stepwise\<close> has the locale of runs event by event, interpreted
  for the pages, the screens, the palette, the wizard, the level meter, the tabs and the alarm connection;
  \<open>Js_Date\<close> models the language's \<open>Date\<close> in a zone given by its
  two conversions, with the proleptic Gregorian calendar computed from day numbers.

  \<^bold>\<open>Assumptions.\<close>  The column \<open>id\<close> that two statements use is taken to be \<open>task_id\<close>; ties of an
  \<open>ORDER BY\<close> keep the order of the rows; a rational stands for a floating point number, so rounding of
  fractions is not seen; text of a query parameter is represented by what \<open>Number\<close> reads in it.

  \<^bold>\<open>Not modelled.\<close>  Style sheets, class names and icons, React's own rendering, the durations and curves of
  animations, and where the browser puts an element, which \<open>Motion\<close> has as a parameter; the copying of style sheets
  into the window of the mini widget; speech recognition and synthesis, whose results are events of the dialogue;
  the text of the prompt for the language model; the construction of the connections and the start of the
  listener in \<open>app.ts\<close>; the stories and tests; the Java back end, the Python audio daemon and the slide
  generator, which are in other languages or no part of the program.
\<close>

end
